(* ===== verification/Prelude.thy ===== *)
theory Prelude
  imports Main "HOL-Library.Word"
begin

text \<open>
  Shared vocabulary of the development: the machine integer types of the C code, the faults a
  C memory access can end in, C strings as character lists, error propagation over sums, and the
  generic lemmas the component theories share.
\<close>

unbundle bit_operations_syntax

type_synonym u8 = "8 word"
type_synonym u16 = "16 word"
type_synonym u32 = "32 word"
type_synonym u64 = "64 word"

section \<open>Faults and error propagation\<close>

text \<open>
  What a run of the C code can end in besides a value: a read outside an array, a write outside
  an array, or a loop that never ends.  A function that can fault returns \<open>fault + 'a\<close>.
\<close>

datatype fault = Oob_read | Oob_write | No_return

text \<open>The early return of the code: stop at the first error, continue with the value otherwise.\<close>

abbreviation try_then :: "'e + 'a \<Rightarrow> ('a \<Rightarrow> 'e + 'b) \<Rightarrow> 'e + 'b" where
  "try_then m k \<equiv> (case m of Inl e \<Rightarrow> Inl e | Inr x \<Rightarrow> k x)"

named_theorems frame_simps \<open>fields an operation leaves unchanged\<close>
named_theorems exec_simps \<open>one-step facts of the bytecode machine\<close>
named_theorems shrink_simps \<open>how much input an operation consumes\<close>

lemma try_then_Inr_iff:
  "try_then m k = Inr y \<longleftrightarrow> (\<exists>x. m = Inr x \<and> k x = Inr y)"
  by (cases m) auto

lemma try_then_InrE:
  assumes "try_then m k = Inr y"
  obtains x where "m = Inr x" "k x = Inr y"
  using assms by (cases m) auto

section \<open>C strings\<close>

text \<open>
  A C string is the list of its characters before the terminating NUL.  \<open>strncpy (dst, src, n)\<close>
  into an array of more than \<open>n\<close> zeroed bytes keeps the first \<open>n\<close> characters.
\<close>

definition NUL :: char where
  "NUL = CHR 0x00"

definition strncpy_z :: "nat \<Rightarrow> string \<Rightarrow> string" where
  "strncpy_z n s = take n s"

lemma length_strncpy_z: "length (strncpy_z n s) \<le> n"
  by (simp add: strncpy_z_def)

lemma strncpy_z_id: "length s \<le> n \<Longrightarrow> strncpy_z n s = s"
  by (simp add: strncpy_z_def)

section \<open>Words\<close>

lemma unat_of_nat_small:
  "n < 2 ^ LENGTH('a::len) \<Longrightarrow> unat (of_nat n :: 'a word) = n"
  by (simp add: unat_of_nat take_bit_nat_eq_self)

lemma unat_Suc_word:
  fixes x y :: "'a::len word"
  assumes "x < y"
  shows "unat (x + 1) = Suc (unat x)"
proof -
  have "Suc (unat x) \<le> unat y" using assms by (simp add: word_less_nat_alt)
  then have "Suc (unat x) < 2 ^ LENGTH('a)" by (rule le_less_trans) (rule unsigned_less)
  then show ?thesis
    by (simp add: unat_word_ariths)
qed

lemma unat_add_no_wrap:
  fixes x y :: "'a::len word"
  assumes "unat x + unat y < 2 ^ LENGTH('a)"
  shows "unat (x + y) = unat x + unat y"
  using assms by (simp add: unat_word_ariths)

section \<open>Lists\<close>

lemma drop_Cons_iff:
  "drop n xs = y # ys \<longleftrightarrow> n < length xs \<and> xs ! n = y \<and> drop (Suc n) xs = ys"
proof (cases "n < length xs")
  case True
  then show ?thesis by (auto simp flip: Cons_nth_drop_Suc)
qed auto

end
