(* ===== verification/Lexer.thy ===== *)
theory Lexer
  imports Prelude
begin

text \<open>
  The tokenizer of protocol definitions: \<open>src/src/pdef/lexer.h\<close> and \<open>src/src/pdef/lexer.c\<close>.
  The lexer record is the C struct; \<open>source\<close> is the text before the terminating NUL, and reading
  at its end gives that NUL.  Positions, lines and columns are natural numbers: they agree with the
  \<open>uint32_t\<close> counters for sources shorter than \<open>2 ^ 32\<close> characters.  The formatted message in
  \<open>error_msg\<close> is kept as the datum it is formatted from.
\<close>

section \<open>Tokens and the lexer state\<close>

datatype (plugins only: code size) TokenType =
  TOKEN_IDENTIFIER | TOKEN_NUMBER | TOKEN_STRING
| TOKEN_PROTOCOL | TOKEN_CONST | TOKEN_FILTER
| TOKEN_UINT8 | TOKEN_UINT16 | TOKEN_UINT32 | TOKEN_UINT64
| TOKEN_INT8 | TOKEN_INT16 | TOKEN_INT32 | TOKEN_INT64
| TOKEN_BYTES | TOKEN_STRING_TYPE | TOKEN_VARBYTES
| TOKEN_LBRACE | TOKEN_RBRACE | TOKEN_LBRACKET | TOKEN_RBRACKET
| TOKEN_SEMICOLON | TOKEN_COMMA | TOKEN_DOT | TOKEN_ASSIGN
| TOKEN_EQ | TOKEN_NE | TOKEN_LT | TOKEN_LE | TOKEN_GT | TOKEN_GE
| TOKEN_AND | TOKEN_OR | TOKEN_IN | TOKEN_NOT | TOKEN_AT
| TOKEN_EOF | TOKEN_ERROR

record Token =
  t_type :: TokenType
  t_text :: string
  t_value :: u64
  t_line :: nat
  t_column :: nat

datatype (plugins only: code size) LexError =
  Invalid_hex_number nat
| Unterminated_string nat
| Unknown_keyword string nat
| Unexpected_character char nat nat

record Lexer =
  source :: string
  pos :: nat
  line :: nat
  column :: nat
  lex_error :: "LexError option"

section \<open>Characters\<close>

definition is_alpha :: "char \<Rightarrow> bool" where
  "is_alpha c \<longleftrightarrow> (of_char c \<ge> (97::nat) \<and> of_char c \<le> (122::nat)) \<or>
     (of_char c \<ge> (65::nat) \<and> of_char c \<le> (90::nat)) \<or> c = CHR ''_''"

definition is_digit :: "char \<Rightarrow> bool" where
  "is_digit c \<longleftrightarrow> of_char c \<ge> (48::nat) \<and> of_char c \<le> (57::nat)"

definition is_hex_digit :: "char \<Rightarrow> bool" where
  "is_hex_digit c \<longleftrightarrow> is_digit c \<or> (of_char c \<ge> (97::nat) \<and> of_char c \<le> (102::nat)) \<or>
     (of_char c \<ge> (65::nat) \<and> of_char c \<le> (70::nat))"

definition is_alnum :: "char \<Rightarrow> bool" where
  "is_alnum c \<longleftrightarrow> is_alpha c \<or> is_digit c"

text \<open>\<open>isspace\<close> of the C library in the default locale.\<close>

definition isspace :: "char \<Rightarrow> bool" where
  "isspace c \<longleftrightarrow> of_char c = (32::nat) \<or> (of_char c \<ge> (9::nat) \<and> of_char c \<le> (13::nat))"

definition newline :: char where
  "newline = CHR 0x0A"

definition quote_char :: char where
  "quote_char = CHR 0x22"

definition backslash :: char where
  "backslash = CHR 0x5C"

section \<open>Moving through the source\<close>

definition lexer_init :: "string \<Rightarrow> Lexer" where
  "lexer_init src = \<lparr>source = src, pos = 0, line = 1, column = 1, lex_error = None\<rparr>"

definition char_at :: "string \<Rightarrow> nat \<Rightarrow> char" where
  "char_at src i = (if i < length src then src ! i else NUL)"

definition current_char :: "Lexer \<Rightarrow> char" where
  "current_char l = char_at (source l) (pos l)"

definition peek_char :: "Lexer \<Rightarrow> nat \<Rightarrow> char" where
  "peek_char l offset = char_at (source l) (pos l + offset)"

definition advance :: "Lexer \<Rightarrow> Lexer" where
  "advance l =
     (if current_char l = newline
      then l\<lparr>line := Suc (line l), column := 1, pos := Suc (pos l)\<rparr>
      else l\<lparr>column := Suc (column l), pos := Suc (pos l)\<rparr>)"

text \<open>What is left of the source: the measure of every loop.\<close>

definition remaining :: "Lexer \<Rightarrow> nat" where
  "remaining l = length (source l) - pos l"

lemma in_source: "current_char l \<noteq> NUL \<Longrightarrow> pos l < length (source l)"
  by (auto simp: current_char_def char_at_def split: if_splits)

lemma advance_simps [simp]:
  "source (advance l) = source l" "pos (advance l) = Suc (pos l)"
  "lex_error (advance l) = lex_error l"
  by (simp_all add: advance_def)

lemma remaining_advance [shrink_simps]:
  "current_char l \<noteq> NUL \<Longrightarrow> remaining (advance l) < remaining l"
  using in_source [of l] by (simp add: remaining_def)

lemma char_class_not_NUL:
  "isspace c \<Longrightarrow> c \<noteq> NUL" "is_alpha c \<Longrightarrow> c \<noteq> NUL" "is_digit c \<Longrightarrow> c \<noteq> NUL"
  "is_hex_digit c \<Longrightarrow> c \<noteq> NUL" "is_alnum c \<Longrightarrow> c \<noteq> NUL"
  by (auto simp: isspace_def is_alpha_def is_digit_def is_hex_digit_def is_alnum_def NUL_def)

function skip_whitespace :: "Lexer \<Rightarrow> Lexer" where
  "skip_whitespace l = (if isspace (current_char l) then skip_whitespace (advance l) else l)"
  by pat_completeness auto
termination
  by (relation "measure remaining") (simp_all add: remaining_advance char_class_not_NUL)

declare skip_whitespace.simps [simp del]

function comment_loop :: "Lexer \<Rightarrow> Lexer" where
  "comment_loop l =
     (if current_char l \<noteq> NUL \<and> current_char l \<noteq> newline then comment_loop (advance l) else l)"
  by pat_completeness auto
termination
  by (relation "measure remaining") (simp_all add: remaining_advance)

declare comment_loop.simps [simp del]

definition at_comment :: "Lexer \<Rightarrow> bool" where
  "at_comment l \<longleftrightarrow> current_char l = CHR ''/'' \<and> peek_char l 1 = CHR ''/''"

definition skip_comment :: "Lexer \<Rightarrow> Lexer" where
  "skip_comment l = (if at_comment l then comment_loop l else l)"

text \<open>
  Every movement keeps the source and stays inside it, and only moves forward.  The relation
  collects the three facts so that they compose.
\<close>

definition moves :: "Lexer \<Rightarrow> Lexer \<Rightarrow> bool" where
  "moves l l' \<longleftrightarrow> source l' = source l \<and> pos l \<le> pos l' \<and>
     (pos l \<le> length (source l) \<longrightarrow> pos l' \<le> length (source l))"

lemma moves_refl [intro, simp]: "moves l l"
  by (simp add: moves_def)

lemma moves_trans: "moves l l' \<Longrightarrow> moves l' l'' \<Longrightarrow> moves l l''"
  by (auto simp: moves_def)

lemma moves_advance: "current_char l \<noteq> NUL \<Longrightarrow> moves l (advance l)"
  using in_source [of l] by (simp add: moves_def)

lemma moves_remaining: "moves l l' \<Longrightarrow> remaining l' \<le> remaining l"
  by (auto simp: moves_def remaining_def)

lemma moves_skip_whitespace: "moves l (skip_whitespace l)"
proof (induction l rule: skip_whitespace.induct)
  case (1 l)
  then show ?case
    using moves_trans [OF moves_advance] char_class_not_NUL
    by (subst skip_whitespace.simps) auto
qed

lemma moves_comment_loop: "moves l (comment_loop l)"
proof (induction l rule: comment_loop.induct)
  case (1 l)
  then show ?case
    using moves_trans [OF moves_advance] by (subst comment_loop.simps) auto
qed

lemma at_comment_not_NUL: "at_comment l \<Longrightarrow> current_char l \<noteq> NUL \<and> current_char l \<noteq> newline"
  by (simp add: at_comment_def NUL_def newline_def)

lemma moves_skip_comment: "moves l (skip_comment l)"
  by (simp add: skip_comment_def moves_comment_loop)

lemma remaining_skip_comment [shrink_simps]:
  assumes "at_comment l"
  shows "remaining (skip_comment l) < remaining l"
proof -
  have c: "current_char l \<noteq> NUL" "current_char l \<noteq> newline"
    using at_comment_not_NUL [OF assms] by auto
  have "skip_comment l = comment_loop (advance l)"
    using assms c by (simp add: skip_comment_def comment_loop.simps [of l])
  then show ?thesis
    using remaining_advance [OF c(1)] moves_remaining [OF moves_comment_loop [of "advance l"]]
    by simp
qed

function skip_whitespace_and_comments :: "Lexer \<Rightarrow> Lexer" where
  "skip_whitespace_and_comments l =
     (let l1 = skip_whitespace l
      in if at_comment l1 then skip_whitespace_and_comments (skip_comment l1) else l1)"
  by pat_completeness auto
termination
  using remaining_skip_comment moves_remaining [OF moves_skip_whitespace]
  by (relation "measure remaining") (auto intro: less_le_trans)

declare skip_whitespace_and_comments.simps [simp del]

lemma moves_skip_whitespace_and_comments: "moves l (skip_whitespace_and_comments l)"
proof (induction l rule: skip_whitespace_and_comments.induct)
  case (1 l)
  let ?w = "skip_whitespace l"
  show ?case
  proof (cases "at_comment ?w")
    case True
    have "moves l (skip_comment ?w)"
      using moves_skip_whitespace moves_skip_comment by (rule moves_trans)
    then show ?thesis using moves_trans [OF _ "1.IH" [OF refl True]] True
      by (simp add: skip_whitespace_and_comments.simps [of l])
  next
    case False
    then show ?thesis
      by (simp add: skip_whitespace_and_comments.simps [of l] moves_skip_whitespace)
  qed
qed

section \<open>Reading a token\<close>

text \<open>
  The loops that copy characters into \<open>token->text\<close>: at most 255 of them
  (\<open>sizeof (token->text) - 1\<close>).
\<close>

fun read_run :: "(char \<Rightarrow> bool) \<Rightarrow> nat \<Rightarrow> Lexer \<Rightarrow> string \<times> Lexer" where
  "read_run P 0 l = ([], l)"
| "read_run P (Suc room) l =
     (if P (current_char l)
      then (case read_run P room (advance l) of (t, l') \<Rightarrow> (current_char l # t, l'))
      else ([], l))"

fun read_string_run :: "nat \<Rightarrow> Lexer \<Rightarrow> string \<times> Lexer" where
  "read_string_run 0 l = ([], l)"
| "read_string_run (Suc room) l =
     (if current_char l \<noteq> quote_char \<and> current_char l \<noteq> NUL
      then if current_char l = backslash \<and> peek_char l 1 = quote_char
           then (case read_string_run room (advance (advance l)) of (t, l') \<Rightarrow> (quote_char # t, l'))
           else (case read_string_run room (advance l) of (t, l') \<Rightarrow> (current_char l # t, l'))
      else ([], l))"

definition TEXT_MAX :: nat where
  "TEXT_MAX = 255"

text \<open>
  \<open>strtoull\<close> of the C library on a string of digits of the base: the number, or \<open>ULLONG_MAX\<close>
  when it does not fit.
\<close>

definition digit_value :: "char \<Rightarrow> nat" where
  "digit_value c =
     (if is_digit c then of_char c - 48
      else if of_char c \<ge> (97::nat) then of_char c - 87 else of_char c - 55)"

definition digits_value :: "nat \<Rightarrow> string \<Rightarrow> nat" where
  "digits_value base s = foldl (\<lambda>v c. base * v + digit_value c) 0 s"

definition strtoull :: "nat \<Rightarrow> string \<Rightarrow> u64" where
  "strtoull base s = of_nat (min (digits_value base s) (2 ^ 64 - 1))"

definition keyword_type :: "string \<Rightarrow> TokenType" where
  "keyword_type t =
    (if t = ''uint8'' then TOKEN_UINT8
     else if t = ''uint16'' then TOKEN_UINT16
     else if t = ''uint32'' then TOKEN_UINT32
     else if t = ''uint64'' then TOKEN_UINT64
     else if t = ''int8'' then TOKEN_INT8
     else if t = ''int16'' then TOKEN_INT16
     else if t = ''int32'' then TOKEN_INT32
     else if t = ''int64'' then TOKEN_INT64
     else if t = ''bytes'' then TOKEN_BYTES
     else if t = ''string'' then TOKEN_STRING_TYPE
     else if t = ''varbytes'' then TOKEN_VARBYTES
     else if t = ''in'' then TOKEN_IN
     else TOKEN_IDENTIFIER)"

text \<open>
  A token function gets the token with line, column, empty text and value 0 and returns the
  success flag, the token and the lexer.
\<close>

type_synonym lex_result = "bool \<times> Lexer \<times> Token"

definition read_identifier :: "Lexer \<Rightarrow> Token \<Rightarrow> lex_result" where
  "read_identifier l t =
     (case read_run is_alnum TEXT_MAX l of (txt, l') \<Rightarrow>
        (True, l', t\<lparr>t_text := txt, t_type := keyword_type txt\<rparr>))"

definition read_number :: "Lexer \<Rightarrow> Token \<Rightarrow> lex_result" where
  "read_number l t =
     (let t1 = t\<lparr>t_type := TOKEN_NUMBER, t_value := 0\<rparr> in
      if current_char l = CHR ''0'' \<and> (peek_char l 1 = CHR ''x'' \<or> peek_char l 1 = CHR ''X'')
      then (case read_run is_hex_digit TEXT_MAX (advance (advance l)) of (txt, l') \<Rightarrow>
              if txt = []
              then (False, l'\<lparr>lex_error := Some (Invalid_hex_number (line l'))\<rparr>, t1\<lparr>t_text := txt\<rparr>)
              else (True, l', t1\<lparr>t_text := txt, t_value := strtoull 16 txt\<rparr>))
      else (case read_run is_digit TEXT_MAX l of (txt, l') \<Rightarrow>
              (True, l', t1\<lparr>t_text := txt, t_value := strtoull 10 txt\<rparr>)))"

definition read_string :: "Lexer \<Rightarrow> Token \<Rightarrow> lex_result" where
  "read_string l t =
     (case read_string_run TEXT_MAX (advance l) of (txt, l') \<Rightarrow>
        let t1 = t\<lparr>t_type := TOKEN_STRING, t_text := txt\<rparr> in
        if current_char l' \<noteq> quote_char
        then (False, l'\<lparr>lex_error := Some (Unterminated_string (line l'))\<rparr>, t1)
        else (True, advance l', t1))"

definition single :: "TokenType \<Rightarrow> Lexer \<Rightarrow> Token \<Rightarrow> lex_result" where
  "single ty l t = (True, advance l, t\<lparr>t_type := ty, t_text := [current_char l]\<rparr>)"

text \<open>An operator that may be followed by \<open>=\<close>.\<close>

definition with_eq :: "TokenType \<Rightarrow> TokenType \<Rightarrow> Lexer \<Rightarrow> Token \<Rightarrow> lex_result" where
  "with_eq ty2 ty1 l t =
     (if peek_char l 1 = CHR ''=''
      then (True, advance (advance l), t\<lparr>t_type := ty2, t_text := [current_char l, CHR ''='']\<rparr>)
      else single ty1 l t)"

definition read_at :: "Lexer \<Rightarrow> Token \<Rightarrow> lex_result" where
  "read_at l t =
     (let l1 = advance l; t1 = t\<lparr>t_type := TOKEN_AT\<rparr> in
      if is_alpha (current_char l1)
      then (case read_run is_alnum TEXT_MAX l1 of (txt, l') \<Rightarrow>
              let t2 = t1\<lparr>t_text := txt\<rparr> in
              if txt = ''protocol'' then (True, l', t2\<lparr>t_type := TOKEN_PROTOCOL\<rparr>)
              else if txt = ''const'' then (True, l', t2\<lparr>t_type := TOKEN_CONST\<rparr>)
              else if txt = ''filter'' then (True, l', t2\<lparr>t_type := TOKEN_FILTER\<rparr>)
              else (False, l'\<lparr>lex_error := Some (Unknown_keyword txt (line l'))\<rparr>,
                    t2\<lparr>t_type := TOKEN_ERROR\<rparr>))
      else (True, l1, t1))"

definition lexer_next_token :: "Lexer \<Rightarrow> lex_result" where
  "lexer_next_token l0 =
    (let l = skip_whitespace_and_comments l0;
         t = \<lparr>t_type = TOKEN_EOF, t_text = [], t_value = 0, t_line = line l, t_column = column l\<rparr>;
         c = current_char l
     in if c = NUL then (True, l, t)
        else if is_alpha c then read_identifier l t
        else if is_digit c then read_number l t
        else if c = quote_char then read_string l t
        else if c = CHR ''{'' then single TOKEN_LBRACE l t
        else if c = CHR ''}'' then single TOKEN_RBRACE l t
        else if c = CHR ''['' then single TOKEN_LBRACKET l t
        else if c = CHR '']'' then single TOKEN_RBRACKET l t
        else if c = CHR '';'' then single TOKEN_SEMICOLON l t
        else if c = CHR '','' then single TOKEN_COMMA l t
        else if c = CHR ''.'' then single TOKEN_DOT l t
        else if c = CHR ''@'' then read_at l t
        else if c = CHR ''='' then with_eq TOKEN_EQ TOKEN_ASSIGN l t
        else if c = CHR ''!'' then with_eq TOKEN_NE TOKEN_NOT l t
        else if c = CHR ''<'' then with_eq TOKEN_LE TOKEN_LT l t
        else if c = CHR ''>'' then with_eq TOKEN_GE TOKEN_GT l t
        else if c = CHR ''&'' then single TOKEN_AND l t
        else if c = CHR ''|'' then single TOKEN_OR l t
        else (False, l\<lparr>lex_error := Some (Unexpected_character c (line l) (column l))\<rparr>,
              t\<lparr>t_type := TOKEN_ERROR\<rparr>))"

definition lexer_peek_token :: "Lexer \<Rightarrow> bool \<times> Lexer \<times> Token" where
  "lexer_peek_token l = (case lexer_next_token l of (ok, _, t) \<Rightarrow> (ok, l, t))"

definition lexer_get_error :: "Lexer \<Rightarrow> LexError option" where
  "lexer_get_error l = lex_error l"

section \<open>What a token consumes\<close>

text \<open>
  Tokens that end the input or report an error may leave the lexer where it is; every other token
  consumes at least one character.  This is what makes the parser's loops end.
\<close>

definition token_weight :: "Token \<Rightarrow> nat" where
  "token_weight t = (if t_type t = TOKEN_EOF \<or> t_type t = TOKEN_ERROR then 0 else 1)"

lemma moves_upd_error [simp]: "moves l (l'\<lparr>lex_error := e\<rparr>) = moves l l'"
  by (simp add: moves_def)

lemma moves_read_run:
  "(\<And>c. P c \<Longrightarrow> c \<noteq> NUL) \<Longrightarrow> moves l (snd (read_run P n l))"
proof (induction P n l rule: read_run.induct)
  case (2 P n l)
  then show ?case using moves_trans [OF moves_advance, of l] by (auto split: prod.split)
qed simp

lemma read_run_first:
  assumes "\<And>c. P c \<Longrightarrow> c \<noteq> NUL" "P (current_char l)" "0 < n"
  shows "moves (advance l) (snd (read_run P n l))"
  using assms moves_read_run [of P "advance l" "n - 1"]
  by (cases n) (auto split: prod.split)

lemma moves_escape:
  assumes "current_char l = backslash" "peek_char l 1 = quote_char"
  shows "moves l (advance (advance l))"
proof (rule moves_trans)
  show "moves l (advance l)"
    using assms by (intro moves_advance) (simp add: backslash_def NUL_def)
  have "current_char (advance l) = peek_char l 1"
    by (simp add: current_char_def peek_char_def)
  then show "moves (advance l) (advance (advance l))"
    using assms by (intro moves_advance) (simp add: quote_char_def NUL_def)
qed

lemma moves_read_string_run: "moves l (snd (read_string_run n l))"
proof (induction n l rule: read_string_run.induct)
  case (2 n l)
  consider "current_char l = quote_char \<or> current_char l = NUL"
    | "\<not> (current_char l = quote_char \<or> current_char l = NUL)"
      "current_char l = backslash \<and> peek_char l 1 = quote_char"
    | "\<not> (current_char l = quote_char \<or> current_char l = NUL)"
      "\<not> (current_char l = backslash \<and> peek_char l 1 = quote_char)"
    by blast
  then show ?case
  proof cases
    case 1
    then show ?thesis by auto
  next
    case 2
    then have "moves l (advance (advance l))" by (simp add: moves_escape)
    moreover have "moves (advance (advance l)) (snd (read_string_run n (advance (advance l))))"
      using 2 by (intro "2.IH"(1)) auto
    ultimately have "moves l (snd (read_string_run n (advance (advance l))))" by (rule moves_trans)
    then show ?thesis using 2 by (auto split: prod.split)
  next
    case 3
    then have "moves l (advance l)" by (simp add: moves_advance)
    moreover have "moves (advance l) (snd (read_string_run n (advance l)))"
      using 3 by (intro "2.IH"(2)) auto
    ultimately have "moves l (snd (read_string_run n (advance l)))" by (rule moves_trans)
    then show ?thesis using 3 by (auto split: prod.split)
  qed
qed simp

text \<open>
  Success, lexer and token of one call: the lexer only moves, and a token of weight 1 moves it
  past at least one character.
\<close>

definition consumes :: "Lexer \<Rightarrow> lex_result \<Rightarrow> bool" where
  "consumes l r \<longleftrightarrow> (case r of (ok, l', t) \<Rightarrow>
     moves l l' \<and> (token_weight t = 1 \<longrightarrow> pos l < pos l' \<and> remaining l' < remaining l))"

lemma consumes_advance:
  assumes "current_char l \<noteq> NUL" "moves (advance l) l'"
  shows "consumes l (ok, l', t)"
  using moves_trans [OF moves_advance [OF assms(1)] assms(2)] assms(2)
    remaining_advance [OF assms(1)] moves_remaining [OF assms(2)]
  by (simp add: consumes_def moves_def)

lemma remaining_upd_error [simp]: "remaining (l\<lparr>lex_error := e\<rparr>) = remaining l"
  by (simp add: remaining_def)

lemma consumes_error [simp]:
  "consumes l (ok, l'\<lparr>lex_error := e\<rparr>, t) = consumes l (ok, l', t)"
  by (simp add: consumes_def)

lemma consumes_single: "current_char l \<noteq> NUL \<Longrightarrow> consumes l (single ty l t)"
  by (simp add: single_def consumes_advance)

lemma consumes_with_eq: "current_char l \<noteq> NUL \<Longrightarrow> consumes l (with_eq ty2 ty1 l t)"
proof -
  assume c: "current_char l \<noteq> NUL"
  have "moves (advance l) (advance (advance l))" if "peek_char l 1 = CHR ''=''"
    using that by (intro moves_advance) (simp add: peek_char_def current_char_def NUL_def)
  then show ?thesis using c by (simp add: with_eq_def consumes_single consumes_advance)
qed

lemma consumes_identifier:
  assumes "is_alpha (current_char l)"
  shows "consumes l (read_identifier l t)"
proof -
  obtain tx l' where rr: "read_run is_alnum TEXT_MAX l = (tx, l')" by fastforce
  have "moves (advance l) (snd (read_run is_alnum TEXT_MAX l))"
    using assms by (intro read_run_first) (auto simp: is_alnum_def char_class_not_NUL TEXT_MAX_def)
  then have "moves (advance l) l'" by (simp add: rr)
  from consumes_advance [OF char_class_not_NUL(2) [OF assms] this]
  show ?thesis by (simp add: read_identifier_def rr)
qed

lemma consumes_number:
  assumes "is_digit (current_char l)"
  shows "consumes l (read_number l t)"
proof -
  obtain tx l' where rr: "read_run is_digit TEXT_MAX l = (tx, l')" by fastforce
  obtain htxt hl' where hrr: "read_run is_hex_digit TEXT_MAX (advance (advance l)) = (htxt, hl')"
    by fastforce
  have "moves (advance l) (snd (read_run is_digit TEXT_MAX l))"
    using assms by (intro read_run_first) (auto simp: char_class_not_NUL TEXT_MAX_def)
  then have "moves (advance l) l'" by (simp add: rr)
  then have dec: "consumes l (ok, l', t)" for ok t
    using consumes_advance [OF char_class_not_NUL(3) [OF assms]] by blast
  have hex: "consumes l (ok, hl', t)"
    if "peek_char l 1 = CHR ''x'' \<or> peek_char l 1 = CHR ''X''" for ok t
  proof (rule consumes_advance [OF char_class_not_NUL(3) [OF assms]])
    have "moves (advance (advance l)) (snd (read_run is_hex_digit TEXT_MAX (advance (advance l))))"
      by (rule moves_read_run) (rule char_class_not_NUL)
    then have "moves (advance (advance l)) hl'" by (simp add: hrr)
    moreover have "moves (advance l) (advance (advance l))"
      using that by (intro moves_advance) (auto simp: peek_char_def current_char_def NUL_def)
    ultimately show "moves (advance l) hl'" using moves_trans by blast
  qed
  show ?thesis
    by (simp add: read_number_def Let_def rr hrr dec hex)
qed

lemma consumes_string:
  assumes "current_char l = quote_char"
  shows "consumes l (read_string l t)"
proof -
  have c: "current_char l \<noteq> NUL" using assms by (simp add: quote_char_def NUL_def)
  obtain tx l' where rr: "read_string_run TEXT_MAX (advance l) = (tx, l')" by fastforce
  have r: "moves (advance l) l'" using moves_read_string_run [of "advance l" TEXT_MAX] by (simp add: rr)
  have e: "moves (advance l) (advance l')" if "current_char l' = quote_char"
    using that by (intro moves_trans [OF r moves_advance]) (simp add: quote_char_def NUL_def)
  show ?thesis
    by (simp add: read_string_def Let_def rr consumes_advance [OF c r] consumes_advance [OF c e])
qed

lemma consumes_at:
  assumes "current_char l = CHR ''@''"
  shows "consumes l (read_at l t)"
proof -
  have c: "current_char l \<noteq> NUL" using assms by (simp add: NUL_def)
  obtain tx l' where rr: "read_run is_alnum TEXT_MAX (advance l) = (tx, l')" by fastforce
  have "moves (advance l) (snd (read_run is_alnum TEXT_MAX (advance l)))"
    by (rule moves_read_run) (rule char_class_not_NUL)
  then have "moves (advance l) l'" by (simp add: rr)
  then show ?thesis
    by (simp add: read_at_def Let_def rr consumes_advance [OF c])
qed

lemma consumes_trans:
  assumes "moves l0 l" "consumes l r"
  shows "consumes l0 r"
  using assms moves_trans [OF assms(1)] moves_remaining [OF assms(1)]
  by (auto simp: consumes_def moves_def split: prod.splits)

lemma consumes_next_token: "consumes l (lexer_next_token l)"
proof -
  let ?l = "skip_whitespace_and_comments l"
  have stay: "consumes ?l (ok, ?l, t)" if "token_weight t = 0" for ok t
    using that by (simp add: consumes_def)
  have "consumes ?l (lexer_next_token l)"
    unfolding lexer_next_token_def Let_def
    by (auto simp: token_weight_def consumes_identifier consumes_number consumes_string consumes_at
        consumes_single consumes_with_eq intro!: stay)
  with moves_skip_whitespace_and_comments show ?thesis by (rule consumes_trans)
qed

section \<open>Reading a known text\<close>

text \<open>A run of characters of one class, followed by another character, is read as a whole.\<close>

lemma read_run_text:
  assumes "drop (pos l) (source l) = cs @ rest" "list_all P cs" "length cs \<le> n"
    and "\<And>c. P c \<Longrightarrow> c \<noteq> NUL" "rest = [] \<or> \<not> P (hd rest)"
  shows "\<exists>l'. read_run P n l = (cs, l') \<and> source l' = source l \<and> pos l' = pos l + length cs"
  using assms(1-3)
proof (induction cs arbitrary: l n)
  case Nil
  have "\<not> P (current_char l)"
  proof (cases rest)
    case Nil
    then have "current_char l = NUL" using Nil.prems(1) by (simp add: current_char_def char_at_def)
    then show ?thesis using assms(4) by blast
  next
    case (Cons r rs)
    then have "pos l < length (source l)" "source l ! pos l = r"
      using Nil.prems(1) by (auto simp: drop_Cons_iff)
    then show ?thesis using assms(5) Cons by (simp add: current_char_def char_at_def)
  qed
  then show ?case by (cases n) auto
next
  case (Cons c cs)
  obtain m where n: "n = Suc m" using Cons.prems(3) by (cases n) auto
  have d: "pos l < length (source l)" "source l ! pos l = c" "drop (Suc (pos l)) (source l) = cs @ rest"
    using Cons.prems(1) by (auto simp: drop_Cons_iff)
  then have cur: "current_char l = c" by (simp add: current_char_def char_at_def)
  obtain l' where "read_run P m (advance l) = (cs, l')" "source l' = source l"
      "pos l' = Suc (pos l) + length cs"
    using Cons.IH [of "advance l" m] Cons.prems(2,3) d(3) n by auto
  then show ?case using n cur Cons.prems(2) by auto
qed

lemma token_starts_here:
  assumes "\<not> isspace (current_char l)" "current_char l \<noteq> CHR ''/''"
  shows "skip_whitespace_and_comments l = l"
  using assms
  by (simp add: skip_whitespace_and_comments.simps [of l] skip_whitespace.simps [of l] at_comment_def)

lemma is_digit_facts:
  "is_digit c \<Longrightarrow> \<not> isspace c" "is_digit c \<Longrightarrow> c \<noteq> CHR ''/''" "is_digit c \<Longrightarrow> \<not> is_alpha c"
  by (auto simp: is_digit_def isspace_def is_alpha_def)

lemma decimal_token:
  assumes "cs \<noteq> []" "list_all is_digit cs" "length cs \<le> TEXT_MAX"
    and "rest = [] \<or> \<not> is_digit (hd rest) \<and> hd rest \<noteq> CHR ''x'' \<and> hd rest \<noteq> CHR ''X''"
  shows "\<exists>l' t. lexer_next_token (lexer_init (cs @ rest)) = (True, l', t) \<and>
    t_type t = TOKEN_NUMBER \<and> t_text t = cs \<and> t_value t = strtoull 10 cs \<and> pos l' = length cs"
proof -
  let ?l = "lexer_init (cs @ rest)"
  obtain c cs' where cs: "cs = c # cs'" using assms(1) by (cases cs) auto
  then have cur: "current_char ?l = c" "is_digit c"
    using assms(2) by (simp_all add: current_char_def char_at_def lexer_init_def)
  have peek: "peek_char ?l 1 \<noteq> CHR ''x'' \<and> peek_char ?l 1 \<noteq> CHR ''X''"
  proof (cases cs')
    case Nil
    then show ?thesis using cs assms(4)
      by (cases rest) (auto simp: peek_char_def char_at_def lexer_init_def NUL_def)
  next
    case (Cons d ds)
    then have "is_digit d" using cs assms(2) by simp
    then show ?thesis using cs Cons
      by (auto simp: peek_char_def char_at_def lexer_init_def is_digit_def)
  qed
  have "drop (pos ?l) (source ?l) = cs @ rest" by (simp add: lexer_init_def)
  then obtain l' where r: "read_run is_digit TEXT_MAX ?l = (cs, l')" "pos l' = pos ?l + length cs"
    using read_run_text [of ?l cs rest is_digit TEXT_MAX] assms char_class_not_NUL(3) by blast
  have "lexer_next_token ?l = read_number ?l
      \<lparr>t_type = TOKEN_EOF, t_text = [], t_value = 0, t_line = line ?l, t_column = column ?l\<rparr>"
    using cur is_digit_facts [OF cur(2)] token_starts_here [of ?l] char_class_not_NUL(3) [OF cur(2)]
    by (simp add: lexer_next_token_def Let_def)
  then show ?thesis using peek r by (auto simp: read_number_def Let_def lexer_init_def)
qed

section \<open>Properties\<close>

text \<open>
  Progress and safety of the lexer.  From a position inside the source, reading a token keeps
  the source, never moves back and never past the end; a token that is neither the end of the input
  nor an error moves the position forward, so the parser cannot see infinitely many of them.
\<close>

theorem tokens_make_progress:
  assumes "lexer_next_token l = (ok, l', t)" "pos l \<le> length (source l)"
  shows "source l' = source l \<and> pos l \<le> pos l' \<and> pos l' \<le> length (source l) \<and>
    (t_type t \<noteq> TOKEN_EOF \<and> t_type t \<noteq> TOKEN_ERROR \<longrightarrow> pos l < pos l')"
  using consumes_next_token [of l] assms
  by (auto simp: consumes_def moves_def token_weight_def split: if_splits)

theorem tokens_make_progress_witness:
  "\<exists>l' t. lexer_next_token (lexer_init ''80;'') = (True, l', t) \<and> 0 < pos l' \<and> pos l' \<le> 3"
proof -
  have "list_all is_digit ''80''" "rest = '';'' \<Longrightarrow> \<not> is_digit (hd rest)" for rest
    by (simp_all add: is_digit_def)
  then obtain l' t where r: "lexer_next_token (lexer_init ''80;'') = (True, l', t)" "t_type t = TOKEN_NUMBER"
    using decimal_token [of "''80''" "'';''"] by (auto simp: TEXT_MAX_def)
  have "pos (lexer_init ''80;'') \<le> length (source (lexer_init ''80;''))" by (simp add: lexer_init_def)
  from tokens_make_progress [OF r(1) this] r show ?thesis by (simp add: lexer_init_def)
qed

end
