(* ===== verification/Pdef_Types.thy ===== *)
theory Pdef_Types
  imports Prelude
begin

text \<open>
  The data model of protocol definitions: \<open>src/src/pdef/pdef_types.h\<close> and
  \<open>src/src/pdef/pdef_types.c\<close>.  Fixed \<open>char\<close> arrays are strings (their length bounds are
  kept by the code that writes them), pointer and count pairs are lists, and a pointer that the
  code compares with \<open>NULL\<close> is an option.
\<close>

section \<open>Field types and endianness\<close>

datatype (plugins only: code size) FieldType =
  FIELD_TYPE_UINT8 | FIELD_TYPE_UINT16 | FIELD_TYPE_UINT32 | FIELD_TYPE_UINT64
| FIELD_TYPE_INT8 | FIELD_TYPE_INT16 | FIELD_TYPE_INT32 | FIELD_TYPE_INT64
| FIELD_TYPE_BYTES | FIELD_TYPE_STRING | FIELD_TYPE_VARBYTES | FIELD_TYPE_NESTED

datatype (plugins only: code size) Endian = ENDIAN_BIG | ENDIAN_LITTLE

datatype (plugins only: code size) EndianMode = ENDIAN_MODE_BIG | ENDIAN_MODE_LITTLE | ENDIAN_MODE_AUTO

datatype (plugins only: code size) EndianType = ENDIAN_TYPE_UNKNOWN | ENDIAN_TYPE_BIG | ENDIAN_TYPE_LITTLE

fun field_type_size :: "FieldType \<Rightarrow> u32" where
  "field_type_size FIELD_TYPE_UINT8 = 1"
| "field_type_size FIELD_TYPE_INT8 = 1"
| "field_type_size FIELD_TYPE_UINT16 = 2"
| "field_type_size FIELD_TYPE_INT16 = 2"
| "field_type_size FIELD_TYPE_UINT32 = 4"
| "field_type_size FIELD_TYPE_INT32 = 4"
| "field_type_size FIELD_TYPE_UINT64 = 8"
| "field_type_size FIELD_TYPE_INT64 = 8"
| "field_type_size FIELD_TYPE_BYTES = 0"
| "field_type_size FIELD_TYPE_STRING = 0"
| "field_type_size FIELD_TYPE_VARBYTES = 0"
| "field_type_size FIELD_TYPE_NESTED = 0"

fun field_type_name :: "FieldType \<Rightarrow> string" where
  "field_type_name FIELD_TYPE_UINT8 = ''uint8''"
| "field_type_name FIELD_TYPE_UINT16 = ''uint16''"
| "field_type_name FIELD_TYPE_UINT32 = ''uint32''"
| "field_type_name FIELD_TYPE_UINT64 = ''uint64''"
| "field_type_name FIELD_TYPE_INT8 = ''int8''"
| "field_type_name FIELD_TYPE_INT16 = ''int16''"
| "field_type_name FIELD_TYPE_INT32 = ''int32''"
| "field_type_name FIELD_TYPE_INT64 = ''int64''"
| "field_type_name FIELD_TYPE_BYTES = ''bytes''"
| "field_type_name FIELD_TYPE_STRING = ''string''"
| "field_type_name FIELD_TYPE_VARBYTES = ''varbytes''"
| "field_type_name FIELD_TYPE_NESTED = ''nested''"

section \<open>Structures\<close>

record Field =
  f_name :: string
  f_type :: FieldType
  f_offset :: u32
  f_size :: u32
  f_endian :: Endian
  f_is_variable :: bool
  f_is_array :: bool
  f_array_size :: u32

record StructDef =
  s_name :: string
  s_fields :: "Field list"
  s_min_size :: u32
  s_has_variable :: bool

section \<open>Bytecode\<close>

datatype (plugins only: code size) OpCode =
  OP_LOAD_U8
| OP_LOAD_U16_BE | OP_LOAD_U16_LE | OP_LOAD_U32_BE | OP_LOAD_U32_LE
| OP_LOAD_U64_BE | OP_LOAD_U64_LE
| OP_LOAD_I8
| OP_LOAD_I16_BE | OP_LOAD_I16_LE | OP_LOAD_I32_BE | OP_LOAD_I32_LE
| OP_LOAD_I64_BE | OP_LOAD_I64_LE
| OP_CMP_EQ | OP_CMP_NE | OP_CMP_GT | OP_CMP_GE | OP_CMP_LT | OP_CMP_LE | OP_CMP_MASK
| OP_JUMP_IF_FALSE | OP_JUMP | OP_RETURN_TRUE | OP_RETURN_FALSE

fun opcode_name :: "OpCode \<Rightarrow> string" where
  "opcode_name OP_LOAD_U8 = ''LOAD_U8''"
| "opcode_name OP_LOAD_U16_BE = ''LOAD_U16_BE''"
| "opcode_name OP_LOAD_U16_LE = ''LOAD_U16_LE''"
| "opcode_name OP_LOAD_U32_BE = ''LOAD_U32_BE''"
| "opcode_name OP_LOAD_U32_LE = ''LOAD_U32_LE''"
| "opcode_name OP_LOAD_U64_BE = ''LOAD_U64_BE''"
| "opcode_name OP_LOAD_U64_LE = ''LOAD_U64_LE''"
| "opcode_name OP_LOAD_I8 = ''LOAD_I8''"
| "opcode_name OP_LOAD_I16_BE = ''LOAD_I16_BE''"
| "opcode_name OP_LOAD_I16_LE = ''LOAD_I16_LE''"
| "opcode_name OP_LOAD_I32_BE = ''LOAD_I32_BE''"
| "opcode_name OP_LOAD_I32_LE = ''LOAD_I32_LE''"
| "opcode_name OP_LOAD_I64_BE = ''LOAD_I64_BE''"
| "opcode_name OP_LOAD_I64_LE = ''LOAD_I64_LE''"
| "opcode_name OP_CMP_EQ = ''CMP_EQ''"
| "opcode_name OP_CMP_NE = ''CMP_NE''"
| "opcode_name OP_CMP_GT = ''CMP_GT''"
| "opcode_name OP_CMP_GE = ''CMP_GE''"
| "opcode_name OP_CMP_LT = ''CMP_LT''"
| "opcode_name OP_CMP_LE = ''CMP_LE''"
| "opcode_name OP_CMP_MASK = ''CMP_MASK''"
| "opcode_name OP_JUMP_IF_FALSE = ''JUMP_IF_FALSE''"
| "opcode_name OP_JUMP = ''JUMP''"
| "opcode_name OP_RETURN_TRUE = ''RETURN_TRUE''"
| "opcode_name OP_RETURN_FALSE = ''RETURN_FALSE''"

record Instruction =
  opcode :: OpCode
  ioffset :: u32
  operand :: u64
  operand2 :: u64
  jump_target :: u32

section \<open>Rules and protocols\<close>

text \<open>
  A rule holds three pointers to bytecode with a length each; \<open>bytecode_be\<close> is set to the same
  array as \<open>bytecode\<close> by the compiler.
\<close>

record FilterRule =
  r_name :: string
  r_struct_name :: string
  r_bytecode :: "Instruction list option"
  r_bytecode_len :: u32
  r_bytecode_be :: "Instruction list option"
  r_bytecode_be_len :: u32
  r_bytecode_le :: "Instruction list option"
  r_bytecode_le_len :: u32
  r_min_packet_size :: u32
  r_sliding_window :: bool
  r_sliding_max_offset :: u32

record ConstantEntry =
  c_name :: string
  c_value :: u64

text \<open>
  The linked list of constants is a list with the newest entry first.  \<open>ports\<close> and
  \<open>port_count\<close> are never anything but \<open>NULL\<close> and 0 in the code; the counts of structs and
  filters are the lengths of the lists.
\<close>

record ProtocolDef =
  p_name :: string
  ports :: "u16 list"
  default_endian :: Endian
  structs :: "StructDef list"
  filters :: "FilterRule list"
  constants :: "ConstantEntry list"
  endian_mode :: EndianMode
  detected_endian :: EndianType
  endian_writeback_done :: bool
  pdef_file_path :: string

section \<open>Lookups\<close>

text \<open>
  The lookups of \<open>src/src/runtime/protocol.c\<close>: the first struct and the first (newest) constant of
  a name.  Their null-pointer guards have no counterpart: the arguments here are values.
\<close>

definition protocol_find_struct :: "ProtocolDef \<Rightarrow> string \<Rightarrow> StructDef option" where
  "protocol_find_struct p name = find (\<lambda>s. s_name s = name) (structs p)"

definition protocol_find_constant :: "ProtocolDef \<Rightarrow> string \<Rightarrow> u64 option" where
  "protocol_find_constant p name = map_option c_value (find (\<lambda>c. c_name c = name) (constants p))"

end
