(* ===== verification/Parser.thy ===== *)
theory Parser
  imports Lexer Pdef_Types
begin

text \<open>
  The recursive-descent parser of protocol definitions, \<open>src/src/pdef/parser.c\<close>, up to the point
  where all blocks are read: the token window, the four kinds of top-level block, and their loops.
  Layout of nested structs and code generation are in the theories \<open>Flatten\<close> and
  \<open>Filter_Compiler\<close>.

  The C functions return \<open>false\<close> with a message in \<open>error_msg\<close>; here they return \<open>Inl\<close> of the
  format string and its arguments.  Allocation is assumed to succeed.  \<open>struct_count\<close> and
  \<open>filter_count\<close> are the lengths of the lists \<open>temp_structs\<close> and \<open>temp_filter_rules\<close>.
\<close>

section \<open>Conditions, rules and the parser state\<close>

datatype (plugins only: code size) ConditionOp =
  COND_EQ | COND_NE | COND_GT | COND_GE | COND_LT | COND_LE | COND_MASK | COND_IN | COND_NOT_IN

record FilterCondition =
  cond_field_name :: string
  cond_op :: ConditionOp
  cond_value :: u64
  cond_mask :: u64
  cond_values :: "u64 list"

record TempFilterRule =
  tr_name :: string
  tr_struct_name :: string
  tr_conditions :: "FilterCondition list"
  tr_sliding_window :: bool
  tr_sliding_max_offset :: u32

datatype (plugins only: code size) msg_arg = Str string | Num nat | Tok TokenType

text \<open>
  How a parse fails: with a message; with a failure of the lexer inside \<open>parser_expect\<close>, which
  leaves \<open>error_msg\<close> as it was; or with a write outside an array.
\<close>

datatype (plugins only: code size) parse_failure =
  Message string "msg_arg list"
| Lexer_failure
| Memory_fault fault

record Parser =
  lexer :: Lexer
  current_token :: Token
  peek_token :: Token
  proto :: ProtocolDef
  temp_structs :: "StructDef list"
  temp_filter_rules :: "TempFilterRule list"
  endian_set :: bool

type_synonym 'a parse = "parse_failure + 'a"

abbreviation parser_error :: "string \<Rightarrow> msg_arg list \<Rightarrow> 'a parse" where
  "parser_error fmt args \<equiv> Inl (Message fmt args)"

text \<open>A word in single quotes, inside a message.\<close>

definition sq :: "string \<Rightarrow> string" where
  "sq s = [CHR 0x27] @ s @ [CHR 0x27]"

abbreviation cur_type :: "Parser \<Rightarrow> TokenType" where
  "cur_type p \<equiv> t_type (current_token p)"

abbreviation cur_text :: "Parser \<Rightarrow> string" where
  "cur_text p \<equiv> t_text (current_token p)"

abbreviation cur_value :: "Parser \<Rightarrow> u64" where
  "cur_value p \<equiv> t_value (current_token p)"

section \<open>The token window\<close>

definition parser_next_token :: "Parser \<Rightarrow> bool \<times> Parser" where
  "parser_next_token p =
     (case lexer_next_token (lexer p) of (ok, l, t) \<Rightarrow>
        (ok, p\<lparr>current_token := peek_token p, peek_token := t, lexer := l\<rparr>))"

text \<open>Most callers ignore the result flag.\<close>

definition shift :: "Parser \<Rightarrow> Parser" where
  "shift p = snd (parser_next_token p)"

definition parser_expect :: "Parser \<Rightarrow> TokenType \<Rightarrow> Parser parse" where
  "parser_expect p ty =
     (if cur_type p \<noteq> ty
      then parser_error ''Expected token type %d, got %d at line %u''
             [Tok ty, Tok (cur_type p), Num (t_line (current_token p))]
      else (case parser_next_token p of (ok, p') \<Rightarrow> if ok then Inr p' else Inl Lexer_failure))"

text \<open>An optional semicolon after an item.\<close>

definition skip_semicolon :: "Parser \<Rightarrow> Parser" where
  "skip_semicolon p = (if cur_type p = TOKEN_SEMICOLON then shift p else p)"

section \<open>Tokens left\<close>

text \<open>
  The contract between a token window and the loops that drive it: one shift uses up the weight of
  the current token.
\<close>

locale token_window =
  fixes shift_win :: "'p \<Rightarrow> 'p" and win_left :: "'p \<Rightarrow> nat" and win_weight :: "'p \<Rightarrow> nat"
  assumes shift_uses: "win_left (shift_win p) + win_weight p \<le> win_left p"
begin

lemma shift_le: "win_left (shift_win p) \<le> win_left p"
  using shift_uses [of p] by simp

lemma shift_less: "0 < win_weight p \<Longrightarrow> win_left (shift_win p) < win_left p"
  using shift_uses [of p] by simp

end

definition left :: "Parser \<Rightarrow> nat" where
  "left p = remaining (lexer p) + token_weight (peek_token p) + token_weight (current_token p)"

lemma next_token_remaining:
  assumes "lexer_next_token l = (ok, l', t)"
  shows "remaining l' + token_weight t \<le> remaining l"
proof -
  have "consumes l (ok, l', t)" using consumes_next_token [of l] assms by simp
  then show ?thesis using moves_remaining [of l l']
    by (auto simp: consumes_def token_weight_def split: if_splits)
qed

interpretation pw: token_window shift left "\<lambda>p :: Parser. token_weight (current_token p)"
proof
  fix p :: Parser
  obtain ok l t where r: "lexer_next_token (lexer p) = (ok, l, t)" by (metis prod_cases3)
  show "left (shift p) + token_weight (current_token p) \<le> left p"
    using next_token_remaining [OF r] by (simp add: left_def shift_def parser_next_token_def r)
qed

definition solid :: "TokenType \<Rightarrow> bool" where
  "solid ty \<longleftrightarrow> ty \<noteq> TOKEN_EOF \<and> ty \<noteq> TOKEN_ERROR"

lemma shift_solid: "solid (cur_type p) \<Longrightarrow> left (shift p) < left p"
  by (rule pw.shift_less) (simp add: solid_def token_weight_def)

lemma parser_expect_InrD:
  assumes "parser_expect p ty = Inr p'"
  shows "cur_type p = ty \<and> p' = shift p"
  using assms by (auto simp: parser_expect_def shift_def split: if_splits prod.splits)

lemma expect_le: "parser_expect p ty = Inr p' \<Longrightarrow> left p' \<le> left p"
  using pw.shift_le by (auto dest: parser_expect_InrD)

lemma expect_less: "parser_expect p ty = Inr p' \<Longrightarrow> solid ty \<Longrightarrow> left p' < left p"
  using shift_solid by (auto dest!: parser_expect_InrD)

lemma left_upd [simp]:
  "left (p\<lparr>proto := x1\<rparr>) = left p" "left (p\<lparr>temp_structs := x2\<rparr>) = left p"
  "left (p\<lparr>temp_filter_rules := x3\<rparr>) = left p" "left (p\<lparr>endian_set := x4\<rparr>) = left p"
  by (simp_all add: left_def)

lemma skip_semicolon_le: "left (skip_semicolon p) \<le> left p"
  by (simp add: skip_semicolon_def pw.shift_le)

section \<open>Field paths\<close>

text \<open>Decimal rendering, as by \<open>%llu\<close> and \<open>%u\<close>.\<close>

fun dec_string :: "nat \<Rightarrow> string" where
  "dec_string n =
     (if n < 10 then [char_of (48 + n)] else dec_string (n div 10) @ [char_of (48 + n mod 10)])"

declare dec_string.simps [simp del]

definition append_token :: "string \<Rightarrow> nat \<Rightarrow> string \<Rightarrow> string parse" where
  "append_token out out_size token =
     (if length out + length token \<ge> out_size then parser_error ''Field path too long'' []
      else Inr (out @ token))"

function index_loop :: "Parser \<Rightarrow> nat \<Rightarrow> string \<Rightarrow> (Parser \<times> string) parse" where
  "index_loop p out_size out =
     (if cur_type p \<noteq> TOKEN_LBRACKET then Inr (p, out)
      else try_then (append_token out out_size ''['') (\<lambda>out1.
        let p1 = shift p in
        if cur_type p1 \<noteq> TOKEN_NUMBER then parser_error ''Expected index inside []'' []
        else try_then (append_token out1 out_size (dec_string (unat (cur_value p1)))) (\<lambda>out2.
          try_then (parser_expect (shift p1) TOKEN_RBRACKET) (\<lambda>p2.
          try_then (append_token out2 out_size '']'') (\<lambda>out3.
            index_loop p2 out_size out3)))))"
  by pat_completeness auto
termination
proof (relation "measure (\<lambda>(p, _, _). left p)", simp, goal_cases)
  case (1 p out_size out out1 p1 out2 p2 out3)
  then have "left (shift p) < left p" by (intro shift_solid) (simp add: solid_def)
  moreover have "left p2 \<le> left (shift p)"
    using 1 expect_le pw.shift_le [of "shift p"] by (metis le_trans)
  ultimately show ?case by simp
qed

declare index_loop.simps [simp del]

lemma index_loop_le: "index_loop p n out = Inr (p', out') \<Longrightarrow> left p' \<le> left p"
proof (induction p n out arbitrary: out' rule: index_loop.induct)
  case (1 p n out)
  show ?case
  proof (cases "cur_type p = TOKEN_LBRACKET")
    case True
    with "1.prems" obtain out1 out2 p2 out3 where
      a: "append_token out n ''['' = Inr out1" and num: "cur_type (shift p) = TOKEN_NUMBER"
      and b: "append_token out1 n (dec_string (unat (cur_value (shift p)))) = Inr out2"
      and e: "parser_expect (shift (shift p)) TOKEN_RBRACKET = Inr p2"
      and c: "append_token out2 n '']'' = Inr out3" and r: "index_loop p2 n out3 = Inr (p', out')"
      by (subst (asm) index_loop.simps)
        (auto simp: Let_def try_then_Inr_iff split: if_splits elim!: try_then_InrE)
    have "left p' \<le> left p2" using "1.IH" [of out1 "shift p" out2 p2 out3] True a num b e c r by blast
    also have "\<dots> \<le> left (shift (shift p))" using e by (rule expect_le)
    finally show ?thesis using pw.shift_le [of p] pw.shift_le [of "shift p"] by linarith
  next
    case False
    with "1.prems" show ?thesis by (simp add: index_loop.simps [of p])
  qed
qed

text \<open>
  One component of a path per turn: name and indices, then a dot and the next name.
\<close>

function path_loop :: "Parser \<Rightarrow> nat \<Rightarrow> string \<Rightarrow> (Parser \<times> string) parse" where
  "path_loop p out_size out =
     try_then (append_token out out_size (cur_text p)) (\<lambda>out1.
     try_then (index_loop (shift p) out_size out1) (\<lambda>(p1, out2).
       if cur_type p1 = TOKEN_DOT
       then try_then (append_token out2 out_size ''.'') (\<lambda>out3.
              let p2 = shift p1 in
              if cur_type p2 \<noteq> TOKEN_IDENTIFIER
              then parser_error (''Expected field name after '' @ sq ''.'') []
              else path_loop p2 out_size out3)
       else Inr (p1, out2)))"
  by pat_completeness auto
termination
proof (relation "measure (\<lambda>(p, _, _). left p)", simp, goal_cases)
  case (1 p out_size out out1 pr p1 out2 out3 p2)
  then have "left p1 \<le> left (shift p)" using index_loop_le by blast
  also have "\<dots> \<le> left p" by (rule pw.shift_le)
  finally have "left p1 \<le> left p" .
  moreover have "left (shift p1) < left p1" using 1 by (intro shift_solid) (simp add: solid_def)
  ultimately show ?case using 1 by simp
qed

declare path_loop.simps [simp del]

lemma path_loop_le:
  "path_loop p n out = Inr (p', out') \<Longrightarrow> left p' \<le> left (shift p)"
proof (induction p n out arbitrary: out' rule: path_loop.induct)
  case (1 p n out)
  from "1.prems" obtain out1 p1 out2 where a: "append_token out n (cur_text p) = Inr out1"
    and i: "index_loop (shift p) n out1 = Inr (p1, out2)"
    by (subst (asm) path_loop.simps) (auto simp: try_then_Inr_iff)
  have p1: "left p1 \<le> left (shift p)" using i by (rule index_loop_le)
  show ?case
  proof (cases "cur_type p1 = TOKEN_DOT")
    case True
    with "1.prems" a i obtain out3 where b: "append_token out2 n ''.'' = Inr out3"
      and t: "cur_type (shift p1) = TOKEN_IDENTIFIER"
      and r: "path_loop (shift p1) n out3 = Inr (p', out')"
      by (subst (asm) path_loop.simps) (auto simp: try_then_Inr_iff Let_def split: if_splits)
    have "left p' \<le> left (shift (shift p1))"
      using "1.IH" [OF a i refl True b refl] t r by simp
    then show ?thesis using p1 pw.shift_le [of p1] pw.shift_le [of "shift p1"] by linarith
  next
    case False
    with "1.prems" a i p1 show ?thesis by (simp add: path_loop.simps [of p])
  qed
qed

definition parse_field_path :: "Parser \<Rightarrow> nat \<Rightarrow> (Parser \<times> string) parse" where
  "parse_field_path p out_size =
     (if cur_type p \<noteq> TOKEN_IDENTIFIER then parser_error ''Expected field name'' []
      else path_loop p out_size [])"

lemma parse_field_path_less:
  "parse_field_path p n = Inr (p', out) \<Longrightarrow> left p' < left p"
  using path_loop_le [of p n "[]" p' out] shift_solid [of p]
  by (auto simp: parse_field_path_def solid_def split: if_splits)

section \<open>Initialisation and constants\<close>

definition proto_init :: ProtocolDef where
  "proto_init =
     \<lparr>p_name = [], ports = [], default_endian = ENDIAN_BIG, structs = [], filters = [],
      constants = [], endian_mode = ENDIAN_MODE_AUTO, detected_endian = ENDIAN_TYPE_UNKNOWN,
      endian_writeback_done = False, pdef_file_path = []\<rparr>"

definition token_zero :: Token where
  "token_zero = \<lparr>t_type = TOKEN_IDENTIFIER, t_text = [], t_value = 0, t_line = 0, t_column = 0\<rparr>"

definition TEMP_CAP :: nat where
  "TEMP_CAP = 16"

definition parser_init :: "string \<Rightarrow> Parser" where
  "parser_init src =
     (let p0 = \<lparr>lexer = lexer_init src, current_token = token_zero, peek_token = token_zero,
                proto = proto_init, temp_structs = [], temp_filter_rules = [],
                endian_set = False\<rparr>
      in case lexer_next_token (lexer p0) of (_, l, t) \<Rightarrow>
           shift (p0\<lparr>peek_token := t, lexer := l\<rparr>))"

definition add_constant :: "Parser \<Rightarrow> string \<Rightarrow> u64 \<Rightarrow> Parser" where
  "add_constant p name value =
     p\<lparr>proto := (proto p)\<lparr>constants :=
        \<lparr>c_name = strncpy_z 63 name, c_value = value\<rparr> # constants (proto p)\<rparr>\<rparr>"

definition lookup_constant :: "Parser \<Rightarrow> string \<Rightarrow> u64 option" where
  "lookup_constant p name = protocol_find_constant (proto p) name"

lemma left_add_constant [simp]: "left (add_constant p n v) = left p"
  by (simp add: add_constant_def)

section \<open>The protocol block\<close>

definition upd_proto :: "(ProtocolDef \<Rightarrow> ProtocolDef) \<Rightarrow> Parser \<Rightarrow> Parser" where
  "upd_proto f p = p\<lparr>proto := f (proto p)\<rparr>"

lemma left_upd_proto [simp]: "left (upd_proto f p) = left p"
  by (simp add: upd_proto_def)

text \<open>The deprecated \<open>ports\<close> list: read and dropped.\<close>

function ports_loop :: "Parser \<Rightarrow> Parser parse" where
  "ports_loop p =
     (let p1 = (if cur_type p = TOKEN_COMMA then shift p else p) in
      if cur_type p1 \<noteq> TOKEN_NUMBER then parser_error ''Expected port number'' []
      else let p2 = shift p1 in
           if cur_type p2 = TOKEN_COMMA then ports_loop p2 else Inr p2)"
  by pat_completeness auto
termination
proof (relation "measure left", simp, goal_cases)
  case (1 p p1 p2)
  then have "left p2 < left p1" using shift_solid [of p1] by (simp add: solid_def)
  moreover have "left p1 \<le> left p" using 1 pw.shift_le [of p] by simp
  ultimately show ?case by simp
qed

declare ports_loop.simps [simp del]

lemma ports_loop_le: "ports_loop p = Inr p' \<Longrightarrow> left p' \<le> left p"
proof (induction p rule: ports_loop.induct)
  case (1 p)
  let ?p1 = "if cur_type p = TOKEN_COMMA then shift p else p"
  have p1: "left ?p1 \<le> left p" using pw.shift_le [of p] by simp
  have num: "cur_type ?p1 = TOKEN_NUMBER"
    using "1.prems" by (subst (asm) ports_loop.simps) (simp add: Let_def split: if_splits)
  have "left p' \<le> left (shift ?p1)"
  proof (cases "cur_type (shift ?p1) = TOKEN_COMMA")
    case True
    have "ports_loop (shift ?p1) = Inr p'"
      using "1.prems" num True by (subst (asm) ports_loop.simps) (simp add: Let_def)
    with num True show ?thesis by (intro "1.IH" [OF refl _ refl]) simp_all
  next
    case False
    then show ?thesis
      using "1.prems" num by (subst (asm) ports_loop.simps) (simp add: Let_def)
  qed
  then show ?case using p1 pw.shift_le [of ?p1] by linarith
qed

definition parse_name :: "Parser \<Rightarrow> Parser parse" where
  "parse_name p =
     (if cur_type p = TOKEN_STRING \<or> cur_type p = TOKEN_IDENTIFIER
      then Inr (shift (upd_proto (\<lambda>d. d\<lparr>p_name := strncpy_z 63 (cur_text p)\<rparr>) p))
      else parser_error ''Expected string or identifier for protocol name'' [])"

definition parse_endian :: "Parser \<Rightarrow> Parser parse" where
  "parse_endian p =
     (let expected = ''Expected '' @ sq ''big'' @ '' or '' @ sq ''little'' @ '' or '' @ sq ''auto''
                     @ '' for endian'' in
      if cur_type p \<noteq> TOKEN_IDENTIFIER then parser_error expected []
      else if cur_text p = ''big''
      then Inr (shift ((upd_proto (\<lambda>d. d\<lparr>default_endian := ENDIAN_BIG,
                                        endian_mode := ENDIAN_MODE_BIG\<rparr>) p)\<lparr>endian_set := True\<rparr>))
      else if cur_text p = ''little''
      then Inr (shift ((upd_proto (\<lambda>d. d\<lparr>default_endian := ENDIAN_LITTLE,
                                        endian_mode := ENDIAN_MODE_LITTLE\<rparr>) p)\<lparr>endian_set := True\<rparr>))
      else if cur_text p = ''auto''
      then Inr (shift ((upd_proto (\<lambda>d. d\<lparr>default_endian := ENDIAN_BIG,
                                        endian_mode := ENDIAN_MODE_AUTO\<rparr>) p)\<lparr>endian_set := True\<rparr>))
      else parser_error (expected @ '', got '' @ sq ''%s'') [Str (cur_text p)])"

text \<open>
  One \<open>key = value\<close> entry.  \<open>key\<close> is a 64-byte local array of which \<open>strncpy\<close> writes 63 bytes, so
  the comparisons see the first 63 characters of the token.
\<close>

definition protocol_value :: "string \<Rightarrow> Parser \<Rightarrow> Parser parse" where
  "protocol_value key p =
     (if key = ''name'' then parse_name p
      else if key = ''endian'' then parse_endian p
      else if key = ''ports''
      then try_then (ports_loop p) (\<lambda>p2. Inr (upd_proto (\<lambda>d. d\<lparr>ports := []\<rparr>) p2))
      else parser_error ''Unknown protocol metadata key: %s'' [Str key])"

definition protocol_entry :: "Parser \<Rightarrow> Parser parse" where
  "protocol_entry p =
     (if cur_type p \<noteq> TOKEN_IDENTIFIER
      then parser_error ''Expected identifier in @protocol block'' []
      else try_then (parser_expect (shift p) TOKEN_ASSIGN) (\<lambda>p1.
           try_then (protocol_value (strncpy_z 63 (cur_text p)) p1) (\<lambda>p3.
             Inr (skip_semicolon p3))))"

lemma parse_name_le: "parse_name p = Inr p' \<Longrightarrow> left p' \<le> left p"
  using pw.shift_le [of "upd_proto _ p"] by (auto simp: parse_name_def split: if_splits)

lemma parse_endian_le: "parse_endian p = Inr p' \<Longrightarrow> left p' \<le> left p"
  using pw.shift_le [of "(upd_proto _ p)\<lparr>endian_set := True\<rparr>"]
  by (auto simp: parse_endian_def Let_def split: if_splits)

lemma protocol_value_le: "protocol_value key p = Inr p' \<Longrightarrow> left p' \<le> left p"
  by (auto simp: protocol_value_def try_then_Inr_iff split: if_splits
      dest: parse_name_le parse_endian_le ports_loop_le)

text \<open>An identifier, an expected token and a value: the shape of every \<open>key = value\<close> item.\<close>

lemma entry_less:
  assumes "solid (cur_type p)" "parser_expect (shift p) ty = Inr p1" "left p2 \<le> left p1"
  shows "left (skip_semicolon p2) < left p" "left p2 < left p"
  using shift_solid [OF assms(1)] expect_le [OF assms(2)] assms(3) skip_semicolon_le [of p2]
  by linarith+

lemma protocol_entry_less: "protocol_entry p = Inr p' \<Longrightarrow> left p' < left p"
  by (auto simp: protocol_entry_def try_then_Inr_iff solid_def split: if_splits
      intro!: entry_less(1) dest: protocol_value_le)

function protocol_loop :: "Parser \<Rightarrow> Parser parse" where
  "protocol_loop p =
     (if cur_type p = TOKEN_RBRACE then Inr p else try_then (protocol_entry p) protocol_loop)"
  by pat_completeness auto
termination
  by (relation "measure left") (auto dest: protocol_entry_less)

declare protocol_loop.simps [simp del]

definition parse_protocol_block :: "Parser \<Rightarrow> Parser parse" where
  "parse_protocol_block p =
     try_then (parser_expect p TOKEN_PROTOCOL) (\<lambda>p1.
     try_then (parser_expect p1 TOKEN_LBRACE) (\<lambda>p2.
     try_then (protocol_loop p2) (\<lambda>p3.
       parser_expect p3 TOKEN_RBRACE)))"

lemma protocol_loop_le: "protocol_loop p = Inr p' \<Longrightarrow> left p' \<le> left p"
proof (induction p rule: protocol_loop.induct)
  case (1 p)
  show ?case
  proof (cases "cur_type p = TOKEN_RBRACE")
    case True
    with "1.prems" show ?thesis by (simp add: protocol_loop.simps [of p])
  next
    case False
    with "1.prems" obtain q where q: "protocol_entry p = Inr q" "protocol_loop q = Inr p'"
      by (auto simp: protocol_loop.simps [of p] try_then_Inr_iff)
    show ?thesis using "1.IH" [OF False q] protocol_entry_less [OF q(1)] by linarith
  qed
qed

text \<open>A block: keyword, brace, body, brace.\<close>

lemma block_less:
  assumes "parser_expect p k = Inr p1" "solid k" "parser_expect p1 b = Inr p2"
    and "left p3 \<le> left p2" "parser_expect p3 b' = Inr p'"
  shows "left p' < left p"
  using expect_less [OF assms(1,2)] expect_le [OF assms(3)] assms(4) expect_le [OF assms(5)]
  by linarith

lemma parse_protocol_block_less: "parse_protocol_block p = Inr p' \<Longrightarrow> left p' < left p"
  by (auto simp: parse_protocol_block_def try_then_Inr_iff solid_def
      dest: protocol_loop_le intro: block_less)

section \<open>The constant block\<close>

definition const_entry :: "Parser \<Rightarrow> Parser parse" where
  "const_entry p =
     (if cur_type p \<noteq> TOKEN_IDENTIFIER then parser_error ''Expected constant name'' []
      else try_then (parser_expect (shift p) TOKEN_ASSIGN) (\<lambda>p1.
           if cur_type p1 \<noteq> TOKEN_NUMBER then parser_error ''Expected constant value'' []
           else Inr (skip_semicolon
                  (add_constant (shift p1) (strncpy_z 63 (cur_text p)) (cur_value p1)))))"

lemma const_entry_less: "const_entry p = Inr p' \<Longrightarrow> left p' < left p"
  by (auto simp: const_entry_def try_then_Inr_iff solid_def pw.shift_le split: if_splits
      intro!: entry_less(1))

function const_loop :: "Parser \<Rightarrow> Parser parse" where
  "const_loop p =
     (if cur_type p = TOKEN_RBRACE then Inr p else try_then (const_entry p) const_loop)"
  by pat_completeness auto
termination
  by (relation "measure left") (auto dest: const_entry_less)

declare const_loop.simps [simp del]

definition parse_const_block :: "Parser \<Rightarrow> Parser parse" where
  "parse_const_block p =
     try_then (parser_expect p TOKEN_CONST) (\<lambda>p1.
     try_then (parser_expect p1 TOKEN_LBRACE) (\<lambda>p2.
     try_then (const_loop p2) (\<lambda>p3.
       parser_expect p3 TOKEN_RBRACE)))"

lemma const_loop_le: "const_loop p = Inr p' \<Longrightarrow> left p' \<le> left p"
proof (induction p rule: const_loop.induct)
  case (1 p)
  show ?case
  proof (cases "cur_type p = TOKEN_RBRACE")
    case True
    with "1.prems" show ?thesis by (simp add: const_loop.simps [of p])
  next
    case False
    with "1.prems" obtain q where q: "const_entry p = Inr q" "const_loop q = Inr p'"
      by (auto simp: const_loop.simps [of p] try_then_Inr_iff)
    show ?thesis using "1.IH" [OF False q] const_entry_less [OF q(1)] by linarith
  qed
qed

lemma parse_const_block_less: "parse_const_block p = Inr p' \<Longrightarrow> left p' < left p"
  by (auto simp: parse_const_block_def try_then_Inr_iff solid_def
      dest: const_loop_le intro: block_less)

section \<open>The filter block\<close>

text \<open>A number or the name of a constant; the message says what was expected.\<close>

definition value_operand :: "string \<Rightarrow> Parser \<Rightarrow> u64 parse" where
  "value_operand expected p =
     (if cur_type p = TOKEN_NUMBER then Inr (cur_value p)
      else if cur_type p = TOKEN_IDENTIFIER
      then (case lookup_constant p (cur_text p) of
              None \<Rightarrow> parser_error (''Undefined constant '' @ sq ''%s'') [Str (cur_text p)]
            | Some v \<Rightarrow> Inr v)
      else parser_error expected [])"

lemma value_operand_solid: "value_operand e p = Inr v \<Longrightarrow> solid (cur_type p)"
  by (auto simp: value_operand_def solid_def split: if_splits)

text \<open>The values of a list: at least one, separated by commas, up to the bracket.\<close>

function values_loop :: "Parser \<Rightarrow> u64 list \<Rightarrow> (Parser \<times> u64 list) parse" where
  "values_loop p vals =
     try_then (value_operand ''Expected value in list'' p) (\<lambda>val.
       let p1 = shift p; vals1 = vals @ [val] in
       if cur_type p1 = TOKEN_COMMA then values_loop (shift p1) vals1
       else if cur_type p1 = TOKEN_RBRACKET then Inr (shift p1, vals1)
       else parser_error (''Expected '' @ sq '','' @ '' or '' @ sq '']'' @ '' in list'') [])"
  by pat_completeness auto
termination
proof (relation "measure (\<lambda>(p, _). left p)", simp, goal_cases)
  case (1 p vals val p1 vals1)
  then have "left p1 < left p" using shift_solid value_operand_solid by blast
  then show ?case using pw.shift_le [of p1] by simp
qed

declare values_loop.simps [simp del]

lemma values_loop_le:
  "values_loop p vals = Inr (p', vals') \<Longrightarrow> left p' \<le> left p \<and> vals' \<noteq> []"
proof (induction p vals rule: values_loop.induct)
  case (1 p vals)
  from "1.prems" obtain v where v: "value_operand ''Expected value in list'' p = Inr v"
    by (auto simp: values_loop.simps [of p] try_then_Inr_iff)
  have le: "left (shift (shift p)) \<le> left p"
    using pw.shift_le [of p] pw.shift_le [of "shift p"] by linarith
  show ?case
  proof (cases "cur_type (shift p) = TOKEN_COMMA")
    case True
    then have "values_loop (shift (shift p)) (vals @ [v]) = Inr (p', vals')"
      using "1.prems" v by (simp add: values_loop.simps [of p] Let_def)
    then show ?thesis using "1.IH" [OF v refl refl True] le by simp
  next
    case False
    then show ?thesis using "1.prems" v le
      by (auto simp: values_loop.simps [of p] Let_def split: if_splits)
  qed
qed

definition cond_init :: FilterCondition where
  "cond_init = \<lparr>cond_field_name = [], cond_op = COND_EQ, cond_value = 0, cond_mask = 0,
                cond_values = []\<rparr>"

text \<open>\<open>& mask =\<close>: the mask and the assignment sign; the value follows.\<close>

definition parse_mask :: "Parser \<Rightarrow> FilterCondition \<Rightarrow> (Parser \<times> FilterCondition) parse" where
  "parse_mask p cond =
     (let p1 = shift p in
      try_then (value_operand ''Expected mask value'' p1) (\<lambda>mask_val.
      try_then (parser_expect (shift p1) TOKEN_ASSIGN) (\<lambda>p2.
        Inr (p2, cond\<lparr>cond_mask := mask_val, cond_op := COND_MASK\<rparr>))))"

definition comparison_op :: "TokenType \<Rightarrow> ConditionOp option" where
  "comparison_op ty =
     (if ty = TOKEN_ASSIGN \<or> ty = TOKEN_EQ then Some COND_EQ
      else if ty = TOKEN_NE then Some COND_NE
      else if ty = TOKEN_GT then Some COND_GT
      else if ty = TOKEN_GE then Some COND_GE
      else if ty = TOKEN_LT then Some COND_LT
      else if ty = TOKEN_LE then Some COND_LE
      else None)"

text \<open>\<open>in [\<dots>]\<close> with the current token on \<open>in\<close>.\<close>

definition parse_in_list ::
  "bool \<Rightarrow> Parser \<Rightarrow> FilterCondition \<Rightarrow> (Parser \<times> FilterCondition) parse" where
  "parse_in_list negate p cond =
     try_then (parser_expect (shift p) TOKEN_LBRACKET) (\<lambda>p1.
     try_then (values_loop p1 []) (\<lambda>(p2, vals).
       if vals = [] then parser_error ''Empty value list is not allowed'' []
       else Inr (p2, cond\<lparr>cond_op := (if negate then COND_NOT_IN else COND_IN),
                          cond_values := vals\<rparr>)))"

text \<open>An optional \<open>!\<close>, then \<open>in [\<dots>]\<close> or a comparison sign.\<close>

definition parse_operator ::
  "Parser \<Rightarrow> FilterCondition \<Rightarrow> (Parser \<times> FilterCondition) parse" where
  "parse_operator p0 cond =
     (let negate = (cur_type p0 = TOKEN_NOT);
          p = (if negate then shift p0 else p0)
      in if cur_type p = TOKEN_IN \<or> (cur_type p = TOKEN_IDENTIFIER \<and> cur_text p = ''in'')
         then parse_in_list negate p cond
         else (case comparison_op (cur_type p) of
                 None \<Rightarrow> parser_error ''Expected comparison operator'' []
               | Some op \<Rightarrow> Inr (shift p, cond\<lparr>cond_op := op\<rparr>)))"

definition parse_condition :: "Parser \<Rightarrow> (Parser \<times> FilterCondition) parse" where
  "parse_condition p =
     (if cur_type p \<noteq> TOKEN_IDENTIFIER
      then parser_error ''Expected field name or configuration'' []
      else try_then (parse_field_path p 128) (\<lambda>(p1, path).
           let cond = cond_init\<lparr>cond_field_name := strncpy_z 127 path\<rparr> in
           try_then (if cur_type p1 = TOKEN_AND then parse_mask p1 cond
                     else parse_operator p1 cond) (\<lambda>(p2, cond2).
             if cond_op cond2 \<noteq> COND_IN \<and> cond_op cond2 \<noteq> COND_NOT_IN
             then try_then (value_operand ''Expected value'' p2) (\<lambda>v.
                    Inr (shift p2, cond2\<lparr>cond_value := v\<rparr>))
             else Inr (p2, cond2))))"

lemma parse_mask_le: "parse_mask p c = Inr (p', c') \<Longrightarrow> left p' \<le> left p"
  using pw.shift_le [of p] pw.shift_le [of "shift p"]
  by (auto simp: parse_mask_def Let_def try_then_Inr_iff dest!: expect_le)

lemma parse_in_list_le:
  assumes "parse_in_list n p c = Inr (p', c')"
  shows "left p' \<le> left p"
proof -
  from assms obtain p1 vals where "parser_expect (shift p) TOKEN_LBRACKET = Inr p1"
    and "values_loop p1 [] = Inr (p', vals)"
    by (auto simp: parse_in_list_def try_then_Inr_iff split: if_splits)
  then show ?thesis using expect_le [of "shift p"] values_loop_le pw.shift_le [of p]
    by (meson le_trans)
qed

lemma parse_operator_le: "parse_operator p0 c = Inr (p', c') \<Longrightarrow> left p' \<le> left p0"
  using pw.shift_le [of p0] pw.shift_le [of "shift p0"]
  by (auto simp: parse_operator_def Let_def split: if_splits option.splits
      dest!: parse_in_list_le)

lemma parse_condition_less:
  assumes "parse_condition p = Inr (p', c)"
  shows "left p' < left p"
proof -
  from assms obtain p1 path c1 p2 c2 where f: "parse_field_path p 128 = Inr (p1, path)"
    and m: "(if cur_type p1 = TOKEN_AND then parse_mask p1 c1 else parse_operator p1 c1) = Inr (p2, c2)"
    and p': "p' = p2 \<or> p' = shift p2"
    by (fastforce simp: parse_condition_def Let_def try_then_Inr_iff split: if_splits prod.splits)
  have "left p2 \<le> left p1" using m by (auto split: if_splits dest: parse_mask_le parse_operator_le)
  moreover have "left p' \<le> left p2" using p' pw.shift_le [of p2] by auto
  ultimately show ?thesis using parse_field_path_less [OF f] by linarith
qed

text \<open>The two options of a rule.\<close>

definition parse_sliding :: "Parser \<Rightarrow> TempFilterRule \<Rightarrow> (Parser \<times> TempFilterRule) parse" where
  "parse_sliding p rule =
     try_then (parser_expect (shift p) TOKEN_ASSIGN) (\<lambda>p1.
     try_then
       (if cur_type p1 = TOKEN_IDENTIFIER
        then if cur_text p1 = ''true'' then Inr True
             else if cur_text p1 = ''false'' then Inr False
             else parser_error (''Expected '' @ sq ''true'' @ '' or '' @ sq ''false'' @ '' for sliding'') []
        else if cur_type p1 = TOKEN_NUMBER then Inr (cur_value p1 \<noteq> 0)
        else parser_error ''Expected boolean value for sliding'' []) (\<lambda>b.
     Inr (skip_semicolon (shift p1), rule\<lparr>tr_sliding_window := b\<rparr>)))"

definition parse_sliding_max :: "Parser \<Rightarrow> TempFilterRule \<Rightarrow> (Parser \<times> TempFilterRule) parse" where
  "parse_sliding_max p rule =
     try_then (parser_expect (shift p) TOKEN_ASSIGN) (\<lambda>p1.
       if cur_type p1 \<noteq> TOKEN_NUMBER then parser_error ''Expected number for sliding_max'' []
       else Inr (skip_semicolon (shift p1),
                 rule\<lparr>tr_sliding_max_offset := ucast (cur_value p1)\<rparr>))"

text \<open>One item of a filter body: an option or a condition.\<close>

definition filter_item :: "Parser \<Rightarrow> TempFilterRule \<Rightarrow> (Parser \<times> TempFilterRule) parse" where
  "filter_item p rule =
     (if cur_type p = TOKEN_IDENTIFIER \<and> cur_text p = ''sliding'' then parse_sliding p rule
      else if cur_type p = TOKEN_IDENTIFIER \<and> cur_text p = ''sliding_max''
      then parse_sliding_max p rule
      else try_then (parse_condition p) (\<lambda>(p1, cond).
             Inr (skip_semicolon p1, rule\<lparr>tr_conditions := tr_conditions rule @ [cond]\<rparr>)))"

lemma filter_item_less:
  assumes "filter_item p rule = Inr (p', rule')"
  shows "left p' < left p"
proof -
  consider (opt) p1 where "cur_type p = TOKEN_IDENTIFIER" "parser_expect (shift p) TOKEN_ASSIGN = Inr p1"
      "p' = skip_semicolon (shift p1)"
    | (cond) p1 c where "parse_condition p = Inr (p1, c)" "p' = skip_semicolon p1"
    using assms by (fastforce simp: filter_item_def parse_sliding_def parse_sliding_max_def
        try_then_Inr_iff split: if_splits)
  then show ?thesis
  proof cases
    case opt
    then show ?thesis using entry_less(1) [OF _ opt(2) pw.shift_le] by (simp add: solid_def)
  next
    case cond
    then show ?thesis using parse_condition_less [OF cond(1)] skip_semicolon_le [of p1] by simp
  qed
qed

function filter_loop :: "Parser \<Rightarrow> TempFilterRule \<Rightarrow> (Parser \<times> TempFilterRule) parse" where
  "filter_loop p rule =
     (if cur_type p = TOKEN_RBRACE then Inr (p, rule)
      else try_then (filter_item p rule) (\<lambda>(p1, rule1). filter_loop p1 rule1))"
  by pat_completeness auto
termination
  by (relation "measure (\<lambda>(p, _). left p)") (auto dest: filter_item_less)

declare filter_loop.simps [simp del]

lemma filter_loop_le: "filter_loop p rule = Inr (p', rule') \<Longrightarrow> left p' \<le> left p"
proof (induction p rule rule: filter_loop.induct)
  case (1 p rule)
  show ?case
  proof (cases "cur_type p = TOKEN_RBRACE")
    case True
    with "1.prems" show ?thesis by (simp add: filter_loop.simps [of p])
  next
    case False
    with "1.prems" obtain q r where q: "filter_item p rule = Inr (q, r)"
      "filter_loop q r = Inr (p', rule')"
      by (auto simp: filter_loop.simps [of p] try_then_Inr_iff)
    show ?thesis using "1.IH" [OF False q(1) refl q(2)] filter_item_less [OF q(1)] by linarith
  qed
qed

definition rule_init :: "string \<Rightarrow> TempFilterRule" where
  "rule_init name =
     \<lparr>tr_name = strncpy_z 63 name, tr_struct_name = [], tr_conditions = [],
      tr_sliding_window = False, tr_sliding_max_offset = 0\<rparr>"

definition parse_filter_block :: "Parser \<Rightarrow> Parser parse" where
  "parse_filter_block p =
     try_then (parser_expect p TOKEN_FILTER) (\<lambda>p1.
       if cur_type p1 \<noteq> TOKEN_IDENTIFIER then parser_error ''Expected filter name'' []
       else if length (temp_filter_rules p1) \<ge> TEMP_CAP then parser_error ''Too many filters'' []
       else try_then (parser_expect (shift p1) TOKEN_LBRACE) (\<lambda>p2.
            try_then (filter_loop p2 (rule_init (cur_text p1))) (\<lambda>(p3, rule).
              parser_expect (p3\<lparr>temp_filter_rules := temp_filter_rules p3 @ [rule]\<rparr>) TOKEN_RBRACE)))"

lemma parse_filter_block_less:
  assumes "parse_filter_block p = Inr p'"
  shows "left p' < left p"
proof -
  from assms obtain p1 p2 p3 rule where a: "parser_expect p TOKEN_FILTER = Inr p1"
    and b: "parser_expect (shift p1) TOKEN_LBRACE = Inr p2"
    and c: "filter_loop p2 (rule_init (cur_text p1)) = Inr (p3, rule)"
    and d: "parser_expect (p3\<lparr>temp_filter_rules := temp_filter_rules p3 @ [rule]\<rparr>) TOKEN_RBRACE = Inr p'"
    by (auto simp: parse_filter_block_def try_then_Inr_iff split: if_splits)
  have "left p1 < left p" using expect_less [OF a] by (simp add: solid_def)
  then show ?thesis using expect_le [OF b] filter_loop_le [OF c] expect_le [OF d] pw.shift_le [of p1]
    by simp
qed

section \<open>Struct definitions\<close>

definition token_to_field_type :: "TokenType \<Rightarrow> FieldType" where
  "token_to_field_type ty =
     (if ty = TOKEN_UINT8 then FIELD_TYPE_UINT8
      else if ty = TOKEN_UINT16 then FIELD_TYPE_UINT16
      else if ty = TOKEN_UINT32 then FIELD_TYPE_UINT32
      else if ty = TOKEN_UINT64 then FIELD_TYPE_UINT64
      else if ty = TOKEN_INT8 then FIELD_TYPE_INT8
      else if ty = TOKEN_INT16 then FIELD_TYPE_INT16
      else if ty = TOKEN_INT32 then FIELD_TYPE_INT32
      else if ty = TOKEN_INT64 then FIELD_TYPE_INT64
      else if ty = TOKEN_BYTES then FIELD_TYPE_BYTES
      else if ty = TOKEN_STRING_TYPE then FIELD_TYPE_STRING
      else if ty = TOKEN_VARBYTES then FIELD_TYPE_VARBYTES
      else if ty = TOKEN_IDENTIFIER then FIELD_TYPE_NESTED
      else FIELD_TYPE_UINT8)"

definition sized_type :: "FieldType \<Rightarrow> bool" where
  "sized_type ty \<longleftrightarrow> ty = FIELD_TYPE_BYTES \<or> ty = FIELD_TYPE_STRING"

text \<open>The \<open>[N]\<close> after \<open>bytes\<close> or \<open>string\<close>.\<close>

definition parse_byte_size :: "Parser \<Rightarrow> (Parser \<times> u32) parse" where
  "parse_byte_size p =
     (if cur_type p = TOKEN_LBRACKET
      then let p1 = shift p in
           if cur_type p1 \<noteq> TOKEN_NUMBER then parser_error ''Expected array size'' []
           else try_then (parser_expect (shift p1) TOKEN_RBRACKET) (\<lambda>p2.
                  Inr (p2, ucast (cur_value p1)))
      else parser_error ''bytes/string requires array size [N]'' [])"

text \<open>The \<open>[N]\<close> after the name of a nested field.\<close>

definition parse_array_suffix :: "Parser \<Rightarrow> Field \<Rightarrow> (Parser \<times> Field) parse" where
  "parse_array_suffix p f =
     (if cur_type p = TOKEN_LBRACKET
      then if f_type f \<noteq> FIELD_TYPE_NESTED
           then parser_error ''Array syntax is only supported for nested struct fields'' []
           else let p1 = shift p in
                if cur_type p1 \<noteq> TOKEN_NUMBER then parser_error (''Expected array size after '' @ sq ''['') []
                else let n = ucast (cur_value p1) in
                     if n = (0 :: u32) then parser_error ''Array size must be greater than 0'' []
                     else try_then (parser_expect (shift p1) TOKEN_RBRACKET) (\<lambda>p2.
                            Inr (p2, f\<lparr>f_is_array := True, f_array_size := n\<rparr>))
      else Inr (p, f))"

text \<open>Name and size of the field, from its type, the type name and the field name.\<close>

definition named_field :: "FieldType \<Rightarrow> u32 \<Rightarrow> string \<Rightarrow> string \<Rightarrow> Field" where
  "named_field ty sz type_name name =
     \<lparr>f_name = strncpy_z 127 (if ty = FIELD_TYPE_NESTED then type_name @ ''.'' @ name else name),
      f_type = ty, f_offset = 0,
      f_size = (if ty = FIELD_TYPE_NESTED \<or> sized_type ty then sz else field_type_size ty),
      f_endian = ENDIAN_BIG, f_is_variable = False, f_is_array = False, f_array_size = 1\<rparr>"

definition struct_field :: "Parser \<Rightarrow> StructDef \<Rightarrow> (Parser \<times> StructDef) parse" where
  "struct_field p s =
     (if s_has_variable s
      then parser_error (''Variable-length field must be the last field in struct '' @ sq ''%s'') [Str (s_name s)]
      else
        let ty = token_to_field_type (cur_type p);
            type_name = strncpy_z 63 (cur_text p)
        in try_then (if sized_type ty then parse_byte_size (shift p) else Inr (shift p, 0))
             (\<lambda>(p1, sz).
           if cur_type p1 \<noteq> TOKEN_IDENTIFIER then parser_error ''Expected field name'' []
           else try_then
             (parse_array_suffix (shift p1)
                (named_field ty sz type_name (strncpy_z 63 (cur_text p1)))) (\<lambda>(p2, f).
             let f2 = f\<lparr>f_endian := default_endian (proto p2),
                        f_is_variable := (ty = FIELD_TYPE_VARBYTES)\<rparr>
             in Inr (skip_semicolon p2,
                     s\<lparr>s_fields := s_fields s @ [f2],
                       s_has_variable := (ty = FIELD_TYPE_VARBYTES)\<rparr>))))"

lemma parse_byte_size_le: "parse_byte_size p = Inr (p', n) \<Longrightarrow> left p' \<le> left p"
  using pw.shift_le [of p] pw.shift_le [of "shift p"]
  by (auto simp: parse_byte_size_def Let_def try_then_Inr_iff split: if_splits dest!: expect_le)

lemma parse_array_suffix_le: "parse_array_suffix p f = Inr (p', f') \<Longrightarrow> left p' \<le> left p"
  using pw.shift_le [of p] pw.shift_le [of "shift p"]
  by (auto simp: parse_array_suffix_def Let_def try_then_Inr_iff split: if_splits dest!: expect_le)

lemma struct_field_less:
  assumes "struct_field p s = Inr (p', s')"
  shows "left p' < left p"
proof -
  from assms obtain p1 n p2 f f' where
    a: "(if sized_type (token_to_field_type (cur_type p)) then parse_byte_size (shift p)
         else Inr (shift p, 0)) = Inr (p1, n)"
    and t: "cur_type p1 = TOKEN_IDENTIFIER"
    and b: "parse_array_suffix (shift p1) f = Inr (p2, f')" and p': "p' = skip_semicolon p2"
    by (fastforce simp: struct_field_def Let_def try_then_Inr_iff split: if_splits prod.splits)
  have "left p1 \<le> left p"
    using a parse_byte_size_le [of "shift p"] pw.shift_le [of p]
    by (auto split: if_splits intro: le_trans)
  moreover have "left (shift p1) < left p1" using t by (intro shift_solid) (simp add: solid_def)
  ultimately show ?thesis
    using parse_array_suffix_le [OF b] skip_semicolon_le [of p2] unfolding p' by linarith
qed

function struct_loop :: "Parser \<Rightarrow> StructDef \<Rightarrow> (Parser \<times> StructDef) parse" where
  "struct_loop p s =
     (if cur_type p = TOKEN_RBRACE then Inr (p, s)
      else try_then (struct_field p s) (\<lambda>(p1, s1). struct_loop p1 s1))"
  by pat_completeness auto
termination
  by (relation "measure (\<lambda>(p, _). left p)") (auto dest: struct_field_less)

declare struct_loop.simps [simp del]

lemma struct_loop_le: "struct_loop p s = Inr (p', s') \<Longrightarrow> left p' \<le> left p"
proof (induction p s rule: struct_loop.induct)
  case (1 p s)
  show ?case
  proof (cases "cur_type p = TOKEN_RBRACE")
    case True
    with "1.prems" show ?thesis by (simp add: struct_loop.simps [of p])
  next
    case False
    with "1.prems" obtain q r where q: "struct_field p s = Inr (q, r)"
      "struct_loop q r = Inr (p', s')"
      by (auto simp: struct_loop.simps [of p] try_then_Inr_iff)
    show ?thesis using "1.IH" [OF False q(1) refl q(2)] struct_field_less [OF q(1)] by linarith
  qed
qed

definition struct_init :: "string \<Rightarrow> StructDef" where
  "struct_init name =
     \<lparr>s_name = strncpy_z 63 name, s_fields = [], s_min_size = 0, s_has_variable = False\<rparr>"

text \<open>
  The new struct is written to \<open>temp_structs[struct_count]\<close> without a bounds check: the array has
  \<open>TEMP_CAP\<close> elements, so one struct more is a write outside it.
\<close>

definition parse_struct_def :: "Parser \<Rightarrow> Parser parse" where
  "parse_struct_def p =
     (if cur_type p \<noteq> TOKEN_IDENTIFIER then parser_error ''Expected struct name'' []
      else if length (temp_structs p) \<ge> TEMP_CAP then Inl (Memory_fault Oob_write)
      else try_then (parser_expect (shift p) TOKEN_LBRACE) (\<lambda>p1.
           try_then (struct_loop p1 (struct_init (cur_text p))) (\<lambda>(p2, s).
             parser_expect (p2\<lparr>temp_structs := temp_structs p2 @ [s]\<rparr>) TOKEN_RBRACE)))"

lemma parse_struct_def_less:
  assumes "parse_struct_def p = Inr p'"
  shows "left p' < left p"
proof -
  from assms obtain p1 p2 s where t: "cur_type p = TOKEN_IDENTIFIER"
    and a: "parser_expect (shift p) TOKEN_LBRACE = Inr p1"
    and b: "struct_loop p1 (struct_init (cur_text p)) = Inr (p2, s)"
    and c: "parser_expect (p2\<lparr>temp_structs := temp_structs p2 @ [s]\<rparr>) TOKEN_RBRACE = Inr p'"
    by (auto simp: parse_struct_def_def try_then_Inr_iff split: if_splits)
  have "left (shift p) < left p" using t by (intro shift_solid) (simp add: solid_def)
  then show ?thesis using expect_le [OF a] struct_loop_le [OF b] expect_le [OF c] by simp
qed

section \<open>The top level\<close>

definition parse_block :: "Parser \<Rightarrow> Parser parse" where
  "parse_block p =
     (if cur_type p = TOKEN_PROTOCOL then parse_protocol_block p
      else if cur_type p = TOKEN_CONST then parse_const_block p
      else if cur_type p = TOKEN_FILTER then parse_filter_block p
      else if cur_type p = TOKEN_IDENTIFIER then parse_struct_def p
      else parser_error ''Unexpected token at top level'' [])"

lemma parse_block_less: "parse_block p = Inr p' \<Longrightarrow> left p' < left p"
  by (auto simp: parse_block_def split: if_splits dest: parse_protocol_block_less
      parse_const_block_less parse_filter_block_less parse_struct_def_less)

function parse_blocks :: "Parser \<Rightarrow> Parser parse" where
  "parse_blocks p =
     (if cur_type p = TOKEN_EOF then Inr p else try_then (parse_block p) parse_blocks)"
  by pat_completeness auto
termination
  by (relation "measure left") (auto dest: parse_block_less)

declare parse_blocks.simps [simp del]

end
