(* ===== verification/Flatten.thy ===== *)
theory Flatten
  imports Parser
begin

text \<open>
  Layout of structs: \<open>flatten_structs\<close> of \<open>src/src/pdef/parser.c\<close> replaces every nested field by
  the fields of the struct it names, and gives every field its offset and every struct its size.
  The structs are processed in the order of the file and updated in place, so a reference to a
  struct that comes later, or to the struct itself, sees that struct as it was parsed: its fields
  at offset 0 and its size 0.  \<open>laid_out\<close> states what a finished struct promises to the filter
  compiler.
\<close>

section \<open>Names of nested fields\<close>

text \<open>The two halves of \<open>Type.field\<close>, split at the first dot; each has to fit in 64 bytes.\<close>

definition parse_nested_field_names :: "Field \<Rightarrow> (string \<times> string) parse" where
  "parse_nested_field_names f =
     (let name = f_name f;
          prefix = takeWhile (\<lambda>c. c \<noteq> CHR ''.'') name;
          rest = drop (Suc (length prefix)) name
      in if length prefix = length name
         then parser_error ''Invalid nested field name: %s'' [Str name]
         else if length prefix \<ge> 64
         then parser_error ''Nested type name too long: %s'' [Str name]
         else if length rest \<ge> 64
         then parser_error ''Nested field name too long: %s'' [Str name]
         else Inr (prefix, rest))"

definition find_struct_by_name :: "StructDef list \<Rightarrow> string \<Rightarrow> StructDef option" where
  "find_struct_by_name ss name = find (\<lambda>s. s_name s = name) ss"

section \<open>Expansion\<close>

definition expand_field :: "string \<Rightarrow> u32 \<Rightarrow> Field \<Rightarrow> Field" where
  "expand_field field_name base src =
     src\<lparr>f_name := strncpy_z 127 (field_name @ ''.'' @ f_name src), f_offset := base + f_offset src\<rparr>"

definition expand_nested_field ::
  "StructDef list \<Rightarrow> Field \<Rightarrow> Field list \<Rightarrow> u32 \<Rightarrow> Field list parse" where
  "expand_nested_field ss nested_field expanded base =
     try_then (parse_nested_field_names nested_field) (\<lambda>(type_name, field_name).
       case find_struct_by_name ss type_name of
         None \<Rightarrow> parser_error (''Nested struct '' @ sq ''%s'' @ '' not found'') [Str type_name]
       | Some nested \<Rightarrow> Inr (expanded @ map (expand_field field_name base) (s_fields nested)))"

text \<open>The copy of the field that is expanded for one element; an array element has its index.\<close>

definition element_field :: "Field \<Rightarrow> string \<Rightarrow> string \<Rightarrow> nat \<Rightarrow> Field" where
  "element_field f type_name field_name idx =
     (let g = f\<lparr>f_is_array := False, f_array_size := 1\<rparr> in
      if f_is_array f
      then g\<lparr>f_name := strncpy_z 127
               (type_name @ ''.'' @ field_name @ ''['' @ dec_string idx @ '']'')\<rparr>
      else g)"

text \<open>The loop over the elements \<open>idx, \<dots>, idx + n - 1\<close>.\<close>

primrec repeat_loop ::
  "StructDef list \<Rightarrow> Field \<Rightarrow> string \<Rightarrow> string \<Rightarrow> u32 \<Rightarrow> u32 \<Rightarrow> nat \<Rightarrow> nat \<Rightarrow> Field list
    \<Rightarrow> Field list parse" where
  "repeat_loop ss f type_name field_name min_sz offset idx 0 expanded = Inr expanded"
| "repeat_loop ss f type_name field_name min_sz offset idx (Suc n) expanded =
     try_then (expand_nested_field ss (element_field f type_name field_name idx) expanded
                 (offset + of_nat idx * min_sz))
       (repeat_loop ss f type_name field_name min_sz offset (Suc idx) n)"

section \<open>One struct\<close>

text \<open>The local variables of the loop over the fields of struct \<open>i\<close>, and the array of structs.\<close>

record Layout =
  lay_structs :: "StructDef list"
  lay_expanded :: "Field list"
  lay_offset :: u32
  lay_variable_seen :: bool

definition mark_variable :: "nat \<Rightarrow> bool \<Rightarrow> Layout \<Rightarrow> Layout" where
  "mark_variable i b st =
     (if b then st\<lparr>lay_variable_seen := True,
                   lay_structs := (lay_structs st)[i := (lay_structs st ! i)\<lparr>s_has_variable := True\<rparr>]\<rparr>
      else st)"

definition flatten_nested :: "nat \<Rightarrow> Field \<Rightarrow> u32 \<Rightarrow> Layout \<Rightarrow> Layout parse" where
  "flatten_nested i f rep st =
     try_then (parse_nested_field_names f) (\<lambda>(type_name, field_name).
       case find_struct_by_name (lay_structs st) type_name of
         None \<Rightarrow> parser_error (''Nested struct '' @ sq ''%s'' @ '' not found'') [Str type_name]
       | Some nested \<Rightarrow>
           if s_has_variable nested \<and> rep > 1
           then parser_error (''Array of variable-length struct '' @ sq ''%s'' @
                  '' is not supported in '' @ sq ''%s'')
                  [Str type_name, Str (s_name (lay_structs st ! i))]
           else try_then
             (repeat_loop (lay_structs st) f type_name field_name (s_min_size nested)
                (lay_offset st) 0 (unat rep) (lay_expanded st)) (\<lambda>expanded.
             let st1 = mark_variable i (s_has_variable nested) (st\<lparr>lay_expanded := expanded\<rparr>)
             in Inr (st1\<lparr>lay_offset := lay_offset st + s_min_size nested * rep\<rparr>)))"

definition flatten_plain :: "nat \<Rightarrow> Field \<Rightarrow> Layout \<Rightarrow> Layout parse" where
  "flatten_plain i f st =
     (if f_is_array f
      then parser_error (''Arrays are only supported for nested struct fields (field '' @ sq ''%s''
             @ '' in struct '' @ sq ''%s'' @ '')'') [Str (f_name f), Str (s_name (lay_structs st ! i))]
      else let st1 = mark_variable i (f_is_variable f)
                       (st\<lparr>lay_expanded := lay_expanded st @ [f\<lparr>f_offset := lay_offset st\<rparr>]\<rparr>)
           in Inr (if f_is_variable f then st1
                   else st1\<lparr>lay_offset := lay_offset st + f_size f\<rparr>))"

definition flatten_field :: "nat \<Rightarrow> Field \<Rightarrow> Layout \<Rightarrow> Layout parse" where
  "flatten_field i f st =
     (let rep = (if f_is_array f then f_array_size f else 1);
          struct_name = s_name (lay_structs st ! i) in
      if lay_variable_seen st
      then parser_error (''Variable-length field '' @ sq ''%s'' @ '' must be last in struct '' @ sq ''%s'')
             [Str (f_name f), Str struct_name]
      else if rep = 0
      then parser_error (''Array size must be greater than 0 for field '' @ sq ''%s'' @
             '' in struct '' @ sq ''%s'') [Str (f_name f), Str struct_name]
      else if f_type f = FIELD_TYPE_NESTED then flatten_nested i f rep st
      else flatten_plain i f st)"

primrec flatten_fields :: "nat \<Rightarrow> Field list \<Rightarrow> Layout \<Rightarrow> Layout parse" where
  "flatten_fields i [] st = Inr st"
| "flatten_fields i (f # fs) st = try_then (flatten_field i f st) (flatten_fields i fs)"

definition flatten_struct :: "StructDef list \<Rightarrow> nat \<Rightarrow> StructDef list parse" where
  "flatten_struct ss i =
     try_then (flatten_fields i (s_fields (ss ! i))
       \<lparr>lay_structs = ss[i := (ss ! i)\<lparr>s_has_variable := False\<rparr>], lay_expanded = [],
        lay_offset = 0, lay_variable_seen = False\<rparr>) (\<lambda>st.
       let s = lay_structs st ! i in
       Inr ((lay_structs st)[i := s\<lparr>s_min_size := lay_offset st, s_fields := lay_expanded st\<rparr>]))"

section \<open>All structs\<close>

primrec flatten_loop :: "nat list \<Rightarrow> StructDef list \<Rightarrow> StructDef list parse" where
  "flatten_loop [] ss = Inr ss"
| "flatten_loop (i # is) ss = try_then (flatten_struct ss i) (flatten_loop is)"

definition flatten_structs :: "StructDef list \<Rightarrow> StructDef list parse" where
  "flatten_structs ss = flatten_loop [0..<length ss] ss"

section \<open>What a laid-out struct promises\<close>

text \<open>
  \<open>segment b fs e v\<close>: the fields \<open>fs\<close> lie back to back from offset \<open>b\<close> to offset \<open>e\<close>; none is
  nested or an array; \<open>v\<close> says whether the last one has a variable length, and no other has.
\<close>

fun segment :: "u32 \<Rightarrow> Field list \<Rightarrow> u32 \<Rightarrow> bool \<Rightarrow> bool" where
  "segment b [] e v \<longleftrightarrow> b = e \<and> \<not> v"
| "segment b (f # fs) e v \<longleftrightarrow>
     f_offset f = b \<and> f_type f \<noteq> FIELD_TYPE_NESTED \<and> \<not> f_is_array f \<and>
     (if f_is_variable f then fs = [] \<and> v \<and> e = b else segment (b + f_size f) fs e v)"

definition laid_out :: "StructDef \<Rightarrow> bool" where
  "laid_out s \<longleftrightarrow> segment 0 (s_fields s) (s_min_size s) (s_has_variable s)"

text \<open>Every nested field names a struct that was declared before.\<close>

definition declared_in :: "StructDef list \<Rightarrow> Field \<Rightarrow> bool" where
  "declared_in ss f \<longleftrightarrow> f_type f = FIELD_TYPE_NESTED \<longrightarrow>
     (case parse_nested_field_names f of
        Inl _ \<Rightarrow> True | Inr (type_name, _) \<Rightarrow> type_name \<in> set (map s_name ss))"

definition backward_refs :: "StructDef list \<Rightarrow> bool" where
  "backward_refs ss \<longleftrightarrow>
     list_all (\<lambda>i. list_all (declared_in (take i ss)) (s_fields (ss ! i))) [0..<length ss]"

lemma segment_append:
  "segment b fs m False \<Longrightarrow> segment m gs e v \<Longrightarrow> segment b (fs @ gs) e v"
  by (induction b fs m False rule: segment.induct) (auto split: if_splits)

lemma segment_expand:
  "segment b fs e v \<Longrightarrow> segment (base + b) (map (expand_field n base) fs) (base + e) v"
  by (induction b fs e v rule: segment.induct)
    (auto simp: expand_field_def add.assoc split: if_splits)

section \<open>Names of elements\<close>

lemma takeWhile_first: "c \<notin> set zs \<Longrightarrow> takeWhile (\<lambda>x. x \<noteq> c) (zs @ c # zs') = zs"
  by (induction zs) auto

lemma first_split:
  assumes "xs @ c # xs' = ys @ c # ys'" "c \<notin> set ys" "c \<notin> set xs"
  shows "xs = ys"
  using takeWhile_first [OF assms(2), of ys'] takeWhile_first [OF assms(3), of xs'] assms(1) by simp

lemma takeWhile_proper:
  assumes "length (takeWhile (\<lambda>x. x \<noteq> c) xs) \<noteq> length xs"
  shows "xs = takeWhile (\<lambda>x. x \<noteq> c) xs @ c # drop (Suc (length (takeWhile (\<lambda>x. x \<noteq> c) xs))) xs"
  using assms by (induction xs) auto

lemma nested_namesI:
  assumes "f_name f = tn @ CHR ''.'' # fn" "CHR ''.'' \<notin> set tn" "length tn < 64" "length fn < 64"
  shows "parse_nested_field_names f = Inr (tn, fn)"
  using assms takeWhile_first [OF assms(2), of fn] by (simp add: parse_nested_field_names_def Let_def)

lemma nested_namesD:
  assumes "parse_nested_field_names f = Inr (tn, fn)"
  shows "f_name f = tn @ CHR ''.'' # fn" "CHR ''.'' \<notin> set tn" "length tn < 64" "length fn < 64"
proof -
  let ?w = "takeWhile (\<lambda>c. c \<noteq> CHR ''.'') (f_name f)"
  have w: "length ?w \<noteq> length (f_name f)" "tn = ?w" "fn = drop (Suc (length ?w)) (f_name f)"
    "length ?w < 64" "length fn < 64"
    using assms by (auto simp: parse_nested_field_names_def Let_def split: if_splits)
  show "f_name f = tn @ CHR ''.'' # fn" using takeWhile_proper [OF w(1)] w(2,3) by simp
  show "CHR ''.'' \<notin> set tn" unfolding w(2) by (auto dest: set_takeWhileD)
  show "length tn < 64" "length fn < 64" using w(2,4,5) by simp_all
qed

lemma element_type_name:
  assumes "parse_nested_field_names f = Inr (tn, fn)"
    and "parse_nested_field_names (element_field f tn fn k) = Inr (tn', fn')"
  shows "tn' = tn"
proof -
  note n = nested_namesD [OF assms(1)] and n' = nested_namesD [OF assms(2)]
  have "\<exists>r. f_name (element_field f tn fn k) = tn @ CHR ''.'' # r"
    using n(1,3) by (auto simp: element_field_def Let_def strncpy_z_def take_Cons')
  then show ?thesis using n'(1) n(2) n'(2) by (auto intro: first_split)
qed

section \<open>Layout of nested fields\<close>

lemma find_struct_name: "find_struct_by_name ss tn = Some s \<Longrightarrow> s \<in> set ss \<and> s_name s = tn"
  by (auto simp: find_struct_by_name_def find_Some_iff)

lemma find_struct_prefix:
  assumes "tn \<in> set (map s_name (take i ss))" and "find_struct_by_name ss tn = Some s"
  shows "s \<in> set (take i ss)"
proof -
  obtain j where j: "j < length ss" "s_name (ss ! j) = tn" "s = ss ! j"
      "\<And>k. k < j \<Longrightarrow> s_name (ss ! k) \<noteq> tn"
    using assms(2) by (auto simp: find_struct_by_name_def find_Some_iff)
  obtain k where k: "k < i" "k < length ss" "s_name (ss ! k) = tn"
    using assms(1) by (auto simp: in_set_conv_nth)
  then have "j < i" using j(4) [of k] by (meson leI le_less_trans)
  then show ?thesis using j by (auto simp: in_set_conv_nth intro!: exI [of _ j])
qed

lemma repeat_loop_segment:
  assumes "repeat_loop ss f tn fn m off idx n ex = Inr ex'"
    and "parse_nested_field_names f = Inr (tn, fn)" "find_struct_by_name ss tn = Some nested"
    and "segment 0 (s_fields nested) m v" "v \<longrightarrow> n \<le> 1"
  shows "\<exists>X. ex' = ex @ X \<and>
    segment (off + of_nat idx * m) X (off + of_nat (idx + n) * m) (v \<and> 0 < n)"
  using assms(1,5)
proof (induction n arbitrary: idx ex)
  case 0
  then show ?case by simp
next
  case (Suc n)
  let ?base = "off + of_nat idx * m"
  obtain tn' fn' where e: "parse_nested_field_names (element_field f tn fn idx) = Inr (tn', fn')"
    using Suc.prems(1) by (auto simp: expand_nested_field_def try_then_Inr_iff)
  have "tn' = tn" using element_type_name [OF assms(2) e] .
  let ?Y = "map (expand_field fn' ?base) (s_fields nested)"
  have rest: "repeat_loop ss f tn fn m off (Suc idx) n (ex @ ?Y) = Inr ex'"
    using Suc.prems(1) e assms(3) \<open>tn' = tn\<close> by (simp add: expand_nested_field_def)
  have Y: "segment ?base ?Y (off + of_nat (Suc idx) * m) v"
    using segment_expand [OF assms(4), of ?base fn'] by (simp add: algebra_simps)
  show ?case
  proof (cases n)
    case 0
    then show ?thesis using rest Y by (auto intro!: exI [of _ ?Y])
  next
    case (Suc k)
    then have "\<not> v" using Suc.prems(2) by auto
    then obtain X where X: "ex' = (ex @ ?Y) @ X"
        "segment (off + of_nat (Suc idx) * m) X (off + of_nat (Suc idx + n) * m) False"
      using Suc.IH [OF rest] by auto
    then have "segment ?base (?Y @ X) (off + of_nat (idx + Suc n) * m) False"
      using segment_append [of ?base ?Y _ X] Y \<open>\<not> v\<close> by simp
    then show ?thesis using X(1) \<open>\<not> v\<close> by (intro exI [of _ "?Y @ X"]) simp
  qed
qed

section \<open>The invariant of the field loop\<close>

definition lay_ok :: "StructDef list \<Rightarrow> nat \<Rightarrow> Layout \<Rightarrow> bool" where
  "lay_ok ss i st \<longleftrightarrow>
     lay_structs st = ss[i := (ss ! i)\<lparr>s_has_variable := lay_variable_seen st\<rparr>] \<and>
     segment 0 (lay_expanded st) (lay_offset st) (lay_variable_seen st)"

lemma mark_variable_structs:
  assumes "lay_ok ss i st" "i < length ss" "\<not> lay_variable_seen st"
  shows "lay_structs (mark_variable i b (st\<lparr>lay_expanded := ex\<rparr>)) =
    ss[i := (ss ! i)\<lparr>s_has_variable := b\<rparr>]"
  using assms by (auto simp: mark_variable_def lay_ok_def)

lemma mark_variable_simps [simp]:
  "lay_expanded (mark_variable i b st) = lay_expanded st"
  "lay_offset (mark_variable i b st) = lay_offset st"
  "lay_variable_seen (mark_variable i b st) = (b \<or> lay_variable_seen st)"
  by (simp_all add: mark_variable_def)

lemma flatten_plain_ok:
  assumes "flatten_plain i f st = Inr st'" "lay_ok ss i st" "i < length ss"
    and "\<not> lay_variable_seen st" "f_type f \<noteq> FIELD_TYPE_NESTED"
  shows "lay_ok ss i st'"
proof -
  have seg: "segment 0 (lay_expanded st) (lay_offset st) False"
    using assms(2,4) by (simp add: lay_ok_def)
  have "\<not> f_is_array f" using assms(1) by (auto simp: flatten_plain_def split: if_splits)
  then have "segment 0 (lay_expanded st @ [f\<lparr>f_offset := lay_offset st\<rparr>])
      (if f_is_variable f then lay_offset st else lay_offset st + f_size f) (f_is_variable f)"
    using assms(5) by (intro segment_append [OF seg]) simp
  then show ?thesis
    using assms(1,4) mark_variable_structs [OF assms(2-4)] \<open>\<not> f_is_array f\<close>
    by (auto simp: flatten_plain_def lay_ok_def Let_def split: if_splits)
qed

lemma flatten_nested_ok:
  assumes "flatten_nested i f rep st = Inr st'" "lay_ok ss i st" "i < length ss"
    and "\<not> lay_variable_seen st" "rep \<noteq> 0" "declared_in (take i ss) f" "f_type f = FIELD_TYPE_NESTED"
    and earlier: "list_all laid_out (take i ss)"
  shows "lay_ok ss i st'"
proof -
  have seg: "segment 0 (lay_expanded st) (lay_offset st) False"
    and cur: "lay_structs st = ss[i := (ss ! i)\<lparr>s_has_variable := False\<rparr>]"
    using assms(2,4) by (simp_all add: lay_ok_def)
  obtain tn fn nested ex where n: "parse_nested_field_names f = Inr (tn, fn)"
    "find_struct_by_name (lay_structs st) tn = Some nested"
    and vr: "s_has_variable nested \<longrightarrow> rep \<le> 1"
    and ex: "repeat_loop (lay_structs st) f tn fn (s_min_size nested) (lay_offset st) 0 (unat rep)
      (lay_expanded st) = Inr ex"
    and st': "st' = (mark_variable i (s_has_variable nested) (st\<lparr>lay_expanded := ex\<rparr>))
      \<lparr>lay_offset := lay_offset st + s_min_size nested * rep\<rparr>"
    using assms(1)
    by (auto simp: flatten_nested_def try_then_Inr_iff Let_def not_less split: option.splits if_splits)
  have same: "take i (lay_structs st) = take i ss" using cur by simp
  have "tn \<in> set (map s_name (take i (lay_structs st)))"
    using assms(6,7) n(1) same by (simp add: declared_in_def)
  then have "nested \<in> set (take i ss)" using find_struct_prefix [OF _ n(2)] same by metis
  then have lo: "segment 0 (s_fields nested) (s_min_size nested) (s_has_variable nested)"
    using earlier by (simp add: list_all_iff laid_out_def)
  have "s_has_variable nested \<longrightarrow> unat rep \<le> 1" using vr by (simp add: word_le_nat_alt)
  from repeat_loop_segment [OF ex n lo this] obtain X where X: "ex = lay_expanded st @ X"
      "segment (lay_offset st) X (lay_offset st + rep * s_min_size nested) (s_has_variable nested \<and> 0 < unat rep)"
    by auto
  moreover have "0 < unat rep" using assms(5) by (simp add: unat_gt_0)
  ultimately have "segment 0 ex (lay_offset st + s_min_size nested * rep) (s_has_variable nested)"
    using segment_append [OF seg] by (simp add: mult.commute)
  then show ?thesis
    using st' mark_variable_structs [OF assms(2-4)] assms(4) by (simp add: lay_ok_def)
qed

lemma flatten_field_ok:
  assumes "flatten_field i f st = Inr st'" "lay_ok ss i st" "i < length ss"
    and "declared_in (take i ss) f" "list_all laid_out (take i ss)"
  shows "lay_ok ss i st'"
  using assms flatten_nested_ok [OF _ assms(2,3)] flatten_plain_ok [OF _ assms(2,3)]
  by (auto simp: flatten_field_def Let_def split: if_splits)

lemma flatten_fields_ok:
  assumes "flatten_fields i fs st = Inr st'" "lay_ok ss i st" "i < length ss"
    and "list_all (declared_in (take i ss)) fs" "list_all laid_out (take i ss)"
  shows "lay_ok ss i st'"
  using assms
proof (induction fs arbitrary: st)
  case (Cons f fs)
  then obtain st1 where 1: "flatten_field i f st = Inr st1" "flatten_fields i fs st1 = Inr st'"
    by (auto simp: try_then_Inr_iff)
  have "lay_ok ss i st1" using flatten_field_ok [OF 1(1)] Cons.prems by simp
  then show ?case using Cons.IH 1(2) Cons.prems by simp
qed simp

section \<open>All structs\<close>

lemma flatten_struct_ok:
  assumes "flatten_struct ss i = Inr ss'" "i < length ss"
    and "list_all (declared_in (take i ss)) (s_fields (ss ! i))" "list_all laid_out (take i ss)"
  shows "\<exists>s. ss' = ss[i := s] \<and> s_name s = s_name (ss ! i) \<and> laid_out s"
proof -
  obtain st where st: "flatten_fields i (s_fields (ss ! i))
       \<lparr>lay_structs = ss[i := (ss ! i)\<lparr>s_has_variable := False\<rparr>], lay_expanded = [],
        lay_offset = 0, lay_variable_seen = False\<rparr> = Inr st"
    and ss': "ss' = (lay_structs st)[i := (lay_structs st ! i)
      \<lparr>s_min_size := lay_offset st, s_fields := lay_expanded st\<rparr>]"
    using assms(1) by (auto simp: flatten_struct_def try_then_Inr_iff Let_def)
  have "lay_ok ss i st"
    by (rule flatten_fields_ok [OF st _ assms(2-4)]) (simp add: lay_ok_def)
  then show ?thesis
    using ss' assms(2) by (auto simp: lay_ok_def laid_out_def)
qed

lemma flatten_loop_ok:
  assumes "flatten_loop [i..<n] cur = Inr ss'" "i \<le> n" "n = length ss" "length cur = length ss"
    and "map s_name cur = map s_name ss" "drop i cur = drop i ss" "list_all laid_out (take i cur)"
    and "backward_refs ss"
  shows "map s_name ss' = map s_name ss \<and> list_all laid_out ss'"
  using assms
proof (induction "n - i" arbitrary: i cur)
  case 0
  then show ?case by simp
next
  case (Suc k)
  then have i: "i < n" by simp
  then obtain cur' where c: "flatten_struct cur i = Inr cur'" "flatten_loop [Suc i..<n] cur' = Inr ss'"
    using Suc.prems(1) by (auto simp: upt_conv_Cons try_then_Inr_iff)
  have nth: "cur ! i = ss ! i" using Suc.prems(3,4,6) i by (metis hd_drop_conv_nth)
  have names: "map s_name (take i cur) = map s_name (take i ss)"
    using Suc.prems(5) by (metis take_map)
  have "list_all (declared_in (take i ss)) (s_fields (ss ! i))"
    using Suc.prems(8) i Suc.prems(3) by (simp add: backward_refs_def list_all_iff)
  then have "list_all (declared_in (take i cur)) (s_fields (cur ! i))"
    unfolding nth declared_in_def names .
  then obtain s where s: "cur' = cur[i := s]" "s_name s = s_name (cur ! i)" "laid_out s"
    using flatten_struct_ok [OF c(1)] i Suc.prems(3,4,7) by auto
  have "map s_name cur' = map s_name cur"
    using s(1,2) by (metis list_update_id map_update)
  moreover have "drop (Suc i) cur' = drop 1 (drop i cur)" using s(1) by (simp add: add.commute)
  ultimately have eqs: "map s_name cur' = map s_name ss" "drop (Suc i) cur' = drop (Suc i) ss"
    using Suc.prems(5,6) by simp_all
  have "list_all laid_out (take (Suc i) cur')"
    using s(1,3) Suc.prems(3,4,7) i by (simp add: take_Suc_conv_app_nth)
  then show ?case
    using Suc.hyps(1) [OF _ c(2)] Suc.hyps(2) Suc.prems(3,4,8) s(1) eqs i by simp
qed

text \<open>
  The layout theorem: when every nested field names a struct declared before, flattening makes
  every struct a contiguous sequence of plain fields from offset 0 to its minimal size.
\<close>

lemma flatten_layout:
  assumes "flatten_structs ss = Inr ss'" "backward_refs ss"
  shows "map s_name ss' = map s_name ss \<and> list_all laid_out ss'"
  using flatten_loop_ok [of 0 "length ss" ss ss' ss] assms by (simp add: flatten_structs_def)

section \<open>Fields stay inside their struct\<close>

definition field_extent :: "Field \<Rightarrow> nat" where
  "field_extent f = (if f_is_variable f then 0 else unat (f_size f))"

lemma segment_bounds:
  assumes "segment b fs e v" "unat b + sum_list (map field_extent fs) < 2 ^ 32"
  shows "unat e = unat b + sum_list (map field_extent fs) \<and>
    (\<forall>f\<in>set fs. unat b \<le> unat (f_offset f) \<and> unat (f_offset f) + field_extent f \<le> unat e)"
  using assms
proof (induction b fs e v rule: segment.induct)
  case (2 b f fs e v)
  show ?case
  proof (cases "f_is_variable f")
    case False
    then have "unat (b + f_size f) = unat b + unat (f_size f)"
      using 2(3) by (intro unat_add_no_wrap) (simp add: field_extent_def)
    then show ?thesis using 2 False by (auto simp: field_extent_def)
  qed (use 2 in \<open>auto simp: field_extent_def\<close>)
qed simp

section \<open>Properties\<close>

text \<open>
  C3. Layout of structs.  When every nested field names a struct declared before it, flattening a
  list of structs that is accepted keeps the names and makes every struct a sequence of plain
  fields, back to back from offset 0 to the minimal size, where at most the last one has a variable
  length and \<open>has_variable\<close> says whether it has.
\<close>

theorem structs_laid_out:
  assumes "flatten_structs ss = Inr ss'" "backward_refs ss"
  shows "map s_name ss' = map s_name ss \<and> list_all laid_out ss'"
  by (rule flatten_layout [OF assms])

definition plain_field :: "string \<Rightarrow> FieldType \<Rightarrow> u32 \<Rightarrow> Field" where
  "plain_field name ty sz =
     \<lparr>f_name = name, f_type = ty, f_offset = 0, f_size = sz, f_endian = ENDIAN_BIG,
      f_is_variable = False, f_is_array = False, f_array_size = 1\<rparr>"

definition struct_of :: "string \<Rightarrow> Field list \<Rightarrow> StructDef" where
  "struct_of name fs = \<lparr>s_name = name, s_fields = fs, s_min_size = 0, s_has_variable = False\<rparr>"

definition sample_inner :: StructDef where
  "sample_inner = struct_of ''A'' [plain_field ''x'' FIELD_TYPE_UINT32 4]"

definition sample_outer :: StructDef where
  "sample_outer = struct_of ''B''
     [(plain_field ''A.a'' FIELD_TYPE_NESTED 0)\<lparr>f_is_array := True, f_array_size := 2\<rparr>,
      plain_field ''y'' FIELD_TYPE_UINT16 2]"

lemmas sample_defs = sample_inner_def sample_outer_def struct_of_def plain_field_def

lemma repeat_loop_unfold:
  "repeat_loop ss f type_name field_name min_sz offset idx n expanded =
     (if n = 0 then Inr expanded
      else try_then (expand_nested_field ss (element_field f type_name field_name idx) expanded
             (offset + of_nat idx * min_sz))
           (repeat_loop ss f type_name field_name min_sz offset (Suc idx) (n - 1)))"
  by (cases n) (simp_all cong del: sum.case_cong_weak)

lemmas flatten_eval = repeat_loop_unfold flatten_structs_def flatten_struct_def flatten_field_def flatten_nested_def
  flatten_plain_def mark_variable_def expand_nested_field_def expand_field_def element_field_def
  parse_nested_field_names_def find_struct_by_name_def strncpy_z_def dec_string.simps char_of_def bit_0 Let_def

lemma sample_flattened:
  "flatten_structs [sample_inner, sample_outer] =
     Inr [sample_inner\<lparr>s_min_size := 4\<rparr>,
       (struct_of ''B''
         [plain_field ''a[0].x'' FIELD_TYPE_UINT32 4,
          (plain_field ''a[1].x'' FIELD_TYPE_UINT32 4)\<lparr>f_offset := 4\<rparr>,
          (plain_field ''y'' FIELD_TYPE_UINT16 2)\<lparr>f_offset := 8\<rparr>])\<lparr>s_min_size := 10\<rparr>]"
  by (simp add: flatten_eval sample_defs upt_rec)

lemma sample_backward: "backward_refs [sample_inner, sample_outer]"
  by (simp add: backward_refs_def declared_in_def parse_nested_field_names_def sample_defs upt_rec Let_def)

theorem structs_laid_out_witness:
  "list_all laid_out [sample_inner\<lparr>s_min_size := 4\<rparr>,
     (struct_of ''B''
       [plain_field ''a[0].x'' FIELD_TYPE_UINT32 4,
        (plain_field ''a[1].x'' FIELD_TYPE_UINT32 4)\<lparr>f_offset := 4\<rparr>,
        (plain_field ''y'' FIELD_TYPE_UINT16 2)\<lparr>f_offset := 8\<rparr>])\<lparr>s_min_size := 10\<rparr>]"
  using structs_laid_out [OF sample_flattened sample_backward] by blast

text \<open>
  The order of declarations matters.  A nested field that names a struct declared later is
  accepted, but the struct is expanded as it was parsed, with offset 0 and size 0: in
  \<open>B { A a; uint16 y; }  A { uint32 x; }\<close> the fields \<open>a.x\<close> and \<open>y\<close> overlap and the minimal size
  of \<open>B\<close> is 2 although \<open>a.x\<close> needs 4 bytes.
\<close>

theorem forward_reference_overlaps:
  "flatten_structs
     [struct_of ''B'' [plain_field ''A.a'' FIELD_TYPE_NESTED 0, plain_field ''y'' FIELD_TYPE_UINT16 2],
      sample_inner] =
   Inr [(struct_of ''B'' [plain_field ''a.x'' FIELD_TYPE_UINT32 4, plain_field ''y'' FIELD_TYPE_UINT16 2])
          \<lparr>s_min_size := 2\<rparr>,
        sample_inner\<lparr>s_min_size := 4\<rparr>]"
  by (simp add: flatten_eval sample_defs upt_rec)

text \<open>
  Fields lie inside their struct.  In a laid-out struct whose fields add up to less than 4 GB,
  the minimal size is that sum and every field ends at or before it, so a packet of at least the
  minimal size holds every field of fixed length.
\<close>

theorem fields_inside_struct:
  assumes "laid_out s" "sum_list (map field_extent (s_fields s)) < 2 ^ 32" "f \<in> set (s_fields s)"
  shows "unat (s_min_size s) = sum_list (map field_extent (s_fields s)) \<and>
    unat (f_offset f) + field_extent f \<le> unat (s_min_size s)"
proof -
  have "unat (0 :: u32) + sum_list (map field_extent (s_fields s)) < 2 ^ 32" using assms(2) by simp
  from segment_bounds [OF assms(1) [unfolded laid_out_def] this] show ?thesis
    using assms(3) unfolding unat_0 add_0 by blast
qed

theorem fields_inside_struct_witness:
  "unat (f_offset (plain_field ''x'' FIELD_TYPE_UINT32 4)) +
     field_extent (plain_field ''x'' FIELD_TYPE_UINT32 4) \<le> unat (s_min_size (sample_inner\<lparr>s_min_size := 4\<rparr>))"
proof -
  let ?s = "sample_inner\<lparr>s_min_size := 4\<rparr>"
  have "laid_out ?s" "sum_list (map field_extent (s_fields ?s)) < 2 ^ 32"
      "plain_field ''x'' FIELD_TYPE_UINT32 4 \<in> set (s_fields ?s)"
    by (simp_all add: laid_out_def sample_defs field_extent_def)
  from fields_inside_struct [OF this] show ?thesis by blast
qed

end
