(* ===== verification/Endian_Read.thy ===== *)
theory Endian_Read
  imports Prelude
begin

text \<open>
  The big- and little-endian readers of \<open>src/src/utils/endian.h\<close>.  A pointer to packet bytes is
  the list of the bytes it may read; reading past them is the fault \<open>Oob_read\<close>.  Indices are
  \<open>uint32_t\<close>, so \<open>offset + 1\<close> wraps as in the code.
\<close>

definition byte_at :: "u8 list \<Rightarrow> u32 \<Rightarrow> fault + u8" where
  "byte_at data i = (if unat i < length data then Inr (data ! unat i) else Inl Oob_read)"

definition read_u16_be :: "u8 list \<Rightarrow> u32 \<Rightarrow> fault + u16" where
  "read_u16_be data offset =
     try_then (byte_at data offset) (\<lambda>b0.
     try_then (byte_at data (offset + 1)) (\<lambda>b1.
       Inr (push_bit 8 (ucast b0) OR ucast b1)))"

definition read_u16_le :: "u8 list \<Rightarrow> u32 \<Rightarrow> fault + u16" where
  "read_u16_le data offset =
     try_then (byte_at data offset) (\<lambda>b0.
     try_then (byte_at data (offset + 1)) (\<lambda>b1.
       Inr (ucast b0 OR push_bit 8 (ucast b1))))"

definition read_u32_be :: "u8 list \<Rightarrow> u32 \<Rightarrow> fault + u32" where
  "read_u32_be data offset =
     try_then (byte_at data offset) (\<lambda>b0.
     try_then (byte_at data (offset + 1)) (\<lambda>b1.
     try_then (byte_at data (offset + 2)) (\<lambda>b2.
     try_then (byte_at data (offset + 3)) (\<lambda>b3.
       Inr (push_bit 24 (ucast b0) OR push_bit 16 (ucast b1) OR push_bit 8 (ucast b2)
            OR ucast b3)))))"

definition read_u32_le :: "u8 list \<Rightarrow> u32 \<Rightarrow> fault + u32" where
  "read_u32_le data offset =
     try_then (byte_at data offset) (\<lambda>b0.
     try_then (byte_at data (offset + 1)) (\<lambda>b1.
     try_then (byte_at data (offset + 2)) (\<lambda>b2.
     try_then (byte_at data (offset + 3)) (\<lambda>b3.
       Inr (ucast b0 OR push_bit 8 (ucast b1) OR push_bit 16 (ucast b2)
            OR push_bit 24 (ucast b3))))))"

definition read_u64_be :: "u8 list \<Rightarrow> u32 \<Rightarrow> fault + u64" where
  "read_u64_be data offset =
     try_then (byte_at data offset) (\<lambda>b0.
     try_then (byte_at data (offset + 1)) (\<lambda>b1.
     try_then (byte_at data (offset + 2)) (\<lambda>b2.
     try_then (byte_at data (offset + 3)) (\<lambda>b3.
     try_then (byte_at data (offset + 4)) (\<lambda>b4.
     try_then (byte_at data (offset + 5)) (\<lambda>b5.
     try_then (byte_at data (offset + 6)) (\<lambda>b6.
     try_then (byte_at data (offset + 7)) (\<lambda>b7.
       Inr (push_bit 56 (ucast b0) OR push_bit 48 (ucast b1) OR push_bit 40 (ucast b2)
            OR push_bit 32 (ucast b3) OR push_bit 24 (ucast b4) OR push_bit 16 (ucast b5)
            OR push_bit 8 (ucast b6) OR ucast b7)))))))))"

definition read_u64_le :: "u8 list \<Rightarrow> u32 \<Rightarrow> fault + u64" where
  "read_u64_le data offset =
     try_then (byte_at data offset) (\<lambda>b0.
     try_then (byte_at data (offset + 1)) (\<lambda>b1.
     try_then (byte_at data (offset + 2)) (\<lambda>b2.
     try_then (byte_at data (offset + 3)) (\<lambda>b3.
     try_then (byte_at data (offset + 4)) (\<lambda>b4.
     try_then (byte_at data (offset + 5)) (\<lambda>b5.
     try_then (byte_at data (offset + 6)) (\<lambda>b6.
     try_then (byte_at data (offset + 7)) (\<lambda>b7.
       Inr (ucast b0 OR push_bit 8 (ucast b1) OR push_bit 16 (ucast b2)
            OR push_bit 24 (ucast b3) OR push_bit 32 (ucast b4) OR push_bit 40 (ucast b5)
            OR push_bit 48 (ucast b6) OR push_bit 56 (ucast b7))))))))))"

text \<open>
  The signed readers return the same bits; the cast to a signed type shows where the value is
  widened, with \<open>scast\<close>.
\<close>

definition read_i8 :: "u8 list \<Rightarrow> u32 \<Rightarrow> fault + u8" where
  "read_i8 data offset = byte_at data offset"

definition read_i16_be :: "u8 list \<Rightarrow> u32 \<Rightarrow> fault + u16" where
  "read_i16_be data offset = read_u16_be data offset"

definition read_i16_le :: "u8 list \<Rightarrow> u32 \<Rightarrow> fault + u16" where
  "read_i16_le data offset = read_u16_le data offset"

definition read_i32_be :: "u8 list \<Rightarrow> u32 \<Rightarrow> fault + u32" where
  "read_i32_be data offset = read_u32_be data offset"

definition read_i32_le :: "u8 list \<Rightarrow> u32 \<Rightarrow> fault + u32" where
  "read_i32_le data offset = read_u32_le data offset"

definition read_i64_be :: "u8 list \<Rightarrow> u32 \<Rightarrow> fault + u64" where
  "read_i64_be data offset = read_u64_be data offset"

definition read_i64_le :: "u8 list \<Rightarrow> u32 \<Rightarrow> fault + u64" where
  "read_i64_le data offset = read_u64_le data offset"

section \<open>Values of byte windows\<close>

text \<open>
  The number a byte sequence denotes, least significant byte first (\<open>le_value\<close>) or last
  (\<open>be_value\<close>), and the bytes of a word in either order.
\<close>

definition le_value :: "u8 list \<Rightarrow> nat" where
  "le_value bs = horner_sum unat 256 bs"

definition be_value :: "u8 list \<Rightarrow> nat" where
  "be_value bs = le_value (rev bs)"

definition window :: "nat \<Rightarrow> u8 list \<Rightarrow> u32 \<Rightarrow> u8 list" where
  "window n data offset = take n (drop (unat offset) data)"

definition in_window :: "nat \<Rightarrow> u8 list \<Rightarrow> u32 \<Rightarrow> bool" where
  "in_window n data offset \<longleftrightarrow> unat offset + n \<le> length data \<and> length data < 2 ^ 32"

fun le_bytes :: "nat \<Rightarrow> nat \<Rightarrow> u8 list" where
  "le_bytes 0 v = []"
| "le_bytes (Suc n) v = of_nat (v mod 256) # le_bytes n (v div 256)"

definition be_bytes :: "nat \<Rightarrow> nat \<Rightarrow> u8 list" where
  "be_bytes n v = rev (le_bytes n v)"

lemma le_value_simps [simp]:
  "le_value [] = 0"
  "le_value (b # bs) = unat b + 256 * le_value bs"
  by (simp_all add: le_value_def)

lemma le_value_append: "le_value (xs @ ys) = le_value xs + 256 ^ length xs * le_value ys"
  by (induction xs) (auto simp: algebra_simps)

lemma length_le_bytes [simp]: "length (le_bytes n v) = n"
  by (induction n v rule: le_bytes.induct) auto

lemma length_be_bytes [simp]: "length (be_bytes n v) = n"
  by (simp add: be_bytes_def)

lemma le_value_le_bytes: "v < 256 ^ n \<Longrightarrow> le_value (le_bytes n v) = v"
proof (induction n v rule: le_bytes.induct)
  case (2 n v)
  then have "v div 256 < 256 ^ n" by (simp add: less_mult_imp_div_less mult.commute)
  moreover have "unat (of_nat (v mod 256) :: u8) = v mod 256"
    by (rule unat_of_nat_small) simp
  ultimately show ?case using "2.IH" by simp
qed simp

lemma be_value_be_bytes: "v < 256 ^ n \<Longrightarrow> be_value (be_bytes n v) = v"
  by (simp add: be_value_def be_bytes_def le_value_le_bytes)

lemma nat_or_add:
  fixes x y :: nat
  assumes "x < 2 ^ k" and "2 ^ k dvd y"
  shows "x OR y = x + y"
proof -
  obtain z where z: "y = push_bit k z"
    using assms(2) by (auto simp: push_bit_eq_mult elim!: dvdE)
  have "\<not> bit x n \<or> \<not> bit y n" for n
  proof (cases "n < k")
    case True
    then show ?thesis by (simp add: z bit_push_bit_iff)
  next
    case False
    have "take_bit k x = x" using assms(1) by (simp add: take_bit_nat_eq_self)
    then have "\<not> bit x n" using False by (metis bit_take_bit_iff)
    then show ?thesis by simp
  qed
  then show ?thesis by (metis disjunctive_add)
qed

lemma unat_plain_byte:
  fixes b :: u8
  assumes "8 \<le> LENGTH('a::len)"
  shows "unat (ucast b :: 'a word) = unat b"
proof -
  have "unat b < 2 ^ 8" using unsigned_less [of b, where ?'a = nat] by simp
  also have "\<dots> \<le> 2 ^ LENGTH('a)" using assms by (rule power_increasing) simp
  finally show ?thesis by (simp add: unsigned_ucast_eq take_bit_nat_eq_self)
qed

lemma byte_less: "unat (b :: u8) < 256"
  using unsigned_less [of b, where ?'a = nat] by simp


text \<open>Inside the window every byte read succeeds, at the index the sum denotes.\<close>

lemma byte_at_in_window:
  assumes "in_window n data offset" and "k < n"
  shows "byte_at data (offset + of_nat k) = Inr (window n data offset ! k)"
proof -
  have "unat offset + k < 2 ^ 32" using assms by (simp add: in_window_def)
  then have "unat (offset + of_nat k) = unat offset + k"
    by (simp add: unat_word_ariths unat_of_nat take_bit_nat_eq_self)
  then show ?thesis using assms by (simp add: byte_at_def window_def in_window_def)
qed

lemma length_window [simp]: "in_window n data offset \<Longrightarrow> length (window n data offset) = n"
  by (auto simp: window_def in_window_def)

lemma window_2:
  assumes "in_window 2 data offset"
  obtains b0 b1 where "window 2 data offset = [b0, b1]"
    "byte_at data offset = Inr b0" "byte_at data (offset + 1) = Inr b1"
proof
  let ?w = "window 2 data offset"
  show "?w = [?w ! 0, ?w ! 1]"
    using length_window [OF assms] by (auto simp: nth_equalityI less_Suc_eq numeral_eq_Suc
      intro!: nth_equalityI)
  show "byte_at data offset = Inr (?w ! 0)" "byte_at data (offset + 1) = Inr (?w ! 1)"
    using byte_at_in_window [OF assms, of 0] byte_at_in_window [OF assms, of 1] by simp_all
qed

lemma window_4:
  assumes "in_window 4 data offset"
  obtains b0 b1 b2 b3 where "window 4 data offset = [b0, b1, b2, b3]"
    "byte_at data offset = Inr b0" "byte_at data (offset + 1) = Inr b1"
    "byte_at data (offset + 2) = Inr b2" "byte_at data (offset + 3) = Inr b3"
proof
  let ?w = "window 4 data offset"
  show "?w = [?w ! 0, ?w ! 1, ?w ! 2, ?w ! 3]"
    using length_window [OF assms] by (auto simp: less_Suc_eq numeral_eq_Suc
      intro!: nth_equalityI)
  show "byte_at data offset = Inr (?w ! 0)" "byte_at data (offset + 1) = Inr (?w ! 1)"
    "byte_at data (offset + 2) = Inr (?w ! 2)" "byte_at data (offset + 3) = Inr (?w ! 3)"
    using byte_at_in_window [OF assms, of 0] byte_at_in_window [OF assms, of 1]
      byte_at_in_window [OF assms, of 2] byte_at_in_window [OF assms, of 3] by simp_all
qed

lemma window_8:
  assumes "in_window 8 data offset"
  obtains b0 b1 b2 b3 b4 b5 b6 b7 where "window 8 data offset = [b0, b1, b2, b3, b4, b5, b6, b7]"
    "byte_at data offset = Inr b0" "byte_at data (offset + 1) = Inr b1"
    "byte_at data (offset + 2) = Inr b2" "byte_at data (offset + 3) = Inr b3"
    "byte_at data (offset + 4) = Inr b4" "byte_at data (offset + 5) = Inr b5"
    "byte_at data (offset + 6) = Inr b6" "byte_at data (offset + 7) = Inr b7"
proof
  let ?w = "window 8 data offset"
  show "?w = [?w ! 0, ?w ! 1, ?w ! 2, ?w ! 3, ?w ! 4, ?w ! 5, ?w ! 6, ?w ! 7]"
    using length_window [OF assms] by (auto simp: less_Suc_eq numeral_eq_Suc
      intro!: nth_equalityI)
  show "byte_at data offset = Inr (?w ! 0)" "byte_at data (offset + 1) = Inr (?w ! 1)"
    "byte_at data (offset + 2) = Inr (?w ! 2)" "byte_at data (offset + 3) = Inr (?w ! 3)"
    "byte_at data (offset + 4) = Inr (?w ! 4)" "byte_at data (offset + 5) = Inr (?w ! 5)"
    "byte_at data (offset + 6) = Inr (?w ! 6)" "byte_at data (offset + 7) = Inr (?w ! 7)"
    using byte_at_in_window [OF assms, of 0] byte_at_in_window [OF assms, of 1]
      byte_at_in_window [OF assms, of 2] byte_at_in_window [OF assms, of 3]
      byte_at_in_window [OF assms, of 4] byte_at_in_window [OF assms, of 5]
      byte_at_in_window [OF assms, of 6] byte_at_in_window [OF assms, of 7] by simp_all
qed

text \<open>
  One more byte in front of a word that holds the rest: the shift-and-or expressions of the
  readers are nestings of this step, and the big-endian ones are the same expressions on the
  reversed bytes.
\<close>

lemma le_or_step:
  fixes r :: "'a::len word" and b :: u8
  assumes r: "unat r = le_value bs" and fits: "8 + 8 * length bs \<le> LENGTH('a)"
  shows "unat (ucast b OR push_bit 8 r) = le_value (b # bs)"
proof -
  have lt: "le_value bs < 2 ^ (8 * length bs)"
  proof (induction bs)
    case (Cons c cs)
    have "unat c + 256 * le_value cs < 256 * (le_value cs + 1)" using byte_less [of c] by simp
    also have "\<dots> \<le> 256 * 2 ^ (8 * length cs)" using Cons by (intro mult_le_mono2) simp
    finally show ?case by (simp add: power_add)
  qed simp
  have "256 * le_value bs < 2 ^ (8 + 8 * length bs)" using lt by (simp add: power_add)
  also have "\<dots> \<le> 2 ^ LENGTH('a)" using fits by (rule power_increasing) simp
  finally have "256 * le_value bs < 2 ^ LENGTH('a)" .
  then have s: "unat (push_bit 8 r) = 256 * le_value bs"
    by (subst unsigned_push_bit_eq)
      (simp add: r push_bit_eq_mult take_bit_nat_eq_self mult.commute)
  have "unat b OR 256 * le_value bs = unat b + 256 * le_value bs"
    using byte_less [of b] by (intro nat_or_add [where k = 8]) simp_all
  then show ?thesis using fits by (simp add: unsigned_or_eq s unat_plain_byte)
qed

lemma le_last_byte: "8 \<le> LENGTH('a::len) \<Longrightarrow> unat (ucast b :: 'a word) = le_value [b]"
  by (simp add: unat_plain_byte)

lemma le_word_2:
  "unat (ucast b0 OR push_bit 8 (ucast b1) :: u16) = le_value [b0, b1]"
  by (intro le_or_step le_last_byte) simp_all

lemma le_word_4:
  "unat (ucast b0 OR push_bit 8 (ucast b1) OR push_bit 16 (ucast b2)
         OR push_bit 24 (ucast b3) :: u32) = le_value [b0, b1, b2, b3]"
proof -
  have "unat (ucast b0 OR push_bit 8 (ucast b1 OR push_bit 8 (ucast b2
         OR push_bit 8 (ucast b3))) :: u32) = le_value [b0, b1, b2, b3]"
    by (intro le_or_step le_last_byte) simp_all
  then show ?thesis by (simp only: push_bit_or push_bit_push_bit) simp
qed

lemma le_word_8:
  "unat (ucast b0 OR push_bit 8 (ucast b1) OR push_bit 16 (ucast b2) OR push_bit 24 (ucast b3)
         OR push_bit 32 (ucast b4) OR push_bit 40 (ucast b5) OR push_bit 48 (ucast b6)
         OR push_bit 56 (ucast b7) :: u64) = le_value [b0, b1, b2, b3, b4, b5, b6, b7]"
proof -
  have "unat (ucast b0 OR push_bit 8 (ucast b1 OR push_bit 8 (ucast b2 OR push_bit 8 (ucast b3
         OR push_bit 8 (ucast b4 OR push_bit 8 (ucast b5 OR push_bit 8 (ucast b6
         OR push_bit 8 (ucast b7))))))) :: u64) = le_value [b0, b1, b2, b3, b4, b5, b6, b7]"
    by (intro le_or_step le_last_byte) simp_all
  then show ?thesis by (simp only: push_bit_or push_bit_push_bit) simp
qed

lemma be_word_2:
  "unat (push_bit 8 (ucast b0) OR ucast b1 :: u16) = be_value [b0, b1]"
  using le_word_2 [of b1 b0] by (simp only: be_value_def or.commute) simp

lemma be_word_4:
  "unat (push_bit 24 (ucast b0) OR push_bit 16 (ucast b1) OR push_bit 8 (ucast b2)
         OR ucast b3 :: u32) = be_value [b0, b1, b2, b3]"
  using le_word_4 [of b3 b2 b1 b0]
  by (simp only: be_value_def or.commute or.left_commute rev.simps append.simps)

lemma be_word_8:
  "unat (push_bit 56 (ucast b0) OR push_bit 48 (ucast b1) OR push_bit 40 (ucast b2)
         OR push_bit 32 (ucast b3) OR push_bit 24 (ucast b4) OR push_bit 16 (ucast b5)
         OR push_bit 8 (ucast b6) OR ucast b7 :: u64) = be_value [b0, b1, b2, b3, b4, b5, b6, b7]"
  using le_word_8 [of b7 b6 b5 b4 b3 b2 b1 b0]
  by (simp only: be_value_def or.commute or.left_commute rev.simps append.simps)

section \<open>The contract of a pair of readers\<close>

text \<open>
  What the bytecode machine relies on: inside the window a reader of \<open>n\<close> bytes succeeds and
  returns the number the window denotes.  The consequences (a little-endian read is a big-endian
  read of the reversed bytes, readers invert the byte encoding, both readers agree on
  palindromes) are proved once, for all widths.
\<close>

locale endian_reader =
  fixes n :: nat
    and rd_be :: "u8 list \<Rightarrow> u32 \<Rightarrow> fault + 'a::len word"
    and rd_le :: "u8 list \<Rightarrow> u32 \<Rightarrow> fault + 'a word"
  assumes width: "LENGTH('a) = 8 * n"
    and rd_be: "in_window n data off \<Longrightarrow>
      \<exists>v. rd_be data off = Inr v \<and> unat v = be_value (window n data off)"
    and rd_le: "in_window n data off \<Longrightarrow>
      \<exists>v. rd_le data off = Inr v \<and> unat v = le_value (window n data off)"
begin

lemma rd_be_eq:
  "in_window n data off \<Longrightarrow> rd_be data off = Inr (of_nat (be_value (window n data off)))"
  using rd_be [of data off] by (metis of_nat_unat ucast_id)

lemma rd_le_eq:
  "in_window n data off \<Longrightarrow> rd_le data off = Inr (of_nat (le_value (window n data off)))"
  using rd_le [of data off] by (metis of_nat_unat ucast_id)

lemma le_is_be_of_reversed:
  assumes "in_window n data off" and "in_window n data' off'"
    and "window n data' off' = rev (window n data off)"
  shows "rd_le data off = rd_be data' off'"
  using assms by (simp add: rd_le_eq rd_be_eq be_value_def)

lemma value_less: "unat (v :: 'a word) < 256 ^ n"
  using unsigned_less [of v, where ?'a = nat] by (simp add: width power_mult)

lemma be_roundtrip:
  assumes "in_window n data off" and "window n data off = be_bytes n (unat (v :: 'a word))"
  shows "rd_be data off = Inr v"
  using assms by (simp add: rd_be_eq be_value_be_bytes value_less)

lemma le_roundtrip:
  assumes "in_window n data off" and "window n data off = le_bytes n (unat (v :: 'a word))"
  shows "rd_le data off = Inr v"
  using assms by (simp add: rd_le_eq le_value_le_bytes value_less)

lemma no_fault:
  "in_window n data off \<Longrightarrow> \<exists>v. rd_be data off = Inr v" "in_window n data off \<Longrightarrow> \<exists>v. rd_le data off = Inr v"
  by (simp_all add: rd_be_eq rd_le_eq)

end

interpretation r16: endian_reader 2 read_u16_be read_u16_le
proof
  fix data off assume w: "in_window 2 data off"
  from w show "\<exists>v. read_u16_be data off = Inr v \<and> unat v = be_value (window 2 data off)"
    by (rule window_2) (simp only: read_u16_be_def sum.case, intro exI conjI, rule refl, rule be_word_2)
  from w show "\<exists>v. read_u16_le data off = Inr v \<and> unat v = le_value (window 2 data off)"
    by (rule window_2) (simp only: read_u16_le_def sum.case, intro exI conjI, rule refl, rule le_word_2)
qed simp

interpretation r32: endian_reader 4 read_u32_be read_u32_le
proof
  fix data off assume w: "in_window 4 data off"
  from w show "\<exists>v. read_u32_be data off = Inr v \<and> unat v = be_value (window 4 data off)"
    by (rule window_4) (simp only: read_u32_be_def sum.case, intro exI conjI, rule refl, rule be_word_4)
  from w show "\<exists>v. read_u32_le data off = Inr v \<and> unat v = le_value (window 4 data off)"
    by (rule window_4) (simp only: read_u32_le_def sum.case, intro exI conjI, rule refl, rule le_word_4)
qed simp

interpretation r64: endian_reader 8 read_u64_be read_u64_le
proof
  fix data off assume w: "in_window 8 data off"
  from w show "\<exists>v. read_u64_be data off = Inr v \<and> unat v = be_value (window 8 data off)"
    by (rule window_8) (simp only: read_u64_be_def sum.case, intro exI conjI, rule refl, rule be_word_8)
  from w show "\<exists>v. read_u64_le data off = Inr v \<and> unat v = le_value (window 8 data off)"
    by (rule window_8) (simp only: read_u64_le_def sum.case, intro exI conjI, rule refl, rule le_word_8)
qed simp

section \<open>Encoded numbers in a buffer\<close>

lemma window_of_buffer:
  assumes "length pre + length bs + length post < 2 ^ 32" "length bs = n"
  shows "in_window n (pre @ bs @ post) (of_nat (length pre))"
    and "window n (pre @ bs @ post) (of_nat (length pre)) = bs"
proof -
  have "unat (of_nat (length pre) :: u32) = length pre" using assms by (intro unat_of_nat_small) simp
  then show "in_window n (pre @ bs @ post) (of_nat (length pre))"
    and "window n (pre @ bs @ post) (of_nat (length pre)) = bs"
    using assms by (simp_all add: in_window_def window_def)
qed

text \<open>
  C7. Round trip of the unaligned readers.  A number written into a buffer at any position, most
  significant byte first or last, is read back by the reader of that width and byte order, for all
  six readers and without a fault, whatever stands before and after it.
\<close>

theorem readers_roundtrip:
  fixes a :: u16 and b :: u32 and c :: u64
  assumes "length pre + 8 + length post < 2 ^ 32"
  defines "off \<equiv> of_nat (length pre)"
  shows "read_u16_be (pre @ be_bytes 2 (unat a) @ post) off = Inr a \<and>
    read_u16_le (pre @ le_bytes 2 (unat a) @ post) off = Inr a \<and>
    read_u32_be (pre @ be_bytes 4 (unat b) @ post) off = Inr b \<and>
    read_u32_le (pre @ le_bytes 4 (unat b) @ post) off = Inr b \<and>
    read_u64_be (pre @ be_bytes 8 (unat c) @ post) off = Inr c \<and>
    read_u64_le (pre @ le_bytes 8 (unat c) @ post) off = Inr c"
  unfolding off_def using assms(1)
  by (intro conjI r16.be_roundtrip r16.le_roundtrip r32.be_roundtrip r32.le_roundtrip
      r64.be_roundtrip r64.le_roundtrip window_of_buffer) simp_all

theorem readers_roundtrip_witness:
  "read_u16_be ([7] @ be_bytes 2 (unat (0x1234 :: u16)) @ [9]) (of_nat (length [7 :: u8])) = Inr 0x1234"
  using readers_roundtrip [of "[7]" "[9]" "0x1234" 0 0] by simp

end
