(* ===== verification/Executor.thy ===== *)
theory Executor
  imports Endian_Read Pdef_Types
begin

text \<open>
  The bytecode machine of \<open>src/src/runtime/executor.c\<close>.  One turn of the \<open>while\<close> loop is
  \<open>exec_step\<close>, the loop is \<open>exec_loop\<close> (\<open>None\<close> when it never ends), and
  \<open>execute_bytecode\<close> and \<open>execute_filter\<close> are the two entry points.
\<close>

section \<open>The machine\<close>

record vm =
  ip :: u32
  acc :: u64
  cmp_result :: bool

text \<open>
  A load of \<open>w\<close> bytes: the bounds check \<open>ins->offset + w > packet_len\<close> in 32-bit arithmetic,
  then the read.  \<open>Inl\<close> is a return from the function (\<open>Inr b\<close>) or a fault (\<open>Inl f\<close>), \<open>Inr\<close> the
  state at the next turn.
\<close>

definition vm_load ::
  "u32 \<Rightarrow> u32 \<Rightarrow> Instruction \<Rightarrow> fault + u64 \<Rightarrow> vm \<Rightarrow> (fault + bool) + vm" where
  "vm_load w packet_len ins rd s =
     (if ioffset ins + w > packet_len then Inl (Inr False)
      else case rd of Inl f \<Rightarrow> Inl (Inl f)
           | Inr v \<Rightarrow> Inr (s\<lparr>acc := v, ip := ip s + 1\<rparr>))"

definition vm_cmp :: "bool \<Rightarrow> vm \<Rightarrow> (fault + bool) + vm" where
  "vm_cmp b s = Inr (s\<lparr>cmp_result := b, ip := ip s + 1\<rparr>)"

definition vm_jump :: "u32 \<Rightarrow> Instruction \<Rightarrow> vm \<Rightarrow> (fault + bool) + vm" where
  "vm_jump bytecode_len ins s =
     (if jump_target ins \<ge> bytecode_len then Inl (Inr False)
      else Inr (s\<lparr>ip := jump_target ins\<rparr>))"

abbreviation widen :: "('a::len word \<Rightarrow> u64) \<Rightarrow> fault + 'a word \<Rightarrow> fault + u64" where
  "widen f \<equiv> map_sum id f"

definition exec_ins ::
  "u8 list \<Rightarrow> u32 \<Rightarrow> u32 \<Rightarrow> Instruction \<Rightarrow> vm \<Rightarrow> (fault + bool) + vm" where
  "exec_ins packet packet_len bytecode_len ins s =
    (let off = ioffset ins in
     case opcode ins of
       OP_LOAD_U8 \<Rightarrow> vm_load 1 packet_len ins (widen ucast (byte_at packet off)) s
     | OP_LOAD_U16_BE \<Rightarrow> vm_load 2 packet_len ins (widen ucast (read_u16_be packet off)) s
     | OP_LOAD_U16_LE \<Rightarrow> vm_load 2 packet_len ins (widen ucast (read_u16_le packet off)) s
     | OP_LOAD_U32_BE \<Rightarrow> vm_load 4 packet_len ins (widen ucast (read_u32_be packet off)) s
     | OP_LOAD_U32_LE \<Rightarrow> vm_load 4 packet_len ins (widen ucast (read_u32_le packet off)) s
     | OP_LOAD_U64_BE \<Rightarrow> vm_load 8 packet_len ins (read_u64_be packet off) s
     | OP_LOAD_U64_LE \<Rightarrow> vm_load 8 packet_len ins (read_u64_le packet off) s
     | OP_LOAD_I8 \<Rightarrow> vm_load 1 packet_len ins (widen scast (read_i8 packet off)) s
     | OP_LOAD_I16_BE \<Rightarrow> vm_load 2 packet_len ins (widen scast (read_i16_be packet off)) s
     | OP_LOAD_I16_LE \<Rightarrow> vm_load 2 packet_len ins (widen scast (read_i16_le packet off)) s
     | OP_LOAD_I32_BE \<Rightarrow> vm_load 4 packet_len ins (widen scast (read_i32_be packet off)) s
     | OP_LOAD_I32_LE \<Rightarrow> vm_load 4 packet_len ins (widen scast (read_i32_le packet off)) s
     | OP_LOAD_I64_BE \<Rightarrow> vm_load 8 packet_len ins (read_i64_be packet off) s
     | OP_LOAD_I64_LE \<Rightarrow> vm_load 8 packet_len ins (read_i64_le packet off) s
     | OP_CMP_EQ \<Rightarrow> vm_cmp (acc s = operand ins) s
     | OP_CMP_NE \<Rightarrow> vm_cmp (acc s \<noteq> operand ins) s
     | OP_CMP_GT \<Rightarrow> vm_cmp (acc s > operand ins) s
     | OP_CMP_GE \<Rightarrow> vm_cmp (acc s \<ge> operand ins) s
     | OP_CMP_LT \<Rightarrow> vm_cmp (acc s < operand ins) s
     | OP_CMP_LE \<Rightarrow> vm_cmp (acc s \<le> operand ins) s
     | OP_CMP_MASK \<Rightarrow> vm_cmp ((acc s AND operand ins) = operand2 ins) s
     | OP_JUMP_IF_FALSE \<Rightarrow>
         (if \<not> cmp_result s then vm_jump bytecode_len ins s else Inr (s\<lparr>ip := ip s + 1\<rparr>))
     | OP_JUMP \<Rightarrow> vm_jump bytecode_len ins s
     | OP_RETURN_TRUE \<Rightarrow> Inl (Inr True)
     | OP_RETURN_FALSE \<Rightarrow> Inl (Inr False))"

text \<open>
  \<open>bytecode[ip]\<close> reads the array of the rule; its length is a field of its own, so the read is
  checked against the array.
\<close>

definition exec_step ::
  "u8 list \<Rightarrow> u32 \<Rightarrow> Instruction list \<Rightarrow> u32 \<Rightarrow> vm \<Rightarrow> (fault + bool) + vm" where
  "exec_step packet packet_len code bytecode_len s =
     (if unat (ip s) < length code
      then exec_ins packet packet_len bytecode_len (code ! unat (ip s)) s
      else Inl (Inl Oob_read))"

partial_function (option) exec_loop ::
  "u8 list \<Rightarrow> u32 \<Rightarrow> Instruction list \<Rightarrow> u32 \<Rightarrow> vm \<Rightarrow> (fault + bool) option" where
  "exec_loop packet packet_len code bytecode_len s =
     (if ip s < bytecode_len
      then case exec_step packet packet_len code bytecode_len s of
             Inl r \<Rightarrow> Some r
           | Inr s' \<Rightarrow> exec_loop packet packet_len code bytecode_len s'
      else Some (Inr False))"

definition vm_init :: vm where
  "vm_init = \<lparr>ip = 0, acc = 0, cmp_result = False\<rparr>"

text \<open>
  The entry point: null pointers and an empty program give \<open>false\<close>; a loop that never ends is the
  fault \<open>No_return\<close>.
\<close>

definition execute_bytecode ::
  "u8 list option \<Rightarrow> u32 \<Rightarrow> Instruction list option \<Rightarrow> u32 \<Rightarrow> fault + bool" where
  "execute_bytecode packet packet_len bytecode bytecode_len =
     (case (packet, bytecode) of
        (Some pkt, Some code) \<Rightarrow>
          if bytecode_len = 0 then Inr False
          else (case exec_loop pkt packet_len code bytecode_len vm_init of
                  None \<Rightarrow> Inl No_return | Some r \<Rightarrow> r)
      | _ \<Rightarrow> Inr False)"

definition execute_filter ::
  "u8 list option \<Rightarrow> u32 \<Rightarrow> FilterRule option \<Rightarrow> fault + bool" where
  "execute_filter packet packet_len rule =
     (case (packet, rule) of
        (Some pkt, Some r) \<Rightarrow>
          if packet_len < r_min_packet_size r then Inr False
          else execute_bytecode (Some pkt) packet_len (r_bytecode r) (r_bytecode_len r)
      | _ \<Rightarrow> Inr False)"

section \<open>Load widths and well-formed programs\<close>

definition load_width :: "OpCode \<Rightarrow> nat option" where
  "load_width op =
    (case op of
       OP_LOAD_U8 \<Rightarrow> Some 1 | OP_LOAD_I8 \<Rightarrow> Some 1
     | OP_LOAD_U16_BE \<Rightarrow> Some 2 | OP_LOAD_U16_LE \<Rightarrow> Some 2
     | OP_LOAD_I16_BE \<Rightarrow> Some 2 | OP_LOAD_I16_LE \<Rightarrow> Some 2
     | OP_LOAD_U32_BE \<Rightarrow> Some 4 | OP_LOAD_U32_LE \<Rightarrow> Some 4
     | OP_LOAD_I32_BE \<Rightarrow> Some 4 | OP_LOAD_I32_LE \<Rightarrow> Some 4
     | OP_LOAD_U64_BE \<Rightarrow> Some 8 | OP_LOAD_U64_LE \<Rightarrow> Some 8
     | OP_LOAD_I64_BE \<Rightarrow> Some 8 | OP_LOAD_I64_LE \<Rightarrow> Some 8
     | _ \<Rightarrow> None)"

definition is_jump :: "OpCode \<Rightarrow> bool" where
  "is_jump op \<longleftrightarrow> op = OP_JUMP \<or> op = OP_JUMP_IF_FALSE"

text \<open>Jumps that only go forward, and loads whose end does not wrap around 32 bits.\<close>

definition forward_code :: "Instruction list \<Rightarrow> bool" where
  "forward_code code \<longleftrightarrow>
     list_all (\<lambda>i. is_jump (opcode (code ! i)) \<longrightarrow> i < unat (jump_target (code ! i)))
       [0..<length code]"

definition no_wrap_ins :: "Instruction \<Rightarrow> bool" where
  "no_wrap_ins ins \<longleftrightarrow>
     (case load_width (opcode ins) of None \<Rightarrow> True | Some w \<Rightarrow> unat (ioffset ins) + w < 2 ^ 32)"

definition no_wrap_code :: "Instruction list \<Rightarrow> bool" where
  "no_wrap_code code \<longleftrightarrow> list_all no_wrap_ins code"

section \<open>Termination\<close>

lemma exec_ins_progress:
  assumes "exec_ins pkt plen clen ins s = Inr s'" and "ip s < clen"
    and "is_jump (opcode ins) \<Longrightarrow> unat (ip s) < unat (jump_target ins)"
  shows "unat (ip s) < unat (ip s')"
proof -
  have inc: "unat (ip s + 1) = Suc (unat (ip s))" using assms(2) by (rule unat_Suc_word)
  show ?thesis using assms(1,3) inc
    by (auto simp: exec_ins_def vm_load_def vm_cmp_def vm_jump_def is_jump_def Let_def
        split: OpCode.splits if_splits sum.splits)
qed

lemma exec_loop_forward_returns:
  assumes "forward_code code" and "unat clen \<le> length code"
  shows "\<exists>r. exec_loop pkt plen code clen s = Some r"
proof (induction "unat clen - unat (ip s)" arbitrary: s rule: less_induct)
  case less
  show ?case
  proof (cases "ip s < clen")
    case False
    then show ?thesis by (simp add: exec_loop.simps [of pkt plen code clen s])
  next
    case True
    then have i: "unat (ip s) < unat clen" by (simp add: word_less_nat_alt)
    then have lt: "unat (ip s) < length code" using assms(2) by simp
    show ?thesis
    proof (cases "exec_step pkt plen code clen s")
      case (Inl r)
      then show ?thesis using True by (simp add: exec_loop.simps [of pkt plen code clen s])
    next
      case (Inr s')
      have "is_jump (opcode (code ! unat (ip s))) \<Longrightarrow>
          unat (ip s) < unat (jump_target (code ! unat (ip s)))"
        using assms(1) lt by (auto simp: forward_code_def list_all_iff)
      moreover have "exec_ins pkt plen clen (code ! unat (ip s)) s = Inr s'"
        using Inr lt by (simp add: exec_step_def)
      ultimately have "unat (ip s) < unat (ip s')" using True exec_ins_progress by blast
      then have "\<exists>r. exec_loop pkt plen code clen s' = Some r"
        using i by (intro less) linarith
      then show ?thesis using True Inr by (simp add: exec_loop.simps [of pkt plen code clen s])
    qed
  qed
qed

section \<open>Memory safety\<close>

lemma load_in_window:
  assumes "plen = of_nat (length pkt)" "length pkt < 2 ^ 32"
    and "\<not> off + of_nat w > plen" "unat off + w < 2 ^ 32" and "w < 2 ^ 32"
  shows "in_window w pkt off"
proof -
  have "unat (off + of_nat w) = unat off + w"
    using assms(4,5) by (simp add: unat_word_ariths unat_of_nat take_bit_nat_eq_self)
  moreover have "unat plen = length pkt" using assms(1,2) by (simp add: unat_of_nat take_bit_nat_eq_self)
  ultimately have "unat off + w \<le> length pkt" using assms(3) by (simp add: word_le_nat_alt not_less)
  then show ?thesis using assms(2) by (simp add: in_window_def)
qed

lemma byte_no_fault: "in_window 1 data off \<Longrightarrow> \<exists>v. byte_at data off = Inr v"
  using byte_at_in_window [of 1 data off 0] by simp

lemmas reader_no_fault = byte_no_fault r16.no_fault r32.no_fault r64.no_fault

lemmas signed_reader_defs = read_i8_def read_i16_be_def read_i16_le_def read_i32_be_def
  read_i32_le_def read_i64_be_def read_i64_le_def

text \<open>The value a load instruction reads, widened to the accumulator.\<close>

definition load_value :: "OpCode \<Rightarrow> u8 list \<Rightarrow> u32 \<Rightarrow> fault + u64" where
  "load_value op pkt off =
    (case op of
       OP_LOAD_U8 \<Rightarrow> widen ucast (byte_at pkt off)
     | OP_LOAD_U16_BE \<Rightarrow> widen ucast (read_u16_be pkt off)
     | OP_LOAD_U16_LE \<Rightarrow> widen ucast (read_u16_le pkt off)
     | OP_LOAD_U32_BE \<Rightarrow> widen ucast (read_u32_be pkt off)
     | OP_LOAD_U32_LE \<Rightarrow> widen ucast (read_u32_le pkt off)
     | OP_LOAD_U64_BE \<Rightarrow> read_u64_be pkt off
     | OP_LOAD_U64_LE \<Rightarrow> read_u64_le pkt off
     | OP_LOAD_I8 \<Rightarrow> widen scast (read_i8 pkt off)
     | OP_LOAD_I16_BE \<Rightarrow> widen scast (read_i16_be pkt off)
     | OP_LOAD_I16_LE \<Rightarrow> widen scast (read_i16_le pkt off)
     | OP_LOAD_I32_BE \<Rightarrow> widen scast (read_i32_be pkt off)
     | OP_LOAD_I32_LE \<Rightarrow> widen scast (read_i32_le pkt off)
     | OP_LOAD_I64_BE \<Rightarrow> read_i64_be pkt off
     | OP_LOAD_I64_LE \<Rightarrow> read_i64_le pkt off
     | _ \<Rightarrow> Inr 0)"

lemma exec_ins_load:
  assumes "load_width (opcode ins) = Some w"
  shows "exec_ins pkt plen clen ins s =
    vm_load (of_nat w) plen ins (load_value (opcode ins) pkt (ioffset ins)) s"
  using assms by (cases "opcode ins") (auto simp: exec_ins_def load_value_def load_width_def)

lemma map_sum_Inr: "\<exists>v. x = Inr v \<Longrightarrow> \<exists>v. map_sum f g x = Inr v"
  by auto

lemma load_value_no_fault:
  assumes "load_width op = Some w" and "in_window w pkt off"
  shows "\<exists>v. load_value op pkt off = Inr v"
  using assms
  by (cases op)
    (auto simp: load_value_def load_width_def signed_reader_defs
      intro!: map_sum_Inr reader_no_fault)

lemma load_width_le: "load_width op = Some w \<Longrightarrow> w \<le> 8"
  by (cases op) (auto simp: load_width_def)

text \<open>A load in a program without wrapping offsets returns or continues, but never faults.\<close>

lemma exec_ins_no_fault:
  assumes len: "plen = of_nat (length pkt)" "length pkt < 2 ^ 32" and nw: "no_wrap_ins ins"
  shows "exec_ins pkt plen clen ins s \<noteq> Inl (Inl f)"
proof (cases "load_width (opcode ins)")
  case None
  then show ?thesis
    by (cases "opcode ins")
      (auto simp: exec_ins_def load_width_def vm_cmp_def vm_jump_def Let_def)
next
  case (Some w)
  then have "w < 2 ^ 32" and "unat (ioffset ins) + w < 2 ^ 32"
    using nw load_width_le [of "opcode ins" w] by (auto simp: no_wrap_ins_def)
  then have "\<not> ioffset ins + of_nat w > plen \<Longrightarrow> in_window w pkt (ioffset ins)"
    using load_in_window [OF len] by blast
  then show ?thesis
    using load_value_no_fault [OF Some, of pkt "ioffset ins"]
    by (auto simp: exec_ins_load [OF Some] vm_load_def)
qed

text \<open>
  Partial correctness of the loop: an invariant of the turns gives a property of the result.
\<close>

lemma exec_loop_rule:
  assumes ret: "exec_loop pkt plen code clen s = Some r" and init: "I s"
    and step: "\<And>s s'. I s \<Longrightarrow> ip s < clen \<Longrightarrow> exec_step pkt plen code clen s = Inr s' \<Longrightarrow> I s'"
    and stop: "\<And>s r. I s \<Longrightarrow> ip s < clen \<Longrightarrow> exec_step pkt plen code clen s = Inl r \<Longrightarrow> Q r"
    and off_end: "Q (Inr False)"
  shows "Q r"
proof -
  let ?P = "\<lambda>p pl c cl s r. p = pkt \<and> pl = plen \<and> c = code \<and> cl = clen \<and> I s \<longrightarrow> Q r"
  have "?P pkt plen code clen s r"
  proof (rule exec_loop.raw_induct [where P = ?P, OF _ ret])
    fix f p pl c cl s r
    assume IH: "\<And>p pl c cl s r. f p pl c cl s = Some r \<Longrightarrow> ?P p pl c cl s r"
      and eq: "(if ip s < cl then case exec_step p pl c cl s of Inl r \<Rightarrow> Some r
        | Inr s' \<Rightarrow> f p pl c cl s' else Some (Inr False)) = Some r"
    show "?P p pl c cl s r"
    proof (intro impI, elim conjE)
      assume e: "p = pkt" "pl = plen" "c = code" "cl = clen" and "I s"
      consider "\<not> ip s < clen" | r' where "ip s < clen" "exec_step pkt plen code clen s = Inl r'"
        | s' where "ip s < clen" "exec_step pkt plen code clen s = Inr s'"
        by (cases "exec_step pkt plen code clen s") blast+
      then show "Q r"
      proof cases
        case 1
        then show ?thesis using eq e off_end by simp
      next
        case 2
        then show ?thesis using eq e stop [OF \<open>I s\<close>] by simp
      next
        case 3
        then have "I s'" using step [OF \<open>I s\<close>] by blast
        moreover have "f pkt plen code clen s' = Some r" using 3 eq e by simp
        ultimately show ?thesis using IH [of pkt plen code clen s' r] by simp
      qed
    qed
  qed
  then show ?thesis using init by simp
qed

lemma exec_loop_no_fault:
  assumes len: "plen = of_nat (length pkt)" "length pkt < 2 ^ 32"
    and nw: "no_wrap_code code" and clen: "unat clen \<le> length code"
    and ret: "exec_loop pkt plen code clen s = Some r"
  shows "\<exists>b. r = Inr b"
proof (rule exec_loop_rule [OF ret, where I = "\<lambda>_. True"])
  fix s r assume "ip s < clen" and res: "exec_step pkt plen code clen s = Inl r"
  then have lt: "unat (ip s) < length code" using clen by (simp add: word_less_nat_alt)
  then have "no_wrap_ins (code ! unat (ip s))"
    using nw by (simp add: no_wrap_code_def list_all_length)
  then have "r \<noteq> Inl f" for f
    using res lt exec_ins_no_fault [OF len] by (auto simp: exec_step_def)
  then show "\<exists>b. r = Inr b" by (cases r) auto
qed auto

text \<open>
  Forward, non-wrapping programs run to a verdict on every packet: the contract the compiler has
  to meet.
\<close>

lemma execute_bytecode_total:
  assumes "forward_code code" "no_wrap_code code" "unat clen \<le> length code"
    and "length pkt < 2 ^ 32"
  shows "\<exists>b. execute_bytecode (Some pkt) (of_nat (length pkt)) (Some code) clen = Inr b"
proof -
  obtain r where r: "exec_loop pkt (of_nat (length pkt)) code clen vm_init = Some r"
    using exec_loop_forward_returns [OF assms(1,3)] by blast
  then obtain b where "r = Inr b"
    using exec_loop_no_fault [OF refl assms(4,2,3) r] by blast
  then show ?thesis using r by (auto simp: execute_bytecode_def)
qed

text \<open>Neither condition can be dropped: a backward jump may never return, \<dots>\<close>

lemma exec_loop_self_jump:
  assumes "opcode ins = OP_JUMP" "jump_target ins = 0" "0 < clen"
  shows "exec_loop pkt plen (ins # code) clen vm_init = None"
proof (rule ccontr)
  assume "exec_loop pkt plen (ins # code) clen vm_init \<noteq> None"
  then obtain r where ret: "exec_loop pkt plen (ins # code) clen vm_init = Some r" by blast
  have step: "exec_step pkt plen (ins # code) clen vm_init = Inr vm_init"
    using assms by (simp add: exec_step_def exec_ins_def vm_jump_def vm_init_def)
  let ?P = "\<lambda>p pl c cl s r. \<not> (p = pkt \<and> pl = plen \<and> c = ins # code \<and> cl = clen \<and> s = vm_init)"
  have "?P pkt plen (ins # code) clen vm_init r"
  proof (rule exec_loop.raw_induct [where P = ?P, OF _ ret])
    fix f p pl c cl s r
    assume IH: "\<And>p pl c cl s r. f p pl c cl s = Some r \<Longrightarrow> ?P p pl c cl s r"
      and eq: "(if ip s < cl then case exec_step p pl c cl s of Inl r \<Rightarrow> Some r
        | Inr s' \<Rightarrow> f p pl c cl s' else Some (Inr False)) = Some r"
    have "ip vm_init < clen" using assms(3) by (simp add: vm_init_def)
    then show "?P p pl c cl s r"
      using eq step IH [of pkt plen "ins # code" clen vm_init r] by auto
  qed
  then show False by simp
qed

section \<open>Running a program by instruction index\<close>

text \<open>
  The state at instruction \<open>i\<close> of a program, with natural numbers for the indices: the view the
  compiler proofs use.  The facts in \<open>exec_simps\<close> run one instruction each.
\<close>

definition run :: "u8 list \<Rightarrow> Instruction list \<Rightarrow> nat \<Rightarrow> u64 \<Rightarrow> bool \<Rightarrow> (fault + bool) option" where
  "run pkt code i a c =
     exec_loop pkt (of_nat (length pkt)) code (of_nat (length code))
       \<lparr>ip = of_nat i, acc = a, cmp_result = c\<rparr>"

definition small_code :: "Instruction list \<Rightarrow> bool" where
  "small_code code \<longleftrightarrow> length code < 2 ^ 32"

lemma run_step:
  assumes "small_code code" "i < length code"
  shows "run pkt code i a c =
    (case exec_ins pkt (of_nat (length pkt)) (of_nat (length code)) (code ! i)
        \<lparr>ip = of_nat i, acc = a, cmp_result = c\<rparr> of
       Inl r \<Rightarrow> Some r
     | Inr s' \<Rightarrow> exec_loop pkt (of_nat (length pkt)) code (of_nat (length code)) s')"
proof -
  have "unat (of_nat i :: u32) = i" "unat (of_nat (length code) :: u32) = length code"
    using assms by (auto simp: small_code_def intro!: unat_of_nat_small)
  then show ?thesis using assms(2)
    by (simp add: run_def exec_loop.simps [of _ _ _ _ "\<lparr>ip = of_nat i, acc = a, cmp_result = c\<rparr>"]
        exec_step_def word_less_nat_alt)
qed

lemma run_load [exec_simps]:
  assumes "small_code code" "i < length code" and "load_width (opcode (code ! i)) = Some w"
  shows "run pkt code i a c =
    (if ioffset (code ! i) + of_nat w > of_nat (length pkt) then Some (Inr False)
     else case load_value (opcode (code ! i)) pkt (ioffset (code ! i)) of
            Inl f \<Rightarrow> Some (Inl f)
          | Inr v \<Rightarrow> run pkt code (Suc i) v c)"
  by (subst run_step [OF assms(1,2)])
    (auto simp: exec_ins_load [OF assms(3)] vm_load_def run_def add.commute split: sum.split)

definition cmp_holds :: "OpCode \<Rightarrow> u64 \<Rightarrow> u64 \<Rightarrow> u64 \<Rightarrow> bool" where
  "cmp_holds op a x y =
    (case op of
       OP_CMP_EQ \<Rightarrow> a = x | OP_CMP_NE \<Rightarrow> a \<noteq> x | OP_CMP_GT \<Rightarrow> a > x | OP_CMP_GE \<Rightarrow> a \<ge> x
     | OP_CMP_LT \<Rightarrow> a < x | OP_CMP_LE \<Rightarrow> a \<le> x | OP_CMP_MASK \<Rightarrow> (a AND x) = y | _ \<Rightarrow> False)"

definition is_cmp :: "OpCode \<Rightarrow> bool" where
  "is_cmp op \<longleftrightarrow> op \<in> {OP_CMP_EQ, OP_CMP_NE, OP_CMP_GT, OP_CMP_GE, OP_CMP_LT, OP_CMP_LE, OP_CMP_MASK}"

lemma run_cmp [exec_simps]:
  assumes "small_code code" "i < length code" and "is_cmp (opcode (code ! i))"
  shows "run pkt code i a c = run pkt code (Suc i) a
    (cmp_holds (opcode (code ! i)) a (operand (code ! i)) (operand2 (code ! i)))"
  using assms(3)
  by (subst run_step [OF assms(1,2)])
    (auto simp: is_cmp_def exec_ins_def vm_cmp_def run_def cmp_holds_def add.commute)

lemma run_jump:
  assumes "small_code code" "i < length code" and "opcode (code ! i) = OP_JUMP"
    and "jump_target (code ! i) = of_nat t" "t < length code"
  shows "run pkt code i a c = run pkt code t a c"
proof -
  have "unat (of_nat t :: u32) = t" "unat (of_nat (length code) :: u32) = length code"
    using assms by (auto simp: small_code_def intro!: unat_of_nat_small)
  then show ?thesis using assms(3-)
    by (subst run_step [OF assms(1,2)]) (simp add: exec_ins_def vm_jump_def word_le_nat_alt run_def)
qed

lemma run_jif:
  assumes "small_code code" "i < length code" and "opcode (code ! i) = OP_JUMP_IF_FALSE"
    and "jump_target (code ! i) = of_nat t" "t < length code"
  shows "run pkt code i a c = (if c then run pkt code (Suc i) a c else run pkt code t a c)"
proof -
  have "unat (of_nat t :: u32) = t" "unat (of_nat (length code) :: u32) = length code"
    using assms by (auto simp: small_code_def intro!: unat_of_nat_small)
  then show ?thesis using assms(3-)
    by (subst run_step [OF assms(1,2)])
      (simp add: exec_ins_def vm_jump_def word_le_nat_alt run_def add.commute)
qed

lemma run_return [exec_simps]:
  assumes "small_code code" "i < length code"
  shows "opcode (code ! i) = OP_RETURN_TRUE \<Longrightarrow> run pkt code i a c = Some (Inr True)"
    and "opcode (code ! i) = OP_RETURN_FALSE \<Longrightarrow> run pkt code i a c = Some (Inr False)"
  using assms by (simp_all add: run_step exec_ins_def)

lemma execute_bytecode_run:
  assumes "small_code code" "code \<noteq> []"
  shows "execute_bytecode (Some pkt) (of_nat (length pkt)) (Some code) (of_nat (length code)) =
    (case run pkt code 0 0 False of None \<Rightarrow> Inl No_return | Some r \<Rightarrow> r)"
proof -
  have "unat (of_nat (length code) :: u32) = length code"
    using assms by (auto simp: small_code_def intro!: unat_of_nat_small)
  then have "(of_nat (length code) :: u32) \<noteq> 0" using assms(2) by (metis length_0_conv unat_0)
  then show ?thesis by (simp add: execute_bytecode_def run_def vm_init_def)
qed

section \<open>Properties\<close>

text \<open>
  C4. Termination and memory safety of the bytecode machine.  A program whose jumps only go forward
  and whose loads do not wrap around 32 bits runs to a verdict on every packet shorter than 4 GB: it
  never loops and never reads outside the packet or the program.
\<close>

theorem forward_programs_decide:
  assumes "forward_code code" "no_wrap_code code" "unat clen \<le> length code"
    and "length pkt < 2 ^ 32"
  shows "\<exists>b. execute_bytecode (Some pkt) (of_nat (length pkt)) (Some code) clen = Inr b"
  by (rule execute_bytecode_total [OF assms])

definition sample_code :: "Instruction list" where
  "sample_code =
     [\<lparr>opcode = OP_LOAD_U8, ioffset = 1, operand = 0, operand2 = 0, jump_target = 0\<rparr>,
      \<lparr>opcode = OP_CMP_GE, ioffset = 0, operand = 5, operand2 = 0, jump_target = 0\<rparr>,
      \<lparr>opcode = OP_JUMP_IF_FALSE, ioffset = 0, operand = 0, operand2 = 0, jump_target = 4\<rparr>,
      \<lparr>opcode = OP_RETURN_TRUE, ioffset = 0, operand = 0, operand2 = 0, jump_target = 0\<rparr>,
      \<lparr>opcode = OP_RETURN_FALSE, ioffset = 0, operand = 0, operand2 = 0, jump_target = 0\<rparr>]"

lemma sample_code_ok: "forward_code sample_code" "no_wrap_code sample_code" "length sample_code = 5"
  by (simp_all add: sample_code_def forward_code_def no_wrap_code_def no_wrap_ins_def load_width_def
      is_jump_def upt_rec)

theorem forward_programs_decide_witness:
  "\<exists>b. execute_bytecode (Some [0, 7]) (of_nat (length [0, 7 :: u8])) (Some sample_code) 5 = Inr b"
  by (rule forward_programs_decide [OF sample_code_ok(1,2)]) (simp_all add: sample_code_ok(3))

text \<open>
  The no-wrap condition is needed.  The check \<open>ins->offset + 2 > packet_len\<close> is computed in
  32 bits: at offset \<open>0xFFFFFFFF\<close> it wraps to 1, passes, and the load reads outside the packet.
\<close>

theorem wrapped_offset_reads_outside:
  "execute_bytecode (Some [0, 0]) 2
     (Some [\<lparr>opcode = OP_LOAD_U16_BE, ioffset = 0xFFFFFFFF, operand = 0, operand2 = 0, jump_target = 0\<rparr>]) 1 =
   Inl Oob_read"
  by (simp add: execute_bytecode_def exec_loop.simps exec_step_def exec_ins_def vm_load_def vm_init_def
      read_u16_be_def byte_at_def)

text \<open>
  The forward condition is needed.  A program that starts with a jump to itself keeps
  \<open>execute_bytecode\<close> in its loop for ever, on every packet.
\<close>

theorem self_jump_never_returns:
  "execute_bytecode (Some pkt) plen
     (Some (\<lparr>opcode = OP_JUMP, ioffset = 0, operand = 0, operand2 = 0, jump_target = 0\<rparr> # code)) 1 =
   Inl No_return"
  using exec_loop_self_jump [of "\<lparr>opcode = OP_JUMP, ioffset = 0, operand = 0, operand2 = 0, jump_target = 0\<rparr>" 1 pkt plen code]
  by (simp add: execute_bytecode_def)

end
