(* ===== verification/Filter_Compiler.thy ===== *)
theory Filter_Compiler
  imports Flatten Executor
begin

text \<open>
  Code generation for filter rules: \<open>compile_filter_rules\<close> of \<open>src/src/pdef/parser.c\<close> and its
  helpers.  A rule becomes an array of instructions: a block per condition (a load, then
  comparisons and jumps), then one return of true and one of false.  The array is allocated zeroed
  and written by index, here \<open>code[idx := ins]\<close>; \<open>compiled_layout\<close> shows that the writes fill it
  exactly, so none is out of range.  Indices are natural numbers and become 32-bit words when they
  are stored as jump targets; \<open>small_code\<close> states the bound under which that is exact.
\<close>

section \<open>Opcodes\<close>

definition find_field_by_path :: "StructDef \<Rightarrow> string \<Rightarrow> Field option" where
  "find_field_by_path s path = find (\<lambda>f. f_name f = path) (s_fields s)"

definition get_load_opcode :: "Field \<Rightarrow> OpCode" where
  "get_load_opcode f =
     (let be = (f_endian f = ENDIAN_BIG) in
      case f_type f of
        FIELD_TYPE_UINT8 \<Rightarrow> OP_LOAD_U8
      | FIELD_TYPE_UINT16 \<Rightarrow> (if be then OP_LOAD_U16_BE else OP_LOAD_U16_LE)
      | FIELD_TYPE_UINT32 \<Rightarrow> (if be then OP_LOAD_U32_BE else OP_LOAD_U32_LE)
      | FIELD_TYPE_UINT64 \<Rightarrow> (if be then OP_LOAD_U64_BE else OP_LOAD_U64_LE)
      | FIELD_TYPE_INT8 \<Rightarrow> OP_LOAD_I8
      | FIELD_TYPE_INT16 \<Rightarrow> (if be then OP_LOAD_I16_BE else OP_LOAD_I16_LE)
      | FIELD_TYPE_INT32 \<Rightarrow> (if be then OP_LOAD_I32_BE else OP_LOAD_I32_LE)
      | FIELD_TYPE_INT64 \<Rightarrow> (if be then OP_LOAD_I64_BE else OP_LOAD_I64_LE)
      | _ \<Rightarrow> OP_LOAD_U8)"

definition swap_endian_opcode :: "OpCode \<Rightarrow> OpCode" where
  "swap_endian_opcode op =
     (case op of
        OP_LOAD_U16_BE \<Rightarrow> OP_LOAD_U16_LE | OP_LOAD_U16_LE \<Rightarrow> OP_LOAD_U16_BE
      | OP_LOAD_U32_BE \<Rightarrow> OP_LOAD_U32_LE | OP_LOAD_U32_LE \<Rightarrow> OP_LOAD_U32_BE
      | OP_LOAD_U64_BE \<Rightarrow> OP_LOAD_U64_LE | OP_LOAD_U64_LE \<Rightarrow> OP_LOAD_U64_BE
      | OP_LOAD_I16_BE \<Rightarrow> OP_LOAD_I16_LE | OP_LOAD_I16_LE \<Rightarrow> OP_LOAD_I16_BE
      | OP_LOAD_I32_BE \<Rightarrow> OP_LOAD_I32_LE | OP_LOAD_I32_LE \<Rightarrow> OP_LOAD_I32_BE
      | OP_LOAD_I64_BE \<Rightarrow> OP_LOAD_I64_LE | OP_LOAD_I64_LE \<Rightarrow> OP_LOAD_I64_BE
      | _ \<Rightarrow> op)"

definition get_cmp_opcode :: "ConditionOp \<Rightarrow> OpCode" where
  "get_cmp_opcode op =
     (case op of
        COND_EQ \<Rightarrow> OP_CMP_EQ | COND_NE \<Rightarrow> OP_CMP_NE | COND_GT \<Rightarrow> OP_CMP_GT
      | COND_GE \<Rightarrow> OP_CMP_GE | COND_LT \<Rightarrow> OP_CMP_LT | COND_LE \<Rightarrow> OP_CMP_LE
      | COND_MASK \<Rightarrow> OP_CMP_MASK | _ \<Rightarrow> OP_CMP_EQ)"

section \<open>Sizes and labels\<close>

definition cond_size :: "string \<Rightarrow> FilterCondition \<Rightarrow> nat parse" where
  "cond_size rule_name cond =
     (case cond_op cond of
        COND_IN \<Rightarrow>
          if cond_values cond = []
          then parser_error (''Empty IN list in filter '' @ sq ''%s'') [Str rule_name]
          else Inr (3 * length (cond_values cond))
      | COND_NOT_IN \<Rightarrow>
          if cond_values cond = []
          then parser_error (''Empty NOT IN list in filter '' @ sq ''%s'') [Str rule_name]
          else Inr (1 + 3 * length (cond_values cond))
      | _ \<Rightarrow> Inr 3)"

primrec cond_sizes :: "string \<Rightarrow> FilterCondition list \<Rightarrow> nat list parse" where
  "cond_sizes rule_name [] = Inr []"
| "cond_sizes rule_name (c # cs) =
     try_then (cond_size rule_name c) (\<lambda>n.
       try_then (cond_sizes rule_name cs) (\<lambda>ns. Inr (n # ns)))"

text \<open>The prefix sums of the sizes: \<open>cond_starts[0] = 0\<close>, then each start plus its size.\<close>

primrec cond_starts :: "nat \<Rightarrow> nat list \<Rightarrow> nat list" where
  "cond_starts start [] = []"
| "cond_starts start (n # ns) = start # cond_starts (start + n) ns"

section \<open>Emission\<close>

definition zero_ins :: Instruction where
  "zero_ins = \<lparr>opcode = OP_LOAD_U8, ioffset = 0, operand = 0, operand2 = 0, jump_target = 0\<rparr>"

abbreviation "load_ins_of f \<equiv> zero_ins\<lparr>opcode := get_load_opcode f, ioffset := f_offset f\<rparr>"

abbreviation cmp_eq_ins :: "u64 \<Rightarrow> Instruction" where
  "cmp_eq_ins v \<equiv> zero_ins\<lparr>opcode := OP_CMP_EQ, operand := v\<rparr>"

abbreviation jif_ins :: "nat \<Rightarrow> Instruction" where
  "jif_ins t \<equiv> zero_ins\<lparr>opcode := OP_JUMP_IF_FALSE, jump_target := of_nat t\<rparr>"

abbreviation jmp_ins :: "nat \<Rightarrow> Instruction" where
  "jmp_ins t \<equiv> zero_ins\<lparr>opcode := OP_JUMP, jump_target := of_nat t\<rparr>"

text \<open>The array and the index of the next write: \<open>bytecode[idx++] = ins\<close>.\<close>

type_synonym emitter = "Instruction list \<times> nat"

definition emit :: "Instruction \<Rightarrow> emitter \<Rightarrow> emitter" where
  "emit ins e = ((fst e)[snd e := ins], Suc (snd e))"

text \<open>The loop over the values of an \<open>in\<close> list.\<close>

fun in_loop :: "nat \<Rightarrow> nat \<Rightarrow> u64 list \<Rightarrow> emitter \<Rightarrow> emitter" where
  "in_loop next_start fail_label [] e = e"
| "in_loop next_start fail_label (v # vs) e =
     (let e1 = emit (cmp_eq_ins v) e in
      if vs \<noteq> []
      then in_loop next_start fail_label vs
             (emit (jmp_ins next_start) (emit (jif_ins (snd e1 + 2)) e1))
      else emit (jif_ins fail_label) e1)"

fun not_in_loop :: "nat \<Rightarrow> nat \<Rightarrow> u64 list \<Rightarrow> emitter \<Rightarrow> emitter" where
  "not_in_loop next_start fail_label [] e = e"
| "not_in_loop next_start fail_label (v # vs) e =
     (let e1 = emit (cmp_eq_ins v) e;
          e2 = emit (jif_ins (if vs \<noteq> [] then snd e1 + 2 else next_start)) e1
      in not_in_loop next_start fail_label vs (emit (jmp_ins fail_label) e2))"

definition cmp_ins_of :: "FilterCondition \<Rightarrow> Instruction" where
  "cmp_ins_of cond =
     (let ins = zero_ins\<lparr>opcode := get_cmp_opcode (cond_op cond), operand := cond_value cond\<rparr> in
      if cond_op cond = COND_MASK
      then ins\<lparr>operand := cond_mask cond, operand2 := cond_value cond\<rparr> else ins)"

definition emit_cond ::
  "StructDef \<Rightarrow> nat \<Rightarrow> nat \<Rightarrow> FilterCondition \<Rightarrow> emitter \<Rightarrow> emitter parse" where
  "emit_cond target next_start fail_label cond e =
     (case find_field_by_path target (cond_field_name cond) of
        None \<Rightarrow> parser_error (''Field '' @ sq ''%s'' @ '' not found in struct '' @ sq ''%s'')
                  [Str (cond_field_name cond), Str (s_name target)]
      | Some field \<Rightarrow>
          let e1 = emit (load_ins_of field) e in
          Inr (if cond_op cond = COND_IN
               then in_loop next_start fail_label (cond_values cond) e1
               else if cond_op cond = COND_NOT_IN
               then not_in_loop next_start fail_label (cond_values cond) e1
               else emit (jif_ins fail_label) (emit (cmp_ins_of cond) e1)))"

text \<open>
  The loop over the conditions.  Each block starts at its own start index; the block after the
  last condition is the return at \<open>success_label\<close>.
\<close>

fun emit_conds ::
  "StructDef \<Rightarrow> nat \<Rightarrow> nat \<Rightarrow> nat list \<Rightarrow> FilterCondition list \<Rightarrow> Instruction list
    \<Rightarrow> Instruction list parse" where
  "emit_conds target success_label fail_label (start # starts) (c # cs) code =
     try_then (emit_cond target (case starts of [] \<Rightarrow> success_label | s # _ \<Rightarrow> s) fail_label c
                 (code, start)) (\<lambda>(code1, _).
       emit_conds target success_label fail_label starts cs code1)"
| "emit_conds target success_label fail_label _ _ code = Inr code"

section \<open>Rules\<close>

text \<open>The struct of a rule is the first that has the field of its first condition.\<close>

definition target_struct :: "StructDef list \<Rightarrow> TempFilterRule \<Rightarrow> StructDef option" where
  "target_struct ss r =
     (case tr_conditions r of
        [] \<Rightarrow> None
      | c # _ \<Rightarrow> find (\<lambda>s. find_field_by_path s (cond_field_name c) \<noteq> None) ss)"

definition set_opcode :: "OpCode \<Rightarrow> Instruction \<Rightarrow> Instruction" where
  "set_opcode op ins = ins\<lparr>opcode := op\<rparr>"

definition swap_code :: "Instruction list \<Rightarrow> Instruction list" where
  "swap_code = map (\<lambda>ins. set_opcode (swap_endian_opcode (opcode ins)) ins)"

definition compile_rule :: "StructDef list \<Rightarrow> TempFilterRule \<Rightarrow> FilterRule parse" where
  "compile_rule ss r =
     (case target_struct ss r of
        None \<Rightarrow> parser_error (''Cannot find struct for filter '' @ sq ''%s'') [Str (tr_name r)]
      | Some target \<Rightarrow>
          try_then (cond_sizes (tr_name r) (tr_conditions r)) (\<lambda>sizes.
          let total_size = 2 + sum_list sizes;
              success_label = total_size - 2;
              fail_label = total_size - 1
          in try_then (emit_conds target success_label fail_label (cond_starts 0 sizes)
                         (tr_conditions r) (replicate total_size zero_ins)) (\<lambda>code0.
          let code1 = code0[success_label := set_opcode OP_RETURN_TRUE (code0 ! success_label)];
              code = code1[fail_label := set_opcode OP_RETURN_FALSE (code1 ! fail_label)];
              len = of_nat total_size
          in Inr \<lparr>r_name = strncpy_z 63 (tr_name r), r_struct_name = strncpy_z 63 (s_name target),
                  r_bytecode = Some code, r_bytecode_len = len,
                  r_bytecode_be = Some code, r_bytecode_be_len = len,
                  r_bytecode_le = Some (swap_code code), r_bytecode_le_len = len,
                  r_min_packet_size = s_min_size target,
                  r_sliding_window = tr_sliding_window r,
                  r_sliding_max_offset = tr_sliding_max_offset r\<rparr>)))"

primrec compile_filter_rules :: "StructDef list \<Rightarrow> TempFilterRule list \<Rightarrow> FilterRule list parse" where
  "compile_filter_rules ss [] = Inr []"
| "compile_filter_rules ss (r # rs) =
     try_then (compile_rule ss r) (\<lambda>fr.
       try_then (compile_filter_rules ss rs) (\<lambda>frs. Inr (fr # frs)))"

section \<open>Layout of the generated code\<close>

fun in_block :: "nat \<Rightarrow> nat \<Rightarrow> nat \<Rightarrow> u64 list \<Rightarrow> Instruction list" where
  "in_block next_start fail_label i [] = []"
| "in_block next_start fail_label i [v] = [cmp_eq_ins v, jif_ins fail_label]"
| "in_block next_start fail_label i (v # vs) =
     [cmp_eq_ins v, jif_ins (i + 3), jmp_ins next_start] @
     in_block next_start fail_label (i + 3) vs"

fun not_in_block :: "nat \<Rightarrow> nat \<Rightarrow> nat \<Rightarrow> u64 list \<Rightarrow> Instruction list" where
  "not_in_block next_start fail_label i [] = []"
| "not_in_block next_start fail_label i (v # vs) =
     [cmp_eq_ins v, jif_ins (if vs = [] then next_start else i + 3), jmp_ins fail_label] @
     not_in_block next_start fail_label (i + 3) vs"

definition cond_block :: "nat \<Rightarrow> nat \<Rightarrow> nat \<Rightarrow> Field \<Rightarrow> FilterCondition \<Rightarrow> Instruction list" where
  "cond_block next_start fail_label start f c =
     load_ins_of f #
     (if cond_op c = COND_IN then in_block next_start fail_label (Suc start) (cond_values c)
      else if cond_op c = COND_NOT_IN
      then not_in_block next_start fail_label (Suc start) (cond_values c)
      else [cmp_ins_of c, jif_ins fail_label])"

definition cond_len :: "FilterCondition \<Rightarrow> nat" where
  "cond_len c =
     (if cond_op c = COND_IN then 3 * length (cond_values c)
      else if cond_op c = COND_NOT_IN then 1 + 3 * length (cond_values c) else 3)"

definition cond_ok :: "FilterCondition \<Rightarrow> bool" where
  "cond_ok c \<longleftrightarrow> cond_op c \<in> {COND_IN, COND_NOT_IN} \<longrightarrow> cond_values c \<noteq> []"

lemma cond_size_Inr: "cond_size n c = Inr k \<longleftrightarrow> cond_ok c \<and> k = cond_len c"
  by (cases "cond_op c") (auto simp: cond_size_def cond_ok_def cond_len_def)

lemma cond_sizes_Inr: "cond_sizes n cs = Inr ks \<longleftrightarrow> list_all cond_ok cs \<and> ks = map cond_len cs"
  by (induction cs arbitrary: ks) (auto simp: try_then_Inr_iff cond_size_Inr)

lemma length_in_block: "vs \<noteq> [] \<Longrightarrow> Suc (length (in_block nx fl i vs)) = 3 * length vs"
  by (induction nx fl i vs rule: in_block.induct) auto

lemma length_not_in_block: "length (not_in_block nx fl i vs) = 3 * length vs"
  by (induction nx fl i vs rule: not_in_block.induct) auto

lemma length_cond_block: "cond_ok c \<Longrightarrow> length (cond_block nx fl st f c) = cond_len c"
  by (auto simp: cond_block_def cond_len_def cond_ok_def length_in_block length_not_in_block)

subsection \<open>Writing a block by index is appending it\<close>

lemma fold_emit:
  assumes "idx + length is \<le> length code"
  shows "fold emit is (code, idx) = (take idx code @ is @ drop (idx + length is) code, idx + length is)"
  using assms
proof (induction "is" arbitrary: idx code)
  case (Cons i "is")
  then have "idx < length code" by simp
  then have "take (Suc idx) (code[idx := i]) = take idx code @ [i]"
    by (simp add: take_Suc_conv_app_nth)
  then show ?case using Cons by (simp add: emit_def)
qed simp

lemma snd_emit [simp]: "snd (emit ins e) = Suc (snd e)"
  by (simp add: emit_def)

lemma in_block_step:
  "vs \<noteq> [] \<Longrightarrow> in_block nx fl i (v # vs) =
     [cmp_eq_ins v, jif_ins (i + 3), jmp_ins nx] @ in_block nx fl (i + 3) vs"
  by (cases vs) simp_all

lemma in_loop_fold: "in_loop nx fl vs e = fold emit (in_block nx fl (snd e) vs) e"
proof (induction nx fl vs e rule: in_loop.induct)
  case (2 nx fl v vs e)
  show ?case
  proof (cases "vs = []")
    case False
    then show ?thesis using 2 [OF refl False]
      by (simp add: Let_def in_block_step numeral_eq_Suc)
  qed simp
qed simp

lemma not_in_loop_fold: "not_in_loop nx fl vs e = fold emit (not_in_block nx fl (snd e) vs) e"
  by (induction nx fl vs e rule: not_in_loop.induct) (auto simp: Let_def numeral_eq_Suc)

lemma emit_cond_fold:
  "emit_cond t nx fl c e =
     (case find_field_by_path t (cond_field_name c) of
        None \<Rightarrow> parser_error (''Field '' @ sq ''%s'' @ '' not found in struct '' @ sq ''%s'')
                  [Str (cond_field_name c), Str (s_name t)]
      | Some f \<Rightarrow> Inr (fold emit (cond_block nx fl (snd e) f c) e))"
  by (auto simp: emit_cond_def cond_block_def Let_def in_loop_fold not_in_loop_fold emit_def
      split: option.split)

text \<open>The blocks of all conditions, the first at \<open>start\<close>.\<close>

definition cond_field :: "StructDef \<Rightarrow> FilterCondition \<Rightarrow> Field" where
  "cond_field t c = the (find_field_by_path t (cond_field_name c))"

definition has_field :: "StructDef \<Rightarrow> FilterCondition \<Rightarrow> bool" where
  "has_field t c \<longleftrightarrow> find_field_by_path t (cond_field_name c) \<noteq> None"

primrec cond_blocks :: "StructDef \<Rightarrow> nat \<Rightarrow> nat \<Rightarrow> FilterCondition list \<Rightarrow> Instruction list" where
  "cond_blocks t fl start [] = []"
| "cond_blocks t fl start (c # cs) =
     cond_block (start + cond_len c) fl start (cond_field t c) c @
     cond_blocks t fl (start + cond_len c) cs"

lemma length_cond_blocks:
  "list_all cond_ok cs \<Longrightarrow> length (cond_blocks t fl start cs) = sum_list (map cond_len cs)"
  by (induction cs arbitrary: start) (auto simp: length_cond_block)

lemma emit_conds_blocks:
  assumes "emit_conds t sl fl (cond_starts start (map cond_len cs)) cs code = Inr code'"
    and "list_all cond_ok cs" "sl = start + sum_list (map cond_len cs)" "sl \<le> length code"
  shows "code' = take start code @ cond_blocks t fl start cs @ drop sl code \<and> list_all (has_field t) cs"
  using assms
proof (induction cs arbitrary: start code)
  case (Cons c cs)
  let ?st = "start + cond_len c"
  let ?b = "cond_block ?st fl start (cond_field t c) c"
  have next_start: "(case cond_starts ?st (map cond_len cs) of [] \<Rightarrow> sl | s # _ \<Rightarrow> s) = ?st"
    using Cons.prems(3) by (cases cs) auto
  have len: "length ?b = cond_len c" using Cons.prems(2) by (simp add: length_cond_block)
  have fits: "start + length ?b \<le> length code" using Cons.prems(3,4) len by simp
  have f: "has_field t c" and rest: "emit_conds t sl fl (cond_starts ?st (map cond_len cs)) cs
      (take start code @ ?b @ drop ?st code) = Inr code'"
    using Cons.prems(1) fold_emit [OF fits] len
    by (auto simp: next_start emit_cond_fold has_field_def cond_field_def split: option.splits)
  have "code' = take ?st (take start code @ ?b @ drop ?st code) @ cond_blocks t fl ?st cs @
      drop sl (take start code @ ?b @ drop ?st code) \<and> list_all (has_field t) cs"
    by (rule Cons.IH [OF rest]) (use Cons.prems fits len in auto)
  then show ?case using f fits len Cons.prems(3) by (simp add: ac_simps)
qed simp

text \<open>What a compiled rule consists of.\<close>

definition compiled_code :: "StructDef \<Rightarrow> FilterCondition list \<Rightarrow> Instruction list" where
  "compiled_code t cs =
     (let n = sum_list (map cond_len cs) in
      cond_blocks t (Suc n) 0 cs @ [zero_ins\<lparr>opcode := OP_RETURN_TRUE\<rparr>, zero_ins\<lparr>opcode := OP_RETURN_FALSE\<rparr>])"

lemma length_compiled_code:
  "list_all cond_ok cs \<Longrightarrow> length (compiled_code t cs) = sum_list (map cond_len cs) + 2"
  by (simp add: compiled_code_def Let_def length_cond_blocks)

lemma patch_returns:
  assumes "length b = n"
  shows "(let code0 = b @ [zero_ins, zero_ins];
              code1 = code0[n := set_opcode OP_RETURN_TRUE (code0 ! n)]
          in code1[Suc n := set_opcode OP_RETURN_FALSE (code1 ! Suc n)]) =
    b @ [zero_ins\<lparr>opcode := OP_RETURN_TRUE\<rparr>, zero_ins\<lparr>opcode := OP_RETURN_FALSE\<rparr>]"
  using assms by (auto simp: Let_def list_update_append nth_append set_opcode_def)

lemma compiled_layout:
  assumes "compile_rule ss r = Inr fr"
  shows "\<exists>t. target_struct ss r = Some t \<and> list_all cond_ok (tr_conditions r) \<and>
    list_all (has_field t) (tr_conditions r) \<and>
    fr = (let code = compiled_code t (tr_conditions r); len = of_nat (length code) in
      \<lparr>r_name = strncpy_z 63 (tr_name r), r_struct_name = strncpy_z 63 (s_name t),
       r_bytecode = Some code, r_bytecode_len = len, r_bytecode_be = Some code, r_bytecode_be_len = len,
       r_bytecode_le = Some (swap_code code), r_bytecode_le_len = len,
       r_min_packet_size = s_min_size t, r_sliding_window = tr_sliding_window r,
       r_sliding_max_offset = tr_sliding_max_offset r\<rparr>)"
proof -
  let ?cs = "tr_conditions r"
  let ?n = "sum_list (map cond_len ?cs)"
  obtain t code0 where t: "target_struct ss r = Some t" and ok: "list_all cond_ok ?cs"
    and c: "emit_conds t ?n (Suc ?n) (cond_starts 0 (map cond_len ?cs)) ?cs
      (replicate (2 + ?n) zero_ins) = Inr code0"
    and fr: "fr = (let code1 = code0[?n := set_opcode OP_RETURN_TRUE (code0 ! ?n)];
              code = code1[Suc ?n := set_opcode OP_RETURN_FALSE (code1 ! Suc ?n)];
              len = of_nat (2 + ?n)
          in \<lparr>r_name = strncpy_z 63 (tr_name r), r_struct_name = strncpy_z 63 (s_name t),
                  r_bytecode = Some code, r_bytecode_len = len,
                  r_bytecode_be = Some code, r_bytecode_be_len = len,
                  r_bytecode_le = Some (swap_code code), r_bytecode_le_len = len,
                  r_min_packet_size = s_min_size t,
                  r_sliding_window = tr_sliding_window r,
                  r_sliding_max_offset = tr_sliding_max_offset r\<rparr>)"
    using assms
    by (auto simp: compile_rule_def try_then_Inr_iff cond_sizes_Inr Let_def split: option.splits)
  let ?b = "cond_blocks t (Suc ?n) 0 ?cs"
  have two: "drop ?n (replicate (2 + ?n) zero_ins) = [zero_ins, zero_ins]"
    by (simp only: drop_replicate add_diff_cancel_right') (simp add: numeral_eq_Suc)
  have "code0 = take 0 (replicate (2 + ?n) zero_ins) @ ?b @ drop ?n (replicate (2 + ?n) zero_ins) \<and>
      list_all (has_field t) ?cs"
    by (rule emit_conds_blocks [OF c ok]) simp_all
  then have code0: "code0 = ?b @ [zero_ins, zero_ins]" and hf: "list_all (has_field t) ?cs"
    unfolding two by simp_all
  have len: "length ?b = ?n" using ok by (rule length_cond_blocks)
  have "(let code1 = code0[?n := set_opcode OP_RETURN_TRUE (code0 ! ?n)]
      in code1[Suc ?n := set_opcode OP_RETURN_FALSE (code1 ! Suc ?n)]) = compiled_code t ?cs"
    unfolding code0 compiled_code_def Let_def using patch_returns [OF len, unfolded Let_def] by simp
  then show ?thesis using t ok hf fr length_compiled_code [OF ok, of t] by (simp add: Let_def)
qed

section \<open>What a condition means\<close>

text \<open>
  The number a field has in a packet: its bytes in the byte order of the field, sign-extended to 64
  bits when the type is signed.  Types without a load of their own (\<open>bytes\<close>, \<open>string\<close>,
  \<open>varbytes\<close>) are read as their first byte.
\<close>

definition field_width :: "Field \<Rightarrow> nat" where
  "field_width f =
     (if f_type f \<in> {FIELD_TYPE_UINT16, FIELD_TYPE_INT16} then 2
      else if f_type f \<in> {FIELD_TYPE_UINT32, FIELD_TYPE_INT32} then 4
      else if f_type f \<in> {FIELD_TYPE_UINT64, FIELD_TYPE_INT64} then 8 else 1)"

definition signed_field :: "Field \<Rightarrow> bool" where
  "signed_field f \<longleftrightarrow>
     f_type f \<in> {FIELD_TYPE_INT8, FIELD_TYPE_INT16, FIELD_TYPE_INT32, FIELD_TYPE_INT64}"

definition field_value :: "u8 list \<Rightarrow> Field \<Rightarrow> u64" where
  "field_value pkt f =
     (let bs = window (field_width f) pkt (f_offset f);
          n = int (if f_endian f = ENDIAN_BIG then be_value bs else le_value bs)
      in of_int (if signed_field f then signed_take_bit (8 * field_width f - 1) n else n))"

definition cond_test :: "FilterCondition \<Rightarrow> u64 \<Rightarrow> bool" where
  "cond_test c a =
     (case cond_op c of
        COND_EQ \<Rightarrow> a = cond_value c | COND_NE \<Rightarrow> a \<noteq> cond_value c
      | COND_GT \<Rightarrow> a > cond_value c | COND_GE \<Rightarrow> a \<ge> cond_value c
      | COND_LT \<Rightarrow> a < cond_value c | COND_LE \<Rightarrow> a \<le> cond_value c
      | COND_MASK \<Rightarrow> (a AND cond_mask c) = cond_value c
      | COND_IN \<Rightarrow> a \<in> set (cond_values c) | COND_NOT_IN \<Rightarrow> a \<notin> set (cond_values c))"

text \<open>A condition holds of a packet when the field lies inside the packet and passes the test.\<close>

definition cond_holds :: "StructDef \<Rightarrow> u8 list \<Rightarrow> FilterCondition \<Rightarrow> bool" where
  "cond_holds t pkt c \<longleftrightarrow>
     (case find_field_by_path t (cond_field_name c) of
        None \<Rightarrow> False
      | Some f \<Rightarrow> in_window (field_width f) pkt (f_offset f) \<and> cond_test c (field_value pkt f))"

subsection \<open>The load of a field\<close>

lemma load_width_field: "load_width (get_load_opcode f) = Some (field_width f)"
  by (cases "f_type f") (auto simp: get_load_opcode_def load_width_def field_width_def Let_def)

lemma scast_of_nat:
  "scast (of_nat n :: 'a::len word) = (of_int (signed_take_bit (LENGTH('a) - 1) (int n)) :: 'b::len word)"
  by (simp add: scast_eq signed_of_nat)

lemma scast_8: "(scast (of_nat n :: u8) :: u64) = of_int (signed_take_bit 7 (int n))"
  and scast_16: "(scast (of_nat n :: u16) :: u64) = of_int (signed_take_bit 15 (int n))"
  and scast_32: "(scast (of_nat n :: u32) :: u64) = of_int (signed_take_bit 31 (int n))"
  by (simp_all add: scast_of_nat)

lemma word_64_signed: "(of_int (signed_take_bit 63 i) :: u64) = of_int i"
proof (rule bit_word_eqI)
  fix n assume "n < LENGTH(64)"
  then have "63 \<le> n \<Longrightarrow> n = 63" by simp
  then show "bit (of_int (signed_take_bit 63 i) :: u64) n = bit (of_int i :: u64) n"
    by (auto simp: bit_simps min_def)
qed

lemma window_1: "in_window 1 pkt off \<Longrightarrow> \<exists>b. window 1 pkt off = [b] \<and> byte_at pkt off = Inr b"
proof -
  assume w: "in_window 1 pkt off"
  have "length (window 1 pkt off) = Suc 0" using length_window [OF w] by simp
  then obtain b where b: "window 1 pkt off = [b]" by (auto simp: length_Suc_conv simp del: length_window)
  show ?thesis using byte_at_in_window [OF w, of 0] unfolding b by simp
qed

lemma le_value_less: "le_value bs < 256 ^ length bs"
proof (induction bs)
  case (Cons b bs)
  have "unat b + 256 * le_value bs < 256 + 256 * le_value bs" using byte_less [of b] by simp
  also have "\<dots> \<le> 256 * 256 ^ length bs" using Cons by simp
  finally show ?case by simp
qed simp

lemma be_value_window: "in_window n pkt off \<Longrightarrow> be_value (window n pkt off) < 256 ^ n"
  and le_value_window: "in_window n pkt off \<Longrightarrow> le_value (window n pkt off) < 256 ^ n"
  using le_value_less [of "rev (window n pkt off)"] le_value_less [of "window n pkt off"]
  by (simp_all add: be_value_def)

lemma ucast_of_nat_small: "n < 2 ^ LENGTH('a) \<Longrightarrow> ucast (of_nat n :: 'a::len word) = of_nat n"
  by (simp add: unsigned_of_nat take_bit_nat_eq_self)

lemma load_value_field:
  assumes "in_window (field_width f) pkt (f_offset f)"
  shows "load_value (get_load_opcode f) pkt (f_offset f) = Inr (field_value pkt f)"
proof -
  note rd = r16.rd_be_eq r16.rd_le_eq r32.rd_be_eq r32.rd_le_eq r64.rd_be_eq r64.rd_le_eq
  note defs = load_value_def get_load_opcode_def field_value_def signed_field_def Let_def
    signed_reader_defs
  have "field_width f \<in> {1, 2, 4, 8}" by (simp add: field_width_def)
  then consider "field_width f = 1" | "field_width f = 2" | "field_width f = 4" | "field_width f = 8"
    by blast
  then show ?thesis
  proof cases
    case 1
    then obtain b where b: "window 1 pkt (f_offset f) = [b]" "byte_at pkt (f_offset f) = Inr b"
      using window_1 assms by auto
    have s: "(scast b :: u64) = of_int (signed_take_bit 7 (int (unat b)))"
      using scast_8 [of "unat b"] by simp
    show ?thesis using 1 b s by (cases "f_type f") (simp_all add: defs field_width_def be_value_def)
  next
    case 2
    then show ?thesis using assms be_value_window [of 2] le_value_window [of 2]
      by (cases "f_type f")
        (simp_all add: defs rd field_width_def ucast_of_nat_small scast_16)
  next
    case 3
    then show ?thesis using assms be_value_window [of 4] le_value_window [of 4]
      by (cases "f_type f")
        (simp_all add: defs rd field_width_def ucast_of_nat_small scast_32)
  next
    case 4
    then show ?thesis using assms
      by (cases "f_type f") (simp_all add: defs rd field_width_def word_64_signed)
  qed
qed

section \<open>Running the generated code\<close>

text \<open>The instructions \<open>is\<close> stand at index \<open>i\<close> of the program.\<close>

primrec code_at :: "Instruction list \<Rightarrow> nat \<Rightarrow> Instruction list \<Rightarrow> bool" where
  "code_at code i [] \<longleftrightarrow> True"
| "code_at code i (x # xs) \<longleftrightarrow> i < length code \<and> code ! i = x \<and> code_at code (Suc i) xs"

lemma code_at_append:
  "code_at code i (xs @ ys) \<longleftrightarrow> code_at code i xs \<and> code_at code (i + length xs) ys"
  by (induction xs arbitrary: i) auto

lemma code_at_whole: "code_at (pre @ xs) (length pre) xs"
proof (induction xs arbitrary: pre)
  case (Cons x xs)
  show ?case using Cons [of "pre @ [x]"] by simp
qed simp

lemma code_at_all: "code_at xs 0 xs"
  using code_at_whole [of "[]" xs] by simp

lemma bounds_check:
  assumes "length pkt < 2 ^ 32" "unat off + w < 2 ^ 32"
  shows "(off + of_nat w > (of_nat (length pkt) :: u32)) = (\<not> in_window w pkt off)"
proof -
  have "unat (of_nat w :: u32) = w" "unat (of_nat (length pkt) :: u32) = length pkt"
    using assms by (auto intro!: unat_of_nat_small)
  then show ?thesis using assms
    by (simp add: word_less_nat_alt unat_add_no_wrap in_window_def not_le)
qed

lemma run_field_load:
  assumes "small_code code" "code_at code i (load_ins_of f # rest)"
    and "length pkt < 2 ^ 32" "unat (f_offset f) + field_width f < 2 ^ 32"
  shows "run pkt code i a c =
    (if in_window (field_width f) pkt (f_offset f) then run pkt code (Suc i) (field_value pkt f) c
     else Some (Inr False))"
proof -
  have i: "i < length code" "code ! i = load_ins_of f" using assms(2) by simp_all
  have w: "load_width (opcode (code ! i)) = Some (field_width f)"
    using i by (simp add: load_width_field)
  show ?thesis
    using run_load [OF assms(1) i(1) w, of pkt a c] bounds_check [OF assms(3,4)] load_value_field [of f pkt] i
    by auto
qed

lemma run_cmp_eq:
  assumes "small_code code" "i < length code" "code ! i = cmp_eq_ins v"
  shows "run pkt code i a c = run pkt code (Suc i) a (a = v)"
  using run_cmp [OF assms(1,2), of pkt a c] assms(3) by (simp add: is_cmp_def cmp_holds_def)

lemma run_jif_at:
  assumes "small_code code" "i < length code" "code ! i = jif_ins t" "t < length code"
  shows "run pkt code i a c = (if c then run pkt code (Suc i) a c else run pkt code t a c)"
  by (rule run_jif [OF assms(1,2) _ _ assms(4)]) (simp_all add: assms(3))

lemma run_jmp_at:
  assumes "small_code code" "i < length code" "code ! i = jmp_ins t" "t < length code"
  shows "run pkt code i a c = run pkt code t a c"
  by (rule run_jump [OF assms(1,2) _ _ assms(4)]) (simp_all add: assms(3))

text \<open>The labels a block jumps to: the next block, and the instruction that returns false.\<close>

definition labels_ok :: "Instruction list \<Rightarrow> nat \<Rightarrow> nat \<Rightarrow> bool" where
  "labels_ok code nx fl \<longleftrightarrow> small_code code \<and> nx < length code \<and> fl < length code \<and>
     opcode (code ! fl) = OP_RETURN_FALSE"

lemma run_fail: "labels_ok code nx fl \<Longrightarrow> run pkt code fl a c = Some (Inr False)"
  by (simp add: labels_ok_def run_return)

lemma run_in_block:
  assumes "labels_ok code nx fl" "code_at code i (in_block nx fl i vs)" "vs \<noteq> []"
    and "i + length (in_block nx fl i vs) = nx"
  shows "\<exists>c'. run pkt code i a c = (if a \<in> set vs then run pkt code nx a c' else Some (Inr False))"
  using assms
proof (induction vs arbitrary: i c)
  case (Cons v vs)
  have sc: "small_code code" and nx: "nx < length code" and fl: "fl < length code"
    using Cons.prems(1) by (simp_all add: labels_ok_def)
  show ?case
  proof (cases "vs = []")
    case True
    then have at: "code_at code i (cmp_eq_ins v # jif_ins fl # [])" and "nx = Suc (Suc i)"
      using Cons.prems(2,4) by simp_all
    then show ?thesis
      using run_cmp_eq [OF sc, of i v] run_jif_at [OF sc _ _ fl, of "Suc i"] True
        run_fail [OF Cons.prems(1)] by auto
  next
    case False
    then have at: "code_at code i (cmp_eq_ins v # jif_ins (i + 3) # jmp_ins nx # in_block nx fl (i + 3) vs)"
      using Cons.prems(2) by (simp add: in_block_step)
    have "0 < length (in_block nx fl (i + 3) vs)" using False by (cases "(nx, fl, i + 3, vs)" rule: in_block.cases) auto
    then have lt: "i + 3 < length code" and len: "i + 3 + length (in_block nx fl (i + 3) vs) = nx"
      using Cons.prems(4) nx False by (simp_all add: in_block_step)
    have "run pkt code i a c = (if a = v then run pkt code nx a True else run pkt code (i + 3) a False)"
      using at run_cmp_eq [OF sc, of i v] run_jif_at [OF sc _ _ lt, of "Suc i"]
        run_jmp_at [OF sc _ _ nx, of "Suc (Suc i)"] by simp
    moreover obtain c' where "run pkt code (i + 3) a False =
        (if a \<in> set vs then run pkt code nx a c' else Some (Inr False))"
      using Cons.IH [OF Cons.prems(1) _ False len, of False] at by (auto simp: numeral_eq_Suc)
    ultimately show ?thesis by (auto split: if_splits)
  qed
qed simp

lemma run_not_in_block:
  assumes "labels_ok code nx fl" "code_at code i (not_in_block nx fl i vs)" "vs \<noteq> []"
    and "i + length (not_in_block nx fl i vs) = nx"
  shows "\<exists>c'. run pkt code i a c = (if a \<notin> set vs then run pkt code nx a c' else Some (Inr False))"
  using assms
proof (induction vs arbitrary: i c)
  case (Cons v vs)
  have sc: "small_code code" and nx: "nx < length code" and fl: "fl < length code"
    using Cons.prems(1) by (simp_all add: labels_ok_def)
  let ?t = "if vs = [] then nx else i + 3"
  have at: "code_at code i (cmp_eq_ins v # jif_ins ?t # jmp_ins fl # not_in_block nx fl (i + 3) vs)"
    using Cons.prems(2) by simp
  have t: "?t < length code" using Cons.prems(4) nx by auto
  have one: "run pkt code i a c = (if a = v then Some (Inr False) else run pkt code ?t a False)"
    using at run_cmp_eq [OF sc, of i v] run_jif_at [OF sc _ _ t, of "Suc i"]
      run_jmp_at [OF sc _ _ fl, of "Suc (Suc i)"] run_fail [OF Cons.prems(1)] by simp
  show ?case
  proof (cases "vs = []")
    case True
    then show ?thesis using one by auto
  next
    case False
    have "i + 3 + length (not_in_block nx fl (i + 3) vs) = nx" using Cons.prems(4) by simp
    then obtain c' where "run pkt code (i + 3) a False =
        (if a \<notin> set vs then run pkt code nx a c' else Some (Inr False))"
      using Cons.IH [OF Cons.prems(1) _ False, of "i + 3" False] at by (auto simp: numeral_eq_Suc)
    then show ?thesis using one False by (auto split: if_splits)
  qed
qed simp

definition offset_fits :: "Field \<Rightarrow> bool" where
  "offset_fits f \<longleftrightarrow> unat (f_offset f) + field_width f < 2 ^ 32"

lemma run_cmp_ins:
  assumes "small_code code" "i < length code" "code ! i = cmp_ins_of cond"
    and "cond_op cond \<noteq> COND_IN" "cond_op cond \<noteq> COND_NOT_IN"
  shows "run pkt code i a c = run pkt code (Suc i) a (cond_test cond a)"
proof -
  have cmp: "is_cmp (opcode (code ! i))" using assms(3-5)
    by (cases "cond_op cond") (simp_all add: cmp_ins_of_def get_cmp_opcode_def is_cmp_def Let_def)
  show ?thesis using run_cmp [OF assms(1,2) cmp, of pkt a c] assms(3-5)
    by (cases "cond_op cond") (simp_all add: cmp_ins_of_def get_cmp_opcode_def cmp_holds_def cond_test_def Let_def)
qed

lemma run_cond_block:
  assumes lab: "labels_ok code nx fl" and at: "code_at code i (cond_block nx fl i f cond)"
    and ok: "cond_ok cond" "i + cond_len cond = nx" and fits: "length pkt < 2 ^ 32" "offset_fits f"
  shows "\<exists>a' c'. run pkt code i a c =
    (if in_window (field_width f) pkt (f_offset f) \<and> cond_test cond (field_value pkt f)
     then run pkt code nx a' c' else Some (Inr False))"
proof -
  let ?v = "field_value pkt f"
  have sc: "small_code code" and fl: "fl < length code" using lab by (simp_all add: labels_ok_def)
  have load: "run pkt code i a c =
    (if in_window (field_width f) pkt (f_offset f) then run pkt code (Suc i) ?v c
     else Some (Inr False))"
    using run_field_load [OF sc _ fits(1)] at fits(2) unfolding cond_block_def offset_fits_def by blast
  have "\<exists>c'. run pkt code (Suc i) ?v c = (if cond_test cond ?v then run pkt code nx ?v c' else Some (Inr False))"
  proof -
    consider (inl) "cond_op cond = COND_IN" | (notin) "cond_op cond = COND_NOT_IN"
      | (other) "cond_op cond \<noteq> COND_IN" "cond_op cond \<noteq> COND_NOT_IN" by blast
    then show ?thesis
    proof cases
      case inl
      then show ?thesis
        using run_in_block [OF lab, of "Suc i" "cond_values cond" pkt ?v c] at ok
          length_in_block [of "cond_values cond" nx fl "Suc i"]
        by (simp add: cond_block_def cond_ok_def cond_len_def cond_test_def)
    next
      case notin
      then show ?thesis
        using run_not_in_block [OF lab, of "Suc i" "cond_values cond" pkt ?v c] at ok
          length_not_in_block [of nx fl "Suc i" "cond_values cond"]
        by (simp add: cond_block_def cond_ok_def cond_len_def cond_test_def)
    next
      case other
      have cd: "code_at code (Suc i) [cmp_ins_of cond, jif_ins fl]" and nx: "nx = Suc (Suc (Suc i))"
        using at ok(2) other by (simp_all add: cond_block_def cond_len_def)
      then have "run pkt code (Suc i) ?v c = (if cond_test cond ?v
          then run pkt code nx ?v (cond_test cond ?v) else Some (Inr False))"
        using run_cmp_ins [OF sc _ _ other, of "Suc i" pkt ?v c]
          run_jif_at [OF sc _ _ fl, of "Suc (Suc i)"] run_fail [OF lab] by simp
      then show ?thesis by blast
    qed
  qed
  then obtain c' where "run pkt code (Suc i) ?v c =
      (if cond_test cond ?v then run pkt code nx ?v c' else Some (Inr False))" by blast
  then show ?thesis unfolding load by (intro exI [of _ ?v] exI [of _ c']) simp
qed

lemma run_cond_blocks:
  assumes "small_code code" "code_at code i (cond_blocks t fl i cs)"
    and "list_all cond_ok cs" "list_all (has_field t) cs"
    and "i + sum_list (map cond_len cs) = sl" "sl < length code" "fl < length code"
    and "opcode (code ! sl) = OP_RETURN_TRUE" "opcode (code ! fl) = OP_RETURN_FALSE"
    and "length pkt < 2 ^ 32" "list_all (\<lambda>c. offset_fits (cond_field t c)) cs"
  shows "run pkt code i a b = Some (Inr (list_all (cond_holds t pkt) cs))"
  using assms
proof (induction cs arbitrary: i a b)
  case Nil
  then show ?case by (simp add: run_return)
next
  case (Cons c cs)
  let ?nx = "i + cond_len c"
  let ?f = "cond_field t c"
  have at: "code_at code i (cond_block ?nx fl i ?f c)" "code_at code ?nx (cond_blocks t fl ?nx cs)"
    using Cons.prems(2,3) by (simp_all add: code_at_append length_cond_block)
  have lab: "labels_ok code ?nx fl" using Cons.prems by (simp add: labels_ok_def)
  have holds: "cond_holds t pkt c \<longleftrightarrow>
      in_window (field_width ?f) pkt (f_offset ?f) \<and> cond_test c (field_value pkt ?f)"
    using Cons.prems(4) by (auto simp: cond_holds_def has_field_def cond_field_def)
  have IH: "run pkt code ?nx a' b' = Some (Inr (list_all (cond_holds t pkt) cs))" for a' b'
    using Cons.prems at(2) by (intro Cons.IH) simp_all
  obtain a' b' where "run pkt code i a b =
      (if in_window (field_width ?f) pkt (f_offset ?f) \<and> cond_test c (field_value pkt ?f)
       then run pkt code ?nx a' b' else Some (Inr False))"
    using run_cond_block [OF lab at(1) _ _ Cons.prems(10), of a b] Cons.prems(3,11) by auto
  then show ?case unfolding holds [symmetric] IH by simp
qed

lemma compiled_code_nth:
  assumes "list_all cond_ok cs"
  shows "compiled_code t cs ! sum_list (map cond_len cs) = zero_ins\<lparr>opcode := OP_RETURN_TRUE\<rparr>"
    and "compiled_code t cs ! Suc (sum_list (map cond_len cs)) = zero_ins\<lparr>opcode := OP_RETURN_FALSE\<rparr>"
  using length_cond_blocks [OF assms, of t "Suc (sum_list (map cond_len cs))" 0]
  by (simp_all add: compiled_code_def Let_def nth_append)

text \<open>The compiled code computes the conjunction of the conditions.\<close>

lemma compiled_code_correct:
  assumes "list_all cond_ok cs" "list_all (has_field t) cs" "small_code (compiled_code t cs)"
    and "list_all (\<lambda>c. offset_fits (cond_field t c)) cs" "length pkt < 2 ^ 32"
  shows "execute_bytecode (Some pkt) (of_nat (length pkt)) (Some (compiled_code t cs))
      (of_nat (length (compiled_code t cs))) = Inr (list_all (cond_holds t pkt) cs)"
proof -
  let ?n = "sum_list (map cond_len cs)"
  have len: "length (compiled_code t cs) = ?n + 2" using assms(1) by (rule length_compiled_code)
  have "code_at (compiled_code t cs) 0 (compiled_code t cs)" by (rule code_at_all)
  then have at: "code_at (compiled_code t cs) 0 (cond_blocks t (Suc ?n) 0 cs)"
    by (subst (asm) (2) compiled_code_def) (simp add: Let_def code_at_append)
  have "run pkt (compiled_code t cs) 0 0 False = Some (Inr (list_all (cond_holds t pkt) cs))"
    using compiled_code_nth [OF assms(1), of t] len
    by (intro run_cond_blocks [where sl = ?n, OF assms(3) at assms(1,2) _ _ _ _ _ assms(5,4)])
      simp_all
  moreover have "compiled_code t cs \<noteq> []" by (simp add: compiled_code_def Let_def)
  ultimately show ?thesis using execute_bytecode_run [OF assms(3)] by simp
qed

section \<open>The swapped program\<close>

text \<open>
  Swapping the byte order of every load is compiling for the struct with the byte order of every
  field flipped.
\<close>

definition flip_endian :: "Endian \<Rightarrow> Endian" where
  "flip_endian e = (case e of ENDIAN_BIG \<Rightarrow> ENDIAN_LITTLE | ENDIAN_LITTLE \<Rightarrow> ENDIAN_BIG)"

definition flip_field :: "Field \<Rightarrow> Field" where
  "flip_field f = f\<lparr>f_endian := flip_endian (f_endian f)\<rparr>"

definition flip_struct :: "StructDef \<Rightarrow> StructDef" where
  "flip_struct s = s\<lparr>s_fields := map flip_field (s_fields s)\<rparr>"

lemma swap_endian_involution: "swap_endian_opcode (swap_endian_opcode op) = op"
  by (cases op) (simp_all add: swap_endian_opcode_def)

lemma swap_load_opcode: "swap_endian_opcode (get_load_opcode f) = get_load_opcode (flip_field f)"
  by (cases "f_type f"; cases "f_endian f")
    (simp_all add: swap_endian_opcode_def get_load_opcode_def flip_field_def flip_endian_def)

lemma swap_code_append [simp]: "swap_code (xs @ ys) = swap_code xs @ swap_code ys"
  by (simp add: swap_code_def)

lemma swap_code_other:
  "load_width (opcode x) = None \<Longrightarrow> swap_code (x # xs) = x # swap_code xs"
  by (cases "opcode x")
    (simp_all add: swap_code_def set_opcode_def swap_endian_opcode_def load_width_def)

lemma swap_code_Nil [simp]: "swap_code [] = []"
  by (simp add: swap_code_def)

lemma swap_in_block [simp]: "swap_code (in_block nx fl i vs) = in_block nx fl i vs"
  by (induction nx fl i vs rule: in_block.induct) (simp_all add: swap_code_other load_width_def)

lemma swap_not_in_block [simp]: "swap_code (not_in_block nx fl i vs) = not_in_block nx fl i vs"
  by (induction nx fl i vs rule: not_in_block.induct) (simp_all add: swap_code_other load_width_def)

lemma cmp_ins_not_load: "load_width (opcode (cmp_ins_of c)) = None"
  by (cases "cond_op c") (simp_all add: cmp_ins_of_def get_cmp_opcode_def load_width_def Let_def)

lemma swap_cond_block:
  "swap_code (cond_block nx fl i f c) = cond_block nx fl i (flip_field f) c"
proof -
  have "swap_code (load_ins_of f # xs) = load_ins_of (flip_field f) # swap_code xs" for xs
    by (simp add: swap_code_def set_opcode_def swap_load_opcode) (simp add: flip_field_def)
  moreover have "load_width OP_JUMP_IF_FALSE = None" by (simp add: load_width_def)
  ultimately show ?thesis by (simp add: cond_block_def swap_code_other cmp_ins_not_load)
qed

lemma find_flip_field:
  "find_field_by_path (flip_struct t) path = map_option flip_field (find_field_by_path t path)"
proof -
  have "find (\<lambda>f. f_name f = path) (map flip_field fs) =
      map_option flip_field (find (\<lambda>f. f_name f = path) fs)" for fs
    by (induction fs) (simp_all add: flip_field_def)
  then show ?thesis by (simp add: find_field_by_path_def flip_struct_def)
qed

lemma cond_field_flip: "has_field t c \<Longrightarrow> cond_field (flip_struct t) c = flip_field (cond_field t c)"
  by (auto simp: cond_field_def has_field_def find_flip_field)

lemma swap_cond_blocks:
  "list_all (has_field t) cs \<Longrightarrow>
     swap_code (cond_blocks t fl i cs) = cond_blocks (flip_struct t) fl i cs"
  by (induction cs arbitrary: i) (simp_all add: swap_cond_block cond_field_flip)

lemma swap_compiled_code:
  "list_all (has_field t) cs \<Longrightarrow> swap_code (compiled_code t cs) = compiled_code (flip_struct t) cs"
  by (simp add: compiled_code_def Let_def swap_cond_blocks swap_code_other load_width_def)

lemma swapped_code_correct:
  assumes "list_all cond_ok cs" "list_all (has_field t) cs" "small_code (compiled_code t cs)"
    and "list_all (\<lambda>c. offset_fits (cond_field t c)) cs" "length pkt < 2 ^ 32"
  shows "execute_bytecode (Some pkt) (of_nat (length pkt)) (Some (swap_code (compiled_code t cs)))
      (of_nat (length (compiled_code t cs))) = Inr (list_all (cond_holds (flip_struct t) pkt) cs)"
proof -
  have len: "length (compiled_code t cs) = length (compiled_code (flip_struct t) cs)"
    using assms(1) by (simp add: length_compiled_code)
  have hf: "list_all (has_field (flip_struct t)) cs"
    using assms(2) by (simp add: list_all_iff has_field_def find_flip_field)
  have fits: "list_all (\<lambda>c. offset_fits (cond_field (flip_struct t) c)) cs"
    using assms(2,4)
    by (auto simp: list_all_iff cond_field_flip offset_fits_def flip_field_def field_width_def)
  have "small_code (compiled_code (flip_struct t) cs)" using assms(3) len by (simp add: small_code_def)
  from compiled_code_correct [OF assms(1) hf this fits assms(5)] show ?thesis
    by (simp add: swap_compiled_code [OF assms(2)] len)
qed

section \<open>Generated jumps go forward\<close>

primrec forward_from :: "nat \<Rightarrow> Instruction list \<Rightarrow> bool" where
  "forward_from i [] \<longleftrightarrow> True"
| "forward_from i (x # xs) \<longleftrightarrow>
     (is_jump (opcode x) \<longrightarrow> i < unat (jump_target x)) \<and> forward_from (Suc i) xs"

lemma forward_from_append [simp]:
  "forward_from i (xs @ ys) \<longleftrightarrow> forward_from i xs \<and> forward_from (i + length xs) ys"
  by (induction xs arbitrary: i) auto

lemma forward_from_nth:
  "forward_from i xs \<Longrightarrow> k < length xs \<Longrightarrow> is_jump (opcode (xs ! k)) \<Longrightarrow> i + k < unat (jump_target (xs ! k))"
proof (induction xs arbitrary: i k)
  case (Cons x xs)
  then show ?case by (cases k) (auto dest: Cons.IH [of "Suc i"])
qed simp

lemma forward_code_from: "forward_from 0 code \<Longrightarrow> forward_code code"
  using forward_from_nth [of 0 code] by (auto simp: forward_code_def list_all_iff)

lemma forward_plain: "\<not> is_jump (opcode x) \<Longrightarrow> forward_from i (x # xs) \<longleftrightarrow> forward_from (Suc i) xs"
  and forward_jif: "t < 2 ^ 32 \<Longrightarrow> forward_from i (jif_ins t # xs) \<longleftrightarrow> i < t \<and> forward_from (Suc i) xs"
  and forward_jmp: "t < 2 ^ 32 \<Longrightarrow> forward_from i (jmp_ins t # xs) \<longleftrightarrow> i < t \<and> forward_from (Suc i) xs"
  by (simp_all add: is_jump_def unat_of_nat_small)

lemma cmp_not_jump:
  "\<not> is_jump (opcode (cmp_eq_ins v))" "\<not> is_jump (opcode (load_ins_of f))"
  "\<not> is_jump (opcode (cmp_ins_of c))"
proof -
  show "\<not> is_jump (opcode (load_ins_of f))"
    using load_width_field [of f] by (auto simp: is_jump_def load_width_def)
  show "\<not> is_jump (opcode (cmp_ins_of c))"
    by (cases "cond_op c") (simp_all add: cmp_ins_of_def get_cmp_opcode_def is_jump_def Let_def)
qed (simp add: is_jump_def)

lemma add3: "Suc (Suc (Suc i)) = i + 3"
  by simp

lemmas forward_steps = forward_plain [OF cmp_not_jump(1)] forward_plain [OF cmp_not_jump(2)]
  forward_plain [OF cmp_not_jump(3)] forward_jif forward_jmp

lemma forward_in_block:
  assumes "i + length (in_block nx fl i vs) \<le> nx" "nx \<le> fl" "fl < 2 ^ 32"
  shows "forward_from i (in_block nx fl i vs)"
  using assms
proof (induction nx fl i vs rule: in_block.induct)
  case (3 nx fl i v w ws)
  then have "i + 3 < 2 ^ 32" "i + 3 + length (in_block nx fl (i + 3) (w # ws)) \<le> nx" by simp_all
  then show ?case using 3 by (simp add: forward_steps add3 del: forward_from.simps(2) of_nat_add)
qed (simp_all add: forward_steps del: forward_from.simps(2))

lemma forward_not_in_block:
  assumes "i + length (not_in_block nx fl i vs) \<le> nx" "nx \<le> fl" "fl < 2 ^ 32"
  shows "forward_from i (not_in_block nx fl i vs)"
  using assms
proof (induction nx fl i vs rule: not_in_block.induct)
  case (2 nx fl i v vs)
  then have "i + 3 < 2 ^ 32" "i + 3 + length (not_in_block nx fl (i + 3) vs) \<le> nx" by simp_all
  then show ?case using 2 by (simp add: forward_steps add3 del: forward_from.simps(2) of_nat_add)
qed simp

lemma forward_cond_block:
  assumes "cond_ok c" "i + cond_len c \<le> nx" "nx \<le> fl" "fl < 2 ^ 32"
  shows "forward_from i (cond_block nx fl i f c)"
  using assms length_cond_block [OF assms(1), of nx fl i f]
  by (auto simp: cond_block_def forward_steps simp del: forward_from.simps(2)
      intro!: forward_in_block forward_not_in_block)

lemma forward_cond_blocks:
  assumes "list_all cond_ok cs" "i + sum_list (map cond_len cs) \<le> fl" "fl < 2 ^ 32"
  shows "forward_from i (cond_blocks t fl i cs)"
  using assms by (induction cs arbitrary: i) (auto intro!: forward_cond_block simp: length_cond_block ac_simps)

lemma compiled_code_forward:
  assumes "list_all cond_ok cs" "small_code (compiled_code t cs)"
  shows "forward_code (compiled_code t cs)"
proof -
  have "Suc (sum_list (map cond_len cs)) < 2 ^ 32"
    using assms by (simp add: small_code_def length_compiled_code)
  then have "forward_from 0 (cond_blocks t (Suc (sum_list (map cond_len cs))) 0 cs)"
    using assms(1) by (intro forward_cond_blocks) simp_all
  then show ?thesis
    by (intro forward_code_from) (simp add: compiled_code_def Let_def is_jump_def)
qed

section \<open>Properties\<close>

lemma cond_field_mem:
  assumes "has_field t c"
  shows "cond_field t c \<in> set (s_fields t)"
proof -
  obtain f where f: "find (\<lambda>f. f_name f = cond_field_name c) (s_fields t) = Some f"
    using assms unfolding has_field_def find_field_by_path_def by blast
  then have "f \<in> set (s_fields t)" by (auto simp: find_Some_iff)
  then show ?thesis using f by (simp add: cond_field_def find_field_by_path_def)
qed

lemma compiled_rule_code:
  assumes "compile_rule ss r = Inr fr" "target_struct ss r = Some t"
    and "sum_list (map cond_len (tr_conditions r)) + 2 < 2 ^ 32" "list_all offset_fits (s_fields t)"
  shows "r_bytecode fr = Some (compiled_code t (tr_conditions r)) \<and>
    r_bytecode_len fr = of_nat (length (compiled_code t (tr_conditions r))) \<and>
    r_bytecode_le fr = Some (swap_code (compiled_code t (tr_conditions r))) \<and>
    r_bytecode_le_len fr = of_nat (length (compiled_code t (tr_conditions r))) \<and>
    list_all cond_ok (tr_conditions r) \<and> list_all (has_field t) (tr_conditions r) \<and>
    small_code (compiled_code t (tr_conditions r)) \<and>
    list_all (\<lambda>c. offset_fits (cond_field t c)) (tr_conditions r)"
proof -
  have "list_all (has_field t) cs \<Longrightarrow> list_all (\<lambda>c. offset_fits (cond_field t c)) cs" for cs
    using assms(4) by (auto simp: list_all_iff cond_field_mem)
  then show ?thesis using compiled_layout [OF assms(1)] assms(2,3)
    by (auto simp: Let_def small_code_def length_compiled_code)
qed

text \<open>
  C2. Correctness of the rule compiler.  The program a rule compiles to decides exactly the
  conjunction of the conditions of the rule: it returns true when every field lies inside the packet
  and passes its comparison, mask, \<open>in\<close> or \<open>not in\<close> test, and false otherwise, without a fault.
\<close>

theorem compiled_rule_decides:
  assumes "compile_rule ss r = Inr fr" "target_struct ss r = Some t" "length pkt < 2 ^ 32"
    and "sum_list (map cond_len (tr_conditions r)) + 2 < 2 ^ 32" "list_all offset_fits (s_fields t)"
  shows "execute_bytecode (Some pkt) (of_nat (length pkt)) (r_bytecode fr) (r_bytecode_len fr) =
    Inr (list_all (cond_holds t pkt) (tr_conditions r))"
  using compiled_rule_code [OF assms(1,2,4,5)] compiled_code_correct [OF _ _ _ _ assms(3)] by simp

text \<open>
  C5. The second program of a rule.  \<open>bytecode_le\<close> decides the same conditions on the struct with
  the byte order of every field flipped.
\<close>

theorem swapped_rule_decides:
  assumes "compile_rule ss r = Inr fr" "target_struct ss r = Some t" "length pkt < 2 ^ 32"
    and "sum_list (map cond_len (tr_conditions r)) + 2 < 2 ^ 32" "list_all offset_fits (s_fields t)"
  shows "execute_bytecode (Some pkt) (of_nat (length pkt)) (r_bytecode_le fr) (r_bytecode_le_len fr) =
    Inr (list_all (cond_holds (flip_struct t) pkt) (tr_conditions r))"
  using compiled_rule_code [OF assms(1,2,4,5)] swapped_code_correct [OF _ _ _ _ assms(3)] by simp

definition sample_struct :: StructDef where
  "sample_struct = (struct_of ''S''
     [plain_field ''kind'' FIELD_TYPE_UINT8 1, (plain_field ''len'' FIELD_TYPE_UINT16 2)\<lparr>f_offset := 1\<rparr>])
     \<lparr>s_min_size := 3\<rparr>"

definition sample_rule :: TempFilterRule where
  "sample_rule =
     \<lparr>tr_name = ''f'', tr_struct_name = [],
      tr_conditions =
        [\<lparr>cond_field_name = ''kind'', cond_op = COND_IN, cond_value = 0, cond_mask = 0, cond_values = [3, 5]\<rparr>,
         \<lparr>cond_field_name = ''len'', cond_op = COND_GE, cond_value = 256, cond_mask = 0, cond_values = []\<rparr>],
      tr_sliding_window = False, tr_sliding_max_offset = 0\<rparr>"

lemmas compile_eval = compile_rule_def target_struct_def find_field_by_path_def cond_size_def
  emit_cond_def emit_def zero_ins_def get_load_opcode_def cmp_ins_of_def get_cmp_opcode_def
  set_opcode_def swap_code_def swap_endian_opcode_def strncpy_z_def Let_def

definition sample_filter :: FilterRule where
  "sample_filter = (case compile_rule [sample_struct] sample_rule of Inr fr \<Rightarrow> fr | Inl _ \<Rightarrow> undefined)"

lemma sample_compiles: "compile_rule [sample_struct] sample_rule = Inr sample_filter"
  unfolding sample_filter_def
  by (simp add: compile_eval sample_rule_def sample_struct_def struct_of_def plain_field_def numeral_eq_Suc
      cong: if_weak_cong)

lemma sample_rule_ok:
  "target_struct [sample_struct] sample_rule = Some sample_struct"
  "sum_list (map cond_len (tr_conditions sample_rule)) + 2 < 2 ^ 32"
  "list_all offset_fits (s_fields sample_struct)"
  by (simp_all add: target_struct_def find_field_by_path_def sample_rule_def sample_struct_def struct_of_def
      plain_field_def cond_len_def offset_fits_def field_width_def)

lemmas holds_eval = cond_holds_def find_field_by_path_def in_window_def field_width_def cond_test_def
  field_value_def window_def be_value_def signed_field_def flip_struct_def flip_field_def
  flip_endian_def take_Cons' drop_Cons' Let_def

lemma sample_holds:
  "list_all (cond_holds sample_struct [5, 1, 44]) (tr_conditions sample_rule)"
  "list_all (cond_holds (flip_struct sample_struct) [5, 44, 1]) (tr_conditions sample_rule)"
  by (simp_all add: sample_rule_def sample_struct_def struct_of_def plain_field_def holds_eval)

theorem compiled_rule_decides_witness:
  "execute_bytecode (Some [5, 1, 44]) (of_nat (length [5, 1, 44 :: u8])) (r_bytecode sample_filter)
     (r_bytecode_len sample_filter) = Inr True"
  using compiled_rule_decides [OF sample_compiles sample_rule_ok(1) _ sample_rule_ok(2,3), of "[5, 1, 44]"]
    sample_holds(1) by simp

theorem swapped_rule_decides_witness:
  "execute_bytecode (Some [5, 44, 1]) (of_nat (length [5, 44, 1 :: u8])) (r_bytecode_le sample_filter)
     (r_bytecode_le_len sample_filter) = Inr True"
  using swapped_rule_decides [OF sample_compiles sample_rule_ok(1) _ sample_rule_ok(2,3), of "[5, 44, 1]"]
    sample_holds(2) by simp

text \<open>
  Compiled programs terminate.  Every jump the compiler emits goes forward, so the loop of the
  machine returns on both programs of a rule, for every packet and every packet length, also where
  a field offset wraps around.
\<close>

theorem compiled_rule_terminates:
  assumes "compile_rule ss r = Inr fr" "sum_list (map cond_len (tr_conditions r)) + 2 < 2 ^ 32"
  shows "\<exists>code code_le res res_le. r_bytecode fr = Some code \<and> r_bytecode_le fr = Some code_le \<and>
    exec_loop pkt plen code (r_bytecode_len fr) vm_init = Some res \<and>
    exec_loop pkt plen code_le (r_bytecode_le_len fr) vm_init = Some res_le"
proof -
  obtain t where t: "list_all cond_ok (tr_conditions r)" "list_all (has_field t) (tr_conditions r)"
    and fr: "r_bytecode fr = Some (compiled_code t (tr_conditions r))"
      "r_bytecode_le fr = Some (compiled_code (flip_struct t) (tr_conditions r))"
      "r_bytecode_len fr = of_nat (length (compiled_code t (tr_conditions r)))"
      "r_bytecode_le_len fr = of_nat (length (compiled_code t (tr_conditions r)))"
    using compiled_layout [OF assms(1)] by (auto simp: Let_def swap_compiled_code)
  have returns: "\<exists>res. exec_loop pkt plen (compiled_code u (tr_conditions r))
      (of_nat (length (compiled_code t (tr_conditions r)))) vm_init = Some res" for u
  proof -
    have len: "length (compiled_code u (tr_conditions r)) = length (compiled_code t (tr_conditions r))"
      and small: "small_code (compiled_code u (tr_conditions r))"
      using assms(2) t(1) by (simp_all add: small_code_def length_compiled_code)
    show ?thesis
      by (rule exec_loop_forward_returns [OF compiled_code_forward [OF t(1) small]])
        (use small len in \<open>simp add: unat_of_nat_small small_code_def\<close>)
  qed
  show ?thesis unfolding fr using returns [of t] returns [of "flip_struct t"] by auto
qed

theorem compiled_rule_terminates_witness:
  "\<exists>code res. r_bytecode sample_filter = Some code \<and>
     exec_loop [1] 9 code (r_bytecode_len sample_filter) vm_init = Some res"
  using compiled_rule_terminates [OF sample_compiles sample_rule_ok(2), of "[1]" 9] by blast

end
