(* ===== verification/Protocol.thy ===== *)
theory Protocol
  imports Filter_Compiler
begin

text \<open>
  Matching a packet against the rules of a protocol: \<open>src/src/runtime/protocol.c\<close>.  The protocol
  is shared between threads; the only field a match writes is \<open>detected_endian\<close>, by a
  compare-and-swap, so a match returns the protocol it leaves behind.  The line printed to
  \<open>stderr\<close> on detection and the two functions that print a protocol are not modelled;
  \<open>protocol_free\<close> has no counterpart, the model has no heap of protocols.
\<close>

section \<open>Byte order detection\<close>

text \<open>\<open>__sync_val_compare_and_swap (&detected_endian, ENDIAN_TYPE_UNKNOWN, e)\<close>.\<close>

definition cas_detected :: "EndianType \<Rightarrow> ProtocolDef \<Rightarrow> ProtocolDef" where
  "cas_detected e p =
     (if detected_endian p = ENDIAN_TYPE_UNKNOWN then p\<lparr>detected_endian := e\<rparr> else p)"

type_synonym match_result = "fault + bool \<times> ProtocolDef"

definition pure_match :: "ProtocolDef \<Rightarrow> fault + bool \<Rightarrow> match_result" where
  "pure_match p r = try_then r (\<lambda>b. Inr (b, p))"

definition try_match_with_endian ::
  "u8 list option \<Rightarrow> u32 \<Rightarrow> FilterRule \<Rightarrow> ProtocolDef \<Rightarrow> match_result" where
  "try_match_with_endian packet packet_len rule p =
    (if packet = None then Inr (False, p) else
     let code_be = (if r_bytecode_be rule \<noteq> None then r_bytecode_be rule else r_bytecode rule);
         len_be = (if r_bytecode_be_len rule \<noteq> 0 then r_bytecode_be_len rule else r_bytecode_len rule);
         code_le = (if r_bytecode_le rule \<noteq> None then r_bytecode_le rule else r_bytecode rule);
         len_le = (if r_bytecode_le_len rule \<noteq> 0 then r_bytecode_le_len rule else r_bytecode_len rule);
         run_be = execute_bytecode packet packet_len code_be len_be;
         run_le = execute_bytecode packet packet_len code_le len_le
     in case endian_mode p of
          ENDIAN_MODE_BIG \<Rightarrow> pure_match p run_be
        | ENDIAN_MODE_LITTLE \<Rightarrow> pure_match p run_le
        | ENDIAN_MODE_AUTO \<Rightarrow>
            if detected_endian p = ENDIAN_TYPE_BIG then pure_match p run_be
            else if detected_endian p = ENDIAN_TYPE_LITTLE then pure_match p run_le
            else try_then run_be (\<lambda>be.
                   if be then Inr (True, cas_detected ENDIAN_TYPE_BIG p)
                   else try_then run_le (\<lambda>le.
                     if le then Inr (True, cas_detected ENDIAN_TYPE_LITTLE p)
                     else Inr (False, p))))"

section \<open>Matching a packet\<close>

text \<open>The \<open>for\<close> loop over the offsets of a sliding rule; \<open>packet + offset\<close> drops bytes.\<close>

function scan_offsets ::
  "u8 list \<Rightarrow> u32 \<Rightarrow> FilterRule \<Rightarrow> u32 \<Rightarrow> u32 \<Rightarrow> ProtocolDef \<Rightarrow> match_result" where
  "scan_offsets pkt packet_len rule search_limit offset p =
     (if offset < search_limit
      then let rem = packet_len - offset in
           if rem < r_min_packet_size rule then Inr (False, p)
           else try_then (try_match_with_endian (Some (drop (unat offset) pkt)) rem rule p)
                  (\<lambda>(found, p1). if found then Inr (True, p1)
                     else scan_offsets pkt packet_len rule search_limit (offset + 1) p1)
      else Inr (False, p))"
  by pat_completeness auto
termination
  by (relation "measure (\<lambda>(_, _, _, limit, off, _). unat limit - unat off)")
    (auto simp: unat_Suc_word word_less_nat_alt)

declare scan_offsets.simps [simp del]

definition search_limit :: "FilterRule \<Rightarrow> u32 \<Rightarrow> u32" where
  "search_limit rule packet_len =
     (if r_sliding_max_offset rule > 0 \<and> r_sliding_max_offset rule < packet_len
      then r_sliding_max_offset rule else packet_len)"

definition match_rule :: "u8 list \<Rightarrow> u32 \<Rightarrow> FilterRule \<Rightarrow> ProtocolDef \<Rightarrow> match_result" where
  "match_rule pkt packet_len rule p =
     (if r_sliding_window rule
      then scan_offsets pkt packet_len rule (search_limit rule packet_len) 0 p
      else try_match_with_endian (Some pkt) packet_len rule p)"

primrec match_rules :: "u8 list \<Rightarrow> u32 \<Rightarrow> FilterRule list \<Rightarrow> ProtocolDef \<Rightarrow> match_result" where
  "match_rules pkt packet_len [] p = Inr (False, p)"
| "match_rules pkt packet_len (rule # rules) p =
     try_then (match_rule pkt packet_len rule p) (\<lambda>(found, p1).
       if found then Inr (True, p1) else match_rules pkt packet_len rules p1)"

text \<open>The port is an argument of the code too, which ignores it.\<close>

definition packet_filter_match :: "u8 list option \<Rightarrow> u32 \<Rightarrow> u16 \<Rightarrow> ProtocolDef \<Rightarrow> match_result" where
  "packet_filter_match packet packet_len port p =
     (case packet of
        None \<Rightarrow> Inr (False, p)
      | Some pkt \<Rightarrow> match_rules pkt packet_len (filters p) p)"

section \<open>Detection is final\<close>

text \<open>
  How a match may change the protocol: not at all, or by setting an unknown byte order, and then
  only together with a match.
\<close>

definition detects :: "ProtocolDef \<Rightarrow> bool \<times> ProtocolDef \<Rightarrow> bool" where
  "detects p r \<longleftrightarrow> (case r of (found, p') \<Rightarrow>
     p' = p \<or> (found \<and> endian_mode p = ENDIAN_MODE_AUTO \<and> detected_endian p = ENDIAN_TYPE_UNKNOWN \<and>
       (\<exists>e. e \<noteq> ENDIAN_TYPE_UNKNOWN \<and> p' = p\<lparr>detected_endian := e\<rparr>)))"

lemma detects_refl [simp]: "detects p (b, p)"
  by (simp add: detects_def)

lemma detects_False: "detects p (False, p') \<Longrightarrow> p' = p"
  by (simp add: detects_def)

lemma try_match_detects:
  assumes "try_match_with_endian packet plen rule p = Inr r"
  shows "detects p r"
proof -
  have auto: "detects p (True, cas_detected e p)"
    if "endian_mode p = ENDIAN_MODE_AUTO" "e \<noteq> ENDIAN_TYPE_UNKNOWN" for e
    using that by (auto simp: detects_def cas_detected_def)
  show ?thesis using assms auto
    by (auto simp: try_match_with_endian_def pure_match_def Let_def try_then_Inr_iff
        split: EndianMode.splits if_splits)
qed

lemma scan_offsets_detects:
  "scan_offsets pkt plen rule limit off p = Inr r \<Longrightarrow> detects p r"
proof (induction pkt plen rule limit off p rule: scan_offsets.induct)
  case (1 pkt plen rule limit off p)
  show ?case
  proof (cases "off < limit \<and> \<not> plen - off < r_min_packet_size rule")
    case False
    then show ?thesis using "1.prems" by (auto simp: scan_offsets.simps [of pkt] split: if_splits)
  next
    case True
    then obtain found p1 where t: "try_match_with_endian (Some (drop (unat off) pkt)) (plen - off) rule p
        = Inr (found, p1)" and
      r: "r = (True, p1) \<and> found \<or> scan_offsets pkt plen rule limit (off + 1) p1 = Inr r \<and> \<not> found"
      using "1.prems" by (auto simp: scan_offsets.simps [of pkt _ _ _ off] Let_def try_then_Inr_iff split: if_splits)
    have d: "detects p (found, p1)" using try_match_detects [OF t] .
    show ?thesis
    proof (cases found)
      case True
      then show ?thesis using r d by simp
    next
      case False
      then have "p1 = p" using d detects_False by simp
      then show ?thesis using "1.IH" [OF _ refl _ t refl False] \<open>off < limit \<and> _\<close> r False by simp
    qed
  qed
qed

lemma match_rules_detects: "match_rules pkt plen rules p = Inr r \<Longrightarrow> detects p r"
proof (induction rules)
  case (Cons rule rules)
  then obtain found p1 where m: "match_rule pkt plen rule p = Inr (found, p1)"
    and r: "(if found then Inr (True, p1) else match_rules pkt plen rules p1) = Inr r"
    by (auto simp: try_then_Inr_iff)
  have "detects p (found, p1)"
    using m by (auto simp: match_rule_def split: if_splits intro: scan_offsets_detects try_match_detects)
  then show ?case using r Cons.IH by (cases found) (auto dest: detects_False)
qed auto

section \<open>The verdict on compiled rules\<close>

text \<open>
  The contract between a compiled rule and the matcher: on every packet, running the code of the
  rule gives the verdict of the rule.
\<close>

locale rule_code =
  fixes code :: "'r \<Rightarrow> Instruction list" and ok :: "'r \<Rightarrow> bool" and holds :: "'r \<Rightarrow> u8 list \<Rightarrow> bool"
  assumes runs: "ok r \<Longrightarrow> length pkt < 2 ^ 32 \<Longrightarrow>
      execute_bytecode (Some pkt) (of_nat (length pkt)) (Some (code r)) (of_nat (length (code r))) =
        Inr (holds r pkt)"
    and nonempty: "ok r \<Longrightarrow> code r \<noteq> []"
    and short: "ok r \<Longrightarrow> length (code r) < 2 ^ 32"
begin

lemma len_nonzero: "ok r \<Longrightarrow> (of_nat (length (code r)) :: u32) \<noteq> 0"
  using nonempty [of r] short [of r] unat_of_nat_small [of "length (code r)", where ?'a = 32] by auto

lemma pure_verdict:
  "ok r \<Longrightarrow> length pkt < 2 ^ 32 \<Longrightarrow>
     pure_match p (execute_bytecode (Some pkt) (of_nat (length pkt)) (Some (code r))
       (of_nat (length (code r)))) = Inr (holds r pkt, p)"
  by (simp add: pure_match_def runs)

text \<open>The verdict does not depend on what stands before the window the packet pointer moved to.\<close>

lemma suffix_runs:
  assumes "ok r" "length pkt < 2 ^ 32" "unat off \<le> length pkt"
  shows "execute_bytecode (Some (drop (unat off) pkt)) (of_nat (length pkt) - off) (Some (code r))
    (of_nat (length (code r))) = Inr (holds r (drop (unat off) pkt))"
proof -
  have "(of_nat (length pkt) - off :: u32) = of_nat (length (drop (unat off) pkt))"
    using assms(3) by (simp add: of_nat_diff)
  then show ?thesis using runs [OF assms(1), of "drop (unat off) pkt"] assms(2) by simp
qed

end

type_synonym rule_source = "StructDef \<times> FilterCondition list"

definition rule_ok :: "rule_source \<Rightarrow> bool" where
  "rule_ok r = (case r of (t, cs) \<Rightarrow> list_all cond_ok cs \<and> list_all (has_field t) cs \<and>
     small_code (compiled_code t cs) \<and> list_all (\<lambda>c. offset_fits (cond_field t c)) cs)"

definition be_code :: "rule_source \<Rightarrow> Instruction list" where
  "be_code r = (case r of (t, cs) \<Rightarrow> compiled_code t cs)"

definition le_code :: "rule_source \<Rightarrow> Instruction list" where
  "le_code r = swap_code (be_code r)"

definition be_holds :: "rule_source \<Rightarrow> u8 list \<Rightarrow> bool" where
  "be_holds r pkt = (case r of (t, cs) \<Rightarrow> list_all (cond_holds t pkt) cs)"

definition le_holds :: "rule_source \<Rightarrow> u8 list \<Rightarrow> bool" where
  "le_holds r pkt = (case r of (t, cs) \<Rightarrow> list_all (cond_holds (flip_struct t) pkt) cs)"

lemma length_le_code [simp]: "length (le_code r) = length (be_code r)"
  by (simp add: le_code_def swap_code_def)

lemma rule_ok_code: "rule_ok r \<Longrightarrow> be_code r \<noteq> [] \<and> length (be_code r) < 2 ^ 32"
  by (auto simp: rule_ok_def be_code_def small_code_def compiled_code_def Let_def split: prod.splits)

interpretation be: rule_code be_code rule_ok be_holds
proof
  fix r pkt assume "rule_ok r" "length (pkt :: u8 list) < 2 ^ 32"
  then show "execute_bytecode (Some pkt) (of_nat (length pkt)) (Some (be_code r))
      (of_nat (length (be_code r))) = Inr (be_holds r pkt)"
    by (auto simp: rule_ok_def be_code_def be_holds_def compiled_code_correct split: prod.splits)
qed (use rule_ok_code in blast)+

interpretation le: rule_code le_code rule_ok le_holds
proof
  fix r pkt assume "rule_ok r" "length (pkt :: u8 list) < 2 ^ 32"
  then show "execute_bytecode (Some pkt) (of_nat (length pkt)) (Some (le_code r))
      (of_nat (length (le_code r))) = Inr (le_holds r pkt)"
    unfolding length_le_code
    by (auto simp: rule_ok_def le_code_def be_code_def le_holds_def swapped_code_correct split: prod.splits)
next
  fix r assume "rule_ok r"
  then show "le_code r \<noteq> []" using rule_ok_code by (auto simp: le_code_def swap_code_def)
  show "length (le_code r) < 2 ^ 32" unfolding length_le_code using rule_ok_code \<open>rule_ok r\<close> by blast
qed

text \<open>
  What the code of a rule answers under the byte order mode of the protocol: the first program, the swapped
  one, or either.  What the mode asks for is another matter, see \<open>Pdef_Verdict\<close>.
\<close>

definition rule_test :: "ProtocolDef \<Rightarrow> rule_source \<Rightarrow> u8 list \<Rightarrow> bool" where
  "rule_test p r pkt =
     (case endian_mode p of
        ENDIAN_MODE_BIG \<Rightarrow> be_holds r pkt
      | ENDIAN_MODE_LITTLE \<Rightarrow> le_holds r pkt
      | ENDIAN_MODE_AUTO \<Rightarrow>
          (case detected_endian p of
             ENDIAN_TYPE_BIG \<Rightarrow> be_holds r pkt
           | ENDIAN_TYPE_LITTLE \<Rightarrow> le_holds r pkt
           | ENDIAN_TYPE_UNKNOWN \<Rightarrow> be_holds r pkt \<or> le_holds r pkt))"

text \<open>A rule of the protocol as the compiler makes it from its source.\<close>

definition holds_code :: "FilterRule \<Rightarrow> rule_source \<Rightarrow> bool" where
  "holds_code fr r \<longleftrightarrow>
     r_bytecode_be fr = Some (be_code r) \<and> r_bytecode_be_len fr = of_nat (length (be_code r)) \<and>
     r_bytecode_le fr = Some (le_code r) \<and> r_bytecode_le_len fr = of_nat (length (le_code r))"

lemma try_match_verdict:
  assumes "holds_code fr r" "rule_ok r" "length pkt < 2 ^ 32" "unat off \<le> length pkt"
  shows "\<exists>p'. try_match_with_endian (Some (drop (unat off) pkt)) (of_nat (length pkt) - off) fr p =
    Inr (rule_test p r (drop (unat off) pkt), p')"
proof -
  note runs = be.suffix_runs [OF assms(2-4)] le.suffix_runs [OF assms(2-4)]
    be.len_nonzero [OF assms(2)] le.len_nonzero [OF assms(2)]
  show ?thesis using assms(1) runs
    by (cases "endian_mode p"; cases "detected_endian p")
      (auto simp: try_match_with_endian_def holds_code_def Let_def rule_test_def pure_match_def)
qed

lemma scan_verdict:
  assumes "holds_code fr r" "rule_ok r" "length pkt < 2 ^ 32" "unat limit \<le> length pkt"
  shows "\<exists>p'. scan_offsets pkt (of_nat (length pkt)) fr limit off p =
    Inr (\<exists>k. unat off \<le> k \<and> k < unat limit \<and> unat (r_min_packet_size fr) \<le> length pkt - k \<and>
           rule_test p r (drop k pkt), p')"
proof (induction "unat limit - unat off" arbitrary: off rule: less_induct)
  case less
  note simps = scan_offsets.simps [of pkt "of_nat (length pkt)" fr limit off p]
  show ?case
  proof (cases "off < limit")
    case False
    then show ?thesis by (auto simp: simps word_less_nat_alt)
  next
    case True
    then have lt: "unat off < unat limit" by (simp add: word_less_nat_alt)
    then have off: "unat off \<le> length pkt" using assms(4) by simp
    have "unat (of_nat (length pkt) :: u32) = length pkt" using assms(3) by (intro unat_of_nat_small) simp
    then have rem: "unat (of_nat (length pkt) - off) = length pkt - unat off"
      using off by (simp add: unat_sub word_le_nat_alt)
    show ?thesis
    proof (cases "of_nat (length pkt) - off < r_min_packet_size fr")
      case small: True
      then have "\<not> unat (r_min_packet_size fr) \<le> length pkt - k" if "unat off \<le> k" for k
        using that rem by (simp add: word_less_nat_alt)
      then show ?thesis using True small by (auto simp: simps)
    next
      case big: False
      then have fits: "unat (r_min_packet_size fr) \<le> length pkt - unat off"
        using rem by (simp add: word_less_nat_alt)
      obtain p1 where t: "try_match_with_endian (Some (drop (unat off) pkt)) (of_nat (length pkt) - off)
          fr p = Inr (rule_test p r (drop (unat off) pkt), p1)"
        using try_match_verdict [OF assms(1-3) off] by blast
      show ?thesis
      proof (cases "rule_test p r (drop (unat off) pkt)")
        case hit: True
        then show ?thesis using True big t fits lt by (auto simp: simps Let_def)
      next
        case miss: False
        then have "p1 = p" using try_match_detects [OF t] detects_False by simp
        have next_off: "unat (off + 1) = Suc (unat off)" using True by (rule unat_Suc_word)
        then have "unat limit - unat (off + 1) < unat limit - unat off" using lt by simp
        from less [OF this] obtain p' where
          "scan_offsets pkt (of_nat (length pkt)) fr limit (off + 1) p =
            Inr (\<exists>k. Suc (unat off) \<le> k \<and> k < unat limit \<and>
              unat (r_min_packet_size fr) \<le> length pkt - k \<and> rule_test p r (drop k pkt), p')"
          unfolding next_off by blast
        moreover have "(\<exists>k. Suc (unat off) \<le> k \<and> P k) = (\<exists>k. unat off \<le> k \<and> P k)"
          if "\<not> P (unat off)" for P using that by (metis Suc_leD le_antisym not_less_eq_eq)
        ultimately show ?thesis using True big t miss \<open>p1 = p\<close> by (simp add: simps Let_def)
      qed
    qed
  qed
qed

section \<open>The verdict on a protocol\<close>

text \<open>
  What a rule of the source asks of a packet: its conditions hold at the start of the packet, or,
  for a sliding rule, at some offset below the limit that leaves room for the struct.
\<close>

definition window_limit :: "TempFilterRule \<Rightarrow> u8 list \<Rightarrow> nat" where
  "window_limit r pkt =
     (let m = unat (tr_sliding_max_offset r) in if 0 < m \<and> m < length pkt then m else length pkt)"

definition rule_matches :: "StructDef list \<Rightarrow> ProtocolDef \<Rightarrow> TempFilterRule \<Rightarrow> u8 list \<Rightarrow> bool" where
  "rule_matches ss p r pkt =
     (case target_struct ss r of
        None \<Rightarrow> False
      | Some t \<Rightarrow>
          if tr_sliding_window r
          then list_ex (\<lambda>k. unat (s_min_size t) \<le> length pkt - k \<and>
                  rule_test p (t, tr_conditions r) (drop k pkt)) [0..<window_limit r pkt]
          else rule_test p (t, tr_conditions r) pkt)"

definition source_ok :: "StructDef list \<Rightarrow> TempFilterRule \<Rightarrow> bool" where
  "source_ok ss r =
     (case target_struct ss r of None \<Rightarrow> False | Some t \<Rightarrow> rule_ok (t, tr_conditions r))"

lemma compile_rule_holds_code:
  assumes "compile_rule ss r = Inr fr"
  obtains t where "target_struct ss r = Some t" "holds_code fr (t, tr_conditions r)"
    "r_min_packet_size fr = s_min_size t" "r_sliding_window fr = tr_sliding_window r"
    "r_sliding_max_offset fr = tr_sliding_max_offset r"
  using compiled_layout [OF assms]
  by (auto simp: holds_code_def be_code_def le_code_def swap_code_def Let_def)

lemma unat_search_limit:
  assumes "length pkt < 2 ^ 32" "r_sliding_max_offset fr = tr_sliding_max_offset r"
  shows "unat (search_limit fr (of_nat (length pkt))) = window_limit r pkt"
proof -
  have "unat (of_nat (length pkt) :: u32) = length pkt" using assms(1) by (intro unat_of_nat_small) simp
  then show ?thesis using assms(2)
    by (auto simp: search_limit_def window_limit_def Let_def word_less_nat_alt)
qed

lemma match_rule_verdict:
  assumes "compile_rule ss r = Inr fr" "source_ok ss r" "length pkt < 2 ^ 32"
  shows "\<exists>p'. match_rule pkt (of_nat (length pkt)) fr p = Inr (rule_matches ss p r pkt, p')"
proof -
  obtain t where t: "target_struct ss r = Some t" "holds_code fr (t, tr_conditions r)"
    and fr: "r_min_packet_size fr = s_min_size t" "r_sliding_window fr = tr_sliding_window r"
      "r_sliding_max_offset fr = tr_sliding_max_offset r"
    by (rule compile_rule_holds_code [OF assms(1)])
  have ok: "rule_ok (t, tr_conditions r)" using assms(2) t(1) by (simp add: source_ok_def)
  note limit = unat_search_limit [OF assms(3) fr(3)]
  show ?thesis
  proof (cases "tr_sliding_window r")
    case True
    have "window_limit r pkt \<le> length pkt" by (simp add: window_limit_def Let_def)
    then obtain p' where "scan_offsets pkt (of_nat (length pkt)) fr (search_limit fr (of_nat (length pkt))) 0 p =
        Inr (\<exists>k. unat (0 :: u32) \<le> k \<and> k < window_limit r pkt \<and>
           unat (r_min_packet_size fr) \<le> length pkt - k \<and> rule_test p (t, tr_conditions r) (drop k pkt), p')"
      using scan_verdict [OF t(2) ok assms(3), of "search_limit fr (of_nat (length pkt))" 0 p]
      unfolding limit by blast
    moreover have "(\<exists>k. unat (0 :: u32) \<le> k \<and> k < window_limit r pkt \<and>
           unat (r_min_packet_size fr) \<le> length pkt - k \<and> rule_test p (t, tr_conditions r) (drop k pkt)) =
        rule_matches ss p r pkt"
      using True t(1) fr(1) by (auto simp: rule_matches_def list_ex_iff)
    ultimately show ?thesis using True fr(2) by (auto simp: match_rule_def)
  next
    case False
    then show ?thesis
      using try_match_verdict [OF t(2) ok assms(3), of 0 p] t(1) fr(2)
      by (simp add: match_rule_def rule_matches_def)
  qed
qed

lemma match_rules_verdict:
  assumes "compile_filter_rules ss rs = Inr frs" "list_all (source_ok ss) rs" "length pkt < 2 ^ 32"
  shows "\<exists>p'. match_rules pkt (of_nat (length pkt)) frs p =
    Inr (list_ex (\<lambda>r. rule_matches ss p r pkt) rs, p')"
  using assms(1,2)
proof (induction rs arbitrary: frs)
  case (Cons r rs)
  then obtain fr frs' where c: "compile_rule ss r = Inr fr" "compile_filter_rules ss rs = Inr frs'"
    and frs: "frs = fr # frs'"
    by (auto simp: try_then_Inr_iff)
  obtain p1 where m: "match_rule pkt (of_nat (length pkt)) fr p = Inr (rule_matches ss p r pkt, p1)"
    using match_rule_verdict [OF c(1) _ assms(3)] Cons.prems(2) by auto
  show ?case
  proof (cases "rule_matches ss p r pkt")
    case True
    then show ?thesis using m frs by simp
  next
    case False
    then have "detects p (False, p1)"
      using m by (auto simp: match_rule_def split: if_splits intro: scan_offsets_detects try_match_detects)
    then have "p1 = p" by (rule detects_False)
    then show ?thesis using Cons.IH [OF c(2)] Cons.prems(2) m frs False by simp
  qed
qed simp

text \<open>Detection over a run of packets: once known, the byte order never changes.\<close>

fun match_all :: "ProtocolDef \<Rightarrow> u8 list list \<Rightarrow> fault + ProtocolDef" where
  "match_all p [] = Inr p"
| "match_all p (pkt # pkts) =
     try_then (packet_filter_match (Some pkt) (of_nat (length pkt)) 0 p) (\<lambda>(_, p1). match_all p1 pkts)"

lemma packet_filter_match_detects:
  "packet_filter_match packet plen port p = Inr r \<Longrightarrow> detects p r"
  by (auto simp: packet_filter_match_def split: option.splits dest: match_rules_detects)

lemma match_all_known:
  assumes "match_all p pkts = Inr p'" "detected_endian p \<noteq> ENDIAN_TYPE_UNKNOWN"
  shows "p' = p"
  using assms
proof (induction pkts arbitrary: p)
  case (Cons pkt pkts)
  then obtain b p1 where "packet_filter_match (Some pkt) (of_nat (length pkt)) 0 p = Inr (b, p1)"
    and r: "match_all p1 pkts = Inr p'"
    by (auto simp: try_then_Inr_iff)
  from packet_filter_match_detects [OF this(1)] Cons.prems(2) have "p1 = p" by (auto simp: detects_def)
  then show ?case using Cons r by blast
qed simp

lemma match_all_first_wins:
  assumes "match_all p pkts = Inr p'"
  shows "p' = p \<or> (endian_mode p = ENDIAN_MODE_AUTO \<and> detected_endian p = ENDIAN_TYPE_UNKNOWN \<and>
    (\<exists>e. e \<noteq> ENDIAN_TYPE_UNKNOWN \<and> p' = p\<lparr>detected_endian := e\<rparr>))"
  using assms
proof (induction pkts arbitrary: p)
  case (Cons pkt pkts)
  then obtain b p1 where m: "packet_filter_match (Some pkt) (of_nat (length pkt)) 0 p = Inr (b, p1)"
    and r: "match_all p1 pkts = Inr p'"
    by (auto simp: try_then_Inr_iff)
  from packet_filter_match_detects [OF m] show ?case
    using Cons.IH [OF r] match_all_known [OF r] by (auto simp: detects_def)
qed simp

section \<open>Interleaved detection\<close>

text \<open>
  Several threads match against one protocol.  Each has read \<open>detected_endian\<close> at some earlier
  time, and the compare-and-swap is the only write: a step of the shared protocol is one such swap,
  of either byte order, by any thread.
\<close>

inductive detect_step :: "ProtocolDef \<Rightarrow> ProtocolDef \<Rightarrow> bool" where
  swap_big: "detect_step p (cas_detected ENDIAN_TYPE_BIG p)"
| swap_little: "detect_step p (cas_detected ENDIAN_TYPE_LITTLE p)"

inductive_cases detect_stepE: "detect_step p q"

lemma detect_step_known: "detect_step p q \<Longrightarrow> detected_endian p \<noteq> ENDIAN_TYPE_UNKNOWN \<Longrightarrow> q = p"
  by (auto simp: cas_detected_def elim: detect_stepE)

lemma detect_step_sets:
  assumes "detect_step p q"
  shows "\<exists>e. e \<noteq> ENDIAN_TYPE_UNKNOWN \<and> q = cas_detected e p"
  using assms by (auto elim: detect_stepE)

lemma detect_steps_known:
  "rtranclp detect_step p q \<Longrightarrow> detected_endian p \<noteq> ENDIAN_TYPE_UNKNOWN \<Longrightarrow> q = p"
  by (induction rule: rtranclp_induct) (auto dest: detect_step_known)

lemma match_is_detect_steps:
  assumes "packet_filter_match packet plen port p = Inr (b, p')"
  shows "rtranclp detect_step p p'"
proof -
  consider "p' = p" | e where "detected_endian p = ENDIAN_TYPE_UNKNOWN" "e \<noteq> ENDIAN_TYPE_UNKNOWN"
      "p' = p\<lparr>detected_endian := e\<rparr>"
    using packet_filter_match_detects [OF assms] by (auto simp: detects_def)
  then show ?thesis
  proof cases
    case 2
    then have "p' = cas_detected e p" by (simp add: cas_detected_def)
    then have "detect_step p p'" using 2(2) by (cases e) (auto intro: detect_step.intros)
    then show ?thesis by simp
  qed simp
qed

section \<open>Properties\<close>

text \<open>
  C6. The first detection wins.  However the compare-and-swaps of matching threads interleave, the
  shared protocol either keeps its unknown byte order, or gets one byte order and keeps it: nothing
  else of the protocol changes, and a known byte order is never overwritten.
\<close>

theorem first_detection_wins:
  assumes "rtranclp detect_step p q"
  shows "(q = p \<or> (\<exists>e. e \<noteq> ENDIAN_TYPE_UNKNOWN \<and> q = p\<lparr>detected_endian := e\<rparr>)) \<and>
    (\<forall>r. detected_endian q \<noteq> ENDIAN_TYPE_UNKNOWN \<and> rtranclp detect_step q r \<longrightarrow> r = q)"
proof -
  have "q = p \<or> (\<exists>e. e \<noteq> ENDIAN_TYPE_UNKNOWN \<and> q = p\<lparr>detected_endian := e\<rparr>)"
    using assms
  proof (induction rule: rtranclp_induct)
    case (step y z)
    show ?case
    proof (cases "detected_endian y = ENDIAN_TYPE_UNKNOWN")
      case True
      then have "y = p" using step(3) by auto
      then show ?thesis using detect_step_sets [OF step(2)] True by (auto simp: cas_detected_def)
    next
      case False
      then show ?thesis using detect_step_known [OF step(2)] step(3) by blast
    qed
  qed simp
  then show ?thesis using detect_steps_known by blast
qed

definition unknown_proto :: ProtocolDef where
  "unknown_proto = proto_init\<lparr>filters := [sample_filter]\<rparr>"

theorem first_detection_wins_witness:
  "cas_detected ENDIAN_TYPE_BIG (cas_detected ENDIAN_TYPE_LITTLE unknown_proto) =
     unknown_proto\<lparr>detected_endian := ENDIAN_TYPE_LITTLE\<rparr>"
proof -
  let ?q = "cas_detected ENDIAN_TYPE_LITTLE unknown_proto"
  have r1: "rtranclp detect_step unknown_proto ?q"
    and r2: "rtranclp detect_step ?q (cas_detected ENDIAN_TYPE_BIG ?q)"
    by (auto intro: detect_step.intros)
  have q: "?q = unknown_proto\<lparr>detected_endian := ENDIAN_TYPE_LITTLE\<rparr>"
    by (simp add: cas_detected_def unknown_proto_def proto_init_def)
  then have "detected_endian ?q \<noteq> ENDIAN_TYPE_UNKNOWN" by simp
  then have "cas_detected ENDIAN_TYPE_BIG ?q = ?q" using first_detection_wins [OF r1] r2 by blast
  then show ?thesis using q by metis
qed

text \<open>
  A match writes only by detecting.  A match that fails leaves the protocol as it was; one that
  succeeds changes at most \<open>detected_endian\<close>, in the mode \<open>auto\<close> and from unknown, so it is a
  sequence of the steps above, and every later match of the protocol uses the same byte order.
\<close>

theorem match_writes_only_detection:
  assumes "packet_filter_match packet plen port p = Inr (b, p')"
  shows "(\<not> b \<longrightarrow> p' = p) \<and> rtranclp detect_step p p' \<and>
    (p' \<noteq> p \<longrightarrow> endian_mode p = ENDIAN_MODE_AUTO \<and> detected_endian p = ENDIAN_TYPE_UNKNOWN)"
  using packet_filter_match_detects [OF assms] match_is_detect_steps [OF assms]
  by (auto simp: detects_def)

lemma unknown_proto_matches:
  "\<exists>p'. packet_filter_match (Some [5, 44, 1]) 3 53 unknown_proto = Inr (True, p')"
proof -
  have c: "compile_filter_rules [sample_struct] [sample_rule] = Inr [sample_filter]"
    by (simp add: sample_compiles)
  have ok: "list_all (source_ok [sample_struct]) [sample_rule]"
    using sample_rule_ok compiled_rule_code [OF sample_compiles sample_rule_ok]
    by (simp add: source_ok_def rule_ok_def)
  have m: "rule_matches [sample_struct] unknown_proto sample_rule [5, 44, 1]"
    using sample_holds(2) sample_rule_ok(1)
    by (simp add: rule_matches_def rule_test_def le_holds_def unknown_proto_def proto_init_def
        sample_rule_def)
  show ?thesis using match_rules_verdict [OF c ok, of "[5, 44, 1]" unknown_proto] m
    by (simp add: packet_filter_match_def unknown_proto_def)
qed

theorem match_writes_only_detection_witness:
  "\<exists>p'. packet_filter_match (Some [5, 44, 1]) 3 53 unknown_proto = Inr (True, p') \<and>
     rtranclp detect_step unknown_proto p'"
  using unknown_proto_matches match_writes_only_detection [of "Some [5, 44, 1]" 3 53 unknown_proto]
  by blast

end
