(* ===== verification/Pdef_Load.thy ===== *)
theory Pdef_Load
  imports Protocol
begin

text \<open>
  From the text of a protocol definition to the verdict on a packet: \<open>pdef_parse_string\<close> and
  \<open>pdef_parse_file\<close> of \<open>src/src/pdef/parser.c\<close> and the class \<open>ProtocolFilter\<close> of
  \<open>src/src/pdef/pdef_wrapper.cpp\<close>.  The file system is an argument: the bytes of the file, or
  \<open>None\<close> when \<open>fopen\<close> fails.
\<close>

section \<open>Loading\<close>

definition pdef_parse_string :: "string \<Rightarrow> ProtocolDef parse" where
  "pdef_parse_string src =
     try_then (parse_blocks (parser_init src)) (\<lambda>p.
     try_then (flatten_structs (temp_structs p)) (\<lambda>ss.
     try_then (compile_filter_rules ss (temp_filter_rules p)) (\<lambda>fs.
       Inr ((proto p)\<lparr>structs := ss, filters := fs\<rparr>))))"

text \<open>The buffer ends with a NUL, so the source is the file up to its first NUL.\<close>

definition pdef_parse_file :: "string \<Rightarrow> string option \<Rightarrow> ProtocolDef parse" where
  "pdef_parse_file filename contents =
     (case contents of
        None \<Rightarrow> parser_error ''Failed to open file: %s'' [Str filename]
      | Some bytes \<Rightarrow>
          try_then (pdef_parse_string (takeWhile (\<lambda>c. c \<noteq> NUL) bytes)) (\<lambda>p.
            Inr (p\<lparr>pdef_file_path := strncpy_z 255 filename\<rparr>)))"

section \<open>The filter object\<close>

text \<open>The fields are \<open>proto_\<close>, \<open>name_\<close> and \<open>error_\<close> of the class.  The error is the failure
  itself; the code holds the text made from it.\<close>

record ProtocolFilter =
  pf_proto :: "ProtocolDef option"
  pf_name :: string
  pf_error :: "parse_failure option"

definition ProtocolFilter_new :: ProtocolFilter where
  "ProtocolFilter_new = \<lparr>pf_proto = None, pf_name = [], pf_error = None\<rparr>"

definition filter_reset :: "ProtocolFilter \<Rightarrow> ProtocolFilter" where
  "filter_reset f = f\<lparr>pf_proto := None, pf_name := [], pf_error := None\<rparr>"

definition filter_load :: "string \<Rightarrow> string option \<Rightarrow> ProtocolFilter \<Rightarrow> bool \<times> ProtocolFilter" where
  "filter_load path contents f =
     (let f1 = filter_reset f in
      case pdef_parse_file path contents of
        Inl e \<Rightarrow> (False, f1\<lparr>pf_error := Some e\<rparr>)
      | Inr p \<Rightarrow> (True, f1\<lparr>pf_proto := Some p, pf_name := p_name p, pf_error := None\<rparr>))"

definition filter_loaded :: "ProtocolFilter \<Rightarrow> bool" where
  "filter_loaded f \<longleftrightarrow> pf_proto f \<noteq> None"

text \<open>\<open>match\<close> on a pointer and a length: a length beyond 32 bits is refused.\<close>

definition filter_match_ptr ::
  "ProtocolFilter \<Rightarrow> u8 list option \<Rightarrow> nat \<Rightarrow> u16 \<Rightarrow> fault + bool \<times> ProtocolFilter" where
  "filter_match_ptr f packet len port =
     (case pf_proto f of
        None \<Rightarrow> Inr (False, f)
      | Some p \<Rightarrow>
          if len > 2 ^ 32 - 1 then Inr (False, f)
          else try_then (packet_filter_match packet (of_nat len) port p) (\<lambda>(b, p1).
                 Inr (b, f\<lparr>pf_proto := Some p1\<rparr>)))"

text \<open>\<open>match\<close> on a vector; an empty one is passed as a null pointer.\<close>

definition filter_match :: "ProtocolFilter \<Rightarrow> u8 list \<Rightarrow> u16 \<Rightarrow> fault + bool \<times> ProtocolFilter" where
  "filter_match f packet port =
     (if packet = [] then filter_match_ptr f None 0 port
      else filter_match_ptr f (Some packet) (length packet) port)"

definition getFilterCount :: "ProtocolFilter \<Rightarrow> nat" where
  "getFilterCount f = (case pf_proto f of None \<Rightarrow> 0 | Some p \<Rightarrow> length (filters p))"

definition getPorts :: "ProtocolFilter \<Rightarrow> u16 list" where
  "getPorts f = (case pf_proto f of None \<Rightarrow> [] | Some p \<Rightarrow> ports p)"

section \<open>From source to verdict\<close>

text \<open>
  The size condition under which 32-bit offsets are exact: the fields of every struct add up to
  less than 4 GB, with room for one more load, and every rule has fewer than \<open>2 ^ 32\<close> instructions.
\<close>

definition struct_fits :: "StructDef \<Rightarrow> bool" where
  "struct_fits s \<longleftrightarrow> sum_list (map field_extent (s_fields s)) + 8 < 2 ^ 32"

definition rule_fits :: "TempFilterRule \<Rightarrow> bool" where
  "rule_fits r \<longleftrightarrow> sum_list (map cond_len (tr_conditions r)) + 2 < 2 ^ 32"

lemma laid_out_fits:
  assumes "laid_out s" "struct_fits s" "f \<in> set (s_fields s)"
  shows "offset_fits f"
proof -
  have "unat (f_offset f) + field_extent f \<le> sum_list (map field_extent (s_fields s))"
    using segment_bounds [of 0 "s_fields s" "s_min_size s" "s_has_variable s"] assms
    by (auto simp: laid_out_def struct_fits_def)
  moreover have "field_width f \<le> 8" by (simp add: field_width_def)
  ultimately show ?thesis using assms(2) by (simp add: offset_fits_def struct_fits_def)
qed

lemma compiled_source_ok:
  assumes "compile_rule ss r = Inr fr" "list_all laid_out ss" "list_all struct_fits ss" "rule_fits r"
  shows "source_ok ss r"
proof -
  obtain t where t: "target_struct ss r = Some t" "list_all cond_ok (tr_conditions r)"
      "list_all (has_field t) (tr_conditions r)"
    using compiled_layout [OF assms(1)] by blast
  have "t \<in> set ss" using t(1)
    by (auto simp: target_struct_def find_Some_iff split: list.splits)
  then have "laid_out t" "struct_fits t" using assms(2,3) by (auto simp: list_all_iff)
  then have "list_all (\<lambda>c. offset_fits (cond_field t c)) (tr_conditions r)"
    using t(3) laid_out_fits cond_field_mem by (auto simp: list_all_iff)
  then show ?thesis using t assms(4)
    by (simp add: source_ok_def rule_ok_def small_code_def length_compiled_code rule_fits_def)
qed

lemma compiled_sources_ok:
  assumes "compile_filter_rules ss rs = Inr frs" "list_all laid_out ss" "list_all struct_fits ss"
    and "list_all rule_fits rs"
  shows "list_all (source_ok ss) rs"
  using assms
  by (induction rs arbitrary: frs) (auto simp: try_then_Inr_iff intro: compiled_source_ok)

text \<open>
  The end-to-end statement: a definition that loads decides every packet by the rules as written.
\<close>

lemma parsed_match_verdict:
  assumes "parse_blocks (parser_init src) = Inr q" "pdef_parse_string src = Inr p"
    and "backward_refs (temp_structs q)" "list_all struct_fits (structs p)"
    and "list_all rule_fits (temp_filter_rules q)" "length pkt < 2 ^ 32"
  shows "\<exists>p'. packet_filter_match (Some pkt) (of_nat (length pkt)) port p =
    Inr (list_ex (\<lambda>r. rule_matches (structs p) p r pkt) (temp_filter_rules q), p')"
proof -
  obtain ss fs where ss: "flatten_structs (temp_structs q) = Inr ss"
    "compile_filter_rules ss (temp_filter_rules q) = Inr fs"
    and p: "p = (proto q)\<lparr>structs := ss, filters := fs\<rparr>"
    using assms(1,2) by (auto simp: pdef_parse_string_def try_then_Inr_iff)
  have "list_all laid_out ss" using flatten_layout [OF ss(1) assms(3)] by simp
  then have "list_all (source_ok ss) (temp_filter_rules q)"
    using compiled_sources_ok [OF ss(2)] assms(4,5) p by simp
  then show ?thesis
    using match_rules_verdict [OF ss(2) _ assms(6), of p] p by (simp add: packet_filter_match_def)
qed

end
