(* ===== verification/Pdef_Verdict.thy ===== *)
theory Pdef_Verdict
  imports Pdef_Load
begin

text \<open>
  What a definition asks for, as its documentation has it, and how far the programs of \<open>Protocol\<close> answer that:
  in the modes big and automatic they do, in the mode little they read every field in the other order.
\<close>

section \<open>The verdict the definition asks for\<close>

text \<open>
  A rule read in a given byte order: every field is read in that order, and the conditions hold at the start
  of the packet or, for a sliding rule, at some offset below its limit that leaves room for the struct.
\<close>

definition in_order :: "Endian \<Rightarrow> StructDef \<Rightarrow> StructDef" where
  "in_order e t = t\<lparr>s_fields := map (\<lambda>f. f\<lparr>f_endian := e\<rparr>) (s_fields t)\<rparr>"

definition rule_reads :: "StructDef list \<Rightarrow> Endian \<Rightarrow> TempFilterRule \<Rightarrow> u8 list \<Rightarrow> bool" where
  "rule_reads ss e r pkt =
     (case target_struct ss r of
        None \<Rightarrow> False
      | Some t \<Rightarrow>
          if tr_sliding_window r
          then list_ex (\<lambda>k. unat (s_min_size t) \<le> length pkt - k \<and>
                  list_all (cond_holds (in_order e t) (drop k pkt)) (tr_conditions r)) [0..<window_limit r pkt]
          else list_all (cond_holds (in_order e t) pkt) (tr_conditions r))"

text \<open>
  The documented meaning of the mode: big and little force the order of their name; automatic mode uses the
  order detected, and tries both as long as none is.
\<close>

definition documented_rule :: "StructDef list \<Rightarrow> ProtocolDef \<Rightarrow> TempFilterRule \<Rightarrow> u8 list \<Rightarrow> bool" where
  "documented_rule ss p r pkt =
     (let big = rule_reads ss ENDIAN_BIG r pkt; little = rule_reads ss ENDIAN_LITTLE r pkt in
      case endian_mode p of
        ENDIAN_MODE_BIG \<Rightarrow> big
      | ENDIAN_MODE_LITTLE \<Rightarrow> little
      | ENDIAN_MODE_AUTO \<Rightarrow>
          (case detected_endian p of
             ENDIAN_TYPE_BIG \<Rightarrow> big | ENDIAN_TYPE_LITTLE \<Rightarrow> little | ENDIAN_TYPE_UNKNOWN \<Rightarrow> big \<or> little))"

text \<open>All fields were declared in one byte order: the protocol block comes before the structs.\<close>

definition declared_in_order :: "Endian \<Rightarrow> StructDef list \<Rightarrow> bool" where
  "declared_in_order e ss \<longleftrightarrow> list_all (\<lambda>s. list_all (\<lambda>f. f_endian f = e) (s_fields s)) ss"

lemma in_order_same:
  assumes "list_all (\<lambda>f. f_endian f = e) (s_fields t)"
  shows "in_order e t = t"
proof -
  have "map (\<lambda>f. f\<lparr>f_endian := e\<rparr>) (s_fields t) = s_fields t"
    using assms by (intro map_idI) (auto simp: list_all_iff)
  then show ?thesis by (simp add: in_order_def)
qed

lemma in_order_flip:
  assumes "list_all (\<lambda>f. f_endian f = e) (s_fields t)"
  shows "in_order (flip_endian e) t = flip_struct t"
  using assms by (simp add: in_order_def flip_struct_def flip_field_def list_all_iff)

lemma declared_target:
  assumes "declared_in_order e ss" "target_struct ss r = Some t"
  shows "list_all (\<lambda>f. f_endian f = e) (s_fields t)"
proof -
  have "t \<in> set ss" using assms(2) by (auto simp: target_struct_def find_Some_iff split: list.splits)
  then show ?thesis using assms(1) by (simp add: declared_in_order_def list_all_iff)
qed

text \<open>Fields declared in big order: the two programs read what the modes big and automatic ask for.\<close>

lemma rule_matches_documented:
  assumes "declared_in_order ENDIAN_BIG ss" "endian_mode p \<noteq> ENDIAN_MODE_LITTLE"
  shows "rule_matches ss p r pkt = documented_rule ss p r pkt"
proof (cases "target_struct ss r")
  case (Some t)
  note order = declared_target [OF assms(1) Some]
  have "in_order ENDIAN_BIG t = t" "in_order ENDIAN_LITTLE t = flip_struct t"
    using in_order_same [OF order] in_order_flip [OF order] by (simp_all add: flip_endian_def)
  then show ?thesis using assms(2) Some
    by (cases "endian_mode p"; cases "detected_endian p")
      (auto simp: rule_matches_def documented_rule_def rule_reads_def rule_test_def be_holds_def le_holds_def list_ex_iff)
qed (simp add: rule_matches_def documented_rule_def rule_reads_def split: EndianMode.split EndianType.split)

text \<open>Fields declared in little order and the mode little: the swapped program reads big order.\<close>

lemma rule_matches_little:
  assumes "declared_in_order ENDIAN_LITTLE ss" "endian_mode p = ENDIAN_MODE_LITTLE"
  shows "rule_matches ss p r pkt = rule_reads ss ENDIAN_BIG r pkt"
proof (cases "target_struct ss r")
  case (Some t)
  have "in_order ENDIAN_BIG t = flip_struct t"
    using in_order_flip [OF declared_target [OF assms(1) Some]] by (simp add: flip_endian_def)
  then show ?thesis using assms(2) Some
    by (simp add: rule_matches_def rule_reads_def rule_test_def le_holds_def)
qed (simp add: rule_matches_def rule_reads_def)

end
