(* ===== verification/Parser_Facts.thy ===== *)
theory Parser_Facts
  imports Parser
begin

text \<open>
  What the parser keeps: the blocks that do not define structs or filters leave both arrays alone,
  and neither array outgrows its 16 elements.  The bundles \<open>lex_eval\<close> and \<open>parse_eval\<close> let \<open>simp\<close>
  parse a concrete source whose characters are known.
\<close>

section \<open>Frame of the parsing functions\<close>

definition frame :: "Parser \<Rightarrow> Parser \<Rightarrow> bool" where
  "frame p p' \<longleftrightarrow> temp_structs p' = temp_structs p \<and> temp_filter_rules p' = temp_filter_rules p"

lemma frame_refl [simp, intro]: "frame p p"
  by (simp add: frame_def)

lemma frame_trans: "frame p p' \<Longrightarrow> frame p' p'' \<Longrightarrow> frame p p''"
  by (simp add: frame_def)

lemma frame_shift_iff [simp]: "frame p (shift p') = frame p p'"
  and frame_shift_iff2 [simp]: "frame (shift p) p' = frame p p'"
  by (simp_all add: frame_def shift_def parser_next_token_def split: prod.splits)

lemma frame_skip_semicolon [simp]: "frame p (skip_semicolon p') = frame p p'"
  by (simp add: skip_semicolon_def)

lemma frame_upd_proto [simp]: "frame p (upd_proto f p') = frame p p'"
  and frame_upd_endian [simp]: "frame p (p'\<lparr>endian_set := b\<rparr>) = frame p p'"
  and frame_add_constant [simp]: "frame p (add_constant p' n v) = frame p p'"
  by (simp_all add: frame_def upd_proto_def add_constant_def)

lemma frame_expect: "parser_expect p ty = Inr p' \<Longrightarrow> frame p p'"
  by (auto simp: frame_def parser_expect_def parser_next_token_def split: if_splits prod.splits)

lemma frame_expect_shift: "parser_expect (shift p) ty = Inr p' \<Longrightarrow> frame p p'"
  using frame_expect [of "shift p"] by simp

lemma frame_index_loop: "index_loop p n out = Inr (p', out') \<Longrightarrow> frame p p'"
proof (induction p n out arbitrary: out' rule: index_loop.induct)
  case (1 p n out)
  show ?case
  proof (cases "cur_type p = TOKEN_LBRACKET")
    case True
    with "1.prems" obtain out1 out2 p2 out3 where
      a: "append_token out n ''['' = Inr out1" and num: "cur_type (shift p) = TOKEN_NUMBER"
      and b: "append_token out1 n (dec_string (unat (cur_value (shift p)))) = Inr out2"
      and e: "parser_expect (shift (shift p)) TOKEN_RBRACKET = Inr p2"
      and c: "append_token out2 n '']'' = Inr out3" and r: "index_loop p2 n out3 = Inr (p', out')"
      by (subst (asm) index_loop.simps)
        (auto simp: Let_def try_then_Inr_iff split: if_splits elim!: try_then_InrE)
    have "frame p2 p'" using "1.IH" [of out1 "shift p" out2 p2 out3] True a num b e c r by blast
    then show ?thesis using frame_expect_shift [OF e] frame_trans by (metis frame_shift_iff2)
  next
    case False
    with "1.prems" show ?thesis by (simp add: index_loop.simps [of p])
  qed
qed

lemma frame_path_loop: "path_loop p n out = Inr (p', out') \<Longrightarrow> frame p p'"
proof (induction p n out arbitrary: out' rule: path_loop.induct)
  case (1 p n out)
  from "1.prems" obtain out1 p1 out2 where a: "append_token out n (cur_text p) = Inr out1"
    and i: "index_loop (shift p) n out1 = Inr (p1, out2)"
    by (subst (asm) path_loop.simps) (auto simp: try_then_Inr_iff)
  have p1: "frame p p1" using frame_index_loop [OF i] by simp
  show ?case
  proof (cases "cur_type p1 = TOKEN_DOT")
    case True
    with "1.prems" a i obtain out3 where b: "append_token out2 n ''.'' = Inr out3"
      and t: "cur_type (shift p1) = TOKEN_IDENTIFIER"
      and r: "path_loop (shift p1) n out3 = Inr (p', out')"
      by (subst (asm) path_loop.simps) (auto simp: try_then_Inr_iff Let_def split: if_splits)
    have "frame (shift p1) p'" using "1.IH" [OF a i refl True b refl] t r by simp
    then show ?thesis using frame_trans [OF p1] by simp
  next
    case False
    with "1.prems" a i p1 show ?thesis by (simp add: path_loop.simps [of p])
  qed
qed

lemma frame_field_path: "parse_field_path p n = Inr (p', out) \<Longrightarrow> frame p p'"
  by (auto simp: parse_field_path_def split: if_splits dest: frame_path_loop)

lemma frame_ports_loop: "ports_loop p = Inr p' \<Longrightarrow> frame p p'"
proof (induction p rule: ports_loop.induct)
  case (1 p)
  let ?p1 = "if cur_type p = TOKEN_COMMA then shift p else p"
  have num: "cur_type ?p1 = TOKEN_NUMBER"
    using "1.prems" by (subst (asm) ports_loop.simps) (simp add: Let_def split: if_splits)
  have "frame (shift ?p1) p'"
  proof (cases "cur_type (shift ?p1) = TOKEN_COMMA")
    case True
    have "ports_loop (shift ?p1) = Inr p'"
      using "1.prems" num True by (subst (asm) ports_loop.simps) (simp add: Let_def)
    with num True show ?thesis by (intro "1.IH" [OF refl _ refl]) simp_all
  next
    case False
    then show ?thesis
      using "1.prems" num by (subst (asm) ports_loop.simps) (simp add: Let_def)
  qed
  then show ?case by (simp split: if_splits)
qed

lemma frame_protocol_value: "protocol_value key p = Inr p' \<Longrightarrow> frame p p'"
  by (auto simp: protocol_value_def parse_name_def parse_endian_def Let_def try_then_Inr_iff
      split: if_splits dest: frame_ports_loop)

lemma frame_protocol_entry: "protocol_entry p = Inr p' \<Longrightarrow> frame p p'"
  by (auto simp: protocol_entry_def try_then_Inr_iff split: if_splits
      dest!: frame_expect_shift frame_protocol_value intro: frame_trans)

lemma frame_protocol_loop: "protocol_loop p = Inr p' \<Longrightarrow> frame p p'"
proof (induction p rule: protocol_loop.induct)
  case (1 p)
  then show ?case
    by (subst (asm) (2) protocol_loop.simps)
      (auto simp: try_then_Inr_iff split: if_splits dest: frame_protocol_entry intro: frame_trans)
qed

lemma frame_const_entry: "const_entry p = Inr p' \<Longrightarrow> frame p p'"
  by (auto simp: const_entry_def try_then_Inr_iff split: if_splits dest!: frame_expect_shift)

lemma frame_const_loop: "const_loop p = Inr p' \<Longrightarrow> frame p p'"
proof (induction p rule: const_loop.induct)
  case (1 p)
  then show ?case
    by (subst (asm) (2) const_loop.simps)
      (auto simp: try_then_Inr_iff split: if_splits dest: frame_const_entry intro: frame_trans)
qed

lemma frame_values_loop: "values_loop p vals = Inr (p', vals') \<Longrightarrow> frame p p'"
proof (induction p vals rule: values_loop.induct)
  case (1 p vals)
  from "1.prems" obtain v where v: "value_operand ''Expected value in list'' p = Inr v"
    by (auto simp: values_loop.simps [of p] try_then_Inr_iff)
  show ?case
  proof (cases "cur_type (shift p) = TOKEN_COMMA")
    case True
    then have "values_loop (shift (shift p)) (vals @ [v]) = Inr (p', vals')"
      using "1.prems" v by (simp add: values_loop.simps [of p] Let_def)
    then show ?thesis using "1.IH" [OF v refl refl True] by simp
  next
    case False
    then show ?thesis using "1.prems" v
      by (auto simp: values_loop.simps [of p] Let_def split: if_splits)
  qed
qed

lemma frame_mask: "parse_mask p c = Inr (p', c') \<Longrightarrow> frame p p'"
  by (auto simp: parse_mask_def Let_def try_then_Inr_iff dest!: frame_expect_shift)

lemma frame_in_list: "parse_in_list n p c = Inr (p', c') \<Longrightarrow> frame p p'"
  by (auto simp: parse_in_list_def try_then_Inr_iff split: if_splits
      dest!: frame_expect_shift frame_values_loop intro: frame_trans)

lemma frame_operator: "parse_operator p0 c = Inr (p', c') \<Longrightarrow> frame p0 p'"
  by (auto simp: parse_operator_def Let_def split: if_splits option.splits dest!: frame_in_list)

lemma frame_condition:
  assumes "parse_condition p = Inr (p', c)"
  shows "frame p p'"
proof -
  from assms obtain p1 path c1 p2 c2 where f: "parse_field_path p 128 = Inr (p1, path)"
    and m: "(if cur_type p1 = TOKEN_AND then parse_mask p1 c1 else parse_operator p1 c1) = Inr (p2, c2)"
    and p': "p' = p2 \<or> p' = shift p2"
    by (fastforce simp: parse_condition_def Let_def try_then_Inr_iff split: if_splits prod.splits)
  have "frame p1 p2" using m by (auto split: if_splits dest: frame_mask frame_operator)
  then show ?thesis using frame_trans [OF frame_field_path [OF f]] p' by auto
qed

lemma frame_filter_item:
  assumes "filter_item p rule = Inr (p', rule')"
  shows "frame p p'"
proof -
  consider (opt) p1 where "parser_expect (shift p) TOKEN_ASSIGN = Inr p1"
      "p' = skip_semicolon (shift p1)"
    | (cond) p1 c where "parse_condition p = Inr (p1, c)" "p' = skip_semicolon p1"
    using assms by (fastforce simp: filter_item_def parse_sliding_def parse_sliding_max_def
        try_then_Inr_iff split: if_splits)
  then show ?thesis by cases (auto dest: frame_expect_shift frame_condition)
qed

lemma frame_filter_loop: "filter_loop p rule = Inr (p', rule') \<Longrightarrow> frame p p'"
proof (induction p rule rule: filter_loop.induct)
  case (1 p rule)
  show ?case
  proof (cases "cur_type p = TOKEN_RBRACE")
    case True
    with "1.prems" show ?thesis by (simp add: filter_loop.simps [of p])
  next
    case False
    with "1.prems" obtain q r where q: "filter_item p rule = Inr (q, r)" "filter_loop q r = Inr (p', rule')"
      by (auto simp: filter_loop.simps [of p] try_then_Inr_iff)
    show ?thesis using "1.IH" [OF False q(1) refl q(2)] frame_filter_item [OF q(1)] frame_trans by blast
  qed
qed

lemma frame_byte_size: "parse_byte_size p = Inr (p', n) \<Longrightarrow> frame p p'"
  by (auto simp: parse_byte_size_def Let_def try_then_Inr_iff split: if_splits dest!: frame_expect_shift)

lemma frame_array_suffix: "parse_array_suffix p f = Inr (p', f') \<Longrightarrow> frame p p'"
  by (auto simp: parse_array_suffix_def Let_def try_then_Inr_iff split: if_splits
      dest!: frame_expect_shift)

lemma frame_struct_field:
  assumes "struct_field p s = Inr (p', s')"
  shows "frame p p'"
proof -
  from assms obtain p1 n p2 f f' where
    a: "(if sized_type (token_to_field_type (cur_type p)) then parse_byte_size (shift p)
         else Inr (shift p, 0)) = Inr (p1, n)"
    and b: "parse_array_suffix (shift p1) f = Inr (p2, f')" and p': "p' = skip_semicolon p2"
    by (fastforce simp: struct_field_def Let_def try_then_Inr_iff split: if_splits prod.splits)
  have "frame p p1" using a frame_byte_size [of "shift p"] by (auto split: if_splits)
  then show ?thesis using frame_array_suffix [OF b] p' by (auto intro: frame_trans)
qed

lemma frame_struct_loop: "struct_loop p s = Inr (p', s') \<Longrightarrow> frame p p'"
proof (induction p s rule: struct_loop.induct)
  case (1 p s)
  show ?case
  proof (cases "cur_type p = TOKEN_RBRACE")
    case True
    with "1.prems" show ?thesis by (simp add: struct_loop.simps [of p])
  next
    case False
    with "1.prems" obtain q r where q: "struct_field p s = Inr (q, r)" "struct_loop q r = Inr (p', s')"
      by (auto simp: struct_loop.simps [of p] try_then_Inr_iff)
    show ?thesis using "1.IH" [OF False q(1) refl q(2)] frame_struct_field [OF q(1)] frame_trans by blast
  qed
qed

section \<open>The arrays stay within their capacity\<close>

definition within_caps :: "Parser \<Rightarrow> bool" where
  "within_caps p \<longleftrightarrow> length (temp_structs p) \<le> TEMP_CAP \<and> length (temp_filter_rules p) \<le> TEMP_CAP"

lemma within_caps_frame: "frame p p' \<Longrightarrow> within_caps p' = within_caps p"
  by (simp add: frame_def within_caps_def)

lemma within_caps_protocol: "parse_protocol_block p = Inr p' \<Longrightarrow> within_caps p' = within_caps p"
  by (rule within_caps_frame)
    (auto simp: parse_protocol_block_def try_then_Inr_iff
      dest!: frame_expect frame_protocol_loop intro: frame_trans)

lemma within_caps_const: "parse_const_block p = Inr p' \<Longrightarrow> within_caps p' = within_caps p"
  by (rule within_caps_frame)
    (auto simp: parse_const_block_def try_then_Inr_iff
      dest!: frame_expect frame_const_loop intro: frame_trans)

lemma within_caps_filter:
  assumes "parse_filter_block p = Inr p'" "within_caps p"
  shows "within_caps p'"
proof -
  from assms obtain p1 p2 p3 rule where a: "parser_expect p TOKEN_FILTER = Inr p1"
    and n: "length (temp_filter_rules p1) < TEMP_CAP"
    and b: "parser_expect (shift p1) TOKEN_LBRACE = Inr p2"
    and c: "filter_loop p2 (rule_init (cur_text p1)) = Inr (p3, rule)"
    and d: "parser_expect (p3\<lparr>temp_filter_rules := temp_filter_rules p3 @ [rule]\<rparr>) TOKEN_RBRACE = Inr p'"
    by (auto simp: parse_filter_block_def try_then_Inr_iff split: if_splits)
  have "frame p p1" "frame p1 p3"
    using frame_expect [OF a] frame_expect_shift [OF b] frame_filter_loop [OF c] by (auto intro: frame_trans)
  then show ?thesis using frame_expect [OF d] n assms(2) by (auto simp: frame_def within_caps_def)
qed

lemma within_caps_struct:
  assumes "parse_struct_def p = Inr p'" "within_caps p"
  shows "within_caps p'"
proof -
  from assms obtain p1 p2 s where n: "length (temp_structs p) < TEMP_CAP"
    and a: "parser_expect (shift p) TOKEN_LBRACE = Inr p1"
    and b: "struct_loop p1 (struct_init (cur_text p)) = Inr (p2, s)"
    and c: "parser_expect (p2\<lparr>temp_structs := temp_structs p2 @ [s]\<rparr>) TOKEN_RBRACE = Inr p'"
    by (auto simp: parse_struct_def_def try_then_Inr_iff split: if_splits)
  have "frame p p2" using frame_expect_shift [OF a] frame_struct_loop [OF b] by (auto intro: frame_trans)
  then show ?thesis using frame_expect [OF c] n assms(2) by (auto simp: frame_def within_caps_def)
qed

lemma within_caps_block: "parse_block p = Inr p' \<Longrightarrow> within_caps p \<Longrightarrow> within_caps p'"
  by (auto simp: parse_block_def within_caps_protocol within_caps_const split: if_splits
      dest: within_caps_filter within_caps_struct)

lemma parse_blocks_end:
  "parse_blocks p = Inr p' \<Longrightarrow> within_caps p \<Longrightarrow> within_caps p' \<and> cur_type p' = TOKEN_EOF"
proof (induction p rule: parse_blocks.induct)
  case (1 p)
  then show ?case
    by (subst (asm) (2) parse_blocks.simps)
      (auto simp: try_then_Inr_iff split: if_splits dest: within_caps_block)
qed

lemma parser_init_caps: "within_caps (parser_init src)"
  by (simp add: within_caps_def parser_init_def shift_def parser_next_token_def split: prod.splits)

section \<open>Decimal numbers\<close>

lemma digit_char:
  assumes "d < 10"
  shows "is_digit (char_of (48 + d))" "digit_value (char_of (48 + d)) = d"
proof -
  have "of_char (char_of (48 + d)) = 48 + d" using assms by simp
  then show "is_digit (char_of (48 + d))" "digit_value (char_of (48 + d)) = d"
    using assms by (simp_all add: is_digit_def digit_value_def)
qed

lemma dec_string_digits: "list_all is_digit (dec_string n) \<and> dec_string n \<noteq> []"
proof (induction n rule: dec_string.induct)
  case (1 n)
  then show ?case using digit_char(1) [of n] digit_char(1) [of "n mod 10"]
    by (auto simp: dec_string.simps [of n])
qed

lemma digits_value_snoc: "digits_value b (s @ [c]) = b * digits_value b s + digit_value c"
  by (simp add: digits_value_def)

lemma digits_value_dec_string: "digits_value 10 (dec_string n) = n"
proof (induction n rule: dec_string.induct)
  case (1 n)
  show ?case
  proof (cases "n < 10")
    case True
    then show ?thesis using digit_char(2) [OF True] by (simp add: dec_string.simps [of n] digits_value_def)
  next
    case False
    then show ?thesis using 1 digit_char(2) [of "n mod 10"]
      by (simp add: dec_string.simps [of n] digits_value_snoc)
  qed
qed

section \<open>Evaluation of the parser on a concrete source\<close>

lemma two_Suc: "Suc (Suc 0) = 2"
  by simp

lemma read_run_unfold:
  "read_run P n l =
     (if n = 0 then ([], l)
      else if P (current_char l)
      then (case read_run P (n - 1) (advance l) of (t, l') \<Rightarrow> (current_char l # t, l'))
      else ([], l))"
  by (cases n) auto

lemmas lex_eval = lexer_next_token_def skip_whitespace.simps skip_whitespace_and_comments.simps
  at_comment_def skip_comment_def comment_loop.simps read_identifier_def read_number_def
  read_string_def read_at_def single_def with_eq_def current_char_def peek_char_def advance_def
  isspace_def is_alpha_def is_digit_def is_hex_digit_def is_alnum_def newline_def quote_char_def
  NUL_def backslash_def keyword_type_def strtoull_def digits_value_def digit_value_def Let_def
  lexer_init_def two_Suc read_run_unfold TEXT_MAX_def

lemmas parse_eval = parser_init_def proto_init_def token_zero_def shift_def parser_next_token_def
  parse_blocks.simps parse_block_def parse_struct_def_def struct_loop.simps parser_expect_def
  struct_init_def strncpy_z_def TEMP_CAP_def struct_field_def token_to_field_type_def sized_type_def
  parse_byte_size_def parse_array_suffix_def named_field_def skip_semicolon_def
  parse_filter_block_def filter_loop.simps filter_item_def rule_init_def parse_condition_def
  cond_init_def parse_field_path_def path_loop.simps append_token_def parse_mask_def
  parse_operator_def comparison_op_def value_operand_def parse_sliding_def parse_sliding_max_def
  index_loop.simps parse_protocol_block_def protocol_loop.simps protocol_entry_def
  protocol_value_def parse_name_def parse_endian_def upd_proto_def parse_const_block_def
  const_loop.simps const_entry_def add_constant_def parse_in_list_def values_loop.simps

section \<open>Properties\<close>

text \<open>
  Parsing ends at the end of the file, inside its arrays.  When the top-level loop of the parser
  succeeds on a source, it has consumed every token, and the fixed arrays of 16 structs and 16
  filter rules were not overrun.
\<close>

theorem parser_ends_within_arrays:
  assumes "parse_blocks (parser_init src) = Inr p"
  shows "cur_type p = TOKEN_EOF \<and> length (temp_structs p) \<le> TEMP_CAP \<and>
    length (temp_filter_rules p) \<le> TEMP_CAP"
  using parse_blocks_end [OF assms parser_init_caps] by (simp add: within_caps_def)

definition src_one :: string where
  "src_one = ''A{}''"

lemma src_one_chars:
  "char_at src_one 0 = CHR ''A''" "char_at src_one (Suc 0) = CHR ''{''" "char_at src_one 2 = CHR ''}''"
  "char_at src_one 3 = NUL" "char_at src_one 4 = NUL"
  by (simp_all add: src_one_def char_at_def)

lemma src_one_parsed: "\<exists>p. parse_blocks (parser_init src_one) = Inr p \<and> length (temp_structs p) = 1"
  by (simp add: lex_eval parse_eval src_one_chars)

theorem parser_ends_within_arrays_witness:
  "\<exists>p. parse_blocks (parser_init src_one) = Inr p \<and> length (temp_structs p) = 1 \<and> cur_type p = TOKEN_EOF"
  using src_one_parsed parser_ends_within_arrays [of src_one] by blast

text \<open>
  Round trip of decimal numbers.  A number printed in decimal, followed by a character that cannot
  continue it, is read back as one number token with that text and that value; a number that does
  not fit 64 bits is read as the largest 64-bit number, as \<open>strtoull\<close> does.
\<close>

theorem decimal_number_roundtrip:
  assumes "length (dec_string n) \<le> TEXT_MAX"
    and "rest = [] \<or> \<not> is_digit (hd rest) \<and> hd rest \<noteq> CHR ''x'' \<and> hd rest \<noteq> CHR ''X''"
  shows "\<exists>l' t. lexer_next_token (lexer_init (dec_string n @ rest)) = (True, l', t) \<and>
    t_type t = TOKEN_NUMBER \<and> t_text t = dec_string n \<and> pos l' = length (dec_string n) \<and>
    t_value t = of_nat (min n (2 ^ 64 - 1))"
  using decimal_token [of "dec_string n" rest] assms dec_string_digits [of n]
  by (auto simp: strtoull_def digits_value_dec_string)

theorem decimal_number_roundtrip_witness:
  "\<exists>l' t. lexer_next_token (lexer_init (dec_string 443 @ '';'')) = (True, l', t) \<and>
     t_value t = 443 \<and> pos l' = length (dec_string 443)"
proof -
  have "length (dec_string 443) \<le> TEXT_MAX" by (simp add: dec_string.simps TEXT_MAX_def)
  moreover have "'';'' = [] \<or> \<not> is_digit (hd '';'') \<and> hd '';'' \<noteq> CHR ''x'' \<and> hd '';'' \<noteq> CHR ''X''"
    by (simp add: is_digit_def)
  moreover have "(of_nat (min 443 (2 ^ 64 - 1)) :: u64) = 443" by simp
  ultimately show ?thesis using decimal_number_roundtrip [of 443 "'';''"] by metis
qed

end
