(* ===== verification/Pdef_Examples.thy ===== *)
theory Pdef_Examples
  imports Pdef_Verdict Parser_Facts
begin

text \<open>
  Properties of the definition engine as a whole, and what it does on particular sources: each
  source is parsed, laid out and compiled by evaluation in the kernel.
\<close>

section \<open>Sources\<close>

definition src_seventeen :: string where
  "src_seventeen = ''A{}A{}A{}A{}A{}A{}A{}A{}A{}A{}A{}A{}A{}A{}A{}A{}A{}''"

lemma src_seventeen_chars:
  "char_at src_seventeen 0 = CHR ''A''" "char_at src_seventeen (Suc 0) = CHR ''{''" "char_at src_seventeen 2 = CHR ''}''" "char_at src_seventeen 3 = CHR ''A''"
  "char_at src_seventeen 4 = CHR ''{''" "char_at src_seventeen 5 = CHR ''}''" "char_at src_seventeen 6 = CHR ''A''" "char_at src_seventeen 7 = CHR ''{''"
  "char_at src_seventeen 8 = CHR ''}''" "char_at src_seventeen 9 = CHR ''A''" "char_at src_seventeen 10 = CHR ''{''" "char_at src_seventeen 11 = CHR ''}''"
  "char_at src_seventeen 12 = CHR ''A''" "char_at src_seventeen 13 = CHR ''{''" "char_at src_seventeen 14 = CHR ''}''" "char_at src_seventeen 15 = CHR ''A''"
  "char_at src_seventeen 16 = CHR ''{''" "char_at src_seventeen 17 = CHR ''}''" "char_at src_seventeen 18 = CHR ''A''" "char_at src_seventeen 19 = CHR ''{''"
  "char_at src_seventeen 20 = CHR ''}''" "char_at src_seventeen 21 = CHR ''A''" "char_at src_seventeen 22 = CHR ''{''" "char_at src_seventeen 23 = CHR ''}''"
  "char_at src_seventeen 24 = CHR ''A''" "char_at src_seventeen 25 = CHR ''{''" "char_at src_seventeen 26 = CHR ''}''" "char_at src_seventeen 27 = CHR ''A''"
  "char_at src_seventeen 28 = CHR ''{''" "char_at src_seventeen 29 = CHR ''}''" "char_at src_seventeen 30 = CHR ''A''" "char_at src_seventeen 31 = CHR ''{''"
  "char_at src_seventeen 32 = CHR ''}''" "char_at src_seventeen 33 = CHR ''A''" "char_at src_seventeen 34 = CHR ''{''" "char_at src_seventeen 35 = CHR ''}''"
  "char_at src_seventeen 36 = CHR ''A''" "char_at src_seventeen 37 = CHR ''{''" "char_at src_seventeen 38 = CHR ''}''" "char_at src_seventeen 39 = CHR ''A''"
  "char_at src_seventeen 40 = CHR ''{''" "char_at src_seventeen 41 = CHR ''}''" "char_at src_seventeen 42 = CHR ''A''" "char_at src_seventeen 43 = CHR ''{''"
  "char_at src_seventeen 44 = CHR ''}''" "char_at src_seventeen 45 = CHR ''A''" "char_at src_seventeen 46 = CHR ''{''" "char_at src_seventeen 47 = CHR ''}''"
  "char_at src_seventeen 48 = CHR ''A''" "char_at src_seventeen 49 = CHR ''{''" "char_at src_seventeen 50 = CHR ''}''" "char_at src_seventeen 51 = NUL"
  "char_at src_seventeen 52 = NUL" "char_at src_seventeen 53 = NUL"
  by (simp_all add: src_seventeen_def char_at_def)

definition src_hex :: string where
  "src_hex = ''@const{A=0x;}''"

lemma src_hex_chars:
  "char_at src_hex 0 = CHR ''@''" "char_at src_hex (Suc 0) = CHR ''c''" "char_at src_hex 2 = CHR ''o''" "char_at src_hex 3 = CHR ''n''"
  "char_at src_hex 4 = CHR ''s''" "char_at src_hex 5 = CHR ''t''" "char_at src_hex 6 = CHR ''{''" "char_at src_hex 7 = CHR ''A''"
  "char_at src_hex 8 = CHR ''=''" "char_at src_hex 9 = CHR ''0''" "char_at src_hex 10 = CHR ''x''" "char_at src_hex 11 = CHR '';''"
  "char_at src_hex 12 = CHR ''}''" "char_at src_hex 13 = NUL" "char_at src_hex 14 = NUL" "char_at src_hex 15 = NUL"
  by (simp_all add: src_hex_def char_at_def)

definition src_not :: string where
  "src_not = ''S{uint8 a;}@filter f{a!>1;}''"

lemma src_not_chars:
  "char_at src_not 0 = CHR ''S''" "char_at src_not (Suc 0) = CHR ''{''" "char_at src_not 2 = CHR ''u''" "char_at src_not 3 = CHR ''i''"
  "char_at src_not 4 = CHR ''n''" "char_at src_not 5 = CHR ''t''" "char_at src_not 6 = CHR ''8''" "char_at src_not 7 = CHR '' ''"
  "char_at src_not 8 = CHR ''a''" "char_at src_not 9 = CHR '';''" "char_at src_not 10 = CHR ''}''" "char_at src_not 11 = CHR ''@''"
  "char_at src_not 12 = CHR ''f''" "char_at src_not 13 = CHR ''i''" "char_at src_not 14 = CHR ''l''" "char_at src_not 15 = CHR ''t''"
  "char_at src_not 16 = CHR ''e''" "char_at src_not 17 = CHR ''r''" "char_at src_not 18 = CHR '' ''" "char_at src_not 19 = CHR ''f''"
  "char_at src_not 20 = CHR ''{''" "char_at src_not 21 = CHR ''a''" "char_at src_not 22 = CHR ''!''" "char_at src_not 23 = CHR ''>''"
  "char_at src_not 24 = CHR ''1''" "char_at src_not 25 = CHR '';''" "char_at src_not 26 = CHR ''}''" "char_at src_not 27 = NUL"
  "char_at src_not 28 = NUL" "char_at src_not 29 = NUL"
  by (simp_all add: src_not_def char_at_def)

definition src_little :: string where
  "src_little = ''@protocol{endian=little;}S{uint16 a;}@filter f{a=1;}''"

lemma src_little_chars:
  "char_at src_little 0 = CHR ''@''" "char_at src_little (Suc 0) = CHR ''p''" "char_at src_little 2 = CHR ''r''" "char_at src_little 3 = CHR ''o''"
  "char_at src_little 4 = CHR ''t''" "char_at src_little 5 = CHR ''o''" "char_at src_little 6 = CHR ''c''" "char_at src_little 7 = CHR ''o''"
  "char_at src_little 8 = CHR ''l''" "char_at src_little 9 = CHR ''{''" "char_at src_little 10 = CHR ''e''" "char_at src_little 11 = CHR ''n''"
  "char_at src_little 12 = CHR ''d''" "char_at src_little 13 = CHR ''i''" "char_at src_little 14 = CHR ''a''" "char_at src_little 15 = CHR ''n''"
  "char_at src_little 16 = CHR ''=''" "char_at src_little 17 = CHR ''l''" "char_at src_little 18 = CHR ''i''" "char_at src_little 19 = CHR ''t''"
  "char_at src_little 20 = CHR ''t''" "char_at src_little 21 = CHR ''l''" "char_at src_little 22 = CHR ''e''" "char_at src_little 23 = CHR '';''"
  "char_at src_little 24 = CHR ''}''" "char_at src_little 25 = CHR ''S''" "char_at src_little 26 = CHR ''{''" "char_at src_little 27 = CHR ''u''"
  "char_at src_little 28 = CHR ''i''" "char_at src_little 29 = CHR ''n''" "char_at src_little 30 = CHR ''t''" "char_at src_little 31 = CHR ''1''"
  "char_at src_little 32 = CHR ''6''" "char_at src_little 33 = CHR '' ''" "char_at src_little 34 = CHR ''a''" "char_at src_little 35 = CHR '';''"
  "char_at src_little 36 = CHR ''}''" "char_at src_little 37 = CHR ''@''" "char_at src_little 38 = CHR ''f''" "char_at src_little 39 = CHR ''i''"
  "char_at src_little 40 = CHR ''l''" "char_at src_little 41 = CHR ''t''" "char_at src_little 42 = CHR ''e''" "char_at src_little 43 = CHR ''r''"
  "char_at src_little 44 = CHR '' ''" "char_at src_little 45 = CHR ''f''" "char_at src_little 46 = CHR ''{''" "char_at src_little 47 = CHR ''a''"
  "char_at src_little 48 = CHR ''=''" "char_at src_little 49 = CHR ''1''" "char_at src_little 50 = CHR '';''" "char_at src_little 51 = CHR ''}''"
  "char_at src_little 52 = NUL" "char_at src_little 53 = NUL" "char_at src_little 54 = NUL"
  by (simp_all add: src_little_def char_at_def)

definition src_auto :: string where
  "src_auto = ''S{uint16 a;}@filter f{a=1;}''"

lemma src_auto_chars:
  "char_at src_auto 0 = CHR ''S''" "char_at src_auto (Suc 0) = CHR ''{''" "char_at src_auto 2 = CHR ''u''" "char_at src_auto 3 = CHR ''i''"
  "char_at src_auto 4 = CHR ''n''" "char_at src_auto 5 = CHR ''t''" "char_at src_auto 6 = CHR ''1''" "char_at src_auto 7 = CHR ''6''"
  "char_at src_auto 8 = CHR '' ''" "char_at src_auto 9 = CHR ''a''" "char_at src_auto 10 = CHR '';''" "char_at src_auto 11 = CHR ''}''"
  "char_at src_auto 12 = CHR ''@''" "char_at src_auto 13 = CHR ''f''" "char_at src_auto 14 = CHR ''i''" "char_at src_auto 15 = CHR ''l''"
  "char_at src_auto 16 = CHR ''t''" "char_at src_auto 17 = CHR ''e''" "char_at src_auto 18 = CHR ''r''" "char_at src_auto 19 = CHR '' ''"
  "char_at src_auto 20 = CHR ''f''" "char_at src_auto 21 = CHR ''{''" "char_at src_auto 22 = CHR ''a''" "char_at src_auto 23 = CHR ''=''"
  "char_at src_auto 24 = CHR ''1''" "char_at src_auto 25 = CHR '';''" "char_at src_auto 26 = CHR ''}''" "char_at src_auto 27 = NUL"
  "char_at src_auto 28 = NUL" "char_at src_auto 29 = NUL"
  by (simp_all add: src_auto_def char_at_def)

definition field_a :: "FieldType \<Rightarrow> u32 \<Rightarrow> Endian \<Rightarrow> Field" where
  "field_a ty sz e = (plain_field ''a'' ty sz)\<lparr>f_endian := e\<rparr>"

definition rule_a :: "ConditionOp \<Rightarrow> TempFilterRule" where
  "rule_a op =
     \<lparr>tr_name = ''f'', tr_struct_name = [],
      tr_conditions =
        [\<lparr>cond_field_name = ''a'', cond_op = op, cond_value = 1, cond_mask = 0, cond_values = []\<rparr>],
      tr_sliding_window = False, tr_sliding_max_offset = 0\<rparr>"

lemmas example_eval = lex_eval parse_eval field_a_def rule_a_def struct_of_def plain_field_def

lemma little_parsed:
  "\<exists>q. parse_blocks (parser_init src_little) = Inr q \<and>
     temp_structs q = [struct_of ''S'' [field_a FIELD_TYPE_UINT16 2 ENDIAN_LITTLE]] \<and>
     temp_filter_rules q = [rule_a COND_EQ] \<and> endian_mode (proto q) = ENDIAN_MODE_LITTLE"
  by (simp add: example_eval src_little_chars)

lemma little_flattened:
  "flatten_structs [struct_of ''S'' [field_a FIELD_TYPE_UINT16 2 ENDIAN_LITTLE]] =
     Inr [(struct_of ''S'' [field_a FIELD_TYPE_UINT16 2 ENDIAN_LITTLE])\<lparr>s_min_size := 2\<rparr>]"
  by (simp add: flatten_eval field_a_def struct_of_def plain_field_def upt_rec)

lemma rule_a_compiles:
  "\<exists>fs. compile_filter_rules
     [(struct_of ''S'' [field_a FIELD_TYPE_UINT16 2 ENDIAN_LITTLE])\<lparr>s_min_size := 2\<rparr>] [rule_a COND_EQ] = Inr fs"
  by (simp add: compile_eval rule_a_def field_a_def struct_of_def plain_field_def)

lemma little_loaded:
  "\<exists>p q. parse_blocks (parser_init src_little) = Inr q \<and> pdef_parse_string src_little = Inr p \<and>
     backward_refs (temp_structs q) \<and> list_all struct_fits (structs p) \<and>
     list_all rule_fits (temp_filter_rules q) \<and> temp_filter_rules q = [rule_a COND_EQ] \<and>
     endian_mode p = ENDIAN_MODE_LITTLE \<and>
     structs p = [(struct_of ''S'' [field_a FIELD_TYPE_UINT16 2 ENDIAN_LITTLE])\<lparr>s_min_size := 2\<rparr>]"
proof -
  let ?ss = "[(struct_of ''S'' [field_a FIELD_TYPE_UINT16 2 ENDIAN_LITTLE])\<lparr>s_min_size := 2\<rparr>]"
  obtain q where q: "parse_blocks (parser_init src_little) = Inr q"
    "temp_structs q = [struct_of ''S'' [field_a FIELD_TYPE_UINT16 2 ENDIAN_LITTLE]]"
    "temp_filter_rules q = [rule_a COND_EQ]" "endian_mode (proto q) = ENDIAN_MODE_LITTLE"
    using little_parsed by blast
  obtain fs where fs: "compile_filter_rules ?ss [rule_a COND_EQ] = Inr fs" using rule_a_compiles by blast
  have "pdef_parse_string src_little = Inr ((proto q)\<lparr>structs := ?ss, filters := fs\<rparr>)"
    using fs by (simp add: pdef_parse_string_def q little_flattened)
  moreover have "backward_refs (temp_structs q)" "list_all struct_fits ?ss"
      "list_all rule_fits (temp_filter_rules q)"
    by (simp_all add: q backward_refs_def declared_in_def struct_fits_def field_extent_def rule_fits_def
        cond_len_def rule_a_def field_a_def struct_of_def plain_field_def upt_rec)
  ultimately show ?thesis using q by (intro exI conjI) (assumption | simp)+
qed

lemma auto_parsed:
  "\<exists>q. parse_blocks (parser_init src_auto) = Inr q \<and>
     temp_structs q = [struct_of ''S'' [field_a FIELD_TYPE_UINT16 2 ENDIAN_BIG]] \<and>
     temp_filter_rules q = [rule_a COND_EQ] \<and> endian_mode (proto q) = ENDIAN_MODE_AUTO \<and>
     detected_endian (proto q) = ENDIAN_TYPE_UNKNOWN"
  by (simp add: example_eval src_auto_chars)

lemma auto_flattened:
  "flatten_structs [struct_of ''S'' [field_a FIELD_TYPE_UINT16 2 ENDIAN_BIG]] =
     Inr [(struct_of ''S'' [field_a FIELD_TYPE_UINT16 2 ENDIAN_BIG])\<lparr>s_min_size := 2\<rparr>]"
  by (simp add: flatten_eval field_a_def struct_of_def plain_field_def upt_rec)

lemma auto_compiles:
  "\<exists>fs. compile_filter_rules
     [(struct_of ''S'' [field_a FIELD_TYPE_UINT16 2 ENDIAN_BIG])\<lparr>s_min_size := 2\<rparr>] [rule_a COND_EQ] = Inr fs"
  by (simp add: compile_eval rule_a_def field_a_def struct_of_def plain_field_def)

lemma auto_loaded:
  "\<exists>p q. parse_blocks (parser_init src_auto) = Inr q \<and> pdef_parse_string src_auto = Inr p \<and>
     backward_refs (temp_structs q) \<and> list_all struct_fits (structs p) \<and>
     list_all rule_fits (temp_filter_rules q) \<and> declared_in_order ENDIAN_BIG (structs p) \<and>
     temp_filter_rules q = [rule_a COND_EQ] \<and>
     endian_mode p = ENDIAN_MODE_AUTO \<and> detected_endian p = ENDIAN_TYPE_UNKNOWN \<and>
     structs p = [(struct_of ''S'' [field_a FIELD_TYPE_UINT16 2 ENDIAN_BIG])\<lparr>s_min_size := 2\<rparr>]"
proof -
  let ?ss = "[(struct_of ''S'' [field_a FIELD_TYPE_UINT16 2 ENDIAN_BIG])\<lparr>s_min_size := 2\<rparr>]"
  obtain q where q: "parse_blocks (parser_init src_auto) = Inr q"
    "temp_structs q = [struct_of ''S'' [field_a FIELD_TYPE_UINT16 2 ENDIAN_BIG]]"
    "temp_filter_rules q = [rule_a COND_EQ]" "endian_mode (proto q) = ENDIAN_MODE_AUTO"
    "detected_endian (proto q) = ENDIAN_TYPE_UNKNOWN"
    using auto_parsed by blast
  obtain fs where fs: "compile_filter_rules ?ss [rule_a COND_EQ] = Inr fs" using auto_compiles by blast
  have "pdef_parse_string src_auto = Inr ((proto q)\<lparr>structs := ?ss, filters := fs\<rparr>)"
    using fs by (simp add: pdef_parse_string_def q auto_flattened)
  moreover have "backward_refs (temp_structs q)" "list_all struct_fits ?ss"
      "list_all rule_fits (temp_filter_rules q)" "declared_in_order ENDIAN_BIG ?ss"
    by (simp_all add: q backward_refs_def declared_in_def struct_fits_def field_extent_def rule_fits_def
        cond_len_def rule_a_def field_a_def struct_of_def plain_field_def upt_rec declared_in_order_def)
  ultimately show ?thesis using q by (intro exI conjI) (assumption | simp)+
qed

section \<open>Properties\<close>

text \<open>
  C1. From the text of a definition to the verdict on a packet.  Take a definition that loads, in automatic
  or big mode, whose fields were declared in the default (big) order, whose nested fields name structs
  declared before them, and whose sizes fit 32 bits.  Then every packet below 4 GB gets a verdict without a
  fault, and it is the documented one: some rule's conditions all hold at the start of the packet, or for
  a sliding rule at some offset below its limit that leaves room for the struct, every field read in big
  order in the mode big, in the detected order in automatic mode, and in either order while none is
  detected.  The port has no influence, whatever ports the definition names (the parser drops them).
  The mode little is the subject of \<open>little_mode_reads_big\<close>.
\<close>

theorem loaded_definition_decides:
  assumes "parse_blocks (parser_init src) = Inr q" "pdef_parse_string src = Inr p"
    and "endian_mode p \<noteq> ENDIAN_MODE_LITTLE" "declared_in_order ENDIAN_BIG (structs p)"
    and "backward_refs (temp_structs q)" "list_all struct_fits (structs p)"
    and "list_all rule_fits (temp_filter_rules q)" "length pkt < 2 ^ 32"
  shows "\<exists>p'. packet_filter_match (Some pkt) (of_nat (length pkt)) port p =
    Inr (list_ex (\<lambda>r. documented_rule (structs p) p r pkt) (temp_filter_rules q), p')"
  using parsed_match_verdict [OF assms(1,2,5-8), of port] by (simp add: rule_matches_documented [OF assms(4,3)])

theorem loaded_definition_decides_witness:
  "\<exists>p (q :: Parser) p'. pdef_parse_string src_auto = Inr p \<and> temp_filter_rules q = [rule_a COND_EQ] \<and>
     packet_filter_match (Some [1, 0]) (of_nat (length [1, 0 :: u8])) 53 p =
       Inr (list_ex (\<lambda>r. documented_rule (structs p) p r [1, 0]) (temp_filter_rules q), p')"
proof -
  obtain p q where l: "parse_blocks (parser_init src_auto) = Inr q" "pdef_parse_string src_auto = Inr p"
    "endian_mode p = ENDIAN_MODE_AUTO" "declared_in_order ENDIAN_BIG (structs p)"
    "backward_refs (temp_structs q)" "list_all struct_fits (structs p)"
    "list_all rule_fits (temp_filter_rules q)" "temp_filter_rules q = [rule_a COND_EQ]"
    using auto_loaded by blast
  have "length [1, 0 :: u8] < 2 ^ 32" "endian_mode p \<noteq> ENDIAN_MODE_LITTLE" using l(3) by simp_all
  from loaded_definition_decides [OF l(1,2) this(2) l(4-7) this(1), of 53] l(2,8) show ?thesis by blast
qed

text \<open>
  C40. A definition in the mode little is read in big order.  When a definition that loads is in the mode
  little and its fields were declared under it, every packet gets the verdict of the rules read in big
  order, the opposite of what the mode asks for: the fields are compiled with little-endian loads, the
  second program swaps them, and the mode runs the second program.
\<close>

theorem little_mode_reads_big:
  assumes "parse_blocks (parser_init src) = Inr q" "pdef_parse_string src = Inr p"
    and "endian_mode p = ENDIAN_MODE_LITTLE" "declared_in_order ENDIAN_LITTLE (structs p)"
    and "backward_refs (temp_structs q)" "list_all struct_fits (structs p)"
    and "list_all rule_fits (temp_filter_rules q)" "length pkt < 2 ^ 32"
  shows "\<exists>p'. packet_filter_match (Some pkt) (of_nat (length pkt)) port p =
    Inr (list_ex (\<lambda>r. rule_reads (structs p) ENDIAN_BIG r pkt) (temp_filter_rules q), p')"
  using parsed_match_verdict [OF assms(1,2,5-8), of port] by (simp add: rule_matches_little [OF assms(4,3)])

theorem little_mode_reads_big_witness:
  "\<exists>p p1 p2. pdef_parse_string src_little = Inr p \<and> endian_mode p = ENDIAN_MODE_LITTLE \<and>
     packet_filter_match (Some [1, 0]) 2 0 p = Inr (False, p1) \<and> packet_filter_match (Some [0, 1]) 2 0 p = Inr (True, p2)"
proof -
  obtain p q where l: "parse_blocks (parser_init src_little) = Inr q" "pdef_parse_string src_little = Inr p"
    "backward_refs (temp_structs q)" "list_all struct_fits (structs p)"
    "list_all rule_fits (temp_filter_rules q)" and r: "temp_filter_rules q = [rule_a COND_EQ]"
    "endian_mode p = ENDIAN_MODE_LITTLE"
    "structs p = [(struct_of ''S'' [field_a FIELD_TYPE_UINT16 2 ENDIAN_LITTLE])\<lparr>s_min_size := 2\<rparr>]"
    using little_loaded by blast
  have order: "declared_in_order ENDIAN_LITTLE (structs p)"
    by (simp add: r declared_in_order_def struct_of_def field_a_def plain_field_def)
  have reads: "\<not> rule_reads (structs p) ENDIAN_BIG (rule_a COND_EQ) [1, 0]" "rule_reads (structs p) ENDIAN_BIG (rule_a COND_EQ) [0, 1]"
    by (simp_all add: r rule_reads_def in_order_def target_struct_def rule_a_def field_a_def
        struct_of_def plain_field_def holds_eval)
  show ?thesis
    using little_mode_reads_big [OF l(1,2) r(2) order l(3-5), of "[1, 0]" 0]
      little_mode_reads_big [OF l(1,2) r(2) order l(3-5), of "[0, 1]" 0] l(2) r(1,2) reads
    by auto
qed

text \<open>
  The seventeenth struct overruns the array.  The array of structs has 16 elements and, unlike
  the array of filters, is written without a check: a source with 17 empty structs makes the parser
  write outside it.
\<close>

theorem seventeenth_struct_overruns:
  "parse_blocks (parser_init src_seventeen) = Inl (Memory_fault Oob_write)"
  by (simp add: lex_eval parse_eval src_seventeen_chars)

text \<open>
  A malformed number is accepted.  The lexer refuses \<open>0x\<close> without digits, but the parser drops
  the result of the token call: \<open>@const{A=0x;}\<close> parses and defines \<open>A\<close> as 0.
\<close>

theorem malformed_hex_accepted:
  "\<exists>q. parse_blocks (parser_init src_hex) = Inr q \<and> lookup_constant q ''A'' = Some 0 \<and>
     lexer_get_error (lexer q) = Some (Invalid_hex_number 1)"
  by (simp add: lex_eval parse_eval src_hex_chars lookup_constant_def protocol_find_constant_def
      lexer_get_error_def)

text \<open>
  A negated comparison loses its negation.  \<open>a!>1\<close> is accepted and parsed as \<open>a>1\<close>: the \<open>!\<close> is
  read, but only \<open>in\<close> uses it.
\<close>

theorem negated_comparison_drops_not:
  "\<exists>q. parse_blocks (parser_init src_not) = Inr q \<and> temp_filter_rules q = [rule_a COND_GT]"
  by (simp add: example_eval src_not_chars)

end
