(* ===== verification/Refinement.thy ===== *)
theory Refinement
  imports Prelude
begin

text \<open>
  The interface by which a stateful component is related to its specification: every operation of
  the implementation, started in a good state, ends without an error in a good state, with the
  result and the abstract state the specification computes.  Runs of operations inherit this.
\<close>

fun run_steps :: "('op \<Rightarrow> 's \<Rightarrow> 'e + 'r \<times> 's) \<Rightarrow> 'op list \<Rightarrow> 's \<Rightarrow> 'e + 'r list \<times> 's" where
  "run_steps step [] s = Inr ([], s)"
| "run_steps step (op # ops) s =
     try_then (step op s) (\<lambda>(r, s1).
     try_then (run_steps step ops s1) (\<lambda>(rs, s2). Inr (r # rs, s2)))"

fun spec_steps :: "('op \<Rightarrow> 'a \<Rightarrow> 'r \<times> 'a) \<Rightarrow> 'op list \<Rightarrow> 'a \<Rightarrow> 'r list \<times> 'a" where
  "spec_steps spec [] a = ([], a)"
| "spec_steps spec (op # ops) a =
     (case spec op a of (r, a1) \<Rightarrow> (case spec_steps spec ops a1 of (rs, a2) \<Rightarrow> (r # rs, a2)))"

text \<open>A sequence all of whose operations are legal where they are made.\<close>

fun legal_steps :: "('op \<Rightarrow> 'a \<Rightarrow> 'r \<times> 'a) \<Rightarrow> ('op \<Rightarrow> 'a \<Rightarrow> bool) \<Rightarrow> 'op list \<Rightarrow> 'a \<Rightarrow> bool" where
  "legal_steps spec legal [] a \<longleftrightarrow> True"
| "legal_steps spec legal (op # ops) a \<longleftrightarrow> legal op a \<and> legal_steps spec legal ops (snd (spec op a))"

locale data_refinement =
  fixes step :: "'op \<Rightarrow> 's \<Rightarrow> 'e + 'r \<times> 's" and spec :: "'op \<Rightarrow> 'a \<Rightarrow> 'r \<times> 'a"
    and ok :: "'s \<Rightarrow> bool" and abs :: "'s \<Rightarrow> 'a"
  assumes step_refines:
    "ok s \<Longrightarrow> \<exists>r s'. step op s = Inr (r, s') \<and> ok s' \<and> spec op (abs s) = (r, abs s')"
begin

lemma run_refines:
  "ok s \<Longrightarrow> \<exists>rs s'. run_steps step ops s = Inr (rs, s') \<and> ok s' \<and> spec_steps spec ops (abs s) = (rs, abs s')"
proof (induction ops arbitrary: s)
  case (Cons op ops)
  from step_refines [OF Cons.prems] obtain r s1 where
    1: "step op s = Inr (r, s1)" "ok s1" "spec op (abs s) = (r, abs s1)" by blast
  from Cons.IH [OF 1(2)] obtain rs s2 where
    "run_steps step ops s1 = Inr (rs, s2)" "ok s2" "spec_steps spec ops (abs s1) = (rs, abs s2)" by blast
  then show ?case using 1 by simp
qed simp

lemma run_ok: "\<lbrakk>ok s; run_steps step ops s = Inr (rs, s')\<rbrakk> \<Longrightarrow> ok s'"
  using run_refines [of s ops] by auto

lemma run_result:
  "\<lbrakk>ok s; run_steps step ops s = Inr (rs, s')\<rbrakk> \<Longrightarrow> spec_steps spec ops (abs s) = (rs, abs s')"
  using run_refines [of s ops] by auto

end

text \<open>With an invariant of the specification that the legal operations keep.\<close>

locale invariant_refinement = data_refinement step spec ok abs
  for step :: "'op \<Rightarrow> 's \<Rightarrow> 'e + 'r \<times> 's" and spec :: "'op \<Rightarrow> 'a \<Rightarrow> 'r \<times> 'a"
    and ok :: "'s \<Rightarrow> bool" and abs :: "'s \<Rightarrow> 'a" +
  fixes legal :: "'op \<Rightarrow> 'a \<Rightarrow> bool" and good :: "'a \<Rightarrow> bool"
  assumes spec_good: "\<lbrakk>good a; legal op a\<rbrakk> \<Longrightarrow> good (snd (spec op a))"
begin

lemma spec_steps_good: "\<lbrakk>good a; legal_steps spec legal ops a\<rbrakk> \<Longrightarrow> good (snd (spec_steps spec ops a))"
proof (induction ops arbitrary: a)
  case (Cons op ops)
  obtain r a1 rs a2 where "spec op a = (r, a1)" "spec_steps spec ops a1 = (rs, a2)" by fastforce
  then show ?case using Cons.prems spec_good [of a op] Cons.IH [of a1] by simp
qed simp

lemma run_good:
  assumes "ok s" "good (abs s)" "legal_steps spec legal ops (abs s)"
  shows "\<exists>rs s'. run_steps step ops s = Inr (rs, s') \<and> ok s' \<and> good (abs s') \<and>
    spec_steps spec ops (abs s) = (rs, abs s')"
  using run_refines [OF assms(1), of ops] spec_steps_good [OF assms(2,3)] by auto

end

end
