(* ===== verification/Capture_Types.thy ===== *)
theory Capture_Types
  imports Prelude
begin

text \<open>
  The capture task and the file and archive records of \<open>src/src/rxcapturetasktypes.h\<close>, with the
  task table indexed by key.  A field \<open>f\<close> of the C++ struct is the field with the prefix of its
  record: \<open>t_\<close> for tasks, \<open>fi_\<close> for files, \<open>ai_\<close> for archives.  \<open>int\<close>, \<open>long\<close>, \<open>pid_t\<close> and
  \<open>int64_t\<close> are integers (no operation here does arithmetic that leaves their range), unsigned
  counters are 64-bit words.
\<close>

section \<open>Data\<close>

record ObjId =
  obj_id :: u32
  obj_thread_index :: u32

record CaptureFileInfo =
  fi_file_path :: string
  fi_file_size :: u64
  fi_segment_index :: int
  fi_total_segments :: int
  fi_md5 :: string
  fi_file_ready_ts :: int
  fi_compressed :: bool
  fi_archive_path :: string
  fi_compress_finish_ts :: int
  fi_record_path :: string

definition CaptureFileInfo_new :: CaptureFileInfo where
  "CaptureFileInfo_new =
     \<lparr>fi_file_path = [], fi_file_size = 0, fi_segment_index = 0, fi_total_segments = 1, fi_md5 = [],
      fi_file_ready_ts = 0, fi_compressed = False, fi_archive_path = [], fi_compress_finish_ts = 0,
      fi_record_path = []\<rparr>"

record CaptureArchiveInfo =
  ai_archive_path :: string
  ai_files :: "CaptureFileInfo list"
  ai_archive_size :: u64
  ai_compress_finish_ts :: int

definition CaptureArchiveInfo_new :: CaptureArchiveInfo where
  "CaptureArchiveInfo_new =
     \<lparr>ai_archive_path = [], ai_files = [], ai_archive_size = 0, ai_compress_finish_ts = 0\<rparr>"

datatype ECaptureMode = MODE_INTERFACE | MODE_PROCESS | MODE_PID | MODE_CONTAINER

datatype ECaptureTaskStatus =
  STATUS_PENDING | STATUS_RESOLVING | STATUS_RUNNING | STATUS_COMPLETED | STATUS_FAILED | STATUS_STOPPED

record SRxCaptureTask =
  t_capture_id :: int
  t_key :: string
  t_signature :: string
  t_sid :: string
  t_capture_mode :: ECaptureMode
  t_iface :: string
  t_proc_name :: string
  t_target_pid :: int
  t_container_id :: string
  t_netns_path :: string
  t_filter :: string
  t_protocol_filter :: string
  t_ip_filter :: string
  t_port_filter :: int
  t_category :: string
  t_file_pattern :: string
  t_duration_sec :: int
  t_max_bytes :: int
  t_max_packets :: int
  t_priority :: int
  t_status :: ECaptureTaskStatus
  t_capture_pid :: int
  t_output_file :: string
  t_start_time :: int
  t_end_time :: int
  t_matched_pids :: "int list"
  t_resolved_iface :: string
  t_worker_thread_index :: u32
  t_stop_requested :: bool
  t_cancel_requested :: bool
  t_packet_count :: u64
  t_bytes_captured :: u64
  t_error_message :: string
  t_captured_files :: "CaptureFileInfo list"
  t_archives :: "CaptureArchiveInfo list"
  t_reply_target :: ObjId
  t_client_ip :: string
  t_request_user :: string

text \<open>The constructor stands in \<open>src/src/rxcapturemanagerthread.cpp\<close>.\<close>

definition SRxCaptureTask_new :: SRxCaptureTask where
  "SRxCaptureTask_new =
     \<lparr>t_capture_id = - 1, t_key = [], t_signature = [], t_sid = [], t_capture_mode = MODE_INTERFACE,
      t_iface = [], t_proc_name = [], t_target_pid = - 1, t_container_id = [], t_netns_path = [],
      t_filter = [], t_protocol_filter = [], t_ip_filter = [], t_port_filter = 0, t_category = [],
      t_file_pattern = [], t_duration_sec = 0, t_max_bytes = 0, t_max_packets = 0, t_priority = 0,
      t_status = STATUS_PENDING, t_capture_pid = - 1, t_output_file = [], t_start_time = 0,
      t_end_time = 0, t_matched_pids = [], t_resolved_iface = [], t_worker_thread_index = 0,
      t_stop_requested = False, t_cancel_requested = False, t_packet_count = 0, t_bytes_captured = 0,
      t_error_message = [], t_captured_files = [], t_archives = [],
      t_reply_target = \<lparr>obj_id = 0, obj_thread_index = 0\<rparr>, t_client_ip = [], t_request_user = []\<rparr>"

section \<open>The task table by key\<close>

text \<open>
  Entries are shared pointers, \<open>None\<close> for the null pointer.  A task in the table is never written
  through its pointer, \<open>update_status\<close> stores a modified copy, so an entry is the value.
\<close>

record CaptureTaskTable =
  ct_tasks :: "string \<rightharpoonup> SRxCaptureTask option"
  ct_id_to_key :: "int \<rightharpoonup> string"

definition CaptureTaskTable_new :: CaptureTaskTable where
  "CaptureTaskTable_new = \<lparr>ct_tasks = Map.empty, ct_id_to_key = Map.empty\<rparr>"

definition ct_add_task :: "string \<Rightarrow> SRxCaptureTask \<Rightarrow> CaptureTaskTable \<Rightarrow> CaptureTaskTable" where
  "ct_add_task key task t =
     t\<lparr>ct_tasks := (ct_tasks t)(key \<mapsto> Some task),
       ct_id_to_key := (ct_id_to_key t)(t_capture_id task \<mapsto> key)\<rparr>"

definition ct_update_status :: "int \<Rightarrow> ECaptureTaskStatus \<Rightarrow> CaptureTaskTable \<Rightarrow> CaptureTaskTable" where
  "ct_update_status capture_id new_status t =
     (case ct_id_to_key t capture_id of
        None \<Rightarrow> t
      | Some key \<Rightarrow>
          (case ct_tasks t key of
             Some (Some task) \<Rightarrow> t\<lparr>ct_tasks := (ct_tasks t)(key \<mapsto> Some (task\<lparr>t_status := new_status\<rparr>))\<rparr>
           | _ \<Rightarrow> t))"

definition ct_remove_task :: "int \<Rightarrow> CaptureTaskTable \<Rightarrow> CaptureTaskTable" where
  "ct_remove_task capture_id t =
     (case ct_id_to_key t capture_id of
        None \<Rightarrow> t
      | Some key \<Rightarrow>
          t\<lparr>ct_tasks := (ct_tasks t)(key := None), ct_id_to_key := (ct_id_to_key t)(capture_id := None)\<rparr>)"

text \<open>
  Ids and keys match when every id leads to a task with that id.  Adding a task under a key that is
  in use leaves the id of the replaced task in the index, so the operations keep this only for
  fresh keys and ids.
\<close>

definition ct_wf :: "CaptureTaskTable \<Rightarrow> bool" where
  "ct_wf t \<longleftrightarrow>
     (\<forall>i k. ct_id_to_key t i = Some k \<longleftrightarrow> (\<exists>x. ct_tasks t k = Some (Some x) \<and> t_capture_id x = i)) \<and>
     (\<forall>k. ct_tasks t k \<noteq> Some None)"

lemma ct_wf_entry:
  "ct_wf t \<Longrightarrow> ct_id_to_key t i = Some k \<longleftrightarrow> (\<exists>x. ct_tasks t k = Some (Some x) \<and> t_capture_id x = i)"
  by (simp add: ct_wf_def)

lemma ct_wf_null: "ct_wf t \<Longrightarrow> ct_tasks t k \<noteq> Some None"
  by (simp add: ct_wf_def)

lemma ct_wf_new: "ct_wf CaptureTaskTable_new"
  by (simp add: ct_wf_def CaptureTaskTable_new_def)

lemma ct_wf_add:
  assumes wf: "ct_wf t" and key: "ct_tasks t key = None" and i: "ct_id_to_key t (t_capture_id task) = None"
  shows "ct_wf (ct_add_task key task t)"
proof -
  have "t_capture_id x \<noteq> t_capture_id task" if "ct_tasks t k = Some (Some x)" for k x
    using ct_wf_entry [OF wf, of "t_capture_id task" k] that i by auto
  then show ?thesis
    using ct_wf_entry [OF wf] ct_wf_null [OF wf] key
    by (auto simp: ct_wf_def ct_add_task_def)
qed

lemma ct_wf_update_status: "ct_wf t \<Longrightarrow> ct_wf (ct_update_status i st t)"
  by (auto simp: ct_wf_def ct_update_status_def split: option.splits)

text \<open>Removing an entry from an index and the table it mirrors, for any kind of entry.\<close>

lemma index_remove:
  assumes "\<And>j k. ix j = Some k \<longleftrightarrow> (\<exists>x. ts k = Some (Some x) \<and> f x = j)" "ix i = Some key"
  shows "(ix(i := None)) j = Some k \<longleftrightarrow> (\<exists>y. (ts(key := None)) k = Some (Some y) \<and> f y = j)"
  using assms(1) [of j k] assms(1) [of i k] assms(2)
  by (cases "j = i"; cases "k = key") auto

lemma ct_wf_remove:
  assumes wf: "ct_wf t"
  shows "ct_wf (ct_remove_task i t)"
proof (cases "ct_id_to_key t i")
  case (Some key)
  have "((ct_id_to_key t)(i := None)) j = Some k \<longleftrightarrow>
      (\<exists>y. ((ct_tasks t)(key := None)) k = Some (Some y) \<and> t_capture_id y = j)" for j k
    by (rule index_remove [OF ct_wf_entry [OF wf] Some])
  then show ?thesis using ct_wf_null [OF wf] Some
    unfolding ct_wf_def ct_remove_task_def by simp
qed (simp add: ct_remove_task_def wf)

end
