(* ===== verification/Task_Manager.thy ===== *)
theory Task_Manager
  imports Capture_Types
begin

text \<open>
  The task table shared between the threads, \<open>src/src/rxsafetaskmgr.h\<close>.  Tasks live on an explicit
  heap; a pointer is an address, \<open>None\<close> the null pointer.  The allocator hands out addresses that
  were never used before, so that every access through a freed pointer is a fault.  The two tables
  hold pointers; operations work on the current one or on a copy that then becomes current.
  \<open>delete\<close> of an address that is not allocated is a double free.
\<close>

section \<open>Memory\<close>

datatype mem_fault = Use_after_free | Double_free

type_synonym addr = nat

type_synonym heap = "addr \<rightharpoonup> SRxCaptureTask"

definition deref :: "heap \<Rightarrow> addr \<Rightarrow> mem_fault + SRxCaptureTask" where
  "deref h a = (case h a of None \<Rightarrow> Inl Use_after_free | Some t \<Rightarrow> Inr t)"

definition delete :: "heap \<Rightarrow> addr \<Rightarrow> mem_fault + heap" where
  "delete h a = (case h a of None \<Rightarrow> Inl Double_free | Some t \<Rightarrow> Inr (h(a := None)))"

fun delete_all :: "heap \<Rightarrow> addr list \<Rightarrow> mem_fault + heap" where
  "delete_all h [] = Inr h"
| "delete_all h (a # as) = try_then (delete h a) (\<lambda>h1. delete_all h1 as)"

section \<open>Snapshots and statistics\<close>

record TaskSnapshot =
  sn_capture_id :: int
  sn_key :: string
  sn_signature :: string
  sn_sid :: string
  sn_status :: ECaptureTaskStatus
  sn_capture_mode :: ECaptureMode
  sn_iface :: string
  sn_proc_name :: string
  sn_target_pid :: int
  sn_worker_thread_index :: u32
  sn_stop_requested :: bool
  sn_cancel_requested :: bool
  sn_filter :: string
  sn_port_filter :: int
  sn_duration_sec :: int
  sn_start_time :: int
  sn_end_time :: int
  sn_packet_count :: u64
  sn_bytes_captured :: u64
  sn_error_message :: string
  sn_client_ip :: string
  sn_request_user :: string
  sn_captured_files :: "CaptureFileInfo list"
  sn_archives :: "CaptureArchiveInfo list"

definition snapshot_of :: "SRxCaptureTask \<Rightarrow> TaskSnapshot" where
  "snapshot_of t =
     \<lparr>sn_capture_id = t_capture_id t, sn_key = t_key t, sn_signature = t_signature t,
      sn_sid = t_sid t, sn_status = t_status t, sn_capture_mode = t_capture_mode t,
      sn_iface = t_iface t, sn_proc_name = t_proc_name t, sn_target_pid = t_target_pid t,
      sn_worker_thread_index = t_worker_thread_index t, sn_stop_requested = t_stop_requested t,
      sn_cancel_requested = t_cancel_requested t, sn_filter = t_filter t,
      sn_port_filter = t_port_filter t, sn_duration_sec = t_duration_sec t,
      sn_start_time = t_start_time t, sn_end_time = t_end_time t, sn_packet_count = t_packet_count t,
      sn_bytes_captured = t_bytes_captured t, sn_error_message = t_error_message t,
      sn_client_ip = t_client_ip t, sn_request_user = t_request_user t,
      sn_captured_files = t_captured_files t, sn_archives = t_archives t\<rparr>"

record TaskStats =
  total_count :: u64
  pending_count :: u64
  resolving_count :: u64
  running_count :: u64
  completed_count :: u64
  failed_count :: u64
  stopped_count :: u64

definition TaskStats_new :: TaskStats where
  "TaskStats_new =
     \<lparr>total_count = 0, pending_count = 0, resolving_count = 0, running_count = 0,
      completed_count = 0, failed_count = 0, stopped_count = 0\<rparr>"

section \<open>One table\<close>

record TaskTable =
  slots :: "int \<rightharpoonup> addr option"
  key_to_id :: "string \<rightharpoonup> int"
  signature_to_id :: "string \<rightharpoonup> int"
  sid_to_id :: "string \<rightharpoonup> int"

definition TaskTable_new :: TaskTable where
  "TaskTable_new =
     \<lparr>slots = Map.empty, key_to_id = Map.empty, signature_to_id = Map.empty, sid_to_id = Map.empty\<rparr>"

definition is_active_status :: "ECaptureTaskStatus \<Rightarrow> bool" where
  "is_active_status status \<longleftrightarrow>
     status = STATUS_PENDING \<or> status = STATUS_RESOLVING \<or> status = STATUS_RUNNING"

text \<open>The task is written through its pointer, hence the heap in the result.\<close>

definition tt_add_task ::
  "heap \<Rightarrow> TaskTable \<Rightarrow> int \<Rightarrow> string \<Rightarrow> string \<Rightarrow> string \<Rightarrow> addr \<Rightarrow> mem_fault + heap \<times> TaskTable" where
  "tt_add_task h t capture_id key signature sid a =
     try_then (deref h a) (\<lambda>task.
       Inr (h(a \<mapsto> task\<lparr>t_signature := signature, t_sid := sid\<rparr>),
            t\<lparr>slots := (slots t)(capture_id \<mapsto> Some a),
              key_to_id := (key_to_id t)(key \<mapsto> capture_id),
              signature_to_id :=
                (if signature \<noteq> [] \<and> is_active_status (t_status task)
                 then (signature_to_id t)(signature \<mapsto> capture_id) else signature_to_id t),
              sid_to_id := (if sid \<noteq> [] then (sid_to_id t)(sid \<mapsto> capture_id) else sid_to_id t)\<rparr>))"

definition erase_if :: "(string \<rightharpoonup> int) \<Rightarrow> string \<Rightarrow> int \<Rightarrow> (string \<rightharpoonup> int)" where
  "erase_if m s i = (if s \<noteq> [] \<and> m s = Some i then m(s := None) else m)"

definition tt_remove_task :: "heap \<Rightarrow> TaskTable \<Rightarrow> int \<Rightarrow> mem_fault + addr option \<times> TaskTable" where
  "tt_remove_task h t capture_id =
     (case slots t capture_id of
        None \<Rightarrow> Inr (None, t)
      | Some None \<Rightarrow> Inr (None, t\<lparr>slots := (slots t)(capture_id := None)\<rparr>)
      | Some (Some a) \<Rightarrow>
          try_then (deref h a) (\<lambda>old_task.
            Inr (Some a,
                 t\<lparr>slots := (slots t)(capture_id := None),
                   key_to_id := (key_to_id t)(t_key old_task := None),
                   signature_to_id := erase_if (signature_to_id t) (t_signature old_task) capture_id,
                   sid_to_id := erase_if (sid_to_id t) (t_sid old_task) capture_id\<rparr>)))"

text \<open>A query returns the snapshot, or nothing when it returns \<open>false\<close>.\<close>

definition tt_query_task :: "heap \<Rightarrow> TaskTable \<Rightarrow> int \<Rightarrow> mem_fault + TaskSnapshot option" where
  "tt_query_task h t capture_id =
     (case slots t capture_id of
        Some (Some a) \<Rightarrow> try_then (deref h a) (\<lambda>task. Inr (Some (snapshot_of task)))
      | _ \<Rightarrow> Inr None)"

definition query_index ::
  "heap \<Rightarrow> TaskTable \<Rightarrow> (string \<rightharpoonup> int) \<Rightarrow> string \<Rightarrow> mem_fault + TaskSnapshot option" where
  "query_index h t m s = (case m s of None \<Rightarrow> Inr None | Some i \<Rightarrow> tt_query_task h t i)"

definition tt_query_task_by_key where
  "tt_query_task_by_key h t key = query_index h t (key_to_id t) key"

definition tt_query_task_by_signature where
  "tt_query_task_by_signature h t signature = query_index h t (signature_to_id t) signature"

definition tt_query_task_by_sid where
  "tt_query_task_by_sid h t sid = query_index h t (sid_to_id t) sid"

section \<open>Updates of one task\<close>

definition ts_secs :: "int \<Rightarrow> int" where
  "ts_secs ts_usec = (if ts_usec \<le> 0 then 0 else ts_usec div 1000000)"

definition updater_start :: "int \<Rightarrow> int \<Rightarrow> string \<Rightarrow> SRxCaptureTask \<Rightarrow> SRxCaptureTask" where
  "updater_start ts pid file task =
     (let task1 = task\<lparr>t_start_time := ts_secs ts, t_capture_pid := pid\<rparr> in
      if file \<noteq> [] then task1\<lparr>t_output_file := file\<rparr> else task1)"

definition updater_progress :: "u64 \<Rightarrow> u64 \<Rightarrow> int \<Rightarrow> SRxCaptureTask \<Rightarrow> SRxCaptureTask" where
  "updater_progress packets bytes last_ts task =
     (let task1 = (if packets > 0 then task\<lparr>t_packet_count := packets\<rparr> else task);
          task2 = (if bytes > 0 then task1\<lparr>t_bytes_captured := bytes\<rparr> else task1)
      in if last_ts > 0 then task2\<lparr>t_end_time := ts_secs last_ts\<rparr> else task2)"

definition updater_finished :: "int \<Rightarrow> u64 \<Rightarrow> u64 \<Rightarrow> string \<Rightarrow> SRxCaptureTask \<Rightarrow> SRxCaptureTask" where
  "updater_finished ts packets bytes path task =
     (let task1 = task\<lparr>t_end_time := ts_secs ts, t_packet_count := packets, t_bytes_captured := bytes\<rparr> in
      if path \<noteq> [] then task1\<lparr>t_output_file := path\<rparr> else task1)"

text \<open>\<open>now\<close> is the result of \<open>time (NULL)\<close>.\<close>

definition updater_failed :: "int \<Rightarrow> string \<Rightarrow> SRxCaptureTask \<Rightarrow> SRxCaptureTask" where
  "updater_failed now msg task = task\<lparr>t_error_message := msg, t_end_time := now\<rparr>"

text \<open>Replace the first file with the same path, or append.\<close>

fun put_file :: "CaptureFileInfo \<Rightarrow> CaptureFileInfo list \<Rightarrow> CaptureFileInfo list" where
  "put_file f [] = [f]"
| "put_file f (g # gs) = (if fi_file_path g = fi_file_path f then f # gs else g # put_file f gs)"

definition append_files :: "CaptureFileInfo list \<Rightarrow> SRxCaptureTask \<Rightarrow> SRxCaptureTask" where
  "append_files files task = task\<lparr>t_captured_files := fold put_file files (t_captured_files task)\<rparr>"

fun put_archive :: "CaptureArchiveInfo \<Rightarrow> CaptureArchiveInfo list \<Rightarrow> CaptureArchiveInfo list" where
  "put_archive a [] = [a]"
| "put_archive a (b # bs) =
     (if ai_archive_path b = ai_archive_path a \<and> ai_archive_path a \<noteq> [] then a # bs
      else b # put_archive a bs)"

definition archive_recorder :: "CaptureArchiveInfo \<Rightarrow> SRxCaptureTask \<Rightarrow> SRxCaptureTask" where
  "archive_recorder archive task =
     task\<lparr>t_archives := put_archive archive (t_archives task),
          t_captured_files := fold put_file (ai_files archive) (t_captured_files task)\<rparr>"

section \<open>The manager\<close>

record CRxSafeTaskMgr =
  mg_heap :: heap
  mg_next :: addr
  mg_tables :: "nat \<Rightarrow> TaskTable"
  mg_curr :: nat
  mg_stats :: TaskStats
  mg_pending_deletes :: "addr list"

definition CRxSafeTaskMgr_new :: CRxSafeTaskMgr where
  "CRxSafeTaskMgr_new =
     \<lparr>mg_heap = Map.empty, mg_next = 0, mg_tables = (\<lambda>_. TaskTable_new), mg_curr = 0,
      mg_stats = TaskStats_new, mg_pending_deletes = []\<rparr>"

definition current :: "CRxSafeTaskMgr \<Rightarrow> TaskTable" where
  "current m = mg_tables m (mg_curr m)"

text \<open>\<open>new SRxCaptureTask (task)\<close>\<close>

definition new_task :: "SRxCaptureTask \<Rightarrow> CRxSafeTaskMgr \<Rightarrow> addr \<times> CRxSafeTaskMgr" where
  "new_task task m =
     (mg_next m, m\<lparr>mg_heap := (mg_heap m)(mg_next m \<mapsto> task), mg_next := Suc (mg_next m)\<rparr>)"

definition bump :: "u64 \<Rightarrow> ECaptureTaskStatus \<Rightarrow> TaskStats \<Rightarrow> TaskStats" where
  "bump d status s0 =
     (let s = s0\<lparr>total_count := total_count s0 + d\<rparr> in
      case status of
        STATUS_PENDING \<Rightarrow> s\<lparr>pending_count := pending_count s + d\<rparr>
      | STATUS_RESOLVING \<Rightarrow> s\<lparr>resolving_count := resolving_count s + d\<rparr>
      | STATUS_RUNNING \<Rightarrow> s\<lparr>running_count := running_count s + d\<rparr>
      | STATUS_COMPLETED \<Rightarrow> s\<lparr>completed_count := completed_count s + d\<rparr>
      | STATUS_FAILED \<Rightarrow> s\<lparr>failed_count := failed_count s + d\<rparr>
      | STATUS_STOPPED \<Rightarrow> s\<lparr>stopped_count := stopped_count s + d\<rparr>)"

definition increment_status_count :: "ECaptureTaskStatus \<Rightarrow> CRxSafeTaskMgr \<Rightarrow> CRxSafeTaskMgr" where
  "increment_status_count status m = m\<lparr>mg_stats := bump 1 status (mg_stats m)\<rparr>"

definition decrement_status_count :: "ECaptureTaskStatus \<Rightarrow> CRxSafeTaskMgr \<Rightarrow> CRxSafeTaskMgr" where
  "decrement_status_count status m = m\<lparr>mg_stats := bump (- 1) status (mg_stats m)\<rparr>"

definition get_stats :: "CRxSafeTaskMgr \<Rightarrow> TaskStats" where
  "get_stats m = mg_stats m"

text \<open>The count of a task that leaves the table goes down and its pointer is kept for deletion.\<close>

definition retire :: "addr \<Rightarrow> CRxSafeTaskMgr \<Rightarrow> mem_fault + CRxSafeTaskMgr" where
  "retire a m =
     try_then (deref (mg_heap m) a) (\<lambda>old.
       Inr ((decrement_status_count (t_status old) m)\<lparr>mg_pending_deletes := mg_pending_deletes m @ [a]\<rparr>))"

text \<open>\<open>evict m t i\<close> removes task \<open>i\<close> from the table \<open>t\<close> under construction.\<close>

definition evict :: "CRxSafeTaskMgr \<Rightarrow> TaskTable \<Rightarrow> int \<Rightarrow> mem_fault + CRxSafeTaskMgr \<times> TaskTable" where
  "evict m t i =
     try_then (tt_remove_task (mg_heap m) t i) (\<lambda>(old, t1).
       case old of
         None \<Rightarrow> Inr (m, t1)
       | Some a \<Rightarrow> try_then (retire a m) (\<lambda>m1. Inr (m1, t1)))"

definition evict_other ::
  "CRxSafeTaskMgr \<Rightarrow> TaskTable \<Rightarrow> (string \<rightharpoonup> int) \<Rightarrow> string \<Rightarrow> int \<Rightarrow> mem_fault + CRxSafeTaskMgr \<times> TaskTable" where
  "evict_other m t ix s capture_id =
     (case ix s of
        Some i \<Rightarrow> if i \<noteq> capture_id then evict m t i else Inr (m, t)
      | None \<Rightarrow> Inr (m, t))"

definition clear_slot :: "CRxSafeTaskMgr \<Rightarrow> TaskTable \<Rightarrow> int \<Rightarrow> mem_fault + CRxSafeTaskMgr \<times> TaskTable" where
  "clear_slot m t capture_id =
     (case slots t capture_id of
        None \<Rightarrow> Inr (m, t)
      | Some p \<Rightarrow>
          (let t1 = t\<lparr>slots := (slots t)(capture_id \<mapsto> None)\<rparr> in
           case p of
             None \<Rightarrow> Inr (m, t1)
           | Some a \<Rightarrow> try_then (retire a m) (\<lambda>m1. Inr (m1, t1))))"

definition publish_table :: "CRxSafeTaskMgr \<Rightarrow> TaskTable \<Rightarrow> CRxSafeTaskMgr" where
  "publish_table m t =
     (let idle = 1 - mg_curr m in m\<lparr>mg_tables := (mg_tables m)(idle := t), mg_curr := idle\<rparr>)"

definition mgr_add_task ::
  "int \<Rightarrow> string \<Rightarrow> string \<Rightarrow> string \<Rightarrow> addr option \<Rightarrow> CRxSafeTaskMgr \<Rightarrow> mem_fault + bool \<times> CRxSafeTaskMgr" where
  "mgr_add_task capture_id key signature sid task m =
     (case task of
        None \<Rightarrow> Inr (False, m)
      | Some a \<Rightarrow>
          try_then (clear_slot m (current m) capture_id) (\<lambda>(m1, t1).
          try_then (evict_other m1 t1 (key_to_id t1) key capture_id) (\<lambda>(m2, t2).
          try_then (if signature \<noteq> [] then evict_other m2 t2 (signature_to_id t2) signature capture_id
                    else Inr (m2, t2)) (\<lambda>(m3, t3).
          try_then (if sid \<noteq> [] then evict_other m3 t3 (sid_to_id t3) sid capture_id
                    else Inr (m3, t3)) (\<lambda>(m4, t4).
          try_then (tt_add_task (mg_heap m4) t4 capture_id key signature sid a) (\<lambda>(h5, t5).
          (let m5 = publish_table (m4\<lparr>mg_heap := h5\<rparr>) t5 in
           try_then (deref (mg_heap m5) a) (\<lambda>task.
             Inr (True, increment_status_count (t_status task) m5)))))))))"

definition mgr_remove_task :: "int \<Rightarrow> CRxSafeTaskMgr \<Rightarrow> mem_fault + CRxSafeTaskMgr" where
  "mgr_remove_task capture_id m =
     try_then (tt_remove_task (mg_heap m) (current m) capture_id) (\<lambda>(old, t1).
       (let m1 = publish_table m t1 in
        case old of None \<Rightarrow> Inr m1 | Some a \<Rightarrow> retire a m1))"

text \<open>
  \<open>replace_task\<close> is the common part of \<open>update_status\<close> and of the template \<open>update_task\<close>: the
  modified copy is entered into the indices of the current table and exchanged into its slot.
\<close>

definition reindex :: "int \<Rightarrow> SRxCaptureTask \<Rightarrow> TaskTable \<Rightarrow> TaskTable" where
  "reindex capture_id task t =
     t\<lparr>signature_to_id :=
         (if t_signature task \<noteq> [] then
            if is_active_status (t_status task) then (signature_to_id t)(t_signature task \<mapsto> capture_id)
            else erase_if (signature_to_id t) (t_signature task) capture_id
          else signature_to_id t),
       sid_to_id := (if t_sid task \<noteq> [] then (sid_to_id t)(t_sid task \<mapsto> capture_id) else sid_to_id t)\<rparr>"

definition replace_task :: "int \<Rightarrow> addr \<Rightarrow> SRxCaptureTask \<Rightarrow> CRxSafeTaskMgr \<Rightarrow> CRxSafeTaskMgr" where
  "replace_task capture_id old task m =
     (let (a, m1) = new_task task m;
          t1 = reindex capture_id task (current m1);
          t2 = t1\<lparr>slots := (slots t1)(capture_id \<mapsto> Some a)\<rparr>
      in m1\<lparr>mg_tables := (mg_tables m1)(mg_curr m1 := t2),
            mg_pending_deletes := mg_pending_deletes m1 @ [old]\<rparr>)"

definition mgr_update_status ::
  "int \<Rightarrow> ECaptureTaskStatus \<Rightarrow> CRxSafeTaskMgr \<Rightarrow> mem_fault + bool \<times> CRxSafeTaskMgr" where
  "mgr_update_status capture_id new_status m =
     (case slots (current m) capture_id of
        Some (Some old) \<Rightarrow>
          try_then (deref (mg_heap m) old) (\<lambda>old_task.
            (let m1 = replace_task capture_id old (old_task\<lparr>t_status := new_status\<rparr>) m in
             Inr (True, increment_status_count new_status
                          (decrement_status_count (t_status old_task) m1))))
      | _ \<Rightarrow> Inr (False, m))"

definition mgr_update_task ::
  "int \<Rightarrow> (SRxCaptureTask \<Rightarrow> SRxCaptureTask) \<Rightarrow> CRxSafeTaskMgr \<Rightarrow> mem_fault + bool \<times> CRxSafeTaskMgr" where
  "mgr_update_task capture_id updater m =
     (case slots (current m) capture_id of
        Some (Some old) \<Rightarrow>
          try_then (deref (mg_heap m) old) (\<lambda>old_task.
            (let task = updater old_task;
                 m1 = replace_task capture_id old task m
             in Inr (True,
                  if t_status old_task \<noteq> t_status task
                  then increment_status_count (t_status task)
                         (decrement_status_count (t_status old_task) m1)
                  else m1)))
      | _ \<Rightarrow> Inr (False, m))"

text \<open>An update followed, when it was made, by a change of status.\<close>

definition update_then_status ::
  "int \<Rightarrow> (SRxCaptureTask \<Rightarrow> SRxCaptureTask) \<Rightarrow> ECaptureTaskStatus \<Rightarrow> CRxSafeTaskMgr \<Rightarrow>
   mem_fault + bool \<times> CRxSafeTaskMgr" where
  "update_then_status capture_id updater status m =
     try_then (mgr_update_task capture_id updater m) (\<lambda>(updated, m1).
       if updated then try_then (mgr_update_status capture_id status m1) (\<lambda>(_, m2). Inr (updated, m2))
       else Inr (updated, m1))"

definition set_capture_started where
  "set_capture_started capture_id start_ts pid file =
     update_then_status capture_id (updater_start start_ts pid file) STATUS_RUNNING"

definition append_capture_files where
  "append_capture_files capture_id files m =
     (if files = [] then Inr (False, m) else mgr_update_task capture_id (append_files files) m)"

definition record_archive where
  "record_archive capture_id archive = mgr_update_task capture_id (archive_recorder archive)"

definition update_progress where
  "update_progress capture_id packets bytes last_ts =
     mgr_update_task capture_id (updater_progress packets bytes last_ts)"

definition set_capture_finished where
  "set_capture_finished capture_id finish_ts packets bytes path =
     update_then_status capture_id (updater_finished finish_ts packets bytes path) STATUS_COMPLETED"

definition set_capture_failed where
  "set_capture_failed now capture_id msg =
     update_then_status capture_id (updater_failed now msg) STATUS_FAILED"

definition cleanup_pending_deletes :: "CRxSafeTaskMgr \<Rightarrow> mem_fault + CRxSafeTaskMgr" where
  "cleanup_pending_deletes m =
     try_then (delete_all (mg_heap m) (mg_pending_deletes m)) (\<lambda>h.
       Inr (m\<lparr>mg_heap := h, mg_pending_deletes := []\<rparr>))"

definition pending_delete_count :: "CRxSafeTaskMgr \<Rightarrow> nat" where
  "pending_delete_count m = length (mg_pending_deletes m)"

text \<open>The destructor walks the slots of the current table in the order of their ids.\<close>

fun destroy_slots :: "CRxSafeTaskMgr \<Rightarrow> int list \<Rightarrow> mem_fault + CRxSafeTaskMgr" where
  "destroy_slots m [] = Inr m"
| "destroy_slots m (i # is) =
     (let t = current m;
          m1 = m\<lparr>mg_tables := (mg_tables m)(mg_curr m := t\<lparr>slots := (slots t)(i \<mapsto> None)\<rparr>)\<rparr>
      in case slots t i of
           Some (Some a) \<Rightarrow>
             try_then (delete (mg_heap m1) a) (\<lambda>h. destroy_slots (m1\<lparr>mg_heap := h\<rparr>) is)
         | _ \<Rightarrow> destroy_slots m1 is)"

definition mgr_destroy :: "CRxSafeTaskMgr \<Rightarrow> mem_fault + CRxSafeTaskMgr" where
  "mgr_destroy m =
     try_then (destroy_slots m (sorted_list_of_set (dom (slots (current m))))) cleanup_pending_deletes"

section \<open>Queries of the manager\<close>

definition mgr_query_task where
  "mgr_query_task m capture_id = tt_query_task (mg_heap m) (current m) capture_id"

definition mgr_query_task_by_key where
  "mgr_query_task_by_key m key = tt_query_task_by_key (mg_heap m) (current m) key"

definition mgr_query_task_by_signature where
  "mgr_query_task_by_signature m signature =
     tt_query_task_by_signature (mg_heap m) (current m) signature"

definition mgr_query_task_by_sid where
  "mgr_query_task_by_sid m sid = tt_query_task_by_sid (mg_heap m) (current m) sid"

definition snapshot_active :: "mem_fault + TaskSnapshot option \<Rightarrow> mem_fault + bool" where
  "snapshot_active r =
     try_then r (\<lambda>s. Inr (case s of None \<Rightarrow> False | Some sn \<Rightarrow> is_active_status (sn_status sn)))"

definition is_key_active where
  "is_key_active m key = snapshot_active (mgr_query_task_by_key m key)"

definition is_signature_active where
  "is_signature_active m signature = snapshot_active (mgr_query_task_by_signature m signature)"

definition is_sid_active where
  "is_sid_active m sid = snapshot_active (mgr_query_task_by_sid m sid)"

definition if_active :: "mem_fault + TaskSnapshot option \<Rightarrow> mem_fault + TaskSnapshot option" where
  "if_active r =
     try_then r (\<lambda>s. Inr (case s of None \<Rightarrow> None
       | Some sn \<Rightarrow> if is_active_status (sn_status sn) then Some sn else None))"

definition query_active_task_by_signature where
  "query_active_task_by_signature m signature = if_active (mgr_query_task_by_signature m signature)"

definition query_active_task_by_sid where
  "query_active_task_by_sid m sid = if_active (mgr_query_task_by_sid m sid)"

end
