(* ===== verification/Task_Manager_Facts.thy ===== *)
theory Task_Manager_Facts
  imports Task_Manager Refinement
begin

text \<open>
  What the shared task table guarantees.  A table is read as a map from ids to tasks; the manager is
  in order when every pointer of the current table and of the list of pending deletions is allocated
  and occurs once, no other memory is allocated, and the counters are those of the map.  Every
  operation keeps this, is the obvious operation on the map, and never touches freed memory.
\<close>

section \<open>The map a table stands for\<close>

definition tbl_abs :: "heap \<Rightarrow> TaskTable \<Rightarrow> int \<rightharpoonup> SRxCaptureTask" where
  "tbl_abs h t i = (case slots t i of Some (Some a) \<Rightarrow> h a | _ \<Rightarrow> None)"

definition mgr_abs :: "CRxSafeTaskMgr \<Rightarrow> int \<rightharpoonup> SRxCaptureTask" where
  "mgr_abs m = tbl_abs (mg_heap m) (current m)"

definition ptrs :: "TaskTable \<Rightarrow> addr set" where
  "ptrs t = {a. \<exists>i. slots t i = Some (Some a)}"

definition no_sharing :: "TaskTable \<Rightarrow> bool" where
  "no_sharing t \<longleftrightarrow> (\<forall>i j a. slots t i = Some (Some a) \<longrightarrow> slots t j = Some (Some a) \<longrightarrow> i = j)"

text \<open>Statistics of a map from ids to statuses.\<close>

definition cnt :: "(int \<rightharpoonup> ECaptureTaskStatus) \<Rightarrow> ECaptureTaskStatus \<Rightarrow> u64" where
  "cnt g s = of_nat (card {i. g i = Some s})"

definition stats_of :: "(int \<rightharpoonup> ECaptureTaskStatus) \<Rightarrow> TaskStats" where
  "stats_of g =
     \<lparr>total_count = of_nat (card (dom g)), pending_count = cnt g STATUS_PENDING,
      resolving_count = cnt g STATUS_RESOLVING, running_count = cnt g STATUS_RUNNING,
      completed_count = cnt g STATUS_COMPLETED, failed_count = cnt g STATUS_FAILED,
      stopped_count = cnt g STATUS_STOPPED\<rparr>"

abbreviation statuses :: "(int \<rightharpoonup> SRxCaptureTask) \<Rightarrow> int \<rightharpoonup> ECaptureTaskStatus" where
  "statuses f \<equiv> map_option t_status \<circ> f"

lemma cnt_insert:
  assumes "finite (dom g)" "g i = None"
  shows "cnt (g(i \<mapsto> s)) s' = (if s = s' then cnt g s' + 1 else cnt g s')"
proof -
  have fin: "finite {j. g j = Some s'}"
    by (rule finite_subset [OF _ assms(1)]) auto
  have "{j. (g(i \<mapsto> s)) j = Some s'} = (if s = s' then insert i {j. g j = Some s'} else {j. g j = Some s'})"
    using assms(2) by auto
  then show ?thesis using fin assms(2) by (simp add: cnt_def)
qed

lemma cnt_remove:
  assumes "finite (dom g)" "g i = Some s"
  shows "cnt (g(i := None)) s' = (if s = s' then cnt g s' - 1 else cnt g s')"
proof -
  have "finite (dom (g(i := None)))" using assms(1) by simp
  from cnt_insert [OF this, of i s s'] assms(2) show ?thesis
    by (simp add: map_upd_triv split: if_splits)
qed

lemma stats_insert:
  assumes "finite (dom g)" "g i = None"
  shows "stats_of (g(i \<mapsto> s)) = bump 1 s (stats_of g)"
proof -
  have "card (insert i (dom g)) = Suc (card (dom g))"
    using assms by (intro card_insert_disjoint) auto
  then show ?thesis
    using assms by (cases s) (simp_all add: stats_of_def bump_def cnt_insert Let_def add.commute)
qed

lemma bump_inverse: "bump (- d) s (bump d s x) = x"
  by (cases s) (simp_all add: bump_def Let_def)

lemma stats_remove:
  assumes "finite (dom g)" "g i = Some s"
  shows "stats_of (g(i := None)) = bump (- 1) s (stats_of g)"
proof -
  have "finite (dom (g(i := None)))" using assms(1) by simp
  from stats_insert [OF this, of i s] assms(2)
  have "stats_of g = bump 1 s (stats_of (g(i := None)))" by (simp add: map_upd_triv)
  then show ?thesis by (simp add: bump_inverse)
qed

lemma stats_change:
  assumes "finite (dom g)" "g i = Some s"
  shows "stats_of (g(i \<mapsto> s')) = bump 1 s' (bump (- 1) s (stats_of g))"
proof -
  have "finite (dom (g(i := None)))" using assms(1) by simp
  from stats_insert [OF this, of i s'] show ?thesis using stats_remove [OF assms] by simp
qed

section \<open>Tables in order\<close>

text \<open>\<open>own\<close> are the addresses a caller holds that are in no table yet.\<close>

definition tbl_ok :: "addr set \<Rightarrow> CRxSafeTaskMgr \<Rightarrow> TaskTable \<Rightarrow> bool" where
  "tbl_ok own m t \<longleftrightarrow>
     finite (dom (slots t)) \<and> no_sharing t \<and>
     dom (mg_heap m) = ptrs t \<union> set (mg_pending_deletes m) \<union> own \<and>
     ptrs t \<inter> set (mg_pending_deletes m) = {} \<and> own \<inter> ptrs t = {} \<and>
     own \<inter> set (mg_pending_deletes m) = {} \<and> distinct (mg_pending_deletes m) \<and>
     (\<forall>a\<in>dom (mg_heap m). a < mg_next m) \<and>
     mg_stats m = stats_of (statuses (tbl_abs (mg_heap m) t))"

definition mgr_ok :: "CRxSafeTaskMgr \<Rightarrow> bool" where
  "mgr_ok m \<longleftrightarrow> tbl_ok {} m (current m) \<and> (\<forall>i. slots (current m) i \<noteq> Some None)"

lemma tbl_abs_None: "slots t i = None \<Longrightarrow> tbl_abs h t i = None"
  by (simp add: tbl_abs_def)

lemma tbl_abs_null: "slots t i = Some None \<Longrightarrow> tbl_abs h t i = None"
  by (simp add: tbl_abs_def)

lemma tbl_abs_ptr: "slots t i = Some (Some a) \<Longrightarrow> tbl_abs h t i = h a"
  by (simp add: tbl_abs_def)

lemma dom_tbl_abs: "dom (tbl_abs h t) \<subseteq> dom (slots t)"
  by (auto simp: tbl_abs_def split: option.splits)

lemma tbl_ok_finite: "tbl_ok own m t \<Longrightarrow> finite (dom (statuses (tbl_abs (mg_heap m) t)))"
  by (rule finite_subset [of _ "dom (slots t)"]) (auto simp: tbl_ok_def tbl_abs_def split: option.splits)

lemma ptrs_alloc:
  assumes "tbl_ok own m t" "slots t i = Some (Some a)"
  obtains task where "mg_heap m a = Some task"
proof -
  have "a \<in> dom (mg_heap m)" using assms by (auto simp: tbl_ok_def ptrs_def)
  then show thesis using that by (auto simp: dom_def)
qed

lemma mgr_new_ok: "mgr_ok CRxSafeTaskMgr_new"
  by (simp add: mgr_ok_def tbl_ok_def CRxSafeTaskMgr_new_def current_def TaskTable_new_def no_sharing_def
      ptrs_def tbl_abs_def stats_of_def cnt_def TaskStats_new_def comp_def)

section \<open>Taking a task out of a table\<close>

lemma ptrs_drop:
  assumes "no_sharing t" "slots t i = Some (Some a)" "p = None \<or> p = Some None"
    "slots t' = (slots t)(i := p)"
  shows "ptrs t' = ptrs t - {a}" "no_sharing t'" "a \<in> ptrs t"
proof -
  have "slots t' j = Some (Some b) \<longleftrightarrow> slots t j = Some (Some b) \<and> b \<noteq> a" for j b
    using assms by (auto simp: no_sharing_def)
  then show "ptrs t' = ptrs t - {a}" "no_sharing t'"
    using assms(1) by (auto simp: ptrs_def no_sharing_def)
  show "a \<in> ptrs t" using assms(2) by (auto simp: ptrs_def)
qed

lemma tbl_abs_drop:
  assumes "slots t' = (slots t)(i := p)" "p = None \<or> p = Some None"
  shows "tbl_abs h t' = (tbl_abs h t)(i := None)"
  using assms by (intro ext) (auto simp: tbl_abs_def)

text \<open>What stays when tasks leave a table under construction.\<close>

definition same_frame :: "CRxSafeTaskMgr \<Rightarrow> CRxSafeTaskMgr \<Rightarrow> bool" where
  "same_frame m m' \<longleftrightarrow>
     mg_heap m' = mg_heap m \<and> mg_next m' = mg_next m \<and> mg_tables m' = mg_tables m \<and> mg_curr m' = mg_curr m"

lemma same_frame_refl [simp]: "same_frame m m"
  by (simp add: same_frame_def)

lemma same_frame_trans [trans]: "same_frame a b \<Longrightarrow> same_frame b c \<Longrightarrow> same_frame a c"
  by (simp add: same_frame_def)

lemma retire_drop:
  assumes ok: "tbl_ok own m t" and a: "slots t i = Some (Some a)"
    and t': "slots t' = (slots t)(i := p)" "p = None \<or> p = Some None"
  obtains m' where "retire a m = Inr m'" "tbl_ok own m' t'" "same_frame m m'"
proof -
  obtain task where task: "mg_heap m a = Some task" using ptrs_alloc [OF ok a] .
  let ?m' = "(decrement_status_count (t_status task) m)\<lparr>mg_pending_deletes := mg_pending_deletes m @ [a]\<rparr>"
  have ret: "retire a m = Inr ?m'" by (simp add: retire_def deref_def task)
  have share: "no_sharing t" using ok by (simp add: tbl_ok_def)
  note d = ptrs_drop [OF share a t'(2,1)]
  have "statuses (tbl_abs (mg_heap m) t') = (statuses (tbl_abs (mg_heap m) t))(i := None)"
    using tbl_abs_drop [OF t'] by (simp add: fun_upd_def comp_def fun_eq_iff)
  then have st: "stats_of (statuses (tbl_abs (mg_heap m) t')) = bump (- 1) (t_status task) (mg_stats m)"
    using stats_remove [OF tbl_ok_finite [OF ok], of i "t_status task"] ok tbl_abs_ptr [OF a] task
    by (simp add: tbl_ok_def)
  have "finite (dom (slots t'))" using ok t' by (auto simp: tbl_ok_def)
  then have "tbl_ok own ?m' t'" using ok d st
    unfolding tbl_ok_def decrement_status_count_def by auto
  then show thesis using that [OF ret] by (simp add: same_frame_def decrement_status_count_def)
qed

section \<open>The data base a table stands for\<close>

text \<open>
  The same operations without memory: the tasks by id and the three indices.  Nothing is deleted or
  counted here, and there is one table only.
\<close>

record task_db =
  db_tasks :: "int \<rightharpoonup> SRxCaptureTask"
  db_key :: "string \<rightharpoonup> int"
  db_sig :: "string \<rightharpoonup> int"
  db_sid :: "string \<rightharpoonup> int"

definition tbl_db :: "heap \<Rightarrow> TaskTable \<Rightarrow> task_db" where
  "tbl_db h t =
     \<lparr>db_tasks = tbl_abs h t, db_key = key_to_id t, db_sig = signature_to_id t, db_sid = sid_to_id t\<rparr>"

definition mgr_db :: "CRxSafeTaskMgr \<Rightarrow> task_db" where
  "mgr_db m = tbl_db (mg_heap m) (current m)"

definition db_new :: task_db where
  "db_new = \<lparr>db_tasks = Map.empty, db_key = Map.empty, db_sig = Map.empty, db_sid = Map.empty\<rparr>"

definition db_remove :: "int \<Rightarrow> task_db \<Rightarrow> task_db" where
  "db_remove i db =
     (case db_tasks db i of
        None \<Rightarrow> db
      | Some task \<Rightarrow>
          \<lparr>db_tasks = (db_tasks db)(i := None), db_key = (db_key db)(t_key task := None),
           db_sig = erase_if (db_sig db) (t_signature task) i,
           db_sid = erase_if (db_sid db) (t_sid task) i\<rparr>)"

definition db_remove_other :: "(string \<rightharpoonup> int) \<Rightarrow> string \<Rightarrow> int \<Rightarrow> task_db \<Rightarrow> task_db" where
  "db_remove_other ix s c db =
     (case ix s of Some i \<Rightarrow> if i \<noteq> c then db_remove i db else db | None \<Rightarrow> db)"

definition db_insert :: "int \<Rightarrow> string \<Rightarrow> SRxCaptureTask \<Rightarrow> task_db \<Rightarrow> task_db" where
  "db_insert c key task db =
     \<lparr>db_tasks = (db_tasks db)(c \<mapsto> task), db_key = (db_key db)(key \<mapsto> c),
      db_sig = (if t_signature task \<noteq> [] \<and> is_active_status (t_status task)
                then (db_sig db)(t_signature task \<mapsto> c) else db_sig db),
      db_sid = (if t_sid task \<noteq> [] then (db_sid db)(t_sid task \<mapsto> c) else db_sid db)\<rparr>"

definition db_add :: "int \<Rightarrow> string \<Rightarrow> string \<Rightarrow> string \<Rightarrow> SRxCaptureTask \<Rightarrow> task_db \<Rightarrow> task_db" where
  "db_add c key sig sid task db =
     (let db1 = db\<lparr>db_tasks := (db_tasks db)(c := None)\<rparr>;
          db2 = db_remove_other (db_key db1) key c db1;
          db3 = (if sig \<noteq> [] then db_remove_other (db_sig db2) sig c db2 else db2);
          db4 = (if sid \<noteq> [] then db_remove_other (db_sid db3) sid c db3 else db3)
      in db_insert c key (task\<lparr>t_signature := sig, t_sid := sid\<rparr>) db4)"

definition db_update :: "int \<Rightarrow> (SRxCaptureTask \<Rightarrow> SRxCaptureTask) \<Rightarrow> task_db \<Rightarrow> task_db" where
  "db_update c f db =
     (case db_tasks db c of
        None \<Rightarrow> db
      | Some old \<Rightarrow>
          (let task = f old in
           db\<lparr>db_tasks := (db_tasks db)(c \<mapsto> task),
              db_sig := (if t_signature task \<noteq> [] then
                           if is_active_status (t_status task) then (db_sig db)(t_signature task \<mapsto> c)
                           else erase_if (db_sig db) (t_signature task) c
                         else db_sig db),
              db_sid := (if t_sid task \<noteq> [] then (db_sid db)(t_sid task \<mapsto> c) else db_sid db)\<rparr>))"

section \<open>Adding a task\<close>

definition nulls :: "TaskTable \<Rightarrow> int set" where
  "nulls t = {i. slots t i = Some None}"

lemma nulls_drop: "slots t' = (slots t)(i := None) \<Longrightarrow> nulls t' \<subseteq> nulls t"
  by (auto simp: nulls_def)

lemma nulls_clear: "slots t' = (slots t)(i \<mapsto> None) \<Longrightarrow> nulls t' \<subseteq> insert i (nulls t)"
  by (auto simp: nulls_def)

lemma evict_ok:
  assumes ok: "tbl_ok own m t"
  obtains m' t' where "evict m t i = Inr (m', t')" "tbl_ok own m' t'" "same_frame m m'"
    "tbl_db (mg_heap m) t' = db_remove i (tbl_db (mg_heap m) t)" "dom (slots t') \<subseteq> dom (slots t)"
    "nulls t' \<subseteq> nulls t"
proof (cases "slots t i")
  case None
  then show thesis using that [of m t] ok
    by (simp add: evict_def tt_remove_task_def db_remove_def tbl_db_def tbl_abs_None)
next
  case (Some p)
  show thesis
  proof (cases p)
    case None
    let ?t' = "t\<lparr>slots := (slots t)(i := None)\<rparr>"
    have abs: "tbl_abs (mg_heap m) ?t' = tbl_abs (mg_heap m) t"
      using Some None by (intro ext) (simp add: tbl_abs_def)
    have "slots ?t' j = Some (Some a) \<longleftrightarrow> slots t j = Some (Some a)" for j a
      using Some None by auto
    then have "ptrs ?t' = ptrs t" "no_sharing ?t' = no_sharing t"
      unfolding ptrs_def no_sharing_def by simp_all
    then have "tbl_ok own m ?t'" using ok abs unfolding tbl_ok_def by simp
    moreover have "evict m t i = Inr (m, ?t')"
      using Some None by (simp add: evict_def tt_remove_task_def)
    moreover have "tbl_db (mg_heap m) ?t' = db_remove i (tbl_db (mg_heap m) t)"
      using abs Some None by (simp add: db_remove_def tbl_db_def tbl_abs_null)
    ultimately show thesis using that [of m ?t'] nulls_drop [of ?t' t i] by auto
  next
    case (Some a)
    with \<open>slots t i = Some p\<close> have a: "slots t i = Some (Some a)" by simp
    obtain task where task: "mg_heap m a = Some task" using ptrs_alloc [OF ok a] .
    define t' where "t' = t\<lparr>slots := (slots t)(i := None), key_to_id := (key_to_id t)(t_key task := None),
      signature_to_id := erase_if (signature_to_id t) (t_signature task) i,
      sid_to_id := erase_if (sid_to_id t) (t_sid task) i\<rparr>"
    then have rm: "tt_remove_task (mg_heap m) t i = Inr (Some a, t')"
      and t': "slots t' = (slots t)(i := None)" "key_to_id t' = (key_to_id t)(t_key task := None)"
        "signature_to_id t' = erase_if (signature_to_id t) (t_signature task) i"
        "sid_to_id t' = erase_if (sid_to_id t) (t_sid task) i"
      by (simp_all add: tt_remove_task_def a deref_def task)
    obtain m' where m': "retire a m = Inr m'" "tbl_ok own m' t'" "same_frame m m'"
      using retire_drop [OF ok a t'(1)] by blast
    have "tbl_db (mg_heap m) t' = db_remove i (tbl_db (mg_heap m) t)"
      using tbl_abs_drop [OF t'(1)] t' tbl_abs_ptr [OF a] task
      by (simp add: tbl_db_def db_remove_def)
    then show thesis using that [of m' t'] m' rm t'(1) nulls_drop [OF t'(1)]
      by (auto simp: evict_def)
  qed
qed

lemma evict_other_ok:
  assumes ok: "tbl_ok own m t"
  obtains m' t' where "evict_other m t ix s c = Inr (m', t')" "tbl_ok own m' t'" "same_frame m m'"
    "tbl_db (mg_heap m) t' = db_remove_other ix s c (tbl_db (mg_heap m) t)"
    "dom (slots t') \<subseteq> dom (slots t)" "nulls t' \<subseteq> nulls t"
proof (cases "\<exists>i. ix s = Some i \<and> i \<noteq> c")
  case True
  then obtain i where i: "ix s = Some i" "i \<noteq> c" by blast
  show thesis
    by (rule evict_ok [OF ok, of i]) (use i that in \<open>auto simp: evict_other_def db_remove_other_def\<close>)
next
  case False
  then have "evict_other m t ix s c = Inr (m, t)"
    "db_remove_other ix s c (tbl_db (mg_heap m) t) = tbl_db (mg_heap m) t"
    by (auto simp: evict_other_def db_remove_other_def split: option.split)
  then show thesis using that [of m t] ok by simp
qed

lemma clear_slot_ok:
  assumes ok: "tbl_ok own m t"
  obtains m' t' where "clear_slot m t c = Inr (m', t')" "tbl_ok own m' t'" "same_frame m m'"
    "tbl_db (mg_heap m) t' = (tbl_db (mg_heap m) t)\<lparr>db_tasks := (tbl_abs (mg_heap m) t)(c := None)\<rparr>"
    "\<And>a. slots t' c \<noteq> Some (Some a)" "nulls t' \<subseteq> insert c (nulls t)"
proof (cases "slots t c")
  case None
  then show thesis using that [of m t] ok
    by (auto simp: clear_slot_def tbl_db_def tbl_abs_None fun_upd_idem)
next
  case (Some p)
  let ?t' = "t\<lparr>slots := (slots t)(c \<mapsto> None)\<rparr>"
  have db: "tbl_db (mg_heap m) ?t' = (tbl_db (mg_heap m) t)\<lparr>db_tasks := (tbl_abs (mg_heap m) t)(c := None)\<rparr>"
    using tbl_abs_drop [of ?t' t c "Some None"] by (simp add: tbl_db_def)
  show thesis
  proof (cases p)
    case None
    then have "slots ?t' = slots t" using Some by (simp add: fun_upd_idem)
    then have "?t' = t" by simp
    then show thesis using that [of m t] ok Some None db by (auto simp: clear_slot_def)
  next
    case (Some a)
    with \<open>slots t c = Some p\<close> have a: "slots t c = Some (Some a)" by simp
    obtain m' where m': "retire a m = Inr m'" "tbl_ok own m' ?t'" "same_frame m m'"
      by (rule retire_drop [OF ok a, of ?t' "Some None"]) simp_all
    show thesis
      by (rule that [of m' ?t', OF _ m'(2,3) db])
        (use m'(1) a nulls_clear [of ?t' t c] in \<open>auto simp: clear_slot_def\<close>)
  qed
qed

text \<open>Facts that let a table be read after a write to memory or to a slot.\<close>

lemma tbl_abs_heap_upd: "a \<notin> ptrs t \<Longrightarrow> tbl_abs (h(a := x)) t = tbl_abs h t"
  by (intro ext) (auto simp: tbl_abs_def ptrs_def split: option.splits)

lemma tbl_abs_slot_upd:
  "slots t' = (slots t)(i \<mapsto> Some a) \<Longrightarrow> tbl_abs h t' = (tbl_abs h t)(i := h a)"
  by (intro ext) (simp add: tbl_abs_def)

lemma ptrs_fresh_upd:
  assumes "slots t' = (slots t)(i \<mapsto> Some a)" "\<And>b. slots t i \<noteq> Some (Some b)"
  shows "ptrs t' = insert a (ptrs t)"
proof -
  have "slots t' j = Some (Some b) \<longleftrightarrow> (j = i \<and> b = a) \<or> slots t j = Some (Some b)" for j b
    using assms by auto
  then show ?thesis by (auto simp: ptrs_def)
qed

lemma no_sharing_upd:
  assumes "no_sharing t" "a \<notin> ptrs t" "slots t' = (slots t)(i \<mapsto> Some a)"
  shows "no_sharing t'"
  using assms unfolding no_sharing_def ptrs_def by (simp split: if_splits) metis

lemma no_ptr_of_abs:
  assumes "tbl_ok own m t" "tbl_abs (mg_heap m) t c = None"
  shows "slots t c \<noteq> Some (Some b)"
  using assms by (metis ptrs_alloc tbl_abs_ptr option.distinct(1))

lemma statuses_upd: "statuses (f(i \<mapsto> x)) = (statuses f)(i \<mapsto> t_status x)"
  by (simp add: fun_eq_iff)

lemma current_publish [simp]: "current (publish_table m t) = t"
  by (simp add: current_def publish_table_def Let_def)

lemma publish_frame [simp]:
  "mg_heap (publish_table m t) = mg_heap m" "mg_next (publish_table m t) = mg_next m"
  "mg_stats (publish_table m t) = mg_stats m"
  "mg_pending_deletes (publish_table m t) = mg_pending_deletes m"
  by (simp_all add: publish_table_def Let_def)

lemma count_frame [simp]:
  "mg_heap (increment_status_count s m) = mg_heap m" "mg_next (increment_status_count s m) = mg_next m"
  "current (increment_status_count s m) = current m"
  "mg_pending_deletes (increment_status_count s m) = mg_pending_deletes m"
  "mg_stats (increment_status_count s m) = bump 1 s (mg_stats m)"
  "mg_heap (decrement_status_count s m) = mg_heap m" "mg_next (decrement_status_count s m) = mg_next m"
  "current (decrement_status_count s m) = current m"
  "mg_pending_deletes (decrement_status_count s m) = mg_pending_deletes m"
  "mg_stats (decrement_status_count s m) = bump (- 1) s (mg_stats m)"
  by (simp_all add: increment_status_count_def decrement_status_count_def current_def)

lemma insert_ok:
  assumes ok: "tbl_ok {a} m t" and free: "tbl_abs (mg_heap m) t c = None"
    and task: "mg_heap m a = Some task" and null: "nulls t \<subseteq> {c}"
  obtains h' t' where "tt_add_task (mg_heap m) t c key sig sid a = Inr (h', t')"
    "h' a = Some (task\<lparr>t_signature := sig, t_sid := sid\<rparr>)"
    "mgr_ok (increment_status_count (t_status task) (publish_table (m\<lparr>mg_heap := h'\<rparr>) t'))"
    "tbl_db h' t' = db_insert c key (task\<lparr>t_signature := sig, t_sid := sid\<rparr>) (tbl_db (mg_heap m) t)"
proof -
  let ?task = "task\<lparr>t_signature := sig, t_sid := sid\<rparr>"
  let ?h = "(mg_heap m)(a \<mapsto> ?task)"
  define t' where "t' = t\<lparr>slots := (slots t)(c \<mapsto> Some a), key_to_id := (key_to_id t)(key \<mapsto> c),
    signature_to_id := (if sig \<noteq> [] \<and> is_active_status (t_status task)
      then (signature_to_id t)(sig \<mapsto> c) else signature_to_id t),
    sid_to_id := (if sid \<noteq> [] then (sid_to_id t)(sid \<mapsto> c) else sid_to_id t)\<rparr>"
  have slots': "slots t' = (slots t)(c \<mapsto> Some a)" by (simp add: t'_def)
  have add: "tt_add_task (mg_heap m) t c key sig sid a = Inr (?h, t')"
    by (simp add: tt_add_task_def deref_def task t'_def)
  have a: "a \<notin> ptrs t" using ok by (simp add: tbl_ok_def)
  have abs: "tbl_abs ?h t' = (tbl_abs (mg_heap m) t)(c \<mapsto> ?task)"
    using tbl_abs_slot_upd [OF slots', of ?h] tbl_abs_heap_upd [OF a] by simp
  have "ptrs t' = insert a (ptrs t)"
    by (rule ptrs_fresh_upd [OF slots' no_ptr_of_abs [OF ok free]])
  moreover have "no_sharing t'" using ok a slots' by (auto simp: tbl_ok_def intro: no_sharing_upd)
  moreover have "finite (dom (slots t'))" using ok slots' by (simp add: tbl_ok_def)
  moreover have "stats_of (statuses (tbl_abs ?h t')) = bump 1 (t_status task) (mg_stats m)"
    using stats_insert [OF tbl_ok_finite [OF ok], of c "t_status task"] ok free
    unfolding abs statuses_upd by (simp add: tbl_ok_def)
  ultimately have "tbl_ok {} (increment_status_count (t_status task)
      (publish_table (m\<lparr>mg_heap := ?h\<rparr>) t')) t'"
    using ok task unfolding tbl_ok_def by auto
  moreover have "slots t' i \<noteq> Some None" for i using null slots' by (auto simp: nulls_def)
  ultimately have "mgr_ok (increment_status_count (t_status task) (publish_table (m\<lparr>mg_heap := ?h\<rparr>) t'))"
    by (simp add: mgr_ok_def)
  moreover have "tbl_db ?h t' = db_insert c key ?task (tbl_db (mg_heap m) t)"
    using abs by (simp add: tbl_db_def db_insert_def t'_def)
  ultimately show thesis using that [OF add] by simp
qed

lemma db_remove_keeps_None: "db_tasks db c = None \<Longrightarrow> db_tasks (db_remove i db) c = None"
  by (simp add: db_remove_def split: option.split)

lemma db_remove_other_keeps_None: "db_tasks db c = None \<Longrightarrow> db_tasks (db_remove_other ix s d db) c = None"
  by (simp add: db_remove_other_def db_remove_keeps_None split: option.split)

lemma tbl_db_tasks [simp]: "db_tasks (tbl_db h t) = tbl_abs h t"
  by (simp add: tbl_db_def)

lemma db_of_tbl [simp]:
  "db_key (tbl_db h t) = key_to_id t" "db_sig (tbl_db h t) = signature_to_id t"
  "db_sid (tbl_db h t) = sid_to_id t"
  by (simp_all add: tbl_db_def)

lemma evict_guarded_ok:
  assumes ok: "tbl_ok own m t"
  obtains m' t' where "(if s \<noteq> [] then evict_other m t ix s c else Inr (m, t)) = Inr (m', t')"
    "tbl_ok own m' t'" "same_frame m m'"
    "tbl_db (mg_heap m) t' =
      (if s \<noteq> [] then db_remove_other ix s c (tbl_db (mg_heap m) t) else tbl_db (mg_heap m) t)"
    "nulls t' \<subseteq> nulls t"
proof (cases "s = []")
  case False
  show thesis
    by (rule evict_other_ok [OF ok, of ix s c]) (use False that in simp)
qed (use that [of m t] ok in simp)

lemma mgr_add_owned:
  assumes ok: "tbl_ok {a} m (current m)" and null: "nulls (current m) = {}"
    and task: "mg_heap m a = Some task"
  obtains m' where "mgr_add_task c key sig sid (Some a) m = Inr (True, m')" "mgr_ok m'"
    "mgr_db m' = db_add c key sig sid task (mgr_db m)" "mg_next m' = mg_next m"
proof -
  let ?h = "mg_heap m"
  obtain m1 t1 where 1: "clear_slot m (current m) c = Inr (m1, t1)" "tbl_ok {a} m1 t1" "same_frame m m1"
    "tbl_db ?h t1 = (tbl_db ?h (current m))\<lparr>db_tasks := (tbl_abs ?h (current m))(c := None)\<rparr>"
    "nulls t1 \<subseteq> insert c (nulls (current m))"
    by (rule clear_slot_ok [OF ok])
  obtain m2 t2 where 2: "evict_other m1 t1 (key_to_id t1) key c = Inr (m2, t2)" "tbl_ok {a} m2 t2"
    "same_frame m1 m2"
    "tbl_db (mg_heap m1) t2 = db_remove_other (key_to_id t1) key c (tbl_db (mg_heap m1) t1)"
    "nulls t2 \<subseteq> nulls t1"
    by (rule evict_other_ok [OF 1(2)])
  obtain m3 t3 where 3: "(if sig \<noteq> [] then evict_other m2 t2 (signature_to_id t2) sig c
      else Inr (m2, t2)) = Inr (m3, t3)" "tbl_ok {a} m3 t3" "same_frame m2 m3"
    "tbl_db (mg_heap m2) t3 = (if sig \<noteq> [] then
       db_remove_other (signature_to_id t2) sig c (tbl_db (mg_heap m2) t2) else tbl_db (mg_heap m2) t2)"
    "nulls t3 \<subseteq> nulls t2"
    by (rule evict_guarded_ok [OF 2(2)])
  obtain m4 t4 where 4: "(if sid \<noteq> [] then evict_other m3 t3 (sid_to_id t3) sid c
      else Inr (m3, t3)) = Inr (m4, t4)" "tbl_ok {a} m4 t4" "same_frame m3 m4"
    "tbl_db (mg_heap m3) t4 = (if sid \<noteq> [] then
       db_remove_other (sid_to_id t3) sid c (tbl_db (mg_heap m3) t3) else tbl_db (mg_heap m3) t3)"
    "nulls t4 \<subseteq> nulls t3"
    by (rule evict_guarded_ok [OF 3(2)])
  have h: "mg_heap m1 = ?h" "mg_heap m2 = ?h" "mg_heap m3 = ?h" "mg_heap m4 = ?h"
    and nx: "mg_next m4 = mg_next m"
    using 1(3) 2(3) 3(3) 4(3) by (simp_all add: same_frame_def)
  have "db_tasks (tbl_db ?h t4) c = None"
    using 1(4) 2(4) 3(4) 4(4) h by (simp add: db_remove_other_keeps_None)
  then have free: "tbl_abs (mg_heap m4) t4 c = None" using h by simp
  have nl: "nulls t4 \<subseteq> {c}" using 1(5) 2(5) 3(5) 4(5) null by blast
  obtain h5 t5 where 5: "tt_add_task (mg_heap m4) t4 c key sig sid a = Inr (h5, t5)"
    "h5 a = Some (task\<lparr>t_signature := sig, t_sid := sid\<rparr>)"
    "mgr_ok (increment_status_count (t_status task) (publish_table (m4\<lparr>mg_heap := h5\<rparr>) t5))"
    "tbl_db h5 t5 = db_insert c key (task\<lparr>t_signature := sig, t_sid := sid\<rparr>) (tbl_db (mg_heap m4) t4)"
    using insert_ok [OF 4(2) free _ nl] task h by metis
  have "mgr_add_task c key sig sid (Some a) m =
      Inr (True, increment_status_count (t_status task) (publish_table (m4\<lparr>mg_heap := h5\<rparr>) t5))"
    using 1(1) 2(1) 3(1) 4(1) 5(1,2) by (simp add: mgr_add_task_def Let_def deref_def)
  moreover have "mgr_db (increment_status_count (t_status task) (publish_table (m4\<lparr>mg_heap := h5\<rparr>) t5)) =
      db_add c key sig sid task (mgr_db m)"
  proof -
    have D1: "tbl_db ?h t1 = (mgr_db m)\<lparr>db_tasks := (db_tasks (mgr_db m))(c := None)\<rparr>"
      using 1(4) by (simp add: mgr_db_def)
    have D2: "tbl_db ?h t2 = db_remove_other (db_key (tbl_db ?h t1)) key c (tbl_db ?h t1)"
      using 2(4) h by simp
    have D3: "tbl_db ?h t3 = (if sig \<noteq> [] then db_remove_other (db_sig (tbl_db ?h t2)) sig c (tbl_db ?h t2)
        else tbl_db ?h t2)" using 3(4) h by simp
    have D4: "tbl_db ?h t4 = (if sid \<noteq> [] then db_remove_other (db_sid (tbl_db ?h t3)) sid c (tbl_db ?h t3)
        else tbl_db ?h t3)" using 4(4) h by simp
    show ?thesis
      unfolding db_add_def Let_def D1 [symmetric] D2 [symmetric] D3 [symmetric] D4 [symmetric]
      using 5(4) h by (simp add: mgr_db_def)
  qed
  ultimately show thesis using that 5(3) nx by simp
qed

section \<open>Removing and replacing\<close>

lemma remove_is_evict:
  "mgr_remove_task c m = try_then (evict m (current m) c) (\<lambda>(m', t'). Inr (publish_table m' t'))"
  by (simp add: mgr_remove_task_def evict_def retire_def publish_table_def decrement_status_count_def
      deref_def Let_def split: sum.split option.split)

lemma mgr_ok_null: "mgr_ok m \<Longrightarrow> nulls (current m) = {}"
  by (simp add: mgr_ok_def nulls_def)

lemma mgr_okI: "\<lbrakk>tbl_ok {} m (current m); nulls (current m) = {}\<rbrakk> \<Longrightarrow> mgr_ok m"
  by (auto simp: mgr_ok_def nulls_def)

lemma tbl_ok_frame:
  assumes "mg_heap m' = mg_heap m" "mg_next m' = mg_next m" "mg_stats m' = mg_stats m"
    "mg_pending_deletes m' = mg_pending_deletes m"
  shows "tbl_ok own m' t = tbl_ok own m t"
  using assms by (simp add: tbl_ok_def)

lemma mgr_remove_ok:
  assumes "mgr_ok m"
  obtains m' where "mgr_remove_task c m = Inr m'" "mgr_ok m'" "mgr_db m' = db_remove c (mgr_db m)"
proof -
  have ok: "tbl_ok {} m (current m)" using assms by (simp add: mgr_ok_def)
  obtain m1 t1 where e: "evict m (current m) c = Inr (m1, t1)" "tbl_ok {} m1 t1" "same_frame m m1"
    "tbl_db (mg_heap m) t1 = db_remove c (tbl_db (mg_heap m) (current m))" "nulls t1 \<subseteq> nulls (current m)"
    by (rule evict_ok [OF ok])
  have "mgr_ok (publish_table m1 t1)"
    using e(2,5) mgr_ok_null [OF assms] tbl_ok_frame [of "publish_table m1 t1" m1] by (intro mgr_okI) auto
  moreover have "mgr_db (publish_table m1 t1) = db_remove c (mgr_db m)"
    using e(3,4) by (simp add: mgr_db_def same_frame_def)
  ultimately show thesis using that e(1) by (simp add: remove_is_evict)
qed

lemma new_task_frame:
  "current (snd (new_task x m)) = current m" "fst (new_task x m) = mg_next m"
  "mg_heap (snd (new_task x m)) = (mg_heap m)(mg_next m \<mapsto> x)"
  "mg_next (snd (new_task x m)) = Suc (mg_next m)" "mg_stats (snd (new_task x m)) = mg_stats m"
  "mg_pending_deletes (snd (new_task x m)) = mg_pending_deletes m"
  by (simp_all add: new_task_def current_def)

lemma next_fresh:
  assumes "tbl_ok own m t"
  shows "mg_next m \<notin> ptrs t" "mg_next m \<notin> set (mg_pending_deletes m)" "mg_next m \<notin> own"
    "mg_next m \<notin> dom (mg_heap m)"
proof -
  have "mg_next m \<notin> dom (mg_heap m)" using assms by (auto simp: tbl_ok_def)
  then show "mg_next m \<notin> ptrs t" "mg_next m \<notin> set (mg_pending_deletes m)" "mg_next m \<notin> own"
    "mg_next m \<notin> dom (mg_heap m)" using assms by (auto simp: tbl_ok_def)
qed

lemma new_task_ok:
  assumes "tbl_ok {} m t"
  shows "tbl_ok {mg_next m} (snd (new_task x m)) t"
proof -
  note f = next_fresh [OF assms]
  show ?thesis using assms f(1,2) tbl_abs_heap_upd [OF f(1)]
    unfolding tbl_ok_def new_task_frame by (auto simp: less_Suc_eq)
qed

text \<open>
  Exchanging a pointer: the new task takes the slot, the old pointer is kept for deletion.  The
  counters are still those of the old status.
\<close>

lemma current_replace:
  "current (m\<lparr>mg_tables := (mg_tables m)(mg_curr m := t), mg_pending_deletes := d\<rparr>) = t"
  by (simp add: current_def)

lemma replace_task_frame:
  "mg_heap (replace_task c old x m) = (mg_heap m)(mg_next m \<mapsto> x)"
  "mg_next (replace_task c old x m) = Suc (mg_next m)"
  "mg_stats (replace_task c old x m) = mg_stats m"
  "mg_pending_deletes (replace_task c old x m) = mg_pending_deletes m @ [old]"
  "current (replace_task c old x m) =
     (reindex c x (current m))\<lparr>slots := (slots (current m))(c \<mapsto> Some (mg_next m))\<rparr>"
  by (simp_all add: replace_task_def new_task_def Let_def current_def reindex_def)

lemma replace_slots:
  assumes ok: "tbl_ok {} m t" and old: "slots t c = Some (Some old)" "mg_heap m old = Some task"
    and t': "slots t' = (slots t)(c \<mapsto> Some (mg_next m))"
  shows "tbl_abs ((mg_heap m)(mg_next m \<mapsto> x)) t' = (tbl_abs (mg_heap m) t)(c \<mapsto> x)"
    and "ptrs t' = insert (mg_next m) (ptrs t - {old})" and "no_sharing t'"
proof -
  let ?clear = "t\<lparr>slots := (slots t)(c := None)\<rparr>"
  have share: "no_sharing t" using ok by (simp add: tbl_ok_def)
  have clear: "ptrs ?clear = ptrs t - {old}" "no_sharing ?clear"
    using ptrs_drop [OF share old(1), of None ?clear] by simp_all
  have s: "slots t' = (slots ?clear)(c \<mapsto> Some (mg_next m))" using t' by simp
  show "ptrs t' = insert (mg_next m) (ptrs t - {old})"
    using ptrs_fresh_upd [OF s] clear(1) by simp
  show "no_sharing t'"
    using no_sharing_upd [OF clear(2) _ s] clear(1) next_fresh(1) [OF ok] by simp
  show "tbl_abs ((mg_heap m)(mg_next m \<mapsto> x)) t' = (tbl_abs (mg_heap m) t)(c \<mapsto> x)"
    using tbl_abs_slot_upd [OF t', of "(mg_heap m)(mg_next m \<mapsto> x)"]
      tbl_abs_heap_upd [OF next_fresh(1) [OF ok]] by simp
qed

lemma replace_task_ok:
  assumes ok: "mgr_ok m" and old: "slots (current m) c = Some (Some old)" "mg_heap m old = Some task"
    and f: "f task = x"
    and stats: "mg_stats m' = bump 1 (t_status x) (bump (- 1) (t_status task) (mg_stats m))"
    and frame: "mg_heap m' = mg_heap (replace_task c old x m)" "mg_next m' = mg_next (replace_task c old x m)"
      "mg_pending_deletes m' = mg_pending_deletes (replace_task c old x m)"
      "current m' = current (replace_task c old x m)"
  shows "mgr_ok m'" and "mgr_db m' = db_update c f (mgr_db m)"
proof -
  have t: "tbl_ok {} m (current m)" using ok by (simp add: mgr_ok_def)
  let ?t = "current (replace_task c old x m)"
  have s: "slots ?t = (slots (current m))(c \<mapsto> Some (mg_next m))" by (simp add: replace_task_frame)
  note r = replace_slots [OF t old s]
  have A: "tbl_abs (mg_heap m') ?t = (tbl_abs (mg_heap m) (current m))(c \<mapsto> x)"
    unfolding frame(1) replace_task_frame(1) by (rule r(1))
  have "old \<in> ptrs (current m)" using old by (auto simp: ptrs_def)
  moreover have "stats_of (statuses (tbl_abs (mg_heap m') ?t)) = mg_stats m'"
    using stats_change [OF tbl_ok_finite [OF t], of c "t_status task"] t old stats tbl_abs_ptr [OF old(1)]
    unfolding A statuses_upd by (simp add: tbl_ok_def)
  moreover have "finite (dom (slots ?t))" using t s by (simp add: tbl_ok_def)
  ultimately have "tbl_ok {} m' ?t"
    using t r(2,3) frame next_fresh [OF t] unfolding tbl_ok_def replace_task_frame
    by (auto simp: less_Suc_eq)
  moreover have "nulls ?t = {}" using mgr_ok_null [OF ok] s by (auto simp: nulls_def split: if_splits)
  ultimately show "mgr_ok m'" using frame(4) by (intro mgr_okI) simp_all
  show "mgr_db m' = db_update c f (mgr_db m)"
    using A f old tbl_abs_ptr [OF old(1)]
    unfolding mgr_db_def frame(4)
    by (simp add: replace_task_frame tbl_db_def db_update_def reindex_def Let_def)
qed

lemma slot_cases:
  assumes "mgr_ok m"
  obtains (absent) "slots (current m) c = None" "db_tasks (mgr_db m) c = None"
  | (there) old task where "slots (current m) c = Some (Some old)" "mg_heap m old = Some task"
      "db_tasks (mgr_db m) c = Some task"
proof (cases "slots (current m) c")
  case None
  then show thesis using absent by (simp add: mgr_db_def tbl_abs_None)
next
  case (Some p)
  then obtain old where old: "slots (current m) c = Some (Some old)"
    using assms by (cases p) (auto simp: mgr_ok_def)
  obtain task where "mg_heap m old = Some task"
    using assms ptrs_alloc [OF _ old] by (auto simp: mgr_ok_def)
  then show thesis using there old by (simp add: mgr_db_def tbl_abs_ptr)
qed

lemma mgr_update_task_ok:
  assumes ok: "mgr_ok m"
  obtains m' where "mgr_update_task c f m = Inr (c \<in> dom (db_tasks (mgr_db m)), m')" "mgr_ok m'"
    "mgr_db m' = db_update c f (mgr_db m)"
  using ok
proof (cases rule: slot_cases [of m c])
  case absent
  then show thesis using that [of m] ok by (simp add: mgr_update_task_def db_update_def domIff)
next
  case (there old task)
  let ?x = "f task" and ?m = "replace_task c old (f task) m"
  define m' where "m' = (if t_status task \<noteq> t_status ?x
    then increment_status_count (t_status ?x) (decrement_status_count (t_status task) ?m) else ?m)"
  have "mgr_update_task c f m = Inr (True, m')"
    using there by (simp add: mgr_update_task_def deref_def Let_def m'_def)
  moreover have "mg_stats m' = bump 1 (t_status ?x) (bump (- 1) (t_status task) (mg_stats m))"
    by (simp add: m'_def replace_task_frame bump_inverse [of "- 1", simplified])
  moreover have "mg_heap m' = mg_heap ?m" "mg_next m' = mg_next ?m"
    "mg_pending_deletes m' = mg_pending_deletes ?m" "current m' = current ?m"
    by (simp_all add: m'_def)
  ultimately show thesis
    using that [of m'] there replace_task_ok [OF ok there(1,2), of f ?x m'] by (auto simp: domIff)
qed

lemma mgr_update_status_ok:
  assumes ok: "mgr_ok m"
  obtains m' where "mgr_update_status c s m = Inr (c \<in> dom (db_tasks (mgr_db m)), m')" "mgr_ok m'"
    "mgr_db m' = db_update c (\<lambda>t. t\<lparr>t_status := s\<rparr>) (mgr_db m)"
  using ok
proof (cases rule: slot_cases [of m c])
  case absent
  then show thesis using that [of m] ok by (simp add: mgr_update_status_def db_update_def domIff)
next
  case (there old task)
  let ?f = "\<lambda>t. t\<lparr>t_status := s\<rparr>" and ?m = "replace_task c old (task\<lparr>t_status := s\<rparr>) m"
  define m' where "m' = increment_status_count s (decrement_status_count (t_status task) ?m)"
  have "mgr_update_status c s m = Inr (True, m')"
    using there by (simp add: mgr_update_status_def deref_def Let_def m'_def)
  moreover have "mg_stats m' = bump 1 (t_status (?f task)) (bump (- 1) (t_status task) (mg_stats m))"
    by (simp add: m'_def replace_task_frame)
  moreover have "mg_heap m' = mg_heap ?m" "mg_next m' = mg_next ?m"
    "mg_pending_deletes m' = mg_pending_deletes ?m" "current m' = current ?m"
    by (simp_all add: m'_def)
  ultimately show thesis
    using that [of m'] there replace_task_ok [OF ok there(1,2), of ?f "?f task" m'] by (auto simp: domIff)
qed

lemma db_update_dom: "dom (db_tasks (db_update c f db)) = dom (db_tasks db)"
  by (auto simp: db_update_def Let_def split: option.splits)

lemma update_then_status_ok:
  assumes ok: "mgr_ok m"
  obtains m' where "update_then_status c f s m = Inr (c \<in> dom (db_tasks (mgr_db m)), m')" "mgr_ok m'"
    "mgr_db m' = db_update c (\<lambda>t. t\<lparr>t_status := s\<rparr>) (db_update c f (mgr_db m))"
proof -
  obtain m1 where m1: "mgr_update_task c f m = Inr (c \<in> dom (db_tasks (mgr_db m)), m1)" "mgr_ok m1"
    "mgr_db m1 = db_update c f (mgr_db m)" by (rule mgr_update_task_ok [OF ok])
  obtain m2 where m2: "mgr_update_status c s m1 = Inr (c \<in> dom (db_tasks (mgr_db m1)), m2)" "mgr_ok m2"
    "mgr_db m2 = db_update c (\<lambda>t. t\<lparr>t_status := s\<rparr>) (mgr_db m1)" by (rule mgr_update_status_ok [OF m1(2)])
  show thesis
  proof (cases "c \<in> dom (db_tasks (mgr_db m))")
    case True
    then show thesis using that [of m2] m1 m2 by (simp add: update_then_status_def)
  next
    case False
    then have "db_update c g (mgr_db m) = mgr_db m" for g by (simp add: db_update_def domIff)
    then show thesis using that [of m1] m1 False by (simp add: update_then_status_def)
  qed
qed

section \<open>Deleting\<close>

lemma delete_all_ok:
  assumes "distinct as" "set as \<subseteq> dom h"
  shows "delete_all h as = Inr (h |` (- set as))"
  using assms
proof (induction as arbitrary: h)
  case (Cons a as)
  have "delete h a = Inr (h(a := None))" using Cons.prems by (auto simp: delete_def)
  moreover have "delete_all (h(a := None)) as = Inr ((h(a := None)) |` (- set as))"
    using Cons.prems by (intro Cons.IH) auto
  moreover have "(h(a := None)) |` (- set as) = h |` (- set (a # as))"
    by (auto simp: restrict_map_def fun_eq_iff)
  ultimately show ?case by simp
qed (simp add: restrict_map_def)

lemma cleanup_ok:
  assumes ok: "mgr_ok m"
  obtains m' where "cleanup_pending_deletes m = Inr m'" "mgr_ok m'" "mgr_db m' = mgr_db m"
    "mg_pending_deletes m' = []" "dom (mg_heap m') = ptrs (current m')"
proof -
  let ?h = "mg_heap m |` (- set (mg_pending_deletes m))"
  let ?m' = "m\<lparr>mg_heap := ?h, mg_pending_deletes := []\<rparr>"
  have t: "tbl_ok {} m (current m)" using ok by (simp add: mgr_ok_def)
  have c: "cleanup_pending_deletes m = Inr ?m'"
    using t delete_all_ok [of "mg_pending_deletes m" "mg_heap m"]
    by (simp add: cleanup_pending_deletes_def tbl_ok_def)
  have cur: "current ?m' = current m" by (simp add: current_def)
  have abs: "tbl_abs ?h (current m) = tbl_abs (mg_heap m) (current m)"
    using t by (intro ext) (auto simp: tbl_abs_def tbl_ok_def ptrs_def restrict_map_def split: option.splits)
  have d: "dom ?h = ptrs (current m)" using t by (auto simp: tbl_ok_def restrict_map_def dom_def)
  have "tbl_ok {} ?m' (current m)"
    using t abs d unfolding tbl_ok_def by auto
  then have "mgr_ok ?m'" using mgr_ok_null [OF ok] cur by (intro mgr_okI) simp_all
  then show thesis using that [OF c] abs d cur by (simp add: mgr_db_def tbl_db_def)
qed

section \<open>Indices\<close>

text \<open>
  The key and the session index are exact: they hold an id under a name exactly when that task has
  the name.  The signature index is sound: what it holds is an active task with that signature.
\<close>

definition exact :: "(string \<rightharpoonup> int) \<Rightarrow> (int \<rightharpoonup> string) \<Rightarrow> bool" where
  "exact ix f \<longleftrightarrow> (\<forall>s i. ix s = Some i \<longleftrightarrow> f i = Some s)"

definition sound :: "(string \<rightharpoonup> int) \<Rightarrow> (int \<rightharpoonup> string) \<Rightarrow> bool" where
  "sound ix f \<longleftrightarrow> (\<forall>s i. ix s = Some i \<longrightarrow> f i = Some s)"

definition key_name :: "SRxCaptureTask \<Rightarrow> string option" where
  "key_name t = Some (t_key t)"

definition sid_name :: "SRxCaptureTask \<Rightarrow> string option" where
  "sid_name t = (if t_sid t = [] then None else Some (t_sid t))"

definition sig_name :: "SRxCaptureTask \<Rightarrow> string option" where
  "sig_name t = (if t_signature t \<noteq> [] \<and> is_active_status (t_status t) then Some (t_signature t) else None)"

definition names :: "(SRxCaptureTask \<Rightarrow> string option) \<Rightarrow> task_db \<Rightarrow> int \<rightharpoonup> string" where
  "names f db i = Option.bind (db_tasks db i) f"

definition db_good :: "task_db \<Rightarrow> bool" where
  "db_good db \<longleftrightarrow>
     exact (db_key db) (names key_name db) \<and> exact (db_sid db) (names sid_name db) \<and>
     sound (db_sig db) (names sig_name db)"

lemma exact_remove: "\<lbrakk>exact ix f; f i = Some s\<rbrakk> \<Longrightarrow> exact (ix(s := None)) (f(i := None))"
  unfolding exact_def by (metis fun_upd_apply option.distinct(1) option.inject)

lemma exact_insert:
  assumes "exact ix f" "f i = None" "ix s = None"
  shows "exact (ix(s \<mapsto> i)) (f(i \<mapsto> s))"
proof -
  have "f j \<noteq> Some s" for j using assms by (metis exact_def option.distinct(1))
  moreover have "ix s' \<noteq> Some i" for s' using assms by (simp add: exact_def)
  ultimately show ?thesis using assms(1) unfolding exact_def by auto
qed

lemma exact_same: "\<lbrakk>exact ix f; f i = Some s\<rbrakk> \<Longrightarrow> ix(s \<mapsto> i) = ix"
  by (simp add: exact_def fun_upd_idem)

lemma sound_remove:
  assumes "sound ix f" "\<And>s'. f i = Some s' \<Longrightarrow> s' = s \<and> s \<noteq> []"
  shows "sound (erase_if ix s i) (f(i := None))"
  using assms by (auto simp: sound_def erase_if_def split: if_splits)

lemma sound_insert:
  "\<lbrakk>sound ix f; f i = None \<or> f i = Some s\<rbrakk> \<Longrightarrow> sound (ix(s \<mapsto> i)) (f(i \<mapsto> s))"
  by (auto simp: sound_def split: if_splits)

lemma names_upd:
  "names f (db\<lparr>db_tasks := (db_tasks db)(i := x)\<rparr>) = (names f db)(i := Option.bind x f)"
  by (simp add: names_def fun_eq_iff)

lemma names_tasks: "db_tasks db' = (db_tasks db)(i := x) \<Longrightarrow> names f db' = (names f db)(i := Option.bind x f)"
  by (simp add: names_def fun_eq_iff)

lemma db_remove_good:
  assumes good: "db_good db"
  shows "db_good (db_remove i db)"
proof (cases "db_tasks db i")
  case (Some task)
  have n: "names key_name db i = Some (t_key task)" "names sid_name db i = sid_name task"
    "names sig_name db i = sig_name task"
    using Some by (simp_all add: names_def key_name_def)
  have t: "db_tasks (db_remove i db) = (db_tasks db)(i := None)" using Some by (simp add: db_remove_def)
  have "exact (db_key (db_remove i db)) ((names key_name db)(i := None))"
    using good n(1) Some by (simp add: db_good_def db_remove_def exact_remove)
  moreover have "exact (db_sid (db_remove i db)) ((names sid_name db)(i := None))"
  proof (cases "t_sid task = []")
    case True
    then show ?thesis using good n(2) Some
      by (simp add: db_good_def db_remove_def erase_if_def sid_name_def fun_upd_idem)
  next
    case False
    then have "names sid_name db i = Some (t_sid task)" using n(2) by (simp add: sid_name_def)
    then have "db_sid db (t_sid task) = Some i" using good by (simp add: db_good_def exact_def)
    then show ?thesis using good False \<open>names sid_name db i = Some (t_sid task)\<close> Some
      by (simp add: db_good_def db_remove_def erase_if_def exact_remove)
  qed
  moreover have "sound (db_sig (db_remove i db)) ((names sig_name db)(i := None))"
    using good n(3) Some sound_remove [of "db_sig db" "names sig_name db" i "t_signature task"]
    by (simp add: db_good_def db_remove_def sig_name_def split: if_splits)
  ultimately show ?thesis by (simp add: db_good_def names_tasks [OF t])
qed (simp add: db_remove_def good)

lemma db_remove_other_good: "db_good db \<Longrightarrow> db_good (db_remove_other ix s c db)"
  by (simp add: db_remove_other_def db_remove_good split: option.split)

lemma erase_if_None: "m s = None \<Longrightarrow> erase_if m s' i s = None"
  by (simp add: erase_if_def)

lemma db_remove_index_None:
  "db_key db k = None \<Longrightarrow> db_key (db_remove i db) k = None"
  "db_sid db k = None \<Longrightarrow> db_sid (db_remove i db) k = None"
  by (auto simp: db_remove_def erase_if_None split: option.split)

lemma db_remove_other_index_None:
  "db_key db k = None \<Longrightarrow> db_key (db_remove_other ix s c db) k = None"
  "db_sid db k = None \<Longrightarrow> db_sid (db_remove_other ix s c db) k = None"
  by (simp_all add: db_remove_other_def db_remove_index_None split: option.split)

text \<open>After the eviction of the other holder, a name is free for a new id.\<close>

lemma name_freed:
  assumes good: "db_good db" and new: "db_tasks db c = None"
  shows "db_key (db_remove_other (db_key db) s c db) s = None"
    and "s \<noteq> [] \<Longrightarrow> db_sid (db_remove_other (db_sid db) s c db) s = None"
proof -
  have K: "db_key db s = Some i \<longleftrightarrow> names key_name db i = Some s"
    and S: "db_sid db s = Some i \<longleftrightarrow> names sid_name db i = Some s" for i
    using good by (simp_all add: db_good_def exact_def)
  have "names f db c = None" for f using new by (simp add: names_def)
  then have c: "db_key db s \<noteq> Some c" "db_sid db s \<noteq> Some c" using K S by auto
  show "db_key (db_remove_other (db_key db) s c db) s = None"
  proof (cases "db_key db s")
    case (Some i)
    then obtain task where "db_tasks db i = Some task" "t_key task = s"
      using K [of i] by (auto simp: names_def key_name_def bind_eq_Some_conv)
    then show ?thesis using Some c by (auto simp: db_remove_other_def db_remove_def)
  qed (simp add: db_remove_other_def)
  show "db_sid (db_remove_other (db_sid db) s c db) s = None" if "s \<noteq> []"
  proof (cases "db_sid db s")
    case (Some i)
    then obtain task where "db_tasks db i = Some task" "t_sid task = s"
      using S [of i] by (auto simp: names_def sid_name_def bind_eq_Some_conv split: if_splits)
    then show ?thesis using Some c that by (auto simp: db_remove_other_def db_remove_def erase_if_def)
  qed (simp add: db_remove_other_def)
qed

lemma db_insert_good:
  assumes good: "db_good db" and new: "db_tasks db c = None" "db_key db key = None"
    and sid: "t_sid task \<noteq> [] \<Longrightarrow> db_sid db (t_sid task) = None" and key: "t_key task = key"
  shows "db_good (db_insert c key task db)"
proof -
  have t: "db_tasks (db_insert c key task db) = (db_tasks db)(c := Some task)" by (simp add: db_insert_def)
  have n: "names f db c = None" for f using new(1) by (simp add: names_def)
  have "exact (db_key (db_insert c key task db)) ((names key_name db)(c \<mapsto> key))"
    using good n new(2) by (simp add: db_good_def db_insert_def exact_insert)
  moreover have "exact (db_sid (db_insert c key task db)) ((names sid_name db)(c := sid_name task))"
    using good n sid by (simp add: db_good_def db_insert_def sid_name_def exact_insert fun_upd_idem)
  moreover have "sound (db_sig (db_insert c key task db)) ((names sig_name db)(c := sig_name task))"
    using good n by (auto simp: db_good_def db_insert_def sig_name_def sound_insert fun_upd_idem)
  ultimately show ?thesis using key by (simp add: db_good_def names_tasks [OF t] key_name_def)
qed

lemma db_add_good:
  assumes good: "db_good db" and new: "db_tasks db c = None" and key: "t_key task = key"
  shows "db_good (db_add c key sig sid task db)"
proof -
  define db2 where "db2 = db_remove_other (db_key db) key c db"
  define db3 where "db3 = (if sig \<noteq> [] then db_remove_other (db_sig db2) sig c db2 else db2)"
  define db4 where "db4 = (if sid \<noteq> [] then db_remove_other (db_sid db3) sid c db3 else db3)"
  have same: "db\<lparr>db_tasks := (db_tasks db)(c := None)\<rparr> = db" using new by (simp add: fun_upd_idem)
  have g2: "db_good db2" "db_tasks db2 c = None" "db_key db2 key = None"
    using good new name_freed(1) [OF good new]
    by (simp_all add: db2_def db_remove_other_good db_remove_other_keeps_None)
  have g3: "db_good db3" "db_tasks db3 c = None" "db_key db3 key = None"
    using g2 by (simp_all add: db3_def db_remove_other_good db_remove_other_keeps_None
        db_remove_other_index_None)
  have g4: "db_good db4" "db_tasks db4 c = None" "db_key db4 key = None"
    and sid: "sid \<noteq> [] \<Longrightarrow> db_sid db4 sid = None"
    using g3 name_freed(2) [OF g3(1,2), of sid]
    by (simp_all add: db4_def db_remove_other_good db_remove_other_keeps_None
        db_remove_other_index_None)
  have "db_add c key sig sid task db = db_insert c key (task\<lparr>t_signature := sig, t_sid := sid\<rparr>) db4"
    unfolding db_add_def Let_def same db4_def db3_def db2_def by simp
  then show ?thesis using db_insert_good [OF g4, of "task\<lparr>t_signature := sig, t_sid := sid\<rparr>"] sid key
    by simp
qed

lemma db_update_good:
  assumes good: "db_good db"
    and keeps: "\<And>t. t_key (f t) = t_key t \<and> t_sid (f t) = t_sid t \<and> t_signature (f t) = t_signature t"
  shows "db_good (db_update c f db)"
proof (cases "db_tasks db c")
  case (Some old)
  let ?x = "f old"
  have t: "db_tasks (db_update c f db) = (db_tasks db)(c := Some ?x)"
    using Some by (simp add: db_update_def Let_def)
  have n: "names g db c = g old" for g using Some by (simp add: names_def)
  have k: "key_name ?x = key_name old" "sid_name ?x = sid_name old"
    using keeps by (simp_all add: key_name_def sid_name_def)
  have "exact (db_key (db_update c f db)) ((names key_name db)(c := key_name ?x))"
    using good Some k n by (simp add: db_good_def db_update_def Let_def fun_upd_idem)
  moreover have "exact (db_sid (db_update c f db)) ((names sid_name db)(c := sid_name ?x))"
  proof -
    have "(if t_sid ?x \<noteq> [] then (db_sid db)(t_sid ?x \<mapsto> c) else db_sid db) = db_sid db"
      using good n keeps exact_same [of "db_sid db" "names sid_name db" c "t_sid old"]
      by (simp add: db_good_def sid_name_def)
    then have "db_sid (db_update c f db) = db_sid db" using Some by (simp add: db_update_def Let_def)
    then show ?thesis using good k n by (simp add: db_good_def fun_upd_idem)
  qed
  moreover have "sound (db_sig (db_update c f db)) ((names sig_name db)(c := sig_name ?x))"
  proof -
    have s: "sound (db_sig db) (names sig_name db)" using good by (simp add: db_good_def)
    have o: "names sig_name db c = None \<or> names sig_name db c = Some (t_signature ?x)"
      using n [of sig_name] keeps by (simp add: sig_name_def)
    show ?thesis
    proof (cases "t_signature ?x \<noteq> [] \<and> is_active_status (t_status ?x)")
      case True
      then have "sig_name ?x = Some (t_signature ?x)" by (simp add: sig_name_def)
      then show ?thesis using True sound_insert [OF s o] Some by (simp add: db_update_def Let_def)
    next
      case False
      have "sound (erase_if (db_sig db) (t_signature ?x) c) ((names sig_name db)(c := None))"
        using o n [of sig_name] keeps by (intro sound_remove [OF s]) (auto simp: sig_name_def split: if_splits)
      moreover have "db_sig (db_update c f db) = erase_if (db_sig db) (t_signature ?x) c"
        using False Some by (auto simp: db_update_def Let_def erase_if_def)
      moreover have "sig_name ?x = None" using False by (auto simp: sig_name_def)
      ultimately show ?thesis by simp
    qed
  qed
  ultimately show ?thesis by (simp add: db_good_def names_tasks [OF t])
qed (simp add: db_update_def good)

lemma db_new_good: "db_good db_new"
  by (simp add: db_good_def db_new_def exact_def sound_def names_def)

section \<open>The interface of the manager\<close>

datatype mgr_op =
  Add_task int string string string SRxCaptureTask
| Remove_task int
| Update_status int ECaptureTaskStatus
| Started int int int string
| Files int "CaptureFileInfo list"
| Archive int CaptureArchiveInfo
| Progress int u64 u64 int
| Finished int int u64 u64 string
| Failed int int string
| Cleanup
| Query_id int
| Query_key string
| Query_signature string
| Query_sid string
| Key_active string
| Signature_active string
| Sid_active string
| Active_signature string
| Active_sid string
| Stats

datatype mgr_result = R_bool bool | R_unit | R_snapshot "TaskSnapshot option" | R_stats TaskStats

definition with_bool :: "mem_fault + bool \<times> CRxSafeTaskMgr \<Rightarrow> mem_fault + mgr_result \<times> CRxSafeTaskMgr" where
  "with_bool r = try_then r (\<lambda>(b, m). Inr (R_bool b, m))"

definition with_unit :: "mem_fault + CRxSafeTaskMgr \<Rightarrow> mem_fault + mgr_result \<times> CRxSafeTaskMgr" where
  "with_unit r = try_then r (\<lambda>m. Inr (R_unit, m))"

definition with_query ::
  "CRxSafeTaskMgr \<Rightarrow> mem_fault + TaskSnapshot option \<Rightarrow> mem_fault + mgr_result \<times> CRxSafeTaskMgr" where
  "with_query m r = try_then r (\<lambda>s. Inr (R_snapshot s, m))"

definition with_flag :: "CRxSafeTaskMgr \<Rightarrow> mem_fault + bool \<Rightarrow> mem_fault + mgr_result \<times> CRxSafeTaskMgr" where
  "with_flag m r = try_then r (\<lambda>b. Inr (R_bool b, m))"

text \<open>The client of \<open>add_task\<close> allocates the task and passes its pointer.\<close>

fun mgr_step :: "mgr_op \<Rightarrow> CRxSafeTaskMgr \<Rightarrow> mem_fault + mgr_result \<times> CRxSafeTaskMgr" where
  "mgr_step (Add_task c key sig sid task) m =
     (case new_task task m of (a, m1) \<Rightarrow> with_bool (mgr_add_task c key sig sid (Some a) m1))"
| "mgr_step (Remove_task c) m = with_unit (mgr_remove_task c m)"
| "mgr_step (Update_status c s) m = with_bool (mgr_update_status c s m)"
| "mgr_step (Started c ts pid file) m = with_bool (set_capture_started c ts pid file m)"
| "mgr_step (Files c fs) m = with_bool (append_capture_files c fs m)"
| "mgr_step (Archive c a) m = with_bool (record_archive c a m)"
| "mgr_step (Progress c p b ts) m = with_bool (update_progress c p b ts m)"
| "mgr_step (Finished c ts p b path) m = with_bool (set_capture_finished c ts p b path m)"
| "mgr_step (Failed now c msg) m = with_bool (set_capture_failed now c msg m)"
| "mgr_step Cleanup m = with_unit (cleanup_pending_deletes m)"
| "mgr_step (Query_id c) m = with_query m (mgr_query_task m c)"
| "mgr_step (Query_key k) m = with_query m (mgr_query_task_by_key m k)"
| "mgr_step (Query_signature s) m = with_query m (mgr_query_task_by_signature m s)"
| "mgr_step (Query_sid s) m = with_query m (mgr_query_task_by_sid m s)"
| "mgr_step (Key_active k) m = with_flag m (is_key_active m k)"
| "mgr_step (Signature_active s) m = with_flag m (is_signature_active m s)"
| "mgr_step (Sid_active s) m = with_flag m (is_sid_active m s)"
| "mgr_step (Active_signature s) m = with_query m (query_active_task_by_signature m s)"
| "mgr_step (Active_sid s) m = with_query m (query_active_task_by_sid m s)"
| "mgr_step Stats m = Inr (R_stats (get_stats m), m)"

definition db_query :: "task_db \<Rightarrow> int option \<Rightarrow> TaskSnapshot option" where
  "db_query db i = map_option snapshot_of (Option.bind i (db_tasks db))"

definition db_status :: "task_db \<Rightarrow> int \<Rightarrow> ECaptureTaskStatus \<Rightarrow> task_db" where
  "db_status db c s = db_update c (\<lambda>t. t\<lparr>t_status := s\<rparr>) db"

definition snap_active :: "TaskSnapshot option \<Rightarrow> bool" where
  "snap_active s = (case s of None \<Rightarrow> False | Some sn \<Rightarrow> is_active_status (sn_status sn))"

definition db_has :: "task_db \<Rightarrow> int \<Rightarrow> bool" where
  "db_has db c \<longleftrightarrow> db_tasks db c \<noteq> None"

definition db_active :: "task_db \<Rightarrow> int option \<Rightarrow> TaskSnapshot option" where
  "db_active db i = (if snap_active (db_query db i) then db_query db i else None)"

fun db_step :: "mgr_op \<Rightarrow> task_db \<Rightarrow> mgr_result \<times> task_db" where
  "db_step (Add_task c key sig sid task) db = (R_bool True, db_add c key sig sid task db)"
| "db_step (Remove_task c) db = (R_unit, db_remove c db)"
| "db_step (Update_status c s) db = (R_bool (db_has db c), db_status db c s)"
| "db_step (Started c ts pid file) db =
     (R_bool (db_has db c), db_status (db_update c (updater_start ts pid file) db) c STATUS_RUNNING)"
| "db_step (Files c fs) db =
     (if fs = [] then (R_bool False, db) else (R_bool (db_has db c), db_update c (append_files fs) db))"
| "db_step (Archive c a) db = (R_bool (db_has db c), db_update c (archive_recorder a) db)"
| "db_step (Progress c p b ts) db = (R_bool (db_has db c), db_update c (updater_progress p b ts) db)"
| "db_step (Finished c ts p b path) db =
     (R_bool (db_has db c), db_status (db_update c (updater_finished ts p b path) db) c STATUS_COMPLETED)"
| "db_step (Failed now c msg) db =
     (R_bool (db_has db c), db_status (db_update c (updater_failed now msg) db) c STATUS_FAILED)"
| "db_step Cleanup db = (R_unit, db)"
| "db_step (Query_id c) db = (R_snapshot (db_query db (Some c)), db)"
| "db_step (Query_key k) db = (R_snapshot (db_query db (db_key db k)), db)"
| "db_step (Query_signature s) db = (R_snapshot (db_query db (db_sig db s)), db)"
| "db_step (Query_sid s) db = (R_snapshot (db_query db (db_sid db s)), db)"
| "db_step (Key_active k) db = (R_bool (snap_active (db_query db (db_key db k))), db)"
| "db_step (Signature_active s) db = (R_bool (snap_active (db_query db (db_sig db s))), db)"
| "db_step (Sid_active s) db = (R_bool (snap_active (db_query db (db_sid db s))), db)"
| "db_step (Active_signature s) db = (R_snapshot (db_active db (db_sig db s)), db)"
| "db_step (Active_sid s) db = (R_snapshot (db_active db (db_sid db s)), db)"
| "db_step Stats db = (R_stats (stats_of (statuses (db_tasks db))), db)"

lemma query_ok:
  assumes ok: "mgr_ok m"
  shows "tt_query_task (mg_heap m) (current m) c = Inr (db_query (mgr_db m) (Some c))"
  using ok
proof (cases rule: slot_cases [of m c])
  case absent
  then show ?thesis by (simp add: tt_query_task_def db_query_def)
next
  case (there old task)
  then show ?thesis by (simp add: tt_query_task_def db_query_def deref_def)
qed

lemma query_index_ok:
  "mgr_ok m \<Longrightarrow> query_index (mg_heap m) (current m) ix s = Inr (db_query (mgr_db m) (ix s))"
  by (cases "ix s") (simp_all add: query_index_def query_ok db_query_def)

lemmas mgr_query_defs = mgr_query_task_def mgr_query_task_by_key_def mgr_query_task_by_signature_def
  mgr_query_task_by_sid_def tt_query_task_by_key_def tt_query_task_by_signature_def
  tt_query_task_by_sid_def is_key_active_def is_signature_active_def is_sid_active_def
  query_active_task_by_signature_def query_active_task_by_sid_def snapshot_active_def if_active_def

lemma mgr_db_index [simp]:
  "db_key (mgr_db m) = key_to_id (current m)" "db_sig (mgr_db m) = signature_to_id (current m)"
  "db_sid (mgr_db m) = sid_to_id (current m)"
  by (simp_all add: mgr_db_def)

lemma mgr_stats_ok: "mgr_ok m \<Longrightarrow> mg_stats m = stats_of (statuses (db_tasks (mgr_db m)))"
  by (simp add: mgr_ok_def tbl_ok_def mgr_db_def)

lemma add_step_ok:
  assumes ok: "mgr_ok m"
  shows "\<exists>m'. mgr_step (Add_task c key sig sid task) m = Inr (R_bool True, m') \<and> mgr_ok m' \<and>
    mgr_db m' = db_add c key sig sid task (mgr_db m)"
proof -
  let ?m1 = "snd (new_task task m)" and ?a = "mg_next m"
  have t: "tbl_ok {} m (current m)" using ok by (simp add: mgr_ok_def)
  have own: "tbl_ok {?a} ?m1 (current ?m1)" using new_task_ok [OF t] by (simp add: new_task_frame)
  have null: "nulls (current ?m1) = {}" using mgr_ok_null [OF ok] by (simp add: new_task_frame)
  have a: "mg_heap ?m1 ?a = Some task" by (simp add: new_task_frame)
  obtain m' where m': "mgr_add_task c key sig sid (Some ?a) ?m1 = Inr (True, m')" "mgr_ok m'"
    "mgr_db m' = db_add c key sig sid task (mgr_db ?m1)"
    by (rule mgr_add_owned [OF own null a])
  have "mgr_db ?m1 = mgr_db m"
    using tbl_abs_heap_upd [OF next_fresh(1) [OF t]] by (simp add: mgr_db_def tbl_db_def new_task_frame)
  moreover have "mgr_step (Add_task c key sig sid task) m = Inr (R_bool True, m')"
    using m'(1) by (simp add: with_bool_def case_prod_beta new_task_frame(2))
  ultimately show ?thesis using m'(2,3) by auto
qed

lemma mgr_step_refines:
  assumes ok: "mgr_ok m"
  shows "\<exists>r m'. mgr_step op m = Inr (r, m') \<and> mgr_ok m' \<and> db_step op (mgr_db m) = (r, mgr_db m')"
proof -
  have upd: "\<exists>r m'. with_bool (mgr_update_task c f m) = Inr (r, m') \<and> mgr_ok m' \<and>
      (R_bool (db_has (mgr_db m) c), db_update c f (mgr_db m)) = (r, mgr_db m')" for c f
    by (rule mgr_update_task_ok [OF ok, of c f]) (simp add: with_bool_def db_has_def domIff)
  have upd2: "\<exists>r m'. with_bool (update_then_status c f s m) = Inr (r, m') \<and> mgr_ok m' \<and>
      (R_bool (db_has (mgr_db m) c), db_status (db_update c f (mgr_db m)) c s) = (r, mgr_db m')" for c f s
    by (rule update_then_status_ok [OF ok, of c f s])
      (simp add: with_bool_def db_has_def db_status_def domIff)
  note q = query_ok [OF ok] query_index_ok [OF ok]
  show ?thesis
  proof (cases op)
    case (Add_task c key sig sid task)
    then show ?thesis using add_step_ok [OF ok, of c key sig sid task] by auto
  next
    case (Remove_task c)
    show ?thesis
      by (rule mgr_remove_ok [OF ok, of c]) (simp add: Remove_task with_unit_def)
  next
    case (Update_status c s)
    show ?thesis
      by (rule mgr_update_status_ok [OF ok, of c s])
        (simp add: Update_status with_bool_def db_has_def db_status_def domIff)
  next
    case (Started c ts pid out)
    then show ?thesis using upd2 [of c "updater_start ts pid out" STATUS_RUNNING]
      by (simp add: set_capture_started_def)
  next
    case (Files c fs)
    then show ?thesis using upd [of c "append_files fs"] ok
      by (simp add: append_capture_files_def with_bool_def)
  next
    case (Archive c a)
    then show ?thesis using upd [of c "archive_recorder a"] by (simp add: record_archive_def)
  next
    case (Progress c p b ts)
    then show ?thesis using upd [of c "updater_progress p b ts"] by (simp add: update_progress_def)
  next
    case (Finished c ts p b path)
    then show ?thesis using upd2 [of c "updater_finished ts p b path" STATUS_COMPLETED]
      by (simp add: set_capture_finished_def)
  next
    case (Failed now c msg)
    then show ?thesis using upd2 [of c "updater_failed now msg" STATUS_FAILED]
      by (simp add: set_capture_failed_def)
  next
    case Cleanup
    show ?thesis by (rule cleanup_ok [OF ok]) (simp add: Cleanup with_unit_def)
  next
    case Stats
    then show ?thesis using ok mgr_stats_ok [OF ok] by (simp add: get_stats_def)
  qed (simp_all add: with_query_def with_flag_def mgr_query_defs q ok snap_active_def db_active_def
      split: option.split)
qed

text \<open>Legal use of the indices: a new task carries the key it is added under and gets a new id.\<close>

fun mgr_legal :: "mgr_op \<Rightarrow> task_db \<Rightarrow> bool" where
  "mgr_legal (Add_task c key sig sid task) db \<longleftrightarrow> t_key task = key \<and> db_tasks db c = None"
| "mgr_legal _ db \<longleftrightarrow> True"

lemmas updater_defs = updater_start_def updater_progress_def updater_finished_def updater_failed_def
  append_files_def archive_recorder_def

lemma db_step_good:
  assumes "db_good db" "mgr_legal op db"
  shows "db_good (snd (db_step op db))"
  using assms
proof (cases op)
  case (Add_task c key sig sid task)
  then show ?thesis using assms by (simp add: db_add_good)
next
  case (Files c fs)
  have "db_good (db_update c (append_files fs) db)"
    using assms(1) by (rule db_update_good) (simp add: append_files_def)
  then show ?thesis using assms Files by simp
qed (auto simp: db_remove_good db_status_def updater_defs Let_def intro!: db_update_good)

interpretation mgr: invariant_refinement mgr_step db_step mgr_ok mgr_db mgr_legal db_good
proof unfold_locales
  show "\<exists>r s'. mgr_step op s = Inr (r, s') \<and> mgr_ok s' \<and> db_step op (mgr_db s) = (r, mgr_db s')"
    if "mgr_ok s" for op s using that by (rule mgr_step_refines)
  show "db_good (snd (db_step op a))" if "db_good a" "mgr_legal op a" for a op
    using that by (rule db_step_good)
qed

lemma mgr_db_new: "mgr_db CRxSafeTaskMgr_new = db_new"
  by (simp add: mgr_db_def tbl_db_def db_new_def CRxSafeTaskMgr_new_def current_def TaskTable_new_def
      tbl_abs_def fun_eq_iff)

section \<open>The destructor\<close>

definition mem_ok :: "CRxSafeTaskMgr \<Rightarrow> bool" where
  "mem_ok m \<longleftrightarrow>
     no_sharing (current m) \<and> dom (mg_heap m) = ptrs (current m) \<union> set (mg_pending_deletes m) \<and>
     ptrs (current m) \<inter> set (mg_pending_deletes m) = {} \<and> distinct (mg_pending_deletes m)"

lemma destroy_slots_ok:
  assumes "mem_ok m" "set is \<subseteq> dom (slots (current m))"
  shows "\<exists>m'. destroy_slots m is = Inr m' \<and> mem_ok m' \<and>
    slots (current m') = (\<lambda>i. if i \<in> set is then Some None else slots (current m) i)"
  using assms
proof (induction "is" arbitrary: m)
  case (Cons i "is")
  define t where "t = (current m)\<lparr>slots := (slots (current m))(i \<mapsto> None)\<rparr>"
  define m1 where "m1 = m\<lparr>mg_tables := (mg_tables m)(mg_curr m := t)\<rparr>"
  have m1: "current m1 = t" "mg_heap m1 = mg_heap m" "mg_pending_deletes m1 = mg_pending_deletes m"
    by (simp_all add: m1_def current_def)
  have st: "slots t = (slots (current m))(i \<mapsto> None)" by (simp add: t_def)
  have dom: "dom (slots t) = dom (slots (current m))" using st Cons.prems(2) by auto
  show ?case
  proof (cases "slots (current m) i")
    case None
    then show ?thesis using Cons.prems(2) by auto
  next
    case (Some p)
    show ?thesis
    proof (cases p)
      case None
      then have t: "t = current m" using Some by (simp add: t_def fun_upd_idem)
      then have "mem_ok m1" using Cons.prems(1) m1 by (simp add: mem_ok_def)
      moreover have "set is \<subseteq> dom (slots (current m1))" using Cons.prems(2) m1 t by simp
      ultimately obtain m' where "destroy_slots m1 is = Inr m'" "mem_ok m'"
        "slots (current m') = (\<lambda>j. if j \<in> set is then Some None else slots (current m1) j)"
        using Cons.IH by blast
      then show ?thesis using Some None t m1 by (auto simp: m1_def t_def Let_def fun_eq_iff)
    next
      case (Some a)
      with \<open>slots (current m) i = Some p\<close> have a: "slots (current m) i = Some (Some a)" by simp
      have share: "no_sharing (current m)" using Cons.prems(1) by (simp add: mem_ok_def)
      note d = ptrs_drop [OF share a, of "Some None" t, OF _ st, simplified]
      define m2 where "m2 = m1\<lparr>mg_heap := (mg_heap m)(a := None)\<rparr>"
      have m2: "current m2 = t" by (simp add: m2_def m1_def current_def)
      have del: "delete (mg_heap m1) a = Inr ((mg_heap m)(a := None))"
        using Cons.prems(1) d(3) m1 by (auto simp: mem_ok_def delete_def split: option.split)
      have "mem_ok m2"
        using Cons.prems(1) d m2 unfolding mem_ok_def by (auto simp: m2_def m1_def)
      moreover have "set is \<subseteq> dom (slots (current m2))" using Cons.prems(2) m2 dom by simp
      ultimately obtain m' where "destroy_slots m2 is = Inr m'" "mem_ok m'"
        "slots (current m') = (\<lambda>j. if j \<in> set is then Some None else slots (current m2) j)"
        using Cons.IH by blast
      moreover have "destroy_slots m (i # is) = destroy_slots m2 is"
        using a del by (simp add: Let_def m2_def m1_def t_def)
      ultimately show ?thesis using m2 st by (auto simp: fun_eq_iff)
    qed
  qed
qed auto

lemma destroy_ok:
  assumes ok: "mgr_ok m"
  shows "\<exists>m'. mgr_destroy m = Inr m' \<and> mg_heap m' = Map.empty \<and> mg_pending_deletes m' = []"
proof -
  have t: "tbl_ok {} m (current m)" using ok by (simp add: mgr_ok_def)
  then have "mem_ok m" and fin: "finite (dom (slots (current m)))" by (auto simp: tbl_ok_def mem_ok_def)
  then obtain m1 where m1: "destroy_slots m (sorted_list_of_set (dom (slots (current m)))) = Inr m1"
    "mem_ok m1" "slots (current m1) =
      (\<lambda>i. if i \<in> dom (slots (current m)) then Some None else slots (current m) i)"
    using destroy_slots_ok [of m "sorted_list_of_set (dom (slots (current m)))"] by auto
  have "slots (current m1) i \<noteq> Some (Some a)" for i a unfolding m1(3) by (auto simp: domIff)
  then have "ptrs (current m1) = {}" by (simp add: ptrs_def)
  then have d: "dom (mg_heap m1) = set (mg_pending_deletes m1)" "distinct (mg_pending_deletes m1)"
    using m1(2) by (auto simp: mem_ok_def)
  have "mg_heap m1 |` (- set (mg_pending_deletes m1)) = Map.empty"
    unfolding d(1) [symmetric] by (auto simp: restrict_map_def fun_eq_iff domIff)
  then show ?thesis using m1(1) delete_all_ok [OF d(2), of "mg_heap m1"] d(1)
    by (simp add: mgr_destroy_def cleanup_pending_deletes_def)
qed

section \<open>Properties of the shared task table\<close>

text \<open>
  C8. Every sequence of operations and queries on a new task manager, with its two tables, shared
  pointers, deferred deletions and atomic counters, runs without touching freed memory or freeing
  twice, and returns what the plain table of tasks with its three indices returns.
\<close>

theorem task_manager_refines:
  "\<exists>rs m. run_steps mgr_step ops CRxSafeTaskMgr_new = Inr (rs, m) \<and>
     spec_steps db_step ops db_new = (rs, mgr_db m)"
  using mgr.run_refines [OF mgr_new_ok, of ops] by (auto simp: mgr_db_new)

text \<open>
  C33. After every sequence of operations, destroying the manager frees every task that was ever
  allocated, none of them twice.
\<close>

theorem task_manager_no_leak:
  "\<exists>rs m m'. run_steps mgr_step ops CRxSafeTaskMgr_new = Inr (rs, m) \<and> mgr_destroy m = Inr m' \<and>
     mg_heap m' = Map.empty \<and> mg_pending_deletes m' = []"
  using mgr.run_refines [OF mgr_new_ok, of ops] destroy_ok by blast

text \<open>
  C32. The statistics of the manager are exact after every sequence of operations: all seven counters,
  the total and one for each status, are the number of tasks in the table that have the status.
\<close>

theorem task_counters_exact:
  "\<exists>rs m. run_steps mgr_step ops CRxSafeTaskMgr_new = Inr (rs, m) \<and>
     total_count (get_stats m) = of_nat (card (dom (mgr_abs m))) \<and>
     running_count (get_stats m) = of_nat (card {i. map_option t_status (mgr_abs m i) = Some STATUS_RUNNING}) \<and>
     pending_count (get_stats m) = of_nat (card {i. map_option t_status (mgr_abs m i) = Some STATUS_PENDING}) \<and>
     completed_count (get_stats m) = of_nat (card {i. map_option t_status (mgr_abs m i) = Some STATUS_COMPLETED}) \<and>
     failed_count (get_stats m) = of_nat (card {i. map_option t_status (mgr_abs m i) = Some STATUS_FAILED}) \<and>
     resolving_count (get_stats m) = of_nat (card {i. map_option t_status (mgr_abs m i) = Some STATUS_RESOLVING}) \<and>
     stopped_count (get_stats m) = of_nat (card {i. map_option t_status (mgr_abs m i) = Some STATUS_STOPPED})"
proof -
  obtain rs m where m: "run_steps mgr_step ops CRxSafeTaskMgr_new = Inr (rs, m)" "mgr_ok m"
    using mgr.run_refines [OF mgr_new_ok, of ops] by blast
  have "get_stats m = stats_of (statuses (mgr_abs m))"
    using mgr_stats_ok [OF m(2)] by (simp add: get_stats_def mgr_db_def mgr_abs_def)
  moreover have "dom (statuses (mgr_abs m)) = dom (mgr_abs m)" by (auto simp: dom_def)
  ultimately show ?thesis using m(1) by (simp add: stats_of_def cnt_def)
qed

lemma db_query_name:
  assumes "exact ix (names f db)"
  shows "db_query db (ix s) = Some sn \<longleftrightarrow>
    (\<exists>i t. db_tasks db i = Some t \<and> f t = Some s \<and> sn = snapshot_of t)"
proof
  assume "db_query db (ix s) = Some sn"
  then obtain i t where "ix s = Some i" "db_tasks db i = Some t" "sn = snapshot_of t"
    by (cases "ix s") (simp_all add: db_query_def bind_eq_Some_conv, blast)
  moreover from this have "f t = Some s" using assms by (simp add: exact_def names_def)
  ultimately show "\<exists>i t. db_tasks db i = Some t \<and> f t = Some s \<and> sn = snapshot_of t" by blast
next
  assume "\<exists>i t. db_tasks db i = Some t \<and> f t = Some s \<and> sn = snapshot_of t"
  then obtain i t where t: "db_tasks db i = Some t" "f t = Some s" "sn = snapshot_of t" by blast
  then have "ix s = Some i" using assms by (simp add: exact_def names_def)
  then show "db_query db (ix s) = Some sn" using t by (simp add: db_query_def)
qed

lemma db_query_sound:
  assumes "sound ix (names sig_name db)" "db_query db (ix s) = Some sn"
  shows "sn_signature sn = s \<and> is_active_status (sn_status sn)"
proof -
  obtain i t where t: "ix s = Some i" "db_tasks db i = Some t" "sn = snapshot_of t"
    using assms(2) by (cases "ix s") (simp_all add: db_query_def bind_eq_Some_conv, blast)
  have "names sig_name db i = Some s" using assms(1) t(1) unfolding sound_def by blast
  then have "sig_name t = Some s" using t(2) by (simp add: names_def)
  then show ?thesis using t(3) by (simp add: sig_name_def snapshot_of_def split: if_splits)
qed

text \<open>
  When every task is added under its own key with an id that is not in use, then after every
  sequence of operations a query by key or by session finds exactly the task with that key or
  session, and a query by signature finds only an active task with that signature.
\<close>

theorem task_lookup_by_name:
  assumes "legal_steps db_step mgr_legal ops db_new"
  shows "\<exists>rs m. run_steps mgr_step ops CRxSafeTaskMgr_new = Inr (rs, m) \<and>
    (\<forall>k sn. mgr_query_task_by_key m k = Inr (Some sn) \<longleftrightarrow>
       (\<exists>i t. mgr_abs m i = Some t \<and> t_key t = k \<and> sn = snapshot_of t)) \<and>
    (\<forall>s sn. mgr_query_task_by_sid m s = Inr (Some sn) \<longleftrightarrow>
       (\<exists>i t. mgr_abs m i = Some t \<and> s \<noteq> [] \<and> t_sid t = s \<and> sn = snapshot_of t)) \<and>
    (\<forall>s sn. mgr_query_task_by_signature m s = Inr (Some sn) \<longrightarrow>
       sn_signature sn = s \<and> is_active_status (sn_status sn))"
proof -
  have "db_good (mgr_db CRxSafeTaskMgr_new)" "legal_steps db_step mgr_legal ops (mgr_db CRxSafeTaskMgr_new)"
    using db_new_good assms by (simp_all add: mgr_db_new)
  from mgr.run_good [OF mgr_new_ok this] obtain rs m where
    m: "run_steps mgr_step ops CRxSafeTaskMgr_new = Inr (rs, m)" "mgr_ok m" "db_good (mgr_db m)" by blast
  have e: "exact (key_to_id (current m)) (names key_name (mgr_db m))"
    "exact (sid_to_id (current m)) (names sid_name (mgr_db m))"
    "sound (signature_to_id (current m)) (names sig_name (mgr_db m))"
    using m(3) by (simp_all add: db_good_def)
  have a: "db_tasks (mgr_db m) = mgr_abs m" by (simp add: mgr_db_def mgr_abs_def)
  have s: "sid_name t = Some s \<longleftrightarrow> s \<noteq> [] \<and> t_sid t = s" for t s by (auto simp: sid_name_def)
  have k: "key_name t = Some s \<longleftrightarrow> t_key t = s" for t s by (simp add: key_name_def)
  show ?thesis
    using m(1) db_query_name [OF e(1)] db_query_name [OF e(2)] db_query_sound [OF e(3)]
    by (simp add: mgr_query_defs query_index_ok [OF m(2)] a s k conj_assoc)
qed

definition sample_task :: "string \<Rightarrow> SRxCaptureTask" where
  "sample_task k = SRxCaptureTask_new\<lparr>t_key := k\<rparr>"

theorem task_lookup_by_name_witness:
  "\<exists>rs m. run_steps mgr_step [Add_task 1 ''a'' ''s'' [] (sample_task ''a''),
      Add_task 2 ''b'' [] ''x'' (sample_task ''b'')] CRxSafeTaskMgr_new = Inr (rs, m) \<and>
    (\<forall>k sn. mgr_query_task_by_key m k = Inr (Some sn) \<longleftrightarrow>
       (\<exists>i t. mgr_abs m i = Some t \<and> t_key t = k \<and> sn = snapshot_of t))"
proof -
  have "legal_steps db_step mgr_legal [Add_task 1 ''a'' ''s'' [] (sample_task ''a''),
      Add_task 2 ''b'' [] ''x'' (sample_task ''b'')] db_new"
    by (simp add: sample_task_def db_new_def db_add_def db_insert_def db_remove_other_def Let_def)
  from task_lookup_by_name [OF this] show ?thesis
    by (elim exE conjE) (intro exI conjI, assumption+)
qed

text \<open>
  Adding a task under an id that is in use leaves the key of the replaced task in the index: the
  query by the old key then returns the new task, which has another key.
\<close>

theorem replaced_id_keeps_old_key:
  "\<exists>rs m sn. run_steps mgr_step [Add_task 1 ''a'' [] [] (sample_task ''a''),
      Add_task 1 ''b'' [] [] (sample_task ''b'')] CRxSafeTaskMgr_new = Inr (rs, m) \<and>
    mgr_query_task_by_key m ''a'' = Inr (Some sn) \<and> sn_key sn = ''b''"
proof -
  let ?ops = "[Add_task 1 ''a'' [] [] (sample_task ''a''), Add_task 1 ''b'' [] [] (sample_task ''b'')]"
  obtain rs m where m: "run_steps mgr_step ?ops CRxSafeTaskMgr_new = Inr (rs, m)" "mgr_ok m"
    "spec_steps db_step ?ops db_new = (rs, mgr_db m)"
    using mgr.run_refines [OF mgr_new_ok, of ?ops] by (auto simp: mgr_db_new)
  have "mgr_db m = snd (spec_steps db_step ?ops db_new)" using m(3) by simp
  then have "db_tasks (mgr_db m) 1 = Some ((sample_task ''b'')\<lparr>t_signature := [], t_sid := []\<rparr>)"
    and "key_to_id (current m) ''a'' = Some 1"
    by (simp_all add: db_new_def db_add_def db_insert_def db_remove_other_def Let_def
        flip: mgr_db_index)
  then have q: "mgr_query_task_by_key m ''a'' = Inr (Some (snapshot_of
      ((sample_task ''b'')\<lparr>t_signature := [], t_sid := []\<rparr>)))"
    by (simp only: mgr_query_defs query_index_ok [OF m(2)]) (simp add: db_query_def)
  have "sn_key (snapshot_of ((sample_task ''b'')\<lparr>t_signature := [], t_sid := []\<rparr>)) = ''b''"
    by (simp add: snapshot_of_def sample_task_def)
  then show ?thesis using m(1) q by blast
qed

text \<open>
  C34. A reader in another thread that has fetched the pointer of a task and is delayed reads freed
  memory when the manager meanwhile changes the status of that task and runs its clean-up.
\<close>

theorem delayed_reader_uses_freed_task:
  assumes "mgr_ok m" "slots (current m) c = Some (Some a)"
  shows "\<exists>rs m'. deref (mg_heap m) a \<noteq> Inl Use_after_free \<and>
    run_steps mgr_step [Update_status c s, Cleanup] m = Inr (rs, m') \<and>
    deref (mg_heap m') a = Inl Use_after_free"
proof -
  obtain task where task: "mg_heap m a = Some task"
    using assms ptrs_alloc [OF _ assms(2)] by (auto simp: mgr_ok_def)
  have t: "tbl_ok {} m (current m)" using assms(1) by (simp add: mgr_ok_def)
  define x where "x = task\<lparr>t_status := s\<rparr>"
  define m1 where "m1 = increment_status_count s (decrement_status_count (t_status task)
    (replace_task c a x m))"
  have up: "mgr_step (Update_status c s) m = Inr (R_bool True, m1)"
    using assms(2) task by (simp add: mgr_update_status_def with_bool_def deref_def m1_def x_def Let_def)
  have m1: "mgr_ok m1"
    using mgr_step_refines [OF assms(1), of "Update_status c s"] up by auto
  obtain m2 where m2: "cleanup_pending_deletes m1 = Inr m2" "dom (mg_heap m2) = ptrs (current m2)"
    "mgr_ok m2" by (rule cleanup_ok [OF m1])
  have "current m2 = current m1"
    using m2(1) by (auto simp: cleanup_pending_deletes_def current_def split: sum.splits)
  moreover have "a \<notin> ptrs (current m1)"
    using m1 by (auto simp: mgr_ok_def tbl_ok_def m1_def replace_task_frame)
  ultimately have "mg_heap m2 a = None" using m2(2) by auto
  then show ?thesis using up m2(1) task by (simp add: deref_def with_unit_def)
qed

lemma sample_manager:
  obtains m a where "mgr_step (Add_task 1 ''a'' [] [] (sample_task ''a'')) CRxSafeTaskMgr_new =
    Inr (R_bool True, m)" "mgr_ok m" "slots (current m) 1 = Some (Some a)"
proof -
  obtain m where m: "mgr_step (Add_task 1 ''a'' [] [] (sample_task ''a'')) CRxSafeTaskMgr_new =
      Inr (R_bool True, m)" "mgr_ok m"
    "mgr_db m = db_add 1 ''a'' [] [] (sample_task ''a'') (mgr_db CRxSafeTaskMgr_new)"
    using add_step_ok [OF mgr_new_ok] by blast
  have "db_tasks (mgr_db m) 1 \<noteq> None"
    using m(3) by (simp add: mgr_db_new db_new_def db_add_def db_insert_def db_remove_other_def Let_def
        del: mgr_db_index)
  then obtain a where "slots (current m) 1 = Some (Some a)"
    using slot_cases [OF m(2), of 1] by metis
  then show thesis using that m by blast
qed

theorem delayed_reader_uses_freed_task_witness:
  "\<exists>m a rs m'. slots (current m) 1 = Some (Some a) \<and> deref (mg_heap m) a \<noteq> Inl Use_after_free \<and>
    run_steps mgr_step [Update_status 1 STATUS_RUNNING, Cleanup] m = Inr (rs, m') \<and>
    deref (mg_heap m') a = Inl Use_after_free"
proof -
  obtain m a where m: "mgr_ok m" "slots (current m) 1 = Some (Some a)"
    using sample_manager by blast
  from delayed_reader_uses_freed_task [OF this] m(2) show ?thesis by blast
qed

end
