(* ===== verification/Lockfree_Queue.thy ===== *)
theory Lockfree_Queue
  imports Prelude
begin

text \<open>
  The single-producer single-consumer ring buffer of \<open>src/src/rxlockfreequeue.c\<close>.  Positions are
  64-bit words, capacity and mask 32-bit words.  A slot is copied by \<open>memcpy\<close>, so only the first
  \<open>caplen\<close> bytes of its data change; a length beyond the 65536 bytes of the array is a write
  outside it.  Pointers into the data of a node are offsets.  Allocation is assumed to succeed.
\<close>

section \<open>State\<close>

record pcap_pkthdr =
  ts_sec :: u64
  ts_usec :: u64
  caplen :: u32
  wire_len :: u32

record PacketNode =
  header :: pcap_pkthdr
  node_data :: "u8 list"
  src_port :: u16
  dst_port :: u16
  app_data :: "int option"
  app_len :: u32
  valid :: bool

record LockFreeQueue =
  write_pos :: u64
  read_pos :: u64
  capacity :: u32
  index_mask :: u32
  buffer :: "PacketNode list"

definition DATA_SIZE :: nat where
  "DATA_SIZE = 65536"

section \<open>Operations\<close>

definition next_power_of_2 :: "u32 \<Rightarrow> u32" where
  "next_power_of_2 n =
     (if n = 0 then 1
      else let n0 = n - 1;
               n1 = n0 OR drop_bit 1 n0;
               n2 = n1 OR drop_bit 2 n1;
               n3 = n2 OR drop_bit 4 n2;
               n4 = n3 OR drop_bit 8 n3;
               n5 = n4 OR drop_bit 16 n4
           in n5 + 1)"

text \<open>
  \<open>malloc\<close> leaves the slots uninitialised; \<open>garbage\<close> is whatever they hold.
\<close>

definition lfq_create :: "PacketNode \<Rightarrow> u32 \<Rightarrow> LockFreeQueue option" where
  "lfq_create garbage cap =
     (if cap = 0 then None
      else let real_capacity = next_power_of_2 cap in
           Some \<lparr>write_pos = 0, read_pos = 0, capacity = real_capacity,
                 index_mask = real_capacity - 1, buffer = replicate (unat real_capacity) garbage\<rparr>)"

text \<open>\<open>memcpy (dst, src, n)\<close> between two arrays.\<close>

definition memcpy :: "u8 list \<Rightarrow> u8 list \<Rightarrow> nat \<Rightarrow> fault + u8 list" where
  "memcpy dst src n =
     (if n > length dst then Inl Oob_write
      else if n > length src then Inl Oob_read
      else Inr (take n src @ drop n dst))"

definition copy_node :: "PacketNode \<Rightarrow> PacketNode \<Rightarrow> fault + PacketNode" where
  "copy_node dst src =
     try_then (memcpy (node_data dst) (node_data src) (unat (caplen (header src)))) (\<lambda>d.
       Inr \<lparr>header = header src, node_data = d, src_port = src_port src, dst_port = dst_port src,
            app_data = (if app_data src \<noteq> None \<and> valid src then app_data src else None),
            app_len = app_len src, valid = valid src\<rparr>)"

definition slot_index :: "LockFreeQueue \<Rightarrow> u64 \<Rightarrow> nat" where
  "slot_index q p = unat (ucast (p AND ucast (index_mask q)) :: u32)"

text \<open>The copy into the slot of a write position, and the copy out of the slot of a read position.\<close>

definition store_slot :: "LockFreeQueue \<Rightarrow> u64 \<Rightarrow> PacketNode \<Rightarrow> fault + LockFreeQueue" where
  "store_slot q wp item =
     (let i = slot_index q wp in
      if i \<ge> length (buffer q) then Inl Oob_write
      else try_then (copy_node (buffer q ! i) item) (\<lambda>slot. Inr (q\<lparr>buffer := (buffer q)[i := slot]\<rparr>)))"

definition load_slot :: "LockFreeQueue \<Rightarrow> u64 \<Rightarrow> PacketNode \<Rightarrow> fault + PacketNode" where
  "load_slot q rp item =
     (let i = slot_index q rp in
      if i \<ge> length (buffer q) then Inl Oob_read else copy_node item (buffer q ! i))"

definition lfq_push :: "LockFreeQueue \<Rightarrow> PacketNode \<Rightarrow> fault + bool \<times> LockFreeQueue" where
  "lfq_push q item =
     (let wp = write_pos q; rp = read_pos q in
      if wp - rp \<ge> ucast (capacity q) then Inr (False, q)
      else try_then (store_slot q wp item) (\<lambda>q1. Inr (True, q1\<lparr>write_pos := wp + 1\<rparr>)))"

text \<open>\<open>item\<close> is the memory of the caller that the node is copied to.\<close>

definition lfq_pop :: "LockFreeQueue \<Rightarrow> PacketNode \<Rightarrow> fault + bool \<times> LockFreeQueue \<times> PacketNode" where
  "lfq_pop q item =
     (let rp = read_pos q; wp = write_pos q in
      if rp \<ge> wp then Inr (False, q, item)
      else try_then (load_slot q rp item) (\<lambda>item1. Inr (True, q\<lparr>read_pos := rp + 1\<rparr>, item1)))"

definition lfq_size :: "LockFreeQueue option \<Rightarrow> u32" where
  "lfq_size q = (case q of None \<Rightarrow> 0 | Some q \<Rightarrow> ucast (write_pos q - read_pos q))"

definition lfq_is_empty :: "LockFreeQueue option \<Rightarrow> bool" where
  "lfq_is_empty q \<longleftrightarrow> lfq_size q = 0"

definition lfq_is_full :: "LockFreeQueue option \<Rightarrow> bool" where
  "lfq_is_full q =
     (case q of None \<Rightarrow> True | Some q \<Rightarrow> write_pos q - read_pos q \<ge> ucast (capacity q))"

section \<open>The capacity\<close>

text \<open>Each \<open>or\<close> with a shifted copy doubles the width over which set bits are spread down.\<close>

lemma smear_step:
  fixes x n :: u32
  assumes "\<And>i. bit x i \<longleftrightarrow> (\<exists>d<w. bit n (i + d))"
  shows "bit (x OR drop_bit w x) i \<longleftrightarrow> (\<exists>d<2 * w. bit n (i + d))"
proof
  assume "bit (x OR drop_bit w x) i"
  then consider d where "d < w" "bit n (i + d)" | d where "d < w" "bit n (i + w + d)"
    using assms by (auto simp: bit_or_iff bit_drop_bit_eq add.commute)
  then show "\<exists>d<2 * w. bit n (i + d)"
    by cases (force simp: add.assoc intro: exI [of _ "w + _"])+
next
  assume "\<exists>d<2 * w. bit n (i + d)"
  then obtain d where d: "d < 2 * w" "bit n (i + d)" by blast
  show "bit (x OR drop_bit w x) i"
  proof (cases "d < w")
    case True
    then show ?thesis using d assms by (auto simp: bit_or_iff)
  next
    case False
    then have "d - w < w" "bit n (i + w + (d - w))" using d by auto
    then show ?thesis using assms by (auto simp: bit_or_iff bit_drop_bit_eq add.commute)
  qed
qed

definition smear :: "u32 \<Rightarrow> u32" where
  "smear n0 =
     (let n1 = n0 OR drop_bit 1 n0; n2 = n1 OR drop_bit 2 n1; n3 = n2 OR drop_bit 4 n2;
          n4 = n3 OR drop_bit 8 n3
      in n4 OR drop_bit 16 n4)"

lemma bit_smear: "bit (smear n) i \<longleftrightarrow> (\<exists>d<32. bit n (i + d))"
proof -
  have 0: "bit n i \<longleftrightarrow> (\<exists>d<1. bit n (i + d))" for i by simp
  let ?n1 = "n OR drop_bit 1 n"
  have 1: "bit ?n1 i \<longleftrightarrow> (\<exists>d<2. bit n (i + d))" for i using smear_step [OF 0] by simp
  let ?n2 = "?n1 OR drop_bit 2 ?n1"
  have 2: "bit ?n2 i \<longleftrightarrow> (\<exists>d<4. bit n (i + d))" for i using smear_step [OF 1] by simp
  let ?n3 = "?n2 OR drop_bit 4 ?n2"
  have 3: "bit ?n3 i \<longleftrightarrow> (\<exists>d<8. bit n (i + d))" for i using smear_step [OF 2] by simp
  let ?n4 = "?n3 OR drop_bit 8 ?n3"
  have 4: "bit ?n4 i \<longleftrightarrow> (\<exists>d<16. bit n (i + d))" for i using smear_step [OF 3] by simp
  show ?thesis using smear_step [OF 4] by (simp add: smear_def Let_def)
qed

lemma next_power_of_2_smear: "n \<noteq> 0 \<Longrightarrow> next_power_of_2 n = smear (n - 1) + 1"
  by (simp add: next_power_of_2_def smear_def Let_def)

lemma bit_top_nat:
  fixes k :: nat
  assumes "2 ^ h \<le> k" "k < 2 ^ Suc h"
  shows "bit k h" "bit k i \<Longrightarrow> i \<le> h"
proof -
  have "k div 2 ^ h = 1" using assms by (intro div_nat_eqI) simp_all
  then show "bit k h" by (simp add: bit_iff_odd)
  show "i \<le> h" if "bit k i"
  proof (rule ccontr)
    assume "\<not> i \<le> h"
    then have "(2::nat) ^ Suc h \<le> 2 ^ i" by (intro power_increasing) simp_all
    then have "k div 2 ^ i = 0" using assms by simp
    then show False using that by (simp add: bit_iff_odd)
  qed
qed

lemma smear_mask:
  assumes h: "2 ^ h \<le> unat m" "unat m < 2 ^ Suc h"
  shows "smear m = mask (Suc h)"
proof (rule bit_word_eqI)
  fix i assume i: "i < LENGTH(32)"
  have nat_bit: "bit m j \<longleftrightarrow> j < 32 \<and> bit (unat m) j" for j
    by (auto simp: bit_unsigned_iff dest: bit_imp_possible_bit)
  have "(2::nat) ^ h < 2 ^ 32" using h(1) unsigned_less [of m, where 'a = nat] by simp
  then have "h < 32" by (rule power_less_imp_less_exp [of 2, rotated]) simp
  then have top: "bit m h" using bit_top_nat(1) [OF h] by (simp add: nat_bit)
  show "bit (smear m) i = bit (mask (Suc h) :: u32) i"
  proof (cases "i \<le> h")
    case True
    then have "\<exists>d<32. bit m (i + d)" using \<open>h < 32\<close> top by (intro exI [of _ "h - i"]) simp
    then show ?thesis using True i by (simp add: bit_smear bit_mask_iff)
  next
    case False
    then have "\<not> (\<exists>d<32. bit m (i + d))" 
      using bit_top_nat(2) [OF h] by (metis add_leD1 nat_bit)
    then show ?thesis using False by (simp add: bit_smear bit_mask_iff)
  qed
qed

lemma unat_power2: "k < 32 \<Longrightarrow> unat (2 ^ k :: u32) = 2 ^ k"
proof -
  assume "k < 32"
  then have "(2::nat) ^ k < 2 ^ 32" by (intro power_strict_increasing) simp_all
  then have "unat (of_nat (2 ^ k) :: u32) = 2 ^ k" by (intro unat_of_nat_small) simp
  then show ?thesis by simp
qed

text \<open>
  The capacity is the least power of two that is not below the request; above \<open>2^31\<close> there is none
  in 32 bits and the capacity becomes zero.
\<close>

lemma next_power_of_2_bounds:
  assumes "0 < n" "unat n \<le> 2 ^ 31"
  shows "\<exists>k\<le>31. unat (next_power_of_2 n) = 2 ^ k \<and> unat n \<le> 2 ^ k \<and> 2 ^ k < 2 * unat n"
proof (cases "n = 1")
  case True
  then show ?thesis by (intro exI [of _ 0]) (simp add: next_power_of_2_def Let_def)
next
  case False
  define m where "m = n - 1"
  have m: "unat m = unat n - 1" unfolding m_def using assms by (simp add: unat_minus_one word_gt_0)
  have pos: "1 \<le> unat m"
  proof -
    have "unat n \<noteq> 0" using assms by (simp add: word_gt_0 unat_eq_zero)
    moreover have "unat n \<noteq> 1" using False by (metis unat_1 word_unat_eq_iff)
    ultimately show ?thesis using m by linarith
  qed
  obtain h where h: "2 ^ h \<le> unat m" "unat m < 2 ^ Suc h"
    using ex_power_ivl1 [of 2 "unat m"] pos by auto
  have "(2::nat) ^ h < 2 ^ 31" using h(1) m assms pos by linarith
  then have h31: "h < 31" by (rule power_less_imp_less_exp [of 2, rotated]) simp
  have "next_power_of_2 n = mask (Suc h) + 1"
    using assms smear_mask [OF h] by (simp add: next_power_of_2_smear m_def word_gt_0)
  then have "next_power_of_2 n = 2 ^ Suc h" by (simp add: mask_eq_decr_exp)
  moreover have "unat (2 ^ Suc h :: u32) = 2 ^ Suc h"
    by (rule unat_power2) (use h31 in simp)
  ultimately show ?thesis using h m pos h31 by (intro exI [of _ "Suc h"]) auto
qed

lemma next_power_of_2_overflow:
  assumes "unat n > 2 ^ 31"
  shows "next_power_of_2 n = 0"
proof -
  define m where "m = n - 1"
  have "n \<noteq> 0" using assms by auto
  then have m: "unat m = unat n - 1" unfolding m_def by (simp add: unat_minus_one)
  have "2 ^ 31 \<le> unat m" "unat m < 2 ^ Suc 31"
    using assms m unsigned_less [of m, where 'a = nat] by simp_all
  then have "smear m = mask (Suc 31)" by (rule smear_mask)
  then show ?thesis using \<open>n \<noteq> 0\<close> by (simp add: next_power_of_2_smear m_def mask_eq_decr_exp)
qed

section \<open>Contents\<close>

text \<open>What a node carries: its header, the captured bytes and, if it is valid, its payload pointer.\<close>

definition node_value :: "PacketNode \<Rightarrow> pcap_pkthdr \<times> u8 list \<times> u16 \<times> u16 \<times> int option \<times> u32 \<times> bool" where
  "node_value n =
     (header n, take (unat (caplen (header n))) (node_data n), src_port n, dst_port n,
      (if valid n then app_data n else None), app_len n, valid n)"

definition node_ok :: "PacketNode \<Rightarrow> bool" where
  "node_ok n \<longleftrightarrow> length (node_data n) = DATA_SIZE \<and> unat (caplen (header n)) \<le> DATA_SIZE"

definition array_ok :: "PacketNode \<Rightarrow> bool" where
  "array_ok n \<longleftrightarrow> length (node_data n) = DATA_SIZE"

lemma node_ok_array [simp]: "node_ok n \<Longrightarrow> array_ok n"
  by (simp add: node_ok_def array_ok_def)

lemma copy_node_ok:
  assumes "array_ok dst" "node_ok src"
  obtains n where "copy_node dst src = Inr n" "node_ok n" "node_value n = node_value src"
  using assms by (simp add: copy_node_def memcpy_def node_ok_def array_ok_def node_value_def)

lemma copy_node_too_long:
  assumes "array_ok dst" "unat (caplen (header src)) > DATA_SIZE"
  shows "copy_node dst src = Inl Oob_write"
  using assms by (simp add: copy_node_def memcpy_def array_ok_def)

definition lfq_shape :: "LockFreeQueue \<Rightarrow> bool" where
  "lfq_shape q \<longleftrightarrow>
     (\<exists>k\<le>31. unat (capacity q) = 2 ^ k) \<and> index_mask q = capacity q - 1 \<and>
     length (buffer q) = unat (capacity q)"

definition slot_of :: "LockFreeQueue \<Rightarrow> nat \<Rightarrow> PacketNode" where
  "slot_of q p = buffer q ! (p mod unat (capacity q))"

definition lfq_wf :: "LockFreeQueue \<Rightarrow> bool" where
  "lfq_wf q \<longleftrightarrow>
     lfq_shape q \<and> unat (read_pos q) \<le> unat (write_pos q) \<and>
     unat (write_pos q) - unat (read_pos q) \<le> unat (capacity q) \<and>
     (\<forall>n\<in>set (buffer q). array_ok n) \<and>
     (\<forall>p. unat (read_pos q) \<le> p \<and> p < unat (write_pos q) \<longrightarrow> node_ok (slot_of q p))"

definition lfq_contents where
  "lfq_contents q = map (\<lambda>p. node_value (slot_of q p)) [unat (read_pos q)..<unat (write_pos q)]"

lemma slot_index_mod:
  assumes "lfq_shape q"
  shows "slot_index q p = unat p mod unat (capacity q)"
proof -
  obtain k where k: "k \<le> 31" "unat (capacity q) = 2 ^ k" using assms by (auto simp: lfq_shape_def)
  have "capacity q = 2 ^ k" using k unat_power2 [of k] by (simp add: word_unat_eq_iff)
  then have "index_mask q = mask k" using assms by (simp add: lfq_shape_def mask_eq_decr_exp)
  moreover have "ucast (mask k :: u32) = (mask k :: u64)"
    by (rule bit_word_eqI) (use k(1) in \<open>auto simp: bit_ucast_iff bit_mask_iff\<close>)
  ultimately have "p AND ucast (index_mask q) = take_bit k p" by (simp add: take_bit_eq_mask)
  moreover have "unat (ucast (take_bit k p) :: u32) = take_bit k (unat p)"
    using k(1) by (simp add: unsigned_ucast_eq unsigned_take_bit_eq take_bit_take_bit min_def)
  ultimately show ?thesis using k by (simp add: slot_index_def take_bit_eq_mod)
qed

text \<open>Positions that are less than the capacity apart have different slots.\<close>

lemma mod_window_inj:
  fixes p :: nat
  assumes "p < p'" "p' < p + c"
  shows "p mod c \<noteq> p' mod c"
proof
  assume "p mod c = p' mod c"
  then have "c dvd p' - p" using assms by (metis less_imp_le_nat mod_eq_dvd_iff_nat)
  then have "c \<le> p' - p" using assms by (intro dvd_imp_le) simp_all
  then show False using assms by simp
qed

lemma lfq_capacity_pos: "lfq_shape q \<Longrightarrow> 0 < unat (capacity q)"
  by (auto simp: lfq_shape_def)

lemma store_slot_ok:
  assumes "lfq_shape q" "\<forall>n\<in>set (buffer q). array_ok n" "node_ok item"
  obtains slot where
    "store_slot q wp item = Inr (q\<lparr>buffer := (buffer q)[unat wp mod unat (capacity q) := slot]\<rparr>)"
    "node_ok slot" "node_value slot = node_value item"
proof -
  let ?i = "unat wp mod unat (capacity q)"
  have i: "?i < length (buffer q)"
    using assms lfq_capacity_pos [of q] by (simp add: lfq_shape_def)
  then have "array_ok (buffer q ! ?i)" using assms by simp
  from copy_node_ok [OF this assms(3)] obtain n where
    "copy_node (buffer q ! ?i) item = Inr n" "node_ok n" "node_value n = node_value item" .
  then show thesis using i assms(1) that [of n] by (simp add: store_slot_def slot_index_mod)
qed

lemma load_slot_ok:
  assumes "lfq_shape q" "node_ok (slot_of q (unat rp))" "array_ok item"
  obtains n where "load_slot q rp item = Inr n" "node_ok n"
    "node_value n = node_value (slot_of q (unat rp))"
proof -
  let ?i = "unat rp mod unat (capacity q)"
  have "?i < length (buffer q)"
    using assms lfq_capacity_pos [of q] by (simp add: lfq_shape_def)
  moreover from copy_node_ok [OF assms(3,2)] obtain n where
    "copy_node item (slot_of q (unat rp)) = Inr n" "node_ok n"
    "node_value n = node_value (slot_of q (unat rp))" .
  ultimately show thesis using assms(1) that [of n]
    by (simp add: load_slot_def slot_index_mod slot_of_def)
qed

lemma slot_of_update:
  assumes "lfq_shape q" "w < p + unat (capacity q)" "p \<le> w"
  shows "slot_of (q\<lparr>buffer := (buffer q)[w mod unat (capacity q) := n]\<rparr>) p =
         (if p = w then n else slot_of q p)"
  using assms lfq_capacity_pos [of q] mod_window_inj [of p w "unat (capacity q)"]
  by (auto simp: slot_of_def lfq_shape_def nth_list_update)

lemma unat_u32_u64: "unat (ucast (c :: u32) :: u64) = unat c"
proof -
  have "unat c < 2 ^ 64" by (rule less_trans [OF unsigned_less]) simp
  then show ?thesis by (simp add: unsigned_ucast_eq take_bit_nat_eq_self)
qed

lemma full_iff:
  assumes "lfq_wf q"
  shows "write_pos q - read_pos q \<ge> ucast (capacity q) \<longleftrightarrow>
         length (lfq_contents q) = unat (capacity q)"
proof -
  have "unat (write_pos q - read_pos q) = unat (write_pos q) - unat (read_pos q)"
    using assms by (simp add: lfq_wf_def unat_sub word_le_nat_alt)
  then show ?thesis
    using assms by (auto simp: lfq_wf_def lfq_contents_def word_le_nat_alt unat_u32_u64)
qed

lemma lfq_push_full:
  assumes "lfq_wf q" "length (lfq_contents q) = unat (capacity q)"
  shows "lfq_push q item = Inr (False, q)"
  using assms full_iff [of q] by (simp add: lfq_push_def Let_def)

text \<open>Filling the free slot, then publishing it.\<close>

lemma store_slot_frame:
  assumes wf: "lfq_wf q" and room: "unat (write_pos q) < unat (read_pos q) + unat (capacity q)"
    and item: "node_ok item"
  obtains q1 where "store_slot q (write_pos q) item = Inr q1" "lfq_wf q1"
    "lfq_contents q1 = lfq_contents q" "capacity q1 = capacity q" "write_pos q1 = write_pos q"
    "read_pos q1 = read_pos q" "node_ok (slot_of q1 (unat (write_pos q)))"
    "node_value (slot_of q1 (unat (write_pos q))) = node_value item"
    "\<And>p. unat (read_pos q) \<le> p \<Longrightarrow> p < unat (write_pos q) \<Longrightarrow> slot_of q1 p = slot_of q p"
proof -
  let ?c = "unat (capacity q)" and ?w = "unat (write_pos q)" and ?r = "unat (read_pos q)"
  have shape: "lfq_shape q" and arr: "\<forall>n\<in>set (buffer q). array_ok n" and rw: "?r \<le> ?w"
    using wf by (auto simp: lfq_wf_def)
  obtain slot where st: "store_slot q (write_pos q) item =
      Inr (q\<lparr>buffer := (buffer q)[?w mod ?c := slot]\<rparr>)"
    and slot: "node_ok slot" "node_value slot = node_value item"
    using store_slot_ok [OF shape arr item] .
  let ?q1 = "q\<lparr>buffer := (buffer q)[?w mod ?c := slot]\<rparr>"
  have old: "slot_of ?q1 p = (if p = ?w then slot else slot_of q p)" if "?r \<le> p" "p \<le> ?w" for p
    using slot_of_update [OF shape, of ?w p slot] that room by simp
  have "lfq_wf ?q1"
    using wf room slot(1) old
    by (auto simp: lfq_wf_def lfq_shape_def dest!: set_update_subset_insert [THEN subsetD])
  moreover have "lfq_contents ?q1 = lfq_contents q"
    using old rw by (simp add: lfq_contents_def)
  ultimately show thesis using st slot old rw that [of ?q1] by simp
qed

lemma publish_slot:
  assumes wf: "lfq_wf q" and room: "unat (write_pos q) < unat (read_pos q) + unat (capacity q)"
    and slot: "node_ok (slot_of q (unat (write_pos q)))" and no_wrap: "unat (write_pos q) < 2 ^ 64 - 1"
  shows "lfq_wf (q\<lparr>write_pos := write_pos q + 1\<rparr>)"
    and "lfq_contents (q\<lparr>write_pos := write_pos q + 1\<rparr>) =
         lfq_contents q @ [node_value (slot_of q (unat (write_pos q)))]"
    and "unat (write_pos q + 1) = Suc (unat (write_pos q))"
proof -
  show w': "unat (write_pos q + 1) = Suc (unat (write_pos q))"
    using no_wrap by (simp add: unat_word_ariths)
  have same: "slot_of (q\<lparr>write_pos := write_pos q + 1\<rparr>) p = slot_of q p" for p
    by (simp add: slot_of_def)
  show "lfq_wf (q\<lparr>write_pos := write_pos q + 1\<rparr>)"
    using wf room slot w' same by (auto simp: lfq_wf_def lfq_shape_def less_Suc_eq)
  show "lfq_contents (q\<lparr>write_pos := write_pos q + 1\<rparr>) =
        lfq_contents q @ [node_value (slot_of q (unat (write_pos q)))]"
    using wf w' same by (simp add: lfq_contents_def lfq_wf_def)
qed

lemma release_slot:
  assumes wf: "lfq_wf q" and less: "read_pos q < write_pos q"
  shows "lfq_wf (q\<lparr>read_pos := read_pos q + 1\<rparr>)"
    and "lfq_contents q =
         node_value (slot_of q (unat (read_pos q))) # lfq_contents (q\<lparr>read_pos := read_pos q + 1\<rparr>)"
    and "unat (read_pos q + 1) = Suc (unat (read_pos q))"
proof -
  show r': "unat (read_pos q + 1) = Suc (unat (read_pos q))" using less by (rule unat_Suc_word)
  have lt: "unat (read_pos q) < unat (write_pos q)" using less by (simp add: word_less_nat_alt)
  have same: "slot_of (q\<lparr>read_pos := read_pos q + 1\<rparr>) p = slot_of q p" for p
    by (simp add: slot_of_def)
  show "lfq_wf (q\<lparr>read_pos := read_pos q + 1\<rparr>)"
    using wf lt r' same by (auto simp: lfq_wf_def lfq_shape_def)
  show "lfq_contents q =
        node_value (slot_of q (unat (read_pos q))) # lfq_contents (q\<lparr>read_pos := read_pos q + 1\<rparr>)"
    using lt r' same by (simp add: lfq_contents_def upt_conv_Cons)
qed

lemma room_iff:
  assumes "lfq_wf q"
  shows "length (lfq_contents q) < unat (capacity q) \<longleftrightarrow>
         unat (write_pos q) < unat (read_pos q) + unat (capacity q)"
  using assms by (auto simp: lfq_wf_def lfq_contents_def)

lemma lfq_push_ok:
  assumes wf: "lfq_wf q" and room: "length (lfq_contents q) < unat (capacity q)"
    and item: "node_ok item" and no_wrap: "unat (write_pos q) < 2 ^ 64 - 1"
  obtains q' where "lfq_push q item = Inr (True, q')" "lfq_wf q'"
    "lfq_contents q' = lfq_contents q @ [node_value item]" "capacity q' = capacity q"
    "unat (write_pos q') = Suc (unat (write_pos q))"
proof -
  have room': "unat (write_pos q) < unat (read_pos q) + unat (capacity q)"
    using room room_iff [OF wf] by simp
  from store_slot_frame [OF wf room' item] obtain q1 where
    st: "store_slot q (write_pos q) item = Inr q1" and q1: "lfq_wf q1"
      "lfq_contents q1 = lfq_contents q" "capacity q1 = capacity q" "write_pos q1 = write_pos q"
      "read_pos q1 = read_pos q" "node_ok (slot_of q1 (unat (write_pos q)))"
      "node_value (slot_of q1 (unat (write_pos q))) = node_value item" by metis
  have push: "lfq_push q item = Inr (True, q1\<lparr>write_pos := write_pos q + 1\<rparr>)"
    using wf room full_iff [of q] st by (simp add: lfq_push_def Let_def)
  show thesis
    using that [OF push] publish_slot [of q1] q1 room' no_wrap by simp
qed

lemma lfq_pop_empty:
  assumes "lfq_wf q" "lfq_contents q = []"
  shows "lfq_pop q item = Inr (False, q, item)"
  using assms by (auto simp: lfq_pop_def Let_def lfq_contents_def lfq_wf_def word_le_nat_alt)

lemma lfq_pop_ok:
  assumes wf: "lfq_wf q" and more: "lfq_contents q \<noteq> []" and item: "array_ok item"
  obtains q' item' where "lfq_pop q item = Inr (True, q', item')" "lfq_wf q'" "node_ok item'"
    "lfq_contents q = node_value item' # lfq_contents q'" "capacity q' = capacity q"
    "write_pos q' = write_pos q"
proof -
  have less: "read_pos q < write_pos q" using more by (simp add: lfq_contents_def word_less_nat_alt)
  have shape: "lfq_shape q" and head: "node_ok (slot_of q (unat (read_pos q)))"
    using wf less by (auto simp: lfq_wf_def word_less_nat_alt)
  obtain n where n: "load_slot q (read_pos q) item = Inr n" "node_ok n"
    "node_value n = node_value (slot_of q (unat (read_pos q)))"
    using load_slot_ok [OF shape head item] .
  have pop: "lfq_pop q item = Inr (True, q\<lparr>read_pos := read_pos q + 1\<rparr>, n)"
    using less n(1) by (simp add: lfq_pop_def Let_def)
  show thesis using that [OF pop] release_slot [OF wf less] n by simp
qed

section \<open>Runs of operations\<close>

text \<open>
  The contract of a bounded first-in first-out buffer: an operation list is run against a list of
  at most \<open>cap\<close> values.  \<open>fuel q\<close> is the number of further pushes that the counters allow.
\<close>

datatype 'i queue_op = Push 'i | Pop 'i

datatype 'i queue_res = Pushed bool | Popped "'i option"

fun run_queue :: "('q \<Rightarrow> 'i \<Rightarrow> 'e + bool \<times> 'q) \<Rightarrow> ('q \<Rightarrow> 'i \<Rightarrow> 'e + bool \<times> 'q \<times> 'i) \<Rightarrow>
    'q \<Rightarrow> 'i queue_op list \<Rightarrow> 'e + 'i queue_res list \<times> 'q" where
  "run_queue psh pp q [] = Inr ([], q)"
| "run_queue psh pp q (Push i # ops) =
     try_then (psh q i) (\<lambda>(ok, q1).
     try_then (run_queue psh pp q1 ops) (\<lambda>(rs, q2). Inr (Pushed ok # rs, q2)))"
| "run_queue psh pp q (Pop i # ops) =
     try_then (pp q i) (\<lambda>(ok, q1, i1).
     try_then (run_queue psh pp q1 ops) (\<lambda>(rs, q2).
       Inr (Popped (if ok then Some i1 else None) # rs, q2)))"

fun run_spec :: "nat \<Rightarrow> 'v list \<Rightarrow> 'v queue_op list \<Rightarrow> 'v queue_res list \<times> 'v list" where
  "run_spec n xs [] = ([], xs)"
| "run_spec n xs (Push v # ops) =
     (if length xs < n
      then (case run_spec n (xs @ [v]) ops of (rs, ys) \<Rightarrow> (Pushed True # rs, ys))
      else (case run_spec n xs ops of (rs, ys) \<Rightarrow> (Pushed False # rs, ys)))"
| "run_spec n xs (Pop v # ops) =
     (case xs of
        [] \<Rightarrow> (case run_spec n [] ops of (rs, ys) \<Rightarrow> (Popped None # rs, ys))
      | x # xs1 \<Rightarrow> (case run_spec n xs1 ops of (rs, ys) \<Rightarrow> (Popped (Some x) # rs, ys)))"

fun op_ok :: "('i \<Rightarrow> bool) \<Rightarrow> ('i \<Rightarrow> bool) \<Rightarrow> 'i queue_op \<Rightarrow> bool" where
  "op_ok item mem (Push i) = item i"
| "op_ok item mem (Pop i) = mem i"

locale bounded_fifo =
  fixes psh :: "'q \<Rightarrow> 'i \<Rightarrow> 'e + bool \<times> 'q"
    and pp :: "'q \<Rightarrow> 'i \<Rightarrow> 'e + bool \<times> 'q \<times> 'i"
    and ok :: "'q \<Rightarrow> bool" and items :: "'q \<Rightarrow> 'v list" and val :: "'i \<Rightarrow> 'v"
    and cap fuel :: "'q \<Rightarrow> nat" and item_ok mem_ok :: "'i \<Rightarrow> bool"
  assumes bounded: "ok q \<Longrightarrow> length (items q) \<le> cap q"
    and push_full: "\<lbrakk>ok q; length (items q) = cap q\<rbrakk> \<Longrightarrow> psh q i = Inr (False, q)"
    and push_room: "\<lbrakk>ok q; length (items q) < cap q; item_ok i; 0 < fuel q\<rbrakk> \<Longrightarrow>
      \<exists>q'. psh q i = Inr (True, q') \<and> ok q' \<and> items q' = items q @ [val i] \<and> cap q' = cap q \<and>
           fuel q \<le> Suc (fuel q')"
    and pop_empty: "\<lbrakk>ok q; items q = []\<rbrakk> \<Longrightarrow> pp q i = Inr (False, q, i)"
    and pop_more: "\<lbrakk>ok q; items q \<noteq> []; mem_ok i\<rbrakk> \<Longrightarrow>
      \<exists>q' i'. pp q i = Inr (True, q', i') \<and> ok q' \<and> items q = val i' # items q' \<and> cap q' = cap q \<and>
           fuel q \<le> fuel q'"
begin

lemma run_refines:
  assumes "ok q" "\<forall>x\<in>set ops. op_ok item_ok mem_ok x" "length ops \<le> fuel q"
  shows "\<exists>rs q'. run_queue psh pp q ops = Inr (rs, q') \<and> ok q' \<and>
    run_spec (cap q) (items q) (map (map_queue_op val) ops) = (map (map_queue_res val) rs, items q')"
  using assms
proof (induction ops arbitrary: q)
  case (Cons x ops)
  have rest: "\<forall>x\<in>set ops. op_ok item_ok mem_ok x" using Cons.prems by simp
  show ?case
  proof (cases x)
    case (Push i)
    show ?thesis
    proof (cases "length (items q) < cap q")
      case True
      then obtain q1 where q1: "psh q i = Inr (True, q1)" "ok q1" "items q1 = items q @ [val i]"
        "cap q1 = cap q" "fuel q \<le> Suc (fuel q1)"
        using push_room [of q i] Cons.prems Push by auto
      with Cons.IH [OF q1(2) rest] Cons.prems True Push show ?thesis by (fastforce split: prod.splits)
    next
      case False
      then have "psh q i = Inr (False, q)"
        using push_full [of q i] bounded [of q] Cons.prems by simp
      with Cons.IH [OF Cons.prems(1) rest] Cons.prems False Push show ?thesis
        by (fastforce split: prod.splits)
    qed
  next
    case (Pop i)
    show ?thesis
    proof (cases "items q")
      case Nil
      then have "pp q i = Inr (False, q, i)" using pop_empty Cons.prems by simp
      with Cons.IH [OF Cons.prems(1) rest] Cons.prems Nil Pop show ?thesis
        by (fastforce split: prod.splits)
    next
      case (Cons v vs)
      then obtain q1 i1 where q1: "pp q i = Inr (True, q1, i1)" "ok q1" "items q = val i1 # items q1"
        "cap q1 = cap q" "fuel q \<le> fuel q1"
        using pop_more [of q i] Cons.prems Pop by auto
      with Cons.IH [OF q1(2) rest] Cons.prems Cons Pop show ?thesis
        by (fastforce split: prod.splits)
    qed
  qed
qed simp

end

definition lfq_fuel :: "LockFreeQueue \<Rightarrow> nat" where
  "lfq_fuel q = 2 ^ 64 - 1 - unat (write_pos q)"

lemma lfq_contents_le: "lfq_wf q \<Longrightarrow> length (lfq_contents q) \<le> unat (capacity q)"
  by (simp add: lfq_contents_def lfq_wf_def)

interpretation lfq: bounded_fifo lfq_push lfq_pop lfq_wf lfq_contents node_value
  "\<lambda>q. unat (capacity q)" lfq_fuel node_ok array_ok
proof unfold_locales
  fix q i
  show "lfq_wf q \<Longrightarrow> length (lfq_contents q) \<le> unat (capacity q)" by (rule lfq_contents_le)
  show "lfq_wf q \<Longrightarrow> length (lfq_contents q) = unat (capacity q) \<Longrightarrow> lfq_push q i = Inr (False, q)"
    by (rule lfq_push_full)
  show "lfq_wf q \<Longrightarrow> lfq_contents q = [] \<Longrightarrow> lfq_pop q i = Inr (False, q, i)"
    by (rule lfq_pop_empty)
next
  fix q i
  assume q: "lfq_wf q" "length (lfq_contents q) < unat (capacity q)" "node_ok i" "0 < lfq_fuel q"
  have "unat (write_pos q) < 2 ^ 64 - 1" using q(4) by (simp add: lfq_fuel_def)
  from lfq_push_ok [OF q(1-3) this] obtain q' where "lfq_push q i = Inr (True, q')" "lfq_wf q'"
    "lfq_contents q' = lfq_contents q @ [node_value i]" "capacity q' = capacity q"
    "unat (write_pos q') = Suc (unat (write_pos q))" .
  then show "\<exists>q'. lfq_push q i = Inr (True, q') \<and> lfq_wf q' \<and>
      lfq_contents q' = lfq_contents q @ [node_value i] \<and> unat (capacity q') = unat (capacity q) \<and>
      lfq_fuel q \<le> Suc (lfq_fuel q')"
    by (intro exI [of _ q']) (simp add: lfq_fuel_def)
next
  fix q i
  assume q: "lfq_wf q" "lfq_contents q \<noteq> []" "array_ok i"
  from lfq_pop_ok [OF this] obtain q' i' where "lfq_pop q i = Inr (True, q', i')" "lfq_wf q'"
    "lfq_contents q = node_value i' # lfq_contents q'" "capacity q' = capacity q"
    "write_pos q' = write_pos q" .
  then show "\<exists>q' i'. lfq_pop q i = Inr (True, q', i') \<and> lfq_wf q' \<and>
      lfq_contents q = node_value i' # lfq_contents q' \<and> unat (capacity q') = unat (capacity q) \<and>
      lfq_fuel q \<le> lfq_fuel q'"
    by (intro exI [of _ q'] exI [of _ i']) (simp add: lfq_fuel_def)
qed

lemma lfq_create_wf:
  assumes "0 < n" "unat n \<le> 2 ^ 31" "array_ok g"
  obtains q where "lfq_create g n = Some q" "lfq_wf q" "lfq_contents q = []"
    "capacity q = next_power_of_2 n" "write_pos q = 0"
  using assms next_power_of_2_bounds [OF assms(1,2)]
  by (auto simp: lfq_create_def lfq_wf_def lfq_shape_def lfq_contents_def word_gt_0 Let_def)

text \<open>
  C20. A queue created for \<open>n\<close> packets (at most \<open>2^31\<close>) behaves, under every sequence of pushes and
  pops that is shorter than the 64-bit counters, like a list of at most \<open>cap\<close> packets served first
  in first out, where \<open>cap\<close> is the least power of two not below \<open>n\<close>: a push is refused exactly when
  the list is full, a pop exactly when it is empty, no access leaves an array, and every packet
  comes out with its header, captured bytes, ports and payload offset.
\<close>

theorem queue_refines_bounded_fifo:
  assumes "0 < n" "unat n \<le> 2 ^ 31" "array_ok g"
    and "\<forall>x\<in>set ops. op_ok node_ok array_ok x" "length ops < 2 ^ 64"
  shows "\<exists>q rs q' k. lfq_create g n = Some q \<and> unat (capacity q) = 2 ^ k \<and>
    unat n \<le> 2 ^ k \<and> 2 ^ k < 2 * unat n \<and>
    run_queue lfq_push lfq_pop q ops = Inr (rs, q') \<and>
    run_spec (2 ^ k) [] (map (map_queue_op node_value) ops) =
      (map (map_queue_res node_value) rs, lfq_contents q')"
proof -
  obtain q where q: "lfq_create g n = Some q" "lfq_wf q" "lfq_contents q = []"
    "capacity q = next_power_of_2 n" "write_pos q = 0"
    using lfq_create_wf [OF assms(1-3)] .
  have "length ops \<le> lfq_fuel q" using assms(5) q(5) by (simp add: lfq_fuel_def)
  from lfq.run_refines [OF q(2) assms(4) this] next_power_of_2_bounds [OF assms(1,2)] q
  show ?thesis by auto
qed

definition sample_node :: PacketNode where
  "sample_node =
     \<lparr>header = \<lparr>ts_sec = 1, ts_usec = 2, caplen = 60, wire_len = 60\<rparr>,
      node_data = replicate DATA_SIZE 7, src_port = 80, dst_port = 1024, app_data = Some 54,
      app_len = 6, valid = True\<rparr>"

lemma sample_node_ok: "node_ok sample_node" "array_ok sample_node"
  by (simp_all add: sample_node_def node_ok_def array_ok_def DATA_SIZE_def)

theorem queue_refines_bounded_fifo_witness:
  "\<exists>q rs q' k. lfq_create sample_node 3 = Some q \<and> unat (capacity q) = 2 ^ k \<and>
    unat (3 :: u32) \<le> 2 ^ k \<and> 2 ^ k < 2 * unat (3 :: u32) \<and>
    run_queue lfq_push lfq_pop q [Pop sample_node, Push sample_node, Pop sample_node] = Inr (rs, q') \<and>
    run_spec (2 ^ k) [] (map (map_queue_op node_value) [Pop sample_node, Push sample_node, Pop sample_node]) =
      (map (map_queue_res node_value) rs, lfq_contents q')"
  by (rule queue_refines_bounded_fifo) (simp_all add: sample_node_ok)

section \<open>Producer and consumer at the same time\<close>

text \<open>
  The producer and the consumer run in two threads.  A push reads the positions, fills its slot and
  publishes the new write position; a pop reads the positions, copies its slot and publishes the new
  read position.  Each position is written by one thread only, and the acquire and release accesses
  order the copies with respect to the positions, so an execution is an interleaving of these steps.
  \<open>produced\<close> and \<open>consumed\<close> record what has been published and returned.
\<close>

datatype producer = P_idle | P_store PacketNode u64 | P_publish PacketNode u64

datatype consumer = C_idle | C_load PacketNode u64 | C_release PacketNode u64

type_synonym node_val = "pcap_pkthdr \<times> u8 list \<times> u16 \<times> u16 \<times> int option \<times> u32 \<times> bool"

record spsc =
  queue :: LockFreeQueue
  prod_pc :: producer
  cons_pc :: consumer
  produced :: "node_val list"
  consumed :: "node_val list"

inductive spsc_step :: "spsc \<Rightarrow> spsc \<Rightarrow> bool" where
  start_push: "\<lbrakk>prod_pc s = P_idle; node_ok item;
      \<not> write_pos (queue s) - read_pos (queue s) \<ge> ucast (capacity (queue s))\<rbrakk>
    \<Longrightarrow> spsc_step s (s\<lparr>prod_pc := P_store item (write_pos (queue s))\<rparr>)"
| store: "\<lbrakk>prod_pc s = P_store item wp; store_slot (queue s) wp item = Inr q1\<rbrakk>
    \<Longrightarrow> spsc_step s (s\<lparr>queue := q1, prod_pc := P_publish item wp\<rparr>)"
| publish: "prod_pc s = P_publish item wp
    \<Longrightarrow> spsc_step s (s\<lparr>queue := (queue s)\<lparr>write_pos := wp + 1\<rparr>, prod_pc := P_idle,
                       produced := produced s @ [node_value item]\<rparr>)"
| start_pop: "\<lbrakk>cons_pc s = C_idle; array_ok mem; \<not> read_pos (queue s) \<ge> write_pos (queue s)\<rbrakk>
    \<Longrightarrow> spsc_step s (s\<lparr>cons_pc := C_load mem (read_pos (queue s))\<rparr>)"
| load: "\<lbrakk>cons_pc s = C_load mem rp; load_slot (queue s) rp mem = Inr n\<rbrakk>
    \<Longrightarrow> spsc_step s (s\<lparr>cons_pc := C_release n rp\<rparr>)"
| release: "cons_pc s = C_release n rp
    \<Longrightarrow> spsc_step s (s\<lparr>queue := (queue s)\<lparr>read_pos := rp + 1\<rparr>, cons_pc := C_idle,
                       consumed := consumed s @ [node_value n]\<rparr>)"

definition spsc_init :: "LockFreeQueue \<Rightarrow> spsc" where
  "spsc_init q = \<lparr>queue = q, prod_pc = P_idle, cons_pc = C_idle, produced = [], consumed = []\<rparr>"

text \<open>The steps of a push, taken without interference, are the operation.\<close>

lemma push_steps:
  "lfq_push q item =
     (if write_pos q - read_pos q \<ge> ucast (capacity q) then Inr (False, q)
      else try_then (store_slot q (write_pos q) item) (\<lambda>q1. Inr (True, q1\<lparr>write_pos := write_pos q + 1\<rparr>)))"
  by (simp add: lfq_push_def Let_def)

fun producer_inv :: "LockFreeQueue \<Rightarrow> producer \<Rightarrow> bool" where
  "producer_inv q P_idle = True"
| "producer_inv q (P_store item wp) =
     (wp = write_pos q \<and> node_ok item \<and> unat wp < unat (read_pos q) + unat (capacity q))"
| "producer_inv q (P_publish item wp) =
     (wp = write_pos q \<and> unat wp < unat (read_pos q) + unat (capacity q) \<and>
      node_ok (slot_of q (unat wp)) \<and> node_value (slot_of q (unat wp)) = node_value item)"

fun consumer_inv :: "LockFreeQueue \<Rightarrow> node_val list \<Rightarrow> consumer \<Rightarrow> bool" where
  "consumer_inv q vs C_idle = True"
| "consumer_inv q vs (C_load mem rp) = (rp = read_pos q \<and> rp < write_pos q \<and> array_ok mem)"
| "consumer_inv q vs (C_release n rp) =
     (rp = read_pos q \<and> rp < write_pos q \<and> node_value n = vs ! unat rp)"

definition spsc_inv :: "spsc \<Rightarrow> bool" where
  "spsc_inv s \<longleftrightarrow>
     lfq_wf (queue s) \<and> producer_inv (queue s) (prod_pc s) \<and>
     consumer_inv (queue s) (produced s) (cons_pc s) \<and>
     unat (write_pos (queue s)) = length (produced s) \<and>
     unat (read_pos (queue s)) = length (consumed s) \<and>
     consumed s = take (length (consumed s)) (produced s) \<and>
     lfq_contents (queue s) = drop (length (consumed s)) (produced s)"

inductive_cases spsc_stepE: "spsc_step s s'"

text \<open>A fill in progress does not touch the unread slots, and a release does not touch the slot being filled.\<close>

lemma spsc_inv_step:
  assumes "spsc_step s s'" "spsc_inv s" "length (produced s') < 2 ^ 64"
  shows "spsc_inv s'"
  using assms(1)
proof cases
  case (start_push item)
  have wf: "lfq_wf (queue s)" using assms(2) by (simp add: spsc_inv_def)
  then have "length (lfq_contents (queue s)) < unat (capacity (queue s))"
    using start_push full_iff [OF wf] lfq_contents_le [OF wf] by simp
  then show ?thesis using assms(2) start_push room_iff [OF wf] by (simp add: spsc_inv_def)
next
  case (store item wp q1)
  then have wf: "lfq_wf (queue s)" and wp: "wp = write_pos (queue s)"
    and room: "unat (write_pos (queue s)) < unat (read_pos (queue s)) + unat (capacity (queue s))"
    and item: "node_ok item" using assms(2) by (auto simp: spsc_inv_def)
  from store_slot_frame [OF wf room item] store wp obtain
    "lfq_wf q1" "lfq_contents q1 = lfq_contents (queue s)" "capacity q1 = capacity (queue s)"
    "write_pos q1 = write_pos (queue s)" "read_pos q1 = read_pos (queue s)"
    "node_ok (slot_of q1 (unat wp))" "node_value (slot_of q1 (unat wp)) = node_value item"
    by (metis sum.inject(2))
  then show ?thesis using assms(2) store wp room
    by (cases "cons_pc s") (simp_all add: spsc_inv_def)
next
  case (publish item wp)
  then have wf: "lfq_wf (queue s)" and wp: "wp = write_pos (queue s)"
    and room: "unat (write_pos (queue s)) < unat (read_pos (queue s)) + unat (capacity (queue s))"
    and slot: "node_ok (slot_of (queue s) (unat (write_pos (queue s))))"
      "node_value (slot_of (queue s) (unat (write_pos (queue s)))) = node_value item"
    and w: "unat (write_pos (queue s)) = length (produced s)"
    using assms(2) by (auto simp: spsc_inv_def)
  have "unat (write_pos (queue s)) < 2 ^ 64 - 1" using assms(3) publish w by simp
  note pub = publish_slot [OF wf room slot(1) this]
  have le: "length (consumed s) \<le> length (produced s)"
    using assms(2) by (auto simp: spsc_inv_def lfq_wf_def)
  have "write_pos (queue s) < write_pos (queue s) + 1" using pub(3) by (simp add: word_less_nat_alt)
  then show ?thesis using assms(2) publish wp pub slot(2) le
    by (cases "cons_pc s") (auto simp: spsc_inv_def nth_append word_less_nat_alt take_append
        intro: order_less_trans)
next
  case (start_pop mem)
  then show ?thesis using assms(2) by (simp add: spsc_inv_def)
next
  case (load mem rp n)
  then have wf: "lfq_wf (queue s)" and rp: "rp = read_pos (queue s)" "rp < write_pos (queue s)"
    and mem: "array_ok mem" using assms(2) by (auto simp: spsc_inv_def)
  have ok: "lfq_shape (queue s)" "node_ok (slot_of (queue s) (unat rp))"
    using wf rp by (auto simp: lfq_wf_def word_less_nat_alt)
  from load_slot_ok [OF ok mem] load have "node_value n = node_value (slot_of (queue s) (unat rp))"
    by (metis sum.inject(2))
  also have "\<dots> = hd (lfq_contents (queue s))" using release_slot(2) [OF wf] rp by simp
  also have "\<dots> = produced s ! unat rp"
    using assms(2) rp by (simp add: spsc_inv_def hd_drop_conv_nth word_less_nat_alt)
  finally show ?thesis using assms(2) load rp by (simp add: spsc_inv_def)
next
  case (release n rp)
  then have wf: "lfq_wf (queue s)" and rp: "rp = read_pos (queue s)" "read_pos (queue s) < write_pos (queue s)"
    and n: "node_value n = produced s ! length (consumed s)"
    using assms(2) by (auto simp: spsc_inv_def)
  note rel = release_slot [OF wf rp(2)]
  have lt: "length (consumed s) < length (produced s)"
    using assms(2) rp by (auto simp: spsc_inv_def word_less_nat_alt)
  have c: "consumed s = take (length (consumed s)) (produced s)"
    and d: "lfq_contents (queue s) = drop (length (consumed s)) (produced s)"
    using assms(2) by (simp_all add: spsc_inv_def)
  have "consumed s @ [node_value n] = take (Suc (length (consumed s))) (produced s)"
    using take_Suc_conv_app_nth [OF lt] c n by metis
  moreover have "lfq_contents ((queue s)\<lparr>read_pos := read_pos (queue s) + 1\<rparr>) =
      drop (Suc (length (consumed s))) (produced s)"
    using rel(2) d by (metis drop_Suc list.sel(3) tl_drop)
  moreover have "producer_inv ((queue s)\<lparr>read_pos := read_pos (queue s) + 1\<rparr>) (prod_pc s)"
    using assms(2) rel(3) by (cases "prod_pc s") (auto simp: spsc_inv_def slot_of_def)
  moreover have "unat (write_pos (queue s)) = length (produced s)"
    "unat (read_pos (queue s)) = length (consumed s)" using assms(2) by (simp_all add: spsc_inv_def)
  ultimately show ?thesis using release rp rel(1,3) lt unfolding spsc_inv_def by simp
qed

lemma spsc_step_produced: "spsc_step s s' \<Longrightarrow> length (produced s) \<le> length (produced s')"
  by (erule spsc_stepE) simp_all

lemma spsc_reach_inv:
  assumes "spsc_step\<^sup>*\<^sup>* (spsc_init q) s" "lfq_wf q" "write_pos q = 0" "length (produced s) < 2 ^ 64"
  shows "spsc_inv s"
  using assms
proof (induction rule: rtranclp_induct)
  case base
  then show ?case
    by (simp add: spsc_init_def spsc_inv_def lfq_contents_def lfq_wf_def)
next
  case (step s s')
  then have "spsc_inv s" using spsc_step_produced [OF step.hyps(2)] by simp
  then show ?case using spsc_inv_step [OF step.hyps(2)] step.prems by simp
qed

text \<open>
  C19. With one producer and one consumer running concurrently, in every interleaving of their
  memory accesses the packets returned are a prefix, in order and unaltered, of the packets
  published, at most \<open>cap\<close> packets are in flight, a slot is never filled and read at the same time,
  and neither copy leaves its arrays.
\<close>

theorem spsc_fifo_race_free:
  assumes "lfq_create g n = Some q" "unat n \<le> 2 ^ 31" "array_ok g"
    and "spsc_step\<^sup>*\<^sup>* (spsc_init q) s" "length (produced s) < 2 ^ 64"
  shows "consumed s = take (length (consumed s)) (produced s) \<and>
    length (produced s) \<le> length (consumed s) + unat (capacity (queue s)) \<and>
    (\<forall>item wp mem rp. prod_pc s = P_store item wp \<and> cons_pc s = C_load mem rp \<longrightarrow>
       slot_index (queue s) wp \<noteq> slot_index (queue s) rp) \<and>
    (\<forall>item wp. prod_pc s = P_store item wp \<longrightarrow> (\<exists>q1. store_slot (queue s) wp item = Inr q1)) \<and>
    (\<forall>mem rp. cons_pc s = C_load mem rp \<longrightarrow> (\<exists>n. load_slot (queue s) rp mem = Inr n))"
proof (intro conjI allI impI)
  have "0 < n" using assms(1) by (auto simp: lfq_create_def word_gt_0 split: if_splits)
  with assms(1-3) have "lfq_wf q" "write_pos q = 0" by (auto elim: lfq_create_wf)
  with assms(4,5) have I: "spsc_inv s" by (blast intro: spsc_reach_inv)
  then have wf: "lfq_wf (queue s)" by (simp add: spsc_inv_def)
  show "consumed s = take (length (consumed s)) (produced s)" using I by (simp add: spsc_inv_def)
  show "length (produced s) \<le> length (consumed s) + unat (capacity (queue s))"
    using I by (auto simp: spsc_inv_def lfq_wf_def)
  show "slot_index (queue s) wp \<noteq> slot_index (queue s) rp"
    if "prod_pc s = P_store item wp \<and> cons_pc s = C_load mem rp" for item wp mem rp
    using I that mod_window_inj [of "unat rp" "unat wp" "unat (capacity (queue s))"]
    by (auto simp: spsc_inv_def lfq_wf_def slot_index_mod word_less_nat_alt)
  show "\<exists>q1. store_slot (queue s) wp item = Inr q1" if "prod_pc s = P_store item wp" for item wp
  proof -
    have "unat (write_pos (queue s)) < unat (read_pos (queue s)) + unat (capacity (queue s))"
      "node_ok item" "wp = write_pos (queue s)" using I that by (auto simp: spsc_inv_def)
    then show ?thesis using store_slot_frame [OF wf] by metis
  qed
  show "\<exists>n. load_slot (queue s) rp mem = Inr n" if "cons_pc s = C_load mem rp" for mem rp
  proof -
    have "node_ok (slot_of (queue s) (unat rp))" "array_ok mem" "lfq_shape (queue s)"
      using I that wf by (auto simp: spsc_inv_def lfq_wf_def word_less_nat_alt)
    then show ?thesis using load_slot_ok by metis
  qed
qed

lemma one_push_reachable:
  assumes "lfq_wf q" "lfq_contents q = []" "write_pos q = 0" "node_ok item"
  shows "\<exists>s. spsc_step\<^sup>*\<^sup>* (spsc_init q) s \<and> produced s = [] \<and> prod_pc s = P_store item 0"
proof -
  have "\<not> write_pos q - read_pos q \<ge> ucast (capacity q)"
    using assms full_iff [of q] lfq_capacity_pos [of q] by (auto simp: lfq_wf_def)
  then have "spsc_step (spsc_init q) ((spsc_init q)\<lparr>prod_pc := P_store item (write_pos q)\<rparr>)"
    using spsc_step.start_push [of "spsc_init q" item] assms by (simp add: spsc_init_def)
  then show ?thesis using assms(3)
    by (intro exI [of _ "(spsc_init q)\<lparr>prod_pc := P_store item (write_pos q)\<rparr>"])
      (simp add: spsc_init_def r_into_rtranclp)
qed

theorem spsc_fifo_race_free_witness:
  "\<exists>q s q1. lfq_create sample_node 3 = Some q \<and> spsc_step\<^sup>*\<^sup>* (spsc_init q) s \<and>
     prod_pc s = P_store sample_node 0 \<and> store_slot (queue s) 0 sample_node = Inr q1 \<and>
     consumed s = take (length (consumed s)) (produced s)"
proof -
  obtain q where q: "lfq_create sample_node 3 = Some q" "lfq_wf q" "lfq_contents q = []" "write_pos q = 0"
    using lfq_create_wf [of 3 sample_node] sample_node_ok by auto
  obtain s where s: "spsc_step\<^sup>*\<^sup>* (spsc_init q) s" "produced s = []" "prod_pc s = P_store sample_node 0"
    using one_push_reachable [OF q(2-4) sample_node_ok(1)] by blast
  have "length (produced s) < 2 ^ 64" using s(2) by simp
  from spsc_fifo_race_free [OF q(1) _ sample_node_ok(2) s(1) this] q s show ?thesis by auto
qed

text \<open>
  A request for more than \<open>2^31\<close> packets creates a queue of capacity zero, which refuses every
  push although it is also reported as empty.
\<close>

theorem oversized_queue_refuses:
  assumes "unat n > 2 ^ 31"
  shows "\<exists>q. lfq_create g n = Some q \<and> lfq_push q item = Inr (False, q) \<and>
    lfq_is_full (Some q) \<and> lfq_is_empty (Some q)"
proof -
  have "n \<noteq> 0" using assms by auto
  then show ?thesis using next_power_of_2_overflow [OF assms]
    by (simp add: lfq_create_def lfq_push_def Let_def lfq_is_full_def lfq_is_empty_def lfq_size_def)
qed

theorem oversized_queue_refuses_witness:
  "\<exists>q. lfq_create sample_node 3000000000 = Some q \<and> lfq_push q sample_node = Inr (False, q) \<and>
    lfq_is_full (Some q) \<and> lfq_is_empty (Some q)"
  by (rule oversized_queue_refuses) simp

end
