(* ===== verification/Capture_Messages.thy ===== *)
theory Capture_Messages
  imports Capture_Types
begin

text \<open>
  The messages the threads exchange, \<open>src/src/rxcapturemessages.h\<close> and \<open>src/src/rxmsgtypes.h\<close>.
  Inheritance is record extension: every capture message extends \<open>CaptureMessageBase\<close>.  The
  fields keep their names under a prefix: \<open>cc_\<close> configuration, \<open>sp_\<close> specification, \<open>pg_\<close>
  progress, \<open>rs_\<close> result, \<open>cm_\<close> the common part, and a prefix of its own for each message.  A
  constructor takes the clock, \<open>rx_capture_now_usec\<close>, as the argument \<open>now\<close>.  The field
  \<open>cpu_seconds\<close>, which nothing reads or writes, is left out.
\<close>

section \<open>Error codes\<close>

datatype ECaptureErrorCode =
  ERR_NONE | ERR_UNKNOWN | ERR_START_INVALID_PARAMS | ERR_START_NO_PERMISSION
| ERR_START_INTERFACE_NOT_FOUND | ERR_START_PROCESS_NOT_FOUND | ERR_START_TCPDUMP_FAILED
| ERR_START_CREATE_FILE_FAILED | ERR_RUN_TCPDUMP_DIED | ERR_RUN_DISK_FULL | ERR_RUN_TIMEOUT
| ERR_RUN_CANCELLED | ERR_RUN_PROCESS_DIED | ERR_CLEAN_COMPRESS_FAILED | ERR_CLEAN_DELETE_FAILED
| ERR_CLEAN_DISK_FULL

fun error_value :: "ECaptureErrorCode \<Rightarrow> int" where
  "error_value ERR_NONE = 0"
| "error_value ERR_UNKNOWN = 1"
| "error_value ERR_START_INVALID_PARAMS = 100"
| "error_value ERR_START_NO_PERMISSION = 101"
| "error_value ERR_START_INTERFACE_NOT_FOUND = 102"
| "error_value ERR_START_PROCESS_NOT_FOUND = 103"
| "error_value ERR_START_TCPDUMP_FAILED = 104"
| "error_value ERR_START_CREATE_FILE_FAILED = 105"
| "error_value ERR_RUN_TCPDUMP_DIED = 200"
| "error_value ERR_RUN_DISK_FULL = 201"
| "error_value ERR_RUN_TIMEOUT = 202"
| "error_value ERR_RUN_CANCELLED = 203"
| "error_value ERR_RUN_PROCESS_DIED = 204"
| "error_value ERR_CLEAN_COMPRESS_FAILED = 300"
| "error_value ERR_CLEAN_DELETE_FAILED = 301"
| "error_value ERR_CLEAN_DISK_FULL = 302"

fun rx_capture_error_to_string :: "ECaptureErrorCode \<Rightarrow> string" where
  "rx_capture_error_to_string ERR_NONE = ''ERR_NONE''"
| "rx_capture_error_to_string ERR_UNKNOWN = ''ERR_UNKNOWN''"
| "rx_capture_error_to_string ERR_START_INVALID_PARAMS = ''ERR_START_INVALID_PARAMS''"
| "rx_capture_error_to_string ERR_START_NO_PERMISSION = ''ERR_START_NO_PERMISSION''"
| "rx_capture_error_to_string ERR_START_INTERFACE_NOT_FOUND = ''ERR_START_INTERFACE_NOT_FOUND''"
| "rx_capture_error_to_string ERR_START_PROCESS_NOT_FOUND = ''ERR_START_PROCESS_NOT_FOUND''"
| "rx_capture_error_to_string ERR_START_TCPDUMP_FAILED = ''ERR_START_TCPDUMP_FAILED''"
| "rx_capture_error_to_string ERR_START_CREATE_FILE_FAILED = ''ERR_START_CREATE_FILE_FAILED''"
| "rx_capture_error_to_string ERR_RUN_TCPDUMP_DIED = ''ERR_RUN_TCPDUMP_DIED''"
| "rx_capture_error_to_string ERR_RUN_DISK_FULL = ''ERR_RUN_DISK_FULL''"
| "rx_capture_error_to_string ERR_RUN_TIMEOUT = ''ERR_RUN_TIMEOUT''"
| "rx_capture_error_to_string ERR_RUN_CANCELLED = ''ERR_RUN_CANCELLED''"
| "rx_capture_error_to_string ERR_RUN_PROCESS_DIED = ''ERR_RUN_PROCESS_DIED''"
| "rx_capture_error_to_string ERR_CLEAN_COMPRESS_FAILED = ''ERR_CLEAN_COMPRESS_FAILED''"
| "rx_capture_error_to_string ERR_CLEAN_DELETE_FAILED = ''ERR_CLEAN_DELETE_FAILED''"
| "rx_capture_error_to_string ERR_CLEAN_DISK_FULL = ''ERR_CLEAN_DISK_FULL''"

section \<open>Configuration and specification\<close>

record CaptureConfigSnapshot =
  cc_output_dir :: string
  cc_filename_template :: string
  cc_file_rotate_size_mb :: int
  cc_file_rotate_count :: int
  cc_max_duration_sec :: int
  cc_max_bytes :: int
  cc_max_packets :: int
  cc_snaplen :: int
  cc_compress_enabled :: bool
  cc_compress_threshold_mb :: int
  cc_compress_format :: string
  cc_compress_level :: int
  cc_compress_remove_src :: bool
  cc_retain_days :: int
  cc_clean_batch_size :: int
  cc_disk_threshold_gb :: int
  cc_progress_interval_sec :: int
  cc_progress_packet_threshold :: int
  cc_progress_bytes_threshold :: int
  cc_config_hash :: u32
  cc_config_timestamp :: int

definition CaptureConfigSnapshot_new :: CaptureConfigSnapshot where
  "CaptureConfigSnapshot_new =
     \<lparr>cc_output_dir = [], cc_filename_template = [], cc_file_rotate_size_mb = 100,
      cc_file_rotate_count = 0, cc_max_duration_sec = 0, cc_max_bytes = 0, cc_max_packets = 0,
      cc_snaplen = 65535, cc_compress_enabled = True, cc_compress_threshold_mb = 100,
      cc_compress_format = ''tar.gz'', cc_compress_level = 6, cc_compress_remove_src = False,
      cc_retain_days = 7, cc_clean_batch_size = 100, cc_disk_threshold_gb = 10,
      cc_progress_interval_sec = 2, cc_progress_packet_threshold = 10000,
      cc_progress_bytes_threshold = 100 * 1024 * 1024, cc_config_hash = 0, cc_config_timestamp = 0\<rparr>"

record CaptureSpec =
  sp_capture_mode :: ECaptureMode
  sp_iface :: string
  sp_proc_name :: string
  sp_target_pid :: int
  sp_container_id :: string
  sp_netns_path :: string
  sp_category :: string
  sp_filter :: string
  sp_protocol_filter :: string
  sp_protocol_filter_inline :: string
  sp_ip_filter :: string
  sp_port_filter :: int
  sp_output_pattern :: string
  sp_resolved_iface :: string
  sp_max_duration_sec :: int
  sp_max_bytes :: int
  sp_max_packets :: int
  sp_snaplen :: int

definition CaptureSpec_new :: CaptureSpec where
  "CaptureSpec_new =
     \<lparr>sp_capture_mode = MODE_INTERFACE, sp_iface = [], sp_proc_name = [], sp_target_pid = - 1,
      sp_container_id = [], sp_netns_path = [], sp_category = [], sp_filter = [],
      sp_protocol_filter = [], sp_protocol_filter_inline = [], sp_ip_filter = [],
      sp_port_filter = 0, sp_output_pattern = [], sp_resolved_iface = [], sp_max_duration_sec = 0,
      sp_max_bytes = 0, sp_max_packets = 0, sp_snaplen = 65535\<rparr>"

record CaptureProgressStats =
  pg_packets :: u64
  pg_bytes :: u64
  pg_first_packet_ts :: int
  pg_last_packet_ts :: int
  pg_file_size :: u64

definition CaptureProgressStats_new :: CaptureProgressStats where
  "CaptureProgressStats_new =
     \<lparr>pg_packets = 0, pg_bytes = 0, pg_first_packet_ts = 0, pg_last_packet_ts = 0, pg_file_size = 0\<rparr>"

record CaptureResultStats =
  rs_total_packets :: u64
  rs_total_bytes :: u64
  rs_start_ts :: int
  rs_finish_ts :: int
  rs_exit_code :: int
  rs_error_message :: string

definition CaptureResultStats_new :: CaptureResultStats where
  "CaptureResultStats_new =
     \<lparr>rs_total_packets = 0, rs_total_bytes = 0, rs_start_ts = 0, rs_finish_ts = 0, rs_exit_code = 0,
      rs_error_message = []\<rparr>"

section \<open>Message codes\<close>

datatype rx_op =
  RX_MSG_NONE | NORMAL_MSG_CONNECT | NORMAL_MSG_HTTP_REPLY | RX_MSG_HTTP_REPLY
| RX_MSG_START_CAPTURE | RX_MSG_STOP_CAPTURE | RX_MSG_QUERY_CAPTURE | RX_MSG_CLEAN_EXPIRED
| RX_MSG_CHECK_THRESHOLD | RX_MSG_TASK_UPDATE
| RX_MSG_CAPTURE_START | RX_MSG_CAPTURE_STOP | RX_MSG_CAPTURE_CANCEL | RX_MSG_CAPTURE_CONFIG_REFRESH
| RX_MSG_CAPTURE_STARTED | RX_MSG_CAPTURE_PROGRESS | RX_MSG_CAPTURE_FILE_READY | RX_MSG_CAPTURE_FINISHED
| RX_MSG_CAPTURE_FAILED | RX_MSG_CAPTURE_HEARTBEAT | RX_MSG_CAPTURE_RAW_FILE | RX_MSG_CAPTURE_FILTERED_FILE
| RX_MSG_FILE_ENQUEUE | RX_MSG_CLEAN_CFG_REFRESH | RX_MSG_CLEAN_SHUTDOWN
| RX_MSG_CLEAN_STORED | RX_MSG_CLEAN_COMPRESS_DONE | RX_MSG_CLEAN_COMPRESS_FAILED | RX_MSG_CLEAN_HEARTBEAT
| RX_MSG_SAMPLE_TRIGGER | RX_MSG_SAMPLE_ALERT | RX_MSG_POST_DONE | RX_MSG_POST_BATCH_COMPRESS
| RX_MSG_RELOAD_CONFIG | RX_MSG_PDEF_ENDIAN_DETECTED | RX_MSG_PACKET_CAPTURED | RX_MSG_PACKET_FILTERED
| RX_MSG_BIZ_START | RX_MSG_BIZ_STATUS | RX_MSG_BIZ_STOP | RX_MSG_CAP_STARTED | RX_MSG_CAP_FINISHED

text \<open>The codes and, where \<open>rx_msg_type_to_string\<close> has one, the names, in its order.\<close>

definition op_table :: "(rx_op \<times> int \<times> string) list" where
  "op_table =
     [(RX_MSG_NONE, 0, ''RX_MSG_NONE''), (NORMAL_MSG_CONNECT, 1, ''NORMAL_MSG_CONNECT''),
      (NORMAL_MSG_HTTP_REPLY, 2, ''NORMAL_MSG_HTTP_REPLY''), (RX_MSG_HTTP_REPLY, 1003, ''RX_MSG_HTTP_REPLY''),
      (RX_MSG_START_CAPTURE, 2001, ''RX_MSG_START_CAPTURE''), (RX_MSG_STOP_CAPTURE, 2002, ''RX_MSG_STOP_CAPTURE''),
      (RX_MSG_QUERY_CAPTURE, 2003, ''RX_MSG_QUERY_CAPTURE''), (RX_MSG_CLEAN_EXPIRED, 2004, ''RX_MSG_CLEAN_EXPIRED''),
      (RX_MSG_CHECK_THRESHOLD, 2006, ''RX_MSG_CHECK_THRESHOLD''), (RX_MSG_TASK_UPDATE, 2007, ''RX_MSG_TASK_UPDATE''),
      (RX_MSG_CAPTURE_START, 20000, ''RX_MSG_CAPTURE_START''), (RX_MSG_CAPTURE_STOP, 20001, ''RX_MSG_CAPTURE_STOP''),
      (RX_MSG_CAPTURE_CANCEL, 20002, ''RX_MSG_CAPTURE_CANCEL''),
      (RX_MSG_CAPTURE_CONFIG_REFRESH, 20003, ''RX_MSG_CAPTURE_CONFIG_REFRESH''),
      (RX_MSG_CAPTURE_STARTED, 30000, ''RX_MSG_CAPTURE_STARTED''), (RX_MSG_CAPTURE_PROGRESS, 30001, ''RX_MSG_CAPTURE_PROGRESS''),
      (RX_MSG_CAPTURE_FILE_READY, 30002, ''RX_MSG_CAPTURE_FILE_READY''), (RX_MSG_CAPTURE_FINISHED, 30003, ''RX_MSG_CAPTURE_FINISHED''),
      (RX_MSG_CAPTURE_FAILED, 30004, ''RX_MSG_CAPTURE_FAILED''), (RX_MSG_CAPTURE_HEARTBEAT, 30005, ''RX_MSG_CAPTURE_HEARTBEAT''),
      (RX_MSG_CAPTURE_RAW_FILE, 30006, ''RX_MSG_CAPTURE_RAW_FILE''), (RX_MSG_CAPTURE_FILTERED_FILE, 30007, ''RX_MSG_CAPTURE_FILTERED_FILE''),
      (RX_MSG_FILE_ENQUEUE, 40000, ''RX_MSG_FILE_ENQUEUE''), (RX_MSG_CLEAN_CFG_REFRESH, 40001, ''RX_MSG_CLEAN_CFG_REFRESH''),
      (RX_MSG_CLEAN_SHUTDOWN, 40002, ''RX_MSG_CLEAN_SHUTDOWN''), (RX_MSG_CLEAN_STORED, 50000, ''RX_MSG_CLEAN_STORED''),
      (RX_MSG_CLEAN_COMPRESS_DONE, 50001, ''RX_MSG_CLEAN_COMPRESS_DONE''),
      (RX_MSG_CLEAN_COMPRESS_FAILED, 50002, ''RX_MSG_CLEAN_COMPRESS_FAILED''), (RX_MSG_CLEAN_HEARTBEAT, 50003, ''RX_MSG_CLEAN_HEARTBEAT''),
      (RX_MSG_SAMPLE_TRIGGER, 3001, ''RX_MSG_SAMPLE_TRIGGER''), (RX_MSG_SAMPLE_ALERT, 3002, ''RX_MSG_SAMPLE_ALERT''),
      (RX_MSG_POST_DONE, 4001, ''RX_MSG_POST_DONE''), (RX_MSG_POST_BATCH_COMPRESS, 4002, ''RX_MSG_POST_BATCH_COMPRESS''),
      (RX_MSG_RELOAD_CONFIG, 5001, ''RX_MSG_RELOAD_CONFIG''), (RX_MSG_PDEF_ENDIAN_DETECTED, 5002, ''RX_MSG_PDEF_ENDIAN_DETECTED''),
      (RX_MSG_BIZ_START, 10001, ''RX_MSG_BIZ_START''), (RX_MSG_BIZ_STATUS, 10002, ''RX_MSG_BIZ_STATUS''),
      (RX_MSG_BIZ_STOP, 10003, ''RX_MSG_BIZ_STOP''), (RX_MSG_CAP_STARTED, 10100, ''RX_MSG_CAP_STARTED''),
      (RX_MSG_CAP_FINISHED, 10101, ''RX_MSG_CAP_FINISHED'')]"

definition op_value :: "rx_op \<Rightarrow> int" where
  "op_value m =
     (case m of RX_MSG_PACKET_CAPTURED \<Rightarrow> 6001 | RX_MSG_PACKET_FILTERED \<Rightarrow> 6002
      | _ \<Rightarrow> (case map_of op_table m of Some (v, n) \<Rightarrow> v | None \<Rightarrow> 0))"

definition rx_msg_type_to_string :: "int \<Rightarrow> string" where
  "rx_msg_type_to_string t =
     (case find (\<lambda>(m, v, n). v = t) op_table of Some (m, v, n) \<Rightarrow> n | None \<Rightarrow> ''UNKNOWN_MSG'')"

section \<open>Messages\<close>

record CaptureMessageBase =
  cm_msg_op :: rx_op
  cm_capture_id :: int
  cm_key :: string
  cm_sid :: string
  cm_op_version :: int
  cm_ts_usec :: int
  cm_config_hash :: u32
  cm_sender_thread_index :: int

definition CaptureMessageBase_new :: "int \<Rightarrow> rx_op \<Rightarrow> CaptureMessageBase" where
  "CaptureMessageBase_new now m =
     \<lparr>cm_msg_op = m, cm_capture_id = - 1, cm_key = [], cm_sid = [], cm_op_version = 1, cm_ts_usec = now,
      cm_config_hash = 0, cm_sender_thread_index = 0\<rparr>"

record SRxCaptureStartMsgV2 = CaptureMessageBase +
  start_config :: CaptureConfigSnapshot
  start_spec :: CaptureSpec
  start_worker_id :: int

record SRxCaptureStopMsgV2 = CaptureMessageBase +
  stop_reason :: string

record SRxCaptureCancelMsgV2 = CaptureMessageBase +
  cancel_reason :: string
  cancel_error_code :: ECaptureErrorCode

record SRxCaptureStartedMsgV2 = CaptureMessageBase +
  started_start_ts :: int
  started_capture_pid :: int
  started_output_file :: string

record SRxCaptureProgressMsgV2 = CaptureMessageBase +
  progress_stats :: CaptureProgressStats
  progress_report_ts :: int

record SRxCaptureFileReadyMsgV2 = CaptureMessageBase +
  ready_files :: "CaptureFileInfo list"

record SRxCaptureFinishedMsgV2 = CaptureMessageBase +
  finished_result :: CaptureResultStats

record SRxCaptureFailedMsgV2 = CaptureMessageBase +
  failed_error_code :: ECaptureErrorCode
  failed_error_message :: string
  failed_last_progress :: CaptureProgressStats

record SRxCaptureRawFileMsgV2 = CaptureMessageBase +
  raw_pcap_path :: string
  raw_pdef_file_path :: string
  raw_pdef_inline_content :: string
  raw_has_pdef_filter :: bool
  raw_manager_thread_index :: int

record SRxCaptureFilteredFileMsgV2 = CaptureMessageBase +
  filtered_pcap_path :: string
  filtered_total_packets :: u64
  filtered_filtered_packets :: u64
  filtered_file_size :: u64
  filtered_pdef_file_path :: string

record SRxFileEnqueueMsgV2 = CaptureMessageBase +
  enqueue_files_list :: "CaptureFileInfo list"
  enqueue_clean_policy :: CaptureConfigSnapshot

record SRxCleanCompressDoneMsgV2 = CaptureMessageBase +
  done_compressed_files :: "CaptureFileInfo list"
  done_archive_path :: string
  done_compressed_bytes :: u64
  done_compress_duration_ms :: int

record SRxCleanCompressFailedMsgV2 = CaptureMessageBase +
  cfailed_files :: "CaptureFileInfo list"
  cfailed_error_code :: ECaptureErrorCode
  cfailed_error_message :: string

record SRxPdefEndianMsg =
  pe_file_path :: string
  pe_detected_endian :: int
  pe_capture_id :: int

text \<open>A message in flight, with the thread it is sent to.\<close>

datatype rx_msg =
  M_Start SRxCaptureStartMsgV2
| M_Stop SRxCaptureStopMsgV2
| M_Cancel SRxCaptureCancelMsgV2
| M_Started SRxCaptureStartedMsgV2
| M_Progress SRxCaptureProgressMsgV2
| M_File_ready SRxCaptureFileReadyMsgV2
| M_Finished SRxCaptureFinishedMsgV2
| M_Failed SRxCaptureFailedMsgV2
| M_Raw_file SRxCaptureRawFileMsgV2
| M_Filtered_file SRxCaptureFilteredFileMsgV2
| M_File_enqueue SRxFileEnqueueMsgV2
| M_Compress_done SRxCleanCompressDoneMsgV2
| M_Compress_failed SRxCleanCompressFailedMsgV2
| M_Pdef_endian SRxPdefEndianMsg

section \<open>Names of message codes\<close>

lemma op_table_values: "distinct (map (fst \<circ> snd) op_table)"
  by (simp add: op_table_def)

lemma find_unique:
  assumes "distinct (map (fst \<circ> snd) xs)" "(m, v, n) \<in> set xs"
  shows "find (\<lambda>(m', v', n'). v' = v) xs = Some (m, v, n)"
  using assms by (induction xs) (auto simp: image_iff)

text \<open>Every code of the table has its own name, and every other code is unknown.\<close>

lemma known_code_named:
  "(m, v, n) \<in> set op_table \<Longrightarrow> rx_msg_type_to_string v = n"
  using find_unique [OF op_table_values] by (simp add: rx_msg_type_to_string_def)

lemma packet_codes_unnamed:
  "rx_msg_type_to_string (op_value RX_MSG_PACKET_CAPTURED) = ''UNKNOWN_MSG''"
  "rx_msg_type_to_string (op_value RX_MSG_PACKET_FILTERED) = ''UNKNOWN_MSG''"
  by (simp_all add: rx_msg_type_to_string_def op_value_def op_table_def)

lemma error_value_inj: "error_value a = error_value b \<Longrightarrow> a = b"
  by (cases a; cases b) simp_all

end
