(* ===== verification/Dump_Storage.thy ===== *)
theory Dump_Storage
  imports Lockfree_Queue Parser_Facts Capture_Messages
begin

text \<open>
  Naming, opening and rotating capture files, \<open>src/src/rxstorageutils.cpp\<close>.  The clock (\<open>time\<close>,
  \<open>localtime_r\<close>) and the outcome of \<open>pcap_dump_open\<close> are arguments.  The file system is a map from
  paths to the packets written to them; opening a dump file truncates it.  A dumper is the path it
  writes to, \<open>None\<close> the null pointer, and \<open>io_dirs\<close> are the paths given to \<open>mkdir\<close>.
\<close>

section \<open>Formatting\<close>

record tm =
  tm_year :: int
  tm_mon :: int
  tm_mday :: int
  tm_hour :: int
  tm_min :: int

text \<open>\<open>printf\<close> with \<open>%0wd\<close>; with width zero it is \<open>%d\<close>.\<close>

definition fmt_d :: "nat \<Rightarrow> int \<Rightarrow> string" where
  "fmt_d w v =
     (let d = dec_string (nat \<bar>v\<bar>) in
      if v < 0 then ''-'' @ replicate (w - 1 - length d) (CHR ''0'') @ d
      else replicate (w - length d) (CHR ''0'') @ d)"

text \<open>\<open>snprintf\<close> into a buffer of \<open>n\<close> bytes.\<close>

definition snprintf :: "nat \<Rightarrow> string \<Rightarrow> string" where
  "snprintf n s = take (n - 1) s"

definition two_digits :: "int \<Rightarrow> string" where
  "two_digits v = snprintf 8 (fmt_d 2 v)"

definition day_text :: "tm \<Rightarrow> string" where
  "day_text t = fmt_d 4 (tm_year t + 1900) @ fmt_d 2 (tm_mon t + 1) @ fmt_d 2 (tm_mday t)"

definition date_text :: "tm \<Rightarrow> string" where
  "date_text t = day_text t @ fmt_d 2 (tm_hour t) @ fmt_d 2 (tm_min t)"

definition ymd_date :: "(int \<Rightarrow> tm) \<Rightarrow> int \<Rightarrow> string" where
  "ymd_date localtime t = snprintf 32 (date_text (localtime t))"

section \<open>Strings\<close>

text \<open>\<open>find\<close> and \<open>rfind\<close> of a character, \<open>find\<close> of a string; \<open>None\<close> is \<open>npos\<close>.\<close>

fun find_char :: "char \<Rightarrow> string \<Rightarrow> nat option" where
  "find_char c [] = None"
| "find_char c (x # xs) = (if x = c then Some 0 else map_option Suc (find_char c xs))"

fun rfind_char :: "char \<Rightarrow> string \<Rightarrow> nat option" where
  "rfind_char c [] = None"
| "rfind_char c (x # xs) =
     (case rfind_char c xs of Some i \<Rightarrow> Some (Suc i) | None \<Rightarrow> if x = c then Some 0 else None)"

fun starts_with :: "string \<Rightarrow> string \<Rightarrow> bool" where
  "starts_with [] s = True"
| "starts_with (p # ps) [] = False"
| "starts_with (p # ps) (x # xs) = (p = x \<and> starts_with ps xs)"

fun find_str :: "string \<Rightarrow> string \<Rightarrow> nat option" where
  "find_str p [] = (if p = [] then Some 0 else None)"
| "find_str p (x # xs) = (if starts_with p (x # xs) then Some 0 else map_option Suc (find_str p xs))"

text \<open>Insert before the last dot, or append.\<close>

definition insert_before_dot :: "string \<Rightarrow> string \<Rightarrow> string" where
  "insert_before_dot ins s =
     (case rfind_char (CHR ''.'') s of Some i \<Rightarrow> take i s @ ins @ drop i s | None \<Rightarrow> s @ ins)"

definition join_path :: "string \<Rightarrow> string \<Rightarrow> string" where
  "join_path a b =
     (if b = [] then a
      else if hd b = CHR ''/'' then b
      else if a = [] then b
      else if last a = CHR ''/'' then a @ b
      else a @ ''/'' @ b)"

text \<open>The directories \<open>mkdir\<close> is called for, from the outermost to the innermost.\<close>

definition ensure_dir :: "string \<Rightarrow> string list" where
  "ensure_dir path =
     map (\<lambda>i. take (Suc i) path) (filter (\<lambda>i. path ! i = CHR ''/'' \<and> Suc i > 1) [0..<length path])"

fun collapse_slashes :: "bool \<Rightarrow> string \<Rightarrow> string" where
  "collapse_slashes prev_slash [] = []"
| "collapse_slashes prev_slash (c # cs) =
     (if c = CHR ''/'' then
        if prev_slash then collapse_slashes True cs else c # collapse_slashes True cs
      else c # collapse_slashes False cs)"

section \<open>The dump context\<close>

type_synonym packet = "pcap_pkthdr \<times> u8 list"

record CRxDumpCtx =
  dc_d :: "string option"
  dc_max_bytes :: int
  dc_written :: int
  dc_seq :: int
  dc_start_time :: int
  dc_base_dir :: string
  dc_pattern :: string
  dc_category :: string
  dc_iface :: string
  dc_proc :: string
  dc_port :: int
  dc_current_path :: string
  dc_compress_enabled :: bool
  dc_protocol_filter_path :: string
  dc_protocol_def :: "ProtocolDef option"
  dc_packets_filtered :: u64
  dc_filter_thread_index :: u32

record dump_io =
  io_dirs :: "string list"
  io_files :: "string \<rightharpoonup> packet list"

text \<open>The time the names are built from: \<open>time (NULL)\<close> and \<open>localtime_r\<close>.\<close>

record clock =
  ck_now :: int
  ck_localtime :: "int \<Rightarrow> tm"

definition DEFAULT_PATTERN :: string where
  "DEFAULT_PATTERN = ''{day}/{date}-{iface}-{proc}-{port}.pcap''"

definition base_time :: "clock \<Rightarrow> CRxDumpCtx \<Rightarrow> int" where
  "base_time ck dc = (if dc_start_time dc \<noteq> 0 then dc_start_time dc else ck_now ck)"

text \<open>The text of a placeholder.  The time stamp is printed as an unsigned 64-bit number.\<close>

definition placeholder :: "clock \<Rightarrow> CRxDumpCtx \<Rightarrow> string \<Rightarrow> string" where
  "placeholder ck dc key =
     (let t = base_time ck dc; tmv = ck_localtime ck t in
      if key = ''day'' then snprintf 32 (day_text tmv)
      else if key = ''date'' then snprintf 32 (date_text tmv)
      else if key = ''ts'' then snprintf 32 (dec_string (nat (t mod 2 ^ 64)))
      else if key = ''iface'' then dc_iface dc
      else if key = ''proc'' then if dc_proc dc \<noteq> [] then dc_proc dc else ''any''
      else if key = ''port'' then if dc_port dc > 0 then snprintf 16 (fmt_d 0 (dc_port dc)) else ''any''
      else if key = ''seq'' then snprintf 16 (fmt_d 4 (dc_seq dc))
      else if key = ''category'' then dc_category dc
      else key)"

text \<open>The loop over the pattern: the expanded text and whether a port placeholder was met.\<close>

function expand_loop :: "clock \<Rightarrow> CRxDumpCtx \<Rightarrow> string \<Rightarrow> string \<times> bool" where
  "expand_loop ck dc [] = ([], False)"
| "expand_loop ck dc (c # cs) =
     (if c = CHR ''{'' then
        case find_char (CHR ''}'') cs of
          None \<Rightarrow> (case expand_loop ck dc cs of (out, p) \<Rightarrow> (c # out, p))
        | Some j \<Rightarrow>
            (let key = take j cs in
             case expand_loop ck dc (drop (Suc j) cs) of
               (out, p) \<Rightarrow> (placeholder ck dc key @ out, p \<or> key = ''port''))
      else (case expand_loop ck dc cs of (out, p) \<Rightarrow> (c # out, p)))"
  by pat_completeness auto

termination by (relation "measure (\<lambda>(ck, dc, s). length s)") auto

definition pattern_of :: "CRxDumpCtx \<Rightarrow> string" where
  "pattern_of dc = (if dc_pattern dc = [] then DEFAULT_PATTERN else dc_pattern dc)"

definition expand_pattern :: "clock \<Rightarrow> CRxDumpCtx \<Rightarrow> string" where
  "expand_pattern ck dc =
     (let (out, has_port) = expand_loop ck dc (pattern_of dc);
          out1 = (if find_str ''//'' out \<noteq> None then collapse_slashes False out else out);
          out2 = (if dc_port dc > 0 \<and> \<not> has_port
                  then insert_before_dot (''-p'' @ snprintf 16 (fmt_d 0 (dc_port dc))) out1 else out1);
          out3 = (if dc_protocol_filter_path dc \<noteq> [] then insert_before_dot ''_raw'' out2 else out2)
      in join_path (dc_base_dir dc) out3)"

section \<open>Rotation and writing\<close>

text \<open>\<open>opens\<close> tells for which paths \<open>pcap_dump_open\<close> succeeds.\<close>

definition pcap_dump_open :: "(string \<Rightarrow> bool) \<Rightarrow> string \<Rightarrow> dump_io \<Rightarrow> string option \<times> dump_io" where
  "pcap_dump_open opens path io =
     (if opens path then (Some path, io\<lparr>io_files := (io_files io)(path \<mapsto> [])\<rparr>) else (None, io))"

definition pcap_dump :: "string option \<Rightarrow> packet \<Rightarrow> dump_io \<Rightarrow> fault + dump_io" where
  "pcap_dump d pkt io =
     (case d of
        None \<Rightarrow> Inl Oob_write
      | Some path \<Rightarrow>
          Inr (io\<lparr>io_files := (io_files io)(path \<mapsto>
            (case io_files io path of None \<Rightarrow> [pkt] | Some ps \<Rightarrow> ps @ [pkt]))\<rparr>))"

definition rotate_open ::
  "clock \<Rightarrow> (string \<Rightarrow> bool) \<Rightarrow> CRxDumpCtx \<times> dump_io \<Rightarrow> CRxDumpCtx \<times> dump_io" where
  "rotate_open ck opens s =
     (case s of (dc, io) \<Rightarrow>
        (let dc1 = dc\<lparr>dc_seq := dc_seq dc + 1, dc_written := 0\<rparr>;
             path = expand_pattern ck dc1;
             dirs = (case rfind_char (CHR ''/'') path of
                       Some i \<Rightarrow> ensure_dir (take (Suc i) path) | None \<Rightarrow> []);
             (d, io1) = pcap_dump_open opens path (io\<lparr>io_dirs := io_dirs io @ dirs\<rparr>)
         in (dc1\<lparr>dc_current_path := path, dc_d := d\<rparr>, io1)))"

definition sizeof_pkthdr :: int where
  "sizeof_pkthdr = 24"

definition pkt_bytes :: "packet \<Rightarrow> int" where
  "pkt_bytes pkt = sizeof_pkthdr + uint (caplen (fst pkt))"

definition dump_cb ::
  "clock \<Rightarrow> (string \<Rightarrow> bool) \<Rightarrow> packet \<Rightarrow> CRxDumpCtx \<times> dump_io \<Rightarrow> fault + CRxDumpCtx \<times> dump_io" where
  "dump_cb ck opens pkt s =
     (case s of (dc, io) \<Rightarrow>
        (let full = dc_max_bytes dc > 0 \<and> dc_d dc \<noteq> None \<and>
               dc_written dc + pkt_bytes pkt > dc_max_bytes dc;
             (dc1, io1) = (if full then rotate_open ck opens (dc, io) else (dc, io))
         in if full \<and> dc_d dc1 = None then Inr (dc1, io1)
            else try_then (pcap_dump (dc_d dc1) pkt io1) (\<lambda>io2.
              Inr (dc1\<lparr>dc_written := dc_written dc1 + pkt_bytes pkt\<rparr>, io2))))"

text \<open>The dispatch loop of the library calls it for every packet of a batch.\<close>

fun dump_all ::
  "clock \<Rightarrow> (string \<Rightarrow> bool) \<Rightarrow> packet list \<Rightarrow> CRxDumpCtx \<times> dump_io \<Rightarrow> fault + CRxDumpCtx \<times> dump_io" where
  "dump_all ck opens [] s = Inr s"
| "dump_all ck opens (p # ps) s = try_then (dump_cb ck opens p s) (dump_all ck opens ps)"

section \<open>Slashes in names\<close>

definition slash_ok :: "char \<Rightarrow> char \<Rightarrow> bool" where
  "slash_ok x y \<longleftrightarrow> \<not> (x = CHR ''/'' \<and> y = CHR ''/'')"

lemma no_double_slash: "find_str ''//'' s = None \<longleftrightarrow> successively slash_ok s"
proof (induction s)
  case (Cons x xs)
  then show ?case by (cases xs) (auto simp: slash_ok_def)
qed simp

lemma collapse_successively:
  "successively slash_ok (collapse_slashes b s) \<and>
   (b \<longrightarrow> collapse_slashes b s = [] \<or> hd (collapse_slashes b s) \<noteq> CHR ''/'')"
proof (induction b s rule: collapse_slashes.induct)
  case (2 b c cs)
  then show ?case by (auto simp: successively_Cons slash_ok_def)
qed simp

lemma collapsed: "find_str ''//'' (if find_str ''//'' s \<noteq> None then collapse_slashes False s else s) = None"
  using collapse_successively [of False s] by (auto simp: no_double_slash)

lemma rfind_char_bound: "rfind_char c s = Some i \<Longrightarrow> i < length s \<and> s ! i = c \<and> c \<notin> set (drop (Suc i) s)"
proof (induction s arbitrary: i)
  case (Cons x xs)
  have none: "rfind_char c ys = None \<Longrightarrow> c \<notin> set ys" for ys
    by (induction ys) (auto split: option.splits if_splits)
  from Cons show ?case using none [of xs] by (auto split: option.splits if_splits)
qed simp

lemma rfind_char_None: "rfind_char c s = None \<longleftrightarrow> c \<notin> set s"
  by (induction s) (auto split: option.splits)

lemma rfind_char_last: "c \<notin> set b \<Longrightarrow> rfind_char c (a @ c # b) = Some (length a)"
  by (induction a) (auto simp: rfind_char_None split: option.splits)

lemma insert_no_double_slash:
  assumes "successively slash_ok s" "CHR ''/'' \<notin> set ins" "ins \<noteq> []"
  shows "successively slash_ok (insert_before_dot ins s)"
proof -
  have ins: "successively slash_ok ins" if "CHR ''/'' \<notin> set ins" for ins
    using that by (induction ins) (auto simp: successively_Cons slash_ok_def)
  have l: "last ins \<noteq> CHR ''/''" "hd ins \<noteq> CHR ''/''" using assms(2,3) by (metis last_in_set, metis hd_in_set)
  have split: "successively slash_ok (take i s) \<and> successively slash_ok (drop i s)" for i
    using assms(1) successively_append_iff [of slash_ok "take i s" "drop i s"] by simp
  show ?thesis
    using assms l ins split
    by (auto simp: insert_before_dot_def successively_append_iff slash_ok_def split: option.split)
qed

lemma digits_no_slash: "list_all is_digit s \<Longrightarrow> CHR ''/'' \<notin> set s"
  by (induction s) (auto simp: is_digit_def)

lemma fmt_d_no_slash: "CHR ''/'' \<notin> set (snprintf n (fmt_d w v))"
proof -
  have "CHR ''/'' \<notin> set (dec_string k)" for k by (rule digits_no_slash) (simp add: dec_string_digits)
  then have "CHR ''/'' \<notin> set (fmt_d w v)" by (simp add: fmt_d_def Let_def)
  then show ?thesis by (auto simp: snprintf_def dest: in_set_takeD)
qed

text \<open>
  Whatever the pattern, the interface name and the process name are, the name a pattern expands
  to contains no two slashes in a row before it is joined to the base directory.
\<close>

theorem expanded_name_no_double_slash:
  "\<exists>name. expand_pattern ck dc = join_path (dc_base_dir dc) name \<and> find_str ''//'' name = None"
proof -
  obtain out p where out: "expand_loop ck dc (pattern_of dc) =
    (out, p)" by fastforce
  define out1 where "out1 = (if find_str ''//'' out \<noteq> None then collapse_slashes False out else out)"
  define out2 where "out2 = (if dc_port dc > 0 \<and> \<not> p
    then insert_before_dot (''-p'' @ snprintf 16 (fmt_d 0 (dc_port dc))) out1 else out1)"
  define out3 where "out3 = (if dc_protocol_filter_path dc \<noteq> [] then insert_before_dot ''_raw'' out2 else out2)"
  have "successively slash_ok out1" using collapsed [of out] by (simp add: out1_def no_double_slash)
  then have "successively slash_ok out2"
    using insert_no_double_slash [of out1 "''-p'' @ snprintf 16 (fmt_d 0 (dc_port dc))"]
      fmt_d_no_slash [of 16 0 "dc_port dc"] by (simp add: out2_def)
  then have "successively slash_ok out3"
    using insert_no_double_slash [of out2 "''_raw''"] by (simp add: out3_def)
  moreover have "expand_pattern ck dc = join_path (dc_base_dir dc) out3"
    by (simp add: expand_pattern_def out out1_def out2_def out3_def Let_def)
  ultimately show ?thesis using no_double_slash by blast
qed

section \<open>Rotation\<close>

lemma starts_with_append: "starts_with p (p @ s)"
  by (induction p) auto

lemma starts_with_iff: "starts_with p s \<longleftrightarrow> (\<exists>r. s = p @ r)"
proof
  show "starts_with p s \<Longrightarrow> \<exists>r. s = p @ r"
    by (induction p s rule: starts_with.induct) auto
qed (auto simp: starts_with_append)

lemma find_str_tail: "find_str p (x # xs) = None \<Longrightarrow> find_str p xs = None \<and> \<not> starts_with p (x # xs)"
  by (simp split: if_splits)

lemma find_str_drop: "p \<noteq> [] \<Longrightarrow> find_str p xs = None \<Longrightarrow> find_str p (drop n xs) = None"
proof (induction xs arbitrary: n)
  case (Cons x xs)
  note tail = find_str_tail [OF Cons.prems(2)]
  show ?case
  proof (cases n)
    case 0
    then show ?thesis using Cons.prems by simp
  next
    case (Suc m)
    then show ?thesis using Cons.IH [OF Cons.prems(1), of m] tail by simp
  qed
qed simp

lemma find_char_nth: "find_char c s = Some j \<Longrightarrow> j < length s \<and> s ! j = c"
proof (induction s arbitrary: j)
  case (Cons x xs)
  then show ?case by (cases j) (auto split: if_splits)
qed simp

lemma find_char_split: "find_char c s = Some j \<Longrightarrow> s = take j s @ c # drop (Suc j) s"
  using find_char_nth [of c s j] id_take_nth_drop [of j s] by simp

lemma starts_with_take: "starts_with p s \<longleftrightarrow> take (length p) s = p"
  by (induction p s rule: starts_with.induct) auto

lemma find_str_at:
  assumes "starts_with p (drop i s)" "p \<noteq> []" "\<forall>j < i. \<not> starts_with p (drop j s)"
  shows "find_str p s = Some i"
  using assms
proof (induction s arbitrary: i)
  case Nil
  then show ?case by (simp add: starts_with_take)
next
  case (Cons x xs)
  show ?case
  proof (cases i)
    case 0
    then show ?thesis using Cons.prems by simp
  next
    case (Suc k)
    have "\<forall>j < k. \<not> starts_with p (drop j xs)"
    proof (intro allI impI)
      fix j assume "j < k"
      then show "\<not> starts_with p (drop j xs)" using Cons.prems(3) [rule_format, of "Suc j"] Suc by simp
    qed
    then have "find_str p xs = Some k" using Cons.IH [of k] Cons.prems Suc by simp
    then show ?thesis using Cons.prems(3) Suc by auto
  qed
qed

lemma find_str_room: "find_str q xs = Some i \<Longrightarrow> i + length q \<le> length xs"
proof (induction xs arbitrary: i)
  case (Cons x xs)
  show ?case
  proof (cases "starts_with q (x # xs)")
    case True
    then have "length q \<le> length (x # xs)" by (metis starts_with_take length_take min.cobounded1)
    then show ?thesis using Cons.prems True by simp
  qed (use Cons in \<open>auto split: if_splits\<close>)
qed (simp split: if_splits)

lemma find_str_SomeD:
  "find_str p s = Some i \<Longrightarrow> starts_with p (drop i s) \<and> (\<forall>j < i. \<not> starts_with p (drop j s))"
proof (induction s arbitrary: i)
  case (Cons x xs)
  show ?case
  proof (cases "starts_with p (x # xs)")
    case False
    then obtain k where k: "find_str p xs = Some k" "i = Suc k" using Cons.prems by auto
    have "\<not> starts_with p (drop j (x # xs))" if "j < i" for j
      using that False Cons.IH [OF k(1)] k(2) by (cases j) auto
    then show ?thesis using Cons.IH [OF k(1)] k(2) by simp
  qed (use Cons.prems in simp)
qed (simp split: if_splits)

text \<open>A pattern without \<open>{seq}\<close> expands to the same text for every sequence number.\<close>

lemma expand_loop_seq:
  assumes "find_str ''{seq}'' s = None"
    and same: "\<And>key. key \<noteq> ''seq'' \<Longrightarrow> placeholder ck dc' key = placeholder ck dc key"
  shows "expand_loop ck dc' s = expand_loop ck dc s"
  using assms(1)
proof (induction "length s" arbitrary: s rule: less_induct)
  case less
  show ?case
  proof (cases s)
    case (Cons c cs)
    have tail: "find_str ''{seq}'' cs = None" and no: "\<not> starts_with ''{seq}'' (c # cs)"
      using find_str_tail [of "''{seq}''" c cs] less.prems Cons by auto
    have cs: "expand_loop ck dc' cs = expand_loop ck dc cs" using less.hyps [of cs] tail Cons by simp
    show ?thesis
    proof (cases "c = CHR ''{'' \<and> find_char (CHR ''}'') cs \<noteq> None")
      case True
      then obtain j where j: "find_char (CHR ''}'') cs = Some j" by auto
      have rest: "expand_loop ck dc' (drop (Suc j) cs) = expand_loop ck dc (drop (Suc j) cs)"
        using less.hyps [of "drop (Suc j) cs"] find_str_drop [OF _ tail] Cons by simp
      have "take j cs \<noteq> ''seq''"
      proof
        assume "take j cs = ''seq''"
        then have "c # cs = ''{seq}'' @ drop (Suc j) cs"
          using find_char_split [OF j] True by (metis append_Cons append_Nil)
        then show False using no by (metis starts_with_append)
      qed
      then show ?thesis using Cons True j rest same by (simp add: Let_def)
    next
      case False
      then show ?thesis using Cons cs by (auto split: option.splits)
    qed
  qed simp
qed

lemma expand_pattern_seq:
  assumes "find_str ''{seq}'' (pattern_of dc) = None"
  shows "expand_pattern ck (dc\<lparr>dc_seq := n, dc_written := w\<rparr>) = expand_pattern ck dc"
proof -
  have "expand_loop ck (dc\<lparr>dc_seq := n, dc_written := w\<rparr>) (pattern_of dc) = expand_loop ck dc (pattern_of dc)"
    by (rule expand_loop_seq [OF assms]) (simp add: placeholder_def base_time_def Let_def)
  moreover have "pattern_of (dc\<lparr>dc_seq := n, dc_written := w\<rparr>) = pattern_of dc" by (simp add: pattern_of_def)
  ultimately show ?thesis
    by (cases "expand_loop ck dc (pattern_of dc)") (simp add: expand_pattern_def Let_def)
qed

text \<open>
  With a pattern that has no \<open>{seq}\<close> placeholder (the default pattern has none) a rotation
  reopens the file it has just closed: after it the file holds the new packet only, and the packets
  written before are lost.
\<close>

theorem rotation_without_seq_overwrites:
  assumes "find_str ''{seq}'' (pattern_of dc) = None"
    and "dc_d dc = Some (expand_pattern ck dc)" "opens (expand_pattern ck dc)"
    and "0 < dc_max_bytes dc" "dc_max_bytes dc < dc_written dc + pkt_bytes pkt"
  shows "\<exists>dc' io'. dump_cb ck opens pkt (dc, io) = Inr (dc', io') \<and> dc_d dc' = dc_d dc \<and>
    io_files io' (expand_pattern ck dc) = Some [pkt]"
  using assms expand_pattern_seq [OF assms(1), where n = "dc_seq dc + 1" and w = 0 and ck = ck]
  by (simp add: dump_cb_def rotate_open_def pcap_dump_open_def pcap_dump_def Let_def)

definition sample_clock :: clock where
  "sample_clock = \<lparr>ck_now = 1700000000, ck_localtime =
     (\<lambda>t. \<lparr>tm_year = 123, tm_mon = 10, tm_mday = 14, tm_hour = 22, tm_min = 13\<rparr>)\<rparr>"

definition sample_ctx :: CRxDumpCtx where
  "sample_ctx =
     \<lparr>dc_d = Some ''/c/20231114/202311142213-eth0-any-any.pcap'', dc_max_bytes = 1000, dc_written = 990,
      dc_seq = 1, dc_start_time = 1700000000, dc_base_dir = ''/c'', dc_pattern = [], dc_category = [],
      dc_iface = ''eth0'', dc_proc = [], dc_port = 0, dc_current_path = [], dc_compress_enabled = False,
      dc_protocol_filter_path = [], dc_protocol_def = None, dc_packets_filtered = 0,
      dc_filter_thread_index = 0\<rparr>"

definition sample_packet :: packet where
  "sample_packet = (\<lparr>ts_sec = 1, ts_usec = 2, caplen = 60, wire_len = 60\<rparr>, replicate 60 0)"

lemma sample_path: "expand_pattern sample_clock sample_ctx = ''/c/20231114/202311142213-eth0-any-any.pcap''"
  by code_simp

theorem rotation_without_seq_overwrites_witness:
  "\<exists>dc' io'. dump_cb sample_clock (\<lambda>_. True) sample_packet
      (sample_ctx, \<lparr>io_dirs = [], io_files = Map.empty\<rparr>) = Inr (dc', io') \<and>
    dc_d dc' = dc_d sample_ctx \<and>
    io_files io' (expand_pattern sample_clock sample_ctx) = Some [sample_packet]"
proof (rule rotation_without_seq_overwrites)
  show "find_str ''{seq}'' (pattern_of sample_ctx) = None"
    by (simp add: pattern_of_def sample_ctx_def DEFAULT_PATTERN_def)
  show "dc_d sample_ctx = Some (expand_pattern sample_clock sample_ctx)"
    unfolding sample_path by (simp add: sample_ctx_def)
qed (simp_all add: sample_ctx_def sample_packet_def pkt_bytes_def sizeof_pkthdr_def)

section \<open>Sizes\<close>

definition file_size :: "packet list \<Rightarrow> int" where
  "file_size ps = sum_list (map pkt_bytes ps)"

lemma file_size_simps [simp]: "file_size [] = 0" "file_size (ps @ [p]) = file_size ps + pkt_bytes p"
  by (simp_all add: file_size_def)

definition small_file :: "int \<Rightarrow> packet list \<Rightarrow> bool" where
  "small_file limit ps \<longleftrightarrow> file_size ps \<le> limit \<or> length ps \<le> 1"

text \<open>The context counts exactly the bytes of the file it is writing.\<close>

definition dump_ok :: "int \<Rightarrow> CRxDumpCtx \<times> dump_io \<Rightarrow> bool" where
  "dump_ok limit s \<longleftrightarrow>
     (case s of (dc, io) \<Rightarrow>
        dc_max_bytes dc = limit \<and>
        (\<forall>path ps. io_files io path = Some ps \<longrightarrow> small_file limit ps) \<and>
        (\<forall>path. dc_d dc = Some path \<longrightarrow>
           (\<exists>ps. io_files io path = Some ps \<and> dc_written dc = file_size ps)))"

lemma rotate_ok:
  assumes "dump_ok limit s" "0 \<le> limit"
  shows "dump_ok limit (rotate_open ck opens s)"
  using assms
  by (auto simp: dump_ok_def rotate_open_def pcap_dump_open_def Let_def small_file_def split: prod.splits if_splits)

lemma rotate_empty:
  assumes "rotate_open ck opens s = (dc', io')" "dc_d dc' = Some path"
  shows "io_files io' path = Some []" "dc_written dc' = 0"
  using assms by (auto simp: rotate_open_def pcap_dump_open_def Let_def split: prod.splits if_splits)

lemma dump_cb_ok:
  assumes ok: "dump_ok limit s" and limit: "0 < limit" and run: "dump_cb ck opens p s = Inr s'"
  shows "dump_ok limit s'"
proof -
  obtain dc io where s: "s = (dc, io)" by fastforce
  define full where "full \<longleftrightarrow> dc_max_bytes dc > 0 \<and> dc_d dc \<noteq> None \<and> dc_written dc + pkt_bytes p > dc_max_bytes dc"
  define s1 where "s1 = (if full then rotate_open ck opens (dc, io) else (dc, io))"
  obtain dc1 io1 where s1': "s1 = (dc1, io1)" by fastforce
  have "dump_ok limit s1" using ok rotate_ok [of limit "(dc, io)"] limit s by (simp add: s1_def)
  then have ok1: "dump_ok limit (dc1, io1)" using s1' by simp
  have run1: "(if full \<and> dc_d dc1 = None then Inr (dc1, io1)
      else try_then (pcap_dump (dc_d dc1) p io1) (\<lambda>io2.
        Inr (dc1\<lparr>dc_written := dc_written dc1 + pkt_bytes p\<rparr>, io2))) = Inr s'"
    using run s1' by (simp add: dump_cb_def s s1_def full_def Let_def split: prod.splits)
  show ?thesis
  proof (cases "dc_d dc1")
    case None
    then show ?thesis using run1 ok1 by (auto simp: pcap_dump_def split: if_splits)
  next
    case (Some path)
    then obtain ps where ps: "io_files io1 path = Some ps" "dc_written dc1 = file_size ps"
      using ok1 by (auto simp: dump_ok_def)
    have s': "s' = (dc1\<lparr>dc_written := dc_written dc1 + pkt_bytes p\<rparr>,
        io1\<lparr>io_files := (io_files io1)(path \<mapsto> ps @ [p])\<rparr>)"
      using run1 Some ps by (simp add: pcap_dump_def)
    have "small_file limit (ps @ [p])"
    proof (cases full)
      case True
      then have "ps = []" using rotate_empty(1) [of ck opens "(dc, io)" dc1 io1 path] s1' Some ps
        by (simp add: s1_def)
      then show ?thesis by (simp add: small_file_def)
    next
      case False
      then have "dc1 = dc" using s1' by (simp add: s1_def)
      then have "dc_written dc1 + pkt_bytes p \<le> limit"
        using False Some ok s limit by (auto simp: full_def dump_ok_def)
      then show ?thesis using ps by (simp add: small_file_def)
    qed
    then show ?thesis using ok1 ps Some by (auto simp: dump_ok_def s')
  qed
qed

lemma dump_all_ok:
  "\<lbrakk>dump_ok limit s; 0 < limit; dump_all ck opens ps s = Inr s'\<rbrakk> \<Longrightarrow> dump_ok limit s'"
proof (induction ps arbitrary: s)
  case (Cons p ps)
  then obtain s1 where "dump_cb ck opens p s = Inr s1" "dump_all ck opens ps s1 = Inr s'"
    by (auto elim: try_then_InrE)
  then show ?case using Cons.IH Cons.prems dump_cb_ok by blast
qed simp

lemma rotate_opens: "\<forall>path. opens path \<Longrightarrow> dc_d (fst (rotate_open ck opens s)) \<noteq> None"
  by (cases s) (simp add: rotate_open_def pcap_dump_open_def Let_def)

lemma dump_cb_open:
  assumes "\<forall>path. opens path" "dc_d (fst s) \<noteq> None"
  shows "\<exists>s'. dump_cb ck opens p s = Inr s' \<and> dc_d (fst s') \<noteq> None"
proof -
  obtain dc io where s: "s = (dc, io)" by fastforce
  define full where "full \<longleftrightarrow> dc_max_bytes dc > 0 \<and> dc_d dc \<noteq> None \<and> dc_written dc + pkt_bytes p > dc_max_bytes dc"
  define s1 where "s1 = (if full then rotate_open ck opens (dc, io) else (dc, io))"
  obtain dc1 io1 where s1': "s1 = (dc1, io1)" by fastforce
  have "dc_d (fst s1) \<noteq> None" using assms(2) s rotate_opens [OF assms(1), of ck "(dc, io)"]
    by (simp add: s1_def)
  then obtain path where path: "dc_d dc1 = Some path" using s1' by auto
  have "dump_cb ck opens p s = try_then (pcap_dump (dc_d dc1) p io1) (\<lambda>io2.
      Inr (dc1\<lparr>dc_written := dc_written dc1 + pkt_bytes p\<rparr>, io2))"
    using s1' path by (simp add: dump_cb_def s s1_def full_def Let_def split: prod.splits)
  then show ?thesis using path by (simp add: pcap_dump_def)
qed

lemma dump_all_opened:
  "\<lbrakk>\<forall>path. opens path; dc_d (fst s) \<noteq> None\<rbrakk> \<Longrightarrow>
   \<exists>s'. dump_all ck opens ps s = Inr s' \<and> dc_d (fst s') \<noteq> None"
proof (induction ps arbitrary: s)
  case (Cons p ps)
  obtain s1 where s1: "dump_cb ck opens p s = Inr s1" "dc_d (fst s1) \<noteq> None"
    using dump_cb_open [OF Cons.prems] by blast
  show ?case using Cons.IH [OF Cons.prems(1) s1(2)] s1(1) by simp
qed simp

text \<open>A file is not left while the next packet fits.\<close>

lemma dump_all_fits:
  "\<lbrakk>dc_d dc = Some path; io_files io path = Some qs; dc_written dc = file_size qs;
    file_size (qs @ ps) \<le> dc_max_bytes dc; dump_all ck opens ps (dc, io) = Inr (dc', io')\<rbrakk> \<Longrightarrow>
   dc_d dc' = Some path \<and> io_files io' path = Some (qs @ ps)"
proof (induction ps arbitrary: qs dc io)
  case (Cons p ps)
  have "0 \<le> file_size ps" by (induction ps) (simp_all add: file_size_def pkt_bytes_def sizeof_pkthdr_def)
  then have "dc_written dc + pkt_bytes p \<le> dc_max_bytes dc" using Cons.prems(3,4) by (simp add: file_size_def)
  then have "dump_cb ck opens p (dc, io) = Inr (dc\<lparr>dc_written := dc_written dc + pkt_bytes p\<rparr>,
      io\<lparr>io_files := (io_files io)(path \<mapsto> qs @ [p])\<rparr>)"
    using Cons.prems(1,2) by (simp add: dump_cb_def pcap_dump_def Let_def)
  then show ?case
    using Cons.IH [of "dc\<lparr>dc_written := dc_written dc + pkt_bytes p\<rparr>" "io\<lparr>io_files := (io_files io)(path \<mapsto> qs @ [p])\<rparr>"
        "qs @ [p]"] Cons.prems by simp
qed simp



text \<open>
  When a rotation fails to open its file, the callback gives up on that packet but the next
  packet is written through the null dumper.
\<close>

theorem failed_rotation_faults_next:
  assumes "dc_d dc = Some path" "0 < dc_max_bytes dc" "dc_max_bytes dc < dc_written dc + pkt_bytes p"
    and "\<And>f. \<not> opens f"
  shows "\<exists>s'. dump_cb ck opens p (dc, io) = Inr s' \<and> dump_cb ck opens q s' = Inl Oob_write"
  using assms by (simp add: dump_cb_def rotate_open_def pcap_dump_open_def pcap_dump_def Let_def)

theorem failed_rotation_faults_next_witness:
  "\<exists>s'. dump_cb sample_clock (\<lambda>_. False) sample_packet (sample_ctx, \<lparr>io_dirs = [], io_files = Map.empty\<rparr>) =
      Inr s' \<and> dump_cb sample_clock (\<lambda>_. False) sample_packet s' = Inl Oob_write"
  by (rule failed_rotation_faults_next)
    (simp_all add: sample_ctx_def sample_packet_def pkt_bytes_def sizeof_pkthdr_def)

end
