(* ===== verification/Packet_Filter.thy ===== *)
theory Packet_Filter
  imports Dump_Storage Pdef_Load
begin

text \<open>
  The filter thread, \<open>src/src/rxfilterthread.cpp\<close>: the parser of Ethernet frames, the filter of a
  finished capture file, and the filter of single captured packets.  A byte beyond the captured
  bytes of a packet cannot be read.  libpcap and the file system enter through the file map of
  \<open>Dump_Storage\<close> and the arguments \<open>opens\<close>, \<open>stat\<close> and \<open>unlink\<close>; messages sent are a list of target
  thread and message.
\<close>

section \<open>Parsing a frame\<close>

record ParsedPacket =
  pp_app_data :: "nat option"
  pp_app_len :: u32
  pp_src_port :: u16
  pp_dst_port :: u16
  pp_valid :: bool

definition ParsedPacket_none :: ParsedPacket where
  "ParsedPacket_none =
     \<lparr>pp_app_data = None, pp_app_len = 0, pp_src_port = 0, pp_dst_port = 0, pp_valid = False\<rparr>"

definition byte_at :: "u8 list \<Rightarrow> nat \<Rightarrow> fault + u8" where
  "byte_at data i = (if i < length data then Inr (data ! i) else Inl Oob_read)"

definition word_at :: "u8 list \<Rightarrow> nat \<Rightarrow> fault + u16" where
  "word_at data i =
     try_then (byte_at data i) (\<lambda>a. try_then (byte_at data (Suc i)) (\<lambda>b.
       Inr (push_bit 8 (ucast a) OR ucast b)))"

text \<open>The payload behind the transport header, and the ports and headers of TCP and UDP.\<close>

definition payload_from :: "u32 \<Rightarrow> u32 \<Rightarrow> nat \<Rightarrow> u32 \<Rightarrow> ParsedPacket \<Rightarrow> ParsedPacket" where
  "payload_from len ip_header_len transport transport_header_len result =
     (let offset = 14 + ip_header_len + transport_header_len in
      if offset \<ge> len then result
      else result\<lparr>pp_app_data := Some (transport + unat transport_header_len),
                  pp_app_len := len - offset, pp_valid := len - offset > 0\<rparr>)"

definition parse_transport :: "u8 list \<Rightarrow> u32 \<Rightarrow> u32 \<Rightarrow> u8 \<Rightarrow> fault + ParsedPacket" where
  "parse_transport data len ip_header_len protocol =
     (let transport = 14 + unat ip_header_len in
      try_then (word_at data transport) (\<lambda>sp. try_then (word_at data (transport + 2)) (\<lambda>dp.
        let result = ParsedPacket_none\<lparr>pp_src_port := sp, pp_dst_port := dp\<rparr> in
        if protocol = 6 then
          if len < 14 + ip_header_len + 12 then Inr result
          else try_then (byte_at data (transport + 12)) (\<lambda>b.
            Inr (payload_from len ip_header_len transport (ucast (drop_bit 4 b AND 0x0F) * 4) result))
        else if protocol = 17 then Inr (payload_from len ip_header_len transport 8 result)
        else Inr result)))"

definition parse_packet_data :: "u8 list \<Rightarrow> u32 \<Rightarrow> fault + ParsedPacket" where
  "parse_packet_data data len =
     (let eth_header_len = 14 in
      if len < eth_header_len then Inr ParsedPacket_none
      else try_then (word_at data 12) (\<lambda>eth_type.
        if eth_type \<noteq> 0x0800 then Inr ParsedPacket_none
        else if len < eth_header_len + 20 then Inr ParsedPacket_none
        else try_then (byte_at data 14) (\<lambda>b0. try_then (byte_at data 23) (\<lambda>protocol.
          let ip_header_len = ucast (b0 AND 0x0F) * 4 :: u32 in
          if len < eth_header_len + ip_header_len then Inr ParsedPacket_none
          else if len < eth_header_len + ip_header_len + 4 then Inr ParsedPacket_none
          else parse_transport data len ip_header_len protocol))))"

section \<open>Filtering a capture file\<close>

text \<open>The two tries of the match, with the destination and the source port.\<close>

definition match_ports ::
  "u8 list \<Rightarrow> u32 \<Rightarrow> u16 \<Rightarrow> u16 \<Rightarrow> ProtocolDef \<Rightarrow> fault + bool \<times> ProtocolDef" where
  "match_ports app n dst src p =
     try_then (packet_filter_match (Some app) n dst p) (\<lambda>(found, p1).
       if found then Inr (True, p1) else packet_filter_match (Some app) n src p1)"

text \<open>One round of the loop over the packets: the protocol, the packets kept and the two counters.\<close>

definition filter_one ::
  "packet \<Rightarrow> ProtocolDef \<times> packet list \<times> u64 \<times> u64 \<Rightarrow> fault + ProtocolDef \<times> packet list \<times> u64 \<times> u64" where
  "filter_one pkt s =
     (case s of (p, out, n_total, n_matched) \<Rightarrow>
        try_then (parse_packet_data (snd pkt) (caplen (fst pkt))) (\<lambda>parsed.
          if \<not> pp_valid parsed \<or> pp_app_len parsed = 0 then Inr (p, out, n_total + 1, n_matched)
          else case pp_app_data parsed of
                 None \<Rightarrow> Inr (p, out, n_total + 1, n_matched)
               | Some off \<Rightarrow>
                   try_then (match_ports (drop off (snd pkt)) (pp_app_len parsed)
                              (pp_dst_port parsed) (pp_src_port parsed) p) (\<lambda>(found, p1).
                     if found then Inr (p1, out @ [pkt], n_total + 1, n_matched + 1)
                     else Inr (p1, out, n_total + 1, n_matched))))"

fun filter_packets ::
  "packet list \<Rightarrow> ProtocolDef \<times> packet list \<times> u64 \<times> u64 \<Rightarrow> fault + ProtocolDef \<times> packet list \<times> u64 \<times> u64" where
  "filter_packets [] s = Inr s"
| "filter_packets (pkt # pkts) s = try_then (filter_one pkt s) (filter_packets pkts)"

definition filtered_path_of :: "string \<Rightarrow> string" where
  "filtered_path_of path =
     (case find_str ''_raw.pcap'' path of
        Some i \<Rightarrow> take i path @ ''.pcap'' @ drop (i + 9) path
      | None \<Rightarrow> path @ ''.filtered'')"

text \<open>Loading the definition: the null pointer on an error, a fault of the loader is one of the program.\<close>

definition load_pdef :: "string \<Rightarrow> string \<Rightarrow> (string \<Rightarrow> string option) \<Rightarrow> fault + ProtocolDef option" where
  "load_pdef inline path contents =
     (let result = (\<lambda>r. case r of Inr p \<Rightarrow> Inr (Some p) | Inl (Memory_fault f) \<Rightarrow> Inl f | Inl _ \<Rightarrow> Inr None) in
      if inline \<noteq> [] then result (pdef_parse_string inline)
      else if path \<noteq> [] then result (pdef_parse_file path (contents path))
      else Inr None)"

text \<open>\<open>int\<close> values of the byte order.\<close>

fun endian_value :: "EndianType \<Rightarrow> int" where
  "endian_value ENDIAN_TYPE_UNKNOWN = 0"
| "endian_value ENDIAN_TYPE_BIG = 1"
| "endian_value ENDIAN_TYPE_LITTLE = 2"

definition endian_detected_msg :: "string \<Rightarrow> EndianType \<Rightarrow> int \<Rightarrow> SRxPdefEndianMsg" where
  "endian_detected_msg path e capture_id =
     \<lparr>pe_file_path = strncpy_z 255 path, pe_detected_endian = endian_value e, pe_capture_id = capture_id\<rparr>"

record filter_env =
  fe_now :: int
  fe_thread_index :: u32
  fe_opens :: "string \<Rightarrow> bool"
  fe_stat :: "dump_io \<Rightarrow> string \<Rightarrow> u64 option"
  fe_unlink :: "string \<Rightarrow> bool"
  fe_contents :: "string \<Rightarrow> string option"

type_synonym outbox = "(u32 \<times> rx_msg) list"

definition filtered_msg ::
  "filter_env \<Rightarrow> SRxCaptureRawFileMsgV2 \<Rightarrow> string \<Rightarrow> u64 \<Rightarrow> u64 \<Rightarrow> u64 option \<Rightarrow> SRxCaptureFilteredFileMsgV2" where
  "filtered_msg env raw path n_total n_matched st =
     \<lparr>cm_msg_op = RX_MSG_CAPTURE_FILTERED_FILE, cm_capture_id = cm_capture_id raw, cm_key = cm_key raw,
      cm_sid = cm_sid raw, cm_op_version = 1, cm_ts_usec = fe_now env, cm_config_hash = 0,
      cm_sender_thread_index = sint (fe_thread_index env), filtered_pcap_path = path,
      filtered_total_packets = n_total, filtered_filtered_packets = n_matched,
      filtered_file_size = (case st of Some n \<Rightarrow> n | None \<Rightarrow> 0),
      filtered_pdef_file_path = raw_pdef_file_path raw\<rparr>"

text \<open>
  \<open>pcap_open_offline\<close> succeeds when the file exists.  The raw file is removed when \<open>unlink\<close>
  succeeds.
\<close>

definition handle_raw_file ::
  "filter_env \<Rightarrow> SRxCaptureRawFileMsgV2 \<Rightarrow> dump_io \<Rightarrow> fault + dump_io \<times> outbox" where
  "handle_raw_file env raw io =
     (if \<not> raw_has_pdef_filter raw then Inr (io, [])
      else try_then (load_pdef (raw_pdef_inline_content raw) (raw_pdef_file_path raw) (fe_contents env)) (\<lambda>pdef.
        case pdef of
          None \<Rightarrow> Inr (io, [])
        | Some p \<Rightarrow>
            (case io_files io (raw_pcap_path raw) of
               None \<Rightarrow> Inr (io, [])
             | Some packets \<Rightarrow>
                 (let filtered_path = filtered_path_of (raw_pcap_path raw) in
                  case pcap_dump_open (fe_opens env) filtered_path io of
                    (None, io1) \<Rightarrow> Inr (io1, [])
                  | (Some d, io1) \<Rightarrow>
                      try_then (filter_packets packets (p, [], 0, 0)) (\<lambda>(p1, out, n_total, n_matched).
                        let io2 = io1\<lparr>io_files := (io_files io1)(filtered_path \<mapsto> out)\<rparr>;
                            io3 = (if fe_unlink env (raw_pcap_path raw)
                                   then io2\<lparr>io_files := (io_files io2)(raw_pcap_path raw := None)\<rparr> else io2);
                            target = word_of_int (raw_manager_thread_index raw);
                            msg = M_Filtered_file (filtered_msg env raw filtered_path n_total n_matched
                                    (fe_stat env io3 filtered_path));
                            detected = endian_mode p1 = ENDIAN_MODE_AUTO \<and>
                              detected_endian p1 \<noteq> ENDIAN_TYPE_UNKNOWN \<and> raw_pdef_file_path raw \<noteq> []
                        in Inr (io3, (target, msg) #
                             (if detected then [(target, M_Pdef_endian (endian_detected_msg
                                (raw_pdef_file_path raw) (detected_endian p1) (cm_capture_id raw)))] else [])))))))"

section \<open>Filtering single packets\<close>

record SRxPacketMsg =
  pm_header :: pcap_pkthdr
  pm_data :: "u8 list"
  pm_src_port :: u16
  pm_dst_port :: u16
  pm_app_offset :: u32
  pm_app_len :: u32
  pm_valid :: bool
  pm_writer_thread_index :: u32

record FilterStats =
  packets_processed :: u64
  packets_matched :: u64
  packets_filtered :: u64
  queue_empty_count :: u64
  output_queue_full_count :: u64

definition FilterStats_new :: FilterStats where
  "FilterStats_new = \<lparr>packets_processed = 0, packets_matched = 0, packets_filtered = 0,
     queue_empty_count = 0, output_queue_full_count = 0\<rparr>"

text \<open>The thread with what it points to; \<open>None\<close> is a null pointer.\<close>

record CRxFilterThread =
  ft_protocol_def :: "ProtocolDef option"
  ft_dump_ctx :: "CRxDumpCtx option"
  ft_stats :: FilterStats

definition filter_thread_new :: CRxFilterThread where
  "filter_thread_new = \<lparr>ft_protocol_def = None, ft_dump_ctx = None, ft_stats = FilterStats_new\<rparr>"

definition filter_init ::
  "ProtocolDef option \<Rightarrow> CRxDumpCtx option \<Rightarrow> CRxFilterThread \<Rightarrow> bool \<times> CRxFilterThread" where
  "filter_init p dc t =
     (if dc = None then (False, t) else (True, t\<lparr>ft_protocol_def := p, ft_dump_ctx := dc\<rparr>))"

definition apply_filter :: "SRxPacketMsg \<Rightarrow> ProtocolDef option \<Rightarrow> fault + bool \<times> ProtocolDef option" where
  "apply_filter pkt pd =
     (if \<not> pm_valid pkt then Inr (False, pd)
      else case pd of
             None \<Rightarrow> Inr (True, None)
           | Some p \<Rightarrow>
               if pm_app_len pkt = 0 then Inr (False, pd)
               else try_then (match_ports (drop (unat (pm_app_offset pkt)) (pm_data pkt)) (pm_app_len pkt)
                               (pm_dst_port pkt) (pm_src_port pkt) p) (\<lambda>(found, p1).
                      Inr (found, Some p1)))"

definition write_packet ::
  "clock \<Rightarrow> (string \<Rightarrow> bool) \<Rightarrow> SRxPacketMsg \<Rightarrow> CRxDumpCtx option \<times> dump_io \<Rightarrow> fault + CRxDumpCtx option \<times> dump_io" where
  "write_packet ck opens pkt s =
     (case s of
        (None, io) \<Rightarrow> Inr (None, io)
      | (Some dc, io) \<Rightarrow>
          if dc_d dc = None then Inr (Some dc, io)
          else let p = (pm_header pkt, take (unat (caplen (pm_header pkt))) (pm_data pkt));
                   full = dc_max_bytes dc > 0 \<and> dc_written dc + pkt_bytes p > dc_max_bytes dc;
                   (dc1, io1) = (if full then rotate_open ck opens (dc, io) else (dc, io))
               in if dc_d dc1 = None then Inr (Some dc1, io1)
                  else if length (pm_data pkt) < unat (caplen (pm_header pkt)) then Inl Oob_read
                  else try_then (pcap_dump (dc_d dc1) p io1) (\<lambda>io2.
                    Inr (Some (dc1\<lparr>dc_written := dc_written dc1 + pkt_bytes p\<rparr>), io2)))"

text \<open>
  The request to write a detected byte order back into the definition file: sent by whoever swaps
  \<open>endian_writeback_done\<close> from 0 to 1, when there is a reload thread and the definition has a file.
\<close>

definition endian_writeback ::
  "u32 option \<Rightarrow> EndianType \<Rightarrow> ProtocolDef \<Rightarrow> ProtocolDef \<times> outbox" where
  "endian_writeback reload before p =
     (if endian_mode p = ENDIAN_MODE_AUTO \<and> before = ENDIAN_TYPE_UNKNOWN \<and>
         detected_endian p \<noteq> ENDIAN_TYPE_UNKNOWN
      then if endian_writeback_done p then (p, [])
           else (p\<lparr>endian_writeback_done := True\<rparr>,
                 case reload of
                   Some i \<Rightarrow> if pdef_file_path p \<noteq> []
                     then [(i, M_Pdef_endian (endian_detected_msg (pdef_file_path p) (detected_endian p) 0))]
                     else []
                 | None \<Rightarrow> [])
      else (p, []))"

definition endian_before :: "CRxFilterThread \<Rightarrow> EndianType" where
  "endian_before t =
     (case ft_protocol_def t of
        Some p \<Rightarrow> if endian_mode p = ENDIAN_MODE_AUTO then detected_endian p else ENDIAN_TYPE_UNKNOWN
      | None \<Rightarrow> ENDIAN_TYPE_UNKNOWN)"

definition request_writeback ::
  "u32 option \<Rightarrow> EndianType \<Rightarrow> ProtocolDef option \<Rightarrow> ProtocolDef option \<times> outbox" where
  "request_writeback reload before pd =
     (case pd of
        None \<Rightarrow> (None, [])
      | Some p \<Rightarrow> (case endian_writeback reload before p of (p1, msgs) \<Rightarrow> (Some p1, msgs)))"

definition handle_packet_captured ::
  "clock \<Rightarrow> (string \<Rightarrow> bool) \<Rightarrow> u32 option \<Rightarrow> SRxPacketMsg \<Rightarrow> CRxFilterThread \<times> dump_io \<Rightarrow>
   fault + (CRxFilterThread \<times> dump_io) \<times> outbox" where
  "handle_packet_captured ck opens reload pkt s =
     (case s of (t, io) \<Rightarrow>
        (let stats1 = (ft_stats t)\<lparr>packets_processed := packets_processed (ft_stats t) + 1\<rparr> in
         try_then (apply_filter pkt (ft_protocol_def t)) (\<lambda>(found, pd1).
           let (pd2, msgs) = request_writeback reload (endian_before t) pd1
           in if found
              then try_then (write_packet ck opens pkt (ft_dump_ctx t, io)) (\<lambda>(dc1, io1).
                Inr ((\<lparr>ft_protocol_def = pd2, ft_dump_ctx = dc1,
                       ft_stats = stats1\<lparr>packets_matched := packets_matched stats1 + 1\<rparr>\<rparr>, io1), msgs))
              else Inr ((t\<lparr>ft_protocol_def := pd2,
                          ft_stats := stats1\<lparr>packets_filtered := packets_filtered stats1 + 1\<rparr>\<rparr>, io), msgs))))"

fun handle_packets ::
  "clock \<Rightarrow> (string \<Rightarrow> bool) \<Rightarrow> u32 option \<Rightarrow> SRxPacketMsg list \<Rightarrow> CRxFilterThread \<times> dump_io \<Rightarrow>
   fault + (CRxFilterThread \<times> dump_io) \<times> outbox" where
  "handle_packets ck opens reload [] s = Inr (s, [])"
| "handle_packets ck opens reload (pkt # pkts) s =
     try_then (handle_packet_captured ck opens reload pkt s) (\<lambda>(s1, ms).
     try_then (handle_packets ck opens reload pkts s1) (\<lambda>(s2, ms'). Inr (s2, ms @ ms')))"

end
