(* ===== verification/Packet_Filter_Facts.thy ===== *)
theory Packet_Filter_Facts
  imports Packet_Filter Pdef_Examples
begin

text \<open>
  What holds of \<open>Packet_Filter\<close>: where the parser of frames finds the payload and the one length at
  which it reads past the packet, the packets a filtered capture file keeps, and the counters and
  write-back requests of the thread.
\<close>

section \<open>Parsing stays inside the packet\<close>

text \<open>The TCP frame cut right before the byte that holds the header length.\<close>

definition tcp_cut :: "u8 list \<Rightarrow> bool" where
  "tcp_cut data \<longleftrightarrow> 34 \<le> length data \<and> data ! 12 = 8 \<and> data ! 13 = 0 \<and> data ! 23 = 6 \<and>
     length data = 26 + 4 * unat (data ! 14 AND 0x0F)"

lemma byte_lt: "unat (b :: u8) < 256"
  using unsigned_less [of b] by simp

lemma ether_type_ip: "push_bit 8 (ucast (a :: u8)) OR ucast (b :: u8) = (0x0800 :: u16) \<longleftrightarrow> a = 8 \<and> b = 0"
proof -
  have v: "unat (push_bit 8 (ucast a) OR ucast b :: u16) = unat b + 256 * unat a"
    using le_word_2 [of b a] by (simp add: or.commute)
  have "push_bit 8 (ucast a) OR ucast b = (0x0800 :: u16) \<longleftrightarrow> unat b + 256 * unat a = 2048"
    by (simp add: v word_unat_eq_iff)
  also have "\<dots> \<longleftrightarrow> unat a = 8 \<and> unat b = 0"
    using byte_lt [of a] byte_lt [of b] by presburger
  finally show ?thesis by (simp add: word_unat_eq_iff)
qed

text \<open>The four bits of a header length, times four.\<close>

lemma nibble_le: "unat (b AND 0x0F :: u8) \<le> 15"
  using word_and_le1 [of b "0x0F"] by (simp add: word_le_nat_alt)

lemma header_len: "unat (ucast (b AND 0x0F :: u8) * 4 :: u32) = 4 * unat (b AND 0x0F)"
  using nibble_le [of b] by (simp add: unat_word_ariths unat_plain_byte)

lemma byte_at_simps [simp]:
  "i < length data \<Longrightarrow> byte_at data i = Inr (data ! i)"
  "\<not> i < length data \<Longrightarrow> byte_at data i = Inl Oob_read"
  by (simp_all add: byte_at_def)

lemma word_at_simp [simp]:
  "Suc i < length data \<Longrightarrow> word_at data i = Inr (push_bit 8 (ucast (data ! i)) OR ucast (data ! Suc i))"
  by (simp add: word_at_def)

text \<open>What a parse returns: a payload that ends the packet, or a fault on exactly the cut frame.\<close>

definition parse_ok :: "bool \<Rightarrow> nat \<Rightarrow> fault + ParsedPacket \<Rightarrow> bool" where
  "parse_ok short n r \<longleftrightarrow>
     (case r of
        Inl f \<Rightarrow> f = Oob_read \<and> short
      | Inr parsed \<Rightarrow> \<not> short \<and>
          (pp_valid parsed \<longrightarrow> (\<exists>off. pp_app_data parsed = Some off \<and> 14 \<le> off \<and>
             off + unat (pp_app_len parsed) = n \<and> 0 < unat (pp_app_len parsed))))"

lemma payload_from_ok:
  assumes "unat h \<le> 60" "unat t \<le> 60" "\<not> pp_valid result"
  shows "parse_ok False (unat len) (Inr (payload_from len h (14 + unat h) t result))"
proof -
  have o: "unat (14 + h + t) = 14 + unat h + unat t"
    using assms(1,2) by (simp add: unat_add_no_wrap)
  then show ?thesis using assms
    by (auto simp: parse_ok_def payload_from_def Let_def unat_sub word_le_nat_alt word_less_nat_alt)
qed

lemma parse_transport_ok:
  assumes len: "length data = unat len" and h: "unat h \<le> 60" and room: "18 + unat h \<le> length data"
  shows "parse_ok (protocol = 6 \<and> length data = 26 + unat h) (length data)
    (parse_transport data len h protocol)"
proof -
  have b: "unat (14 + h + 12) = 26 + unat h" using h by (simp add: unat_add_no_wrap)
  have tcp: "len < 14 + h + 12 \<longleftrightarrow> length data < 26 + unat h"
    by (simp only: word_less_nat_alt b len)
  have nib: "unat (ucast (x AND 0x0F :: u8) * 4 :: u32) \<le> 60" for x
    using nibble_le [of x] by (simp add: header_len)
  have none: "parse_ok False (length data) (Inr (ParsedPacket_none\<lparr>pp_src_port := sp, pp_dst_port := dp\<rparr>))" for sp dp
    by (simp add: parse_ok_def ParsedPacket_none_def)
  have payload: "parse_ok False (length data) (Inr (payload_from len h (14 + unat h) t
      (ParsedPacket_none\<lparr>pp_src_port := sp, pp_dst_port := dp\<rparr>)))" if "unat t \<le> 60" for t sp dp
    unfolding len using h that by (rule payload_from_ok) (simp add: ParsedPacket_none_def)
  show ?thesis
  proof (cases "length data = 26 + unat h")
    case True
    then show ?thesis using room tcp payload [of 8] none
      by (simp add: parse_transport_def Let_def) (simp add: parse_ok_def)
  next
    case False
    then show ?thesis using room tcp payload nib none
      by (simp add: parse_transport_def Let_def)
  qed
qed

lemma parse_packet_ok:
  assumes len: "length data = unat len"
  shows "parse_ok (tcp_cut data) (length data) (parse_packet_data data len)"
proof (cases "length data < 34 \<or> data ! 12 \<noteq> 8 \<or> data ! 13 \<noteq> 0")
  case True
  then show ?thesis using len
    by (auto simp: parse_packet_data_def parse_ok_def tcp_cut_def ParsedPacket_none_def word_less_nat_alt
        ether_type_ip Let_def)
next
  case False
  define h where "h = (ucast (data ! 14 AND 0x0F) * 4 :: u32)"
  have h: "unat h = 4 * unat (data ! 14 AND 0x0F)" by (simp add: h_def header_len)
  have h60: "unat h \<le> 60" using nibble_le [of "data ! 14"] by (simp add: h)
  have sums: "unat (14 + h) = 14 + unat h" "unat (14 + h + 4) = 18 + unat h"
    using h60 by (simp_all add: unat_add_no_wrap)
  have room: "len < 14 + h \<longleftrightarrow> length data < 14 + unat h"
    "len < 14 + h + 4 \<longleftrightarrow> length data < 18 + unat h"
    by (simp_all only: word_less_nat_alt sums len)
  have l: "\<not> len < 14" "\<not> len < 34" using False len by (simp_all add: word_less_nat_alt)
  have parse: "parse_packet_data data len = (if length data < 18 + unat h then Inr ParsedPacket_none
      else parse_transport data len h (data ! 23))"
    using False l room by (simp add: parse_packet_data_def ether_type_ip h_def [symmetric])
  have cut: "tcp_cut data \<longleftrightarrow> data ! 23 = 6 \<and> length data = 26 + unat h"
    using False by (auto simp: tcp_cut_def h)
  show ?thesis
  proof (cases "length data < 18 + unat h")
    case True
    then show ?thesis by (simp add: parse cut parse_ok_def ParsedPacket_none_def)
  next
    case False
    then show ?thesis using parse_transport_ok [OF len h60, of "data ! 23"] by (simp add: parse cut)
  qed
qed

section \<open>Matching after detection\<close>

text \<open>
  A protocol as it may be later in the run: with the byte order it has, or the one detected since.
  A packet gets the same verdict from the later protocol.
\<close>

definition settles :: "ProtocolDef \<Rightarrow> ProtocolDef \<Rightarrow> bool" where
  "settles p q \<longleftrightarrow> q = p \<or>
     (detected_endian p = ENDIAN_TYPE_UNKNOWN \<and> (\<exists>e. e \<noteq> ENDIAN_TYPE_UNKNOWN \<and> q = p\<lparr>detected_endian := e\<rparr>))"

lemma settles_refl [simp]: "settles p p"
  by (simp add: settles_def)

lemma settles_trans: "settles p q \<Longrightarrow> settles q r \<Longrightarrow> settles p r"
  by (auto simp: settles_def)

lemma settles_filters: "settles p q \<Longrightarrow> filters q = filters p"
  by (auto simp: settles_def)

lemma detects_settles: "detects p (b, p1) \<Longrightarrow> settles p p1"
  by (auto simp: detects_def settles_def)

text \<open>The verdict as a function of the two runs, over the two fields it depends on.\<close>

definition two_runs :: "fault + bool \<Rightarrow> fault + bool \<Rightarrow> ProtocolDef \<Rightarrow> match_result" where
  "two_runs be le p =
     (if endian_mode p = ENDIAN_MODE_BIG \<or> endian_mode p = ENDIAN_MODE_AUTO \<and> detected_endian p = ENDIAN_TYPE_BIG
      then pure_match p be
      else if endian_mode p = ENDIAN_MODE_LITTLE \<or>
        endian_mode p = ENDIAN_MODE_AUTO \<and> detected_endian p = ENDIAN_TYPE_LITTLE
      then pure_match p le
      else try_then be (\<lambda>b. if b then Inr (True, p\<lparr>detected_endian := ENDIAN_TYPE_BIG\<rparr>)
        else try_then le (\<lambda>l. if l then Inr (True, p\<lparr>detected_endian := ENDIAN_TYPE_LITTLE\<rparr>) else Inr (False, p))))"

lemma try_match_two_runs:
  "\<exists>be le. \<forall>p. try_match_with_endian (Some pkt) n rule p = two_runs be le p"
proof -
  let ?be = "execute_bytecode (Some pkt) n
    (if r_bytecode_be rule \<noteq> None then r_bytecode_be rule else r_bytecode rule)
    (if r_bytecode_be_len rule \<noteq> 0 then r_bytecode_be_len rule else r_bytecode_len rule)"
  let ?le = "execute_bytecode (Some pkt) n
    (if r_bytecode_le rule \<noteq> None then r_bytecode_le rule else r_bytecode rule)
    (if r_bytecode_le_len rule \<noteq> 0 then r_bytecode_le_len rule else r_bytecode_len rule)"
  have "try_match_with_endian (Some pkt) n rule p = two_runs ?be ?le p" for p
    unfolding try_match_with_endian_def two_runs_def Let_def
    by (cases "endian_mode p"; cases "detected_endian p"; simp add: cas_detected_def cong: if_cong sum.case_cong)
  then show ?thesis by blast
qed

lemma two_runs_known:
  assumes "endian_mode p \<noteq> ENDIAN_MODE_AUTO \<or> detected_endian p \<noteq> ENDIAN_TYPE_UNKNOWN"
    and "two_runs be le p = Inr (b, p1)" "settles p1 q"
  shows "two_runs be le q = Inr (b, q)"
proof -
  have "p1 = p" using assms(1,2)
    by (cases "endian_mode p"; cases "detected_endian p"; simp add: two_runs_def pure_match_def try_then_Inr_iff)
  then consider "q = p" | "endian_mode p \<noteq> ENDIAN_MODE_AUTO" "endian_mode q = endian_mode p"
    using assms(1,3) by (auto simp: settles_def)
  then show ?thesis
  proof cases
    case 1
    then show ?thesis using assms(2) \<open>p1 = p\<close> by simp
  next
    case 2
    then show ?thesis using assms(2)
      by (cases "endian_mode p") (auto simp: two_runs_def pure_match_def try_then_Inr_iff)
  qed
qed

lemma two_runs_settled:
  assumes run: "two_runs be le p = Inr (b, p1)" and later: "settles p1 q"
  shows "two_runs be le q = Inr (b, q)"
proof (cases "endian_mode p = ENDIAN_MODE_AUTO \<and> detected_endian p = ENDIAN_TYPE_UNKNOWN")
  case False
  then show ?thesis using two_runs_known [OF _ run later] by blast
next
  case True
  then have split: "try_then be (\<lambda>b. if b then Inr (True, p\<lparr>detected_endian := ENDIAN_TYPE_BIG\<rparr>)
      else try_then le (\<lambda>l. if l then Inr (True, p\<lparr>detected_endian := ENDIAN_TYPE_LITTLE\<rparr>) else Inr (False, p))) =
      Inr (b, p1)"
    using run by (simp add: two_runs_def)
  show ?thesis
  proof (cases "be = Inr True \<or> le = Inr True \<and> be = Inr False")
    case found: True
    then have "b" "q = p1" using split later by (auto simp: settles_def)
    then show ?thesis using split found True by (auto simp: two_runs_def pure_match_def)
  next
    case False
    then have "be = Inr False" "le = Inr False" "\<not> b" "p1 = p"
      using split by (auto simp: try_then_Inr_iff split: if_splits)
    moreover have "endian_mode q = ENDIAN_MODE_AUTO" using later True \<open>p1 = p\<close> by (auto simp: settles_def)
    ultimately show ?thesis by (simp add: two_runs_def pure_match_def)
  qed
qed

lemma detects_not: "detects p (b, p1) \<Longrightarrow> \<not> b \<Longrightarrow> p1 = p"
  by (simp add: detects_def)

lemma try_match_settled:
  assumes "try_match_with_endian (Some pkt) n rule p = Inr (b, p1)" "settles p1 q"
  shows "try_match_with_endian (Some pkt) n rule q = Inr (b, q)"
proof -
  obtain be le where "\<forall>p. try_match_with_endian (Some pkt) n rule p = two_runs be le p"
    using try_match_two_runs by blast
  then show ?thesis using assms two_runs_settled by simp
qed

lemma scan_offsets_settled:
  "scan_offsets pkt plen rule limit off p = Inr (b, p1) \<Longrightarrow> settles p1 q \<Longrightarrow>
   scan_offsets pkt plen rule limit off q = Inr (b, q)"
proof (induction pkt plen rule limit off p arbitrary: b p1 rule: scan_offsets.induct)
  case (1 pkt plen rule limit off p)
  show ?case
  proof (cases "off < limit \<and> \<not> plen - off < r_min_packet_size rule")
    case False
    then show ?thesis using "1.prems" by (auto simp: scan_offsets.simps [of pkt] split: if_splits)
  next
    case True
    then obtain found p2 where t: "try_match_with_endian (Some (drop (unat off) pkt)) (plen - off) rule p
        = Inr (found, p2)" and
      r: "(if found then Inr (True, p2) else scan_offsets pkt plen rule limit (off + 1) p2) = Inr (b, p1)"
      using "1.prems"(1) by (auto simp: scan_offsets.simps [of pkt _ _ _ off p] Let_def try_then_Inr_iff)
    show ?thesis
    proof (cases found)
      case f: True
      then have "try_match_with_endian (Some (drop (unat off) pkt)) (plen - off) rule q = Inr (True, q)"
        using t r try_match_settled "1.prems"(2) by fastforce
      then show ?thesis using True r f by (simp add: scan_offsets.simps [of pkt _ _ _ off q])
    next
      case f: False
      then have "p2 = p" using detects_not [OF try_match_detects [OF t]] by blast
      then have rest: "scan_offsets pkt plen rule limit (off + 1) p = Inr (b, p1)" using r f by simp
      have "settles p q"
        using scan_offsets_detects [OF rest] detects_settles settles_trans "1.prems"(2) by blast
      then have "try_match_with_endian (Some (drop (unat off) pkt)) (plen - off) rule q = Inr (False, q)"
        using try_match_settled [OF t] \<open>p2 = p\<close> f by simp
      moreover have "scan_offsets pkt plen rule limit (off + 1) q = Inr (b, q)"
        using "1.IH" [OF _ refl _ t refl f] True \<open>p2 = p\<close> rest "1.prems"(2) by simp
      ultimately show ?thesis using True by (simp add: scan_offsets.simps [of pkt _ _ _ off q])
    qed
  qed
qed

lemma match_rule_settled:
  "match_rule pkt plen rule p = Inr (b, p1) \<Longrightarrow> settles p1 q \<Longrightarrow> match_rule pkt plen rule q = Inr (b, q)"
  by (simp add: match_rule_def scan_offsets_settled try_match_settled split: if_splits)

lemma match_rule_detects: "match_rule pkt plen rule p = Inr r \<Longrightarrow> detects p r"
  by (auto simp: match_rule_def split: if_splits intro: scan_offsets_detects try_match_detects)

lemma match_rules_settled:
  "match_rules pkt plen rules p = Inr (b, p1) \<Longrightarrow> settles p1 q \<Longrightarrow>
   match_rules pkt plen rules q = Inr (b, q)"
proof (induction rules)
  case (Cons rule rules)
  from Cons.prems(1) obtain found p2 where m: "match_rule pkt plen rule p = Inr (found, p2)"
    and r: "(if found then Inr (True, p2) else match_rules pkt plen rules p2) = Inr (b, p1)"
    by (auto simp: try_then_Inr_iff)
  show ?case
  proof (cases found)
    case True
    then show ?thesis using m r match_rule_settled [OF m] Cons.prems(2) by simp
  next
    case False
    then have p2: "p2 = p" using detects_not [OF match_rule_detects [OF m]] by blast
    then have rest: "match_rules pkt plen rules p = Inr (b, p1)" using r False by simp
    have "settles p q"
      using match_rules_detects [OF rest] detects_settles settles_trans Cons.prems(2) by blast
    then show ?thesis using match_rule_settled [OF m] p2 False Cons.IH [OF rest Cons.prems(2)] by simp
  qed
qed simp

lemma packet_filter_match_settled:
  assumes m: "packet_filter_match packet plen port p = Inr (b, p1)" and "settles p1 q"
  shows "packet_filter_match packet plen port q = Inr (b, q)"
proof (cases packet)
  case (Some pkt)
  have "settles p q"
    using detects_settles [OF packet_filter_match_detects [OF m]] assms(2) settles_trans by blast
  then show ?thesis using m match_rules_settled [OF _ assms(2)] settles_filters Some
    by (simp add: packet_filter_match_def)
qed (use m in \<open>simp add: packet_filter_match_def\<close>)

text \<open>The second try of a packet, with its source port, repeats the first one.\<close>

lemma match_ports_once: "match_ports app n dst src p = packet_filter_match (Some app) n dst p"
  using packet_filter_match_detects [of "Some app" n dst p] detects_False
  by (fastforce simp: match_ports_def packet_filter_match_def split: sum.splits prod.splits)

section \<open>The filtered file\<close>

definition keeps :: "ProtocolDef \<Rightarrow> packet \<Rightarrow> bool" where
  "keeps p pkt \<longleftrightarrow>
     (case parse_packet_data (snd pkt) (caplen (fst pkt)) of
        Inl _ \<Rightarrow> False
      | Inr r \<Rightarrow> pp_valid r \<and> pp_app_len r \<noteq> 0 \<and>
          (case pp_app_data r of
             None \<Rightarrow> False
           | Some off \<Rightarrow>
               (case packet_filter_match (Some (drop off (snd pkt))) (pp_app_len r) (pp_dst_port r) p of
                  Inl _ \<Rightarrow> False
                | Inr (b, _) \<Rightarrow> b)))"

lemma filter_one_keeps:
  assumes "filter_one pkt (p, out, n, m) = Inr (p1, out1, n1, m1)"
  shows "settles p p1 \<and> n1 = n + 1 \<and>
    (\<forall>q. settles p1 q \<longrightarrow> out1 = out @ filter (keeps q) [pkt] \<and> m1 = m + of_nat (length (filter (keeps q) [pkt])))"
proof -
  obtain r where r: "parse_packet_data (snd pkt) (caplen (fst pkt)) = Inr r"
    using assms by (auto simp: filter_one_def try_then_Inr_iff)
  show ?thesis
  proof (cases "pp_valid r \<and> pp_app_len r \<noteq> 0 \<and> pp_app_data r \<noteq> None")
    case False
    then show ?thesis using assms r by (auto simp: filter_one_def keeps_def split: option.splits if_splits)
  next
    case True
    then obtain off where off: "pp_app_data r = Some off" by auto
    then obtain b where m: "packet_filter_match (Some (drop off (snd pkt))) (pp_app_len r) (pp_dst_port r) p = Inr (b, p1)"
      and out: "out1 = (if b then out @ [pkt] else out)" "m1 = (if b then m + 1 else m)" "n1 = n + 1"
      using assms True r
      by (auto simp: filter_one_def match_ports_once try_then_Inr_iff split: if_splits)
    have "keeps q pkt = b" if "settles p1 q" for q
      using True r off packet_filter_match_settled [OF m that] by (simp add: keeps_def)
    then show ?thesis using out detects_settles [OF packet_filter_match_detects [OF m]] by simp
  qed
qed

lemma filter_packets_keeps:
  "filter_packets pkts (p, out, n, m) = Inr (p1, out1, n1, m1) \<Longrightarrow>
   settles p p1 \<and> n1 = n + of_nat (length pkts) \<and> out1 = out @ filter (keeps p1) pkts \<and>
   m1 = m + of_nat (length (filter (keeps p1) pkts))"
proof (induction pkts arbitrary: p out n m)
  case (Cons pkt pkts)
  then obtain p2 out2 n2 m2 where one: "filter_one pkt (p, out, n, m) = Inr (p2, out2, n2, m2)"
    and rest: "filter_packets pkts (p2, out2, n2, m2) = Inr (p1, out1, n1, m1)"
    by (auto simp: try_then_Inr_iff)
  have ih: "settles p2 p1 \<and> n1 = n2 + of_nat (length pkts) \<and> out1 = out2 @ filter (keeps p1) pkts \<and>
      m1 = m2 + of_nat (length (filter (keeps p1) pkts))"
    by (rule Cons.IH [OF rest])
  have now: "settles p p2 \<and> n2 = n + 1 \<and> out2 = out @ filter (keeps p1) [pkt] \<and>
      m2 = m + of_nat (length (filter (keeps p1) [pkt]))"
    using filter_one_keeps [OF one] ih by blast
  show ?case using ih now settles_trans [of p p2 p1] by (simp add: algebra_simps)
qed simp

text \<open>
  Which byte order automatic mode settles on: the first frame accepted in either order decides, and the order
  is one in which it is accepted.  Nothing else changes a definition.
\<close>

definition order_open :: "ProtocolDef \<Rightarrow> bool" where
  "order_open p \<longleftrightarrow> endian_mode p = ENDIAN_MODE_AUTO \<and> detected_endian p = ENDIAN_TYPE_UNKNOWN"

definition first_decides :: "(ProtocolDef \<Rightarrow> packet \<Rightarrow> bool) \<Rightarrow> packet list \<Rightarrow> ProtocolDef \<Rightarrow> ProtocolDef \<Rightarrow> bool" where
  "first_decides accepts pkts p p1 \<longleftrightarrow>
     (if \<not> order_open p then p1 = p
      else case dropWhile (\<lambda>pkt. \<not> accepts p pkt) pkts of
             [] \<Rightarrow> p1 = p
           | pkt # _ \<Rightarrow> accepts p1 pkt \<and> (\<exists>e. e \<noteq> ENDIAN_TYPE_UNKNOWN \<and> p1 = p\<lparr>detected_endian := e\<rparr>))"

lemma try_match_found:
  assumes "try_match_with_endian (Some pkt) n rule p = Inr (True, p1)" "order_open p"
  shows "detected_endian p1 \<noteq> ENDIAN_TYPE_UNKNOWN"
proof -
  obtain be le where "\<forall>p. try_match_with_endian (Some pkt) n rule p = two_runs be le p"
    using try_match_two_runs by blast
  then show ?thesis using assms
    by (auto simp: two_runs_def order_open_def try_then_Inr_iff pure_match_def split: if_splits)
qed

lemma scan_offsets_found:
  "scan_offsets pkt plen rule limit off p = Inr (True, p1) \<Longrightarrow> order_open p \<Longrightarrow> detected_endian p1 \<noteq> ENDIAN_TYPE_UNKNOWN"
proof (induction pkt plen rule limit off p arbitrary: p1 rule: scan_offsets.induct)
  case (1 pkt plen rule limit off p)
  then have go: "off < limit \<and> \<not> plen - off < r_min_packet_size rule"
    by (auto simp: scan_offsets.simps [of pkt] split: if_splits)
  then obtain found p2 where t: "try_match_with_endian (Some (drop (unat off) pkt)) (plen - off) rule p = Inr (found, p2)"
    and r: "(if found then Inr (True, p2) else scan_offsets pkt plen rule limit (off + 1) p2) = Inr (True, p1)"
    using "1.prems"(1) by (auto simp: scan_offsets.simps [of pkt] try_then_Inr_iff)
  show ?case
  proof (cases found)
    case True
    then show ?thesis using try_match_found t r "1.prems"(2) by simp
  next
    case False
    then have "p2 = p" using detects_not [OF try_match_detects [OF t]] by simp
    then show ?thesis using "1.IH" [OF _ refl _ t refl False] go r False "1.prems"(2) by simp
  qed
qed

lemma match_rule_found:
  "match_rule pkt plen rule p = Inr (True, p1) \<Longrightarrow> order_open p \<Longrightarrow> detected_endian p1 \<noteq> ENDIAN_TYPE_UNKNOWN"
  by (auto simp: match_rule_def dest: scan_offsets_found try_match_found split: if_splits)

lemma match_rules_found:
  "match_rules pkt plen rules p = Inr (True, p1) \<Longrightarrow> order_open p \<Longrightarrow> detected_endian p1 \<noteq> ENDIAN_TYPE_UNKNOWN"
proof (induction rules)
  case (Cons rule rules)
  then obtain found p2 where m: "match_rule pkt plen rule p = Inr (found, p2)"
    and r: "(if found then Inr (True, p2) else match_rules pkt plen rules p2) = Inr (True, p1)"
    by (auto simp: try_then_Inr_iff)
  show ?case
  proof (cases found)
    case True
    then show ?thesis using match_rule_found m r Cons.prems(2) by simp
  next
    case False
    then have "p2 = p" using detects_not [OF match_rule_detects [OF m]] by simp
    then show ?thesis using Cons.IH Cons.prems(2) r False by simp
  qed
qed simp

lemma packet_filter_match_found:
  "packet_filter_match packet plen port p = Inr (True, p1) \<Longrightarrow> order_open p \<Longrightarrow>
   \<exists>e. e \<noteq> ENDIAN_TYPE_UNKNOWN \<and> p1 = p\<lparr>detected_endian := e\<rparr>"
proof -
  assume m: "packet_filter_match packet plen port p = Inr (True, p1)" and p: "order_open p"
  then have "detected_endian p1 \<noteq> ENDIAN_TYPE_UNKNOWN"
    using match_rules_found by (auto simp: packet_filter_match_def split: option.splits if_splits)
  then show ?thesis using packet_filter_match_detects [OF m] p by (auto simp: detects_def order_open_def)
qed

lemma filter_one_decides:
  assumes "filter_one pkt (p, out, n, m) = Inr (p1, out1, n1, m1)"
  shows "if keeps p pkt \<and> order_open p then \<exists>e. e \<noteq> ENDIAN_TYPE_UNKNOWN \<and> p1 = p\<lparr>detected_endian := e\<rparr> else p1 = p"
    and "keeps p1 pkt = keeps p pkt"
proof -
  obtain r where r: "parse_packet_data (snd pkt) (caplen (fst pkt)) = Inr r"
    using assms by (auto simp: filter_one_def try_then_Inr_iff)
  have "(if keeps p pkt \<and> order_open p then \<exists>e. e \<noteq> ENDIAN_TYPE_UNKNOWN \<and> p1 = p\<lparr>detected_endian := e\<rparr> else p1 = p) \<and>
      keeps p1 pkt = keeps p pkt"
  proof (cases "pp_valid r \<and> pp_app_len r \<noteq> 0 \<and> pp_app_data r \<noteq> None")
    case False
    then show ?thesis using assms r by (auto simp: filter_one_def keeps_def split: option.splits if_splits)
  next
    case True
    then obtain off where off: "pp_app_data r = Some off" by blast
    obtain b where m: "packet_filter_match (Some (drop off (snd pkt))) (pp_app_len r) (pp_dst_port r) p = Inr (b, p1)"
      using assms r True off
      by (auto simp: filter_one_def match_ports_once try_then_Inr_iff split: if_splits)
    then have "keeps p pkt = b" using True r off by (simp add: keeps_def)
    moreover have "keeps p1 pkt = b"
      using packet_filter_match_settled [OF m settles_refl] True r off by (simp add: keeps_def)
    ultimately show ?thesis using m packet_filter_match_found [of _ _ _ p p1] packet_filter_match_detects [OF m]
      by (auto simp: detects_def order_open_def)
  qed
  then show "if keeps p pkt \<and> order_open p then \<exists>e. e \<noteq> ENDIAN_TYPE_UNKNOWN \<and> p1 = p\<lparr>detected_endian := e\<rparr> else p1 = p"
    and "keeps p1 pkt = keeps p pkt" by blast+
qed

lemma filter_packets_decides:
  "filter_packets pkts (p, out, n, m) = Inr (p1, out1, n1, m1) \<Longrightarrow> first_decides keeps pkts p p1"
proof (induction pkts arbitrary: p out n m)
  case (Cons pkt pkts)
  then obtain p2 out2 n2 m2 where one: "filter_one pkt (p, out, n, m) = Inr (p2, out2, n2, m2)"
    and rest: "filter_packets pkts (p2, out2, n2, m2) = Inr (p1, out1, n1, m1)"
    by (auto simp: try_then_Inr_iff)
  note step = filter_one_decides(1) [OF one] and later = Cons.IH [OF rest]
  show ?case
  proof (cases "keeps p pkt \<and> order_open p")
    case True
    then have "\<not> order_open p2" using step by (auto simp: order_open_def)
    then have "p1 = p2" using later by (simp add: first_decides_def)
    moreover from this have "keeps p1 pkt" using filter_one_decides(2) [OF one] True by simp
    ultimately show ?thesis using step True by (simp add: first_decides_def)
  next
    case False
    then have "p2 = p" using step by simp
    then show ?thesis using later False by (auto simp: first_decides_def)
  qed
qed (simp add: first_decides_def)

section \<open>The name of the filtered file\<close>

text \<open>The dump context writes \<open>x_raw.pcap\<close> when it has a filter, the filter thread makes \<open>x.pcap\<close> of it.\<close>

lemma raw_name: "insert_before_dot ''_raw'' (stem @ ''.pcap'') = stem @ ''_raw.pcap''"
proof -
  have "rfind_char (CHR ''.'') (xs @ ''.pcap'') = Some (length xs)" for xs
    by (induction xs) simp_all
  then show ?thesis by (simp add: insert_before_dot_def)
qed

section \<open>The thread\<close>

lemma endian_writeback_facts:
  assumes "endian_writeback reload before p = (p1, ms)"
  shows "length ms \<le> 1 \<and> (endian_writeback_done p \<longrightarrow> ms = [] \<and> endian_writeback_done p1) \<and>
    (ms \<noteq> [] \<longrightarrow> endian_writeback_done p1)"
  using assms by (auto simp: endian_writeback_def split: if_splits option.splits)

lemma endian_writeback_done_kept:
  assumes "packet_filter_match packet plen port p = Inr (b, p1)"
  shows "endian_writeback_done p1 = endian_writeback_done p"
  using packet_filter_match_detects [OF assms] by (auto simp: detects_def)

definition writeback_done :: "CRxFilterThread \<Rightarrow> bool" where
  "writeback_done t \<longleftrightarrow> (case ft_protocol_def t of None \<Rightarrow> True | Some p \<Rightarrow> endian_writeback_done p)"

definition counted :: "CRxFilterThread \<Rightarrow> u64 \<times> u64 \<times> u64" where
  "counted t = (packets_processed (ft_stats t), packets_matched (ft_stats t), packets_filtered (ft_stats t))"

lemma apply_filter_done:
  assumes "apply_filter pkt pd = Inr (b, pd1)"
  shows "(pd = None \<longleftrightarrow> pd1 = None) \<and>
    (\<forall>p p1. pd = Some p \<longrightarrow> pd1 = Some p1 \<longrightarrow> endian_writeback_done p1 = endian_writeback_done p)"
  using assms endian_writeback_done_kept
  by (auto simp: apply_filter_def match_ports_once try_then_Inr_iff split: option.splits if_splits)

lemma handle_packet_step:
  assumes run: "handle_packet_captured ck opens reload pkt (t, io) = Inr ((t1, io1), ms)"
  shows "length ms \<le> 1 \<and> (writeback_done t \<longrightarrow> ms = [] \<and> writeback_done t1) \<and> (ms \<noteq> [] \<longrightarrow> writeback_done t1) \<and>
    (\<exists>b. counted t1 = (case counted t of (n, m, f) \<Rightarrow> (n + 1, if b then (m + 1, f) else (m, f + 1))))"
proof -
  obtain b pd where f: "apply_filter pkt (ft_protocol_def t) = Inr (b, pd)"
    using run by (auto simp: handle_packet_captured_def Let_def try_then_Inr_iff)
  obtain pd2 ms2 where wb: "request_writeback reload (endian_before t) pd = (pd2, ms2)" by fastforce
  have t1: "ms = ms2 \<and> ft_protocol_def t1 = pd2 \<and>
      counted t1 = (case counted t of (n, m, f) \<Rightarrow> (n + 1, if b then (m + 1, f) else (m, f + 1)))"
    using run f wb
    by (cases b) (auto simp: handle_packet_captured_def Let_def try_then_Inr_iff counted_def)
  have "length ms2 \<le> 1 \<and> (writeback_done t \<longrightarrow> ms2 = [] \<and> writeback_done t1) \<and> (ms2 \<noteq> [] \<longrightarrow> writeback_done t1)"
  proof (cases pd)
    case None
    then show ?thesis using wb t1 by (simp add: request_writeback_def writeback_done_def)
  next
    case (Some p)
    obtain p2 where w: "endian_writeback reload (endian_before t) p = (p2, ms2)" and "pd2 = Some p2"
      using wb Some by (auto simp: request_writeback_def split: prod.splits)
    then show ?thesis using endian_writeback_facts [OF w] t1 apply_filter_done [OF f] Some
      by (auto simp: writeback_done_def split: option.splits)
  qed
  then show ?thesis using t1 by blast
qed

lemma handle_packets_facts:
  "handle_packets ck opens reload pkts (t, io) = Inr ((t1, io1), ms) \<Longrightarrow>
   length ms \<le> 1 \<and> (writeback_done t \<longrightarrow> ms = []) \<and>
   (\<exists>m f. m + f = length pkts \<and>
     counted t1 = (case counted t of (n, a, b) \<Rightarrow> (n + of_nat (m + f), a + of_nat m, b + of_nat f)))"
proof (induction pkts arbitrary: t io ms)
  case Nil
  then show ?case by (auto split: prod.splits)
next
  case (Cons pkt pkts)
  then obtain t2 io2 ms2 ms3 where one: "handle_packet_captured ck opens reload pkt (t, io) = Inr ((t2, io2), ms2)"
    and rest: "handle_packets ck opens reload pkts (t2, io2) = Inr ((t1, io1), ms3)" and ms: "ms = ms2 @ ms3"
    by (auto simp: try_then_Inr_iff)
  note step = handle_packet_step [OF one] and ih = Cons.IH [OF rest]
  obtain b where b: "counted t2 = (case counted t of (n, m, f) \<Rightarrow> (n + 1, if b then (m + 1, f) else (m, f + 1)))"
    using step by blast
  obtain m f where mf: "m + f = length pkts"
    "counted t1 = (case counted t2 of (n, a, b) \<Rightarrow> (n + of_nat (m + f), a + of_nat m, b + of_nat f))"
    using ih by blast
  have "\<exists>m' f'. m' + f' = length (pkt # pkts) \<and>
     counted t1 = (case counted t of (n, a, b) \<Rightarrow> (n + of_nat (m' + f'), a + of_nat m', b + of_nat f'))"
    by (rule exI [of _ "m + of_bool b"], rule exI [of _ "f + of_bool (\<not> b)"])
      (use b mf in \<open>cases b; simp split: prod.splits\<close>)
  moreover have "length ms \<le> 1 \<and> (writeback_done t \<longrightarrow> ms = [])"
    using step ih ms by (cases "ms2 = []") auto
  ultimately show ?case by blast
qed

section \<open>From the raw file to the filtered file\<close>

text \<open>A captured frame as libpcap hands it over, without the cut that makes the parser read past it.\<close>

definition frame_ok :: "packet \<Rightarrow> bool" where
  "frame_ok pkt \<longleftrightarrow> length (snd pkt) = unat (caplen (fst pkt)) \<and> \<not> tcp_cut (snd pkt)"

text \<open>A frame with a payload that satisfies a rule of the source.\<close>

definition payload_matches :: "StructDef list \<Rightarrow> TempFilterRule list \<Rightarrow> ProtocolDef \<Rightarrow> packet \<Rightarrow> bool" where
  "payload_matches ss rs p pkt \<longleftrightarrow>
     (case parse_packet_data (snd pkt) (caplen (fst pkt)) of
        Inl _ \<Rightarrow> False
      | Inr r \<Rightarrow> pp_valid r \<and>
          (case pp_app_data r of
             None \<Rightarrow> False
           | Some off \<Rightarrow> list_ex (\<lambda>rule. rule_matches ss p rule (drop off (snd pkt))) rs))"

text \<open>The same with the verdict the definition asks for.\<close>

definition payload_documented :: "StructDef list \<Rightarrow> TempFilterRule list \<Rightarrow> ProtocolDef \<Rightarrow> packet \<Rightarrow> bool" where
  "payload_documented ss rs p pkt \<longleftrightarrow>
     (case parse_packet_data (snd pkt) (caplen (fst pkt)) of
        Inl _ \<Rightarrow> False
      | Inr r \<Rightarrow> pp_valid r \<and>
          (case pp_app_data r of
             None \<Rightarrow> False
           | Some off \<Rightarrow> list_ex (\<lambda>rule. documented_rule ss p rule (drop off (snd pkt))) rs))"

lemma payload_matches_documented:
  assumes "declared_in_order ENDIAN_BIG ss" "endian_mode p \<noteq> ENDIAN_MODE_LITTLE"
  shows "payload_matches ss rs p pkt = payload_documented ss rs p pkt"
  by (simp add: payload_matches_def payload_documented_def rule_matches_documented [OF assms] split: sum.split option.split)

lemma first_decides_cong:
  assumes "\<And>pkt. pkt \<in> set pkts \<Longrightarrow> a p pkt = b p pkt" "\<And>pkt. pkt \<in> set pkts \<Longrightarrow> a p1 pkt = b p1 pkt"
  shows "first_decides a pkts p p1 = first_decides b pkts p p1"
proof -
  have same: "dropWhile (\<lambda>pkt. \<not> a p pkt) pkts = dropWhile (\<lambda>pkt. \<not> b p pkt) pkts"
    using assms(1) by (intro dropWhile_cong) auto
  have "a p1 pkt = b p1 pkt" if "dropWhile (\<lambda>pkt. \<not> b p pkt) pkts = pkt # rest" for pkt rest
    using that assms(2) [of pkt] by (metis list.set_intros(1) set_dropWhileD)
  then show ?thesis unfolding first_decides_def same
    by (cases "dropWhile (\<lambda>pkt. \<not> b p pkt) pkts") (simp_all del: dropWhile_eq_Nil_conv)
qed

lemma first_decides_mode: "first_decides a pkts p p1 \<Longrightarrow> endian_mode p1 = endian_mode p"
  by (auto simp: first_decides_def split: if_splits list.splits)

definition compiled_from :: "StructDef list \<Rightarrow> TempFilterRule list \<Rightarrow> ProtocolDef \<Rightarrow> bool" where
  "compiled_from ss rs p \<longleftrightarrow> compile_filter_rules ss rs = Inr (filters p) \<and> list_all (source_ok ss) rs"

lemma frame_match:
  assumes c: "compiled_from ss rs p" and frame: "frame_ok pkt"
    and r: "parse_packet_data (snd pkt) (caplen (fst pkt)) = Inr r" "pp_valid r"
  obtains off p1 where "pp_app_data r = Some off" "pp_app_len r \<noteq> 0"
    "packet_filter_match (Some (drop off (snd pkt))) (pp_app_len r) port p =
       Inr (list_ex (\<lambda>rule. rule_matches ss p rule (drop off (snd pkt))) rs, p1)"
proof -
  have len: "length (snd pkt) = unat (caplen (fst pkt))" using frame by (simp add: frame_ok_def)
  obtain off where off: "pp_app_data r = Some off" "off + unat (pp_app_len r) = length (snd pkt)"
    "0 < unat (pp_app_len r)"
    using parse_packet_ok [OF len] r by (auto simp: parse_ok_def)
  have app: "length (drop off (snd pkt)) = unat (pp_app_len r)" using off(2) by simp
  have lt: "length (drop off (snd pkt)) < 2 ^ 32" unfolding app using unsigned_less [of "pp_app_len r"] by simp
  have of_nat: "of_nat (length (drop off (snd pkt))) = pp_app_len r" unfolding app by simp
  obtain p1 where "match_rules (drop off (snd pkt)) (pp_app_len r) (filters p) p =
      Inr (list_ex (\<lambda>rule. rule_matches ss p rule (drop off (snd pkt))) rs, p1)"
    using match_rules_verdict [OF _ _ lt, of ss rs "filters p" p] c unfolding of_nat compiled_from_def by auto
  moreover have "pp_app_len r \<noteq> 0" using off(3) by auto
  ultimately show ?thesis using that [of off p1] off(1) by (simp add: packet_filter_match_def)
qed

lemma frame_parses: "frame_ok pkt \<Longrightarrow> \<exists>r. parse_packet_data (snd pkt) (caplen (fst pkt)) = Inr r"
  using parse_packet_ok [of "snd pkt" "caplen (fst pkt)"]
  by (auto simp: frame_ok_def parse_ok_def split: sum.splits)

lemma keeps_payload_matches:
  assumes "compiled_from ss rs p" "frame_ok pkt"
  shows "keeps p pkt = payload_matches ss rs p pkt"
proof -
  obtain r where r: "parse_packet_data (snd pkt) (caplen (fst pkt)) = Inr r"
    using frame_parses [OF assms(2)] by blast
  show ?thesis
  proof (cases "pp_valid r")
    case True
    obtain off p1 where "pp_app_data r = Some off" "pp_app_len r \<noteq> 0"
      "packet_filter_match (Some (drop off (snd pkt))) (pp_app_len r) (pp_dst_port r) p =
         Inr (list_ex (\<lambda>rule. rule_matches ss p rule (drop off (snd pkt))) rs, p1)"
      using frame_match [OF assms r True] .
    then show ?thesis using r True by (simp add: keeps_def payload_matches_def)
  qed (simp add: keeps_def payload_matches_def r)
qed

lemma filter_packets_runs:
  "compiled_from ss rs p \<Longrightarrow> list_all frame_ok pkts \<Longrightarrow> \<exists>r. filter_packets pkts (p, out, n, m) = Inr r"
proof (induction pkts arbitrary: p out n m)
  case (Cons pkt pkts)
  have frame: "frame_ok pkt" using Cons.prems(2) by simp
  obtain r where r: "parse_packet_data (snd pkt) (caplen (fst pkt)) = Inr r"
    using frame_parses [OF frame] by blast
  have "\<exists>s. filter_one pkt (p, out, n, m) = Inr s"
  proof (cases "pp_valid r")
    case True
    obtain off p1 where *: "pp_app_data r = Some off" "pp_app_len r \<noteq> 0"
      "packet_filter_match (Some (drop off (snd pkt))) (pp_app_len r) (pp_dst_port r) p =
         Inr (list_ex (\<lambda>rule. rule_matches ss p rule (drop off (snd pkt))) rs, p1)"
      using frame_match [OF Cons.prems(1) frame r True] .
    then show ?thesis using r True by (simp add: filter_one_def match_ports_once)
  qed (simp add: filter_one_def r)
  then obtain p1 out1 n1 m1 where one: "filter_one pkt (p, out, n, m) = Inr (p1, out1, n1, m1)" by auto
  have "filters p1 = filters p" using filter_one_keeps [OF one] settles_filters by blast
  then have "compiled_from ss rs p1" using Cons.prems(1) by (simp add: compiled_from_def)
  then show ?case using one Cons.IH [of p1] Cons.prems(2) by simp
qed simp

lemma filter_packets_matches:
  assumes "compiled_from ss rs p" "list_all frame_ok pkts"
  shows "\<exists>p1. first_decides (payload_matches ss rs) pkts p p1 \<and> filter_packets pkts (p, [], 0, 0) =
    Inr (p1, filter (payload_matches ss rs p1) pkts, of_nat (length pkts),
         of_nat (length (filter (payload_matches ss rs p1) pkts)))"
proof -
  obtain p1 out n m where run: "filter_packets pkts (p, [], 0, 0) = Inr (p1, out, n, m)"
    using filter_packets_runs [OF assms] by fastforce
  note keep = filter_packets_keeps [OF run]
  have "filters p1 = filters p" using keep settles_filters by blast
  then have "compiled_from ss rs p1" using assms(1) by (simp add: compiled_from_def)
  then have same: "keeps p1 pkt = payload_matches ss rs p1 pkt" "keeps p pkt = payload_matches ss rs p pkt"
      if "pkt \<in> set pkts" for pkt
    using that assms keeps_payload_matches by (auto simp: list_all_iff)
  then have "filter (keeps p1) pkts = filter (payload_matches ss rs p1) pkts" by (intro filter_cong) auto
  moreover have "first_decides (payload_matches ss rs) pkts p p1"
    using filter_packets_decides [OF run] first_decides_cong [of pkts keeps p "payload_matches ss rs" p1] same by simp
  ultimately show ?thesis using run keep by (intro exI [of _ p1]) simp
qed

lemma filtered_path_differs: "filtered_path_of path \<noteq> path"
proof (cases "find_str ''_raw.pcap'' path")
  case (Some i)
  then have "i + 9 \<le> length path" using find_str_room [OF Some] by simp
  then have "length (filtered_path_of path) < length path" using Some by (simp add: filtered_path_of_def)
  then show ?thesis by auto
qed (simp add: filtered_path_of_def)

lemma loaded_compiled:
  assumes "parse_blocks (parser_init src) = Inr q" "pdef_parse_string src = Inr p"
    and "backward_refs (temp_structs q)" "list_all struct_fits (structs p)"
    and "list_all rule_fits (temp_filter_rules q)"
  shows "compiled_from (structs p) (temp_filter_rules q) p"
proof -
  obtain ss fs where ss: "flatten_structs (temp_structs q) = Inr ss"
    "compile_filter_rules ss (temp_filter_rules q) = Inr fs"
    and p: "p = (proto q)\<lparr>structs := ss, filters := fs\<rparr>"
    using assms(1,2) by (auto simp: pdef_parse_string_def try_then_Inr_iff)
  have "list_all laid_out ss" using flatten_layout [OF ss(1) assms(3)] by simp
  then show ?thesis using compiled_sources_ok [OF ss(2)] assms(4,5) p ss(2)
    by (simp add: compiled_from_def)
qed

text \<open>A frame of UDP over IPv4: ports 1000 and 53, the payload \<open>00 01\<close>; and a frame that is not IP.\<close>

definition udp_bytes :: "u8 list" where
  "udp_bytes =
     [0, 0, 0, 0, 0, 0, 0, 0, 0, 0, 0, 0, 8, 0, 0x45, 0, 0, 0, 0, 0, 0, 0, 0, 17, 0, 0, 0, 0, 0, 0, 0, 0, 0, 0,
      3, 0xE8, 0, 53, 0, 10, 0, 0, 0, 1]"

definition udp_frame :: packet where
  "udp_frame = (\<lparr>ts_sec = 0, ts_usec = 0, caplen = 44, wire_len = 44\<rparr>, udp_bytes)"

definition arp_bytes :: "u8 list" where
  "arp_bytes = [0, 0, 0, 0, 0, 0, 0, 0, 0, 0, 0, 0, 8, 6]"

definition arp_frame :: packet where
  "arp_frame = (\<lparr>ts_sec = 0, ts_usec = 0, caplen = 14, wire_len = 14\<rparr>, arp_bytes)"

lemma udp_bytes_at:
  "length udp_bytes = 44" "udp_bytes ! 12 = 8" "udp_bytes ! 13 = 0" "udp_bytes ! 14 = 0x45" "udp_bytes ! 23 = 17"
  "udp_bytes ! 34 = 3" "udp_bytes ! 35 = 0xE8" "udp_bytes ! 36 = 0" "udp_bytes ! 37 = 53" "drop 42 udp_bytes = [0, 1]"
  by (simp_all add: udp_bytes_def)

lemma arp_bytes_at: "length arp_bytes = 14" "arp_bytes ! 12 = 8" "arp_bytes ! 13 = 6"
  by (simp_all add: arp_bytes_def)

lemma udp_bytes_parsed:
  "parse_packet_data udp_bytes 44 =
     Inr \<lparr>pp_app_data = Some 42, pp_app_len = 2, pp_src_port = 1000, pp_dst_port = 53, pp_valid = True\<rparr>"
  by (simp add: udp_bytes_at parse_packet_data_def parse_transport_def payload_from_def ParsedPacket_none_def
      Let_def ether_type_ip)

lemma arp_bytes_parsed: "parse_packet_data arp_bytes 14 = Inr ParsedPacket_none"
  by (simp add: arp_bytes_at parse_packet_data_def ether_type_ip)

lemma sample_frames_ok: "list_all frame_ok [udp_frame, arp_frame]"
  by (simp add: frame_ok_def tcp_cut_def udp_frame_def arp_frame_def udp_bytes_at arp_bytes_at)

text \<open>
  The message that reports a filtered file: the path, the packets seen and the packets kept.
\<close>

definition reports :: "rx_msg \<Rightarrow> string \<Rightarrow> nat \<Rightarrow> nat \<Rightarrow> bool" where
  "reports msg path seen kept \<longleftrightarrow>
     (case msg of
        M_Filtered_file m \<Rightarrow> filtered_pcap_path m = path \<and> filtered_total_packets m = of_nat seen \<and>
          filtered_filtered_packets m = of_nat kept
      | _ \<Rightarrow> False)"

lemma raw_file_filtered:
  assumes raw: "raw_has_pdef_filter raw" "raw_pdef_inline_content raw \<noteq> []"
    "pdef_parse_string (raw_pdef_inline_content raw) = Inr p"
    and c: "compiled_from ss rs p"
    and pkts: "io_files io (raw_pcap_path raw) = Some pkts" "list_all frame_ok pkts"
    and env: "fe_opens env (filtered_path_of (raw_pcap_path raw))" "fe_unlink env (raw_pcap_path raw)"
  shows "\<exists>p1 io1 msg more. handle_raw_file env raw io =
      Inr (io1, (word_of_int (raw_manager_thread_index raw), msg) # more) \<and> first_decides (payload_matches ss rs) pkts p p1 \<and>
    io_files io1 = (io_files io)
      (filtered_path_of (raw_pcap_path raw) \<mapsto> filter (payload_matches ss rs p1) pkts,
       raw_pcap_path raw := None) \<and>
    reports msg (filtered_path_of (raw_pcap_path raw)) (length pkts)
      (length (filter (payload_matches ss rs p1) pkts))"
proof -
  obtain p1 where "first_decides (payload_matches ss rs) pkts p p1" "filter_packets pkts (p, [], 0, 0) =
      Inr (p1, filter (payload_matches ss rs p1) pkts, of_nat (length pkts),
           of_nat (length (filter (payload_matches ss rs p1) pkts)))"
    using filter_packets_matches [OF c pkts(2)] by blast
  then show ?thesis using raw pkts env
    by (intro exI [of _ p1]) (simp add: handle_raw_file_def load_pdef_def pcap_dump_open_def Let_def reports_def filtered_msg_def
        fun_upd_twist)
qed

section \<open>Properties\<close>

text \<open>
  C23. A parsed payload is the end of the packet.  Given the captured bytes and their number, the
  parser of frames either faults, and does so exactly on the TCP frame whose captured bytes end
  before the byte that holds the TCP header length, although the length test lets it pass; or it
  returns, and a payload it reports starts behind the Ethernet header, is not empty and ends where
  the captured bytes end.
\<close>

theorem frame_payload_ends_packet:
  assumes "length data = unat len"
  shows "(tcp_cut data \<longrightarrow> parse_packet_data data len = Inl Oob_read) \<and>
    (\<not> tcp_cut data \<longrightarrow> (\<exists>r. parse_packet_data data len = Inr r \<and>
       (pp_valid r \<longrightarrow> (\<exists>off. pp_app_data r = Some off \<and> 14 \<le> off \<and> 0 < unat (pp_app_len r) \<and>
          off + unat (pp_app_len r) = length data))))"
  using parse_packet_ok [OF assms] by (auto simp: parse_ok_def split: sum.splits)

theorem frame_payload_ends_packet_witness:
  "\<exists>r off. parse_packet_data udp_bytes 44 = Inr r \<and> pp_app_data r = Some off \<and>
     off + unat (pp_app_len r) = 44"
  using frame_payload_ends_packet [of udp_bytes 44] udp_bytes_parsed
  by (auto simp: udp_bytes_at tcp_cut_def)

text \<open>
  C21. A raw capture file becomes the file of its matching packets.  For a message with an inline
  definition that loads, in automatic or big mode, with fields declared in the default (big) order, within the
  sizes of the first property, a raw file of well-captured frames, and a file system that lets the output be
  opened and the raw file be removed, the handler returns without a fault: the filtered file holds, in order,
  exactly the frames whose payload some rule of the definition accepts as documented, whatever their ports and
  whatever ports the definition names.  All are read in one byte order: that of the definition, or in automatic
  mode without a detected order one in which the first frame accepted in either order is accepted.  The raw file
  is gone, other files are untouched, and the manager is sent the path and both counts.
\<close>

theorem raw_file_becomes_filtered_file:
  assumes "raw_has_pdef_filter raw" "raw_pdef_inline_content raw = src" "src \<noteq> []"
    and "parse_blocks (parser_init src) = Inr q" "pdef_parse_string src = Inr p"
    and "endian_mode p \<noteq> ENDIAN_MODE_LITTLE" "declared_in_order ENDIAN_BIG (structs p)"
    and "backward_refs (temp_structs q)" "list_all struct_fits (structs p)"
    and "list_all rule_fits (temp_filter_rules q)"
    and "io_files io (raw_pcap_path raw) = Some pkts" "list_all frame_ok pkts"
    and "fe_opens env (filtered_path_of (raw_pcap_path raw))" "fe_unlink env (raw_pcap_path raw)"
  shows "\<exists>p1 io1 msg more. handle_raw_file env raw io =
      Inr (io1, (word_of_int (raw_manager_thread_index raw), msg) # more) \<and>
    first_decides (payload_documented (structs p) (temp_filter_rules q)) pkts p p1 \<and>
    io_files io1 = (io_files io)
      (filtered_path_of (raw_pcap_path raw) \<mapsto>
         filter (payload_documented (structs p) (temp_filter_rules q) p1) pkts,
       raw_pcap_path raw := None) \<and>
    reports msg (filtered_path_of (raw_pcap_path raw)) (length pkts)
      (length (filter (payload_documented (structs p) (temp_filter_rules q) p1) pkts))"
proof -
  let ?m = "payload_matches (structs p) (temp_filter_rules q)" and ?d = "payload_documented (structs p) (temp_filter_rules q)"
  obtain p1 io1 msg rest where r: "handle_raw_file env raw io =
      Inr (io1, (word_of_int (raw_manager_thread_index raw), msg) # rest)" "first_decides ?m pkts p p1"
    "io_files io1 = (io_files io) (filtered_path_of (raw_pcap_path raw) \<mapsto> filter (?m p1) pkts, raw_pcap_path raw := None)"
    "reports msg (filtered_path_of (raw_pcap_path raw)) (length pkts) (length (filter (?m p1) pkts))"
    using raw_file_filtered [OF assms(1) _ _ loaded_compiled [OF assms(4,5,8-10)] assms(11-14)] assms(2,3,5) by auto
  have same: "?m p1 = ?d p1" "?m p = ?d p"
    using payload_matches_documented [OF assms(7)] assms(6) first_decides_mode [OF r(2)] by auto
  then have "first_decides ?d pkts p p1" using r(2) first_decides_cong [of pkts ?m p ?d p1] by simp
  then show ?thesis using r(1,3,4) unfolding same(1) by blast
qed

definition sample_raw :: SRxCaptureRawFileMsgV2 where
  "sample_raw =
     \<lparr>cm_msg_op = RX_MSG_CAPTURE_RAW_FILE, cm_capture_id = 1, cm_key = [], cm_sid = [], cm_op_version = 1,
      cm_ts_usec = 0, cm_config_hash = 0, cm_sender_thread_index = 0, raw_pcap_path = ''a_raw.pcap'',
      raw_pdef_file_path = [], raw_pdef_inline_content = src_auto, raw_has_pdef_filter = True,
      raw_manager_thread_index = 2\<rparr>"

definition sample_env :: filter_env where
  "sample_env = \<lparr>fe_now = 0, fe_thread_index = 5, fe_opens = \<lambda>_. True, fe_stat = \<lambda>_ _. None,
     fe_unlink = \<lambda>_. True, fe_contents = \<lambda>_. None\<rparr>"

definition sample_files :: dump_io where
  "sample_files = \<lparr>io_dirs = [], io_files = [''a_raw.pcap'' \<mapsto> [arp_frame, udp_frame]]\<rparr>"

theorem raw_file_becomes_filtered_file_witness:
  "\<exists>io1 msgs. handle_raw_file sample_env sample_raw sample_files = Inr (io1, msgs) \<and>
     io_files io1 = [''a.pcap'' \<mapsto> [udp_frame]]"
proof -
  obtain p q where l: "parse_blocks (parser_init src_auto) = Inr q" "pdef_parse_string src_auto = Inr p"
    "backward_refs (temp_structs q)" "list_all struct_fits (structs p)"
    "list_all rule_fits (temp_filter_rules q)" and order: "declared_in_order ENDIAN_BIG (structs p)"
    and r: "temp_filter_rules q = [rule_a COND_EQ]"
    "endian_mode p = ENDIAN_MODE_AUTO" "detected_endian p = ENDIAN_TYPE_UNKNOWN"
    "structs p = [(struct_of ''S'' [field_a FIELD_TYPE_UINT16 2 ENDIAN_BIG])\<lparr>s_min_size := 2\<rparr>]"
    using auto_loaded by blast
  let ?d = "payload_documented (structs p) (temp_filter_rules q)"
  have path: "filtered_path_of ''a_raw.pcap'' = ''a.pcap''" by (simp add: filtered_path_of_def)
  have frames: "list_all frame_ok [arp_frame, udp_frame]" using sample_frames_ok by simp
  have src: "src_auto \<noteq> []" "endian_mode p \<noteq> ENDIAN_MODE_LITTLE" by (simp_all add: src_auto_def r)
  have fields: "raw_has_pdef_filter sample_raw" "raw_pdef_inline_content sample_raw = src_auto"
    "io_files sample_files (raw_pcap_path sample_raw) = Some [arp_frame, udp_frame]"
    "fe_opens sample_env (filtered_path_of (raw_pcap_path sample_raw))"
    "fe_unlink sample_env (raw_pcap_path sample_raw)"
    by (simp_all add: sample_raw_def sample_files_def sample_env_def)
  obtain p1 io1 msgs where run: "handle_raw_file sample_env sample_raw sample_files = Inr (io1, msgs)"
    and p1: "first_decides ?d [arp_frame, udp_frame] p p1" and files: "io_files io1 = (io_files sample_files)
      (''a.pcap'' \<mapsto> filter (?d p1) [arp_frame, udp_frame], ''a_raw.pcap'' := None)"
    using raw_file_becomes_filtered_file [OF fields(1,2) src(1) l(1,2) src(2) order l(3-5) fields(3) frames fields(4,5)] path
    by (auto simp: sample_raw_def)
  have "documented_rule (structs p) p (rule_a COND_EQ) [0, 1]"
    by (simp add: r documented_rule_def rule_reads_def in_order_def target_struct_def rule_a_def field_a_def
        struct_of_def plain_field_def holds_eval)
  then have "?d p udp_frame" by (simp add: payload_documented_def r(1) udp_frame_def udp_bytes_parsed udp_bytes_at)
  moreover have arp: "\<not> ?d x arp_frame" for x
    by (simp add: payload_documented_def arp_frame_def arp_bytes_parsed ParsedPacket_none_def)
  ultimately have "?d p1 udp_frame" using p1 r(2,3) by (simp add: first_decides_def order_open_def)
  then have "filter (?d p1) [arp_frame, udp_frame] = [udp_frame]" using arp by simp
  then have "io_files io1 = [''a.pcap'' \<mapsto> [udp_frame]]"
    using files by (auto simp: sample_files_def)
  then show ?thesis using run by blast
qed

text \<open>
  The byte order is written back once.  Over any sequence of captured packets the thread asks
  at most once for the detected byte order to be written to the definition file, and never when
  \<open>endian_writeback_done\<close> is set; every packet is counted as processed and as either matched or
  filtered, modulo \<open>2 ^ 64\<close>.
\<close>

theorem endian_writeback_once:
  assumes "handle_packets ck opens reload pkts (t, io) = Inr ((t1, io1), msgs)"
  shows "length msgs \<le> 1 \<and>
    (\<forall>p. ft_protocol_def t = Some p \<longrightarrow> endian_writeback_done p \<longrightarrow> msgs = []) \<and>
    packets_processed (ft_stats t1) - packets_processed (ft_stats t) = of_nat (length pkts) \<and>
    (packets_matched (ft_stats t1) - packets_matched (ft_stats t)) +
      (packets_filtered (ft_stats t1) - packets_filtered (ft_stats t)) = of_nat (length pkts)"
proof -
  note facts = handle_packets_facts [OF assms]
  obtain m f where mf: "m + f = length pkts"
    "counted t1 = (case counted t of (n, a, b) \<Rightarrow> (n + of_nat (m + f), a + of_nat m, b + of_nat f))"
    using facts by blast
  have "(of_nat m :: u64) + of_nat f = of_nat (length pkts)" using mf(1) by (metis of_nat_add)
  then show ?thesis using facts mf by (auto simp: counted_def writeback_done_def)
qed

definition sample_thread :: CRxFilterThread where
  "sample_thread = \<lparr>ft_protocol_def = Some unknown_proto, ft_dump_ctx = None, ft_stats = FilterStats_new\<rparr>"

definition sample_msg :: SRxPacketMsg where
  "sample_msg = \<lparr>pm_header = \<lparr>ts_sec = 0, ts_usec = 0, caplen = 3, wire_len = 3\<rparr>, pm_data = [5, 44, 1],
     pm_src_port = 1000, pm_dst_port = 53, pm_app_offset = 0, pm_app_len = 3, pm_valid = True,
     pm_writer_thread_index = 0\<rparr>"

theorem endian_writeback_once_witness:
  "\<exists>t1 io1 msgs. handle_packets sample_clock (\<lambda>_. True) (Some 3) [sample_msg] (sample_thread, sample_files) =
     Inr ((t1, io1), msgs) \<and> length msgs \<le> 1 \<and> packets_processed (ft_stats t1) = 1"
proof -
  obtain p1 where m: "packet_filter_match (Some [5, 44, 1]) 3 53 unknown_proto = Inr (True, p1)"
    using unknown_proto_matches by blast
  have a: "apply_filter sample_msg (Some unknown_proto) = Inr (True, Some p1)"
    using m by (simp add: apply_filter_def match_ports_once sample_msg_def)
  obtain pd ms where w: "request_writeback (Some 3) (endian_before sample_thread) (Some p1) = (pd, ms)" by fastforce
  have "\<exists>t1 io1 msgs. handle_packets sample_clock (\<lambda>_. True) (Some 3) [sample_msg] (sample_thread, sample_files) =
      Inr ((t1, io1), msgs)"
    using a w by (simp add: handle_packet_captured_def sample_thread_def write_packet_def)
  then obtain t1 io1 msgs where run: "handle_packets sample_clock (\<lambda>_. True) (Some 3) [sample_msg] (sample_thread, sample_files) =
      Inr ((t1, io1), msgs)" by blast
  from endian_writeback_once [OF run] run show ?thesis
    by (simp add: sample_thread_def FilterStats_new_def)
qed

end
