(* ===== verification/Capture_Worker.thy ===== *)
theory Capture_Worker
  imports Dump_Storage
begin

text \<open>
  The capture worker: the capture job of \<open>src/src/rxcapturesession.cpp\<close> and the thread of
  \<open>src/src/rxcapturethread.cpp\<close> that runs one job per start message, with the structures of
  \<open>src/src/rxcapturemanager.h\<close>.  libpcap enters as the rounds of \<open>pcap_dispatch\<close>: what each call
  delivers, when, and whether it fails.  Messages sent are a list of target thread and message.
  Sleeping and logging are left out.
\<close>

section \<open>Task configuration\<close>

record CRxCaptureTaskCfg =
  tc_iface :: string
  tc_bpf :: string
  tc_outfile :: string
  tc_duration_sec :: int
  tc_category :: string
  tc_file_pattern :: string
  tc_max_bytes :: int
  tc_proc_name :: string
  tc_protocol_filter :: string
  tc_protocol_filter_inline :: string
  tc_port :: int

text \<open>The fields of the task info the job reads, and those the thread sets.\<close>

record CRxCaptureTaskInfo =
  ti_id :: int
  ti_cfg :: CRxCaptureTaskCfg
  ti_stopping :: bool
  ti_running :: bool
  ti_packets :: u64
  ti_exit_code :: int
  ti_base_dir :: string
  ti_compress_enabled :: bool
  ti_compress_remove_src :: bool
  ti_resolved_path :: string

definition build_task_cfg :: "CaptureSpec \<Rightarrow> CaptureConfigSnapshot \<Rightarrow> CRxCaptureTaskCfg" where
  "build_task_cfg spec config =
     (let duration = (if sp_max_duration_sec spec > 0 then sp_max_duration_sec spec
                      else cc_max_duration_sec config);
          pattern = (if sp_output_pattern spec \<noteq> [] then sp_output_pattern spec
                     else cc_filename_template config);
          max_bytes = (if sp_max_bytes spec > 0 then sp_max_bytes spec else cc_max_bytes config)
      in \<lparr>tc_iface = (if sp_resolved_iface spec = [] then sp_iface spec else sp_resolved_iface spec),
          tc_bpf = sp_filter spec, tc_outfile = [],
          tc_duration_sec = (if duration < 0 then 0 else duration),
          tc_category = sp_category spec,
          tc_file_pattern = (if pattern = [] then DEFAULT_PATTERN else pattern),
          tc_max_bytes = (if max_bytes < 0 then 0 else max_bytes),
          tc_proc_name = sp_proc_name spec, tc_protocol_filter = sp_protocol_filter spec,
          tc_protocol_filter_inline = sp_protocol_filter_inline spec, tc_port = sp_port_filter spec\<rparr>)"

definition task_info_for :: "SRxCaptureStartMsgV2 \<Rightarrow> CRxCaptureTaskInfo" where
  "task_info_for msg =
     \<lparr>ti_id = cm_capture_id msg, ti_cfg = build_task_cfg (start_spec msg) (start_config msg),
      ti_stopping = False, ti_running = True, ti_packets = 0, ti_exit_code = - 1,
      ti_base_dir = (if cc_output_dir (start_config msg) = [] then ''capture_output''
                     else cc_output_dir (start_config msg)),
      ti_compress_enabled = cc_compress_enabled (start_config msg),
      ti_compress_remove_src = cc_compress_remove_src (start_config msg), ti_resolved_path = []\<rparr>"

section \<open>The capture job\<close>

text \<open>
  \<open>jb_handle\<close> tells whether \<open>pcap_handle_\<close> is not null.  The filter thread pointer of the class is
  null from the constructor on, so its branches in \<open>cleanup\<close> never run.
\<close>

record CRxCaptureJob =
  jb_cfg :: CRxCaptureTaskCfg
  jb_parent :: CRxCaptureTaskInfo
  jb_handle :: bool
  jb_dumper :: CRxDumpCtx
  jb_done :: bool
  jb_packets :: u64
  jb_end_time :: u64

text \<open>The members of a context of a new job that have no constructor hold arbitrary values: \<open>dc\<close>.\<close>

definition job_new :: "CRxDumpCtx \<Rightarrow> CRxCaptureTaskCfg \<Rightarrow> CRxCaptureTaskInfo \<Rightarrow> CRxCaptureJob" where
  "job_new dc cfg info =
     \<lparr>jb_cfg = cfg, jb_parent = info, jb_handle = False, jb_dumper = dc, jb_done = False,
      jb_packets = 0, jb_end_time = 0\<rparr>"

definition initial_dumper :: "int \<Rightarrow> CRxCaptureTaskCfg \<Rightarrow> CRxCaptureTaskInfo \<Rightarrow> CRxDumpCtx" where
  "initial_dumper now cfg info =
     \<lparr>dc_d = None, dc_max_bytes = tc_max_bytes cfg, dc_written = 0, dc_seq = 0, dc_start_time = now,
      dc_base_dir = ti_base_dir info, dc_pattern = tc_file_pattern cfg, dc_category = tc_category cfg,
      dc_iface = tc_iface cfg, dc_proc = tc_proc_name cfg, dc_port = tc_port cfg, dc_current_path = [],
      dc_compress_enabled = ti_compress_enabled info, dc_protocol_filter_path = tc_protocol_filter cfg,
      dc_protocol_def = None, dc_packets_filtered = 0, dc_filter_thread_index = 0\<rparr>"

text \<open>What the environment of a capture answers: \<open>pcap_open_live\<close>, \<open>pcap_dump_open\<close>, \<open>stat\<close>, the clock.\<close>

record capture_env =
  ce_open_live :: bool
  ce_opens :: "string \<Rightarrow> bool"
  ce_stat :: "dump_io \<Rightarrow> string \<Rightarrow> u64 option"
  ce_clock :: clock
  ce_start_ts :: int
  ce_finish_ts :: int
  ce_sent_ts :: "rx_op \<Rightarrow> int"
  ce_pid :: int
  ce_thread_index :: u32

definition job_prepare ::
  "capture_env \<Rightarrow> CRxCaptureJob \<times> dump_io \<Rightarrow> bool \<times> CRxCaptureJob \<times> dump_io" where
  "job_prepare env s =
     (case s of (job, io) \<Rightarrow>
        (if \<not> ce_open_live env then (False, job\<lparr>jb_handle := False\<rparr>, io)
         else
           (let cfg = jb_cfg job; info = jb_parent job;
                dc = initial_dumper (ck_now (ce_clock env)) cfg info;
                (dc1, io1) =
                  (if tc_file_pattern cfg \<noteq> [] \<or> ti_base_dir info \<noteq> []
                   then rotate_open (ce_clock env) (ce_opens env) (dc, io)
                   else if tc_outfile cfg \<noteq> []
                   then (case pcap_dump_open (ce_opens env) (tc_outfile cfg) io of
                           (d, io1) \<Rightarrow> (dc\<lparr>dc_d := d, dc_current_path := tc_outfile cfg\<rparr>, io1))
                   else (dc, io));
                job1 = job\<lparr>jb_dumper := dc1\<rparr>
            in if dc_d dc1 = None then (False, job1\<lparr>jb_handle := False\<rparr>, io1)
               else (True,
                     job1\<lparr>jb_handle := True,
                          jb_end_time := (if tc_duration_sec cfg > 0
                            then word_of_int (ck_now (ce_clock env)) + word_of_int (tc_duration_sec cfg)
                            else jb_end_time job)\<rparr>, io1))))"

text \<open>
  One round: \<open>pcap_dispatch\<close> hands over at most 100 packets and returns their number, or fails with a
  negative value; then the clock is read.
\<close>

record dispatch_round =
  dr_packets :: "packet list"
  dr_failed :: bool
  dr_clock :: clock

definition run_once ::
  "(string \<Rightarrow> bool) \<Rightarrow> dispatch_round \<Rightarrow> CRxCaptureJob \<times> dump_io \<Rightarrow> fault + int \<times> CRxCaptureJob \<times> dump_io" where
  "run_once opens r s =
     (case s of (job, io) \<Rightarrow>
        (if jb_done job then Inr (- 2, job, io)
         else try_then (dump_all (dr_clock r) opens (dr_packets r) (jb_dumper job, io)) (\<lambda>(dc, io1).
           let ret = (if dr_failed r then - 1 else int (length (dr_packets r)));
               job1 = job\<lparr>jb_dumper := dc,
                          jb_packets := (if ret > 0 then jb_packets job + word_of_int ret else jb_packets job)\<rparr>;
               over = ti_stopping (jb_parent job) \<or>
                 (jb_end_time job > 0 \<and> word_of_int (ck_now (dr_clock r)) \<ge> jb_end_time job)
           in Inr (ret, if over then job1\<lparr>jb_done := True\<rparr> else job1, io1))))"

text \<open>Flushing and closing the dump file leaves its packets; the handle is closed.\<close>

definition job_cleanup :: "CRxCaptureJob \<Rightarrow> CRxCaptureJob" where
  "job_cleanup job =
     job\<lparr>jb_dumper := (jb_dumper job)\<lparr>dc_protocol_def := None, dc_d := None\<rparr>,
         jb_handle := False, jb_done := True\<rparr>"

definition get_bytes_written :: "CRxCaptureJob \<Rightarrow> u64" where
  "get_bytes_written job =
     (if dc_written (jb_dumper job) < 0 then 0 else word_of_int (dc_written (jb_dumper job)))"

definition get_final_path :: "CRxCaptureJob \<Rightarrow> string" where
  "get_final_path job = dc_current_path (jb_dumper job)"

text \<open>
  The loop of the thread, over the rounds the library delivers: \<open>None\<close> when the capture is still
  running after them.
\<close>

fun capture_loop ::
  "(string \<Rightarrow> bool) \<Rightarrow> dispatch_round list \<Rightarrow> CRxCaptureJob \<times> dump_io \<Rightarrow>
   fault + (CRxCaptureJob \<times> dump_io) option" where
  "capture_loop opens rs s =
     (if jb_done (fst s) then Inr (Some s)
      else case rs of
             [] \<Rightarrow> Inr None
           | r # rest \<Rightarrow> try_then (run_once opens r s) (\<lambda>(ret, s1). capture_loop opens rest s1))"

declare capture_loop.simps [simp del]

section \<open>The thread\<close>

type_synonym outbox = "(u32 \<times> rx_msg) list"

text \<open>Every message starts with the identity of the start message.  No manager, no message.\<close>

definition reply_base :: "capture_env \<Rightarrow> rx_op \<Rightarrow> SRxCaptureStartMsgV2 \<Rightarrow> CaptureMessageBase" where
  "reply_base env m msg =
     \<lparr>cm_msg_op = m, cm_capture_id = cm_capture_id msg, cm_key = cm_key msg, cm_sid = cm_sid msg,
      cm_op_version = cm_op_version msg, cm_ts_usec = ce_sent_ts env m,
      cm_config_hash = cm_config_hash msg, cm_sender_thread_index = sint (ce_thread_index env)\<rparr>"

definition send_to_manager :: "SRxCaptureStartMsgV2 \<Rightarrow> rx_msg \<Rightarrow> outbox" where
  "send_to_manager msg m =
     (if cm_sender_thread_index msg \<le> 0 then [] else [(word_of_int (cm_sender_thread_index msg), m)])"

definition send_started :: "capture_env \<Rightarrow> SRxCaptureStartMsgV2 \<Rightarrow> string \<Rightarrow> outbox" where
  "send_started env msg output_file =
     send_to_manager msg (M_Started (CaptureMessageBase.extend
       (reply_base env RX_MSG_CAPTURE_STARTED msg)
       (SRxCaptureStartedMsgV2.fields (ce_start_ts env) (ce_pid env) output_file)))"

definition send_file_ready :: "capture_env \<Rightarrow> SRxCaptureStartMsgV2 \<Rightarrow> CaptureFileInfo list \<Rightarrow> outbox" where
  "send_file_ready env msg files =
     (if files = [] then []
      else send_to_manager msg (M_File_ready (CaptureMessageBase.extend
        (reply_base env RX_MSG_CAPTURE_FILE_READY msg) (SRxCaptureFileReadyMsgV2.fields files))))"

definition send_finished :: "capture_env \<Rightarrow> SRxCaptureStartMsgV2 \<Rightarrow> CaptureResultStats \<Rightarrow> outbox" where
  "send_finished env msg stats =
     send_to_manager msg (M_Finished (CaptureMessageBase.extend
       (reply_base env RX_MSG_CAPTURE_FINISHED msg) (SRxCaptureFinishedMsgV2.fields stats)))"

definition send_failure :: "capture_env \<Rightarrow> SRxCaptureStartMsgV2 \<Rightarrow> ECaptureErrorCode \<Rightarrow> string \<Rightarrow> outbox" where
  "send_failure env msg code err =
     send_to_manager msg (M_Failed (CaptureMessageBase.extend
       (reply_base env RX_MSG_CAPTURE_FAILED msg)
       (SRxCaptureFailedMsgV2.fields code err CaptureProgressStats_new)))"

definition send_raw_file_for_filter ::
  "capture_env \<Rightarrow> SRxCaptureStartMsgV2 \<Rightarrow> string \<Rightarrow> string \<Rightarrow> string \<Rightarrow> outbox" where
  "send_raw_file_for_filter env msg path pdef_path pdef_inline =
     send_to_manager msg (M_Raw_file (CaptureMessageBase.extend
       (reply_base env RX_MSG_CAPTURE_RAW_FILE msg)
       (SRxCaptureRawFileMsgV2.fields path pdef_path pdef_inline (pdef_path \<noteq> [] \<or> pdef_inline \<noteq> []) 0)))"

definition capture_result :: "capture_env \<Rightarrow> CRxCaptureJob \<Rightarrow> CaptureResultStats" where
  "capture_result env job =
     CaptureResultStats_new\<lparr>rs_total_packets := jb_packets job, rs_total_bytes := get_bytes_written job,
       rs_start_ts := ce_start_ts env, rs_finish_ts := ce_finish_ts env, rs_exit_code := 0\<rparr>"

definition captured_files :: "capture_env \<Rightarrow> CRxCaptureJob \<Rightarrow> dump_io \<Rightarrow> CaptureFileInfo list" where
  "captured_files env job io =
     (if get_final_path job = [] then []
      else [CaptureFileInfo_new\<lparr>fi_file_path := get_final_path job,
              fi_file_size := (case ce_stat env io (get_final_path job) of
                 Some n \<Rightarrow> n | None \<Rightarrow> get_bytes_written job),
              fi_segment_index := 0, fi_total_segments := 1, fi_file_ready_ts := ce_finish_ts env\<rparr>])"

definition report_capture :: "capture_env \<Rightarrow> SRxCaptureStartMsgV2 \<Rightarrow> CRxCaptureJob \<Rightarrow> dump_io \<Rightarrow> outbox" where
  "report_capture env msg job io =
     (let spec = start_spec msg in
      if sp_protocol_filter spec \<noteq> [] \<or> sp_protocol_filter_inline spec \<noteq> []
      then send_raw_file_for_filter env msg (get_final_path job) (sp_protocol_filter spec)
             (sp_protocol_filter_inline spec)
      else send_file_ready env msg (captured_files env job io) @
           send_finished env msg (capture_result env job))"

text \<open>The messages sent so far, and the files when the capture has ended.\<close>

definition execute_capture ::
  "capture_env \<Rightarrow> CRxDumpCtx \<Rightarrow> dispatch_round list \<Rightarrow> SRxCaptureStartMsgV2 \<Rightarrow> dump_io \<Rightarrow>
   fault + outbox \<times> dump_io option" where
  "execute_capture env dc rs msg io =
     (let info = task_info_for msg;
          (ok, job1, io1) = job_prepare env (job_new dc (ti_cfg info) info, io)
      in if \<not> ok then Inr (send_failure env msg ERR_START_TCPDUMP_FAILED ''pcap_prepare_failed'', Some io1)
         else let started = send_started env msg (get_final_path job1) in
           try_then (capture_loop (ce_opens env) rs (job1, io1)) (\<lambda>r.
             case r of
               None \<Rightarrow> Inr (started, None)
             | Some (job2, io2) \<Rightarrow>
                 Inr (started @ report_capture env msg (job_cleanup job2) io2, Some io2)))"

text \<open>The thread handles start messages and ignores every other one, a stop or cancel included.\<close>

definition worker_handle_msg ::
  "capture_env \<Rightarrow> CRxDumpCtx \<Rightarrow> dispatch_round list \<Rightarrow> rx_msg \<Rightarrow> dump_io \<Rightarrow> fault + outbox \<times> dump_io option" where
  "worker_handle_msg env dc rs m io =
     (case m of M_Start msg \<Rightarrow> execute_capture env dc rs msg io | _ \<Rightarrow> Inr ([], Some io))"

end
