(* ===== verification/Capture_Worker_Facts.thy ===== *)
theory Capture_Worker_Facts
  imports Capture_Worker
begin

text \<open>
  What holds of \<open>Capture_Worker\<close>: a capture with a duration ends with the first round at or after
  its deadline, reports every packet and, without a size limit, leaves them all in one file; a capture
  without a duration never ends, because nothing sets the flag the job polls.
\<close>

section \<open>Dumping without a size limit\<close>

text \<open>The job writes to \<open>path\<close>, which holds \<open>ps\<close>.\<close>

definition dumping :: "string \<Rightarrow> packet list \<Rightarrow> CRxDumpCtx \<times> dump_io \<Rightarrow> bool" where
  "dumping path ps s \<longleftrightarrow>
     dc_max_bytes (fst s) = 0 \<and> dc_d (fst s) = Some path \<and> dc_current_path (fst s) = path \<and>
     io_files (snd s) path = Some ps"

lemma dump_cb_dumping:
  assumes "dumping path ps s"
  shows "\<exists>s'. dump_cb ck opens p s = Inr s' \<and> dumping path (ps @ [p]) s'"
  using assms by (cases s) (simp add: dumping_def dump_cb_def pcap_dump_def)

lemma dump_all_dumping:
  "dumping path ps s \<Longrightarrow> \<exists>s'. dump_all ck opens qs s = Inr s' \<and> dumping path (ps @ qs) s'"
proof (induction qs arbitrary: ps s)
  case (Cons q qs)
  obtain s1 where s1: "dump_cb ck opens q s = Inr s1" "dumping path (ps @ [q]) s1"
    using dump_cb_dumping [OF Cons.prems] by blast
  show ?case using Cons.IH [OF s1(2)] s1(1) by simp
qed simp

section \<open>Rounds\<close>

definition round_over :: "CRxCaptureJob \<Rightarrow> dispatch_round \<Rightarrow> bool" where
  "round_over job r \<longleftrightarrow>
     ti_stopping (jb_parent job) \<or> (jb_end_time job > 0 \<and> word_of_int (ck_now (dr_clock r)) \<ge> jb_end_time job)"

text \<open>A successful round counts its packets, keeps the deadline and ends the job when it is over.\<close>

lemma run_once_facts:
  assumes "\<not> jb_done job" "dump_all (dr_clock r) opens (dr_packets r) (jb_dumper job, io) = Inr (dc, io1)"
  shows "\<exists>ret job1. run_once opens r (job, io) = Inr (ret, job1, io1) \<and> jb_dumper job1 = dc \<and>
    jb_done job1 = round_over job r \<and> jb_end_time job1 = jb_end_time job \<and> jb_parent job1 = jb_parent job \<and>
    (\<not> dr_failed r \<longrightarrow> jb_packets job1 = jb_packets job + of_nat (length (dr_packets r)))"
  using assms by (cases "dr_packets r") (simp_all add: run_once_def Let_def round_over_def)

text \<open>The rounds before the deadline, then the one that ends the capture.\<close>

lemma capture_loop_dumping:
  assumes "\<not> jb_done job" "dumping path ps (jb_dumper job, io)"
    and "\<forall>a \<in> set as. \<not> round_over job a \<and> \<not> dr_failed a" "round_over job r" "\<not> dr_failed r"
  shows "\<exists>job' io'. capture_loop opens (as @ r # bs) (job, io) = Inr (Some (job', io')) \<and>
    dumping path (ps @ concat (map dr_packets (as @ [r]))) (jb_dumper job', io') \<and>
    jb_packets job' = jb_packets job + of_nat (length (concat (map dr_packets (as @ [r]))))"
  using assms
proof (induction as arbitrary: job io ps)
  case Nil
  obtain s1 where s1: "dump_all (dr_clock r) opens (dr_packets r) (jb_dumper job, io) = Inr s1"
    "dumping path (ps @ dr_packets r) s1"
    using dump_all_dumping [OF Nil.prems(2)] by blast
  obtain dc io1 where dc: "s1 = (dc, io1)" by fastforce
  obtain ret job1 where r1: "run_once opens r (job, io) = Inr (ret, job1, io1)" "jb_dumper job1 = dc" "jb_done job1"
    "jb_packets job1 = jb_packets job + of_nat (length (dr_packets r))"
    using run_once_facts [OF Nil.prems(1) s1(1) [unfolded dc]] Nil.prems(4,5) by blast
  have "capture_loop opens (r # bs) (job, io) = Inr (Some (job1, io1))"
    using Nil.prems(1) r1 by (simp add: capture_loop.simps)
  then show ?case using s1(2) dc r1 by simp
next
  case (Cons a as)
  obtain s1 where s1: "dump_all (dr_clock a) opens (dr_packets a) (jb_dumper job, io) = Inr s1"
    "dumping path (ps @ dr_packets a) s1"
    using dump_all_dumping [OF Cons.prems(2)] by blast
  obtain dc io1 where dc: "s1 = (dc, io1)" by fastforce
  obtain ret job1 where r1: "run_once opens a (job, io) = Inr (ret, job1, io1)" "jb_dumper job1 = dc" "\<not> jb_done job1"
    "jb_end_time job1 = jb_end_time job" "jb_parent job1 = jb_parent job"
    "jb_packets job1 = jb_packets job + of_nat (length (dr_packets a))"
    using run_once_facts [OF Cons.prems(1) s1(1) [unfolded dc]] Cons.prems(3) by (metis list.set_intros(1))
  have same: "round_over job1 x = round_over job x" for x using r1 by (simp add: round_over_def)
  have "\<forall>a \<in> set as. \<not> round_over job1 a \<and> \<not> dr_failed a" "round_over job1 r"
    using Cons.prems(3,4) by (simp_all add: same)
  with Cons.IH [of job1 "ps @ dr_packets a" io1] r1 s1(2) dc Cons.prems(5)
  obtain job' io' where "capture_loop opens (as @ r # bs) (job1, io1) = Inr (Some (job', io'))"
    "dumping path ((ps @ dr_packets a) @ concat (map dr_packets (as @ [r]))) (jb_dumper job', io')"
    "jb_packets job' = jb_packets job1 + of_nat (length (concat (map dr_packets (as @ [r]))))"
    by blast
  moreover have "capture_loop opens ((a # as) @ r # bs) (job, io) = capture_loop opens (as @ r # bs) (job1, io1)"
    using Cons.prems(1) r1(1) by (simp add: capture_loop.simps [of _ "a # _"])
  ultimately show ?case using r1(6) by (intro exI [of _ job'] exI [of _ io']) simp
qed

lemma capture_loop_runs_on:
  assumes "\<not> jb_done job" "\<forall>path. opens path" "dc_d (jb_dumper job) \<noteq> None"
    and "jb_end_time job = 0" "\<not> ti_stopping (jb_parent job)"
  shows "capture_loop opens rs (job, io) = Inr None"
  using assms
proof (induction rs arbitrary: job io)
  case Nil
  then show ?case by (simp add: capture_loop.simps)
next
  case (Cons r rs)
  obtain dc io1 where d: "dump_all (dr_clock r) opens (dr_packets r) (jb_dumper job, io) = Inr (dc, io1)"
    "dc_d dc \<noteq> None"
    using dump_all_opened [OF Cons.prems(2), of "(jb_dumper job, io)"] Cons.prems(3) by fastforce
  obtain ret job1 where r1: "run_once opens r (job, io) = Inr (ret, job1, io1)" "jb_dumper job1 = dc"
    "jb_done job1 = round_over job r" "jb_end_time job1 = jb_end_time job" "jb_parent job1 = jb_parent job"
    using run_once_facts [OF Cons.prems(1) d(1)] by blast
  have "capture_loop opens rs (job1, io1) = Inr None"
    by (rule Cons.IH [OF _ Cons.prems(2)]) (use r1 d(2) Cons.prems(4,5) in \<open>simp_all add: round_over_def\<close>)
  then show ?case using Cons.prems(1) r1(1) by (simp add: capture_loop.simps [of _ "r # _"])
qed

section \<open>The start of a capture\<close>

lemma rotated_dumping:
  assumes "\<forall>path. opens path" "dc_max_bytes dc = 0"
  shows "dumping (dc_current_path (fst (rotate_open ck opens (dc, io)))) [] (rotate_open ck opens (dc, io))"
  using assms by (simp add: dumping_def rotate_open_def pcap_dump_open_def Let_def)

lemma task_pattern: "tc_file_pattern (build_task_cfg spec config) \<noteq> []"
  by (simp add: build_task_cfg_def Let_def DEFAULT_PATTERN_def)

text \<open>What a started job looks like: the first file is open, the deadline is set.\<close>

lemma job_prepare_ok:
  assumes "ce_open_live env" "\<forall>path. ce_opens env path"
  shows "\<exists>job1 io1. job_prepare env (job_new dc (ti_cfg (task_info_for msg)) (task_info_for msg), io) = (True, job1, io1) \<and>
    \<not> jb_done job1 \<and> jb_packets job1 = 0 \<and> \<not> ti_stopping (jb_parent job1) \<and>
    (jb_dumper job1, io1) = rotate_open (ce_clock env) (ce_opens env)
      (initial_dumper (ck_now (ce_clock env)) (ti_cfg (task_info_for msg)) (task_info_for msg), io) \<and>
    jb_end_time job1 =
      (let d = tc_duration_sec (build_task_cfg (start_spec msg) (start_config msg)) in
       if d > 0 then word_of_int (ck_now (ce_clock env)) + word_of_int d else 0)"
proof -
  let ?info = "task_info_for msg"
  obtain dc1 io1 where r: "rotate_open (ce_clock env) (ce_opens env)
      (initial_dumper (ck_now (ce_clock env)) (ti_cfg ?info) ?info, io) = (dc1, io1)" by fastforce
  have "dc_d dc1 \<noteq> None"
    using rotate_opens [OF assms(2), of "ce_clock env"
        "(initial_dumper (ck_now (ce_clock env)) (ti_cfg ?info) ?info, io)"] r by simp
  then show ?thesis using assms r task_pattern
    by (simp add: job_prepare_def job_new_def task_info_for_def Let_def)
qed

lemma join_path_nonempty: "a \<noteq> [] \<Longrightarrow> join_path a b \<noteq> []"
  by (auto simp: join_path_def)

lemma rotated_path_nonempty:
  "dc_base_dir dc \<noteq> [] \<Longrightarrow> dc_current_path (fst (rotate_open ck opens (dc, io))) \<noteq> []"
  by (auto simp: rotate_open_def Let_def expand_pattern_def join_path_nonempty split: prod.splits)

section \<open>The name of the dump file\<close>

text \<open>Once a file is open, the context names a file, through every rotation.\<close>

definition named :: "CRxDumpCtx \<Rightarrow> bool" where
  "named dc \<longleftrightarrow> dc_base_dir dc \<noteq> [] \<and> dc_current_path dc \<noteq> []"

lemma rotate_named: "dc_base_dir dc \<noteq> [] \<Longrightarrow> named (fst (rotate_open ck opens (dc, io)))"
  using rotated_path_nonempty [of dc ck opens io]
  by (simp add: named_def rotate_open_def Let_def split: prod.splits)

lemma named_written [simp]: "named (dc\<lparr>dc_written := n\<rparr>) = named dc"
  by (simp add: named_def)

lemma dump_cb_named:
  assumes "dump_cb ck opens p (dc, io) = Inr s" "named dc"
  shows "named (fst s)"
proof -
  define full where "full \<longleftrightarrow> dc_max_bytes dc > 0 \<and> dc_d dc \<noteq> None \<and> dc_written dc + pkt_bytes p > dc_max_bytes dc"
  obtain dc1 io1 where s1: "(if full then rotate_open ck opens (dc, io) else (dc, io)) = (dc1, io1)" by fastforce
  have "named dc1"
    using s1 assms(2) rotate_named [of dc ck opens io] by (cases full) (simp_all add: named_def)
  moreover have "(if full \<and> dc_d dc1 = None then Inr (dc1, io1)
      else try_then (pcap_dump (dc_d dc1) p io1) (\<lambda>io2.
        Inr (dc1\<lparr>dc_written := dc_written dc1 + pkt_bytes p\<rparr>, io2))) = Inr s"
    using assms(1) s1 by (simp add: dump_cb_def full_def Let_def)
  ultimately show ?thesis by (auto simp: try_then_Inr_iff split: if_splits)
qed

lemma dump_all_named: "dump_all ck opens ps s = Inr s' \<Longrightarrow> named (fst s) \<Longrightarrow> named (fst s')"
proof (induction ps arbitrary: s)
  case (Cons p ps)
  then obtain s1 where "dump_cb ck opens p s = Inr s1" "dump_all ck opens ps s1 = Inr s'"
    by (auto elim: try_then_InrE)
  then show ?case using Cons.IH dump_cb_named [of ck opens p "fst s" "snd s"] Cons.prems(2) by simp
qed simp

lemma capture_loop_named:
  "capture_loop opens rs (job, io) = Inr (Some (job', io')) \<Longrightarrow> named (jb_dumper job) \<Longrightarrow> named (jb_dumper job')"
proof (induction rs arbitrary: job io)
  case Nil
  then show ?case by (simp add: capture_loop.simps split: if_splits)
next
  case (Cons r rs)
  show ?case
  proof (cases "jb_done job")
    case True
    then show ?thesis using Cons.prems by (simp add: capture_loop.simps)
  next
    case False
    then obtain ret job1 io1 where r1: "run_once opens r (job, io) = Inr (ret, job1, io1)"
      and rest: "capture_loop opens rs (job1, io1) = Inr (Some (job', io'))"
      using Cons.prems(1) by (auto simp: capture_loop.simps [of _ "r # rs"] elim!: try_then_InrE)
    then obtain dc io2 where d: "dump_all (dr_clock r) opens (dr_packets r) (jb_dumper job, io) = Inr (dc, io2)"
      using False by (auto simp: run_once_def elim!: try_then_InrE)
    have "jb_dumper job1 = dc" using run_once_facts [OF False d] r1 by auto
    then show ?thesis using Cons.IH [OF rest] dump_all_named [OF d] Cons.prems(2) by simp
  qed
qed

text \<open>The job of a capture with a duration: it starts, and its loop ends with the first round at the deadline.\<close>

lemma deadline_run:
  assumes "ce_open_live env" "\<forall>path. ce_opens env path"
    and "build_task_cfg (start_spec msg) (start_config msg) = cfg" "0 < tc_duration_sec cfg" "tc_max_bytes cfg = 0"
    and "0 \<le> ck_now (ce_clock env)" "ck_now (ce_clock env) + tc_duration_sec cfg = deadline" "deadline < 2 ^ 64"
    and "\<forall>a \<in> set as. \<not> dr_failed a \<and> 0 \<le> ck_now (dr_clock a) \<and> ck_now (dr_clock a) < deadline"
    and "\<not> dr_failed r" "deadline \<le> ck_now (dr_clock r)" "ck_now (dr_clock r) < 2 ^ 64"
  shows "\<exists>job1 io1 job2 io2.
    job_prepare env (job_new dc (ti_cfg (task_info_for msg)) (task_info_for msg), io) = (True, job1, io1) \<and>
    capture_loop (ce_opens env) (as @ r # bs) (job1, io1) = Inr (Some (job2, io2)) \<and>
    dumping (get_final_path job1) (concat (map dr_packets (as @ [r]))) (jb_dumper job2, io2) \<and>
    jb_packets job2 = of_nat (length (concat (map dr_packets (as @ [r]))))"
proof -
  obtain job1 io1 where p: "job_prepare env (job_new dc (ti_cfg (task_info_for msg)) (task_info_for msg), io) =
      (True, job1, io1)" "\<not> jb_done job1" "jb_packets job1 = 0" "\<not> ti_stopping (jb_parent job1)"
    and d: "(jb_dumper job1, io1) = rotate_open (ce_clock env) (ce_opens env)
      (initial_dumper (ck_now (ce_clock env)) (ti_cfg (task_info_for msg)) (task_info_for msg), io)"
    and "end": "jb_end_time job1 = word_of_int deadline"
    using job_prepare_ok [OF assms(1,2), of dc msg io] assms(3-7)
    by (auto simp: of_int_add [symmetric] simp del: of_int_add)
  define path where "path = dc_current_path (jb_dumper job1)"
  define dc0 where "dc0 = initial_dumper (ck_now (ce_clock env)) (ti_cfg (task_info_for msg)) (task_info_for msg)"
  have "dc_max_bytes dc0 = 0" using assms(3,5) by (simp add: dc0_def initial_dumper_def task_info_for_def)
  from rotated_dumping [OF assms(2) this, of "ce_clock env" io]
  have dumping: "dumping path [] (jb_dumper job1, io1)"
    by (simp add: dc0_def d [symmetric] path_def)
  have time: "word_of_int t \<ge> (word_of_int deadline :: u64) \<longleftrightarrow> deadline \<le> t" if "0 \<le> t" "t < 2 ^ 64" for t
    using that assms(4,6-8) by (simp add: word_le_def take_bit_int_eq_self uint_word_of_int_eq)
  have "jb_end_time job1 > 0"
    using assms(4,6-8) "end" by (simp add: word_less_def take_bit_int_eq_self uint_word_of_int_eq)
  then have over: "round_over job1 x \<longleftrightarrow> deadline \<le> ck_now (dr_clock x)"
    if "0 \<le> ck_now (dr_clock x)" "ck_now (dr_clock x) < 2 ^ 64" for x
    using time [OF that] p(4) "end" by (simp add: round_over_def)
  have before: "\<forall>a \<in> set as. \<not> round_over job1 a \<and> \<not> dr_failed a" using over assms(8,9) by fastforce
  have "round_over job1 r" using over [of r] assms(4,6,7,11,12) by simp
  with capture_loop_dumping [OF p(2) dumping before _ assms(10), of "ce_opens env" bs]
  obtain job2 io2 where l: "capture_loop (ce_opens env) (as @ r # bs) (job1, io1) = Inr (Some (job2, io2))"
    and d2: "dumping path (concat (map dr_packets (as @ [r]))) (jb_dumper job2, io2)"
    and n: "jb_packets job2 = of_nat (length (concat (map dr_packets (as @ [r]))))"
    using p(3) by auto
  then show ?thesis using p(1) l by (auto simp: path_def get_final_path_def)
qed

section \<open>Properties\<close>

text \<open>
  C24. A capture with a duration ends at its deadline.  When the device and every file open, no size
  limit is set and the times fit 64 bits, the worker returns with the first dispatch round whose clock
  has reached the start time plus the duration, whatever would come later.  It has counted every packet
  delivered up to then, modulo \<open>2 ^ 64\<close>, the file it names holds exactly these packets in order, and it
  has sent the start and the end reports.
\<close>

theorem capture_ends_at_deadline:
  assumes "ce_open_live env" "\<forall>path. ce_opens env path"
    and "build_task_cfg (start_spec msg) (start_config msg) = cfg" "0 < tc_duration_sec cfg" "tc_max_bytes cfg = 0"
    and "0 \<le> ck_now (ce_clock env)" "ck_now (ce_clock env) + tc_duration_sec cfg = deadline" "deadline < 2 ^ 64"
    and "\<forall>a \<in> set as. \<not> dr_failed a \<and> 0 \<le> ck_now (dr_clock a) \<and> ck_now (dr_clock a) < deadline"
    and "\<not> dr_failed r" "deadline \<le> ck_now (dr_clock r)" "ck_now (dr_clock r) < 2 ^ 64"
  shows "\<exists>path job io2. execute_capture env dc (as @ r # bs) msg io =
      Inr (send_started env msg path @ report_capture env msg job io2, Some io2) \<and>
    get_final_path job = path \<and> io_files io2 path = Some (concat (map dr_packets (as @ [r]))) \<and>
    jb_packets job = of_nat (length (concat (map dr_packets (as @ [r]))))"
proof -
  obtain job1 io1 job2 io2 where
    p: "job_prepare env (job_new dc (ti_cfg (task_info_for msg)) (task_info_for msg), io) = (True, job1, io1)"
    and l: "capture_loop (ce_opens env) (as @ r # bs) (job1, io1) = Inr (Some (job2, io2))"
    and d2: "dumping (get_final_path job1) (concat (map dr_packets (as @ [r]))) (jb_dumper job2, io2)"
    and n: "jb_packets job2 = of_nat (length (concat (map dr_packets (as @ [r]))))"
    using deadline_run [OF assms, of dc io bs] by blast
  have "execute_capture env dc (as @ r # bs) msg io =
      Inr (send_started env msg (get_final_path job1) @ report_capture env msg (job_cleanup job2) io2, Some io2)"
    using p l by (simp add: execute_capture_def Let_def)
  moreover have "get_final_path (job_cleanup job2) = get_final_path job1"
      "io_files io2 (get_final_path job1) = Some (concat (map dr_packets (as @ [r])))"
    using d2 by (simp_all add: dumping_def get_final_path_def job_cleanup_def)
  moreover have "jb_packets (job_cleanup job2) = of_nat (length (concat (map dr_packets (as @ [r]))))"
    using n by (simp add: job_cleanup_def)
  ultimately show ?thesis by blast
qed

definition sample_start :: "int \<Rightarrow> SRxCaptureStartMsgV2" where
  "sample_start d =
     \<lparr>cm_msg_op = RX_MSG_CAPTURE_START, cm_capture_id = 7, cm_key = ''k'', cm_sid = ''s'', cm_op_version = 1,
      cm_ts_usec = 0, cm_config_hash = 0, cm_sender_thread_index = 2,
      start_config = CaptureConfigSnapshot_new\<lparr>cc_max_duration_sec := d\<rparr>,
      start_spec = CaptureSpec_new\<lparr>sp_iface := ''eth0''\<rparr>, start_worker_id = 0\<rparr>"

definition clock_at :: "int \<Rightarrow> clock" where
  "clock_at t = sample_clock\<lparr>ck_now := t\<rparr>"

definition sample_capture_env :: capture_env where
  "sample_capture_env =
     \<lparr>ce_open_live = True, ce_opens = \<lambda>_. True, ce_stat = \<lambda>_ _. None, ce_clock = clock_at 100, ce_start_ts = 0,
      ce_finish_ts = 0, ce_sent_ts = \<lambda>_. 0, ce_pid = 1, ce_thread_index = 4\<rparr>"

definition round_at :: "int \<Rightarrow> packet list \<Rightarrow> dispatch_round" where
  "round_at t ps = \<lparr>dr_packets = ps, dr_failed = False, dr_clock = clock_at t\<rparr>"

lemma sample_task:
  "tc_duration_sec (build_task_cfg (start_spec (sample_start d)) (start_config (sample_start d))) = max 0 d"
  "tc_max_bytes (build_task_cfg (start_spec (sample_start d)) (start_config (sample_start d))) = 0"
  by (simp_all add: build_task_cfg_def sample_start_def CaptureSpec_new_def CaptureConfigSnapshot_new_def Let_def)

theorem capture_ends_at_deadline_witness:
  "\<exists>path io2 out. execute_capture sample_capture_env sample_ctx
     [round_at 101 [sample_packet], round_at 105 [sample_packet], round_at 106 []] (sample_start 5)
       \<lparr>io_dirs = [], io_files = Map.empty\<rparr> = Inr (out, Some io2) \<and>
     io_files io2 path = Some [sample_packet, sample_packet]"
proof -
  have "ce_open_live sample_capture_env" "\<forall>path. ce_opens sample_capture_env path"
    "ck_now (ce_clock sample_capture_env) = 100"
    by (simp_all add: sample_capture_env_def clock_at_def)
  then show ?thesis
    using capture_ends_at_deadline [of sample_capture_env "sample_start 5" _ 105 "[round_at 101 [sample_packet]]"
        "round_at 105 [sample_packet]" sample_ctx "[round_at 106 []]"
        "\<lparr>io_dirs = [], io_files = Map.empty\<rparr>", OF _ _ refl]
    by (fastforce simp: sample_task round_at_def clock_at_def)
qed

text \<open>
  A capture without a duration never ends.  When neither the specification nor the configuration
  sets a positive duration, no number of dispatch rounds makes the worker return: the only other way
  out is the flag \<open>stopping\<close> of a task info that is local to the call, so a stop or cancel request
  cannot reach it.  The limit on packets is not looked at either.
\<close>

theorem capture_without_duration_never_ends:
  assumes "ce_open_live env" "\<forall>path. ce_opens env path"
    and "sp_max_duration_sec (start_spec msg) \<le> 0" "cc_max_duration_sec (start_config msg) \<le> 0"
  shows "\<exists>path. execute_capture env dc rs msg io = Inr (send_started env msg path, None)"
proof -
  obtain job1 io1 where p: "job_prepare env (job_new dc (ti_cfg (task_info_for msg)) (task_info_for msg), io) =
      (True, job1, io1)" "\<not> jb_done job1" "\<not> ti_stopping (jb_parent job1)"
    and d: "(jb_dumper job1, io1) = rotate_open (ce_clock env) (ce_opens env)
      (initial_dumper (ck_now (ce_clock env)) (ti_cfg (task_info_for msg)) (task_info_for msg), io)"
    and "end": "jb_end_time job1 = 0"
    using job_prepare_ok [OF assms(1,2), of dc msg io] assms(3,4) by (auto simp: build_task_cfg_def Let_def)
  have "dc_d (jb_dumper job1) \<noteq> None" using rotate_opens [OF assms(2)] d by (metis fst_conv)
  then have "capture_loop (ce_opens env) rs (job1, io1) = Inr None"
    by (rule capture_loop_runs_on [OF p(2) assms(2) _ "end" p(3)])
  then have "execute_capture env dc rs msg io = Inr (send_started env msg (get_final_path job1), None)"
    using p(1) by (simp add: execute_capture_def Let_def)
  then show ?thesis by blast
qed

theorem capture_without_duration_never_ends_witness:
  "\<exists>path. execute_capture sample_capture_env sample_ctx [round_at 105 [sample_packet]] (sample_start 0)
     \<lparr>io_dirs = [], io_files = Map.empty\<rparr> =
   Inr (send_started sample_capture_env (sample_start 0) path, None)"
  by (rule capture_without_duration_never_ends)
    (simp_all add: sample_capture_env_def sample_start_def CaptureSpec_new_def CaptureConfigSnapshot_new_def)

text \<open>The code of a message and the identity of the capture it is about.\<close>

fun msg_head :: "rx_msg \<Rightarrow> (rx_op \<times> int \<times> string \<times> string) option" where
  "msg_head (M_Started m) = Some (cm_msg_op m, cm_capture_id m, cm_key m, cm_sid m)"
| "msg_head (M_File_ready m) = Some (cm_msg_op m, cm_capture_id m, cm_key m, cm_sid m)"
| "msg_head (M_Finished m) = Some (cm_msg_op m, cm_capture_id m, cm_key m, cm_sid m)"
| "msg_head (M_Failed m) = Some (cm_msg_op m, cm_capture_id m, cm_key m, cm_sid m)"
| "msg_head (M_Raw_file m) = Some (cm_msg_op m, cm_capture_id m, cm_key m, cm_sid m)"
| "msg_head _ = None"

lemmas send_defs = send_started_def send_file_ready_def send_finished_def send_failure_def
  send_raw_file_for_filter_def send_to_manager_def CaptureMessageBase.defs SRxCaptureStartedMsgV2.defs
  SRxCaptureFileReadyMsgV2.defs SRxCaptureFinishedMsgV2.defs SRxCaptureFailedMsgV2.defs
  SRxCaptureRawFileMsgV2.defs reply_base_def

text \<open>
  C31. What a worker tells its manager.  However a capture goes, the messages all go to the thread the
  start message came from, carry its capture id, key and session, and their codes are: a failure alone;
  or a start report, and then, if the capture ends, the raw file when a packet definition filters it,
  else the files followed by the result.  Nothing is sent when the start message names no manager.
\<close>

theorem worker_message_sequence:
  assumes "execute_capture env dc rs msg io = Inr (out, ended)"
  shows "if cm_sender_thread_index msg \<le> 0 then out = []
    else \<exists>ops. map (\<lambda>(t, m). (t, msg_head m)) out =
           map (\<lambda>c. (word_of_int (cm_sender_thread_index msg),
                  Some (c, cm_capture_id msg, cm_key msg, cm_sid msg))) ops \<and>
         (ops = [RX_MSG_CAPTURE_FAILED] \<or>
          ops = RX_MSG_CAPTURE_STARTED #
            (if ended = None then []
             else if sp_protocol_filter (start_spec msg) \<noteq> [] \<or> sp_protocol_filter_inline (start_spec msg) \<noteq> []
             then [RX_MSG_CAPTURE_RAW_FILE]
             else [RX_MSG_CAPTURE_FILE_READY, RX_MSG_CAPTURE_FINISHED]))"
proof -
  obtain ok job1 io1 where p: "job_prepare env (job_new dc (ti_cfg (task_info_for msg)) (task_info_for msg), io) =
      (ok, job1, io1)" by (metis prod_cases3)
  show ?thesis
  proof (cases ok)
    case False
    then have "out = send_failure env msg ERR_START_TCPDUMP_FAILED ''pcap_prepare_failed''"
      using assms p by (simp add: execute_capture_def Let_def)
    then show ?thesis by (auto simp: send_defs intro!: exI [of _ "[RX_MSG_CAPTURE_FAILED]"])
  next
    case True
    have named: "named (jb_dumper job1)"
      using p True task_pattern [of "start_spec msg" "start_config msg"]
        rotate_named [of "initial_dumper (ck_now (ce_clock env)) (ti_cfg (task_info_for msg)) (task_info_for msg)"
          "ce_clock env" "ce_opens env" io]
      by (auto simp: job_prepare_def job_new_def task_info_for_def initial_dumper_def Let_def
          split: if_splits prod.splits)
    obtain r where r: "capture_loop (ce_opens env) rs (job1, io1) = Inr r"
      using assms p True by (auto simp: execute_capture_def Let_def elim!: try_then_InrE)
    show ?thesis
    proof (cases r)
      case None
      then show ?thesis using assms p True r
        by (auto simp: execute_capture_def Let_def send_defs intro!: exI [of _ "[RX_MSG_CAPTURE_STARTED]"])
    next
      case (Some s)
      obtain job2 io2 where s: "s = (job2, io2)" by fastforce
      have "get_final_path (job_cleanup job2) \<noteq> []"
        using capture_loop_named [of "ce_opens env" rs job1 io1 job2 io2] r Some s named
        by (simp add: named_def get_final_path_def job_cleanup_def)
      moreover have "out = send_started env msg (get_final_path job1) @ report_capture env msg (job_cleanup job2) io2"
        "ended = Some io2"
        using assms p True r Some s by (simp_all add: execute_capture_def Let_def)
      moreover define ops where "ops = RX_MSG_CAPTURE_STARTED #
        (if sp_protocol_filter (start_spec msg) \<noteq> [] \<or> sp_protocol_filter_inline (start_spec msg) \<noteq> []
         then [RX_MSG_CAPTURE_RAW_FILE] else [RX_MSG_CAPTURE_FILE_READY, RX_MSG_CAPTURE_FINISHED])"
      ultimately have "if cm_sender_thread_index msg \<le> 0 then out = []
        else map (\<lambda>(t, m). (t, msg_head m)) out =
           map (\<lambda>c. (word_of_int (cm_sender_thread_index msg),
                  Some (c, cm_capture_id msg, cm_key msg, cm_sid msg))) ops"
        by (cases "cm_sender_thread_index msg \<le> 0";
            cases "sp_protocol_filter (start_spec msg) \<noteq> [] \<or> sp_protocol_filter_inline (start_spec msg) \<noteq> []")
          (simp_all add: report_capture_def captured_files_def send_defs Let_def)
      note heads = this
      have shape: "ops = RX_MSG_CAPTURE_STARTED # (if ended = None then []
          else if sp_protocol_filter (start_spec msg) \<noteq> [] \<or> sp_protocol_filter_inline (start_spec msg) \<noteq> []
          then [RX_MSG_CAPTURE_RAW_FILE] else [RX_MSG_CAPTURE_FILE_READY, RX_MSG_CAPTURE_FINISHED])"
        using \<open>ended = Some io2\<close> by (simp add: ops_def)
      show ?thesis
      proof (cases "cm_sender_thread_index msg \<le> 0")
        case False
        show ?thesis unfolding if_not_P [OF False]
          by (intro exI [of _ ops] conjI disjI2 shape) (use heads False in \<open>simp only: if_False\<close>)
      qed (use heads in simp)
    qed
  qed
qed

theorem worker_message_sequence_witness:
  "\<exists>out. execute_capture (sample_capture_env\<lparr>ce_open_live := False\<rparr>) sample_ctx [] (sample_start 5)
       \<lparr>io_dirs = [], io_files = Map.empty\<rparr> = Inr (out, Some \<lparr>io_dirs = [], io_files = Map.empty\<rparr>) \<and>
     length out = 1"
proof -
  obtain out where run: "execute_capture (sample_capture_env\<lparr>ce_open_live := False\<rparr>) sample_ctx [] (sample_start 5)
       \<lparr>io_dirs = [], io_files = Map.empty\<rparr> = Inr (out, Some \<lparr>io_dirs = [], io_files = Map.empty\<rparr>)"
    and out: "length out = 1"
    by (simp add: execute_capture_def job_prepare_def Let_def send_defs sample_start_def job_new_def)
  from worker_message_sequence [OF run] have "out \<noteq> []" by (auto simp: sample_start_def)
  then show ?thesis using run out by blast
qed

end
