(* ===== verification/Server_Config.thy ===== *)
theory Server_Config
  imports Dump_Storage
begin

text \<open>
  The configuration of the server, \<open>src/src/rxserverconfig.cpp\<close> and \<open>src/src/rxserverconfig.h\<close>.  The
  JSON parser is third-party code: it is the argument \<open>parse_json\<close>, \<open>None\<close> on a parse error, and
  \<open>json\<close> is the document type the sources query.  The files are the argument \<open>files\<close>.
\<close>

section \<open>JSON documents\<close>

datatype json =
  J_null
| J_bool bool
| J_int int
| J_double
| J_string string
| J_array "json list"
| J_object "(string \<times> json) list"

type_synonym json_parser = "string \<Rightarrow> json option"
type_synonym file_map = "string \<Rightarrow> string option"

text \<open>\<open>c_str\<close> ends at the first NUL; a member is the first of its name.\<close>

definition c_str :: "string \<Rightarrow> string" where
  "c_str s = takeWhile (\<lambda>c. c \<noteq> NUL) s"

fun json_member :: "json \<Rightarrow> string \<Rightarrow> json option" where
  "json_member (J_object ms) k = map_of ms k"
| "json_member _ k = None"

fun is_object :: "json \<Rightarrow> bool" where
  "is_object (J_object ms) = True"
| "is_object _ = False"

text \<open>\<open>HasMember (k) && [k].IsT ()\<close> and then the setter; otherwise the object stays as it is.\<close>

definition is_int32 :: "int \<Rightarrow> bool" where
  "is_int32 i \<longleftrightarrow> - (2 ^ 31) \<le> i \<and> i < 2 ^ 31"

definition take_int :: "json \<Rightarrow> string \<Rightarrow> (int \<Rightarrow> 'a \<Rightarrow> 'a) \<Rightarrow> 'a \<Rightarrow> 'a" where
  "take_int v k upd x =
     (case json_member v k of Some (J_int i) \<Rightarrow> if is_int32 i then upd i x else x | _ \<Rightarrow> x)"

definition take_string :: "json \<Rightarrow> string \<Rightarrow> (string \<Rightarrow> 'a \<Rightarrow> 'a) \<Rightarrow> 'a \<Rightarrow> 'a" where
  "take_string v k upd x = (case json_member v k of Some (J_string s) \<Rightarrow> upd (c_str s) x | _ \<Rightarrow> x)"

definition take_bool :: "json \<Rightarrow> string \<Rightarrow> (bool \<Rightarrow> 'a \<Rightarrow> 'a) \<Rightarrow> 'a \<Rightarrow> 'a" where
  "take_bool v k upd x = (case json_member v k of Some (J_bool b) \<Rightarrow> upd b x | _ \<Rightarrow> x)"

definition in_object :: "json \<Rightarrow> string \<Rightarrow> (json \<Rightarrow> 'a \<Rightarrow> 'a) \<Rightarrow> 'a \<Rightarrow> 'a" where
  "in_object doc k f x =
     (case json_member doc k of Some v \<Rightarrow> if is_object v then f v x else x | None \<Rightarrow> x)"

text \<open>Opening, reading and parsing a file: the document when it is an object.\<close>

definition read_document :: "json_parser \<Rightarrow> file_map \<Rightarrow> string \<Rightarrow> json option" where
  "read_document parse_json files path =
     (case files path of
        None \<Rightarrow> None
      | Some content \<Rightarrow>
          (case parse_json (c_str content) of
             None \<Rightarrow> None
           | Some doc \<Rightarrow> if is_object doc then Some doc else None))"

section \<open>The configuration object\<close>

record LogConfig =
  lg_path :: string
  lg_prefix :: string
  lg_size_mb :: u32
  lg_level :: int

record CaptureConfig =
  cp_default_interface :: string
  cp_default_duration :: int
  cp_default_category :: string
  cp_file_pattern :: string
  cp_max_file_size_mb :: int

record StorageConfig =
  st_base_dir :: string
  st_max_age_days :: int
  st_max_size_gb :: int
  st_temp_pdef_dir :: string
  st_temp_pdef_ttl_hours :: int

record CleanupConfig =
  cl_compress_interval_sec :: int
  cl_batch_compress_file_count :: u32
  cl_batch_compress_size_mb :: u64
  cl_archive_dir :: string
  cl_archive_keep_days :: int
  cl_archive_max_total_size_mb :: u64
  cl_archive_remove_source :: bool

record LimitsConfig =
  lm_max_concurrent_captures :: int

record CRxServerConfig =
  sc_log_config :: LogConfig
  sc_capture_config :: CaptureConfig
  sc_storage_config :: StorageConfig
  sc_cleanup_config :: CleanupConfig
  sc_limits_config :: LimitsConfig
  sc_log_path :: string
  sc_bind_addr :: string
  sc_port :: int
  sc_workers :: int
  sc_capture_threads :: int
  sc_strategy_path :: string
  sc_loaded_path :: string

text \<open>\<open>LOG_LEVEL_DEBUG\<close> of \<open>src/core/legacy_core.h\<close>: the five level bits.\<close>

definition LOG_LEVEL_DEBUG :: int where
  "LOG_LEVEL_DEBUG = 1 + 2 + 4 + 8 + 16"

definition LogConfig_new :: LogConfig where
  "LogConfig_new =
     \<lparr>lg_path = ''logs/rxtracenetcap.log'', lg_prefix = ''rxtrace'', lg_size_mb = 100, lg_level = LOG_LEVEL_DEBUG\<rparr>"

definition CaptureConfig_new :: CaptureConfig where
  "CaptureConfig_new =
     \<lparr>cp_default_interface = ''any'', cp_default_duration = 60, cp_default_category = ''diag'',
      cp_file_pattern = ''{day}/{date}-{iface}-{proc}-{port}.pcap'', cp_max_file_size_mb = 200\<rparr>"

definition StorageConfig_new :: StorageConfig where
  "StorageConfig_new =
     \<lparr>st_base_dir = ''/var/log/rxtrace/captures'', st_max_age_days = 7, st_max_size_gb = 100,
      st_temp_pdef_dir = ''/tmp/rxtracenetcap_pdef'', st_temp_pdef_ttl_hours = 24\<rparr>"

definition CleanupConfig_new :: CleanupConfig where
  "CleanupConfig_new =
     \<lparr>cl_compress_interval_sec = 600, cl_batch_compress_file_count = 10, cl_batch_compress_size_mb = 1024,
      cl_archive_dir = ''/var/log/rxtrace/archives'', cl_archive_keep_days = 14,
      cl_archive_max_total_size_mb = 0, cl_archive_remove_source = True\<rparr>"

definition LimitsConfig_new :: LimitsConfig where
  "LimitsConfig_new = \<lparr>lm_max_concurrent_captures = 8\<rparr>"

section \<open>The log path\<close>

definition add_option :: "string \<Rightarrow> string \<Rightarrow> string \<Rightarrow> string" where
  "add_option amp opt options = options @ (if options = [] then amp else ''&'') @ opt"

definition update_log_path :: "CRxServerConfig \<Rightarrow> CRxServerConfig" where
  "update_log_path c =
     (let log = sc_log_config c;
          config = (if lg_path log = [] then ''logs/rxtracenetcap.log'' else lg_path log);
          amp = (if CHR ''?'' \<in> set config then ''&'' else ''?'');
          o1 = (if lg_prefix log \<noteq> [] then add_option amp (''prefix='' @ lg_prefix log) [] else []);
          o2 = (if lg_size_mb log > 0
                then add_option amp (''size_mb='' @ snprintf 32 (dec_string (unat (lg_size_mb log)))) o1 else o1);
          o3 = (if lg_level log > 0
                then add_option amp (''level='' @ snprintf 32 (fmt_d 0 (lg_level log))) o2 else o2)
      in c\<lparr>sc_log_path := config @ o3\<rparr>)"

definition init_defaults :: "CRxServerConfig \<Rightarrow> CRxServerConfig" where
  "init_defaults c =
     update_log_path (c\<lparr>sc_bind_addr := ''0.0.0.0'', sc_port := 8080, sc_workers := 2, sc_capture_threads := 4,
       sc_strategy_path := ''config/strategy.json'', sc_loaded_path := [], sc_log_config := LogConfig_new,
       sc_cleanup_config := CleanupConfig_new\<rparr>)"

text \<open>The constructor without an argument: the members are constructed, then the defaults set.\<close>

definition CRxServerConfig_new :: CRxServerConfig where
  "CRxServerConfig_new =
     init_defaults
       \<lparr>sc_log_config = LogConfig_new, sc_capture_config = CaptureConfig_new, sc_storage_config = StorageConfig_new,
        sc_cleanup_config = CleanupConfig_new, sc_limits_config = LimitsConfig_new, sc_log_path = [],
        sc_bind_addr = [], sc_port = 0, sc_workers = 0, sc_capture_threads = 0, sc_strategy_path = [],
        sc_loaded_path = []\<rparr>"

section \<open>Loading\<close>

text \<open>\<open>strrchr\<close> for the last slash, then the name up to its last dot.\<close>

definition deduce_path_from_argv :: "string option \<Rightarrow> string" where
  "deduce_path_from_argv argv0 =
     (let base = (case argv0 of
                    None \<Rightarrow> ''rxtracenetcap''
                  | Some a \<Rightarrow> (case rfind_char (CHR ''/'') a of Some i \<Rightarrow> drop (Suc i) a | None \<Rightarrow> a));
          name = (if base \<noteq> [] then base else ''rxtracenetcap'');
          stem = (case rfind_char (CHR ''.'') name of Some i \<Rightarrow> take i name | None \<Rightarrow> name);
          stem1 = (if stem = [] then ''rxtracenetcap'' else stem)
      in ''config/'' @ stem1 @ ''.json'')"

definition load_server :: "json \<Rightarrow> CRxServerConfig \<Rightarrow> CRxServerConfig" where
  "load_server v = take_int v ''capture_threads'' (\<lambda>i c. c\<lparr>sc_capture_threads := i\<rparr>)
     \<circ> take_int v ''workers'' (\<lambda>i c. c\<lparr>sc_workers := i\<rparr>)
     \<circ> take_int v ''port'' (\<lambda>i c. c\<lparr>sc_port := i\<rparr>)
     \<circ> take_string v ''bind_addr'' (\<lambda>s c. c\<lparr>sc_bind_addr := s\<rparr>)"

definition load_logging :: "json \<Rightarrow> LogConfig \<Rightarrow> LogConfig" where
  "load_logging v = take_int v ''log_level'' (\<lambda>i c. c\<lparr>lg_level := i\<rparr>)
     \<circ> take_int v ''log_size_mb'' (\<lambda>i c. c\<lparr>lg_size_mb := word_of_int i\<rparr>)
     \<circ> take_string v ''log_prefix'' (\<lambda>s c. c\<lparr>lg_prefix := s\<rparr>)
     \<circ> take_string v ''log_path'' (\<lambda>s c. c\<lparr>lg_path := s\<rparr>)"

definition load_capture :: "json \<Rightarrow> CaptureConfig \<Rightarrow> CaptureConfig" where
  "load_capture v = take_int v ''max_file_size_mb'' (\<lambda>i c. c\<lparr>cp_max_file_size_mb := i\<rparr>)
     \<circ> take_string v ''file_pattern'' (\<lambda>s c. c\<lparr>cp_file_pattern := s\<rparr>)
     \<circ> take_string v ''default_category'' (\<lambda>s c. c\<lparr>cp_default_category := s\<rparr>)
     \<circ> take_int v ''default_duration'' (\<lambda>i c. c\<lparr>cp_default_duration := i\<rparr>)
     \<circ> take_string v ''default_interface'' (\<lambda>s c. c\<lparr>cp_default_interface := s\<rparr>)"

definition load_storage :: "json \<Rightarrow> StorageConfig \<Rightarrow> StorageConfig" where
  "load_storage v = take_int v ''temp_pdef_ttl_hours'' (\<lambda>i c. c\<lparr>st_temp_pdef_ttl_hours := i\<rparr>)
     \<circ> take_string v ''temp_pdef_dir'' (\<lambda>s c. c\<lparr>st_temp_pdef_dir := s\<rparr>)
     \<circ> take_int v ''max_size_gb'' (\<lambda>i c. c\<lparr>st_max_size_gb := i\<rparr>)
     \<circ> take_int v ''max_age_days'' (\<lambda>i c. c\<lparr>st_max_age_days := i\<rparr>)
     \<circ> take_string v ''base_dir'' (\<lambda>s c. c\<lparr>st_base_dir := s\<rparr>)"

text \<open>The unsigned fields take the signed number modulo their width.\<close>

definition load_cleanup :: "json \<Rightarrow> CleanupConfig \<Rightarrow> CleanupConfig" where
  "load_cleanup v = take_bool v ''archive_remove_source'' (\<lambda>b c. c\<lparr>cl_archive_remove_source := b\<rparr>)
     \<circ> take_int v ''archive_max_total_size_mb'' (\<lambda>i c. c\<lparr>cl_archive_max_total_size_mb := word_of_int i\<rparr>)
     \<circ> take_int v ''archive_keep_days'' (\<lambda>i c. c\<lparr>cl_archive_keep_days := i\<rparr>)
     \<circ> take_string v ''archive_dir'' (\<lambda>s c. c\<lparr>cl_archive_dir := s\<rparr>)
     \<circ> take_int v ''batch_compress_size_mb'' (\<lambda>i c. c\<lparr>cl_batch_compress_size_mb := word_of_int i\<rparr>)
     \<circ> take_int v ''batch_compress_file_count'' (\<lambda>i c. c\<lparr>cl_batch_compress_file_count := word_of_int i\<rparr>)
     \<circ> take_int v ''compress_interval_sec'' (\<lambda>i c. c\<lparr>cl_compress_interval_sec := i\<rparr>)"

definition load_limits :: "json \<Rightarrow> LimitsConfig \<Rightarrow> LimitsConfig" where
  "load_limits v = take_int v ''max_concurrent_captures'' (\<lambda>i c. c\<lparr>lm_max_concurrent_captures := i\<rparr>)"

definition load_from_path ::
  "json_parser \<Rightarrow> file_map \<Rightarrow> string \<Rightarrow> CRxServerConfig \<Rightarrow> bool \<times> CRxServerConfig" where
  "load_from_path parse_json files path c =
     (case read_document parse_json files path of
        None \<Rightarrow> (False, c)
      | Some doc \<Rightarrow>
          (let c1 = in_object doc ''server'' load_server c;
               c2 = c1\<lparr>sc_log_config := in_object doc ''logging'' load_logging (sc_log_config c1)\<rparr>;
               c3 = c2\<lparr>sc_capture_config := in_object doc ''capture'' load_capture (sc_capture_config c2)\<rparr>;
               c4 = c3\<lparr>sc_storage_config := in_object doc ''storage'' load_storage (sc_storage_config c3)\<rparr>;
               c5 = c4\<lparr>sc_cleanup_config := in_object doc ''cleanup'' load_cleanup (sc_cleanup_config c4)\<rparr>;
               c6 = c5\<lparr>sc_limits_config := in_object doc ''limits'' load_limits (sc_limits_config c5)\<rparr>
           in (True, update_log_path (c6\<lparr>sc_loaded_path := path\<rparr>))))"

definition load_from_process ::
  "json_parser \<Rightarrow> file_map \<Rightarrow> string option \<Rightarrow> CRxServerConfig \<Rightarrow> bool \<times> CRxServerConfig" where
  "load_from_process parse_json files argv0 c =
     (let (ok, c1) = load_from_path parse_json files (deduce_path_from_argv argv0) c in
      if ok then (True, c1) else load_from_path parse_json files ''config/rxtracenetcap.json'' c1)"

definition server_config_for :: "json_parser \<Rightarrow> file_map \<Rightarrow> string option \<Rightarrow> CRxServerConfig" where
  "server_config_for parse_json files argv0 =
     (case argv0 of
        None \<Rightarrow> snd (load_from_process parse_json files None CRxServerConfig_new)
      | Some a \<Rightarrow>
          (case load_from_path parse_json files a CRxServerConfig_new of
             (True, c) \<Rightarrow> c
           | (False, c) \<Rightarrow> snd (load_from_process parse_json files argv0 c)))"

end
