(* ===== verification/Strategy_Config.thy ===== *)
theory Strategy_Config
  imports Server_Config
begin

text \<open>
  The strategy configuration, \<open>src/src/rxstrategyconfig.cpp\<close>, and the double buffer it is reloaded
  through, \<open>reload_mgr\<close> of \<open>src/core/legacy_core.h\<close>.  The server configuration of the process, or the
  null pointer, is the argument \<open>server\<close>; \<open>mtime\<close> is what \<open>stat\<close> reports of a path.
\<close>

section \<open>The parts of a strategy\<close>

record SRxDefaults =
  df_iface :: string
  df_duration_sec :: int
  df_category :: string
  df_file_pattern :: string
  df_max_bytes :: int

record SRxLimits =
  li_max_concurrent_captures :: int
  li_queue_capacity :: int
  li_per_key_cooldown_sec :: int
  li_per_client_window_sec :: int
  li_per_client_max_req :: int
  li_high_priority_slots :: int

record SRxStorage =
  sg_base_dir :: string
  sg_max_age_days :: int
  sg_max_size_gb :: int
  sg_progress_interval_sec :: int
  sg_progress_packet_threshold :: int
  sg_progress_bytes_threshold :: int
  sg_compress_batch_interval_sec :: int

record SRxThresholds =
  th_cpu_pct_gt :: int
  th_mem_pct_gt :: int
  th_net_rx_kbps_gt :: int

record CRxSampleModule =
  sm_name :: string
  sm_cpu_pct_gt :: int
  sm_mem_pct_gt :: int
  sm_net_rx_kbps_gt :: int
  sm_capture_hint :: string
  sm_capture_duration_sec :: int
  sm_cooldown_sec :: int
  sm_capture_category :: string

record SRxLogging =
  lo_log_path :: string
  lo_prefix :: string
  lo_max_file_size_mb :: u32
  lo_log_level :: int

definition SRxDefaults_new :: SRxDefaults where
  "SRxDefaults_new =
     \<lparr>df_iface = ''any'', df_duration_sec = 60, df_category = ''diag'',
      df_file_pattern = ''{day}/{date}-{iface}-{proc}-{port}.pcap'', df_max_bytes = 200 * 1024 * 1024\<rparr>"

definition SRxLimits_new :: SRxLimits where
  "SRxLimits_new =
     \<lparr>li_max_concurrent_captures = 3, li_queue_capacity = 1024, li_per_key_cooldown_sec = 120,
      li_per_client_window_sec = 10, li_per_client_max_req = 20, li_high_priority_slots = 2\<rparr>"

definition SRxStorage_new :: SRxStorage where
  "SRxStorage_new =
     \<lparr>sg_base_dir = ''/var/log/rxtrace/captures'', sg_max_age_days = 7, sg_max_size_gb = 100,
      sg_progress_interval_sec = 10, sg_progress_packet_threshold = 50000,
      sg_progress_bytes_threshold = 100 * 1024 * 1024, sg_compress_batch_interval_sec = 300\<rparr>"

definition SRxThresholds_new :: SRxThresholds where
  "SRxThresholds_new = \<lparr>th_cpu_pct_gt = 85, th_mem_pct_gt = 90, th_net_rx_kbps_gt = 8000\<rparr>"

definition CRxSampleModule_new :: CRxSampleModule where
  "CRxSampleModule_new =
     \<lparr>sm_name = [], sm_cpu_pct_gt = 0, sm_mem_pct_gt = 0, sm_net_rx_kbps_gt = 0, sm_capture_hint = [],
      sm_capture_duration_sec = 0, sm_cooldown_sec = 0, sm_capture_category = []\<rparr>"

definition has_thresholds :: "CRxSampleModule \<Rightarrow> bool" where
  "has_thresholds m \<longleftrightarrow> sm_cpu_pct_gt m > 0 \<or> sm_mem_pct_gt m > 0 \<or> sm_net_rx_kbps_gt m > 0"

definition SRxLogging_new :: SRxLogging where
  "SRxLogging_new = \<lparr>lo_log_path = ''logs'', lo_prefix = ''rxtrace'', lo_max_file_size_mb = 100, lo_log_level = 16\<rparr>"

section \<open>The manager\<close>

record CRxStrategyConfigManager =
  sy_defaults :: SRxDefaults
  sy_limits :: SRxLimits
  sy_storage :: SRxStorage
  sy_thresholds :: SRxThresholds
  sy_sample_modules :: "CRxSampleModule list"
  sy_logging :: SRxLogging
  sy_protocol_pdefs :: "(string, string) map"
  sy_config_path :: string
  sy_last_load_time :: int

definition CRxStrategyConfigManager_new :: CRxStrategyConfigManager where
  "CRxStrategyConfigManager_new =
     \<lparr>sy_defaults = SRxDefaults_new, sy_limits = SRxLimits_new, sy_storage = SRxStorage_new,
      sy_thresholds = SRxThresholds_new, sy_sample_modules = [], sy_logging = SRxLogging_new,
      sy_protocol_pdefs = Map.empty, sy_config_path = [], sy_last_load_time = 0\<rparr>"

definition strategy_init :: "string \<Rightarrow> CRxStrategyConfigManager \<Rightarrow> CRxStrategyConfigManager" where
  "strategy_init path m = m\<lparr>sy_config_path := path\<rparr>"

text \<open>A trigger of the sample section; \<open>None\<close> when it is skipped.\<close>

definition load_trigger :: "int \<Rightarrow> json \<Rightarrow> CRxSampleModule option" where
  "load_trigger default_duration v =
     (if \<not> is_object v then None
      else
        (let m1 = (take_string v ''capture_category'' (\<lambda>s m. m\<lparr>sm_capture_category := s\<rparr>)
               \<circ> take_string v ''trigger_capture'' (\<lambda>s m. m\<lparr>sm_capture_hint := s\<rparr>)
               \<circ> take_int v ''net_rx_kbps_gt'' (\<lambda>i m. m\<lparr>sm_net_rx_kbps_gt := i\<rparr>)
               \<circ> take_int v ''mem_pct_gt'' (\<lambda>i m. m\<lparr>sm_mem_pct_gt := i\<rparr>)
               \<circ> take_int v ''cpu_pct_gt'' (\<lambda>i m. m\<lparr>sm_cpu_pct_gt := i\<rparr>)
               \<circ> take_string v ''name'' (\<lambda>s m. m\<lparr>sm_name := s\<rparr>)) CRxSampleModule_new;
             m2 = take_int v ''capture_duration_sec'' (\<lambda>i m. m\<lparr>sm_capture_duration_sec := i\<rparr>)
               (m1\<lparr>sm_capture_duration_sec := default_duration\<rparr>);
             m3 = take_int v ''cooldown_sec'' (\<lambda>i m. m\<lparr>sm_cooldown_sec := i\<rparr>) m2;
             m4 = (if sm_capture_duration_sec m3 \<le> 0 then m3\<lparr>sm_capture_duration_sec := default_duration\<rparr> else m3)
         in if has_thresholds m4 then Some m4 else None))"

definition load_sample :: "json \<Rightarrow> CRxStrategyConfigManager \<Rightarrow> CRxStrategyConfigManager" where
  "load_sample v m =
     (let m1 = m\<lparr>sy_limits := take_int v ''worker_queue_size'' (\<lambda>i l. l\<lparr>li_queue_capacity := i\<rparr>) (sy_limits m)\<rparr>;
          m2 = m1\<lparr>sy_thresholds :=
            (take_int v ''net_rx_kbps_gt'' (\<lambda>i t. t\<lparr>th_net_rx_kbps_gt := i\<rparr>)
             \<circ> take_int v ''mem_pct_gt'' (\<lambda>i t. t\<lparr>th_mem_pct_gt := i\<rparr>)
             \<circ> take_int v ''cpu_pct_gt'' (\<lambda>i t. t\<lparr>th_cpu_pct_gt := i\<rparr>)) (sy_thresholds m1)\<rparr>
      in case json_member v ''triggers'' of
           Some (J_array ts) \<Rightarrow>
             m2\<lparr>sy_sample_modules := sy_sample_modules m2 @
               List.map_filter (load_trigger (df_duration_sec (sy_defaults m2))) ts\<rparr>
         | _ \<Rightarrow> m2)"

text \<open>A later mapping of the same protocol replaces an earlier one; empty paths are dropped.\<close>

fun register_protocols :: "(string \<times> json) list \<Rightarrow> (string, string) map \<Rightarrow> (string, string) map" where
  "register_protocols [] pdefs = pdefs"
| "register_protocols ((name, v) # ms) pdefs =
     register_protocols ms
       (case v of
          J_string s \<Rightarrow> if c_str s = [] then pdefs else pdefs(c_str name \<mapsto> c_str s)
        | _ \<Rightarrow> pdefs)"

definition load_protocols :: "json \<Rightarrow> (string, string) map" where
  "load_protocols doc =
     (case json_member doc ''protocols'' of
        Some (J_object ms) \<Rightarrow> register_protocols ms Map.empty
      | _ \<Rightarrow> Map.empty)"

definition defaults_from :: "CaptureConfig \<Rightarrow> SRxDefaults" where
  "defaults_from cap =
     \<lparr>df_iface = cp_default_interface cap, df_duration_sec = cp_default_duration cap,
      df_category = cp_default_category cap, df_file_pattern = cp_file_pattern cap,
      df_max_bytes = cp_max_file_size_mb cap * 1024 * 1024\<rparr>"

definition storage_from :: "StorageConfig \<Rightarrow> SRxStorage \<Rightarrow> SRxStorage" where
  "storage_from stor s =
     s\<lparr>sg_base_dir := st_base_dir stor, sg_max_age_days := st_max_age_days stor, sg_max_size_gb := st_max_size_gb stor\<rparr>"

definition query_mod_time :: "(string \<Rightarrow> int option) \<Rightarrow> string \<Rightarrow> int" where
  "query_mod_time mtime path = (case mtime path of Some t \<Rightarrow> t | None \<Rightarrow> - 1)"

text \<open>What a load reads: the parser, the files, their times and the server configuration.\<close>

record config_env =
  cv_parse :: json_parser
  cv_files :: file_map
  cv_mtime :: "string \<Rightarrow> int option"
  cv_server :: "CRxServerConfig option"

definition load_internal ::
  "config_env \<Rightarrow> string \<Rightarrow> CRxStrategyConfigManager \<Rightarrow> bool \<times> CRxStrategyConfigManager" where
  "load_internal env path m =
     (case read_document (cv_parse env) (cv_files env) path of
        None \<Rightarrow> (False, m)
      | Some doc \<Rightarrow>
          (let m1 = m\<lparr>sy_sample_modules := []\<rparr>;
               m2 = (case cv_server env of
                       Some c \<Rightarrow> m1\<lparr>sy_defaults := defaults_from (sc_capture_config c)\<rparr> | None \<Rightarrow> m1);
               m3 = in_object doc ''sample'' load_sample m2;
               m4 = (case cv_server env of
                       Some c \<Rightarrow> m3\<lparr>sy_storage := storage_from (sc_storage_config c) (sy_storage m3)\<rparr> | None \<Rightarrow> m3)
           in (True, m4\<lparr>sy_protocol_pdefs := load_protocols doc,
                        sy_last_load_time := query_mod_time (cv_mtime env) path\<rparr>)))"

text \<open>Loading goes into a temporary manager, whose parts are then copied; \<open>config_path_\<close> is not.\<close>

definition copy_parts :: "CRxStrategyConfigManager \<Rightarrow> CRxStrategyConfigManager \<Rightarrow> CRxStrategyConfigManager" where
  "copy_parts temp m =
     m\<lparr>sy_defaults := sy_defaults temp, sy_limits := sy_limits temp, sy_storage := sy_storage temp,
       sy_thresholds := sy_thresholds temp, sy_sample_modules := sy_sample_modules temp, sy_logging := sy_logging temp,
       sy_protocol_pdefs := sy_protocol_pdefs temp, sy_last_load_time := sy_last_load_time temp\<rparr>"

definition strategy_load :: "config_env \<Rightarrow> CRxStrategyConfigManager \<Rightarrow> int \<times> CRxStrategyConfigManager" where
  "strategy_load env m =
     (if sy_config_path m = [] then (- 1, m)
      else case load_internal env (sy_config_path m) CRxStrategyConfigManager_new of
             (False, temp) \<Rightarrow> (- 1, m)
           | (True, temp) \<Rightarrow> (0, copy_parts temp m))"

definition strategy_reload :: "config_env \<Rightarrow> CRxStrategyConfigManager \<Rightarrow> int \<times> CRxStrategyConfigManager" where
  "strategy_reload env m =
     (if sy_config_path m = [] then (- 1, m)
      else case load_internal env (sy_config_path m) CRxStrategyConfigManager_new of
             (False, temp) \<Rightarrow> (- 1, m)
           | (True, temp) \<Rightarrow> (0, copy_parts temp m))"

definition strategy_need_reload :: "config_env \<Rightarrow> CRxStrategyConfigManager \<Rightarrow> bool" where
  "strategy_need_reload env m =
     (if sy_config_path m = [] then False
      else let t = query_mod_time (cv_mtime env) (sy_config_path m) in t > 0 \<and> t \<noteq> sy_last_load_time m)"

definition strategy_destroy :: "CRxStrategyConfigManager \<Rightarrow> CRxStrategyConfigManager" where
  "strategy_destroy m = CRxStrategyConfigManager_new"

definition get_protocol_pdef_path :: "CRxStrategyConfigManager \<Rightarrow> string \<Rightarrow> string" where
  "get_protocol_pdef_path m name = (case sy_protocol_pdefs m name of Some p \<Rightarrow> p | None \<Rightarrow> [])"

section \<open>The double buffer\<close>

record 'a reload_mgr =
  rm_objects :: "'a \<times> 'a"
  rm_curr :: bool

text \<open>\<open>rm_curr\<close> is the index: false for 0, true for 1.\<close>

definition reload_mgr_new :: "'a \<Rightarrow> 'a \<Rightarrow> 'a reload_mgr" where
  "reload_mgr_new t1 t2 = \<lparr>rm_objects = (t1, t2), rm_curr = False\<rparr>"

definition rm_current :: "'a reload_mgr \<Rightarrow> 'a" where
  "rm_current r = (if rm_curr r then snd (rm_objects r) else fst (rm_objects r))"

definition rm_idle :: "'a reload_mgr \<Rightarrow> 'a" where
  "rm_idle r = (if rm_curr r then fst (rm_objects r) else snd (rm_objects r))"

definition put_object :: "bool \<Rightarrow> 'a \<Rightarrow> 'a reload_mgr \<Rightarrow> 'a reload_mgr" where
  "put_object i x r =
     r\<lparr>rm_objects := (if i then (fst (rm_objects r), x) else (x, snd (rm_objects r)))\<rparr>"

definition rm_load :: "('a \<Rightarrow> int \<times> 'a) \<Rightarrow> 'a reload_mgr \<Rightarrow> int \<times> 'a reload_mgr" where
  "rm_load obj_load r =
     (case obj_load (rm_current r) of
        (rc, x) \<Rightarrow> (if rc = 0 then 0 else - 1, put_object (rm_curr r) x r))"

definition rm_reload :: "('a \<Rightarrow> int \<times> 'a) \<Rightarrow> 'a reload_mgr \<Rightarrow> int \<times> 'a reload_mgr" where
  "rm_reload obj_reload r =
     (case obj_reload (rm_idle r) of
        (rc, x) \<Rightarrow>
          (let r1 = put_object (\<not> rm_curr r) x r in
           if rc = 0 then (0, r1\<lparr>rm_curr := \<not> rm_curr r\<rparr>) else (- 1, r1)))"

definition rm_destroy :: "('a \<Rightarrow> 'a) \<Rightarrow> 'a reload_mgr \<Rightarrow> 'a reload_mgr" where
  "rm_destroy obj_destroy r =
     r\<lparr>rm_objects := (obj_destroy (fst (rm_objects r)), obj_destroy (snd (rm_objects r)))\<rparr>"

text \<open>\<open>CRxProcData::reload\<close>: one reload when the current strategy is out of date.\<close>

definition proc_reload ::
  "config_env \<Rightarrow> CRxStrategyConfigManager reload_mgr \<Rightarrow> int \<times> CRxStrategyConfigManager reload_mgr" where
  "proc_reload env r =
     (if strategy_need_reload env (rm_current r) then (1, snd (rm_reload (strategy_reload env) r)) else (0, r))"

text \<open>A run of the reload timer: one environment per reload.\<close>

fun rm_reloads :: "('env \<Rightarrow> 'a \<Rightarrow> int \<times> 'a) \<Rightarrow> 'env list \<Rightarrow> 'a reload_mgr \<Rightarrow> 'a reload_mgr" where
  "rm_reloads reload [] r = r"
| "rm_reloads reload (env # envs) r = rm_reloads reload envs (snd (rm_reload (reload env) r))"

section \<open>What a reload guarantees\<close>

text \<open>
  The contract of an object the double buffer reloads: as long as it is set up, a reload leaves it the value
  the environment has, or as it was when there is none.
\<close>

locale reloadable =
  fixes reload :: "'env \<Rightarrow> 'a \<Rightarrow> int \<times> 'a"
    and set_up :: "'a \<Rightarrow> bool"
    and content :: "'env \<Rightarrow> 'a option"
  assumes reload_fails: "set_up x \<Longrightarrow> content env = None \<Longrightarrow> \<exists>rc. rc \<noteq> 0 \<and> reload env x = (rc, x)"
    and reload_content: "set_up x \<Longrightarrow> content env = Some v \<Longrightarrow> reload env x = (0, v) \<and> set_up v"
begin

definition ready :: "'a reload_mgr \<Rightarrow> bool" where
  "ready r \<longleftrightarrow> set_up (rm_current r) \<and> set_up (rm_idle r)"

lemma rm_reload_cases:
  assumes "ready r"
  shows "case content env of
      None \<Rightarrow> rm_reload (reload env) r = (- 1, r)
    | Some v \<Rightarrow> \<exists>r1. rm_reload (reload env) r = (0, r1) \<and> rm_current r1 = v \<and> rm_idle r1 = rm_current r \<and> ready r1"
proof (cases "content env")
  case None
  then obtain rc where "rc \<noteq> 0" "reload env (rm_idle r) = (rc, rm_idle r)"
    using reload_fails assms by (auto simp: ready_def)
  then show ?thesis using None by (auto simp: rm_reload_def put_object_def rm_idle_def split: if_splits)
next
  case (Some v)
  then have "reload env (rm_idle r) = (0, v)" "set_up v" using reload_content assms by (auto simp: ready_def)
  then show ?thesis using Some assms by (auto simp: rm_reload_def put_object_def rm_current_def rm_idle_def ready_def)
qed

lemma rm_reloads_last:
  "ready r \<Longrightarrow> rm_current (rm_reloads reload envs r) =
     fold (\<lambda>env v. case content env of None \<Rightarrow> v | Some w \<Rightarrow> w) envs (rm_current r)"
proof (induction envs arbitrary: r)
  case (Cons env envs)
  show ?case
  proof (cases "content env")
    case None
    then show ?thesis using Cons rm_reload_cases [OF Cons.prems, of env] by simp
  next
    case (Some v)
    then obtain r1 where "rm_reload (reload env) r = (0, r1)" "rm_current r1 = v" "ready r1"
      using rm_reload_cases [OF Cons.prems, of env] by auto
    then show ?thesis using Cons.IH Some by simp
  qed
qed simp

end

text \<open>
  The strategy a document stands for: the defaults and the storage of the server configuration, the queue, the
  thresholds and the triggers of the sample section, the protocols with a path, where the last one of a name
  counts; all else as built in.  A trigger without a threshold is left out, and one without a positive
  duration gets the default one.
\<close>

definition number_in :: "json option \<Rightarrow> string \<Rightarrow> int \<Rightarrow> int" where
  "number_in v k dflt =
     (case v of None \<Rightarrow> dflt
      | Some obj \<Rightarrow> (case json_member obj k of Some (J_int i) \<Rightarrow> if is_int32 i then i else dflt | _ \<Rightarrow> dflt))"

definition text_in :: "json \<Rightarrow> string \<Rightarrow> string" where
  "text_in v k = (case json_member v k of Some (J_string s) \<Rightarrow> c_str s | _ \<Rightarrow> [])"

definition module_of :: "int \<Rightarrow> json \<Rightarrow> CRxSampleModule" where
  "module_of default_duration v =
     (let d = number_in (Some v) ''capture_duration_sec'' default_duration in
      \<lparr>sm_name = text_in v ''name'', sm_cpu_pct_gt = number_in (Some v) ''cpu_pct_gt'' 0,
       sm_mem_pct_gt = number_in (Some v) ''mem_pct_gt'' 0, sm_net_rx_kbps_gt = number_in (Some v) ''net_rx_kbps_gt'' 0,
       sm_capture_hint = text_in v ''trigger_capture'',
       sm_capture_duration_sec = (if d \<le> 0 then default_duration else d),
       sm_cooldown_sec = number_in (Some v) ''cooldown_sec'' 0, sm_capture_category = text_in v ''capture_category''\<rparr>)"

definition protocols_of :: "json \<Rightarrow> (string \<times> string) list" where
  "protocols_of doc =
     (case json_member doc ''protocols'' of
        Some (J_object ms) \<Rightarrow>
          concat (map (\<lambda>(k, v). case v of J_string s \<Rightarrow> if c_str s = [] then [] else [(c_str k, c_str s)] | _ \<Rightarrow> []) ms)
      | _ \<Rightarrow> [])"

definition strategy_of :: "config_env \<Rightarrow> string \<Rightarrow> json \<Rightarrow> CRxStrategyConfigManager" where
  "strategy_of env path doc =
     (let sample = (case json_member doc ''sample'' of Some v \<Rightarrow> if is_object v then Some v else None | None \<Rightarrow> None);
          defaults = (case cv_server env of Some c \<Rightarrow> defaults_from (sc_capture_config c) | None \<Rightarrow> SRxDefaults_new)
      in \<lparr>sy_defaults = defaults,
          sy_limits = SRxLimits_new\<lparr>li_queue_capacity := number_in sample ''worker_queue_size'' 1024\<rparr>,
          sy_storage = (case cv_server env of
              Some c \<Rightarrow> SRxStorage_new\<lparr>sg_base_dir := st_base_dir (sc_storage_config c),
                sg_max_age_days := st_max_age_days (sc_storage_config c), sg_max_size_gb := st_max_size_gb (sc_storage_config c)\<rparr>
            | None \<Rightarrow> SRxStorage_new),
          sy_thresholds = \<lparr>th_cpu_pct_gt = number_in sample ''cpu_pct_gt'' 85, th_mem_pct_gt = number_in sample ''mem_pct_gt'' 90,
              th_net_rx_kbps_gt = number_in sample ''net_rx_kbps_gt'' 8000\<rparr>,
          sy_sample_modules = (case Option.bind sample (\<lambda>v. json_member v ''triggers'') of
              Some (J_array ts) \<Rightarrow> filter has_thresholds (map (module_of (df_duration_sec defaults)) (filter is_object ts))
            | _ \<Rightarrow> []),
          sy_logging = SRxLogging_new, sy_protocol_pdefs = map_of (rev (protocols_of doc)), sy_config_path = path,
          sy_last_load_time = query_mod_time (cv_mtime env) path\<rparr>)"

lemma take_numbers:
  "take_int v k (\<lambda>i m. m\<lparr>sm_cpu_pct_gt := i\<rparr>) m = m\<lparr>sm_cpu_pct_gt := number_in (Some v) k (sm_cpu_pct_gt m)\<rparr>"
  "take_int v k (\<lambda>i m. m\<lparr>sm_mem_pct_gt := i\<rparr>) m = m\<lparr>sm_mem_pct_gt := number_in (Some v) k (sm_mem_pct_gt m)\<rparr>"
  "take_int v k (\<lambda>i m. m\<lparr>sm_net_rx_kbps_gt := i\<rparr>) m = m\<lparr>sm_net_rx_kbps_gt := number_in (Some v) k (sm_net_rx_kbps_gt m)\<rparr>"
  "take_int v k (\<lambda>i m. m\<lparr>sm_capture_duration_sec := i\<rparr>) m =
     m\<lparr>sm_capture_duration_sec := number_in (Some v) k (sm_capture_duration_sec m)\<rparr>"
  "take_int v k (\<lambda>i m. m\<lparr>sm_cooldown_sec := i\<rparr>) m = m\<lparr>sm_cooldown_sec := number_in (Some v) k (sm_cooldown_sec m)\<rparr>"
  "take_int v k (\<lambda>i t. t\<lparr>th_cpu_pct_gt := i\<rparr>) t = t\<lparr>th_cpu_pct_gt := number_in (Some v) k (th_cpu_pct_gt t)\<rparr>"
  "take_int v k (\<lambda>i t. t\<lparr>th_mem_pct_gt := i\<rparr>) t = t\<lparr>th_mem_pct_gt := number_in (Some v) k (th_mem_pct_gt t)\<rparr>"
  "take_int v k (\<lambda>i t. t\<lparr>th_net_rx_kbps_gt := i\<rparr>) t = t\<lparr>th_net_rx_kbps_gt := number_in (Some v) k (th_net_rx_kbps_gt t)\<rparr>"
  "take_int v k (\<lambda>i l. l\<lparr>li_queue_capacity := i\<rparr>) l = l\<lparr>li_queue_capacity := number_in (Some v) k (li_queue_capacity l)\<rparr>"
  by (simp_all add: take_int_def number_in_def split: option.split json.split)

lemma take_texts:
  "sm_name m = [] \<Longrightarrow> take_string v k (\<lambda>s m. m\<lparr>sm_name := s\<rparr>) m = m\<lparr>sm_name := text_in v k\<rparr>"
  "sm_capture_hint m = [] \<Longrightarrow> take_string v k (\<lambda>s m. m\<lparr>sm_capture_hint := s\<rparr>) m = m\<lparr>sm_capture_hint := text_in v k\<rparr>"
  "sm_capture_category m = [] \<Longrightarrow>
     take_string v k (\<lambda>s m. m\<lparr>sm_capture_category := s\<rparr>) m = m\<lparr>sm_capture_category := text_in v k\<rparr>"
  by (cases m; simp add: take_string_def text_in_def split: option.split json.split)+

lemma load_trigger_module:
  "load_trigger d v = (if is_object v \<and> has_thresholds (module_of d v) then Some (module_of d v) else None)"
  by (simp add: load_trigger_def module_of_def take_numbers take_texts CRxSampleModule_new_def Let_def has_thresholds_def)

lemma load_triggers: "List.map_filter (load_trigger d) ts = filter has_thresholds (map (module_of d) (filter is_object ts))"
  by (induction ts) (simp_all add: List.map_filter_simps load_trigger_module)

lemma registered: "register_protocols ms acc =
    acc ++ map_of (rev (concat (map (\<lambda>(k, v). case v of J_string s \<Rightarrow> if c_str s = [] then [] else [(c_str k, c_str s)] | _ \<Rightarrow> []) ms)))"
proof (induction ms arbitrary: acc)
  case (Cons m ms)
  obtain k v where "m = (k, v)" by fastforce
  then show ?case using Cons.IH by (cases v) simp_all
qed simp

lemma load_internal_strategy:
  "load_internal env path CRxStrategyConfigManager_new =
     (case read_document (cv_parse env) (cv_files env) path of
        None \<Rightarrow> (False, CRxStrategyConfigManager_new)
      | Some doc \<Rightarrow> (True, (strategy_of env path doc)\<lparr>sy_config_path := []\<rparr>))"
proof (cases "read_document (cv_parse env) (cv_files env) path")
  case (Some doc)
  have protocols: "load_protocols doc = map_of (rev (protocols_of doc))"
    by (simp add: load_protocols_def protocols_of_def registered split: option.split json.split)
  define m2 where "m2 = (case cv_server env of
      Some c \<Rightarrow> CRxStrategyConfigManager_new\<lparr>sy_defaults := defaults_from (sc_capture_config c)\<rparr>
    | None \<Rightarrow> CRxStrategyConfigManager_new)"
  define sample where "sample = (case json_member doc ''sample'' of Some v \<Rightarrow> if is_object v then Some v else None | None \<Rightarrow> None)"
  have m2: "sy_limits m2 = SRxLimits_new" "sy_thresholds m2 = SRxThresholds_new" "sy_sample_modules m2 = []"
    by (simp_all add: m2_def CRxStrategyConfigManager_new_def split: option.split)
  have "in_object doc ''sample'' load_sample m2 = m2
    \<lparr>sy_limits := SRxLimits_new\<lparr>li_queue_capacity := number_in sample ''worker_queue_size'' 1024\<rparr>,
     sy_thresholds := \<lparr>th_cpu_pct_gt = number_in sample ''cpu_pct_gt'' 85, th_mem_pct_gt = number_in sample ''mem_pct_gt'' 90,
       th_net_rx_kbps_gt = number_in sample ''net_rx_kbps_gt'' 8000\<rparr>,
     sy_sample_modules := (case Option.bind sample (\<lambda>v. json_member v ''triggers'') of
       Some (J_array ts) \<Rightarrow> filter has_thresholds (map (module_of (df_duration_sec (sy_defaults m2))) (filter is_object ts))
     | _ \<Rightarrow> [])\<rparr>"
  proof (cases sample)
    case None
    then have "in_object doc ''sample'' load_sample m2 = m2"
      by (auto simp: sample_def in_object_def split: option.splits if_splits)
    then show ?thesis using None m2 by (simp add: number_in_def SRxLimits_new_def SRxThresholds_new_def)
  next
    case (Some v)
    then have "in_object doc ''sample'' load_sample m2 = load_sample v m2"
      by (auto simp: sample_def in_object_def split: option.splits if_splits)
    then show ?thesis using Some m2
      by (simp add: load_sample_def Let_def load_triggers take_numbers SRxLimits_new_def SRxThresholds_new_def
          split: option.split json.split)
  qed
  note loaded = this
  have new: "CRxStrategyConfigManager_new\<lparr>sy_sample_modules := []\<rparr> = CRxStrategyConfigManager_new"
    by (simp add: CRxStrategyConfigManager_new_def)
  show ?thesis
  proof (cases "cv_server env")
    case None
    then have "m2 = CRxStrategyConfigManager_new" by (simp add: m2_def)
    then show ?thesis using Some None loaded new
      by (simp add: load_internal_def strategy_of_def protocols Let_def flip: sample_def) (simp add: CRxStrategyConfigManager_new_def cong: option.case_cong json.case_cong)
  next
    case (Some c)
    then have "m2 = CRxStrategyConfigManager_new\<lparr>sy_defaults := defaults_from (sc_capture_config c)\<rparr>" by (simp add: m2_def)
    then show ?thesis using \<open>read_document _ _ _ = _\<close> Some loaded new
      by (simp add: load_internal_def strategy_of_def protocols Let_def storage_from_def flip: sample_def)
        (simp add: CRxStrategyConfigManager_new_def cong: option.case_cong json.case_cong)
  qed
qed (simp add: load_internal_def)

text \<open>The strategy of an environment, when its file can be read and parsed.\<close>

definition strategy_in :: "string \<Rightarrow> config_env \<Rightarrow> CRxStrategyConfigManager option" where
  "strategy_in path env = map_option (strategy_of env path) (read_document (cv_parse env) (cv_files env) path)"

definition reads_path :: "string \<Rightarrow> CRxStrategyConfigManager \<Rightarrow> bool" where
  "reads_path path m \<longleftrightarrow> path \<noteq> [] \<and> sy_config_path m = path"

lemma copied_parts: "sy_config_path m = path \<Longrightarrow> copy_parts ((strategy_of env path doc)\<lparr>sy_config_path := []\<rparr>) m = strategy_of env path doc"
  by (simp add: copy_parts_def strategy_of_def Let_def)

interpretation strategy: reloadable strategy_reload "reads_path path" "strategy_in path" for path
  by unfold_locales
    (auto simp: reads_path_def strategy_in_def strategy_reload_def load_internal_strategy copied_parts,
      simp_all add: strategy_of_def Let_def)

section \<open>Properties\<close>

text \<open>
  C26. The strategy in use is that of the last readable file.  Both objects of the double buffer are set up
  with the path of the strategy file.  Over any sequence of reloads, whatever the file, the server
  configuration and the clock are at each of them, the strategy the process uses is, in every part, the one
  the document of the last reload stands for whose file could be read and parsed, and the one it started with
  while there was none.  A reload reports success exactly when its file can be read, and switches to the new
  strategy, and changes nothing otherwise.
\<close>

theorem strategy_in_use_is_loaded:
  assumes "path \<noteq> []" "sy_config_path (fst (rm_objects r)) = path" "sy_config_path (snd (rm_objects r)) = path"
  shows "rm_current (rm_reloads strategy_reload envs r) =
      fold (\<lambda>env m. case read_document (cv_parse env) (cv_files env) path of None \<Rightarrow> m | Some doc \<Rightarrow> strategy_of env path doc)
        envs (rm_current r) \<and>
    (case read_document (cv_parse env) (cv_files env) path of
       None \<Rightarrow> rm_reload (strategy_reload env) r = (- 1, r)
     | Some doc \<Rightarrow> fst (rm_reload (strategy_reload env) r) = 0 \<and>
         rm_current (snd (rm_reload (strategy_reload env) r)) = strategy_of env path doc)"
proof -
  have ready: "strategy.ready path r"
    using assms by (simp add: strategy.ready_def reads_path_def rm_current_def rm_idle_def)
  have step: "(case strategy_in path env of None \<Rightarrow> m | Some w \<Rightarrow> w) =
      (case read_document (cv_parse env) (cv_files env) path of None \<Rightarrow> m | Some doc \<Rightarrow> strategy_of env path doc)" for env m
    by (simp add: strategy_in_def split: option.split)
  note run = strategy.rm_reloads_last [OF ready, of envs, unfolded step]
  show ?thesis using strategy.rm_reload_cases [OF ready, of env]
    by (intro conjI run) (auto simp: strategy_in_def split: option.splits)
qed

text \<open>A strategy with two triggers, one of them without a threshold, then a file that is gone.\<close>

definition sample_strategy :: json where
  "sample_strategy = J_object
     [(''sample'', J_object [(''worker_queue_size'', J_int 7),
        (''triggers'', J_array [J_object [(''name'', J_string ''busy''), (''cpu_pct_gt'', J_int 50)], J_object [(''name'', J_string ''none'')]])]),
      (''protocols'', J_object [(''dns'', J_string ''a.pdef''), (''dns'', J_string ''b.pdef'')])]"

definition sample_config_env :: config_env where
  "sample_config_env =
     \<lparr>cv_parse = \<lambda>_. Some sample_strategy, cv_files = \<lambda>_. Some [], cv_mtime = \<lambda>_. Some 5, cv_server = None\<rparr>"

definition sample_buffer :: "CRxStrategyConfigManager reload_mgr" where
  "sample_buffer =
     reload_mgr_new (strategy_init ''s.json'' CRxStrategyConfigManager_new) (strategy_init ''s.json'' CRxStrategyConfigManager_new)"

theorem strategy_in_use_is_loaded_witness:
  "\<exists>m. rm_current (rm_reloads strategy_reload [sample_config_env, sample_config_env\<lparr>cv_files := Map.empty\<rparr>] sample_buffer) = m \<and>
     li_queue_capacity (sy_limits m) = 7 \<and> map sm_name (sy_sample_modules m) = [''busy''] \<and>
     map sm_capture_duration_sec (sy_sample_modules m) = [60] \<and> sy_protocol_pdefs m ''dns'' = Some ''b.pdef'' \<and> sy_last_load_time m = 5"
proof -
  have paths: "''s.json'' \<noteq> []" "sy_config_path (fst (rm_objects sample_buffer)) = ''s.json''"
    "sy_config_path (snd (rm_objects sample_buffer)) = ''s.json''"
    by (simp_all add: sample_buffer_def reload_mgr_new_def strategy_init_def)
  have read: "read_document (cv_parse sample_config_env) (cv_files sample_config_env) ''s.json'' = Some sample_strategy"
    "read_document (cv_parse sample_config_env) Map.empty ''s.json'' = None"
    by (simp_all add: read_document_def sample_config_env_def sample_strategy_def)
  have "rm_current (rm_reloads strategy_reload [sample_config_env, sample_config_env\<lparr>cv_files := Map.empty\<rparr>] sample_buffer) =
      strategy_of sample_config_env ''s.json'' sample_strategy"
    using strategy_in_use_is_loaded [OF paths, of "[sample_config_env, sample_config_env\<lparr>cv_files := Map.empty\<rparr>]" sample_config_env]
      read by simp
  then show ?thesis
    by (simp add: strategy_of_def sample_strategy_def sample_config_env_def Let_def number_in_def is_int32_def module_of_def text_in_def
        has_thresholds_def protocols_of_def SRxDefaults_new_def query_mod_time_def c_str_def NUL_def)
qed

end
