(* ===== verification/Reload_Thread.thy ===== *)
theory Reload_Thread
  imports Packet_Filter Strategy_Config Pdef_Examples
begin

text \<open>
  The reload thread, \<open>src/src/rxreloadthread.cpp\<close>: the timer that reloads the strategy, and the request to
  write a detected byte order into its definition file.  The outcomes of \<open>open\<close>, \<open>flock\<close>, \<open>ftruncate\<close> and
  \<open>write\<close> are arguments, files are a map from paths to their bytes.
\<close>

section \<open>Writing a byte order back\<close>

record writeback_env =
  wb_open :: "string \<Rightarrow> bool"
  wb_lock :: bool
  wb_truncate :: bool
  wb_written :: nat
  wb_time :: tm
  wb_sec :: int

text \<open>\<open>strftime\<close> with \<open>%Y-%m-%d %H:%M:%S\<close>.\<close>

definition stamp_text :: "tm \<Rightarrow> int \<Rightarrow> string" where
  "stamp_text t sec =
     fmt_d 0 (tm_year t + 1900) @ ''-'' @ fmt_d 2 (tm_mon t + 1) @ ''-'' @ fmt_d 2 (tm_mday t) @ '' '' @
     fmt_d 2 (tm_hour t) @ '':'' @ fmt_d 2 (tm_min t) @ '':'' @ fmt_d 2 sec"

definition newline_text :: string where
  "newline_text = [CHR 0x0A]"

definition endian_line :: "int \<Rightarrow> string \<Rightarrow> string" where
  "endian_line detected stamp =
     snprintf 256 (newline_text @ ''    endian '' @ (if detected = endian_value ENDIAN_TYPE_BIG then ''big'' else ''little'') @
       '';  # auto-detected on '' @ stamp @ newline_text)"

text \<open>The new text of the file, when the byte order is to be written.\<close>

definition insert_endian :: "int \<Rightarrow> string \<Rightarrow> string \<Rightarrow> string option" where
  "insert_endian detected stamp content =
     (if find_str ''endian '' content \<noteq> None then None
      else case find_str ''protocol '' content of
             None \<Rightarrow> None
           | Some i \<Rightarrow>
               (case find_char (CHR ''{'') (drop i content) of
                  None \<Rightarrow> None
                | Some j \<Rightarrow> Some (take (i + j + 1) content @ endian_line detected stamp @
                             drop (i + j + 1) content)))"

text \<open>
  The file is truncated before the new text is written: what a failed or short write leaves is lost.
\<close>

definition writeback_pdef_endian :: "writeback_env \<Rightarrow> string \<Rightarrow> int \<Rightarrow> file_map \<Rightarrow> file_map" where
  "writeback_pdef_endian env path detected fs =
     (if path = [] then fs
      else case fs path of
             None \<Rightarrow> fs
           | Some content \<Rightarrow>
               if \<not> wb_open env path \<or> \<not> wb_lock env then fs
               else case insert_endian detected (stamp_text (wb_time env) (wb_sec env)) content of
                      None \<Rightarrow> fs
                    | Some new_content \<Rightarrow>
                        if \<not> wb_truncate env then fs
                        else fs(path \<mapsto> take (wb_written env) new_content))"

definition reload_handle_msg :: "writeback_env \<Rightarrow> rx_msg \<Rightarrow> file_map \<Rightarrow> file_map" where
  "reload_handle_msg env m fs =
     (case m of
        M_Pdef_endian e \<Rightarrow> writeback_pdef_endian env (pe_file_path e) (pe_detected_endian e) fs
      | _ \<Rightarrow> fs)"

section \<open>The reload timer\<close>

record CRxReloadThread =
  rt_is_first :: bool
  rt_reload_interval_ms :: u32
  rt_timer :: "u32 option"

definition reload_thread_new :: CRxReloadThread where
  "reload_thread_new = \<lparr>rt_is_first = False, rt_reload_interval_ms = 60000, rt_timer = None\<rparr>"

text \<open>The timer is armed with the interval, always one second.\<close>

definition reload_timer_start :: "CRxReloadThread \<Rightarrow> CRxReloadThread" where
  "reload_timer_start t = t\<lparr>rt_reload_interval_ms := 1000, rt_timer := Some 1000\<rparr>"

definition reload_run_process :: "CRxReloadThread \<Rightarrow> CRxReloadThread" where
  "reload_run_process t = (if \<not> rt_is_first t then reload_timer_start (t\<lparr>rt_is_first := True\<rparr>) else t)"

text \<open>\<open>is_reload\<close> tells whether the timer that fired is \<open>TIMER_TYPE_RELOAD_CONF\<close>.\<close>

definition reload_handle_timeout ::
  "config_env \<Rightarrow> bool \<Rightarrow> CRxReloadThread \<times> CRxStrategyConfigManager reload_mgr \<Rightarrow>
   CRxReloadThread \<times> CRxStrategyConfigManager reload_mgr" where
  "reload_handle_timeout env is_reload s =
     (case s of (t, r) \<Rightarrow>
        if is_reload then (reload_timer_start (t\<lparr>rt_timer := None\<rparr>), snd (proc_reload env r)) else (t, r))"

section \<open>What a write-back does to a definition\<close>

lemma char_at_prefix:
  "i < length p \<Longrightarrow> char_at (p @ r) i = p ! i"
  by (simp add: char_at_def nth_append)

definition head_text :: string where
  "head_text = ''@protocol {'' @ newline_text @ ''    endian ''"

text \<open>The characters the lexer reads of a file that was written back, for either byte order.\<close>

lemma head_chars:
  fixes r :: string
  defines "s \<equiv> head_text @ r"
  shows "char_at s 0 = CHR ''@''" "char_at s (Suc 0) = CHR ''p''" "char_at s 2 = CHR ''r''" "char_at s 3 = CHR ''o''"
    "char_at s 4 = CHR ''t''" "char_at s 5 = CHR ''o''" "char_at s 6 = CHR ''c''" "char_at s 7 = CHR ''o''"
    "char_at s 8 = CHR ''l''" "char_at s 9 = CHR '' ''" "char_at s 10 = CHR ''{''" "char_at s 11 = CHR 0x0A"
    "char_at s 12 = CHR '' ''" "char_at s 13 = CHR '' ''" "char_at s 14 = CHR '' ''" "char_at s 15 = CHR '' ''"
    "char_at s 16 = CHR ''e''" "char_at s 17 = CHR ''n''" "char_at s 18 = CHR ''d''" "char_at s 19 = CHR ''i''"
    "char_at s 20 = CHR ''a''" "char_at s 21 = CHR ''n''" "char_at s 22 = CHR '' ''"
  by (simp_all add: s_def head_text_def newline_text_def char_at_def)

lemma big_chars:
  fixes r :: string
  defines "s \<equiv> head_text @ ''big;'' @ r"
  shows "char_at s 23 = CHR ''b''" "char_at s 24 = CHR ''i''" "char_at s 25 = CHR ''g''" "char_at s 26 = CHR '';''"
  by (simp_all add: s_def head_text_def newline_text_def char_at_def)

lemma little_chars:
  fixes r :: string
  defines "s \<equiv> head_text @ ''little;'' @ r"
  shows "char_at s 23 = CHR ''l''" "char_at s 24 = CHR ''i''" "char_at s 25 = CHR ''t''" "char_at s 26 = CHR ''t''"
    "char_at s 27 = CHR ''l''" "char_at s 28 = CHR ''e''" "char_at s 29 = CHR '';''"
  by (simp_all add: s_def head_text_def newline_text_def char_at_def)

lemma written_back_big: "\<exists>e. parse_blocks (parser_init (head_text @ ''big;'' @ r)) = Inl e"
  using head_chars [of "''big;'' @ r"] big_chars [of r]
  by (simp add: lex_eval parse_eval)

lemma written_back_little: "\<exists>e. parse_blocks (parser_init (head_text @ ''little;'' @ r)) = Inl e"
  using head_chars [of "''little;'' @ r"] little_chars [of r]
  by (simp add: lex_eval parse_eval)

lemma endian_line_head:
  "\<exists>r. ''@protocol {'' @ endian_line d stamp @ rest =
     head_text @ (if d = endian_value ENDIAN_TYPE_BIG then ''big;'' else ''little;'') @ r"
  by (simp add: endian_line_def snprintf_def newline_text_def head_text_def)

lemma insert_endian_head:
  assumes "find_str ''endian '' rest = None"
  shows "insert_endian d stamp (''@protocol {'' @ rest) = Some (''@protocol {'' @ endian_line d stamp @ rest)"
  using assms by (simp add: insert_endian_def)

lemma parse_file_head:
  assumes "\<And>r. \<exists>e. parse_blocks (parser_init (h @ r)) = Inl e" "NUL \<notin> set h"
  shows "\<exists>e. pdef_parse_file path (Some (h @ r)) = Inl e"
proof -
  have "takeWhile (\<lambda>c. c \<noteq> NUL) (h @ r) = h @ takeWhile (\<lambda>c. c \<noteq> NUL) r"
    using assms(2) by (auto simp: takeWhile_append)
  then show ?thesis using assms(1) [of "takeWhile (\<lambda>c. c \<noteq> NUL) r"]
    by (auto simp: pdef_parse_file_def pdef_parse_string_def)
qed

lemma written_back_fails:
  "\<exists>e. pdef_parse_file path (Some (''@protocol {'' @ endian_line d stamp @ rest)) = Inl e"
proof -
  obtain r where r: "''@protocol {'' @ endian_line d stamp @ rest =
      (head_text @ (if d = endian_value ENDIAN_TYPE_BIG then ''big;'' else ''little;'')) @ r"
    using endian_line_head [of d stamp rest] by auto
  show ?thesis unfolding r
  proof (rule parse_file_head)
    show "\<exists>e. parse_blocks (parser_init ((head_text @ (if d = endian_value ENDIAN_TYPE_BIG then ''big;'' else ''little;'')) @ r)) = Inl e" for r
      using written_back_big [of r] written_back_little [of r] by auto
  qed (simp add: head_text_def newline_text_def NUL_def)
qed

section \<open>Properties\<close>

text \<open>
  C35. Writing a byte order back breaks the definition.  A file that starts with \<open>@protocol {\<close> and does
  not mention a byte order, which is what makes detection run and ask for the write-back, is rewritten
  with a line \<open>endian big;\<close> or \<open>endian little;\<close>.  The parser asks for an equals sign there: whatever the
  rest of the file, it no longer loads.
\<close>

theorem writeback_breaks_definition:
  assumes "path \<noteq> []" "fs path = Some (''@protocol {'' @ rest)" "find_str ''endian '' rest = None"
    and "wb_open env path" "wb_lock env" "wb_truncate env"
    and "length (''@protocol {'' @ endian_line d (stamp_text (wb_time env) (wb_sec env)) @ rest) \<le> wb_written env"
  shows "\<exists>e. pdef_parse_file path (writeback_pdef_endian env path d fs path) = Inl e"
proof -
  have "writeback_pdef_endian env path d fs path =
      Some (''@protocol {'' @ endian_line d (stamp_text (wb_time env) (wb_sec env)) @ rest)"
    using assms insert_endian_head [OF assms(3)] by (simp add: writeback_pdef_endian_def)
  then show ?thesis using written_back_fails by metis
qed

definition auto_rest :: string where
  "auto_rest = ''}S{uint16 a;}@filter f{a=1;}''"

definition sample_writeback :: writeback_env where
  "sample_writeback =
     \<lparr>wb_open = \<lambda>_. True, wb_lock = True, wb_truncate = True, wb_written = 1000,
      wb_time = \<lparr>tm_year = 125, tm_mon = 0, tm_mday = 1, tm_hour = 0, tm_min = 0\<rparr>, wb_sec = 0\<rparr>"

lemma endian_line_length: "length (endian_line d stamp) \<le> 255"
  by (simp add: endian_line_def snprintf_def)

theorem writeback_breaks_definition_witness:
  "\<exists>e. pdef_parse_file ''p'' (writeback_pdef_endian sample_writeback ''p'' 1
     [''p'' \<mapsto> ''@protocol {'' @ auto_rest] ''p'') = Inl e"
proof (rule writeback_breaks_definition)
  show "length (''@protocol {'' @ endian_line 1 (stamp_text (wb_time sample_writeback) (wb_sec sample_writeback)) @ auto_rest)
      \<le> wb_written sample_writeback"
    using endian_line_length [of 1 "stamp_text (wb_time sample_writeback) (wb_sec sample_writeback)"]
    by (simp add: sample_writeback_def auto_rest_def)
qed (simp_all add: sample_writeback_def auto_rest_def)

end
