(* ===== verification/Cleanup_Files.thy ===== *)
theory Cleanup_Files
  imports Server_Config
begin

text \<open>
  The file system as the cleanup thread sees it, and the helpers at the top of
  \<open>src/src/rxcleanupthread.cpp\<close>: directories, JSON escapes, time stamps, and the two ways of pruning a
  directory.  The outcomes of system calls are fields of \<open>clean_env\<close>; a file is its size and time.
\<close>

section \<open>Files\<close>

datatype fnode = Dir | Reg u64 int

type_synonym fs = "string \<rightharpoonup> fnode"

datatype mkdir_result = Mk_ok | Mk_exists | Mk_failed

text \<open>
  \<open>kv_list\<close> gives the names \<open>readdir\<close> returns, \<open>kv_append\<close> how many bytes can be written to a file
  opened for appending, \<open>kv_system\<close> the exit code and effect of a shell command.
\<close>

record clean_env =
  kv_now :: int
  kv_tm :: tm
  kv_sec :: int
  kv_mkdir :: "string \<Rightarrow> mkdir_result"
  kv_list :: "fs \<Rightarrow> string \<Rightarrow> string list option"
  kv_remove :: "string \<Rightarrow> bool"
  kv_rename :: "string \<Rightarrow> string \<Rightarrow> bool"
  kv_append :: "string \<Rightarrow> nat option"
  kv_system :: "string \<Rightarrow> fs \<Rightarrow> int \<times> fs"
  kv_base_dir :: "string option"
  kv_manager :: "u32 option"
  kv_thread_index :: u32

definition fs_remove :: "clean_env \<Rightarrow> string \<Rightarrow> fs \<Rightarrow> bool \<times> fs" where
  "fs_remove env path fs =
     (if fs path \<noteq> None \<and> kv_remove env path then (True, fs(path := None)) else (False, fs))"

definition fs_rename :: "clean_env \<Rightarrow> string \<Rightarrow> string \<Rightarrow> fs \<Rightarrow> bool \<times> fs" where
  "fs_rename env a b fs =
     (if fs a \<noteq> None \<and> kv_rename env a b then (True, (fs(b := fs a))(a := None)) else (False, fs))"

definition file_size_of :: "fs \<Rightarrow> string \<Rightarrow> u64 option" where
  "file_size_of fs path = (case fs path of Some (Reg n t) \<Rightarrow> Some n | Some Dir \<Rightarrow> Some 0 | None \<Rightarrow> None)"

text \<open>A directory name with its slash.\<close>

definition with_slash :: "string \<Rightarrow> string" where
  "with_slash base = (if base \<noteq> [] \<and> last base \<noteq> CHR ''/'' then base @ ''/'' else base)"

section \<open>Directories\<close>

text \<open>Make sure one prefix of the path is a directory.\<close>

definition ensure_one :: "clean_env \<Rightarrow> string \<Rightarrow> fs \<Rightarrow> bool \<times> fs" where
  "ensure_one env path fs =
     (case fs path of
        None \<Rightarrow> (case kv_mkdir env path of
                   Mk_ok \<Rightarrow> (True, fs(path \<mapsto> Dir)) | Mk_exists \<Rightarrow> (True, fs) | Mk_failed \<Rightarrow> (False, fs))
      | Some Dir \<Rightarrow> (True, fs)
      | Some (Reg n t) \<Rightarrow> (False, fs))"

function ensure_loop :: "clean_env \<Rightarrow> string \<Rightarrow> nat \<Rightarrow> fs \<Rightarrow> bool \<times> fs" where
  "ensure_loop env path start fs =
     (if start < length path
      then (case find_char (CHR ''/'') (drop start path) of
              None \<Rightarrow> ensure_one env path fs
            | Some k \<Rightarrow>
                (let next = start + k in
                 if next = 0 then ensure_loop env path (next + 1) fs
                 else (case ensure_one env (take next path) fs of
                         (False, fs1) \<Rightarrow> (False, fs1)
                       | (True, fs1) \<Rightarrow> ensure_loop env path (next + 1) fs1)))
      else (True, fs))"
  by pat_completeness auto

termination by (relation "measure (\<lambda>(env, path, start, fs). length path - start)") auto

declare ensure_loop.simps [simp del]

definition ensure_directory :: "clean_env \<Rightarrow> string \<Rightarrow> fs \<Rightarrow> bool \<times> fs" where
  "ensure_directory env path fs = (if path = [] then (False, fs) else ensure_loop env path 0 fs)"

section \<open>Text\<close>

definition hex_digit :: "nat \<Rightarrow> char" where
  "hex_digit d = (if d < 10 then char_of (48 + d) else char_of (87 + d))"

definition json_escape_char :: "char \<Rightarrow> string" where
  "json_escape_char c =
     (if c = backslash then [backslash, backslash]
      else if c = quote_char then [backslash, quote_char]
      else if c = CHR 0x0A then [backslash, CHR ''n'']
      else if c = CHR 0x0D then [backslash, CHR ''r'']
      else if c = CHR 0x09 then [backslash, CHR ''t'']
      else if of_char c < (0x20 :: nat)
      then [backslash, CHR ''u'', CHR ''0'', CHR ''0'', hex_digit (of_char c div 16), hex_digit (of_char c mod 16)]
      else [c])"

definition json_escape_local :: "string \<Rightarrow> string" where
  "json_escape_local input = concat (map json_escape_char input)"

text \<open>\<open>strftime\<close> with \<open>%Y%m%d_%H%M%S\<close>.\<close>

definition timestamp_suffix :: "clean_env \<Rightarrow> string" where
  "timestamp_suffix env =
     (let t = kv_tm env in
      fmt_d 0 (tm_year t + 1900) @ fmt_d 2 (tm_mon t + 1) @ fmt_d 2 (tm_mday t) @ ''_'' @
      fmt_d 2 (tm_hour t) @ fmt_d 2 (tm_min t) @ fmt_d 2 (kv_sec env))"

section \<open>Pruning\<close>

text \<open>
  The entries of a directory whose name starts with \<open>prefix\<close> and that are regular files: path, time and
  size.  Names that start with a dot are skipped.
\<close>

fun dir_entries :: "fs \<Rightarrow> string \<Rightarrow> string \<Rightarrow> string list \<Rightarrow> (string \<times> int \<times> u64) list" where
  "dir_entries fs base prefix [] = []"
| "dir_entries fs base prefix (name # names) =
     (if starts_with ''.'' name \<or> \<not> starts_with prefix name then dir_entries fs base prefix names
      else case fs (base @ name) of
             Some (Reg n t) \<Rightarrow> (base @ name, t, n) # dir_entries fs base prefix names
           | _ \<Rightarrow> dir_entries fs base prefix names)"

text \<open>Remove the first paths of a list, whatever each removal returns.\<close>

fun remove_paths :: "clean_env \<Rightarrow> string list \<Rightarrow> fs \<Rightarrow> fs" where
  "remove_paths env [] fs = fs"
| "remove_paths env (p # ps) fs = remove_paths env ps (snd (fs_remove env p fs))"

text \<open>\<open>std::sort\<close> by time; the code does not fix the order of equal times, the model keeps it.\<close>

definition by_time :: "(string \<times> int \<times> u64) list \<Rightarrow> (string \<times> int \<times> u64) list" where
  "by_time = sort_key (\<lambda>(p, t, n). t)"

text \<open>The directory of the archives: expired entries go at once, the others are collected.\<close>

fun scan_archives ::
  "clean_env \<Rightarrow> string \<Rightarrow> int \<Rightarrow> bool \<Rightarrow> bool \<Rightarrow> string list \<Rightarrow> fs \<Rightarrow> (string \<times> int \<times> u64) list \<times> fs" where
  "scan_archives env base cutoff enforce_retention enforce_size [] fs = ([], fs)"
| "scan_archives env base cutoff enforce_retention enforce_size (name # names) fs =
     (if starts_with ''.'' name \<or> \<not> starts_with ''capture_'' name
      then scan_archives env base cutoff enforce_retention enforce_size names fs
      else case fs (base @ name) of
             Some (Reg n t) \<Rightarrow>
               if enforce_retention \<and> cutoff \<noteq> 0 \<and> t < cutoff
               then scan_archives env base cutoff enforce_retention enforce_size names
                      (snd (fs_remove env (base @ name) fs))
               else (case scan_archives env base cutoff enforce_retention enforce_size names fs of
                       (es, fs1) \<Rightarrow> (if enforce_size then (base @ name, t, n) # es else es, fs1))
           | _ \<Rightarrow> scan_archives env base cutoff enforce_retention enforce_size names fs)"

definition total_size :: "(string \<times> int \<times> u64) list \<Rightarrow> u64" where
  "total_size es = sum_list (map (\<lambda>(p, t, n). n) es)"

text \<open>The oldest archives go until the rest fits the limit.\<close>

fun prune_to :: "clean_env \<Rightarrow> u64 \<Rightarrow> (string \<times> int \<times> u64) list \<Rightarrow> u64 \<Rightarrow> fs \<Rightarrow> u64 \<times> fs" where
  "prune_to env limit [] n_total fs = (n_total, fs)"
| "prune_to env limit ((p, t, n) # es) n_total fs =
     (if n_total > limit
      then (case fs_remove env p fs of
              (True, fs1) \<Rightarrow> prune_to env limit es (if n \<le> n_total then n_total - n else 0) fs1
            | (False, fs1) \<Rightarrow> prune_to env limit es n_total fs1)
      else (n_total, fs))"

end
