(* ===== verification/Cleanup_Thread.thy ===== *)
theory Cleanup_Thread
  imports Cleanup_Files Task_Manager
begin

text \<open>
  The cleanup thread, \<open>src/src/rxcleanupthread.cpp\<close>: it records finished capture files, compresses them in
  batches, prunes archives, record files and uploaded definitions, and reports to the capture manager.
  Its steps run over the thread, the file system, the shared task manager and the messages sent.
\<close>

section \<open>State\<close>

record PendingFile =
  pf_capture_id :: int
  pf_key :: string
  pf_sid :: string
  pf_file :: CaptureFileInfo
  pf_policy :: CaptureConfigSnapshot

definition RECORD_MAX_SIZE_BYTES :: u64 where
  "RECORD_MAX_SIZE_BYTES = 50 * 1024 * 1024"

definition RECORD_MAX_FILES :: nat where
  "RECORD_MAX_FILES = 2"

record CRxCleanupThread =
  kt_interval_sec :: int
  kt_config :: CleanupConfig
  kt_pdef_dir :: string
  kt_pdef_ttl :: int
  kt_record_path :: string
  kt_record_size :: u64
  kt_record_max :: u64
  kt_compress_threshold :: u64
  kt_archive_max :: u64
  kt_archive_retention :: int
  kt_pending :: "PendingFile list"
  kt_running :: bool
  kt_timer :: "u32 option"

definition CRxCleanupThread_new :: CRxCleanupThread where
  "CRxCleanupThread_new =
     \<lparr>kt_interval_sec = 60, kt_config = CleanupConfig_new, kt_pdef_dir = ''/tmp/rxtracenetcap_pdef'',
      kt_pdef_ttl = 24 * 3600, kt_record_path = [], kt_record_size = 0, kt_record_max = RECORD_MAX_SIZE_BYTES,
      kt_compress_threshold = 0, kt_archive_max = 0, kt_archive_retention = 0, kt_pending = [],
      kt_running = True, kt_timer = None\<rparr>"

record clean_state =
  ks_thread :: CRxCleanupThread
  ks_fs :: fs
  ks_mgr :: CRxSafeTaskMgr
  ks_out :: "(u32 \<times> rx_msg) list"

definition LONG_MAX :: int where
  "LONG_MAX = 2 ^ 63 - 1"

definition configure :: "CleanupConfig \<Rightarrow> StorageConfig \<Rightarrow> CRxCleanupThread \<Rightarrow> CRxCleanupThread" where
  "configure cfg storage_cfg t =
     t\<lparr>kt_config := cfg,
       kt_pdef_dir := (if st_temp_pdef_dir storage_cfg = [] then ''/tmp/rxtracenetcap_pdef''
                       else st_temp_pdef_dir storage_cfg),
       kt_pdef_ttl := (if st_temp_pdef_ttl_hours storage_cfg > 0
                       then let ttl = st_temp_pdef_ttl_hours storage_cfg * 3600 in if ttl < 0 then 0 else ttl
                       else 0),
       kt_archive_retention := (if cl_archive_keep_days cfg > 0
                       then let days = cl_archive_keep_days cfg in
                            if days > LONG_MAX div 86400 then LONG_MAX else days * 86400
                       else 0),
       kt_archive_max := (if cl_archive_max_total_size_mb cfg > 0
                       then cl_archive_max_total_size_mb cfg * 1024 * 1024 else 0)\<rparr>"

definition schedule_cleanup_timer :: "CRxCleanupThread \<Rightarrow> CRxCleanupThread" where
  "schedule_cleanup_timer t = t\<lparr>kt_timer := Some (word_of_int (kt_interval_sec t * 1000))\<rparr>"

section \<open>The record file\<close>

definition get_record_base_dir :: "clean_env \<Rightarrow> string" where
  "get_record_base_dir env =
     (let base = (case kv_base_dir env of Some b \<Rightarrow> b | None \<Rightarrow> []) in
      if base = [] then ''/var/log/rxtrace/captures'' else base)"

definition current_record_file :: "clean_env \<Rightarrow> string" where
  "current_record_file env = with_slash (get_record_base_dir env) @ ''cleanup.log''"

definition prune_record_files :: "clean_env \<Rightarrow> fs \<Rightarrow> fs" where
  "prune_record_files env fs =
     (case kv_list env fs (get_record_base_dir env) of
        None \<Rightarrow> fs
      | Some names \<Rightarrow>
          (let entries = dir_entries fs (with_slash (get_record_base_dir env)) ''cleanup'' names in
           if length entries \<le> RECORD_MAX_FILES then fs
           else remove_paths env (map fst (take (length entries - RECORD_MAX_FILES) (by_time entries))) fs))"

text \<open>Find the record file and its size, the first time.\<close>

definition open_record :: "clean_env \<Rightarrow> CRxCleanupThread \<times> fs \<Rightarrow> CRxCleanupThread \<times> fs" where
  "open_record env s =
     (case s of (t, fs) \<Rightarrow>
        if kt_record_path t = []
        then let path = current_record_file env in
             (t\<lparr>kt_record_path := path,
                kt_record_size := (case file_size_of fs path of Some n \<Rightarrow> n | None \<Rightarrow> 0)\<rparr>, fs)
        else (t, fs))"

definition rotate_record_file_if_needed ::
  "clean_env \<Rightarrow> nat \<Rightarrow> CRxCleanupThread \<times> fs \<Rightarrow> CRxCleanupThread \<times> fs" where
  "rotate_record_file_if_needed env incoming s =
     (case open_record env s of (t, fs) \<Rightarrow>
        if kt_record_max t = 0 then (t, fs)
        else if kt_record_size t + of_nat incoming \<le> kt_record_max t then (t, fs)
        else
          (let rotated = with_slash (get_record_base_dir env) @ ''cleanup_'' @ timestamp_suffix env @ ''.log'' in
           case fs_rename env (kt_record_path t) rotated fs of
             (False, fs1) \<Rightarrow> (t\<lparr>kt_record_size := 0\<rparr>, fs1)
           | (True, fs1) \<Rightarrow> (t\<lparr>kt_record_size := 0\<rparr>, prune_record_files env fs1)))"

definition quoted_field :: "string \<Rightarrow> string \<Rightarrow> string" where
  "quoted_field name v =
     [quote_char] @ name @ [quote_char, CHR '':'', quote_char] @ json_escape_local v @ [quote_char]"

definition number_field :: "string \<Rightarrow> int \<Rightarrow> string" where
  "number_field name v = [quote_char] @ name @ [quote_char, CHR '':''] @ fmt_d 0 v"

definition record_line :: "clean_env \<Rightarrow> int \<Rightarrow> string \<Rightarrow> CaptureFileInfo \<Rightarrow> string" where
  "record_line env capture_id key info =
     ''{'' @ number_field ''ts'' (kv_now env) @ '','' @ number_field ''capture_id'' capture_id @ '','' @
     quoted_field ''key'' key @ '','' @ quoted_field ''file'' (fi_file_path info) @ '','' @
     number_field ''size'' (uint (fi_file_size info)) @ '','' @
     number_field ''segment'' (fi_segment_index info) @ '','' @
     number_field ''segments'' (fi_total_segments info) @ ''}'' @ [CHR 0x0A]"

text \<open>Append to a file, or create it: the number of bytes written.\<close>

definition fs_append :: "clean_env \<Rightarrow> string \<Rightarrow> nat \<Rightarrow> fs \<Rightarrow> (nat \<times> fs) option" where
  "fs_append env path n fs =
     (case kv_append env path of
        None \<Rightarrow> None
      | Some room \<Rightarrow>
          (let written = min room n;
               old = (case file_size_of fs path of Some k \<Rightarrow> k | None \<Rightarrow> 0)
           in Some (written, fs(path \<mapsto> Reg (old + of_nat written) (kv_now env)))))"

definition record_file_metadata ::
  "clean_env \<Rightarrow> int \<Rightarrow> string \<Rightarrow> CaptureFileInfo \<Rightarrow> CRxCleanupThread \<times> fs \<Rightarrow> string \<times> CRxCleanupThread \<times> fs" where
  "record_file_metadata env capture_id key info s =
     (case s of (t, fs) \<Rightarrow>
        (let n = length (record_line env capture_id key info) in
         case ensure_directory env (get_record_base_dir env) fs of
           (False, fs1) \<Rightarrow> ([], t, fs1)
         | (True, fs1) \<Rightarrow>
             (case rotate_record_file_if_needed env n (open_record env (t, fs1)) of (t2, fs2) \<Rightarrow>
                (case fs_append env (kt_record_path t2) n fs2 of
                   None \<Rightarrow> ([], t2, fs2)
                 | Some (written, fs3) \<Rightarrow>
                     (kt_record_path t2,
                      if written \<noteq> n then t2
                      else t2\<lparr>kt_record_size := kt_record_size t2 + of_nat written\<rparr>, fs3)))))"

section \<open>Queueing files\<close>

definition enqueue_one ::
  "clean_env \<Rightarrow> SRxFileEnqueueMsgV2 \<Rightarrow> CaptureFileInfo \<Rightarrow> clean_state \<Rightarrow> mem_fault + clean_state" where
  "enqueue_one env msg info s =
     (case record_file_metadata env (cm_capture_id msg) (cm_key msg) info (ks_thread s, ks_fs s) of
        (record_path, t1, fs1) \<Rightarrow>
          (let info1 = (if record_path \<noteq> [] then info\<lparr>fi_record_path := record_path\<rparr> else info);
               pending = \<lparr>pf_capture_id = cm_capture_id msg, pf_key = cm_key msg, pf_sid = cm_sid msg,
                          pf_file = info1, pf_policy = enqueue_clean_policy msg\<rparr>;
               t2 = t1\<lparr>kt_pending := kt_pending t1 @ [pending]\<rparr>
           in try_then (append_capture_files (cm_capture_id msg) [info1] (ks_mgr s)) (\<lambda>(_, m1).
                Inr (s\<lparr>ks_thread := t2, ks_fs := fs1, ks_mgr := m1\<rparr>))))"

fun enqueue_all ::
  "clean_env \<Rightarrow> SRxFileEnqueueMsgV2 \<Rightarrow> CaptureFileInfo list \<Rightarrow> clean_state \<Rightarrow> mem_fault + clean_state" where
  "enqueue_all env msg [] s = Inr s"
| "enqueue_all env msg (f # fs) s = try_then (enqueue_one env msg f s) (enqueue_all env msg fs)"

definition enqueue_files :: "clean_env \<Rightarrow> SRxFileEnqueueMsgV2 \<Rightarrow> clean_state \<Rightarrow> mem_fault + clean_state" where
  "enqueue_files env msg s = enqueue_all env msg (enqueue_files_list msg) s"

section \<open>Compression\<close>

definition basename :: "string \<Rightarrow> string" where
  "basename path = (case rfind_char (CHR ''/'') path of Some i \<Rightarrow> drop (Suc i) path | None \<Rightarrow> path)"

definition is_record_file :: "string \<Rightarrow> bool" where
  "is_record_file path \<longleftrightarrow> starts_with ''cleanup'' (basename path) \<and> find_str ''.log'' (basename path) \<noteq> None"

definition shell_quote :: "string \<Rightarrow> string" where
  "shell_quote s = [CHR 0x27] @ s @ [CHR 0x27]"

definition batch_archive_path :: "clean_env \<Rightarrow> CRxCleanupThread \<Rightarrow> int \<Rightarrow> string" where
  "batch_archive_path env t capture_id =
     with_slash (cl_archive_dir (kt_config t)) @ ''batch_'' @ timestamp_suffix env @ ''_'' @
     snprintf 32 (fmt_d 0 capture_id) @ ''.tar.gz''"

definition batch_command :: "string \<Rightarrow> string list \<Rightarrow> string" where
  "batch_command archive paths =
     ''tar -czf '' @ shell_quote archive @ concat (map (\<lambda>p. '' '' @ shell_quote p) paths)"

definition batch_paths :: "PendingFile list \<Rightarrow> string list" where
  "batch_paths files = filter (\<lambda>p. \<not> is_record_file p) (map (fi_file_path \<circ> pf_file) files)"

definition compressed_file :: "string \<Rightarrow> int \<Rightarrow> CaptureFileInfo \<Rightarrow> CaptureFileInfo" where
  "compressed_file archive finish info =
     info\<lparr>fi_compressed := True, fi_archive_path := archive, fi_compress_finish_ts := finish\<rparr>"

text \<open>The archive on success, the error text on failure, and the files either way.\<close>

definition compress_batch ::
  "clean_env \<Rightarrow> CRxCleanupThread \<Rightarrow> PendingFile list \<Rightarrow> fs \<Rightarrow> (string + CaptureArchiveInfo) \<times> fs" where
  "compress_batch env t files fs =
     (case files of
        [] \<Rightarrow> (Inl ''no_files_to_compress'', fs)
      | f # _ \<Rightarrow>
          (case ensure_directory env (cl_archive_dir (kt_config t)) fs of
             (False, fs1) \<Rightarrow> (Inl ''archive_dir_unavailable'', fs1)
           | (True, fs1) \<Rightarrow>
               (let archive = batch_archive_path env t (pf_capture_id f); paths = batch_paths files in
                if paths = [] then (Inl ''no_files_after_filter'', fs1)
                else (case kv_system env (batch_command archive paths) fs1 of
                        (rc, fs2) \<Rightarrow>
                          if rc \<noteq> 0 then (Inl ''compress_failed'', fs2)
                          else
                            (let sz = (case file_size_of fs2 archive of Some n \<Rightarrow> n | None \<Rightarrow> 0);
                                 fs3 = (if cl_archive_remove_source (kt_config t)
                                        then remove_paths env paths fs2 else fs2)
                             in (Inr \<lparr>ai_archive_path = archive,
                                      ai_files = map (compressed_file archive (kv_now env) \<circ> pf_file) files,
                                      ai_archive_size = sz, ai_compress_finish_ts = kv_now env\<rparr>, fs3))))))"

definition should_compress_size :: "CRxCleanupThread \<Rightarrow> u64 \<Rightarrow> int \<Rightarrow> bool" where
  "should_compress_size t sz policy_mb =
     (let effective = (if policy_mb > 0 then word_of_int policy_mb * 1024 * 1024 else kt_compress_threshold t) in
      effective = 0 \<or> sz \<ge> effective)"

text \<open>
  Compression of a single file, which nothing calls.  \<open>None\<close> as archive: the file is left as it is.
\<close>

definition single_archive_path :: "clean_env \<Rightarrow> CRxCleanupThread \<Rightarrow> PendingFile \<Rightarrow> string" where
  "single_archive_path env t p =
     with_slash (cl_archive_dir (kt_config t)) @ ''capture_'' @ timestamp_suffix env @ ''_'' @
     snprintf 32 (fmt_d 0 (pf_capture_id p) @ ''_'' @ fmt_d 0 (fi_segment_index (pf_file p))) @ ''.tgz''"

definition compress_file ::
  "clean_env \<Rightarrow> CRxCleanupThread \<Rightarrow> PendingFile \<Rightarrow> fs \<Rightarrow> (string + CaptureArchiveInfo option) \<times> fs" where
  "compress_file env t p fs =
     (let path = fi_file_path (pf_file p) in
      case file_size_of fs path of
        None \<Rightarrow> (Inl ''file_not_found'', fs)
      | Some sz \<Rightarrow>
          if \<not> cc_compress_enabled (pf_policy p) then (Inr None, fs)
          else if \<not> should_compress_size t sz (cc_compress_threshold_mb (pf_policy p)) then (Inr None, fs)
          else
            (let fmt = cc_compress_format (pf_policy p);
                 (ok, fs1) = (if fmt \<noteq> [] then (True, fs) else ensure_directory env (cl_archive_dir (kt_config t)) fs);
                 archive = (if fmt \<noteq> [] then [] else single_archive_path env t p);
                 command = (if fmt \<noteq> [] then fmt @ '' '' @ shell_quote path else batch_command archive [path])
             in if \<not> ok then (Inl ''archive_dir_unavailable'', fs1)
                else (case kv_system env command fs1 of
                        (rc, fs2) \<Rightarrow>
                          if rc \<noteq> 0 then (Inl ''compress_failed'', fs2)
                          else
                            (let (produced, archive_size) =
                                   (if fmt \<noteq> []
                                    then (case file_size_of fs2 path of
                                            Some n \<Rightarrow> (path, n)
                                          | None \<Rightarrow> (case file_size_of fs2 (path @ ''.gz'') of
                                                       Some n \<Rightarrow> (path @ ''.gz'', n) | None \<Rightarrow> (path, 0)))
                                    else (archive, case file_size_of fs2 archive of Some n \<Rightarrow> n | None \<Rightarrow> 0));
                                 remove = (cl_archive_remove_source (kt_config t) \<or>
                                   cc_compress_remove_src (pf_policy p)) \<and> fs2 path \<noteq> None;
                                 fs3 = (if remove then snd (fs_remove env path fs2) else fs2);
                                 final = (if produced = [] then path else produced)
                             in (Inr (Some \<lparr>ai_archive_path = final,
                                            ai_files = [compressed_file final (kv_now env) (pf_file p)],
                                            ai_archive_size = archive_size,
                                            ai_compress_finish_ts = kv_now env\<rparr>), fs3)))))"

section \<open>Reports to the manager\<close>

definition clean_base :: "clean_env \<Rightarrow> rx_op \<Rightarrow> int \<Rightarrow> string \<Rightarrow> string \<Rightarrow> CaptureMessageBase" where
  "clean_base env m capture_id key sid =
     (CaptureMessageBase_new (kv_now env * 1000000) m)
       \<lparr>cm_capture_id := capture_id, cm_key := key, cm_sid := sid,
        cm_sender_thread_index := sint (kv_thread_index env)\<rparr>"

definition to_manager :: "clean_env \<Rightarrow> rx_msg \<Rightarrow> (u32 \<times> rx_msg) list" where
  "to_manager env m = (case kv_manager env of None \<Rightarrow> [] | Some i \<Rightarrow> [(i, m)])"

definition notify_archive_result ::
  "clean_env \<Rightarrow> int \<Rightarrow> string \<Rightarrow> string \<Rightarrow> CaptureArchiveInfo \<Rightarrow> (u32 \<times> rx_msg) list" where
  "notify_archive_result env capture_id key sid archive =
     to_manager env (M_Compress_done (CaptureMessageBase.extend
       (clean_base env RX_MSG_CLEAN_COMPRESS_DONE capture_id key sid)
       (SRxCleanCompressDoneMsgV2.fields (ai_files archive) (ai_archive_path archive) (ai_archive_size archive) 0)))"

definition notify_archive_failure ::
  "clean_env \<Rightarrow> int \<Rightarrow> string \<Rightarrow> string \<Rightarrow> CaptureFileInfo list \<Rightarrow> string \<Rightarrow> (u32 \<times> rx_msg) list" where
  "notify_archive_failure env capture_id key sid files err =
     to_manager env (M_Compress_failed (CaptureMessageBase.extend
       (clean_base env RX_MSG_CLEAN_COMPRESS_FAILED capture_id key sid)
       (SRxCleanCompressFailedMsgV2.fields files ERR_CLEAN_COMPRESS_FAILED err)))"

section \<open>The periodic work\<close>

definition pending_size :: "fs \<Rightarrow> PendingFile list \<Rightarrow> u64" where
  "pending_size fs files =
     sum_list (map (\<lambda>p. case file_size_of fs (fi_file_path (pf_file p)) of Some n \<Rightarrow> n | None \<Rightarrow> 0) files)"

text \<open>The \<open>std::map\<close> of the groups: capture ids in increasing order, files in queue order.\<close>

definition group_of :: "int \<Rightarrow> PendingFile list \<Rightarrow> PendingFile list" where
  "group_of i files = filter (\<lambda>p. pf_capture_id p = i) files"

definition group_ids :: "PendingFile list \<Rightarrow> int list" where
  "group_ids files = sorted_list_of_set (set (map pf_capture_id files))"

definition process_group ::
  "clean_env \<Rightarrow> CRxCleanupThread \<Rightarrow> PendingFile list \<Rightarrow> fs \<Rightarrow> fs \<times> (u32 \<times> rx_msg) list" where
  "process_group env t files fs =
     (case files of
        [] \<Rightarrow> (fs, [])
      | f # _ \<Rightarrow>
          (case compress_batch env t files fs of
             (Inr archive, fs1) \<Rightarrow>
               (fs1, if ai_files archive \<noteq> []
                     then notify_archive_result env (pf_capture_id f) (pf_key f) (pf_sid f) archive else [])
           | (Inl err, fs1) \<Rightarrow>
               (fs1, notify_archive_failure env (pf_capture_id f) (pf_key f) (pf_sid f) (map pf_file files) err)))"

fun process_groups ::
  "clean_env \<Rightarrow> CRxCleanupThread \<Rightarrow> PendingFile list \<Rightarrow> int list \<Rightarrow> fs \<Rightarrow> fs \<times> (u32 \<times> rx_msg) list" where
  "process_groups env t files [] fs = (fs, [])"
| "process_groups env t files (i # ids) fs =
     (case process_group env t (group_of i files) fs of
        (fs1, ms) \<Rightarrow> (case process_groups env t files ids fs1 of (fs2, ms') \<Rightarrow> (fs2, ms @ ms')))"

definition should_compress :: "CRxCleanupThread \<Rightarrow> fs \<Rightarrow> bool" where
  "should_compress t fs \<longleftrightarrow>
     length (kt_pending t) \<ge> unat (cl_batch_compress_file_count (kt_config t)) \<or>
     pending_size fs (kt_pending t) \<ge> cl_batch_compress_size_mb (kt_config t) * 1024 * 1024"

definition process_pending_files :: "clean_env \<Rightarrow> clean_state \<Rightarrow> clean_state" where
  "process_pending_files env s =
     (let t = ks_thread s in
      if kt_pending t = [] \<or> \<not> should_compress t (ks_fs s) then s
      else (case process_groups env t (kt_pending t) (group_ids (kt_pending t)) (ks_fs s) of
              (fs1, ms) \<Rightarrow> s\<lparr>ks_thread := t\<lparr>kt_pending := []\<rparr>, ks_fs := fs1, ks_out := ks_out s @ ms\<rparr>))"

fun remove_expired :: "clean_env \<Rightarrow> int \<Rightarrow> (string \<times> int \<times> u64) list \<Rightarrow> fs \<Rightarrow> fs" where
  "remove_expired env ttl [] fs = fs"
| "remove_expired env ttl ((p, t, n) # es) fs =
     remove_expired env ttl es (if kv_now env - t \<ge> ttl then snd (fs_remove env p fs) else fs)"

definition cleanup_pdef_temp_files :: "clean_env \<Rightarrow> CRxCleanupThread \<Rightarrow> fs \<Rightarrow> fs" where
  "cleanup_pdef_temp_files env t fs =
     (if kt_pdef_dir t = [] \<or> kt_pdef_ttl t \<le> 0 then fs
      else case kv_list env fs (kt_pdef_dir t) of
             None \<Rightarrow> fs
           | Some names \<Rightarrow>
               remove_expired env (kt_pdef_ttl t) (dir_entries fs (with_slash (kt_pdef_dir t)) [] names) fs)"

definition archive_cutoff :: "clean_env \<Rightarrow> CRxCleanupThread \<Rightarrow> int" where
  "archive_cutoff env t =
     (if kt_archive_retention t > 0 \<and> kt_archive_retention t \<le> kv_now env
      then kv_now env - kt_archive_retention t else 0)"

definition prune_archives :: "clean_env \<Rightarrow> CRxCleanupThread \<Rightarrow> fs \<Rightarrow> fs" where
  "prune_archives env t fs =
     (let dir = cl_archive_dir (kt_config t) in
      if dir = [] then fs
      else if kt_archive_retention t \<le> 0 \<and> kt_archive_max t = 0 then fs
      else case kv_list env fs dir of
             None \<Rightarrow> fs
           | Some names \<Rightarrow>
               (let enforce_size = kt_archive_max t > 0;
                    (entries, fs1) = scan_archives env (with_slash dir) (archive_cutoff env t)
                      (kt_archive_retention t > 0) enforce_size names fs
                in if \<not> enforce_size \<or> entries = [] then fs1
                   else if total_size entries \<le> kt_archive_max t then fs1
                   else snd (prune_to env (kt_archive_max t) (by_time entries) (total_size entries) fs1)))"

definition do_cleanup :: "clean_env \<Rightarrow> clean_state \<Rightarrow> clean_state" where
  "do_cleanup env s =
     (let s1 = s\<lparr>ks_fs := cleanup_pdef_temp_files env (ks_thread s) (ks_fs s)\<rparr>;
          s2 = process_pending_files env s1
      in s2\<lparr>ks_fs := prune_archives env (ks_thread s2) (ks_fs s2)\<rparr>)"

section \<open>The thread\<close>

text \<open>\<open>base_ok\<close>: whether the thread of the framework starts.\<close>

definition cleanup_start :: "clean_env \<Rightarrow> bool \<Rightarrow> clean_state \<Rightarrow> bool \<times> clean_state" where
  "cleanup_start env base_ok s =
     (if \<not> base_ok then (False, s)
      else
        (let t = ks_thread s;
             fs1 = snd (ensure_directory env (get_record_base_dir env) (ks_fs s));
             fs2 = snd (ensure_directory env (cl_archive_dir (kt_config t)) fs1);
             fs3 = (if kt_pdef_dir t \<noteq> [] then snd (ensure_directory env (kt_pdef_dir t) fs2) else fs2)
         in (True, s\<lparr>ks_thread := schedule_cleanup_timer t, ks_fs := fs3\<rparr>)))"

text \<open>\<open>is_cleanup\<close>: the timer that fired is the one of the cleanup.\<close>

definition cleanup_handle_timeout :: "clean_env \<Rightarrow> bool \<Rightarrow> clean_state \<Rightarrow> clean_state" where
  "cleanup_handle_timeout env is_cleanup s =
     (if \<not> is_cleanup then s
      else
        (let s1 = do_cleanup env (s\<lparr>ks_thread := (ks_thread s)\<lparr>kt_timer := None\<rparr>\<rparr>) in
         if kt_running (ks_thread s1) then s1\<lparr>ks_thread := schedule_cleanup_timer (ks_thread s1)\<rparr> else s1))"

datatype cleanup_msg =
  Clean_enqueue SRxFileEnqueueMsgV2
| Clean_cfg_refresh
| Clean_shutdown

definition cleanup_handle_msg :: "clean_env \<Rightarrow> cleanup_msg \<Rightarrow> clean_state \<Rightarrow> mem_fault + clean_state" where
  "cleanup_handle_msg env m s =
     (case m of
        Clean_enqueue e \<Rightarrow> enqueue_files env e s
      | Clean_cfg_refresh \<Rightarrow> Inr s
      | Clean_shutdown \<Rightarrow> Inr (s\<lparr>ks_thread := (ks_thread s)\<lparr>kt_running := False\<rparr>\<rparr>))"

end
