(* ===== verification/C_Text.thy ===== *)
theory C_Text
  imports Cleanup_Files
begin

text \<open>
  The routines of the C and C++ libraries on text that several components use: character classes of the
  default locale, \<open>strtol\<close> and its relatives, lines, words and trimming.
\<close>

section \<open>Characters\<close>

definition isdigit :: "char \<Rightarrow> bool" where
  "isdigit c \<longleftrightarrow> of_char c \<ge> (48 :: nat) \<and> of_char c \<le> (57 :: nat)"

definition isupper :: "char \<Rightarrow> bool" where
  "isupper c \<longleftrightarrow> of_char c \<ge> (65 :: nat) \<and> of_char c \<le> (90 :: nat)"

definition isalnum :: "char \<Rightarrow> bool" where
  "isalnum c \<longleftrightarrow> isdigit c \<or> isupper c \<or> (of_char c \<ge> (97 :: nat) \<and> of_char c \<le> (122 :: nat))"

definition tolower :: "char \<Rightarrow> char" where
  "tolower c = (if isupper c then char_of (of_char c + (32 :: nat)) else c)"

section \<open>Numbers\<close>

text \<open>The value of a digit in base 10 or 16.\<close>

definition digit_of :: "nat \<Rightarrow> char \<Rightarrow> nat option" where
  "digit_of base c =
     (let n = of_char c;
          d = (if 48 \<le> n \<and> n \<le> 57 then n - 48 else if 97 \<le> n \<and> n \<le> 122 then n - 87
               else if 65 \<le> n \<and> n \<le> 90 then n - 55 else base)
      in if d < base then Some d else None)"

fun digits_run :: "nat \<Rightarrow> nat \<Rightarrow> string \<Rightarrow> nat \<times> string" where
  "digits_run base acc [] = (acc, [])"
| "digits_run base acc (c # cs) =
     (case digit_of base c of None \<Rightarrow> (acc, c # cs) | Some d \<Rightarrow> digits_run base (acc * base + d) cs)"

text \<open>
  The common part of \<open>strtol\<close> and \<open>strtoul\<close>: white space, sign, the prefix \<open>0x\<close> in base 16, digits.  The
  result is the sign, the magnitude and the rest of the text, \<open>None\<close> when there is no digit.
\<close>

definition scan_number :: "nat \<Rightarrow> string \<Rightarrow> (bool \<times> nat \<times> string) option" where
  "scan_number base s =
     (let s1 = dropWhile isspace s;
          neg = (s1 \<noteq> [] \<and> hd s1 = CHR ''-'');
          s2 = (if s1 \<noteq> [] \<and> (hd s1 = CHR ''-'' \<or> hd s1 = CHR ''+'') then tl s1 else s1);
          s3 = (if base = 16 \<and> length s2 > 2 \<and> s2 ! 0 = CHR ''0'' \<and> (s2 ! 1 = CHR ''x'' \<or> s2 ! 1 = CHR ''X'') \<and>
                   digit_of 16 (s2 ! 2) \<noteq> None
                then drop 2 s2 else s2)
      in if s3 = [] \<or> digit_of base (hd s3) = None then None
         else (case digits_run base 0 s3 of (n, rest) \<Rightarrow> Some (neg, n, rest)))"

definition LONG_MIN_MAX :: "int \<Rightarrow> int" where
  "LONG_MIN_MAX v = max (- (2 ^ 63)) (min (2 ^ 63 - 1) v)"

text \<open>The value and the rest \<open>endptr\<close> points to; without a digit that is the whole text.\<close>

definition strtol :: "nat \<Rightarrow> string \<Rightarrow> int \<times> string" where
  "strtol base s =
     (case scan_number base s of
        None \<Rightarrow> (0, s)
      | Some (neg, n, rest) \<Rightarrow> (LONG_MIN_MAX (if neg then - int n else int n), rest))"

definition strtoul :: "nat \<Rightarrow> string \<Rightarrow> u64" where
  "strtoul base s =
     (case scan_number base s of
        None \<Rightarrow> 0
      | Some (neg, n, rest) \<Rightarrow>
          if n \<ge> 2 ^ 64 then - 1 else if neg then - of_nat n else of_nat n)"

text \<open>A \<open>long\<close> stored in an \<open>int\<close>.\<close>

definition to_int32 :: "int \<Rightarrow> int" where
  "to_int32 v = sint (word_of_int v :: 32 word)"

definition atoi :: "string \<Rightarrow> int" where
  "atoi s = to_int32 (fst (strtol 10 s))"

section \<open>Lines and words\<close>

text \<open>Cut before every character of a class; \<open>getline\<close> and \<open>>>\<close> split that way.\<close>

function getlines :: "string \<Rightarrow> string list" where
  "getlines s =
     (if s = [] then []
      else takeWhile (\<lambda>c. c \<noteq> CHR 0x0A) s # getlines (drop 1 (dropWhile (\<lambda>c. c \<noteq> CHR 0x0A) s)))"
  by auto

termination
proof (relation "measure length", goal_cases)
  case (2 s)
  then have "s \<noteq> []" by simp
  moreover have "length (dropWhile P s) \<le> length s" for P :: "char \<Rightarrow> bool" by (rule length_dropWhile_le)
  ultimately show ?case by (cases s) (auto simp: less_Suc_eq_le intro: le_trans [OF diff_le_self length_dropWhile_le])
qed simp

declare getlines.simps [simp del]

lemma getlines_Nil [simp]: "getlines [] = []"
  by (simp add: getlines.simps)

function split_words :: "string \<Rightarrow> string list" where
  "split_words s =
     (let s1 = dropWhile isspace s in
      if s1 = [] then [] else takeWhile (\<lambda>c. \<not> isspace c) s1 # split_words (dropWhile (\<lambda>c. \<not> isspace c) s1))"
  by auto

termination
proof (relation "measure length", goal_cases)
  case (2 s s1)
  then have ne: "s1 \<noteq> []" by simp
  then have "\<not> isspace (hd s1)" using hd_dropWhile 2(1) by blast
  with ne have "\<exists>c r. s1 = c # r \<and> \<not> isspace c" by (metis list.exhaust_sel)
  then obtain c r where s1: "s1 = c # r" "\<not> isspace c" by blast
  then have "length (dropWhile (\<lambda>c. \<not> isspace c) s1) \<le> length r" by (simp add: length_dropWhile_le)
  moreover have "length s1 \<le> length s" using 2(1) length_dropWhile_le by blast
  ultimately show ?case using s1(1) by simp
qed simp

declare split_words.simps [simp del]

text \<open>\<open>fgets\<close> with a buffer of \<open>n\<close> bytes: a line, its end included, or \<open>n - 1\<close> characters of it.\<close>

function fgets_lines :: "nat \<Rightarrow> string \<Rightarrow> string list" where
  "fgets_lines n s =
     (if s = [] then []
      else (let k = Suc (min (n - 2) (length (takeWhile (\<lambda>c. c \<noteq> CHR 0x0A) s))) in
            take k s # fgets_lines n (drop k s)))"
  by auto

termination by (relation "measure (\<lambda>(n, s). length s)") (auto simp: neq_Nil_conv)

declare fgets_lines.simps [simp del]

lemma concat_fgets_lines: "concat (fgets_lines n s) = s"
proof (induction n s rule: fgets_lines.induct)
  case (1 n s)
  show ?case
  proof (cases "s = []")
    case False
    then show ?thesis using 1 by (simp add: fgets_lines.simps [of n s] Let_def)
  qed (simp add: fgets_lines.simps)
qed

section \<open>Trimming\<close>

definition trim_by :: "(char \<Rightarrow> bool) \<Rightarrow> string \<Rightarrow> string" where
  "trim_by P s = rev (dropWhile P (rev (dropWhile P s)))"

lemma trim_by_ends:
  "trim_by P s = [] \<or> \<not> P (hd (trim_by P s)) \<and> \<not> P (last (trim_by P s))"
proof (cases "trim_by P s = []")
  case False
  let ?d = "dropWhile P s"
  obtain t where t: "?d = trim_by P s @ t"
    by (metis rev_append rev_rev_ident takeWhile_dropWhile_id trim_by_def)
  have "\<not> P (last (trim_by P s))"
    using False hd_dropWhile [of P "rev ?d"] by (simp add: trim_by_def last_rev)
  moreover have "\<not> P (hd (trim_by P s))"
    using False t hd_dropWhile [of P s] by (metis append_is_Nil_conv hd_append2)
  ultimately show ?thesis by blast
qed simp

section \<open>Substrings\<close>

lemma find_str_infix: "find_str p s \<noteq> None \<longleftrightarrow> (\<exists>a b. s = a @ p @ b)"
proof (induction s)
  case (Cons x s)
  show ?case
  proof (cases "starts_with p (x # s)")
    case True
    then show ?thesis using starts_with_iff by (metis append_Nil find_str.simps(2) option.distinct(1))
  next
    case False
    have "(\<exists>a b. x # s = a @ p @ b) \<longleftrightarrow> (\<exists>a b. s = a @ p @ b)"
    proof
      assume "\<exists>a b. x # s = a @ p @ b"
      then obtain a b where ab: "x # s = a @ p @ b" by blast
      then have "a \<noteq> []" using False starts_with_iff by (metis append_Nil)
      then show "\<exists>a b. s = a @ p @ b" using ab by (metis append_eq_Cons_conv)
    next
      assume "\<exists>a b. s = a @ p @ b"
      then obtain a b where "s = a @ p @ b" by blast
      then have "x # s = (x # a) @ p @ b" by simp
      then show "\<exists>a b. x # s = a @ p @ b" by blast
    qed
    then show ?thesis using False Cons.IH by simp
  qed
qed simp

end
