(* ===== verification/Decimal_Facts.thy ===== *)
theory Decimal_Facts
  imports C_Text
begin

text \<open>
  Decimal numbers: what \<open>printf\<close> writes, \<open>strtol\<close> reads back.
\<close>

lemma dec_digits: "c \<in> set (dec_string n) \<Longrightarrow> isdigit c"
proof (induction n rule: dec_string.induct)
  case (1 n)
  have "isdigit (char_of (48 + m))" if "m < 10" for m :: nat
    using that by (simp add: isdigit_def)
  then show ?case using 1 by (auto simp: dec_string.simps [of n] split: if_splits)
qed

lemma dec_string_not_empty [simp]: "dec_string n \<noteq> []"
  by (simp add: dec_string.simps [of n])

lemma digit_no_sign:
  "isdigit c \<Longrightarrow> \<not> isspace c \<and> c \<noteq> CHR ''-'' \<and> c \<noteq> CHR ''+'' \<and> c \<noteq> NUL"
  by (auto simp: isdigit_def isspace_def NUL_def)

lemma dec_string_no_NUL: "NUL \<notin> set (dec_string n)"
  using dec_digits digit_no_sign by blast

lemma digit_of_digit: "m < 10 \<Longrightarrow> digit_of 10 (char_of (48 + m)) = Some m"
  by (simp add: digit_of_def)

lemma digits_run_append:
  "digits_run 10 v xs = (a, []) \<Longrightarrow> digits_run 10 v (xs @ ys) = digits_run 10 a ys"
  by (induction xs arbitrary: v) (auto split: option.splits)

lemma digits_run_dec: "digits_run 10 0 (dec_string n) = (n, [])"
proof (induction n rule: dec_string.induct)
  case (1 n)
  show ?case
  proof (cases "n < 10")
    case True
    then show ?thesis by (simp add: dec_string.simps [of n] digit_of_digit)
  next
    case False
    then show ?thesis using 1 digits_run_append [of 0 "dec_string (n div 10)" "n div 10"]
      by (simp add: dec_string.simps [of n] digit_of_digit)
  qed
qed

lemma strtol_dec: "int n < 2 ^ 63 \<Longrightarrow> strtol 10 (dec_string n) = (int n, [])"
proof -
  assume n: "int n < 2 ^ 63"
  obtain c cs where c: "dec_string n = c # cs" by (cases "dec_string n") auto
  then have d: "isdigit c" using dec_digits [of c n] by simp
  then have "\<not> isspace c" "c \<noteq> CHR ''-''" "c \<noteq> CHR ''+''" using digit_no_sign by blast+
  moreover have "digit_of 10 c \<noteq> None" using d by (auto simp: digit_of_def isdigit_def Let_def)
  ultimately have "scan_number 10 (dec_string n) = Some (False, n, [])"
    using digits_run_dec [of n] unfolding c scan_number_def by (simp add: Let_def)
  then show ?thesis using n by (simp add: strtol_def LONG_MIN_MAX_def)
qed

lemma dec_string_short: "n < 10 ^ Suc k \<Longrightarrow> length (dec_string n) \<le> Suc k"
proof (induction k arbitrary: n)
  case 0
  then show ?case by (simp add: dec_string.simps [of n])
next
  case (Suc k)
  then have "n div 10 < 10 ^ Suc k" by (simp add: less_mult_imp_div_less mult.commute)
  then show ?case using Suc.IH [of "n div 10"] by (simp add: dec_string.simps [of n])
qed

lemma to_int32_id: "\<lbrakk>- (2 ^ 31) \<le> v; v < 2 ^ 31\<rbrakk> \<Longrightarrow> to_int32 v = v"
  by (simp add: to_int32_def sint_sbintrunc' signed_take_bit_int_eq_self)

lemma atoi_dec: "int n < 2 ^ 31 \<Longrightarrow> atoi (c_str (dec_string n)) = int n"
proof -
  assume n: "int n < 2 ^ 31"
  have "c_str (dec_string n) = dec_string n"
    using dec_string_no_NUL [of n] by (auto simp: c_str_def takeWhile_eq_all_conv)
  then show ?thesis using n strtol_dec [of n] by (simp add: atoi_def to_int32_id)
qed

end
