(* ===== verification/Cleanup_Facts.thy ===== *)
theory Cleanup_Facts
  imports Cleanup_Thread Decimal_Facts "HOL-Library.Multiset"
begin

text \<open>
  What holds of the cleanup thread: its records can be read back by a strict reader of JSON, a batch hands every pending file to
  exactly one report, a shell command names the files it was built from when no path has a quote, and
  pruning keeps the newest files called \<open>capture_...\<close> within the limit but never looks at the batch archives.
\<close>

section \<open>Lines of JSON\<close>

text \<open>
  A strict reader of a flat JSON object on one line, as a specification: a text ends at the first quote that is
  not escaped, and a control character or an unknown escape in it is an error; an integer is an optional minus
  sign and digits.  Escapes by number are those of one byte.
\<close>

datatype field_value = F_text string | F_number int

definition escapes :: "char \<Rightarrow> char option" where
  "escapes = map_of
     [(quote_char, quote_char), (backslash, backslash), (CHR ''/'', CHR ''/''), (CHR ''b'', CHR 0x08), (CHR ''f'', CHR 0x0C),
      (CHR ''n'', CHR 0x0A), (CHR ''r'', CHR 0x0D), (CHR ''t'', CHR 0x09)]"

fun read_string :: "string \<Rightarrow> (string \<times> string) option" where
  "read_string [] = None"
| "read_string (c # cs) =
     (if c = quote_char then Some ([], cs)
      else if of_char c < (0x20 :: nat) then None
      else if c \<noteq> backslash then map_option (apfst (Cons c)) (read_string cs)
      else case cs of
             [] \<Rightarrow> None
           | d # ds \<Rightarrow>
               if d = CHR ''u''
               then (case ds of
                       a # b # x # y # es \<Rightarrow>
                         if digit_of 16 a = Some 0 \<and> digit_of 16 b = Some 0 \<and> digit_of 16 x \<noteq> None \<and> digit_of 16 y \<noteq> None
                         then map_option (apfst (Cons (char_of (16 * the (digit_of 16 x) + the (digit_of 16 y))))) (read_string es)
                         else None
                     | _ \<Rightarrow> None)
               else if escapes d = None then None
               else map_option (apfst (Cons (the (escapes d)))) (read_string ds))"

definition read_natural :: "string \<Rightarrow> (nat \<times> string) option" where
  "read_natural s = (if s = [] \<or> digit_of 10 (hd s) = None then None else Some (digits_run 10 0 s))"

definition read_number :: "string \<Rightarrow> (int \<times> string) option" where
  "read_number s =
     (if s \<noteq> [] \<and> hd s = CHR ''-'' then map_option (apfst (\<lambda>n. - int n)) (read_natural (tl s))
      else map_option (apfst int) (read_natural s))"

definition expect :: "char \<Rightarrow> string \<Rightarrow> string option" where
  "expect c s = (if s \<noteq> [] \<and> hd s = c then Some (tl s) else None)"

definition read_value :: "string \<Rightarrow> (field_value \<times> string) option" where
  "read_value s =
     (case expect quote_char s of
        Some t \<Rightarrow> map_option (apfst F_text) (read_string t)
      | None \<Rightarrow> map_option (apfst F_number) (read_number s))"

definition read_field :: "string \<Rightarrow> ((string \<times> field_value) \<times> string) option" where
  "read_field s =
     Option.bind (Option.bind (expect quote_char s) read_string) (\<lambda>(name, s1).
     Option.bind (Option.bind (expect (CHR '':'') s1) read_value) (\<lambda>(v, s2). Some ((name, v), s2)))"

text \<open>At most \<open>n\<close> fields, then the end of the object and of the line.\<close>

fun read_fields :: "nat \<Rightarrow> string \<Rightarrow> (string \<times> field_value) list option" where
  "read_fields 0 s = None"
| "read_fields (Suc n) s =
     Option.bind (read_field s) (\<lambda>(f, rest).
       if rest = ''}'' @ [CHR 0x0A] then Some [f]
       else Option.bind (expect (CHR '','') rest) (\<lambda>s1. map_option (Cons f) (read_fields n s1)))"

definition read_record :: "string \<Rightarrow> (string \<times> field_value) list option" where
  "read_record s = Option.bind (expect (CHR ''{'') s) (read_fields (length s))"

lemma hex_digit_of: "d < 16 \<Longrightarrow> digit_of 16 (hex_digit d) = Some d"
  by (simp add: digit_of_def hex_digit_def Let_def)

lemma read_escaped_char: "read_string (json_escape_char c @ s) = map_option (apfst (Cons c)) (read_string s)"
proof (cases "of_char c < (0x20 :: nat)")
  case True
  then have "of_char c div 16 < (16 :: nat)" "of_char c mod 16 < (16 :: nat)" by simp_all
  note hex = hex_digit_of [OF this(1)] hex_digit_of [OF this(2)] hex_digit_of [of 0]
  have "hex_digit 0 = CHR ''0''" by (simp add: hex_digit_def char_of_def bit_0)
  then show ?thesis using True hex
    by (simp add: json_escape_char_def backslash_def quote_char_def escapes_def)
qed (simp add: json_escape_char_def backslash_def quote_char_def escapes_def)

lemma read_escaped: "read_string (json_escape_local v @ quote_char # rest) = Some (v, rest)"
proof (induction v)
  case (Cons c v)
  have "json_escape_local (c # v) = json_escape_char c @ json_escape_local v" by (simp add: json_escape_local_def)
  then show ?case using Cons by (simp add: read_escaped_char)
qed (simp add: json_escape_local_def)

lemma escape_char_printable: "x \<in> set (json_escape_char c) \<Longrightarrow> (0x20 :: nat) \<le> of_char x"
proof -
  have hex: "(0x20 :: nat) \<le> of_char (hex_digit d)" if "d < 16" for d
    using that by (simp add: hex_digit_def)
  show "x \<in> set (json_escape_char c) \<Longrightarrow> (0x20 :: nat) \<le> of_char x"
    using hex [of "of_char c div 16"] hex [of "of_char c mod 16"]
    by (auto simp: json_escape_char_def backslash_def quote_char_def split: if_splits)
qed

text \<open>A name without special characters, and what comes after a number.\<close>

definition plain_name :: "string \<Rightarrow> bool" where
  "plain_name name \<longleftrightarrow> (\<forall>c \<in> set name. c \<noteq> quote_char \<and> c \<noteq> backslash \<and> (0x20 :: nat) \<le> of_char c)"

lemma read_plain: "plain_name name \<Longrightarrow> read_string (name @ quote_char # rest) = Some (name, rest)"
  by (induction name) (auto simp: plain_name_def)

lemma read_natural_dec:
  assumes "rest = [] \<or> digit_of 10 (hd rest) = None"
  shows "read_natural (dec_string n @ rest) = Some (n, rest)"
proof -
  obtain c cs where c: "dec_string n = c # cs" by (cases "dec_string n") auto
  then have "isdigit c" using dec_digits [of c n] by simp
  then have "digit_of 10 c \<noteq> None" by (auto simp: digit_of_def isdigit_def Let_def)
  moreover have "digits_run 10 0 (dec_string n @ rest) = digits_run 10 n rest"
    by (rule digits_run_append) (rule digits_run_dec)
  moreover have "digits_run 10 n rest = (n, rest)" using assms by (cases rest) auto
  ultimately show ?thesis using c by (simp add: read_natural_def)
qed

lemma read_number_fmt:
  assumes "rest = [] \<or> digit_of 10 (hd rest) = None"
  shows "read_number (fmt_d 0 v @ rest) = Some (v, rest)"
proof -
  obtain c cs where c: "dec_string (nat v) = c # cs" by (cases "dec_string (nat v)") auto
  then have "isdigit c" using dec_digits [of c "nat v"] by simp
  then have "c \<noteq> CHR ''-''" using digit_no_sign by blast
  then show ?thesis using c read_natural_dec [OF assms, of "nat v"] read_natural_dec [OF assms, of "nat (- v)"]
    by (cases "v < 0") (simp_all add: read_number_def fmt_d_def Let_def)
qed

lemma fmt_d_head: "hd (fmt_d 0 v @ rest) \<noteq> quote_char" "fmt_d 0 v @ rest \<noteq> []"
proof -
  obtain c cs where c: "dec_string (nat \<bar>v\<bar>) = c # cs" by (cases "dec_string (nat \<bar>v\<bar>)") auto
  then have "isdigit c" using dec_digits [of c "nat \<bar>v\<bar>"] by simp
  then have "c \<noteq> quote_char" by (auto simp: isdigit_def quote_char_def)
  then show "hd (fmt_d 0 v @ rest) \<noteq> quote_char" "fmt_d 0 v @ rest \<noteq> []"
    using c by (simp_all add: fmt_d_def Let_def quote_char_def)
qed

lemma read_text_field:
  "plain_name name \<Longrightarrow> read_field (quoted_field name v @ rest) = Some ((name, F_text v), rest)"
  by (simp add: read_field_def quoted_field_def expect_def read_plain read_value_def read_escaped)

lemma read_number_field:
  assumes "plain_name name" "rest = [] \<or> digit_of 10 (hd rest) = None"
  shows "read_field (number_field name v @ rest) = Some ((name, F_number v), rest)"
  using assms fmt_d_head [of v rest]
  by (simp add: read_field_def number_field_def expect_def read_plain read_value_def read_number_fmt)

lemma record_names:
  "plain_name ''ts''" "plain_name ''capture_id''" "plain_name ''key''" "plain_name ''file''" "plain_name ''size''"
  "plain_name ''segment''" "plain_name ''segments''"
  by (simp_all add: plain_name_def quote_char_def backslash_def)

lemma not_digits: "digit_of 10 (CHR '','') = None" "digit_of 10 (CHR ''}'') = None"
  by (simp_all add: digit_of_def)

text \<open>What the record of a file holds.\<close>

definition record_fields :: "clean_env \<Rightarrow> int \<Rightarrow> string \<Rightarrow> CaptureFileInfo \<Rightarrow> (string \<times> field_value) list" where
  "record_fields env capture_id key info =
     [(''ts'', F_number (kv_now env)), (''capture_id'', F_number capture_id), (''key'', F_text key),
      (''file'', F_text (fi_file_path info)), (''size'', F_number (uint (fi_file_size info))),
      (''segment'', F_number (fi_segment_index info)), (''segments'', F_number (fi_total_segments info))]"

lemma record_read: "read_record (record_line env capture_id key info) = Some (record_fields env capture_id key info)"
proof -
  let ?line = "record_line env capture_id key info"
  have "7 \<le> length ?line" by (simp add: record_line_def number_field_def)
  then obtain n where n: "length ?line = n + 7" using le_Suc_ex by (metis add.commute)
  then have seven: "length ?line = Suc (Suc (Suc (Suc (Suc (Suc (Suc n))))))" by simp
  show ?thesis unfolding read_record_def seven
    by (simp add: record_line_def record_fields_def expect_def record_names not_digits read_text_field read_number_field
        del: append_assoc read_fields.simps(1) flip: append_assoc)
qed

lemma fmt_d_printable: "c \<in> set (fmt_d 0 v) \<Longrightarrow> (0x20 :: nat) \<le> of_char c"
  using dec_digits [of c "nat \<bar>v\<bar>"] by (auto simp: fmt_d_def Let_def isdigit_def split: if_splits)

lemma record_one_line:
  "\<exists>text. record_line env capture_id key info = text @ [CHR 0x0A] \<and> (\<forall>c \<in> set text. (0x20 :: nat) \<le> of_char c)"
proof -
  have number: "\<forall>c \<in> set (number_field name v). (0x20 :: nat) \<le> of_char c" if "plain_name name" for name v
    using that fmt_d_printable by (auto simp: number_field_def plain_name_def quote_char_def)
  have quoted: "\<forall>c \<in> set (quoted_field name v). (0x20 :: nat) \<le> of_char c" if "plain_name name" for name v
    using that escape_char_printable by (auto simp: quoted_field_def plain_name_def quote_char_def json_escape_local_def)
  show ?thesis unfolding record_line_def append_assoc [symmetric]
    by (intro exI conjI, rule refl) (use number quoted record_names in auto)
qed

section \<open>Shell commands\<close>

text \<open>
  The words of a simple shell command: characters up to blanks, and single quotes.  A character with a
  meaning of its own makes it something else than a simple command.
\<close>

definition tick :: char where
  "tick = CHR 0x27"

definition shell_special :: "char \<Rightarrow> bool" where
  "shell_special c \<longleftrightarrow> c \<in> set '';|&$<>()*?[#~=%!{}'' \<or> c = CHR 0x22 \<or> c = CHR 0x5C \<or> c = CHR 0x60 \<or> c = CHR 0x0A"

fun sh_words :: "bool \<Rightarrow> string option \<Rightarrow> string \<Rightarrow> string list option" where
  "sh_words True w [] = None"
| "sh_words True w (c # cs) =
     (if c = tick then sh_words False w cs else sh_words True (Some (the w @ [c])) cs)"
| "sh_words False w [] = Some (case w of None \<Rightarrow> [] | Some v \<Rightarrow> [v])"
| "sh_words False w (c # cs) =
     (if c = tick then sh_words True (Some (case w of None \<Rightarrow> [] | Some v \<Rightarrow> v)) cs
      else if c = CHR '' ''
      then (case w of None \<Rightarrow> sh_words False None cs
            | Some v \<Rightarrow> map_option (Cons v) (sh_words False None cs))
      else if shell_special c then None
      else sh_words False (Some ((case w of None \<Rightarrow> [] | Some v \<Rightarrow> v) @ [c])) cs)"

lemma sh_quoted:
  "tick \<notin> set p \<Longrightarrow> sh_words True (Some w) (p @ tick # rest) = sh_words False (Some (w @ p)) rest"
  by (induction p arbitrary: w) auto

lemma tick_neq [simp]: "tick \<noteq> CHR '' ''" "CHR '' '' \<noteq> tick"
  by (simp_all add: tick_def)

lemma sh_paths:
  "\<forall>p \<in> set paths. tick \<notin> set p \<Longrightarrow>
   sh_words False (Some w) (concat (map (\<lambda>p. '' '' @ shell_quote p) paths)) = Some (w # paths)"
proof (induction paths arbitrary: w)
  case (Cons p paths)
  have "concat (map (\<lambda>p. '' '' @ shell_quote p) (p # paths)) =
      CHR '' '' # tick # (p @ tick # concat (map (\<lambda>p. '' '' @ shell_quote p) paths))"
    by (simp add: shell_quote_def tick_def)
  then show ?case using Cons sh_quoted [of p "[]"] by simp
qed simp

lemma batch_words:
  assumes "tick \<notin> set archive" "\<forall>p \<in> set paths. tick \<notin> set p"
  shows "sh_words False None (batch_command archive paths) = Some (''tar'' # ''-czf'' # archive # paths)"
proof -
  have "batch_command archive paths =
      ''tar -czf '' @ tick # (archive @ tick # concat (map (\<lambda>p. '' '' @ shell_quote p) paths))"
    by (simp add: batch_command_def shell_quote_def tick_def)
  then show ?thesis using sh_quoted [OF assms(1), of "[]"] sh_paths [OF assms(2), of archive]
    by (simp add: shell_special_def tick_def)
qed

section \<open>Batches\<close>

text \<open>What a report names: the capture and the paths of its files.\<close>

fun reported :: "rx_msg \<Rightarrow> (int \<times> string list) option" where
  "reported (M_Compress_done m) = Some (cm_capture_id m, map fi_file_path (done_compressed_files m))"
| "reported (M_Compress_failed m) = Some (cm_capture_id m, map fi_file_path (cfailed_files m))"
| "reported _ = None"

definition pending_paths :: "PendingFile list \<Rightarrow> string list" where
  "pending_paths files = map (fi_file_path \<circ> pf_file) files"

lemma compress_batch_files:
  assumes "compress_batch env t files fs = (Inr archive, fs1)"
  shows "map fi_file_path (ai_files archive) = pending_paths files" "files \<noteq> []"
  using assms
  by (auto simp: compress_batch_def pending_paths_def compressed_file_def Let_def split: list.splits prod.splits bool.splits if_splits)

lemma process_group_report:
  assumes "\<forall>p \<in> set files. pf_capture_id p = i" "files \<noteq> []" "kv_manager env = Some m"
  shows "\<exists>fs1 msg. process_group env t files fs = (fs1, [(m, msg)]) \<and> reported msg = Some (i, pending_paths files)"
proof -
  obtain f fs' where f: "files = f # fs'" using assms(2) by (cases files) auto
  then have i: "pf_capture_id f = i" using assms(1) by simp
  obtain r fs1 where r: "compress_batch env t files fs = (r, fs1)" by fastforce
  show ?thesis
  proof (cases r)
    case (Inl err)
    then show ?thesis using f i r assms(3)
      by (simp add: process_group_def notify_archive_failure_def to_manager_def CaptureMessageBase.defs
          SRxCleanCompressFailedMsgV2.defs clean_base_def pending_paths_def)
  next
    case (Inr archive)
    note a = compress_batch_files [OF r [unfolded Inr]]
    then have "ai_files archive \<noteq> []" using f by (auto simp: pending_paths_def)
    then show ?thesis using f i r assms(3) Inr a(1)
      by (simp add: process_group_def notify_archive_result_def to_manager_def CaptureMessageBase.defs
          SRxCleanCompressDoneMsgV2.defs clean_base_def)
  qed
qed

lemma process_groups_reports:
  assumes "kv_manager env = Some m" "set ids \<subseteq> set (map pf_capture_id files)"
  shows "\<exists>fs1 ms. process_groups env t files ids fs = (fs1, ms) \<and>
    map (\<lambda>(x, msg). (x, reported msg)) ms = map (\<lambda>i. (m, Some (i, pending_paths (group_of i files)))) ids"
  using assms(2)
proof (induction ids arbitrary: fs)
  case (Cons i ids)
  then have "group_of i files \<noteq> []" by (auto simp: group_of_def filter_empty_conv)
  moreover have "\<forall>p \<in> set (group_of i files). pf_capture_id p = i" by (simp add: group_of_def)
  ultimately obtain fs1 msg where "process_group env t (group_of i files) fs = (fs1, [(m, msg)])"
    "reported msg = Some (i, pending_paths (group_of i files))"
    using process_group_report [of "group_of i files" i env m] assms(1) by blast
  then show ?case using Cons.IH [of fs1] Cons.prems by auto
qed simp

lemma groups_partition:
  "mset (concat (map (\<lambda>i. group_of i files) (group_ids files))) = mset files"
proof -
  have *: "mset (concat (map (\<lambda>i. group_of i files) is)) = filter_mset (\<lambda>p. pf_capture_id p \<in> set is) (mset files)"
    if "distinct is" for "is"
    using that
  proof (induction "is")
    case (Cons i "is")
    have "filter_mset (\<lambda>p. pf_capture_id p \<in> set (i # is)) (mset files) =
        filter_mset (\<lambda>p. pf_capture_id p = i) (mset files) + filter_mset (\<lambda>p. pf_capture_id p \<in> set is) (mset files)"
      using Cons.prems by (induction files) auto
    then show ?case using Cons by (simp add: group_of_def mset_filter)
  qed simp
  have "distinct (group_ids files)" by (simp add: group_ids_def)
  note * [OF this]
  also have "filter_mset (\<lambda>p. pf_capture_id p \<in> set (group_ids files)) (mset files) = mset files"
    by (simp add: group_ids_def filter_mset_eq_conv)
  finally show ?thesis .
qed

section \<open>Pruning\<close>

definition without :: "fs \<Rightarrow> string set \<Rightarrow> fs" where
  "without fs ps = fs |` (- ps)"

lemma without_simps [simp]:
  "without fs {} = fs" "without (fs(p := None)) ps = without fs (insert p ps)"
  "without (without fs ps) qs = without fs (ps \<union> qs)"
  by (auto simp: without_def restrict_map_def fun_eq_iff)

lemma without_lookup: "without fs ps x = (if x \<in> ps then None else fs x)"
  by (simp add: without_def restrict_map_def)

text \<open>The sizes of a list of entries, as numbers.\<close>

definition bytes :: "(string \<times> int \<times> u64) list \<Rightarrow> nat" where
  "bytes es = sum_list (map (\<lambda>(p, t, n). unat n) es)"

lemma bytes_simps [simp]: "bytes [] = 0" "bytes ((p, t, n) # es) = unat n + bytes es"
  by (simp_all add: bytes_def)

lemma total_size_bytes: "bytes es < 2 ^ 64 \<Longrightarrow> unat (total_size es) = bytes es"
proof (induction es)
  case (Cons e es)
  obtain p t n where e: "e = (p, t, n)" by (cases e)
  have "total_size (e # es) = n + total_size es" by (simp add: e total_size_def)
  moreover have "unat (n + total_size es) = unat n + unat (total_size es)"
    by (rule unat_add_no_wrap) (use Cons e in simp)
  ultimately show ?case using Cons e by simp
qed (simp add: total_size_def)

lemma prune_to_spec:
  assumes "\<forall>p. kv_remove env p" "distinct (map fst es)" "\<forall>e \<in> set es. fs (fst e) \<noteq> None"
    and "unat n_total = bytes es"
  shows "\<exists>k. snd (prune_to env limit es n_total fs) = without fs (fst ` set (take k es)) \<and>
    bytes (drop k es) \<le> unat limit \<and> (\<forall>j < k. unat limit < bytes (drop j es))"
  using assms(2-)
proof (induction es arbitrary: n_total fs)
  case Nil
  then show ?case by (intro exI [of _ 0]) simp
next
  case (Cons e es)
  obtain p t n where e: "e = (p, t, n)" by (cases e)
  show ?case
  proof (cases "n_total > limit")
    case False
    then show ?thesis using Cons.prems(3) e
      by (intro exI [of _ 0]) (auto simp: word_less_nat_alt not_less)
  next
    case True
    have n: "n \<le> n_total" using Cons.prems(3) e by (simp add: word_le_nat_alt)
    have rest: "unat (n_total - n) = bytes es" using Cons.prems(3) e n by (simp add: unat_sub)
    have "fs p \<noteq> None" using Cons.prems(2) e by simp
    then have step: "prune_to env limit (e # es) n_total fs = prune_to env limit es (n_total - n) (fs(p := None))"
      using True n assms(1) by (simp add: e fs_remove_def)
    have "\<forall>e \<in> set es. (fs(p := None)) (fst e) \<noteq> None" using Cons.prems(1,2) e by force
    moreover have "distinct (map fst es)" using Cons.prems(1) by simp
    ultimately obtain k where k:
      "snd (prune_to env limit es (n_total - n) (fs(p := None))) = without (fs(p := None)) (fst ` set (take k es))"
      "bytes (drop k es) \<le> unat limit" "\<forall>j < k. unat limit < bytes (drop j es)"
      using Cons.IH [of "fs(p := None)" "n_total - n"] rest by blast
    have "unat limit < bytes (drop j (e # es))" if "j < Suc k" for j
      using that k(3) True Cons.prems(3) by (cases j) (auto simp: word_less_nat_alt)
    then show ?thesis using k(1,2) step by (intro exI [of _ "Suc k"]) (simp add: e)
  qed
qed

text \<open>An entry past the retention time.\<close>

definition expired :: "int \<Rightarrow> bool \<Rightarrow> string \<times> int \<times> u64 \<Rightarrow> bool" where
  "expired cutoff enforce e \<longleftrightarrow> (case e of (p, t, n) \<Rightarrow> enforce \<and> cutoff \<noteq> 0 \<and> t < cutoff)"

lemma dir_entries_paths: "e \<in> set (dir_entries fs base prefix names) \<Longrightarrow>
   \<exists>name \<in> set names. fst e = base @ name \<and> starts_with prefix name \<and> fs (fst e) \<noteq> None"
  by (induction names) (auto split: if_splits option.splits fnode.splits)

lemma dir_entries_distinct: "distinct names \<Longrightarrow> distinct (map fst (dir_entries fs base prefix names))"
  by (induction names) (auto split: option.splits fnode.splits dest!: dir_entries_paths)

lemma dir_entries_cong:
  "\<forall>name \<in> set names. fs (base @ name) = fs' (base @ name) \<Longrightarrow>
   dir_entries fs base prefix names = dir_entries fs' base prefix names"
  by (induction names) (auto split: option.splits fnode.splits)

lemma scan_archives_spec:
  assumes "\<forall>p. kv_remove env p" "distinct names"
  shows "scan_archives env base cutoff enforce size_too names fs =
    (if size_too then filter (\<lambda>e. \<not> expired cutoff enforce e) (dir_entries fs base ''capture_'' names) else [],
     without fs (fst ` set (filter (expired cutoff enforce) (dir_entries fs base ''capture_'' names))))"
  using assms(2)
proof (induction names arbitrary: fs)
  case (Cons name names)
  define fs1 where "fs1 = fs(base @ name := None)"
  have cong: "dir_entries fs1 base ''capture_'' names = dir_entries fs base ''capture_'' names"
    by (rule dir_entries_cong) (use Cons.prems in \<open>auto simp: fs1_def\<close>)
  have wo: "without fs1 ps = without fs (insert (base @ name) ps)" for ps by (simp add: fs1_def)
  have rm: "snd (fs_remove env (base @ name) fs) = fs1"
    if "fs (base @ name) = Some (Reg n t)" for n t
    using that assms(1) by (simp add: fs_remove_def fs1_def)
  have ih: "distinct names" using Cons.prems by simp
  note ih0 = Cons.IH [OF ih, of fs] and ih1 = Cons.IH [OF ih, of fs1, unfolded cong wo]
  show ?case
  proof (cases "starts_with ''.'' name \<or> \<not> starts_with ''capture_'' name")
    case True
    then show ?thesis using ih0 by auto
  next
    case name: False
    show ?thesis
    proof (cases "\<exists>n t. fs (base @ name) = Some (Reg n t)")
      case False
      then show ?thesis using ih0 name by (auto split: option.splits fnode.splits)
    next
      case True
      then obtain n t where reg: "fs (base @ name) = Some (Reg n t)" by blast
      have e: "expired cutoff enforce (base @ name, t, n) \<longleftrightarrow> enforce \<and> cutoff \<noteq> 0 \<and> t < cutoff"
        by (simp add: expired_def)
      show ?thesis
      proof (cases "expired cutoff enforce (base @ name, t, n)")
        case True
        then show ?thesis using ih1 rm [OF reg] name reg e by simp
      next
        case False
        then show ?thesis using ih0 name reg e by auto
      qed
    qed
  qed
qed simp

lemma scan_archives_within:
  assumes "\<forall>name. starts_with ''capture_'' name \<longrightarrow> base @ name \<in> S" "x \<notin> S"
  shows "snd (scan_archives env base cutoff enforce size_too names fs) x = fs x \<and>
   (\<forall>e \<in> set (fst (scan_archives env base cutoff enforce size_too names fs)). fst e \<in> S)"
proof (induction names arbitrary: fs)
  case (Cons name names)
  show ?case
  proof (cases "starts_with ''.'' name \<or> \<not> starts_with ''capture_'' name")
    case True
    then show ?thesis using Cons.IH [of fs] by auto
  next
    case False
    then have "base @ name \<in> S" "base @ name \<noteq> x" using assms by auto
    moreover define fs1 where "fs1 = snd (fs_remove env (base @ name) fs)"
    ultimately have "fs1 x = fs x" by (simp add: fs_remove_def)
    then show ?thesis using False Cons.IH [of fs] Cons.IH [of fs1] \<open>base @ name \<in> S\<close>
      by (cases size_too; cases enforce; auto simp: fs1_def [symmetric] split: option.split fnode.split prod.split)
  qed
qed simp

lemma prune_to_keeps: "x \<notin> fst ` set es \<Longrightarrow> snd (prune_to env limit es n_total fs) x = fs x"
proof (induction es arbitrary: n_total fs)
  case (Cons e es)
  obtain p t n where e: "e = (p, t, n)" by (cases e)
  then show ?case using Cons.IH Cons.prems
    by (auto simp: fs_remove_def split: bool.splits)
qed simp

lemma prune_archives_keeps:
  assumes "x \<notin> {with_slash (cl_archive_dir (kt_config t)) @ name | name. starts_with ''capture_'' name}"
  shows "prune_archives env t fs x = fs x"
proof -
  let ?base = "with_slash (cl_archive_dir (kt_config t))"
  show ?thesis
  proof (cases "kv_list env fs (cl_archive_dir (kt_config t))")
    case None
    then show ?thesis by (simp add: prune_archives_def Let_def)
  next
    case (Some names)
    obtain es fs1 where s: "scan_archives env ?base (archive_cutoff env t) (kt_archive_retention t > 0)
        (kt_archive_max t > 0) names fs = (es, fs1)" by fastforce
    have keep: "fs1 x = fs x" "x \<notin> fst ` set es"
      using scan_archives_within [OF _ assms, of ?base env "archive_cutoff env t" "kt_archive_retention t > 0"
          "kt_archive_max t > 0" names fs] s assms by auto
    then have "x \<notin> fst ` set (by_time es)" by (simp add: by_time_def)
    from prune_to_keeps [OF this] keep show ?thesis using s Some by (auto simp: prune_archives_def Let_def)
  qed
qed

section \<open>Properties\<close>

text \<open>An archive of compression has another name than those pruning looks at.\<close>

lemma batch_path_other:
  "batch_archive_path env' t i \<notin> {with_slash (cl_archive_dir (kt_config t)) @ name | name. starts_with ''capture_'' name}"
  by (auto simp: batch_archive_path_def)


text \<open>
  Batch archives are never pruned.  Compression names its archives \<open>batch_...\<close>, pruning looks at
  names that start with \<open>capture_\<close> only: whatever limit and retention are configured, an archive made by
  compression stays.
\<close>

theorem batch_archive_never_pruned:
  "prune_archives env t fs (batch_archive_path env' t i) = fs (batch_archive_path env' t i)"
  by (rule prune_archives_keeps [OF batch_path_other])

text \<open>
  C29. Every pending file is reported exactly once.  A round over the pending files either leaves
  everything as it is or empties the queue and sends the manager one report per capture, in the order
  of the capture ids, each naming the files of that capture in queue order; together the groups are the
  queue.  It empties the queue whether compression succeeded or not.
\<close>

theorem pending_files_reported_once:
  assumes "kv_manager env = Some m"
  shows "if kt_pending (ks_thread s) = [] \<or> \<not> should_compress (ks_thread s) (ks_fs s)
    then process_pending_files env s = s
    else \<exists>reports. kt_pending (ks_thread (process_pending_files env s)) = [] \<and>
       ks_out (process_pending_files env s) = ks_out s @ reports \<and>
       map (\<lambda>(x, msg). (x, reported msg)) reports =
         map (\<lambda>i. (m, Some (i, pending_paths (group_of i (kt_pending (ks_thread s)))))) (group_ids (kt_pending (ks_thread s))) \<and>
       mset (concat (map (\<lambda>i. group_of i (kt_pending (ks_thread s))) (group_ids (kt_pending (ks_thread s))))) =
         mset (kt_pending (ks_thread s))"
proof (cases "kt_pending (ks_thread s) = [] \<or> \<not> should_compress (ks_thread s) (ks_fs s)")
  case True
  then show ?thesis by (simp add: process_pending_files_def Let_def)
next
  case False
  let ?files = "kt_pending (ks_thread s)"
  have "set (group_ids ?files) \<subseteq> set (map pf_capture_id ?files)" by (simp add: group_ids_def)
  from process_groups_reports [OF assms this, of "ks_thread s" "ks_fs s"] obtain fs1 ms where
    run: "process_groups env (ks_thread s) ?files (group_ids ?files) (ks_fs s) = (fs1, ms)"
    and ms: "map (\<lambda>(x, msg). (x, reported msg)) ms =
      map (\<lambda>i. (m, Some (i, pending_paths (group_of i ?files)))) (group_ids ?files)"
    by blast
  have "kt_pending (ks_thread (process_pending_files env s)) = [] \<and>
      ks_out (process_pending_files env s) = ks_out s @ ms"
    using False run by (auto simp: process_pending_files_def Let_def)
  then show ?thesis using False ms groups_partition [of ?files] by auto
qed

text \<open>
  C30. The texts the thread writes can be read back.  The record of a file is one line, a newline at its end and
  no control character before; and a strict reader of JSON takes it as an object of exactly the seven members
  with the time, the capture, the key, the path, the size and the segments, whatever characters key and path
  hold.  When no path holds a quote, the shell splits the command of a batch into \<open>tar\<close>, \<open>-czf\<close>, the archive
  and the files.
\<close>

theorem cleanup_texts_read_back:
  "read_record (record_line env capture_id key info) = Some (record_fields env capture_id key info) \<and>
   (\<exists>text. record_line env capture_id key info = text @ [CHR 0x0A] \<and> (\<forall>c \<in> set text. (0x20 :: nat) \<le> of_char c)) \<and>
   (tick \<notin> set archive \<longrightarrow> (\<forall>p \<in> set paths. tick \<notin> set p) \<longrightarrow>
      sh_words False None (batch_command archive paths) = Some (''tar'' # ''-czf'' # archive # paths))"
  using record_read record_one_line batch_words by blast

section \<open>Concrete inputs\<close>

definition sample_clean_env :: clean_env where
  "sample_clean_env =
     \<lparr>kv_now = 9000, kv_tm = \<lparr>tm_year = 125, tm_mon = 0, tm_mday = 2, tm_hour = 3, tm_min = 4\<rparr>, kv_sec = 5,
      kv_mkdir = (\<lambda>_. Mk_ok), kv_list = (\<lambda>_ _. Some [''capture_a'', ''capture_b'', ''batch_c'', ''capture_d'']),
      kv_remove = (\<lambda>_. True), kv_rename = (\<lambda>_ _. True), kv_append = (\<lambda>_. Some 1000),
      kv_system = (\<lambda>_ fs. (0, fs)), kv_base_dir = None, kv_manager = Some 2, kv_thread_index = 4\<rparr>"

definition sample_fs :: fs where
  "sample_fs = [''/a/capture_a'' \<mapsto> Reg 6 800, ''/a/capture_b'' \<mapsto> Reg 5 600, ''/a/batch_c'' \<mapsto> Reg 9 100,
     ''/a/capture_d'' \<mapsto> Reg 4 700]"

definition sample_cleaner :: CRxCleanupThread where
  "sample_cleaner = CRxCleanupThread_new
     \<lparr>kt_config := CleanupConfig_new\<lparr>cl_archive_dir := ''/a''\<rparr>, kt_archive_max := 10\<rparr>"

text \<open>Its archives, oldest first.\<close>

definition sample_live :: "(string \<times> int \<times> u64) list" where
  "sample_live = [(''/a/capture_b'', 600, 5), (''/a/capture_d'', 700, 4), (''/a/capture_a'', 800, 6)]"


definition sample_pending :: PendingFile where
  "sample_pending = \<lparr>pf_capture_id = 7, pf_key = ''k'', pf_sid = ''s'',
     pf_file = CaptureFileInfo_new\<lparr>fi_file_path := ''/d/x.pcap''\<rparr>, pf_policy = CaptureConfigSnapshot_new\<rparr>"

definition sample_clean_state :: clean_state where
  "sample_clean_state =
     \<lparr>ks_thread = sample_cleaner\<lparr>kt_config := (kt_config sample_cleaner)\<lparr>cl_batch_compress_file_count := 1\<rparr>,
        kt_pending := [sample_pending]\<rparr>,
      ks_fs = sample_fs, ks_mgr = CRxSafeTaskMgr_new, ks_out = []\<rparr>"

lemma pending_files_reported_once_witness:
  "\<exists>reports. kt_pending (ks_thread (process_pending_files sample_clean_env sample_clean_state)) = [] \<and>
     ks_out (process_pending_files sample_clean_env sample_clean_state) = reports \<and>
     map (\<lambda>(x, msg). (x, reported msg)) reports = [(2, Some (7, [''/d/x.pcap'']))]"
proof -
  let ?s = sample_clean_state
  have files: "kt_pending (ks_thread ?s) = [sample_pending]" and out: "ks_out ?s = []"
    by (simp_all add: sample_clean_state_def)
  have go: "should_compress (ks_thread ?s) (ks_fs ?s)"
    by (simp add: sample_clean_state_def should_compress_def)
  have ids: "group_ids [sample_pending] = [7]" "group_of 7 [sample_pending] = [sample_pending]"
    "pending_paths [sample_pending] = [''/d/x.pcap'']"
    by (simp_all add: group_ids_def group_of_def sample_pending_def pending_paths_def)
  have m: "kv_manager sample_clean_env = Some 2" by (simp add: sample_clean_env_def)
  show ?thesis using pending_files_reported_once [OF m, of ?s] go files out ids by auto
qed

lemma cleanup_texts_read_back_witness:
  "read_record (record_line sample_clean_env 7 [quote_char] CaptureFileInfo_new) =
     Some (record_fields sample_clean_env 7 [quote_char] CaptureFileInfo_new) \<and>
   sh_words False None (batch_command ''/a/x'' [''/d/1'', ''/d/2'']) =
     Some [''tar'', ''-czf'', ''/a/x'', ''/d/1'', ''/d/2'']"
proof -
  have "tick \<notin> set ''/a/x''" "\<forall>p \<in> set [''/d/1'', ''/d/2'']. tick \<notin> set p" by (simp_all add: tick_def)
  then show ?thesis
    using cleanup_texts_read_back [of sample_clean_env 7 "[quote_char]" CaptureFileInfo_new "''/a/x''" "[''/d/1'', ''/d/2'']"] by blast
qed

end
