(* ===== verification/Text_Map.thy ===== *)
theory Text_Map
  imports Prelude
begin

text \<open>
  \<open>std::map<std::string, std::string>\<close> where its order is seen: an association list in the order of the
  keys, which compare as sequences of unsigned bytes.
\<close>

type_synonym str_map = "(string \<times> string) list"

fun str_less :: "string \<Rightarrow> string \<Rightarrow> bool" where
  "str_less [] [] = False"
| "str_less [] (d # ds) = True"
| "str_less (c # cs) [] = False"
| "str_less (c # cs) (d # ds) = ((of_char c :: nat) < of_char d \<or> (c = d \<and> str_less cs ds))"

text \<open>\<open>m[k] = v\<close> and \<open>insert\<close>, which keeps a value that is there.\<close>

fun sm_put :: "string \<Rightarrow> string \<Rightarrow> str_map \<Rightarrow> str_map" where
  "sm_put k v [] = [(k, v)]"
| "sm_put k v ((j, w) # m) =
     (if k = j then (k, v) # m else if str_less k j then (k, v) # (j, w) # m else (j, w) # sm_put k v m)"

definition sm_insert :: "string \<Rightarrow> string \<Rightarrow> str_map \<Rightarrow> str_map" where
  "sm_insert k v m = (if map_of m k = None then sm_put k v m else m)"

definition sm_ordered :: "str_map \<Rightarrow> bool" where
  "sm_ordered m \<longleftrightarrow> sorted_wrt str_less (map fst m)"

section \<open>The order of the keys\<close>

lemma str_less_irrefl [simp]: "\<not> str_less s s"
  by (induction s) auto

lemma str_less_trans: "str_less a b \<Longrightarrow> str_less b c \<Longrightarrow> str_less a c"
proof (induction a b arbitrary: c rule: str_less.induct)
  case (2 d ds)
  then show ?case by (cases c) auto
next
  case (4 a as b bs)
  then show ?case by (cases c) auto
qed auto

lemma str_less_total: "str_less a b \<or> a = b \<or> str_less b a"
proof (induction a b rule: str_less.induct)
  case (4 a as b bs)
  have "(of_char a :: nat) = of_char b \<Longrightarrow> a = b" by simp
  then show ?case using 4 by (cases "(of_char a :: nat) < of_char b"; cases "(of_char b :: nat) < of_char a") auto
qed auto

section \<open>Insertion\<close>

lemma map_of_less: "sm_ordered ((j, w) # m) \<Longrightarrow> str_less k j \<Longrightarrow> map_of m k = None"
  by (auto simp: sm_ordered_def map_of_eq_None_iff dest: str_less_trans)

lemma map_of_sm_put: "sm_ordered m \<Longrightarrow> map_of (sm_put k v m) = (map_of m)(k \<mapsto> v)"
proof (induction k v m rule: sm_put.induct)
  case (2 k v j w m)
  then have "sm_ordered m" by (simp add: sm_ordered_def)
  then show ?case using 2 by (auto simp: fun_eq_iff)
qed auto

lemma keys_sm_put: "set (map fst (sm_put k v m)) = insert k (set (map fst m))"
  by (induction k v m rule: sm_put.induct) auto

lemma sm_put_ordered: "sm_ordered m \<Longrightarrow> sm_ordered (sm_put k v m)"
proof (induction k v m rule: sm_put.induct)
  case (2 k v j w m)
  consider "k = j" | "k \<noteq> j" "str_less k j" | "str_less j k" "k \<noteq> j" "\<not> str_less k j"
    using str_less_total [of k j] by auto
  then show ?case
  proof cases
    case 3
    have "\<forall>x \<in> set (map fst (sm_put k v m)). str_less j x"
      unfolding keys_sm_put using 2(2) 3(1) by (auto simp: sm_ordered_def)
    then show ?thesis using 2 3 by (simp add: sm_ordered_def)
  qed (use 2(2) in \<open>auto simp: sm_ordered_def intro: str_less_trans\<close>)
qed (simp add: sm_ordered_def)

end
