(* ===== verification/Manager_Messages.thy ===== *)
theory Manager_Messages
  imports Capture_Messages Text_Map Complex_Main
begin

text \<open>
  The requests and replies of the capture manager: the messages at the end of
  \<open>src/src/rxcapturemessages.h\<close>, the HTTP reply of \<open>src/src/rxmsgtypes.h\<close>, the sample messages of
  \<open>src/src/rxsamplethread.h\<close> and the alert record of \<open>src/src/rxprocdata.h\<close>.  The mode of a request is an
  \<open>int\<close> in the code; only the values of \<open>ECaptureMode\<close> are ever stored in it, so it has that type here.
  A \<open>double\<close> is a rational number: the rounding of percentages and rates is left out.
\<close>

section \<open>Requests\<close>

record SRxStartCaptureMsg =
  rq_capture_mode :: ECaptureMode
  rq_iface :: string
  rq_proc_name :: string
  rq_target_pid :: int
  rq_container_id :: string
  rq_netns_path :: string
  rq_filter :: string
  rq_protocol_filter :: string
  rq_protocol_filter_inline :: string
  rq_ip_filter :: string
  rq_port_filter :: int
  rq_category :: string
  rq_file_pattern :: string
  rq_duration_sec :: int
  rq_max_bytes :: int
  rq_max_packets :: int
  rq_reply_target :: ObjId
  rq_client_ip :: string
  rq_request_user :: string
  rq_enqueue_ts_ms :: u64
  rq_sid :: string

definition no_target :: ObjId where
  "no_target = \<lparr>obj_id = 0, obj_thread_index = 0\<rparr>"

definition SRxStartCaptureMsg_new :: SRxStartCaptureMsg where
  "SRxStartCaptureMsg_new =
     \<lparr>rq_capture_mode = MODE_INTERFACE, rq_iface = [], rq_proc_name = [], rq_target_pid = - 1,
      rq_container_id = [], rq_netns_path = [], rq_filter = [], rq_protocol_filter = [],
      rq_protocol_filter_inline = [], rq_ip_filter = [], rq_port_filter = 0, rq_category = [],
      rq_file_pattern = [], rq_duration_sec = 60, rq_max_bytes = 0, rq_max_packets = 0,
      rq_reply_target = no_target, rq_client_ip = [], rq_request_user = [], rq_enqueue_ts_ms = 0, rq_sid = []\<rparr>"

record SRxStopCaptureMsg =
  so_capture_id :: int
  so_reply_target :: ObjId

record SRxQueryCaptureMsg =
  qu_capture_id :: int
  qu_reply_target :: ObjId

record SRxTaskUpdateMsg =
  up_capture_id :: int
  up_new_status :: ECaptureTaskStatus
  up_update_capture_pid :: bool
  up_capture_pid :: int
  up_update_output_file :: bool
  up_output_file :: string
  up_update_start_time :: bool
  up_start_time :: int
  up_update_end_time :: bool
  up_end_time :: int
  up_update_stats :: bool
  up_packet_count :: u64
  up_bytes_captured :: u64
  up_update_error :: bool
  up_error_message :: string

definition SRxTaskUpdateMsg_new :: SRxTaskUpdateMsg where
  "SRxTaskUpdateMsg_new =
     \<lparr>up_capture_id = - 1, up_new_status = STATUS_PENDING, up_update_capture_pid = False, up_capture_pid = - 1,
      up_update_output_file = False, up_output_file = [], up_update_start_time = False, up_start_time = 0,
      up_update_end_time = False, up_end_time = 0, up_update_stats = False, up_packet_count = 0,
      up_bytes_captured = 0, up_update_error = False, up_error_message = []\<rparr>"

section \<open>Replies\<close>

record SRxHttpReplyMsg =
  hr_status :: int
  hr_reason :: string
  hr_headers :: str_map
  hr_body :: string
  hr_conn_id :: u32
  hr_debug_request_ts_ms :: u64
  hr_debug_reply_ts_ms :: u64

definition SRxHttpReplyMsg_new :: SRxHttpReplyMsg where
  "SRxHttpReplyMsg_new =
     \<lparr>hr_status = 200, hr_reason = [], hr_headers = [], hr_body = [], hr_conn_id = 0,
      hr_debug_request_ts_ms = 0, hr_debug_reply_ts_ms = 0\<rparr>"

section \<open>Samples of the system\<close>

record SRxSystemStats =
  ss_cpu_percent :: rat
  ss_memory_percent :: rat
  ss_network_rx_kbps :: rat
  ss_network_tx_kbps :: rat
  ss_timestamp :: int

definition SRxSystemStats_new :: SRxSystemStats where
  "SRxSystemStats_new =
     \<lparr>ss_cpu_percent = 0, ss_memory_percent = 0, ss_network_rx_kbps = 0, ss_network_tx_kbps = 0, ss_timestamp = 0\<rparr>"

record SRxSampleMsg =
  al_msg_op :: rx_op
  al_stats :: SRxSystemStats
  al_cpu_hit :: bool
  al_mem_hit :: bool
  al_net_hit :: bool
  al_alert_id :: u64
  al_module_name :: string
  al_capture_hint :: string
  al_capture_category :: string
  al_capture_duration_sec :: int
  al_cooldown_sec :: int
  al_cpu_threshold :: int
  al_mem_threshold :: int
  al_net_threshold :: int

definition SRxSampleMsg_new :: SRxSampleMsg where
  "SRxSampleMsg_new =
     \<lparr>al_msg_op = RX_MSG_SAMPLE_TRIGGER, al_stats = SRxSystemStats_new, al_cpu_hit = False, al_mem_hit = False,
      al_net_hit = False, al_alert_id = 0, al_module_name = [], al_capture_hint = [], al_capture_category = [],
      al_capture_duration_sec = 0, al_cooldown_sec = 0, al_cpu_threshold = 0, al_mem_threshold = 0,
      al_net_threshold = 0\<rparr>"

record SRxSampleAlertRecord =
  ar_alert_id :: u64
  ar_timestamp :: int
  ar_cpu_percent :: rat
  ar_memory_percent :: rat
  ar_network_rx_kbps :: rat
  ar_network_tx_kbps :: rat
  ar_cpu_hit :: bool
  ar_mem_hit :: bool
  ar_net_hit :: bool
  ar_module_name :: string
  ar_capture_hint :: string
  ar_capture_category :: string
  ar_capture_duration_sec :: int
  ar_cooldown_sec :: int
  ar_cpu_threshold :: int
  ar_mem_threshold :: int
  ar_net_threshold :: int

end
