(* ===== verification/Proc_Data.thy ===== *)
theory Proc_Data
  imports C_Text Strategy_Config Manager_Messages Task_Manager
begin

text \<open>
  The data the threads of the process share, \<open>src/src/rxprocdata.cpp\<close>: the hash of a configuration, the
  snapshot handed to every capture, the names of threads and of URL handlers, the start of the threads and
  the ring of alerts.  A thread is its index.
\<close>

section \<open>The hash of a configuration\<close>

definition fnv1a_step :: "u32 \<Rightarrow> u8 \<Rightarrow> u32" where
  "fnv1a_step hash b = (hash XOR ucast b) * 16777619"

definition fnv1a_append :: "u32 \<Rightarrow> u8 list \<Rightarrow> u32" where
  "fnv1a_append hash data = foldl fnv1a_step hash data"

definition bytes_of_uint32 :: "u32 \<Rightarrow> u8 list" where
  "bytes_of_uint32 v = map (\<lambda>i. ucast (drop_bit (8 * i) v AND 0xFF)) [0..<4]"

definition bytes_of_uint64 :: "u64 \<Rightarrow> u8 list" where
  "bytes_of_uint64 v = map (\<lambda>i. ucast (drop_bit (8 * i) v AND 0xFF)) [0..<8]"

definition fnv1a_mix_uint32 :: "u32 \<Rightarrow> u32 \<Rightarrow> u32" where
  "fnv1a_mix_uint32 hash v = fnv1a_append hash (bytes_of_uint32 v)"

definition fnv1a_mix_uint64 :: "u32 \<Rightarrow> u64 \<Rightarrow> u32" where
  "fnv1a_mix_uint64 hash v = fnv1a_append hash (bytes_of_uint64 v)"

definition fnv1a_mix_string :: "u32 \<Rightarrow> string \<Rightarrow> u32" where
  "fnv1a_mix_string hash v =
     (let h = (if v \<noteq> [] then fnv1a_append hash (map of_char v) else hash) in fnv1a_append h [0])"

definition compute_config_hash :: "CaptureConfigSnapshot \<Rightarrow> u32" where
  "compute_config_hash cfg =
     (let i32 = (\<lambda>v h. fnv1a_mix_uint32 h (word_of_int v));
          i64 = (\<lambda>v h. fnv1a_mix_uint64 h (word_of_int v));
          b = (\<lambda>v h. fnv1a_mix_uint32 h (if v then 1 else 0));
          h0 = 2166136261;
          h1 = fnv1a_mix_string h0 (cc_output_dir cfg);
          h2 = fnv1a_mix_string h1 (cc_filename_template cfg);
          h3 = i32 (cc_file_rotate_size_mb cfg) h2;
          h4 = i32 (cc_file_rotate_count cfg) h3;
          h5 = i32 (cc_max_duration_sec cfg) h4;
          h6 = i64 (cc_max_bytes cfg) h5;
          h7 = i32 (cc_max_packets cfg) h6;
          h8 = i32 (cc_snaplen cfg) h7;
          h9 = b (cc_compress_enabled cfg) h8;
          h10 = i32 (cc_compress_threshold_mb cfg) h9;
          h11 = fnv1a_mix_string h10 (cc_compress_format cfg);
          h12 = i32 (cc_compress_level cfg) h11;
          h13 = b (cc_compress_remove_src cfg) h12;
          h14 = i32 (cc_retain_days cfg) h13;
          h15 = i32 (cc_clean_batch_size cfg) h14;
          h16 = i64 (cc_disk_threshold_gb cfg) h15;
          h17 = i32 (cc_progress_interval_sec cfg) h16;
          h18 = i32 (cc_progress_packet_threshold cfg) h17
      in i64 (cc_progress_bytes_threshold cfg) h18)"

section \<open>The shared object\<close>

datatype url_handler =
  H_static int string string
| H_capture_api
| H_pdef_upload
| H_pdef_management

record CRxProcData =
  pd_strategy_dict :: "CRxStrategyConfigManager reload_mgr option"
  pd_conf :: "CRxServerConfig option"
  pd_name_threads :: "string \<rightharpoonup> u32 list"
  pd_url_handlers :: "string \<rightharpoonup> url_handler"
  pd_capture_manager :: "u32 option"
  pd_sample :: "u32 option"
  pd_cleanup :: "u32 option"
  pd_reload :: "u32 option"
  pd_threads_initialized :: bool
  pd_task_mgr :: CRxSafeTaskMgr
  pd_next_sample_alert_id :: u64
  pd_sample_alerts :: "SRxSampleAlertRecord list"

definition CRxProcData_new :: CRxProcData where
  "CRxProcData_new =
     \<lparr>pd_strategy_dict = None, pd_conf = None, pd_name_threads = Map.empty, pd_url_handlers = Map.empty,
      pd_capture_manager = None, pd_sample = None, pd_cleanup = None, pd_reload = None,
      pd_threads_initialized = False, pd_task_mgr = CRxSafeTaskMgr_new, pd_next_sample_alert_id = 1,
      pd_sample_alerts = []\<rparr>"

definition current_strategy_config :: "CRxProcData \<Rightarrow> CRxStrategyConfigManager option" where
  "current_strategy_config pd = map_option rm_current (pd_strategy_dict pd)"

section \<open>URL handlers\<close>

definition OK_TEXT :: string where
  "OK_TEXT = ''{'' @ [quote_char] @ ''status'' @ [quote_char] @ '':'' @ [quote_char] @ ''ok'' @ [quote_char] @ ''}''"

definition SERVICE_TEXT :: string where
  "SERVICE_TEXT = ''{'' @ [quote_char] @ ''message'' @ [quote_char] @ '':'' @ [quote_char] @
     ''rxtracenetcap http service'' @ [quote_char] @ ''}''"

definition NO_HANDLER_TEXT :: string where
  "NO_HANDLER_TEXT = ''{'' @ [quote_char] @ ''error'' @ [quote_char] @ '':'' @ [quote_char] @
     ''no handler registered'' @ [quote_char] @ ''}''"

definition reg_handler :: "CRxProcData \<Rightarrow> CRxProcData" where
  "reg_handler pd = pd\<lparr>pd_url_handlers :=
     [''/health'' \<mapsto> H_static 200 ''OK'' OK_TEXT,
      ''/'' \<mapsto> H_static 200 ''OK'' SERVICE_TEXT,
      [] \<mapsto> H_static 200 ''OK'' SERVICE_TEXT,
      ''/api/capture/start'' \<mapsto> H_capture_api,
      ''/api/capture/stop'' \<mapsto> H_capture_api,
      ''/api/capture/status'' \<mapsto> H_capture_api,
      ''/api/pdef/upload'' \<mapsto> H_pdef_upload,
      ''/api/pdef/list'' \<mapsto> H_pdef_management,
      ''/api/pdef/get'' \<mapsto> H_pdef_management,
      ''/default'' \<mapsto> H_static 404 ''Not Found'' NO_HANDLER_TEXT]\<rparr>"

definition get_url_handler :: "CRxProcData \<Rightarrow> string \<Rightarrow> url_handler option" where
  "get_url_handler pd key =
     (let normalized = takeWhile (\<lambda>c. c \<noteq> CHR ''?'') key in
      case pd_url_handlers pd normalized of
        Some h \<Rightarrow> Some h
      | None \<Rightarrow> pd_url_handlers pd ''/default'')"

section \<open>Threads\<close>

definition add_name_thread :: "string \<Rightarrow> u32 \<Rightarrow> CRxProcData \<Rightarrow> CRxProcData" where
  "add_name_thread name thread pd =
     (case pd_name_threads pd name of
        Some vec \<Rightarrow> pd\<lparr>pd_name_threads := (pd_name_threads pd)(name \<mapsto> vec @ [thread])\<rparr>
      | None \<Rightarrow> pd\<lparr>pd_name_threads := (pd_name_threads pd)(name \<mapsto> [thread])\<rparr>)"

definition add_name_threads :: "string \<Rightarrow> u32 list \<Rightarrow> CRxProcData \<Rightarrow> CRxProcData" where
  "add_name_threads name threads pd = pd\<lparr>pd_name_threads := (pd_name_threads pd)(name \<mapsto> threads)\<rparr>"

definition get_thread :: "CRxProcData \<Rightarrow> string \<Rightarrow> u32 list option" where
  "get_thread pd name = pd_name_threads pd name"

text \<open>
  \<open>create\<close> is the index of a new thread of a kind, \<open>None\<close> when the allocation fails; \<open>starts\<close> tells whether
  it starts.  All four are created before the first is started.
\<close>

datatype thread_kind = Capture_manager | Sample | Cleanup | Reload

definition create_threads :: "(thread_kind \<Rightarrow> u32 option) \<Rightarrow> CRxProcData \<Rightarrow> bool \<times> CRxProcData" where
  "create_threads create pd =
     (let p1 = pd\<lparr>pd_capture_manager := create Capture_manager\<rparr> in
      if create Capture_manager = None then (False, p1)
      else let p2 = p1\<lparr>pd_sample := create Sample\<rparr> in
      if create Sample = None then (False, p2)
      else let p3 = p2\<lparr>pd_cleanup := create Cleanup\<rparr> in
      if create Cleanup = None then (False, p3)
      else let p4 = p3\<lparr>pd_reload := create Reload\<rparr> in
      (create Reload \<noteq> None, p4))"

definition init_threads ::
  "(thread_kind \<Rightarrow> u32 option) \<Rightarrow> (thread_kind \<Rightarrow> bool) \<Rightarrow> CRxProcData \<Rightarrow> int \<times> CRxProcData" where
  "init_threads create starts pd =
     (if pd_threads_initialized pd then (0, pd)
      else case create_threads create pd of
             (False, p1) \<Rightarrow> (- 1, p1)
           | (True, p1) \<Rightarrow>
               if \<not> starts Capture_manager \<or> \<not> starts Sample \<or> \<not> starts Cleanup \<or> \<not> starts Reload then (- 1, p1)
               else
                 (let p2 = add_name_thread ''capture_manager'' (the (pd_capture_manager p1)) p1;
                      p3 = add_name_thread ''sample'' (the (pd_sample p1)) p2;
                      p4 = add_name_thread ''cleanup'' (the (pd_cleanup p1)) p3;
                      p5 = add_name_thread ''reload'' (the (pd_reload p1)) p4
                  in (0, p5\<lparr>pd_threads_initialized := True\<rparr>)))"

section \<open>Life cycle\<close>

text \<open>\<open>new\<close> does not fail.\<close>

definition proc_init :: "CRxServerConfig option \<Rightarrow> CRxProcData \<Rightarrow> CRxProcData" where
  "proc_init conf pd =
     (let path = (case conf of Some c \<Rightarrow> sc_strategy_path c | None \<Rightarrow> []);
          fresh = strategy_init path CRxStrategyConfigManager_new
      in reg_handler (pd\<lparr>pd_conf := conf, pd_strategy_dict := Some (reload_mgr_new fresh fresh)\<rparr>))"

text \<open>The result of the strategy is ignored.\<close>

definition proc_load :: "config_env \<Rightarrow> CRxProcData \<Rightarrow> int \<times> CRxProcData" where
  "proc_load env pd =
     (0, case pd_strategy_dict pd of
           None \<Rightarrow> pd | Some r \<Rightarrow> pd\<lparr>pd_strategy_dict := Some (snd (rm_load (strategy_load env) r))\<rparr>)"

definition proc_destroy :: "CRxProcData \<Rightarrow> CRxProcData" where
  "proc_destroy pd =
     (case pd_strategy_dict pd of
        None \<Rightarrow> pd | Some r \<Rightarrow> pd\<lparr>pd_strategy_dict := Some (rm_destroy strategy_destroy r)\<rparr>)"

section \<open>The snapshot of the configuration\<close>

definition MB :: int where
  "MB = 1024 * 1024"

text \<open>A number of bytes in megabytes, stored in an \<open>int\<close>, at least one.\<close>

definition whole_mb :: "int \<Rightarrow> int" where
  "whole_mb v = (if v > 0 then let mb = to_int32 (v div MB) in if mb \<le> 0 then 1 else mb else 0)"

definition snapshot_from :: "CRxStrategyConfigManager \<Rightarrow> CaptureConfigSnapshot \<Rightarrow> CaptureConfigSnapshot" where
  "snapshot_from m snap =
     (let defaults = sy_defaults m; storage = sy_storage m in
      snap\<lparr>cc_output_dir := sg_base_dir storage, cc_filename_template := df_file_pattern defaults,
           cc_file_rotate_size_mb := whole_mb (df_max_bytes defaults), cc_file_rotate_count := 0,
           cc_max_duration_sec := df_duration_sec defaults, cc_max_bytes := df_max_bytes defaults,
           cc_max_packets := 0, cc_snaplen := 65535,
           cc_compress_threshold_mb := whole_mb (sg_progress_bytes_threshold storage), cc_compress_level := 0,
           cc_retain_days := sg_max_age_days storage,
           cc_clean_batch_size := sg_compress_batch_interval_sec storage,
           cc_disk_threshold_gb := sg_max_size_gb storage,
           cc_progress_interval_sec := sg_progress_interval_sec storage,
           cc_progress_packet_threshold := sg_progress_packet_threshold storage,
           cc_progress_bytes_threshold := sg_progress_bytes_threshold storage\<rparr>)"

definition get_capture_config_snapshot :: "int \<Rightarrow> CRxProcData \<Rightarrow> CaptureConfigSnapshot" where
  "get_capture_config_snapshot now pd =
     (let snap = (case current_strategy_config pd of
                    Some m \<Rightarrow> snapshot_from m CaptureConfigSnapshot_new | None \<Rightarrow> CaptureConfigSnapshot_new)
      in snap\<lparr>cc_config_hash := compute_config_hash snap, cc_config_timestamp := now\<rparr>)"

section \<open>The ring of alerts\<close>

definition ALERT_LIMIT :: nat where
  "ALERT_LIMIT = 128"

definition record_sample_alert :: "int \<Rightarrow> SRxSampleAlertRecord \<Rightarrow> CRxProcData \<Rightarrow> u64 \<times> CRxProcData" where
  "record_sample_alert now alert pd =
     (let i = pd_next_sample_alert_id pd;
          next = (if i + 1 = 0 then 1 else i + 1);
          stored = alert\<lparr>ar_alert_id := i, ar_timestamp := (if ar_timestamp alert = 0 then now else ar_timestamp alert)\<rparr>;
          alerts = pd_sample_alerts pd;
          kept = (if length alerts \<ge> ALERT_LIMIT then tl alerts else alerts)
      in (i, pd\<lparr>pd_next_sample_alert_id := next, pd_sample_alerts := kept @ [stored]\<rparr>))"

definition get_sample_alerts :: "nat \<Rightarrow> CRxProcData \<Rightarrow> SRxSampleAlertRecord list" where
  "get_sample_alerts max_count pd =
     (if max_count = 0 \<or> pd_sample_alerts pd = [] then [] else take max_count (rev (pd_sample_alerts pd)))"

fun record_alerts :: "(int \<times> SRxSampleAlertRecord) list \<Rightarrow> CRxProcData \<Rightarrow> u64 list \<times> CRxProcData" where
  "record_alerts [] pd = ([], pd)"
| "record_alerts ((now, a) # as) pd =
     (case record_sample_alert now a pd of (i, pd1) \<Rightarrow>
        (case record_alerts as pd1 of (is1, pd2) \<Rightarrow> (i # is1, pd2)))"

end
