(* ===== verification/Proc_Data_Facts.thy ===== *)
theory Proc_Data_Facts
  imports Proc_Data
begin

text \<open>
  What the shared data promise: the hash of a configuration tells configurations apart that differ in one
  byte, and the ring of alerts holds the newest ones in order.
\<close>

section \<open>The hash\<close>

text \<open>The bytes the hash runs over: texts end with a zero byte, numbers are little endian.\<close>

definition text_bytes :: "string \<Rightarrow> u8 list" where
  "text_bytes s = map of_char s @ [0]"

definition config_bytes :: "CaptureConfigSnapshot \<Rightarrow> u8 list" where
  "config_bytes cfg =
     (let i32 = (\<lambda>v. bytes_of_uint32 (word_of_int v)); i64 = (\<lambda>v. bytes_of_uint64 (word_of_int v));
          b = (\<lambda>v. bytes_of_uint32 (if v then 1 else 0))
      in text_bytes (cc_output_dir cfg) @ text_bytes (cc_filename_template cfg) @
         i32 (cc_file_rotate_size_mb cfg) @ i32 (cc_file_rotate_count cfg) @ i32 (cc_max_duration_sec cfg) @
         i64 (cc_max_bytes cfg) @ i32 (cc_max_packets cfg) @ i32 (cc_snaplen cfg) @
         b (cc_compress_enabled cfg) @ i32 (cc_compress_threshold_mb cfg) @ text_bytes (cc_compress_format cfg) @
         i32 (cc_compress_level cfg) @ b (cc_compress_remove_src cfg) @ i32 (cc_retain_days cfg) @
         i32 (cc_clean_batch_size cfg) @ i64 (cc_disk_threshold_gb cfg) @ i32 (cc_progress_interval_sec cfg) @
         i32 (cc_progress_packet_threshold cfg) @ i64 (cc_progress_bytes_threshold cfg))"

lemma fnv1a_append_append: "fnv1a_append h (xs @ ys) = fnv1a_append (fnv1a_append h xs) ys"
  by (simp add: fnv1a_append_def)

lemma mix_string_bytes: "fnv1a_mix_string h s = fnv1a_append h (text_bytes s)"
  by (simp add: fnv1a_mix_string_def text_bytes_def fnv1a_append_append) (simp add: fnv1a_append_def)

lemma config_hash_bytes: "compute_config_hash cfg = fnv1a_append 2166136261 (config_bytes cfg)"
  by (simp only: compute_config_hash_def config_bytes_def Let_def mix_string_bytes fnv1a_mix_uint32_def
      fnv1a_mix_uint64_def fnv1a_append_append append_assoc)

text \<open>The prime is odd, so a step loses nothing.\<close>

lemma prime_inverse: "x * 16777619 = y * 16777619 \<Longrightarrow> x = (y :: u32)"
proof -
  assume "x * 16777619 = y * 16777619"
  then have "x * (16777619 * 899433627) = y * (16777619 * 899433627)"
    by (simp only: mult.assoc [symmetric])
  moreover have "(16777619 * 899433627 :: u32) = 1" by simp
  ultimately show "x = y" by (simp only: mult_1_right)
qed

lemma xor_cancel:
  fixes a b c :: "'a::len word"
  shows "a XOR b = a XOR c \<longleftrightarrow> b = c" "b XOR a = c XOR a \<longleftrightarrow> b = c"
proof -
  have l: "b = c" if "a XOR b = a XOR c" for a b c :: "'a word"
  proof -
    have "a XOR (a XOR b) = a XOR (a XOR c)" using that by simp
    then show ?thesis by (simp flip: xor.assoc)
  qed
  show "a XOR b = a XOR c \<longleftrightarrow> b = c" using l by blast
  show "b XOR a = c XOR a \<longleftrightarrow> b = c" using l [of a b c] by (simp only: xor.commute [of _ a]) blast
qed

lemma fnv1a_step_hash: "fnv1a_step h b = fnv1a_step h' b \<longleftrightarrow> h = h'"
proof
  assume "fnv1a_step h b = fnv1a_step h' b"
  then have "h XOR ucast b = h' XOR ucast b" unfolding fnv1a_step_def by (rule prime_inverse)
  then show "h = h'" by (simp only: xor_cancel)
qed simp

lemma fnv1a_step_byte: "fnv1a_step h b = fnv1a_step h c \<longleftrightarrow> b = c"
proof
  assume "fnv1a_step h b = fnv1a_step h c"
  then have "h XOR ucast b = h XOR ucast c" unfolding fnv1a_step_def by (rule prime_inverse)
  then have "ucast b = (ucast c :: u32)" by (simp only: xor_cancel)
  then have "ucast (ucast b :: u32) = (ucast (ucast c :: u32) :: u8)" by simp
  then show "b = c" by (simp add: ucast_up_ucast_id is_up)
qed simp

lemma fnv1a_append_inj: "fnv1a_append h xs = fnv1a_append h' xs \<longleftrightarrow> h = h'"
  by (induction xs arbitrary: h h') (auto simp: fnv1a_append_def fnv1a_step_hash)

lemma fnv1a_append_Cons: "fnv1a_append h (x # xs) = fnv1a_append (fnv1a_step h x) xs"
  by (simp add: fnv1a_append_def)

lemma fnv1a_one_byte: "x \<noteq> y \<Longrightarrow> fnv1a_append h (pre @ x # post) \<noteq> fnv1a_append h (pre @ y # post)"
  by (simp add: fnv1a_append_append fnv1a_append_Cons fnv1a_append_inj fnv1a_step_byte)

section \<open>The ring\<close>

definition lastn :: "nat \<Rightarrow> 'a list \<Rightarrow> 'a list" where
  "lastn n xs = drop (length xs - n) xs"

lemma lastn_all: "length xs \<le> n \<Longrightarrow> lastn n xs = xs"
  by (simp add: lastn_def)

lemma lastn_lastn: "lastn n (lastn n xs @ ys) = lastn n (xs @ ys)"
  by (cases "length xs \<le> n") (auto simp: lastn_def add.commute)

lemma lastn_push:
  assumes "length xs \<le> n" "0 < n"
  shows "(if length xs \<ge> n then tl xs else xs) @ [y] = lastn n (xs @ [y])"
proof (cases "length xs = n")
  case True
  then show ?thesis using assms(2) by (cases xs) (simp_all add: lastn_def)
next
  case False
  then have "length (xs @ [y]) \<le> n" using assms(1) by simp
  then show ?thesis using False assms(1) by (simp add: lastn_all)
qed

text \<open>What is stored of an alert.\<close>

definition stored_alert :: "u64 \<Rightarrow> int \<times> SRxSampleAlertRecord \<Rightarrow> SRxSampleAlertRecord" where
  "stored_alert i e = (case e of (now, a) \<Rightarrow>
     a\<lparr>ar_alert_id := i, ar_timestamp := (if ar_timestamp a = 0 then now else ar_timestamp a)\<rparr>)"

fun stored_alerts :: "u64 \<Rightarrow> (int \<times> SRxSampleAlertRecord) list \<Rightarrow> SRxSampleAlertRecord list" where
  "stored_alerts i [] = []"
| "stored_alerts i (e # es) = stored_alert i e # stored_alerts (i + 1) es"

lemma length_stored_alerts [simp]: "length (stored_alerts i es) = length es"
  by (induction es arbitrary: i) auto

lemma record_alerts_ring:
  assumes "length (pd_sample_alerts pd) \<le> ALERT_LIMIT" "unat (pd_next_sample_alert_id pd) + length es < 2 ^ 64"
    and "record_alerts es pd = (ids, pd')"
  shows "ids = map ar_alert_id (stored_alerts (pd_next_sample_alert_id pd) es) \<and>
    pd_sample_alerts pd' = lastn ALERT_LIMIT (pd_sample_alerts pd @ stored_alerts (pd_next_sample_alert_id pd) es)"
  using assms
proof (induction es arbitrary: pd ids pd')
  case Nil
  then show ?case by (simp add: lastn_all)
next
  case (Cons e es)
  obtain now a where e: "e = (now, a)" by (cases e)
  let ?i = "pd_next_sample_alert_id pd"
  obtain pd1 where rec: "record_sample_alert now a pd = (?i, pd1)" by (simp add: record_sample_alert_def Let_def)
  have i: "unat (?i + 1) = Suc (unat ?i)"
    using Cons.prems(2) unat_add_no_wrap [of ?i 1] by simp
  then have "?i + 1 \<noteq> 0" by (metis unat_0 nat.distinct(1))
  then have nxt: "pd_next_sample_alert_id pd1 = ?i + 1"
    using rec by (auto simp: record_sample_alert_def Let_def)
  have "pd_sample_alerts pd1 = (if length (pd_sample_alerts pd) \<ge> ALERT_LIMIT
      then tl (pd_sample_alerts pd) else pd_sample_alerts pd) @ [stored_alert ?i e]"
    using rec by (auto simp: record_sample_alert_def Let_def stored_alert_def e)
  then have alerts: "pd_sample_alerts pd1 = lastn ALERT_LIMIT (pd_sample_alerts pd @ [stored_alert ?i e])"
    using lastn_push [OF Cons.prems(1)] by (simp add: ALERT_LIMIT_def)
  obtain ids1 pd2 where rest: "record_alerts es pd1 = (ids1, pd2)" by fastforce
  have "length (pd_sample_alerts pd1) \<le> ALERT_LIMIT" by (simp add: alerts lastn_def)
  from Cons.IH [OF this _ rest] have "ids1 = map ar_alert_id (stored_alerts (?i + 1) es) \<and>
      pd_sample_alerts pd2 = lastn ALERT_LIMIT (pd_sample_alerts pd1 @ stored_alerts (?i + 1) es)"
    using Cons.prems(2) i by (simp add: nxt)
  then show ?case using Cons.prems(3) rec rest alerts
    by (auto simp: e lastn_lastn stored_alert_def)
qed

section \<open>Properties\<close>

text \<open>
  Configurations that differ in one byte have different hashes: when the encodings of two snapshots
  agree but for one byte, such as one digit of a path or one byte of one number, the threads that compare
  hashes see the change.
\<close>

theorem config_change_detected:
  assumes "config_bytes a = pre @ x # post" "config_bytes b = pre @ y # post" "x \<noteq> y"
  shows "compute_config_hash a \<noteq> compute_config_hash b"
  using fnv1a_one_byte [OF assms(3)] assms(1,2) by (simp add: config_hash_bytes)

text \<open>
  C36. The ring holds the newest alerts.  After any run of fewer than \<open>2 ^ 64 - 1\<close> alerts the ids are
  1, 2, 3 and so on, and a query for \<open>k\<close> alerts gets the newest \<open>min k 128\<close> of them, newest first, each
  with its id and a time.
\<close>

theorem alert_ring_keeps_newest:
  assumes "length es < 2 ^ 64 - 1" "record_alerts es CRxProcData_new = (ids, pd)"
  shows "ids = map ar_alert_id (stored_alerts 1 es) \<and>
    get_sample_alerts k pd = take k (rev (lastn 128 (stored_alerts 1 es)))"
proof -
  have "ids = map ar_alert_id (stored_alerts 1 es) \<and> pd_sample_alerts pd = lastn 128 (stored_alerts 1 es)"
    using record_alerts_ring [OF _ _ assms(2)] assms(1) by (simp add: CRxProcData_new_def ALERT_LIMIT_def)
  then show ?thesis by (simp add: get_sample_alerts_def)
qed

section \<open>Concrete inputs\<close>

lemma config_change_detected_witness:
  "compute_config_hash (CaptureConfigSnapshot_new\<lparr>cc_output_dir := ''/a''\<rparr>) \<noteq>
   compute_config_hash (CaptureConfigSnapshot_new\<lparr>cc_output_dir := ''/b''\<rparr>)"
proof -
  have "config_bytes (CaptureConfigSnapshot_new\<lparr>cc_output_dir := ''/a''\<rparr>) =
      [47] @ 97 # 0 # drop 1 (config_bytes CaptureConfigSnapshot_new)"
    "config_bytes (CaptureConfigSnapshot_new\<lparr>cc_output_dir := ''/b''\<rparr>) =
      [47] @ 98 # 0 # drop 1 (config_bytes CaptureConfigSnapshot_new)"
    by (simp_all add: config_bytes_def text_bytes_def CaptureConfigSnapshot_new_def Let_def)
  from config_change_detected [OF this] show ?thesis by simp
qed

definition sample_alert :: SRxSampleAlertRecord where
  "sample_alert = \<lparr>ar_alert_id = 0, ar_timestamp = 0, ar_cpu_percent = 97, ar_memory_percent = 12,
     ar_network_rx_kbps = 0, ar_network_tx_kbps = 0, ar_cpu_hit = True, ar_mem_hit = False, ar_net_hit = False,
     ar_module_name = ''m'', ar_capture_hint = [], ar_capture_category = [], ar_capture_duration_sec = 0,
     ar_cooldown_sec = 0, ar_cpu_threshold = 90, ar_mem_threshold = 0, ar_net_threshold = 0\<rparr>"

lemma alert_ring_keeps_newest_witness:
  "map ar_alert_id (get_sample_alerts 2 (snd (record_alerts [(5, sample_alert), (6, sample_alert), (7, sample_alert)]
     CRxProcData_new))) = [3, 2]"
proof -
  let ?es = "[(5, sample_alert), (6, sample_alert), (7, sample_alert)]"
  obtain ids pd where run: "record_alerts ?es CRxProcData_new = (ids, pd)" by fastforce
  have "get_sample_alerts 2 pd = take 2 (rev (lastn 128 (stored_alerts 1 ?es)))"
    using alert_ring_keeps_newest [OF _ run, of 2] by simp
  then show ?thesis unfolding run by (simp add: lastn_def stored_alert_def)
qed

end
