(* ===== verification/Sample_Thread.thy ===== *)
theory Sample_Thread
  imports Proc_Data
begin

text \<open>
  The sample thread, \<open>src/src/rxsamplethread.cpp\<close>: every 15 seconds it reads the load of the system from
  \<open>/proc\<close> and reports exceeded thresholds to the capture manager.  The files are texts by path, \<open>None\<close> for
  a file that cannot be opened.
\<close>

section \<open>Reading numbers\<close>

text \<open>\<open>%lu\<close>.\<close>

definition scan_ulong :: "string \<Rightarrow> (u64 \<times> string) option" where
  "scan_ulong s = (case scan_number 10 s of None \<Rightarrow> None | Some (neg, n, rest) \<Rightarrow> Some (strtoul 10 s, rest))"

text \<open>A sequence of \<open>%lu\<close>: the numbers up to the first that fails.\<close>

fun scan_ulongs :: "nat \<Rightarrow> string \<Rightarrow> u64 list" where
  "scan_ulongs 0 s = []"
| "scan_ulongs (Suc n) s =
     (case scan_ulong s of None \<Rightarrow> [] | Some (v, rest) \<Rightarrow> v # scan_ulongs n rest)"

section \<open>The load of the system\<close>

type_synonym files = "string \<Rightarrow> string option"

definition percent_of :: "u64 \<Rightarrow> u64 \<Rightarrow> rat" where
  "percent_of part whole = of_nat (unat part) / of_nat (unat whole) * 100"

definition sample_cpu :: "files \<Rightarrow> SRxSystemStats \<Rightarrow> SRxSystemStats" where
  "sample_cpu fs stats =
     (case fs ''/proc/stat'' of
        None \<Rightarrow> stats
      | Some content \<Rightarrow>
          if starts_with ''cpu'' content
          then (case scan_ulongs 4 (drop 3 content) of
                  [user, nice, system, idle] \<Rightarrow>
                    (let sum = user + nice + system + idle in
                     if sum > 0 then stats\<lparr>ss_cpu_percent := percent_of (sum - idle) sum\<rparr> else stats)
                | _ \<Rightarrow> stats)
          else stats)"

text \<open>The lines up to the one with the memory available: total and available.\<close>

fun scan_meminfo :: "string list \<Rightarrow> u64 \<times> u64 \<Rightarrow> u64 \<times> u64" where
  "scan_meminfo [] mem = mem"
| "scan_meminfo (row # rows) mem =
     (case mem of (mem_total, mem_available) \<Rightarrow>
        if starts_with ''MemTotal:'' row
        then scan_meminfo rows
          (case scan_ulong (drop 9 row) of Some (v, r) \<Rightarrow> (v, mem_available) | None \<Rightarrow> (mem_total, mem_available))
        else if starts_with ''MemAvailable:'' row
        then (case scan_ulong (drop 13 row) of Some (v, r) \<Rightarrow> (mem_total, v) | None \<Rightarrow> (mem_total, mem_available))
        else scan_meminfo rows mem)"

definition sample_memory :: "files \<Rightarrow> SRxSystemStats \<Rightarrow> SRxSystemStats" where
  "sample_memory fs stats =
     (case fs ''/proc/meminfo'' of
        None \<Rightarrow> stats
      | Some content \<Rightarrow>
          (case scan_meminfo (fgets_lines 256 content) (0, 0) of
             (mem_total, mem_available) \<Rightarrow>
               if mem_total > 0 then stats\<lparr>ss_memory_percent := percent_of (mem_total - mem_available) mem_total\<rparr>
               else stats))"

text \<open>
  One interface: \<open>%63[^:]:\<close> and ten numbers, nine of which must be there.  The first conversion does not
  skip white space.
\<close>

definition scan_interface :: "string \<Rightarrow> (string \<times> u64 \<times> u64) option" where
  "scan_interface row =
     (let iface = take 63 (takeWhile (\<lambda>c. c \<noteq> CHR '':'') row); rest = drop (length iface) row in
      if iface = [] \<or> rest = [] \<or> hd rest \<noteq> CHR '':'' then None
      else (let ns = scan_ulongs 10 (tl rest) in
            if length ns \<ge> 9 then Some (iface, ns ! 0, ns ! 8) else None))"

fun sum_interfaces :: "string list \<Rightarrow> u64 \<times> u64 \<Rightarrow> u64 \<times> u64" where
  "sum_interfaces [] tot = tot"
| "sum_interfaces (row # rows) (rx_bytes, tx_bytes) =
     sum_interfaces rows
       (case scan_interface row of
          None \<Rightarrow> (rx_bytes, tx_bytes)
        | Some (iface, r_bytes, t_bytes) \<Rightarrow>
            if iface \<noteq> ''lo'' then (rx_bytes + r_bytes, tx_bytes + t_bytes) else (rx_bytes, tx_bytes))"

definition kbps_of :: "u64 \<Rightarrow> rat" where
  "kbps_of n = of_nat (unat n) / 1024 / 15"

definition sample_network :: "files \<Rightarrow> SRxSystemStats \<Rightarrow> SRxSystemStats" where
  "sample_network fs stats =
     (case fs ''/proc/net/dev'' of
        None \<Rightarrow> stats
      | Some content \<Rightarrow>
          (case fgets_lines 256 content of
             h1 # h2 # rows \<Rightarrow>
               (case sum_interfaces rows (0, 0) of
                  (rx_bytes, tx_bytes) \<Rightarrow>
                    stats\<lparr>ss_network_rx_kbps := kbps_of rx_bytes, ss_network_tx_kbps := kbps_of tx_bytes\<rparr>)
           | _ \<Rightarrow> stats))"

definition sample_system_stats :: "int \<Rightarrow> files \<Rightarrow> SRxSystemStats" where
  "sample_system_stats now fs =
     sample_network fs (sample_memory fs (sample_cpu fs (SRxSystemStats_new\<lparr>ss_timestamp := now\<rparr>)))"

section \<open>The thread\<close>

record CRxSampleThread =
  th_thr :: SRxThresholds
  th_modules :: "CRxSampleModule list"
  th_type :: int
  th_name :: string
  th_running :: bool
  th_timer :: "u32 option"

definition SAMPLE_INTERVAL_SEC :: int where
  "SAMPLE_INTERVAL_SEC = 15"

definition CRxSampleThread_new :: CRxSampleThread where
  "CRxSampleThread_new =
     \<lparr>th_thr = SRxThresholds_new, th_modules = [], th_type = 4, th_name = [], th_running = True, th_timer = None\<rparr>"

definition sample_load_config :: "CRxProcData \<Rightarrow> CRxSampleThread \<Rightarrow> CRxSampleThread" where
  "sample_load_config pd t =
     (case current_strategy_config pd of
        Some cfg \<Rightarrow> t\<lparr>th_thr := sy_thresholds cfg, th_modules := sy_sample_modules cfg\<rparr>
      | None \<Rightarrow> t\<lparr>th_modules := []\<rparr>)"

definition schedule_timer :: "CRxSampleThread \<Rightarrow> CRxSampleThread" where
  "schedule_timer t = t\<lparr>th_timer := Some (word_of_int (SAMPLE_INTERVAL_SEC * 1000))\<rparr>"

text \<open>\<open>base_ok\<close>: whether the thread of the framework starts.\<close>

definition sample_start :: "bool \<Rightarrow> CRxProcData \<Rightarrow> CRxSampleThread \<Rightarrow> bool \<times> CRxSampleThread" where
  "sample_start base_ok pd t =
     (let t1 = sample_load_config pd t in
      if \<not> base_ok then (False, t1)
      else (True, schedule_timer (if th_name t1 = [] then t1\<lparr>th_name := ''sample''\<rparr> else t1)))"

definition exceeds :: "int \<Rightarrow> rat \<Rightarrow> bool" where
  "exceeds limit v \<longleftrightarrow> limit > 0 \<and> v > of_int limit"

text \<open>The alert of a module, or of the global thresholds.\<close>

definition alert_of ::
  "CRxProcData \<Rightarrow> CRxSampleThread \<Rightarrow> SRxSystemStats \<Rightarrow> CRxSampleModule option \<Rightarrow> bool \<Rightarrow> bool \<Rightarrow> bool \<Rightarrow> SRxSampleMsg" where
  "alert_of pd t stats mod_opt cpu_hit mem_hit net_hit =
     (let msg = SRxSampleMsg_new\<lparr>al_stats := stats, al_cpu_hit := cpu_hit, al_mem_hit := mem_hit, al_net_hit := net_hit\<rparr> in
      case mod_opt of
        Some m \<Rightarrow>
          msg\<lparr>al_module_name := sm_name m, al_capture_hint := sm_capture_hint m,
              al_capture_category := sm_capture_category m, al_capture_duration_sec := sm_capture_duration_sec m,
              al_cooldown_sec := sm_cooldown_sec m, al_cpu_threshold := sm_cpu_pct_gt m,
              al_mem_threshold := sm_mem_pct_gt m, al_net_threshold := sm_net_rx_kbps_gt m\<rparr>
      | None \<Rightarrow>
          (let m1 = msg\<lparr>al_module_name := ''default'', al_cpu_threshold := th_cpu_pct_gt (th_thr t),
                        al_mem_threshold := th_mem_pct_gt (th_thr t), al_net_threshold := th_net_rx_kbps_gt (th_thr t)\<rparr>
           in case current_strategy_config pd of
                Some cfg \<Rightarrow> m1\<lparr>al_capture_duration_sec := df_duration_sec (sy_defaults cfg),
                               al_capture_category := df_category (sy_defaults cfg)\<rparr>
              | None \<Rightarrow> m1))"

definition emit_alert ::
  "CRxProcData \<Rightarrow> CRxSampleThread \<Rightarrow> SRxSystemStats \<Rightarrow> CRxSampleModule option \<Rightarrow> bool \<Rightarrow> bool \<Rightarrow> bool \<Rightarrow>
   (u32 \<times> SRxSampleMsg) list" where
  "emit_alert pd t stats mod_opt cpu_hit mem_hit net_hit =
     (case pd_capture_manager pd of
        Some i \<Rightarrow> [(i, alert_of pd t stats mod_opt cpu_hit mem_hit net_hit)] | None \<Rightarrow> [])"

definition check_module ::
  "CRxProcData \<Rightarrow> CRxSampleThread \<Rightarrow> SRxSystemStats \<Rightarrow> CRxSampleModule \<Rightarrow> (u32 \<times> SRxSampleMsg) list" where
  "check_module pd t s m =
     (let cpu_hit = exceeds (sm_cpu_pct_gt m) (ss_cpu_percent s);
          mem_hit = exceeds (sm_mem_pct_gt m) (ss_memory_percent s);
          net_hit = exceeds (sm_net_rx_kbps_gt m) (ss_network_rx_kbps s)
      in if \<not> (cpu_hit \<or> mem_hit \<or> net_hit) then [] else emit_alert pd t s (Some m) cpu_hit mem_hit net_hit)"

definition sample_and_check :: "int \<Rightarrow> files \<Rightarrow> CRxProcData \<Rightarrow> CRxSampleThread \<Rightarrow> (u32 \<times> SRxSampleMsg) list" where
  "sample_and_check now fs pd t =
     (let s = sample_system_stats now fs in
      if th_modules t \<noteq> [] then concat (map (check_module pd t s) (th_modules t))
      else
        (let cpu_hit = exceeds (th_cpu_pct_gt (th_thr t)) (ss_cpu_percent s);
             mem_hit = exceeds (th_mem_pct_gt (th_thr t)) (ss_memory_percent s);
             net_hit = exceeds (th_net_rx_kbps_gt (th_thr t)) (ss_network_rx_kbps s)
         in if cpu_hit \<or> mem_hit \<or> net_hit then emit_alert pd t s None cpu_hit mem_hit net_hit else []))"

definition sample_handle_timeout ::
  "int \<Rightarrow> files \<Rightarrow> CRxProcData \<Rightarrow> bool \<Rightarrow> CRxSampleThread \<Rightarrow> (u32 \<times> SRxSampleMsg) list \<times> CRxSampleThread" where
  "sample_handle_timeout now fs pd is_sample t =
     (if \<not> is_sample then ([], t)
      else (sample_and_check now fs pd t,
            if th_running t then schedule_timer (t\<lparr>th_timer := None\<rparr>) else t\<lparr>th_timer := None\<rparr>))"

section \<open>Facts\<close>

text \<open>A share of a whole lies between zero and one hundred, when the sum did not wrap.\<close>

lemma share_bounds: "a \<le> b \<Longrightarrow> 0 < b \<Longrightarrow> (0 :: rat) \<le> of_nat a / of_nat b * 100 \<and> of_nat a / of_nat b * 100 \<le> (100 :: rat)"
  by (simp add: divide_le_eq)

lemma percent_bounds:
  "part \<le> whole \<Longrightarrow> 0 < whole \<Longrightarrow> 0 \<le> percent_of part whole \<and> percent_of part whole \<le> 100"
  unfolding percent_of_def by (rule share_bounds) (simp_all add: word_le_nat_alt word_less_nat_alt)

lemma check_module_hit:
  assumes "pd_capture_manager pd = Some i"
  shows "check_module pd t s m =
    (if exceeds (sm_cpu_pct_gt m) (ss_cpu_percent s) \<or> exceeds (sm_mem_pct_gt m) (ss_memory_percent s) \<or>
        exceeds (sm_net_rx_kbps_gt m) (ss_network_rx_kbps s)
     then [(i, alert_of pd t s (Some m) (exceeds (sm_cpu_pct_gt m) (ss_cpu_percent s))
        (exceeds (sm_mem_pct_gt m) (ss_memory_percent s)) (exceeds (sm_net_rx_kbps_gt m) (ss_network_rx_kbps s)))]
     else [])"
  using assms by (simp add: check_module_def emit_alert_def Let_def)

text \<open>
  The loopback interface is counted.  The kernel writes the names of interfaces after spaces, the scan
  keeps them, and the comparison with \<open>lo\<close> fails: whatever the line of the loopback interface counts is
  added to the network rate.
\<close>

theorem loopback_counted:
  assumes "scan_interface (''    lo:'' @ rest) = Some (iface, r, t)"
  shows "sum_interfaces [''    lo:'' @ rest] (rx, tx) = (rx + r, tx + t)"
proof -
  have "iface = ''    lo''" using assms by (auto simp: scan_interface_def Let_def split: if_splits)
  then show ?thesis using assms by simp
qed

text \<open>Numbers of one digit.\<close>

lemma scan_ulong_digit:
  assumes "digit_of 10 c = Some d" "\<not> isspace c" "c \<noteq> CHR ''-''" "c \<noteq> CHR ''+''" "d < 10"
    and "case rest of [] \<Rightarrow> True | x # xs \<Rightarrow> digit_of 10 x = None"
  shows "scan_ulong (c # rest) = Some (of_nat d, rest)"
proof -
  have "digits_run 10 d rest = (d, rest)" using assms(6) by (cases rest) simp_all
  then have "scan_number 10 (c # rest) = Some (False, d, rest)"
    using assms(1-4) by (simp add: scan_number_def Let_def)
  then show ?thesis using assms(5) by (simp add: scan_ulong_def strtoul_def)
qed

lemma scan_ulong_space: "scan_ulong (CHR '' '' # s) = scan_ulong s"
proof -
  have "isspace (CHR '' '')" by (simp add: isspace_def)
  then have "scan_number 10 (CHR '' '' # s) = scan_number 10 s" by (simp add: scan_number_def)
  moreover from this have "strtoul 10 (CHR '' '' # s) = strtoul 10 s" by (simp add: strtoul_def)
  ultimately show ?thesis by (simp only: scan_ulong_def)
qed

definition lo_rest :: string where
  "lo_rest = ''5 0 0 0 0 0 0 0 7''"

lemma loopback_counted_witness: "sum_interfaces [''    lo:'' @ lo_rest] (0, 0) = (5, 7)"
proof -
  have digits: "digit_of 10 (CHR ''5'') = Some 5" "digit_of 10 (CHR ''0'') = Some 0" "digit_of 10 (CHR ''7'') = Some 7"
    "digit_of 10 (CHR '' '') = None" "\<not> isspace (CHR ''5'')" "\<not> isspace (CHR ''0'')" "\<not> isspace (CHR ''7'')"
    by (simp_all add: digit_of_def isspace_def)
  have numbers: "scan_ulong (CHR ''5'' # CHR '' '' # r) = Some (5, CHR '' '' # r)"
    "scan_ulong (CHR ''0'' # CHR '' '' # r) = Some (0, CHR '' '' # r)" "scan_ulong ''7'' = Some (7, [])"
    "scan_ulong [] = None" for r
    using scan_ulong_digit [OF digits(1,5)] scan_ulong_digit [OF digits(2,6)] scan_ulong_digit [OF digits(3,7), of "[]"] digits(4)
    by (simp_all add: scan_ulong_def [of "[]"] scan_number_def)
  have "scan_ulongs (Suc (Suc (Suc (Suc (Suc (Suc (Suc (Suc (Suc (Suc 0)))))))))) lo_rest = [5, 0, 0, 0, 0, 0, 0, 0, 7]"
    by (simp add: lo_rest_def numbers scan_ulong_space)
  then have "scan_ulongs 10 lo_rest = [5, 0, 0, 0, 0, 0, 0, 0, 7]" by (simp add: eval_nat_numeral)
  then have "scan_interface (''    lo:'' @ lo_rest) = Some (''    lo'', 5, 7)"
    by (simp add: scan_interface_def)
  from loopback_counted [OF this] show ?thesis by simp
qed

end
