(* ===== verification/Pdef_Usage.thy ===== *)
theory Pdef_Usage
  imports C_Text Packet_Filter
begin

text \<open>
  The byte orders the capture manager writes back, \<open>src/src/rxcapturemanagerthread.cpp\<close>: for every
  definition file the captures that use it, the byte order detected, and the change of the file, which
  waits until no capture uses it.  Files are texts by path; whether \<open>fopen\<close>, \<open>fwrite\<close> and \<open>rename\<close>
  succeed is an argument.  \<open>unlink\<close> of the temporary file, just created, succeeds.
\<close>

section \<open>The new text of a definition\<close>

text \<open>\<open>fgets\<close> into 4096 bytes, each line appended as a C string.\<close>

definition read_text :: "string \<Rightarrow> string" where
  "read_text content = concat (map c_str (fgets_lines 4096 content))"

definition endian_str :: "int \<Rightarrow> string" where
  "endian_str detected = (if detected = endian_value ENDIAN_TYPE_BIG then ''big'' else ''little'')"

text \<open>\<open>content.find (p, from)\<close>\<close>

definition find_from :: "string \<Rightarrow> nat \<Rightarrow> string \<Rightarrow> nat option" where
  "find_from p start s = (if start > length s then None else map_option (\<lambda>k. start + k) (find_str p (drop start s)))"

text \<open>What stands between \<open>=\<close> and \<open>;\<close> after the first \<open>endian\<close> of the text is replaced.\<close>

definition replace_endian :: "string \<Rightarrow> nat \<Rightarrow> string \<Rightarrow> string option" where
  "replace_endian endian endian_pos content =
     (case find_from ''='' endian_pos content of
        None \<Rightarrow> None
      | Some eq_pos \<Rightarrow>
          if eq_pos > endian_pos + 20 then None
          else (case find_from '';'' eq_pos content of
                  None \<Rightarrow> None
                | Some semi_pos \<Rightarrow>
                    if semi_pos > eq_pos + 50 then None
                    else Some (take (eq_pos + 1) content @ '' '' @ endian @ drop semi_pos content)))"

text \<open>Without that word a line is inserted at the start of the protocol block.\<close>

definition insert_endian_line :: "string \<Rightarrow> string \<Rightarrow> string option" where
  "insert_endian_line endian content =
     (case find_from ''@protocol'' 0 content of
        None \<Rightarrow> None
      | Some protocol_pos \<Rightarrow>
          (case find_from ''{'' protocol_pos content of
             None \<Rightarrow> None
           | Some brace_open \<Rightarrow>
               (let insert_pos = (case find_from [CHR 0x0A] brace_open content of
                                    None \<Rightarrow> brace_open + 1 | Some n \<Rightarrow> n + 1)
                in Some (take insert_pos content @ ''    endian = '' @ endian @ '';'' @ [CHR 0x0A] @
                         drop insert_pos content))))"

definition new_endian_text :: "string \<Rightarrow> string \<Rightarrow> string option" where
  "new_endian_text endian content =
     (case find_from ''endian'' 0 content of
        Some endian_pos \<Rightarrow> replace_endian endian endian_pos content
      | None \<Rightarrow> insert_endian_line endian content)"

section \<open>Writing it\<close>

record writeback_io =
  wio_read :: bool
  wio_create :: bool
  wio_written :: nat
  wio_rename :: bool

text \<open>The new text goes to a temporary file, which replaces the definition.\<close>

definition writeback_endian_to_file :: "writeback_io \<Rightarrow> string \<Rightarrow> int \<Rightarrow> file_map \<Rightarrow> bool \<times> file_map" where
  "writeback_endian_to_file io pdef_path detected fs =
     (case (if wio_read io then fs pdef_path else None) of
        None \<Rightarrow> (False, fs)
      | Some content \<Rightarrow>
          (case new_endian_text (endian_str detected) (read_text content) of
             None \<Rightarrow> (False, fs)
           | Some new_content \<Rightarrow>
               (let tmp_path = pdef_path @ ''.tmp'' in
                if \<not> wio_create io then (False, fs)
                else if wio_written io < length new_content then (False, fs(tmp_path := None))
                else if \<not> wio_rename io then (False, fs(tmp_path := None))
                else (True, fs(tmp_path := None, pdef_path := Some new_content)))))"

section \<open>Which captures use a definition\<close>

record PDEFUsageInfo =
  us_active_capture_ids :: "int set"
  us_detected_endian :: int
  us_writeback_needed :: bool
  us_writeback_done :: bool

definition PDEFUsageInfo_new :: PDEFUsageInfo where
  "PDEFUsageInfo_new =
     \<lparr>us_active_capture_ids = {}, us_detected_endian = 0, us_writeback_needed = False, us_writeback_done = False\<rparr>"

type_synonym usage_map = "string \<rightharpoonup> PDEFUsageInfo"

text \<open>\<open>operator []\<close> of the map: a missing entry is made.\<close>

definition usage_of :: "string \<Rightarrow> usage_map \<Rightarrow> PDEFUsageInfo" where
  "usage_of path m = (case m path of Some info \<Rightarrow> info | None \<Rightarrow> PDEFUsageInfo_new)"

definition track_pdef_usage_start :: "int \<Rightarrow> string \<Rightarrow> usage_map \<Rightarrow> usage_map" where
  "track_pdef_usage_start capture_id pdef_path m =
     (if pdef_path = [] then m
      else (let info = usage_of pdef_path m in
            m(pdef_path \<mapsto> info\<lparr>us_active_capture_ids := insert capture_id (us_active_capture_ids info)\<rparr>)))"

definition track_pdef_usage_end :: "int \<Rightarrow> string \<Rightarrow> usage_map \<Rightarrow> usage_map" where
  "track_pdef_usage_end capture_id pdef_path m =
     (if pdef_path = [] then m
      else case m pdef_path of
             None \<Rightarrow> m
           | Some info \<Rightarrow>
               m(pdef_path \<mapsto> info\<lparr>us_active_capture_ids := us_active_capture_ids info - {capture_id}\<rparr>))"

definition try_writeback_pdef_endian ::
  "writeback_io \<Rightarrow> string \<Rightarrow> usage_map \<times> file_map \<Rightarrow> usage_map \<times> file_map" where
  "try_writeback_pdef_endian io pdef_path s =
     (case s of (m, fs) \<Rightarrow>
        if pdef_path = [] then (m, fs)
        else case m pdef_path of
               None \<Rightarrow> (m, fs)
             | Some info \<Rightarrow>
                 if \<not> us_writeback_needed info \<or> us_writeback_done info then (m, fs)
                 else if us_active_capture_ids info \<noteq> {} then (m, fs)
                 else (case writeback_endian_to_file io pdef_path (us_detected_endian info) fs of
                         (ok, fs1) \<Rightarrow>
                           (if ok then m(pdef_path \<mapsto> info\<lparr>us_writeback_done := True\<rparr>) else m, fs1)))"

definition pdef_endian_detected ::
  "writeback_io \<Rightarrow> SRxPdefEndianMsg \<Rightarrow> usage_map \<times> file_map \<Rightarrow> usage_map \<times> file_map" where
  "pdef_endian_detected io msg s =
     (case s of (m, fs) \<Rightarrow>
        (let pdef_path = pe_file_path msg; detected = pe_detected_endian msg in
         if pdef_path = [] then (m, fs)
         else (let info = usage_of pdef_path m in
               if us_writeback_done info then (m(pdef_path \<mapsto> info), fs)
               else (let info1 = (if us_detected_endian info = 0 \<or>
                                     us_detected_endian info = endian_value ENDIAN_TYPE_UNKNOWN
                                  then info\<lparr>us_detected_endian := detected, us_writeback_needed := True\<rparr>
                                  else info)
                     in try_writeback_pdef_endian io pdef_path (m(pdef_path \<mapsto> info1), fs)))))"

end
