(* ===== verification/Pdef_Usage_Facts.thy ===== *)
theory Pdef_Usage_Facts
  imports Pdef_Usage
begin

text \<open>
  Facts about the write-back of byte orders: a definition file changes only while no capture uses it and at
  most once, and the text written is the one the last write-back alone would give.
\<close>

section \<open>Runs of events\<close>

text \<open>
  What the manager does with a definition: a raw file is sent to the filter thread, or given up because
  there is none, a filtered file comes back, a byte order is reported.
\<close>

datatype usage_event =
  Used int string
| Given_up int string
| Filtered int string
| Detected SRxPdefEndianMsg

fun usage_step :: "writeback_io \<times> usage_event \<Rightarrow> usage_map \<times> file_map \<Rightarrow> usage_map \<times> file_map" where
  "usage_step (io, Used c p) (m, fs) = (track_pdef_usage_start c p m, fs)"
| "usage_step (io, Given_up c p) (m, fs) = (track_pdef_usage_end c p m, fs)"
| "usage_step (io, Filtered c p) (m, fs) = try_writeback_pdef_endian io p (track_pdef_usage_end c p m, fs)"
| "usage_step (io, Detected msg) (m, fs) = pdef_endian_detected io msg (m, fs)"

definition usage_run :: "(writeback_io \<times> usage_event) list \<Rightarrow> usage_map \<times> file_map \<Rightarrow> usage_map \<times> file_map" where
  "usage_run es s = fold usage_step es s"

text \<open>A capture uses a definition from the raw file to the filtered one.\<close>

definition uses :: "int \<Rightarrow> string \<Rightarrow> (writeback_io \<times> usage_event) list \<Rightarrow> bool" where
  "uses c p es \<longleftrightarrow>
     (\<exists>before after io. es = before @ (io, Used c p) # after \<and>
        (\<forall>x \<in> set after. snd x \<noteq> Given_up c p \<and> snd x \<noteq> Filtered c p))"

lemma uses_snoc:
  "uses c p (es @ [(io, e)]) \<longleftrightarrow> e = Used c p \<or> uses c p es \<and> e \<noteq> Given_up c p \<and> e \<noteq> Filtered c p"
proof
  assume "uses c p (es @ [(io, e)])"
  then obtain before after io' where split: "es @ [(io, e)] = before @ (io', Used c p) # after"
    and rest: "\<forall>x \<in> set after. snd x \<noteq> Given_up c p \<and> snd x \<noteq> Filtered c p"
    by (auto simp: uses_def)
  show "e = Used c p \<or> uses c p es \<and> e \<noteq> Given_up c p \<and> e \<noteq> Filtered c p"
  proof (cases after rule: rev_cases)
    case Nil
    then show ?thesis using split by simp
  next
    case (snoc xs x)
    then have "es = before @ (io', Used c p) # xs" "x = (io, e)" using split by auto
    then show ?thesis using rest snoc by (auto simp: uses_def)
  qed
next
  assume r: "e = Used c p \<or> uses c p es \<and> e \<noteq> Given_up c p \<and> e \<noteq> Filtered c p"
  show "uses c p (es @ [(io, e)])"
  proof (cases "e = Used c p")
    case True
    then show ?thesis unfolding uses_def by (intro exI [of _ es] exI [of _ "[]"] exI [of _ io]) simp
  next
    case False
    with r obtain before after io' where "es = before @ (io', Used c p) # after"
      "\<forall>x \<in> set after. snd x \<noteq> Given_up c p \<and> snd x \<noteq> Filtered c p" by (auto simp: uses_def)
    then show ?thesis using r False unfolding uses_def
      by (intro exI [of _ before] exI [of _ "after @ [(io, e)]"] exI [of _ io']) auto
  qed
qed

lemma no_use: "\<not> uses c p []"
  by (simp add: uses_def)

section \<open>One step\<close>

abbreviation active_of :: "string \<Rightarrow> usage_map \<Rightarrow> int set" where
  "active_of p m \<equiv> us_active_capture_ids (usage_of p m)"

abbreviation done_of :: "string \<Rightarrow> usage_map \<Rightarrow> bool" where
  "done_of p m \<equiv> us_writeback_done (usage_of p m)"

lemmas usage_simps = usage_of_def PDEFUsageInfo_new_def

lemma start_usage:
  "p \<noteq> [] \<Longrightarrow> active_of p (track_pdef_usage_start c q m) = (if q = p then insert c (active_of p m) else active_of p m)"
  "done_of p (track_pdef_usage_start c q m) = done_of p m"
  by (simp_all add: track_pdef_usage_start_def usage_of_def Let_def)

lemma end_usage:
  "p \<noteq> [] \<Longrightarrow> active_of p (track_pdef_usage_end c q m) = (if q = p then active_of p m - {c} else active_of p m)"
  "done_of p (track_pdef_usage_end c q m) = done_of p m"
  by (auto simp: track_pdef_usage_end_def usage_simps split: option.splits)

text \<open>A path that is not the temporary file of another.\<close>

definition plain_path :: "string \<Rightarrow> bool" where
  "plain_path p \<longleftrightarrow> (\<forall>q. p \<noteq> q @ ''.tmp'')"

lemma file_written:
  assumes "writeback_endian_to_file io q d fs = (ok, fs1)" "plain_path p"
  shows "fs1 p = fs p \<or> ok \<and> p = q \<and>
    (\<exists>old new. fs p = Some old \<and> new_endian_text (endian_str d) (read_text old) = Some new \<and> fs1 p = Some new)"
  using assms
  by (auto simp: writeback_endian_to_file_def plain_path_def Let_def split: option.splits if_splits)

lemma try_writeback:
  assumes "try_writeback_pdef_endian io q (m, fs) = (m1, fs1)" "plain_path p"
  shows "active_of p m1 = active_of p m \<and> (done_of p m \<longrightarrow> done_of p m1 \<and> fs1 p = fs p) \<and>
    (fs1 p \<noteq> fs p \<longrightarrow> done_of p m1 \<and> p \<noteq> [] \<and> active_of p m = {} \<and>
      (\<exists>old new d. fs p = Some old \<and> new_endian_text (endian_str d) (read_text old) = Some new \<and> fs1 p = Some new))"
proof -
  consider "m1 = m" "fs1 = fs"
    | info ok where "q \<noteq> []" "m q = Some info" "\<not> us_writeback_done info" "us_active_capture_ids info = {}"
        "writeback_endian_to_file io q (us_detected_endian info) fs = (ok, fs1)"
        "m1 = (if ok then m(q \<mapsto> info\<lparr>us_writeback_done := True\<rparr>) else m)"
    using assms(1) by (auto simp: try_writeback_pdef_endian_def split: if_splits option.splits prod.splits)
  then show ?thesis
  proof cases
    case 2
    have info: "usage_of q m = info" using 2(2) by (simp add: usage_of_def)
    show ?thesis
    proof (cases "q = p")
      case True
      then show ?thesis using 2 info file_written [OF 2(5) assms(2)] by (auto simp: usage_of_def)
    next
      case False
      then show ?thesis using 2 file_written [OF 2(5) assms(2)] by (auto simp: usage_of_def)
    qed
  qed auto
qed

lemma detected_event:
  assumes "pdef_endian_detected io msg (m, fs) = (m1, fs1)" "plain_path p"
  shows "active_of p m1 = active_of p m \<and> (done_of p m \<longrightarrow> done_of p m1 \<and> fs1 p = fs p) \<and>
    (fs1 p \<noteq> fs p \<longrightarrow> done_of p m1 \<and> p \<noteq> [] \<and> active_of p m = {} \<and>
      (\<exists>old new d. fs p = Some old \<and> new_endian_text (endian_str d) (read_text old) = Some new \<and> fs1 p = Some new))"
proof -
  define q where "q = pe_file_path msg"
  consider "m1 = m" "fs1 = fs"
    | "m1 = m(q \<mapsto> usage_of q m)" "fs1 = fs"
    | info where "us_active_capture_ids info = active_of q m" "us_writeback_done info = done_of q m"
        "try_writeback_pdef_endian io q (m(q \<mapsto> info), fs) = (m1, fs1)"
  proof (cases "q = []")
    case True
    then show ?thesis using assms(1) that(1) by (simp add: pdef_endian_detected_def q_def)
  next
    case False
    define info where "info = (if us_detected_endian (usage_of q m) = 0 \<or>
        us_detected_endian (usage_of q m) = endian_value ENDIAN_TYPE_UNKNOWN
      then (usage_of q m)\<lparr>us_detected_endian := pe_detected_endian msg, us_writeback_needed := True\<rparr> else usage_of q m)"
    have r: "(if done_of q m then (m(q \<mapsto> usage_of q m), fs)
        else try_writeback_pdef_endian io q (m(q \<mapsto> info), fs)) = (m1, fs1)"
      using assms(1) False unfolding pdef_endian_detected_def info_def q_def Let_def by simp
    show ?thesis
    proof (cases "done_of q m")
      case True
      then show ?thesis using r that(2) by simp
    next
      case False
      then show ?thesis using r that(3) [of info] by (simp add: info_def)
    qed
  qed
  then show ?thesis
  proof cases
    case 2
    then show ?thesis by (auto simp: usage_of_def)
  next
    case 3
    have "active_of p (m(q \<mapsto> info)) = active_of p m" "done_of p (m(q \<mapsto> info)) = done_of p m"
      using 3(1,2) by (auto simp: usage_of_def)
    then show ?thesis using try_writeback [OF 3(3) assms(2)] by simp
  qed auto
qed

lemma usage_step_facts:
  assumes "usage_step (io, e) (m, fs) = (m1, fs1)" "plain_path p"
  shows "done_of p m \<Longrightarrow> done_of p m1 \<and> fs1 p = fs p"
    and "p \<noteq> [] \<Longrightarrow> c \<in> active_of p m1 \<longleftrightarrow> e = Used c p \<or> c \<in> active_of p m \<and> e \<noteq> Given_up c p \<and> e \<noteq> Filtered c p"
    and "fs1 p \<noteq> fs p \<Longrightarrow> done_of p m1 \<and> p \<noteq> [] \<and> active_of p m1 = {} \<and>
      (\<exists>old new d. fs p = Some old \<and> new_endian_text (endian_str d) (read_text old) = Some new \<and> fs1 p = Some new)"
proof -
  have all: "(done_of p m \<longrightarrow> done_of p m1 \<and> fs1 p = fs p) \<and>
    (p \<noteq> [] \<longrightarrow> (c \<in> active_of p m1 \<longleftrightarrow> e = Used c p \<or> c \<in> active_of p m \<and> e \<noteq> Given_up c p \<and> e \<noteq> Filtered c p)) \<and>
    (fs1 p \<noteq> fs p \<longrightarrow> done_of p m1 \<and> p \<noteq> [] \<and> active_of p m1 = {} \<and>
      (\<exists>old new d. fs p = Some old \<and> new_endian_text (endian_str d) (read_text old) = Some new \<and> fs1 p = Some new))" for c
  proof (cases e)
    case (Used c' q)
    then show ?thesis using assms(1) by (auto simp: start_usage split: if_splits)
  next
    case (Given_up c' q)
    then show ?thesis using assms(1) by (auto simp: end_usage split: if_splits)
  next
    case (Filtered c' q)
    have s: "try_writeback_pdef_endian io q (track_pdef_usage_end c' q m, fs) = (m1, fs1)"
      using assms(1) Filtered by simp
    show ?thesis using try_writeback [OF s assms(2)] Filtered by (auto simp: end_usage split: if_splits)
  next
    case (Detected msg)
    have s: "pdef_endian_detected io msg (m, fs) = (m1, fs1)" using assms(1) Detected by simp
    show ?thesis using detected_event [OF s assms(2)] Detected by simp
  qed
  from all show "done_of p m \<Longrightarrow> done_of p m1 \<and> fs1 p = fs p" by blast
  from all show "p \<noteq> [] \<Longrightarrow> c \<in> active_of p m1 \<longleftrightarrow> e = Used c p \<or> c \<in> active_of p m \<and> e \<noteq> Given_up c p \<and> e \<noteq> Filtered c p"
    by blast
  from all show "fs1 p \<noteq> fs p \<Longrightarrow> done_of p m1 \<and> p \<noteq> [] \<and> active_of p m1 = {} \<and>
      (\<exists>old new d. fs p = Some old \<and> new_endian_text (endian_str d) (read_text old) = Some new \<and> fs1 p = Some new)"
    by blast
qed

lemma active_uses:
  assumes "usage_run es (Map.empty, fs0) = (m, fs)" "plain_path p" "p \<noteq> []"
  shows "c \<in> active_of p m \<longleftrightarrow> uses c p es"
  using assms(1)
proof (induction es arbitrary: m fs rule: rev_induct)
  case Nil
  then have "m = Map.empty" by (simp add: usage_run_def)
  then show ?case by (simp add: usage_simps no_use)
next
  case (snoc x es)
  obtain io e where x: "x = (io, e)" by (cases x)
  obtain m1 fs1 where run: "usage_run es (Map.empty, fs0) = (m1, fs1)" by (cases "usage_run es (Map.empty, fs0)")
  then have "usage_step (io, e) (m1, fs1) = (m, fs)" using snoc.prems x by (simp add: usage_run_def)
  from usage_step_facts(2) [OF this assms(2,3), of c] snoc.IH [OF run] x show ?case by (simp add: uses_snoc)
qed

lemma done_stays:
  assumes "usage_run es (m, fs) = (m1, fs1)" "done_of p m" "plain_path p"
  shows "fs1 p = fs p"
  using assms(1,2)
proof (induction es arbitrary: m fs)
  case (Cons x es)
  obtain io e where x: "x = (io, e)" by (cases x)
  obtain m2 fs2 where st: "usage_step (io, e) (m, fs) = (m2, fs2)" by (cases "usage_step (io, e) (m, fs)")
  then have "usage_run es (m2, fs2) = (m1, fs1)" using Cons.prems x by (simp add: usage_run_def)
  then show ?case using Cons.IH usage_step_facts(1) [OF st assms(3) Cons.prems(2)] by simp
qed (simp add: usage_run_def)

section \<open>Properties\<close>

text \<open>
  C27. A definition file changes only while nobody uses it, and at most once.  Take any run of the events of
  the manager and one more event that changes the text of a file (one that is not the temporary file of
  another).  Then no capture is between its raw and its filtered file with that definition, the new text is
  the old one with one of the two byte orders written into it, and no later event changes the file again.
\<close>

theorem definition_rewritten_once_when_idle:
  assumes "usage_run es (Map.empty, fs0) = (m, fs)" "usage_step (io, e) (m, fs) = (m1, fs1)"
    and "fs1 path \<noteq> fs path" "plain_path path"
  shows "(\<forall>c. \<not> uses c path (es @ [(io, e)])) \<and>
    (\<exists>old new endian. fs path = Some old \<and> fs1 path = Some new \<and> endian \<in> {''big'', ''little''} \<and>
       new_endian_text endian (read_text old) = Some new) \<and>
    (\<forall>es' m2 fs2. usage_run es' (m1, fs1) = (m2, fs2) \<longrightarrow> fs2 path = fs1 path)"
proof -
  from usage_step_facts(3) [OF assms(2,4,3)] obtain old new d where
    step: "done_of path m1" "path \<noteq> []" "active_of path m1 = {}" and
    rewritten: "fs path = Some old" "new_endian_text (endian_str d) (read_text old) = Some new" "fs1 path = Some new" by blast
  have "usage_run (es @ [(io, e)]) (Map.empty, fs0) = (m1, fs1)" using assms(1,2) by (simp add: usage_run_def)
  then have "\<not> uses c path (es @ [(io, e)])" for c
    using active_uses [OF _ assms(4) step(2), of "es @ [(io, e)]" fs0 m1 fs1 c] step(3) by simp
  moreover have "endian_str d \<in> {''big'', ''little''}" by (simp add: endian_str_def)
  ultimately show ?thesis using rewritten done_stays [OF _ step(1) assms(4)] by blast
qed

section \<open>Concrete inputs\<close>

lemma c_str_id: "NUL \<notin> set s \<Longrightarrow> c_str s = s"
  by (induction s) (auto simp: c_str_def)

lemma read_text_id: "NUL \<notin> set s \<Longrightarrow> read_text s = s"
proof -
  assume "NUL \<notin> set s"
  then have "NUL \<notin> set (concat (fgets_lines 4096 s))" by (subst concat_fgets_lines)
  then have "map c_str (fgets_lines 4096 s) = fgets_lines 4096 s" by (intro map_idI c_str_id) auto
  then show ?thesis by (simp add: read_text_def concat_fgets_lines)
qed

definition sample_io :: writeback_io where
  "sample_io = \<lparr>wio_read = True, wio_create = True, wio_written = 4096, wio_rename = True\<rparr>"

definition sample_definition :: string where
  "sample_definition = ''@protocol {}''"

lemma sample_written:
  "new_endian_text ''big'' sample_definition = Some (''@protocol {    endian = big;'' @ [CHR 0x0A] @ ''}'')"
  by (simp add: new_endian_text_def sample_definition_def find_from_def insert_endian_line_def Let_def)

text \<open>A definition detected as big-endian while a capture uses it, written when its filtered file is there.\<close>

lemma definition_rewritten_once_when_idle_witness:
  defines "es \<equiv> [(sample_io, Used 5 ''p''), (sample_io, Detected \<lparr>pe_file_path = ''p'', pe_detected_endian = 1, pe_capture_id = 5\<rparr>)]"
  shows "\<exists>m fs m1 fs1. usage_run es (Map.empty, [''p'' \<mapsto> sample_definition]) = (m, fs) \<and>
    fs ''p'' = Some sample_definition \<and> usage_step (sample_io, Filtered 5 ''p'') (m, fs) = (m1, fs1) \<and>
    fs1 ''p'' = Some (''@protocol {    endian = big;'' @ [CHR 0x0A] @ ''}'') \<and>
    (\<forall>es' m2 fs2. usage_run es' (m1, fs1) = (m2, fs2) \<longrightarrow> fs2 ''p'' = fs1 ''p'')"
proof -
  define info where "info = \<lparr>us_active_capture_ids = {5}, us_detected_endian = 1, us_writeback_needed = True,
    us_writeback_done = False\<rparr>"
  define fs :: file_map where "fs = [''p'' \<mapsto> sample_definition]"
  have run: "usage_run es (Map.empty, fs) = ([''p'' \<mapsto> info], fs)"
    by (simp add: usage_run_def es_def track_pdef_usage_start_def pdef_endian_detected_def usage_simps Let_def
        try_writeback_pdef_endian_def info_def)
  have content: "read_text sample_definition = sample_definition"
    by (rule read_text_id) (simp add: sample_definition_def NUL_def)
  obtain m1 fs1 where step: "usage_step (sample_io, Filtered 5 ''p'') ([''p'' \<mapsto> info], fs) = (m1, fs1)"
    by (cases "usage_step (sample_io, Filtered 5 ''p'') ([''p'' \<mapsto> info], fs)")
  then have new: "fs1 ''p'' = Some (''@protocol {    endian = big;'' @ [CHR 0x0A] @ ''}'')"
    by (auto simp: track_pdef_usage_end_def try_writeback_pdef_endian_def info_def fs_def sample_io_def content
        writeback_endian_to_file_def endian_str_def sample_written Let_def)
  have plain: "plain_path ''p''" by (auto simp: plain_path_def append_eq_Cons_conv)
  have "fs1 ''p'' \<noteq> fs ''p''" using new by (simp add: fs_def sample_definition_def)
  from definition_rewritten_once_when_idle [OF run step this plain] run step new show ?thesis
    by (auto simp: fs_def)
qed

text \<open>The first \<open>endian\<close> may be part of any other name: here a constant loses its value.\<close>

lemma writeback_rewrites_constant:
  "new_endian_text ''big'' ''@const { endian_max = 16; }'' = Some ''@const { endian_max = big; }''"
  by (simp add: new_endian_text_def find_from_def replace_endian_def)

end
