(* ===== verification/Process_Resolver.thy ===== *)
theory Process_Resolver
  imports C_Text
begin

text \<open>
  Finding processes and the ports they listen on, \<open>src/src/rxprocessresolver.cpp\<close>.  The \<open>/proc\<close> file
  system is a parameter: the entries of a directory (name, and whether it is a directory), the texts of
  files and the targets of symbolic links.
\<close>

section \<open>The process file system\<close>

record proc_fs =
  pr_dir :: "string \<Rightarrow> (string \<times> bool) list option"
  pr_file :: "string \<Rightarrow> string option"
  pr_link :: "string \<Rightarrow> string option"
  pr_isdir :: "string \<Rightarrow> bool"

record SProcessInfo =
  pi_pid :: int
  pi_cmdline :: string
  pi_comm :: string
  pi_listening_ports :: "int list"
  pi_netns_path :: string

definition SProcessInfo_new :: SProcessInfo where
  "SProcessInfo_new =
     \<lparr>pi_pid = - 1, pi_cmdline = [], pi_comm = [], pi_listening_ports = [], pi_netns_path = []\<rparr>"

definition ReadFile :: "proc_fs \<Rightarrow> string \<Rightarrow> string" where
  "ReadFile proc path = (case pr_file proc path of None \<Rightarrow> [] | Some content \<Rightarrow> content)"

text \<open>The text of \<open>/proc/<pid><rest>\<close>.\<close>

definition proc_path :: "int \<Rightarrow> string \<Rightarrow> string" where
  "proc_path pid rest = snprintf 256 (''/proc/'' @ fmt_d 0 pid @ rest)"

text \<open>\<open>readlink\<close> into a buffer of 512 bytes.  An empty target and an error are the same to the code.\<close>

definition read_link :: "proc_fs \<Rightarrow> string \<Rightarrow> string option" where
  "read_link proc path =
     (case pr_link proc path of
        None \<Rightarrow> None
      | Some t \<Rightarrow> (let link = c_str (take 511 t) in if take 511 t = [] then None else Some link))"

section \<open>One process\<close>

definition GetNetNsPath :: "proc_fs \<Rightarrow> int \<Rightarrow> string" where
  "GetNetNsPath proc pid =
     (case read_link proc (proc_path pid ''/ns/net'') of Some link \<Rightarrow> link | None \<Rightarrow> [])"

definition GetCmdline :: "proc_fs \<Rightarrow> int \<Rightarrow> string" where
  "GetCmdline proc pid =
     (let content = map (\<lambda>c. if c = NUL then CHR '' '' else c) (ReadFile proc (proc_path pid ''/cmdline''))
      in rev (dropWhile (\<lambda>c. c = CHR '' '') (rev content)))"

definition GetComm :: "proc_fs \<Rightarrow> int \<Rightarrow> string" where
  "GetComm proc pid =
     (let content = ReadFile proc (proc_path pid ''/comm'') in
      if content \<noteq> [] \<and> last content = CHR 0x0A then butlast content else content)"

definition IsProcessAlive :: "proc_fs \<Rightarrow> int \<Rightarrow> bool" where
  "IsProcessAlive proc pid \<longleftrightarrow> (if pid \<le> 0 then False else pr_isdir proc (proc_path pid []))"

section \<open>Listening ports\<close>

text \<open>The inode of a link target \<open>socket:[n]\<close>.\<close>

definition socket_inode :: "string \<Rightarrow> u64 list" where
  "socket_inode target =
     (if starts_with ''socket:['' target
      then (let inode = strtoul 10 (drop 8 target) in if inode > 0 then [inode] else []) else [])"

definition fd_inode :: "proc_fs \<Rightarrow> string \<Rightarrow> string \<Rightarrow> u64 list" where
  "fd_inode proc fd_path name =
     (if name = ''.'' \<or> name = ''..'' then []
      else case read_link proc (snprintf 512 (fd_path @ ''/'' @ name)) of
             None \<Rightarrow> []
           | Some target \<Rightarrow> socket_inode target)"

definition GetSocketInodes :: "proc_fs \<Rightarrow> int \<Rightarrow> u64 list" where
  "GetSocketInodes proc pid =
     (let fd_path = proc_path pid ''/fd'' in
      case pr_dir proc fd_path of
        None \<Rightarrow> []
      | Some entries \<Rightarrow> concat (map (\<lambda>(name, dir). fd_inode proc fd_path name) entries))"

text \<open>The port of one line of the socket table, when it listens and one of the inodes owns it.\<close>

definition parse_tcp_line :: "u64 set \<Rightarrow> string \<Rightarrow> int list" where
  "parse_tcp_line inodes row =
     (let fields = split_words row in
      if length fields < 10 then []
      else
        (let local_address = fields ! 1; st = fields ! 3; inode_str = fields ! 9 in
         case find_char (CHR '':'') local_address of
           None \<Rightarrow> []
         | Some colon \<Rightarrow>
             if colon + 1 \<ge> length local_address then []
             else if st \<noteq> ''0A'' then []
             else
               (let port = to_int32 (fst (strtol 16 (drop (colon + 1) local_address))) in
                if port \<le> 0 then []
                else
                  (let inode = strtoul 10 inode_str in
                   if inode > 0 \<and> inode \<in> inodes then [port] else []))))"

definition ParseTcpFile :: "proc_fs \<Rightarrow> string \<Rightarrow> u64 set \<Rightarrow> int list" where
  "ParseTcpFile proc tcp_file inodes =
     (case pr_file proc tcp_file of
        None \<Rightarrow> []
      | Some content \<Rightarrow> concat (map (parse_tcp_line inodes) (drop 1 (getlines content))))"

definition GetListeningPorts :: "proc_fs \<Rightarrow> int \<Rightarrow> int list" where
  "GetListeningPorts proc pid =
     (if pid \<le> 0 then []
      else
        (let inodes = set (GetSocketInodes proc pid);
             ports = set (ParseTcpFile proc ''/proc/net/tcp'' inodes) \<union> set (ParseTcpFile proc ''/proc/net/tcp6'' inodes)
         in sorted_list_of_set ports))"

definition process_info :: "proc_fs \<Rightarrow> int \<Rightarrow> SProcessInfo" where
  "process_info proc pid =
     \<lparr>pi_pid = pid, pi_cmdline = GetCmdline proc pid, pi_comm = GetComm proc pid,
      pi_listening_ports = GetListeningPorts proc pid, pi_netns_path = GetNetNsPath proc pid\<rparr>"

definition GetProcessInfo :: "proc_fs \<Rightarrow> int \<Rightarrow> bool \<times> SProcessInfo" where
  "GetProcessInfo proc pid =
     (let info = process_info proc pid in (pi_comm info \<noteq> [], info))"

section \<open>Processes by name\<close>

text \<open>The last component of the command, up to the first space.\<close>

definition exe_name :: "string \<Rightarrow> string option" where
  "exe_name cmdline =
     (case rfind_char (CHR ''/'') cmdline of
        None \<Rightarrow> None
      | Some last_slash \<Rightarrow>
          (let exe = drop (last_slash + 1) cmdline in
           case find_char (CHR '' '') exe of Some space \<Rightarrow> Some (take space exe) | None \<Rightarrow> Some exe))"

definition MatchProcessName :: "string \<Rightarrow> string \<Rightarrow> string \<Rightarrow> bool" where
  "MatchProcessName cmdline comm pattern =
     (if pattern = [] then False
      else if comm = pattern then True
      else if find_str pattern comm \<noteq> None then True
      else if find_str pattern cmdline \<noteq> None then True
      else case exe_name cmdline of
             None \<Rightarrow> False
           | Some exe \<Rightarrow> exe = pattern \<or> find_str pattern exe \<noteq> None)"

text \<open>The process id a directory entry stands for.\<close>

definition entry_pid :: "string \<times> bool \<Rightarrow> int option" where
  "entry_pid e =
     (case e of (name, dir) \<Rightarrow>
        if \<not> dir then None
        else (case strtol 10 name of
                (v, rest) \<Rightarrow> if rest \<noteq> [] \<or> to_int32 v \<le> 0 then None else Some (to_int32 v)))"

definition find_entry :: "proc_fs \<Rightarrow> string \<Rightarrow> string \<times> bool \<Rightarrow> SProcessInfo list" where
  "find_entry proc proc_name e =
     (case entry_pid e of
        None \<Rightarrow> []
      | Some pid \<Rightarrow>
          if MatchProcessName (GetCmdline proc pid) (GetComm proc pid) proc_name
          then [process_info proc pid] else [])"

definition FindProcessesByName :: "proc_fs \<Rightarrow> string \<Rightarrow> SProcessInfo list" where
  "FindProcessesByName proc proc_name =
     (if proc_name = [] then []
      else case pr_dir proc ''/proc'' of
             None \<Rightarrow> []
           | Some entries \<Rightarrow> concat (map (find_entry proc proc_name) entries))"

section \<open>Facts\<close>

lemma infix_trans:
  assumes "s = a @ t @ b" "find_str p t \<noteq> None"
  shows "find_str p s \<noteq> None"
proof -
  obtain c d where "t = c @ p @ d" using assms(2) find_str_infix by blast
  then have "s = (a @ c) @ p @ (d @ b)" using assms(1) by simp
  then show ?thesis unfolding find_str_infix by blast
qed

lemma find_str_self: "find_str p p \<noteq> None"
  unfolding find_str_infix by (rule exI [of _ "[]"], rule exI [of _ "[]"]) simp

text \<open>The last two tests add nothing: a process matches when the name occurs in its name or command line.\<close>

lemma exe_name_infix:
  assumes "exe_name cmdline = Some exe"
  shows "\<exists>a b. cmdline = a @ exe @ b"
proof -
  obtain j where j: "exe = drop j cmdline \<or> (\<exists>i. exe = take i (drop j cmdline))"
    using assms by (auto simp: exe_name_def Let_def split: option.splits)
  then show ?thesis by (metis append_Nil2 append_take_drop_id)
qed

lemma match_is_substring:
  "MatchProcessName cmdline comm pattern \<longleftrightarrow>
   pattern \<noteq> [] \<and> (find_str pattern comm \<noteq> None \<or> find_str pattern cmdline \<noteq> None)"
proof -
  have tail: "find_str pattern cmdline \<noteq> None"
    if "exe_name cmdline = Some exe" "exe = pattern \<or> find_str pattern exe \<noteq> None" for exe
  proof -
    have "find_str pattern exe \<noteq> None" using that(2) find_str_self by blast
    then show ?thesis using exe_name_infix [OF that(1)] infix_trans by blast
  qed
  show ?thesis
  proof (cases "exe_name cmdline")
    case None
    then show ?thesis using find_str_self [of pattern] by (auto simp: MatchProcessName_def)
  next
    case (Some exe)
    then show ?thesis using find_str_self [of pattern] tail [of exe]
      by (cases "find_str pattern cmdline"; cases "find_str pattern exe") (auto simp: MatchProcessName_def)
  qed
qed

lemma entry_pid_pos: "entry_pid e = Some pid \<Longrightarrow> 0 < pid"
  by (auto simp: entry_pid_def split: prod.splits if_splits)

lemma find_entry_found:
  assumes "info \<in> set (find_entry proc proc_name e)"
  shows "info = process_info proc (pi_pid info) \<and> 0 < pi_pid info \<and>
    MatchProcessName (pi_cmdline info) (pi_comm info) proc_name"
proof -
  obtain pid where pid: "entry_pid e = Some pid" using assms by (cases "entry_pid e") (auto simp: find_entry_def)
  then have "info = process_info proc pid" "MatchProcessName (GetCmdline proc pid) (GetComm proc pid) proc_name"
    using assms by (auto simp: find_entry_def split: if_splits)
  then show ?thesis using entry_pid_pos [OF pid] by (simp add: process_info_def)
qed

lemma found_process:
  assumes "info \<in> set (FindProcessesByName proc proc_name)"
  shows "info = process_info proc (pi_pid info) \<and> 0 < pi_pid info \<and>
    (find_str proc_name (pi_comm info) \<noteq> None \<or> find_str proc_name (pi_cmdline info) \<noteq> None)"
proof -
  obtain e where "info \<in> set (find_entry proc proc_name e)"
    using assms by (auto simp: FindProcessesByName_def split: if_splits option.splits)
  then show ?thesis using find_entry_found match_is_substring by metis
qed

lemma listening_ports_sound:
  "p \<in> set (GetListeningPorts proc pid) \<longleftrightarrow> pid > 0 \<and>
   (\<exists>tab \<in> {''/proc/net/tcp'', ''/proc/net/tcp6''}. p \<in> set (ParseTcpFile proc tab (set (GetSocketInodes proc pid))))"
  by (simp add: GetListeningPorts_def Let_def)

lemma parse_tcp_line_sound:
  "p \<in> set (parse_tcp_line inodes row) \<longleftrightarrow>
   (\<exists>fields k. split_words row = fields \<and> 10 \<le> length fields \<and> fields ! 3 = ''0A'' \<and>
      find_char (CHR '':'') (fields ! 1) = Some k \<and> k + 1 < length (fields ! 1) \<and>
      p = to_int32 (fst (strtol 16 (drop (k + 1) (fields ! 1)))) \<and> 0 < p \<and>
      0 < strtoul 10 (fields ! 9) \<and> strtoul 10 (fields ! 9) \<in> inodes)"
  by (cases "find_char (CHR '':'') (split_words row ! 1)") (auto simp: parse_tcp_line_def Let_def not_less not_le)

end
