(* ===== verification/Manager_Text.thy ===== *)
theory Manager_Text
  imports Process_Resolver Manager_Messages Task_Manager
begin

text \<open>
  The helpers at the top of \<open>src/src/rxcapturemanagerthread.cpp\<close>: names of modes and states, capture hints,
  the JSON text of a capture request and its hash, the port a filter names, numbers in text, and the
  functions applied to stored tasks.
\<close>

section \<open>Names\<close>

fun capture_status_to_string :: "ECaptureTaskStatus \<Rightarrow> string" where
  "capture_status_to_string STATUS_PENDING = ''pending''"
| "capture_status_to_string STATUS_RESOLVING = ''resolving''"
| "capture_status_to_string STATUS_RUNNING = ''running''"
| "capture_status_to_string STATUS_COMPLETED = ''completed''"
| "capture_status_to_string STATUS_FAILED = ''failed''"
| "capture_status_to_string STATUS_STOPPED = ''stopped''"

fun capture_mode_to_string :: "ECaptureMode \<Rightarrow> string" where
  "capture_mode_to_string MODE_INTERFACE = ''interface''"
| "capture_mode_to_string MODE_PROCESS = ''process''"
| "capture_mode_to_string MODE_PID = ''pid''"
| "capture_mode_to_string MODE_CONTAINER = ''container''"

section \<open>Text\<close>

text \<open>The function is the same as \<open>json_escape_local\<close> of the cleanup thread.\<close>

definition json_escape :: "string \<Rightarrow> string" where
  "json_escape input = concat (map json_escape_char input)"

definition trim_copy :: "string \<Rightarrow> string" where
  "trim_copy v = trim_by isspace v"

definition to_lower_copy :: "string \<Rightarrow> string" where
  "to_lower_copy v = map tolower v"

definition strip_quotes_copy :: "string \<Rightarrow> string" where
  "strip_quotes_copy v =
     (if length v \<ge> 2 \<and> hd v = last v \<and> (hd v = quote_char \<or> hd v = CHR 0x27) then butlast (tl v) else v)"

text \<open>One word of a hint: \<open>key:value\<close> or \<open>key=value\<close>.\<close>

definition add_hint_pair :: "string \<Rightarrow> (string \<rightharpoonup> string) \<Rightarrow> (string \<rightharpoonup> string)" where
  "add_hint_pair tok pairs =
     (let name = takeWhile (\<lambda>c. c \<noteq> CHR '':'' \<and> c \<noteq> CHR ''='') tok in
      if length name = length tok then pairs
      else pairs(to_lower_copy (trim_copy name) \<mapsto> strip_quotes_copy (trim_copy (drop (length name + 1) tok))))"

definition parse_capture_hint_pairs :: "string \<Rightarrow> (string \<rightharpoonup> string)" where
  "parse_capture_hint_pairs hint =
     (let normalized = map (\<lambda>c. if c = CHR '','' \<or> c = CHR '';'' then CHR '' '' else c) hint in
      fold add_hint_pair (split_words normalized) Map.empty)"

text \<open>
  The characters \<open>StringTrim\<close> of \<open>src/core/legacy_core_common.cpp\<close> removes.  On a text of such characters
  only the code reads the byte before the text, but not its value.
\<close>

definition trim_char :: "char \<Rightarrow> bool" where
  "trim_char c \<longleftrightarrow> c = CHR '' '' \<or> c = CHR 0x09 \<or> c = CHR 0x0D \<or> c = CHR 0x0A"

definition StringTrim :: "string \<Rightarrow> string" where
  "StringTrim s = trim_by trim_char s"

definition normalize_filter_for_signature :: "string \<Rightarrow> string" where
  "normalize_filter_for_signature flt = StringTrim flt"

section \<open>JSON fields\<close>

text \<open>The stream and the flag \<open>first\<close>: every field but the first is preceded by a comma.\<close>

type_synonym json_out = "string \<times> bool"

definition put_field :: "string \<Rightarrow> string \<Rightarrow> json_out \<Rightarrow> json_out" where
  "put_field key v st =
     (case st of (oss, first) \<Rightarrow>
        (oss @ (if first then [] else '','') @ [quote_char] @ key @ [quote_char, CHR '':''] @ v, False))"

definition append_json_str_field :: "string \<Rightarrow> string \<Rightarrow> json_out \<Rightarrow> json_out" where
  "append_json_str_field key v st =
     (if v = [] then st else put_field key ([quote_char] @ json_escape v @ [quote_char]) st)"

definition append_json_int_field :: "string \<Rightarrow> int \<Rightarrow> bool \<Rightarrow> json_out \<Rightarrow> json_out" where
  "append_json_int_field key v include_zero st =
     (if \<not> include_zero \<and> v = 0 then st else put_field key (fmt_d 0 v) st)"

definition append_json_bool_field :: "string \<Rightarrow> bool \<Rightarrow> json_out \<Rightarrow> json_out" where
  "append_json_bool_field key v st = put_field key (if v then ''true'' else ''false'') st"

fun comma_separated :: "string list \<Rightarrow> string" where
  "comma_separated [] = []"
| "comma_separated [x] = x"
| "comma_separated (x # xs) = x @ '','' @ comma_separated xs"

definition append_json_int_array_field :: "string \<Rightarrow> int list \<Rightarrow> json_out \<Rightarrow> json_out" where
  "append_json_int_array_field key vs st =
     (if vs = [] then st else put_field key (''['' @ comma_separated (map (fmt_d 0) vs) @ '']'') st)"

section \<open>The signature of a capture\<close>

definition matched_pids_of :: "SProcessInfo list \<Rightarrow> int list" where
  "matched_pids_of matched = remdups_adj (sort (filter (\<lambda>p. p > 0) (map pi_pid matched)))"

text \<open>The fields every signature has, in order, and those of its mode.\<close>

definition signature_common :: "CaptureSpec \<Rightarrow> CaptureConfigSnapshot \<Rightarrow> json_out \<Rightarrow> json_out" where
  "signature_common spec cfg st =
     (let s1 = append_json_str_field ''mode'' (capture_mode_to_string (sp_capture_mode spec)) st;
          s2 = append_json_str_field ''iface'' (sp_iface spec) s1;
          s3 = append_json_str_field ''resolved_iface'' (sp_resolved_iface spec) s2;
          s4 = append_json_str_field ''category'' (sp_category spec) s3;
          s5 = append_json_str_field ''output_pattern''
            (if sp_output_pattern spec = [] then cc_filename_template cfg else sp_output_pattern spec) s4;
          s6 = append_json_str_field ''output_dir'' (cc_output_dir cfg) s5;
          s7 = append_json_str_field ''filter'' (normalize_filter_for_signature (sp_filter spec)) s6;
          s8 = append_json_str_field ''protocol_filter'' (sp_protocol_filter spec) s7;
          s9 = append_json_str_field ''ip_filter'' (sp_ip_filter spec) s8
      in append_json_int_field ''port_filter'' (sp_port_filter spec) False s9)"

definition effective_limit :: "int \<Rightarrow> int \<Rightarrow> int" where
  "effective_limit v dflt = (if v > 0 then v else dflt)"

definition signature_limits :: "CaptureSpec \<Rightarrow> CaptureConfigSnapshot \<Rightarrow> json_out \<Rightarrow> json_out" where
  "signature_limits spec cfg st =
     (let put = (\<lambda>key v s. if v > 0 then append_json_int_field key v False s else s);
          s1 = put ''max_duration_sec'' (effective_limit (sp_max_duration_sec spec) (cc_max_duration_sec cfg)) st;
          s2 = put ''max_bytes'' (effective_limit (sp_max_bytes spec) (cc_max_bytes cfg)) s1
      in put ''max_packets'' (effective_limit (sp_max_packets spec) (cc_max_packets cfg)) s2)"

definition signature_storage :: "CaptureSpec \<Rightarrow> CaptureConfigSnapshot \<Rightarrow> json_out \<Rightarrow> json_out" where
  "signature_storage spec cfg st =
     (let s1 = append_json_int_field ''snaplen'' (sp_snaplen spec) True st;
          s2 = append_json_bool_field ''compress_enabled'' (cc_compress_enabled cfg) s1;
          s3 = append_json_int_field ''compress_threshold_mb'' (cc_compress_threshold_mb cfg) True s2;
          s4 = append_json_str_field ''compress_format'' (cc_compress_format cfg) s3;
          s5 = append_json_bool_field ''compress_remove_src'' (cc_compress_remove_src cfg) s4
      in append_json_str_field ''netns_path'' (sp_netns_path spec) s5)"

definition signature_target :: "CaptureSpec \<Rightarrow> SProcessInfo list \<Rightarrow> json_out \<Rightarrow> json_out" where
  "signature_target spec matched st =
     (case sp_capture_mode spec of
        MODE_PROCESS \<Rightarrow>
          append_json_int_array_field ''matched_pids'' (matched_pids_of matched)
            (append_json_str_field ''proc_name'' (sp_proc_name spec) st)
      | MODE_PID \<Rightarrow>
          (if sp_target_pid spec > 0 then append_json_int_field ''target_pid'' (sp_target_pid spec) True st else st)
      | MODE_CONTAINER \<Rightarrow> append_json_str_field ''container_id'' (sp_container_id spec) st
      | MODE_INTERFACE \<Rightarrow> st)"

definition build_capture_signature ::
  "CaptureSpec \<Rightarrow> CaptureConfigSnapshot \<Rightarrow> SProcessInfo list \<Rightarrow> string" where
  "build_capture_signature spec cfg matched =
     fst (signature_target spec matched (signature_storage spec cfg (signature_limits spec cfg
       (signature_common spec cfg (''{'', True))))) @ ''}''"

text \<open>The 64-bit FNV-1a hash of the text, as 16 hexadecimal digits.\<close>

definition fnv1a_64 :: "string \<Rightarrow> u64" where
  "fnv1a_64 s = fold (\<lambda>c h. (h XOR of_nat (of_char c)) * 1099511628211) s 1469598103934665603"

definition hex16 :: "u64 \<Rightarrow> string" where
  "hex16 w = map (\<lambda>i. hex_digit (unat (drop_bit (4 * i) w AND 15))) (rev [0..<16])"

text \<open>The session id: the signature and the local time to the millisecond.\<close>

definition make_sid_with_timestamp :: "(int \<Rightarrow> tm) \<Rightarrow> (int \<Rightarrow> int) \<Rightarrow> int \<Rightarrow> string \<Rightarrow> string" where
  "make_sid_with_timestamp localtime local_sec now_usec signature =
     (let secs = now_usec div 1000000; t = localtime secs; millis = (now_usec div 1000) mod 1000 in
      signature @ fmt_d 4 (tm_year t + 1900) @ fmt_d 2 (tm_mon t + 1) @ fmt_d 2 (tm_mday t) @
      fmt_d 2 (tm_hour t) @ fmt_d 2 (tm_min t) @ fmt_d 2 (local_sec secs) @ fmt_d 3 millis)"

section \<open>The port a filter names\<close>

text \<open>The number after the word \<open>port\<close>, with white space, a sign of assignment and a sign skipped.\<close>

definition port_number :: "string \<Rightarrow> int option" where
  "port_number rest =
     (let r1 = dropWhile isspace rest;
          r2 = (if r1 \<noteq> [] \<and> (hd r1 = CHR ''='' \<or> hd r1 = CHR '':'') then dropWhile isspace (tl r1) else r1);
          r3 = (if r2 \<noteq> [] \<and> (hd r2 = CHR ''+'' \<or> hd r2 = CHR ''-'') then tl r2 else r2);
          num = takeWhile isdigit r3
      in if num = [] then None else Some (atoi num))"

lemma find_port_in: "find_str ''port'' (drop start flt) = Some k \<Longrightarrow> start < length flt"
  by (rule ccontr) simp

function infer_loop :: "string \<Rightarrow> nat \<Rightarrow> int \<Rightarrow> int" where
  "infer_loop flt start found_port =
     (case find_str ''port'' (drop start flt) of
        None \<Rightarrow> found_port
      | Some k \<Rightarrow>
          (let hit = start + k in
           if hit > 0 \<and> (isalnum (flt ! (hit - 1)) \<or> flt ! (hit - 1) = CHR ''_'')
           then infer_loop flt (hit + 4) found_port
           else case port_number (drop (hit + 4) flt) of
                  None \<Rightarrow> infer_loop flt (hit + 4) found_port
                | Some port \<Rightarrow>
                    if 0 < port \<and> port \<le> 65535
                    then if found_port = 0 then infer_loop flt (hit + 4) port
                         else if port \<noteq> found_port then 0 else infer_loop flt (hit + 4) found_port
                    else infer_loop flt (hit + 4) found_port))"
  by pat_completeness auto

termination
  by (relation "measure (\<lambda>(flt, start, found). length flt - start)") (auto dest: find_port_in)

declare infer_loop.simps [simp del]

definition infer_port_from_filter :: "string \<Rightarrow> int" where
  "infer_port_from_filter flt = (if flt = [] then 0 else infer_loop flt 0 0)"

section \<open>Numbers in text\<close>

definition parse_long_value :: "string \<Rightarrow> int option" where
  "parse_long_value txt =
     (let s = c_str txt in
      case scan_number 10 s of
        None \<Rightarrow> None
      | Some _ \<Rightarrow> (case strtol 10 s of (v, rest) \<Rightarrow> if rest \<noteq> [] then None else Some v))"

definition parse_int_value :: "string \<Rightarrow> int option" where
  "parse_int_value txt = map_option to_int32 (parse_long_value txt)"

section \<open>Functions applied to stored tasks\<close>

definition AssignWorkerFunctor :: "u32 \<Rightarrow> SRxCaptureTask \<Rightarrow> SRxCaptureTask" where
  "AssignWorkerFunctor worker_id task =
     (let t = task\<lparr>t_worker_thread_index := worker_id, t_stop_requested := False, t_cancel_requested := False\<rparr> in
      if t_status t = STATUS_PENDING then t\<lparr>t_status := STATUS_RESOLVING\<rparr> else t)"

definition MarkStopFunctor :: "bool \<Rightarrow> SRxCaptureTask \<Rightarrow> SRxCaptureTask" where
  "MarkStopFunctor flag task =
     (let t = task\<lparr>t_stop_requested := flag\<rparr> in if flag then t\<lparr>t_cancel_requested := False\<rparr> else t)"

text \<open>\<open>now\<close> is the clock, read when the time stamp is not positive.\<close>

definition MarkStoppedFunctor ::
  "int \<Rightarrow> int \<Rightarrow> u64 \<Rightarrow> u64 \<Rightarrow> string \<Rightarrow> SRxCaptureTask \<Rightarrow> SRxCaptureTask" where
  "MarkStoppedFunctor now ts packets bytes_n message task =
     task\<lparr>t_end_time := (if ts \<le> 0 then now else ts div 1000000), t_packet_count := packets,
          t_bytes_captured := bytes_n, t_error_message := message, t_stop_requested := False\<rparr>"

definition UpdateTaskFunctor :: "SRxTaskUpdateMsg \<Rightarrow> SRxCaptureTask \<Rightarrow> SRxCaptureTask" where
  "UpdateTaskFunctor msg task =
     (let t1 = task\<lparr>t_status := up_new_status msg\<rparr>;
          t2 = (if up_update_capture_pid msg then t1\<lparr>t_capture_pid := up_capture_pid msg\<rparr> else t1);
          t3 = (if up_update_output_file msg then t2\<lparr>t_output_file := up_output_file msg\<rparr> else t2);
          t4 = (if up_update_start_time msg then t3\<lparr>t_start_time := up_start_time msg\<rparr> else t3);
          t5 = (if up_update_end_time msg then t4\<lparr>t_end_time := up_end_time msg\<rparr> else t4);
          t6 = (if up_update_stats msg
                then t5\<lparr>t_packet_count := up_packet_count msg, t_bytes_captured := up_bytes_captured msg\<rparr> else t5)
      in if up_update_error msg then t6\<lparr>t_error_message := up_error_message msg\<rparr> else t6)"

section \<open>Facts\<close>

text \<open>The port found is a port number, or none.\<close>

definition port_or_none :: "int \<Rightarrow> bool" where
  "port_or_none p \<longleftrightarrow> 0 \<le> p \<and> p \<le> 65535"

lemma infer_loop_port: "port_or_none found \<Longrightarrow> port_or_none (infer_loop flt start found)"
proof (induction flt start found rule: infer_loop.induct)
  case (1 flt start found)
  show ?case
  proof (cases "find_str ''port'' (drop start flt)")
    case None
    then show ?thesis using 1(6) by (simp add: infer_loop.simps [of flt start])
  next
    case (Some k)
    define hit where "hit = start + k"
    note IH = 1(1-5) [OF Some hit_def]
    show ?thesis
    proof (cases "hit > 0 \<and> (isalnum (flt ! (hit - 1)) \<or> flt ! (hit - 1) = CHR ''_'')")
      case True
      then show ?thesis using Some IH(1) 1(6) by (simp add: infer_loop.simps [of flt start] hit_def)
    next
      case False
      note IH' = IH(2-5) [OF False]
      have step: "infer_loop flt start found =
          (case port_number (drop (hit + 4) flt) of
             None \<Rightarrow> infer_loop flt (hit + 4) found
           | Some port \<Rightarrow>
               if 0 < port \<and> port \<le> 65535
               then if found = 0 then infer_loop flt (hit + 4) port
                    else if port \<noteq> found then 0 else infer_loop flt (hit + 4) found
               else infer_loop flt (hit + 4) found)"
        using Some False by (subst infer_loop.simps) (simp only: option.case Let_def hit_def if_False)
      show ?thesis
      proof (cases "port_number (drop (hit + 4) flt)")
        case None
        then show ?thesis using IH'(1) 1(6) step by simp
      next
        case (Some p)
        have "0 < p \<and> p \<le> 65535 \<Longrightarrow> port_or_none p" "port_or_none 0" by (simp_all add: port_or_none_def)
        then show ?thesis using IH'(2-4) [OF Some] 1(6) step Some by (auto split del: if_split split: if_split)
      qed
    qed
  qed
qed

lemma infer_port_bounds: "0 \<le> infer_port_from_filter flt \<and> infer_port_from_filter flt \<le> 65535"
  using infer_loop_port [of 0 flt 0] by (simp add: infer_port_from_filter_def port_or_none_def)

lemma sorted_adj_distinct: "sorted (xs :: int list) \<Longrightarrow> distinct (remdups_adj xs)"
  by (induction xs rule: remdups_adj.induct) (auto simp: less_le)

lemma matched_pids_sorted: "sorted (matched_pids_of matched)" "distinct (matched_pids_of matched)"
  "set (matched_pids_of matched) = {p \<in> pi_pid ` set matched. 0 < p}"
  by (auto simp: matched_pids_of_def sorted_remdups_adj sorted_adj_distinct)

end
