(* ===== verification/Capture_Start.thy ===== *)
theory Capture_Start
  imports Manager_Text Proc_Data Pdef_Usage
begin

text \<open>
  The capture manager thread, \<open>src/src/rxcapturemanagerthread.cpp\<close>, first part: its state, the start of its
  threads, and the request to start a capture.  The messages a handler sends are appended to \<open>mt_out\<close> with
  their targets; what the code reads from outside during a handler (clock, processes, results of file
  operations) is the record \<open>mgr_env\<close>, one reading of each clock for one handler.  The static counters of
  the C++ functions are fields.  \<open>CRxProcData::instance\<close> never returns a null pointer (it ends the process
  instead), so the tests for it are left out.
\<close>

section \<open>State\<close>

record mgr_env =
  me_now :: int
  me_now_usec :: int
  me_now_ms :: u64
  me_localtime :: "int \<Rightarrow> tm"
  me_local_sec :: "int \<Rightarrow> int"
  me_proc :: proc_fs
  me_thread_index :: u32
  me_io :: writeback_io

datatype mgr_out =
  O_capture rx_msg
| O_request SRxStartCaptureMsg
| O_reply SRxHttpReplyMsg
| O_sample SRxSampleMsg

record CRxCaptureManagerThread =
  mt_is_first :: bool
  mt_capture_threads :: "u32 list"
  mt_filter_threads :: "u32 list"
  mt_worker_thd_vec :: "u32 list"
  mt_module_last_trigger :: "string \<rightharpoonup> int"
  mt_pdef_usage_map :: usage_map
  mt_timers :: "(int \<times> u32) list"
  mt_next_capture_id :: int
  mt_next_worker :: u64
  mt_next_filter :: u64
  mt_data :: CRxProcData
  mt_files :: file_map
  mt_out :: "(ObjId \<times> mgr_out) list"

definition kCaptureIdStartValue :: int where
  "kCaptureIdStartValue = 1000"

definition kMinConcurrentCaptures :: int where
  "kMinConcurrentCaptures = 1"

definition kFallbackDurationSec :: int where
  "kFallbackDurationSec = 60"

definition OBJ_ID_THREAD :: u32 where
  "OBJ_ID_THREAD = 1"

definition CRxCaptureManagerThread_new :: "CRxProcData \<Rightarrow> file_map \<Rightarrow> CRxCaptureManagerThread" where
  "CRxCaptureManagerThread_new pd fs =
     \<lparr>mt_is_first = False, mt_capture_threads = [], mt_filter_threads = [], mt_worker_thd_vec = [],
      mt_module_last_trigger = Map.empty, mt_pdef_usage_map = Map.empty, mt_timers = [],
      mt_next_capture_id = kCaptureIdStartValue, mt_next_worker = 0, mt_next_filter = 0, mt_data = pd,
      mt_files = fs, mt_out = []\<rparr>"

abbreviation task_mgr :: "CRxCaptureManagerThread \<Rightarrow> CRxSafeTaskMgr" where
  "task_mgr st \<equiv> pd_task_mgr (mt_data st)"

definition set_task_mgr :: "CRxSafeTaskMgr \<Rightarrow> CRxCaptureManagerThread \<Rightarrow> CRxCaptureManagerThread" where
  "set_task_mgr m st = st\<lparr>mt_data := (mt_data st)\<lparr>pd_task_mgr := m\<rparr>\<rparr>"

text \<open>An operation of the task manager whose result is not used.\<close>

definition with_mgr ::
  "(CRxSafeTaskMgr \<Rightarrow> mem_fault + bool \<times> CRxSafeTaskMgr) \<Rightarrow> CRxCaptureManagerThread \<Rightarrow>
   mem_fault + CRxCaptureManagerThread" where
  "with_mgr f st = try_then (f (task_mgr st)) (\<lambda>(b, m). Inr (set_task_mgr m st))"

definition put_obj_msg :: "ObjId \<Rightarrow> mgr_out \<Rightarrow> CRxCaptureManagerThread \<Rightarrow> CRxCaptureManagerThread" where
  "put_obj_msg target m st = st\<lparr>mt_out := mt_out st @ [(target, m)]\<rparr>"

definition to_thread :: "u32 \<Rightarrow> ObjId" where
  "to_thread thread_index = \<lparr>obj_id = OBJ_ID_THREAD, obj_thread_index = thread_index\<rparr>"

section \<open>Starting the thread\<close>

definition add_worker_thread :: "u32 \<Rightarrow> CRxCaptureManagerThread \<Rightarrow> CRxCaptureManagerThread" where
  "add_worker_thread thread_index st = st\<lparr>mt_worker_thd_vec := mt_worker_thd_vec st @ [thread_index]\<rparr>"

text \<open>
  Thread \<open>i\<close> that could be made and started has the index \<open>worker i\<close>; a thread that could not is left out.
\<close>

definition start_workers :: "(nat \<Rightarrow> u32 option) \<Rightarrow> nat \<Rightarrow> CRxCaptureManagerThread \<Rightarrow> CRxCaptureManagerThread" where
  "start_workers worker n st =
     fold (\<lambda>i s. case worker i of
                   None \<Rightarrow> s
                 | Some k \<Rightarrow> add_worker_thread k (s\<lparr>mt_capture_threads := mt_capture_threads s @ [k]\<rparr>))
       [0..<n] st"

definition manager_start ::
  "bool \<Rightarrow> (nat \<Rightarrow> u32 option) \<Rightarrow> u32 option \<Rightarrow> CRxCaptureManagerThread \<Rightarrow> bool \<times> CRxCaptureManagerThread" where
  "manager_start started worker filter_thread st =
     (if \<not> started then (False, st)
      else case pd_conf (mt_data st) of
             None \<Rightarrow> (False, st)
           | Some cfg \<Rightarrow>
               (let n = (if sc_capture_threads cfg \<le> 0 then 2 else sc_capture_threads cfg);
                    st1 = start_workers worker (nat n) st
                in (True, case filter_thread of
                            None \<Rightarrow> st1
                          | Some k \<Rightarrow> st1\<lparr>mt_filter_threads := mt_filter_threads st1 @ [k]\<rparr>)))"

section \<open>Replies\<close>

definition dq :: "string \<Rightarrow> string" where
  "dq s = [quote_char] @ s @ [quote_char]"

text \<open>A member of a JSON object.\<close>

definition json_pair :: "string \<Rightarrow> string \<Rightarrow> string" where
  "json_pair key value = dq key @ '':'' @ value"

definition json_reply :: "int \<Rightarrow> string \<Rightarrow> string \<Rightarrow> SRxHttpReplyMsg \<Rightarrow> SRxHttpReplyMsg" where
  "json_reply status reason body reply =
     reply\<lparr>hr_status := status, hr_reason := reason,
           hr_headers := sm_put ''Content-Type'' ''application/json'' (hr_headers reply), hr_body := body\<rparr>"

definition new_reply :: "ObjId \<Rightarrow> SRxHttpReplyMsg" where
  "new_reply target = SRxHttpReplyMsg_new\<lparr>hr_conn_id := obj_id target\<rparr>"

definition send_reply_to_http :: "ObjId \<Rightarrow> SRxHttpReplyMsg \<Rightarrow> CRxCaptureManagerThread \<Rightarrow> CRxCaptureManagerThread" where
  "send_reply_to_http reply_target reply st =
     (if obj_thread_index reply_target > 0 then put_obj_msg reply_target (O_reply reply) st else st)"

definition create_duplicate_error_reply ::
  "string \<Rightarrow> string \<Rightarrow> int \<Rightarrow> string \<Rightarrow> SRxHttpReplyMsg \<Rightarrow> SRxHttpReplyMsg" where
  "create_duplicate_error_reply task_key sid existing_id status =
     json_reply 409 ''Conflict''
       (''{'' @ json_pair ''error'' (dq ''duplicate capture task'') @
        '','' @ json_pair ''key'' (dq (json_escape task_key)) @
        (if sid \<noteq> [] then '','' @ json_pair ''sid'' (dq (json_escape sid)) else []) @
        '','' @ json_pair ''existing_capture_id'' (fmt_d 0 existing_id) @
        '','' @ json_pair ''status'' (dq (json_escape status)) @ ''}'')"

definition create_capacity_error_reply :: "int \<Rightarrow> SRxHttpReplyMsg \<Rightarrow> SRxHttpReplyMsg" where
  "create_capacity_error_reply max_concurrent =
     json_reply 429 ''Too Many Requests''
       (snprintf 256 (''{'' @ json_pair ''error'' (dq ''capture capacity reached'') @
          '','' @ json_pair ''max_concurrent'' (fmt_d 0 max_concurrent) @ ''}''))"

section \<open>The processes of a request\<close>

text \<open>The processes found, or the error reply.\<close>

definition resolve_target_processes :: "proc_fs \<Rightarrow> SRxStartCaptureMsg \<Rightarrow> SRxHttpReplyMsg + SProcessInfo list" where
  "resolve_target_processes pr msg =
     (case rq_capture_mode msg of
        MODE_PROCESS \<Rightarrow>
          (let matched = FindProcessesByName pr (rq_proc_name msg) in
           if matched = []
           then Inl (json_reply 404 ''Not Found''
                  (snprintf 256 (''{'' @ json_pair ''error'' (dq ''process not found'') @ '','' @
                     json_pair ''proc_name'' (dq (c_str (rq_proc_name msg))) @ ''}''))
                  (new_reply (rq_reply_target msg)))
           else Inr matched)
      | MODE_PID \<Rightarrow>
          (case GetProcessInfo pr (rq_target_pid msg) of (found, proc_info) \<Rightarrow>
             if \<not> found
             then Inl (json_reply 404 ''Not Found''
                    (snprintf 256 (''{'' @ json_pair ''error'' (dq ''pid not found'') @ '','' @
                       json_pair ''pid'' (fmt_d 0 (rq_target_pid msg)) @ ''}''))
                    (new_reply (rq_reply_target msg)))
             else Inr [proc_info])
      | _ \<Rightarrow> Inr [])"

text \<open>The ports the processes listen on, in ascending order, and the packet filter for them.\<close>

definition listening_set :: "SProcessInfo list \<Rightarrow> int list" where
  "listening_set matched = remdups_adj (sort (filter (\<lambda>p. p > 0) (concat (map pi_listening_ports matched))))"

fun ports_filter :: "int list \<Rightarrow> string" where
  "ports_filter [] = []"
| "ports_filter [p] = ''port '' @ fmt_d 0 p"
| "ports_filter (p # ps) = ''port '' @ fmt_d 0 p @ '' or '' @ ports_filter ps"

definition auto_filter :: "SProcessInfo list \<Rightarrow> SRxStartCaptureMsg \<Rightarrow> SRxStartCaptureMsg" where
  "auto_filter matched msg =
     (if rq_capture_mode msg = MODE_PROCESS \<and> rq_filter msg = [] \<and> rq_proc_name msg \<noteq> []
      then (let ports = listening_set matched in
            if ports \<noteq> []
            then msg\<lparr>rq_filter := ports_filter ports,
                     rq_port_filter := (if rq_port_filter msg = 0 \<and> length ports = 1 then hd ports
                                        else rq_port_filter msg)\<rparr>
            else msg)
      else msg)"

definition infer_port :: "SRxStartCaptureMsg \<Rightarrow> SRxStartCaptureMsg" where
  "infer_port msg =
     (if rq_port_filter msg \<le> 0 \<and> rq_filter msg \<noteq> []
      then (let inferred_port = infer_port_from_filter (rq_filter msg) in
            if inferred_port > 0 then msg\<lparr>rq_port_filter := inferred_port\<rparr> else msg)
      else msg)"

definition generate_task_key :: "SRxStartCaptureMsg \<Rightarrow> string" where
  "generate_task_key msg =
     (case rq_capture_mode msg of
        MODE_INTERFACE \<Rightarrow> snprintf 512 (''iface:'' @ c_str (rq_iface msg) @ '':'' @ c_str (rq_filter msg))
      | MODE_PROCESS \<Rightarrow>
          snprintf 512 (''proc:'' @ c_str (rq_proc_name msg) @ '':'' @ c_str (rq_filter msg) @ '':'' @
            fmt_d 0 (rq_port_filter msg))
      | MODE_PID \<Rightarrow> snprintf 512 (''pid:'' @ fmt_d 0 (rq_target_pid msg))
      | MODE_CONTAINER \<Rightarrow> snprintf 512 (''container:'' @ c_str (rq_container_id msg) @ '':'' @ c_str (rq_filter msg)))"

section \<open>Duplicates and capacity\<close>

text \<open>The id and status of an active task with the key.\<close>

definition check_task_duplicate :: "CRxSafeTaskMgr \<Rightarrow> string \<Rightarrow> mem_fault + (int \<times> string) option" where
  "check_task_duplicate m task_key =
     try_then (is_key_active m task_key) (\<lambda>active.
       if \<not> active then Inr None
       else try_then (mgr_query_task_by_key m task_key) (\<lambda>sn.
         Inr (Some (case sn of
                      Some s \<Rightarrow> (sn_capture_id s, capture_status_to_string (sn_status s))
                    | None \<Rightarrow> (0, ''unknown'')))))"

text \<open>
  The id, status, key and session of the task a request duplicates: one with the same signature, else one
  with the same key.  Key and session are those of the request when the task has none.
\<close>

definition find_duplicate ::
  "CRxSafeTaskMgr \<Rightarrow> string \<Rightarrow> string \<Rightarrow> string \<Rightarrow> mem_fault + (int \<times> string \<times> string \<times> string) option" where
  "find_duplicate m signature task_key sid =
     (let names = (\<lambda>existing. case existing of
            None \<Rightarrow> (task_key, sid)
          | Some s \<Rightarrow> (if sn_key s = [] then task_key else sn_key s, if sn_sid s = [] then sid else sn_sid s))
      in try_then (query_active_task_by_signature m signature) (\<lambda>by_signature.
         case by_signature of
           Some s \<Rightarrow> Inr (Some (sn_capture_id s, capture_status_to_string (sn_status s), names (Some s)))
         | None \<Rightarrow>
             try_then (check_task_duplicate m task_key) (\<lambda>by_key.
               case by_key of
                 None \<Rightarrow> Inr None
               | Some (existing_id, existing_status) \<Rightarrow>
                   try_then (if existing_id > 0 then mgr_query_task m existing_id else Inr None) (\<lambda>existing.
                     Inr (Some (existing_id, existing_status, names existing))))))"

definition get_max_concurrent_limit :: "CRxProcData \<Rightarrow> int" where
  "get_max_concurrent_limit pd =
     (let max_concurrent = (case pd_conf pd of
                              None \<Rightarrow> 0 | Some cfg \<Rightarrow> lm_max_concurrent_captures (sc_limits_config cfg))
      in if max_concurrent \<le> 0 then kMinConcurrentCaptures else max_concurrent)"

text \<open>Running (resolving ones included) and pending tasks.\<close>

definition count_active_tasks :: "CRxSafeTaskMgr \<Rightarrow> u64 \<times> u64" where
  "count_active_tasks m =
     (let stats = get_stats m in (running_count stats + resolving_count stats, pending_count stats))"

section \<open>The new task\<close>

definition next_id :: "CRxCaptureManagerThread \<Rightarrow> int \<times> CRxCaptureManagerThread" where
  "next_id st =
     (let n = mt_next_capture_id st in
      if n < kCaptureIdStartValue then (kCaptureIdStartValue, st)
      else (n, st\<lparr>mt_next_capture_id := to_int32 (n + 1)\<rparr>))"

definition task_for ::
  "int \<Rightarrow> int \<Rightarrow> SRxStartCaptureMsg \<Rightarrow> string \<Rightarrow> string \<Rightarrow> string \<Rightarrow> SProcessInfo list \<Rightarrow> SRxCaptureTask" where
  "task_for now capture_id msg task_key signature sid matched =
     SRxCaptureTask_new\<lparr>t_capture_id := capture_id, t_key := task_key, t_capture_mode := rq_capture_mode msg,
       t_iface := rq_iface msg, t_proc_name := rq_proc_name msg, t_target_pid := rq_target_pid msg,
       t_container_id := rq_container_id msg, t_resolved_iface := rq_iface msg,
       t_netns_path := foldl (\<lambda>n p. if n = [] then pi_netns_path p else n) (rq_netns_path msg) matched,
       t_matched_pids := map pi_pid matched,
       t_filter := rq_filter msg, t_protocol_filter := rq_protocol_filter msg, t_ip_filter := rq_ip_filter msg,
       t_port_filter := rq_port_filter msg, t_category := rq_category msg, t_file_pattern := rq_file_pattern msg,
       t_duration_sec := rq_duration_sec msg, t_max_bytes := rq_max_bytes msg, t_max_packets := rq_max_packets msg,
       t_priority := 0, t_signature := signature, t_sid := sid, t_reply_target := rq_reply_target msg,
       t_client_ip := rq_client_ip msg, t_request_user := rq_request_user msg,
       t_status := STATUS_PENDING, t_start_time := now\<rparr>"

definition started_reply :: "int \<Rightarrow> SRxStartCaptureMsg \<Rightarrow> string \<Rightarrow> string \<Rightarrow> nat \<Rightarrow> SRxHttpReplyMsg \<Rightarrow> SRxHttpReplyMsg" where
  "started_reply capture_id msg task_key sid n_matched =
     json_reply 200 ''OK''
       (snprintf 1024 (''{'' @ json_pair ''capture_id'' (fmt_d 0 capture_id) @ '','' @
          json_pair ''duplicate'' ''false'' @ '','' @ json_pair ''status'' (dq ''started'') @ '','' @
          json_pair ''mode'' (dq (capture_mode_to_string (rq_capture_mode msg))) @ '','' @
          json_pair ''key'' (dq (c_str task_key)) @ '','' @ json_pair ''sid'' (dq (c_str sid)) @ '','' @
          json_pair ''matched_pids'' (dec_string n_matched) @ '','' @
          json_pair ''port'' (fmt_d 0 (rq_port_filter msg)) @ ''}''))"

definition create_and_add_capture_task ::
  "mgr_env \<Rightarrow> SRxStartCaptureMsg \<Rightarrow> string \<Rightarrow> string \<Rightarrow> string \<Rightarrow> SProcessInfo list \<Rightarrow> SRxHttpReplyMsg \<Rightarrow>
   CRxCaptureManagerThread \<Rightarrow> mem_fault + int \<times> SRxHttpReplyMsg \<times> CRxCaptureManagerThread" where
  "create_and_add_capture_task env msg task_key signature sid matched reply st =
     (case next_id st of (capture_id, st1) \<Rightarrow>
        (case new_task (task_for (me_now env) capture_id msg task_key signature sid matched) (task_mgr st1) of
           (task, m) \<Rightarrow>
             try_then (mgr_add_task capture_id task_key signature sid (Some task) m) (\<lambda>(added, m1).
               Inr (capture_id, started_reply capture_id msg task_key sid (length matched) reply,
                    set_task_mgr m1 st1))))"

text \<open>The worker gets the start message and, after it, the request itself.\<close>

definition start_message ::
  "mgr_env \<Rightarrow> int \<Rightarrow> string \<Rightarrow> string \<Rightarrow> CaptureSpec \<Rightarrow> CaptureConfigSnapshot \<Rightarrow> u32 \<Rightarrow> SRxCaptureStartMsgV2" where
  "start_message env capture_id task_key sid spec config worker =
     CaptureMessageBase.extend
       ((CaptureMessageBase_new (me_now_usec env) RX_MSG_CAPTURE_START)
          \<lparr>cm_capture_id := capture_id, cm_key := task_key, cm_sid := sid, cm_config_hash := cc_config_hash config,
           cm_sender_thread_index := sint (me_thread_index env)\<rparr>)
       (SRxCaptureStartMsgV2.fields config spec (sint worker))"

definition dispatch_task_to_worker ::
  "mgr_env \<Rightarrow> int \<Rightarrow> string \<Rightarrow> string \<Rightarrow> CaptureSpec \<Rightarrow> CaptureConfigSnapshot \<Rightarrow> SRxStartCaptureMsg \<Rightarrow>
   CRxCaptureManagerThread \<Rightarrow> mem_fault + CRxCaptureManagerThread" where
  "dispatch_task_to_worker env capture_id task_key sid spec config msg st =
     (if mt_worker_thd_vec st = [] then Inr st
      else (let workers = mt_worker_thd_vec st;
                worker = workers ! (unat (mt_next_worker st) mod length workers);
                st1 = st\<lparr>mt_next_worker := mt_next_worker st + 1\<rparr>;
                st2 = put_obj_msg (to_thread worker)
                        (O_capture (M_Start (start_message env capture_id task_key sid spec config worker))) st1;
                st3 = put_obj_msg (to_thread worker) (O_request (msg\<lparr>rq_sid := sid\<rparr>)) st2
            in with_mgr (mgr_update_task capture_id (AssignWorkerFunctor worker)) st3))"

section \<open>The request to start a capture\<close>

text \<open>The interface, the duration and the configuration in effect.\<close>

definition complete_request ::
  "CRxStrategyConfigManager option \<Rightarrow> CaptureConfigSnapshot \<Rightarrow> SRxStartCaptureMsg \<Rightarrow>
   SRxStartCaptureMsg \<times> CaptureConfigSnapshot" where
  "complete_request strategy config msg =
     (let iface1 = (if rq_iface msg = [] then (case strategy of Some s \<Rightarrow> df_iface (sy_defaults s) | None \<Rightarrow> [])
                    else rq_iface msg);
          iface2 = (if iface1 = [] then ''any'' else iface1);
          d1 = (if rq_duration_sec msg \<le> 0 then cc_max_duration_sec config else rq_duration_sec msg);
          d2 = (if d1 \<le> 0 then (case strategy of Some s \<Rightarrow> df_duration_sec (sy_defaults s) | None \<Rightarrow> d1) else d1);
          d3 = (if d2 \<le> 0 then kFallbackDurationSec else d2)
      in (msg\<lparr>rq_iface := iface2, rq_duration_sec := d3\<rparr>,
          if cc_max_duration_sec config \<le> 0 then config\<lparr>cc_max_duration_sec := d3\<rparr> else config))"

definition capture_spec_of ::
  "SRxStartCaptureMsg \<Rightarrow> CaptureConfigSnapshot \<Rightarrow> SProcessInfo list \<Rightarrow> CaptureSpec" where
  "capture_spec_of msg config matched =
     CaptureSpec_new\<lparr>sp_capture_mode := rq_capture_mode msg, sp_iface := rq_iface msg,
       sp_resolved_iface := rq_iface msg, sp_proc_name := rq_proc_name msg, sp_target_pid := rq_target_pid msg,
       sp_container_id := rq_container_id msg,
       sp_netns_path := (if matched \<noteq> [] \<and> rq_netns_path msg = [] then pi_netns_path (hd matched)
                         else rq_netns_path msg),
       sp_category := rq_category msg, sp_filter := rq_filter msg,
       sp_protocol_filter := rq_protocol_filter msg, sp_protocol_filter_inline := rq_protocol_filter_inline msg,
       sp_ip_filter := rq_ip_filter msg, sp_port_filter := rq_port_filter msg,
       sp_output_pattern := rq_file_pattern msg, sp_max_duration_sec := rq_duration_sec msg,
       sp_max_bytes := rq_max_bytes msg, sp_max_packets := rq_max_packets msg, sp_snaplen := cc_snaplen config\<rparr>"

definition finish_reply :: "mgr_env \<Rightarrow> SRxStartCaptureMsg \<Rightarrow> SRxHttpReplyMsg \<Rightarrow> SRxHttpReplyMsg" where
  "finish_reply env msg reply =
     (let r = reply\<lparr>hr_debug_request_ts_ms := rq_enqueue_ts_ms msg, hr_debug_reply_ts_ms := me_now_ms env\<rparr> in
      if rq_enqueue_ts_ms msg > 0
      then r\<lparr>hr_headers := sm_put ''X-Debug-QueueMs''
               (snprintf 32 (dec_string (unat (me_now_ms env - rq_enqueue_ts_ms msg)))) (hr_headers r)\<rparr>
      else r)"

definition capture_signature :: "CaptureSpec \<Rightarrow> CaptureConfigSnapshot \<Rightarrow> SProcessInfo list \<Rightarrow> string" where
  "capture_signature spec config matched = hex16 (fnv1a_64 (build_capture_signature spec config matched))"

text \<open>A resolved and completed request is refused or becomes a task; either way there is a reply.\<close>

definition admit_capture ::
  "mgr_env \<Rightarrow> SRxStartCaptureMsg \<Rightarrow> string \<Rightarrow> CaptureSpec \<Rightarrow> CaptureConfigSnapshot \<Rightarrow> SProcessInfo list \<Rightarrow>
   CRxCaptureManagerThread \<Rightarrow> mem_fault + SRxHttpReplyMsg \<times> CRxCaptureManagerThread" where
  "admit_capture env msg task_key spec config matched st =
     (let signature = capture_signature spec config matched;
          sid = make_sid_with_timestamp (me_localtime env) (me_local_sec env) (me_now_usec env) signature;
          reply = new_reply (rq_reply_target msg)
      in try_then (find_duplicate (task_mgr st) signature task_key sid) (\<lambda>dup.
           case dup of
             Some (existing_id, existing_status, dup_key, dup_sid) \<Rightarrow>
               Inr (create_duplicate_error_reply dup_key dup_sid existing_id existing_status reply, st)
           | None \<Rightarrow>
               (let max_concurrent = get_max_concurrent_limit (mt_data st) in
                if fst (count_active_tasks (task_mgr st)) \<ge> word_of_int max_concurrent
                then Inr (create_capacity_error_reply max_concurrent reply, st)
                else try_then (create_and_add_capture_task env msg task_key signature sid matched reply st)
                  (\<lambda>(capture_id, reply1, st1).
                     try_then (dispatch_task_to_worker env capture_id task_key sid spec config msg st1) (\<lambda>st2.
                       Inr (reply1, st2))))))"

text \<open>The key of the task, the request with everything filled in, the configuration and the specification.\<close>

definition resolved_request ::
  "mgr_env \<Rightarrow> CRxProcData \<Rightarrow> SProcessInfo list \<Rightarrow> SRxStartCaptureMsg \<Rightarrow>
   string \<times> SRxStartCaptureMsg \<times> CaptureConfigSnapshot \<times> CaptureSpec" where
  "resolved_request env pd matched start_msg =
     (let msg1 = infer_port (auto_filter matched start_msg);
          task_key = generate_task_key msg1;
          (msg, config) = complete_request (current_strategy_config pd) (get_capture_config_snapshot (me_now env) pd) msg1
      in (task_key, msg, config, capture_spec_of msg config matched))"

definition handle_start_capture ::
  "mgr_env \<Rightarrow> SRxStartCaptureMsg \<Rightarrow> CRxCaptureManagerThread \<Rightarrow> mem_fault + CRxCaptureManagerThread" where
  "handle_start_capture env start_msg st =
     (case resolve_target_processes (me_proc env) start_msg of
        Inl error_reply \<Rightarrow> Inr (send_reply_to_http (rq_reply_target start_msg) error_reply st)
      | Inr matched \<Rightarrow>
          (case resolved_request env (mt_data st) matched start_msg of
             (task_key, msg, config, spec) \<Rightarrow>
               try_then (admit_capture env msg task_key spec config matched st) (\<lambda>(reply, st1).
                 Inr (send_reply_to_http (rq_reply_target start_msg) (finish_reply env msg reply) st1))))"

end
