(* ===== verification/Capture_Manager.thy ===== *)
theory Capture_Manager
  imports Capture_Start
begin

text \<open>
  The capture manager thread, second part: alerts of the sample thread, status queries, the reports of
  capture workers, filter thread and cleanup thread, timers, and the dispatch of messages.
\<close>

section \<open>Captures started by alerts\<close>

definition should_throttle_module :: "string \<Rightarrow> int \<Rightarrow> int \<Rightarrow> CRxCaptureManagerThread \<Rightarrow> bool" where
  "should_throttle_module module_name cooldown_sec now st \<longleftrightarrow>
     cooldown_sec > 0 \<and>
     (case mt_module_last_trigger st module_name of
        None \<Rightarrow> False
      | Some prev \<Rightarrow> now \<ge> prev \<and> now - prev < cooldown_sec)"

definition kModulePrefix :: string where
  "kModulePrefix = ''module:''"

text \<open>The end of a capture that a module asked for ends the cooldown of the module.\<close>

definition clear_module_cooldown_for_capture ::
  "int \<Rightarrow> CRxCaptureManagerThread \<Rightarrow> mem_fault + CRxCaptureManagerThread" where
  "clear_module_cooldown_for_capture capture_id st =
     try_then (mgr_query_task (task_mgr st) capture_id) (\<lambda>sn.
       case sn of
         None \<Rightarrow> Inr st
       | Some s \<Rightarrow>
           if length (sn_request_user s) \<le> length kModulePrefix \<or> \<not> starts_with kModulePrefix (sn_request_user s)
           then Inr st
           else (let module_name = drop (length kModulePrefix) (sn_request_user s) in
                 Inr (st\<lparr>mt_module_last_trigger := (mt_module_last_trigger st)(module_name := None)\<rparr>)))"

text \<open>The first of the keys that a hint names, with the mode it stands for.\<close>

definition hint_keys :: "(string \<times> ECaptureMode) list" where
  "hint_keys =
     [(''process'', MODE_PROCESS), (''proc'', MODE_PROCESS), (''pid'', MODE_PID), (''container'', MODE_CONTAINER),
      (''container_id'', MODE_CONTAINER), (''iface'', MODE_INTERFACE), (''interface'', MODE_INTERFACE)]"

definition hint_target :: "string \<Rightarrow> (string \<rightharpoonup> string) \<Rightarrow> (ECaptureMode \<times> string) option" where
  "hint_target hint pairs =
     (case find (\<lambda>(k, m). pairs k \<noteq> None) hint_keys of
        Some (k, m) \<Rightarrow> Some (m, the (pairs k))
      | None \<Rightarrow>
          (case find_char (CHR '':'') hint of
             None \<Rightarrow> None
           | Some i \<Rightarrow>
               (let key = to_lower_copy (trim_copy (take i hint));
                    value = strip_quotes_copy (trim_copy (drop (Suc i) hint))
                in map_option (\<lambda>m. (m, value)) (map_of hint_keys key))))"

definition set_target :: "ECaptureMode \<Rightarrow> string \<Rightarrow> SRxStartCaptureMsg \<Rightarrow> SRxStartCaptureMsg option" where
  "set_target m target msg =
     (case m of
        MODE_INTERFACE \<Rightarrow> if target = [] then None else Some (msg\<lparr>rq_capture_mode := m, rq_iface := target\<rparr>)
      | MODE_PROCESS \<Rightarrow> if target = [] then None else Some (msg\<lparr>rq_capture_mode := m, rq_proc_name := target\<rparr>)
      | MODE_PID \<Rightarrow>
          (case parse_int_value target of
             None \<Rightarrow> None
           | Some pid \<Rightarrow> if pid \<le> 0 then None else Some (msg\<lparr>rq_capture_mode := m, rq_target_pid := pid\<rparr>))
      | MODE_CONTAINER \<Rightarrow> if target = [] then None else Some (msg\<lparr>rq_capture_mode := m, rq_container_id := target\<rparr>))"

text \<open>A number greater than zero under the key, else the default.\<close>

definition positive_or :: "(string \<Rightarrow> int option) \<Rightarrow> int \<Rightarrow> string option \<Rightarrow> int" where
  "positive_or parse dflt v =
     (case Option.bind v parse of Some n \<Rightarrow> if n > 0 then n else dflt | None \<Rightarrow> dflt)"

definition text_or :: "string \<Rightarrow> string option \<Rightarrow> string" where
  "text_or dflt v = (case v of Some s \<Rightarrow> s | None \<Rightarrow> dflt)"

definition hint_fields ::
  "SRxDefaults option \<Rightarrow> SRxSampleMsg \<Rightarrow> (string \<rightharpoonup> string) \<Rightarrow> SRxStartCaptureMsg \<Rightarrow> SRxStartCaptureMsg" where
  "hint_fields defaults alert pairs msg =
     (let protocol = text_or (text_or (rq_protocol_filter msg) (pairs ''protocol'')) (pairs ''protocol_filter'');
          ip = text_or (text_or (rq_ip_filter msg) (pairs ''ip'')) (pairs ''ip_filter'');
          port = positive_or parse_int_value (positive_or parse_int_value (rq_port_filter msg) (pairs ''port''))
                   (pairs ''port_filter'');
          category1 = (case pairs ''category'' of
                         Some c \<Rightarrow> c
                       | None \<Rightarrow> if al_capture_category alert \<noteq> [] then al_capture_category alert else rq_category msg);
          d1 = positive_or parse_int_value (positive_or parse_int_value (al_capture_duration_sec alert) (pairs ''duration''))
                 (pairs ''duration_sec'');
          d2 = (if d1 \<le> 0 then (case defaults of Some df \<Rightarrow> df_duration_sec df | None \<Rightarrow> d1) else d1);
          bytes_limit = (case pairs ''max_bytes'' of
                     Some v \<Rightarrow> positive_or parse_long_value (rq_max_bytes msg) (Some v)
                   | None \<Rightarrow> (case defaults of
                                Some df \<Rightarrow> if rq_max_bytes msg \<le> 0 then df_max_bytes df else rq_max_bytes msg
                              | None \<Rightarrow> rq_max_bytes msg));
          category2 = (if category1 = [] then (case defaults of Some df \<Rightarrow> df_category df | None \<Rightarrow> []) else category1);
          pattern = (if rq_file_pattern msg = [] then (case defaults of Some df \<Rightarrow> df_file_pattern df | None \<Rightarrow> [])
                     else rq_file_pattern msg)
      in msg\<lparr>rq_netns_path := text_or (rq_netns_path msg) (pairs ''netns''),
             rq_filter := text_or (rq_filter msg) (pairs ''filter''),
             rq_protocol_filter := protocol, rq_ip_filter := ip, rq_port_filter := port,
             rq_category := category2,
             rq_duration_sec := (if d2 > 0 then d2 else rq_duration_sec msg),
             rq_max_bytes := bytes_limit,
             rq_max_packets := positive_or parse_int_value (rq_max_packets msg) (pairs ''max_packets''),
             rq_file_pattern := pattern\<rparr>)"

definition prepare_capture_from_sample ::
  "mgr_env \<Rightarrow> CRxProcData \<Rightarrow> SRxSampleMsg \<Rightarrow> SRxStartCaptureMsg option" where
  "prepare_capture_from_sample env pd alert =
     (let module_name = (if al_module_name alert = [] then ''default'' else al_module_name alert);
          defaults = map_option sy_defaults (current_strategy_config pd);
          pairs = parse_capture_hint_pairs (al_capture_hint alert)
      in case hint_target (al_capture_hint alert) pairs of
           None \<Rightarrow> None
         | Some (m, v) \<Rightarrow>
             (let target = (if v = [] \<and> m = MODE_INTERFACE
                            then (case defaults of Some df \<Rightarrow> df_iface df | None \<Rightarrow> v) else v)
              in map_option (\<lambda>msg. (hint_fields defaults alert pairs msg)
                     \<lparr>rq_client_ip := ''sample'', rq_request_user := kModulePrefix @ module_name,
                      rq_enqueue_ts_ms := me_now_ms env\<rparr>)
                   (set_target m target SRxStartCaptureMsg_new)))"

definition alert_record :: "SRxSampleMsg \<Rightarrow> SRxSampleAlertRecord" where
  "alert_record alert =
     \<lparr>ar_alert_id = 0, ar_timestamp = ss_timestamp (al_stats alert),
      ar_cpu_percent = ss_cpu_percent (al_stats alert), ar_memory_percent = ss_memory_percent (al_stats alert),
      ar_network_rx_kbps = ss_network_rx_kbps (al_stats alert), ar_network_tx_kbps = ss_network_tx_kbps (al_stats alert),
      ar_cpu_hit = al_cpu_hit alert, ar_mem_hit = al_mem_hit alert, ar_net_hit = al_net_hit alert,
      ar_module_name = al_module_name alert, ar_capture_hint = al_capture_hint alert,
      ar_capture_category = al_capture_category alert, ar_capture_duration_sec = al_capture_duration_sec alert,
      ar_cooldown_sec = al_cooldown_sec alert, ar_cpu_threshold = al_cpu_threshold alert,
      ar_mem_threshold = al_mem_threshold alert, ar_net_threshold = al_net_threshold alert\<rparr>"

definition cooldown_of :: "CRxProcData \<Rightarrow> SRxSampleMsg \<Rightarrow> int" where
  "cooldown_of pd alert =
     (let c1 = al_cooldown_sec alert;
          c2 = (if c1 \<le> 0 then (case current_strategy_config pd of
                                  Some cfg \<Rightarrow> li_per_key_cooldown_sec (sy_limits cfg) | None \<Rightarrow> c1) else c1)
      in if c2 \<le> 0 then 60 else c2)"

definition notify_http :: "SRxSampleMsg \<Rightarrow> CRxCaptureManagerThread \<Rightarrow> CRxCaptureManagerThread" where
  "notify_http alert st =
     (case get_thread (mt_data st) ''http_res'' of
        None \<Rightarrow> st
      | Some threads \<Rightarrow>
          fold (\<lambda>k. put_obj_msg (to_thread k) (O_sample (alert\<lparr>al_msg_op := RX_MSG_SAMPLE_TRIGGER\<rparr>))) threads st)"

definition handle_sample_alert ::
  "mgr_env \<Rightarrow> SRxSampleMsg \<Rightarrow> CRxCaptureManagerThread \<Rightarrow> mem_fault + CRxCaptureManagerThread" where
  "handle_sample_alert env alert0 st =
     (let alert1 = (if al_module_name alert0 = [] then alert0\<lparr>al_module_name := ''default''\<rparr> else alert0) in
      case record_sample_alert (me_now env) (alert_record alert1) (mt_data st) of
        (alert_id, pd) \<Rightarrow>
          (let alert = alert1\<lparr>al_alert_id := alert_id\<rparr>;
               st1 = notify_http alert (st\<lparr>mt_data := pd\<rparr>)
           in if al_capture_hint alert = [] then Inr st1
              else if should_throttle_module (al_module_name alert) (cooldown_of pd alert) (me_now env) st1 then Inr st1
              else case prepare_capture_from_sample env pd alert of
                     None \<Rightarrow> Inr st1
                   | Some start_msg \<Rightarrow>
                       handle_start_capture env start_msg
                         (st1\<lparr>mt_module_last_trigger := (mt_module_last_trigger st1)(al_module_name alert \<mapsto> me_now env)\<rparr>)))"

section \<open>Queries\<close>

definition stop_text :: string where
  "stop_text = ''{'' @ json_pair ''error'' (dq ''stop not supported'') @ '','' @
     json_pair ''message'' (dq ''capture tasks cannot be stopped once started'') @ ''}''"

definition handle_stop_capture :: "SRxStopCaptureMsg \<Rightarrow> CRxCaptureManagerThread \<Rightarrow> CRxCaptureManagerThread" where
  "handle_stop_capture msg =
     send_reply_to_http (so_reply_target msg)
       (json_reply 501 ''Not Implemented'' stop_text (new_reply (so_reply_target msg)))"

text \<open>An optional member after a comma.\<close>

definition opt_member :: "bool \<Rightarrow> string \<Rightarrow> string \<Rightarrow> string" where
  "opt_member present key value = (if present then '','' @ json_pair key value else [])"

definition json_bool :: "bool \<Rightarrow> string" where
  "json_bool b = (if b then ''true'' else ''false'')"

definition json_text_member :: "string \<Rightarrow> string \<Rightarrow> string" where
  "json_text_member key s = opt_member (s \<noteq> []) key (dq (json_escape s))"

definition json_nat :: "u64 \<Rightarrow> string" where
  "json_nat n = dec_string (unat n)"

definition file_json :: "CaptureFileInfo \<Rightarrow> string" where
  "file_json info =
     ''{'' @ json_pair ''path'' (dq (json_escape (fi_file_path info))) @
     '','' @ json_pair ''size'' (json_nat (fi_file_size info)) @
     '','' @ json_pair ''segment'' (fmt_d 0 (fi_segment_index info)) @
     '','' @ json_pair ''segments'' (fmt_d 0 (fi_total_segments info)) @
     '','' @ json_pair ''compressed'' (json_bool (fi_compressed info)) @
     json_text_member ''archive'' (fi_archive_path info) @
     opt_member (fi_compress_finish_ts info > 0) ''compressed_at'' (fmt_d 0 (fi_compress_finish_ts info)) @
     json_text_member ''record'' (fi_record_path info) @ ''}''"

definition archive_json :: "CaptureArchiveInfo \<Rightarrow> string" where
  "archive_json arc =
     ''{'' @ json_pair ''path'' (dq (json_escape (ai_archive_path arc))) @
     '','' @ json_pair ''size'' (json_nat (ai_archive_size arc)) @
     opt_member (ai_compress_finish_ts arc > 0) ''compressed_at'' (fmt_d 0 (ai_compress_finish_ts arc)) @
     opt_member (ai_files arc \<noteq> []) ''files''
       (''['' @ comma_separated (map (\<lambda>f. dq (json_escape (fi_file_path f))) (ai_files arc)) @ '']'') @ ''}''"

text \<open>How far a running capture with a duration is, in percent and seconds; \<open>div\<close> is on numbers that are not negative.\<close>

definition progress_json :: "int \<Rightarrow> TaskSnapshot \<Rightarrow> string" where
  "progress_json now sn =
     (if (sn_status sn = STATUS_RUNNING \<or> sn_status sn = STATUS_RESOLVING) \<and> sn_duration_sec sn > 0 \<and> sn_start_time sn > 0
      then (let elapsed_sec = max 0 (now - sn_start_time sn);
                progress_pct = min 100 (to_int32 (elapsed_sec * 100 div sn_duration_sec sn));
                remaining_sec = max 0 (sn_duration_sec sn - elapsed_sec)
            in '','' @ json_pair ''estimated_progress_pct'' (fmt_d 0 progress_pct) @
               '','' @ json_pair ''duration_sec'' (fmt_d 0 (sn_duration_sec sn)) @
               '','' @ json_pair ''elapsed_sec'' (fmt_d 0 elapsed_sec) @
               '','' @ json_pair ''remaining_sec'' (fmt_d 0 remaining_sec))
      else [])"

definition snapshot_json :: "int \<Rightarrow> TaskSnapshot \<Rightarrow> string" where
  "snapshot_json now sn =
     ''{'' @ json_pair ''capture_id'' (fmt_d 0 (sn_capture_id sn)) @
     '','' @ json_pair ''status'' (dq (capture_status_to_string (sn_status sn))) @
     '','' @ json_pair ''mode'' (dq (capture_mode_to_string (sn_capture_mode sn))) @
     '','' @ json_pair ''key'' (dq (json_escape (sn_key sn))) @
     '','' @ json_pair ''sid'' (dq (json_escape (sn_sid sn))) @
     json_text_member ''iface'' (sn_iface sn) @
     json_text_member ''proc_name'' (sn_proc_name sn) @
     json_text_member ''filter'' (sn_filter sn) @
     opt_member (sn_target_pid sn > 0) ''pid'' (fmt_d 0 (sn_target_pid sn)) @
     opt_member (sn_port_filter sn > 0) ''port'' (fmt_d 0 (sn_port_filter sn)) @
     '','' @ json_pair ''start_time'' (fmt_d 0 (sn_start_time sn)) @
     '','' @ json_pair ''end_time'' (fmt_d 0 (sn_end_time sn)) @
     '','' @ json_pair ''packets'' (json_nat (sn_packet_count sn)) @
     '','' @ json_pair ''bytes'' (json_nat (sn_bytes_captured sn)) @
     '','' @ json_pair ''worker'' (dec_string (unat (sn_worker_thread_index sn))) @
     progress_json now sn @
     '','' @ json_pair ''stop_requested'' (json_bool (sn_stop_requested sn)) @
     '','' @ json_pair ''client_ip'' (dq (json_escape (sn_client_ip sn))) @
     '','' @ json_pair ''request_user'' (dq (json_escape (sn_request_user sn))) @
     json_text_member ''error'' (sn_error_message sn) @
     opt_member (sn_captured_files sn \<noteq> []) ''files''
       (''['' @ comma_separated (map file_json (sn_captured_files sn)) @ '']'') @
     opt_member (sn_archives sn \<noteq> []) ''archives''
       (''['' @ comma_separated (map archive_json (sn_archives sn)) @ '']'') @ ''}''"

definition handle_query_capture ::
  "mgr_env \<Rightarrow> SRxQueryCaptureMsg \<Rightarrow> CRxCaptureManagerThread \<Rightarrow> mem_fault + CRxCaptureManagerThread" where
  "handle_query_capture env msg st =
     try_then (mgr_query_task (task_mgr st) (qu_capture_id msg)) (\<lambda>sn.
       (let reply = new_reply (qu_reply_target msg);
            answer = (case sn of
                        None \<Rightarrow> json_reply 404 ''Not Found''
                          (snprintf 256 (''{'' @ json_pair ''error'' (dq ''capture_not_found'') @ '','' @
                             json_pair ''capture_id'' (fmt_d 0 (qu_capture_id msg)) @ ''}'')) reply
                      | Some s \<Rightarrow> json_reply 200 ''OK'' (snapshot_json (me_now env) s) reply)
        in Inr (send_reply_to_http (qu_reply_target msg) answer st)))"

section \<open>Reports\<close>

text \<open>
  An update of several fields: the parts that stand for a start, progress, an end or a failure go to
  their operations, and only when none of them applied the fields are stored as they are.
\<close>

definition attempt ::
  "bool \<Rightarrow> (CRxSafeTaskMgr \<Rightarrow> mem_fault + bool \<times> CRxSafeTaskMgr) \<Rightarrow> bool \<times> CRxSafeTaskMgr \<Rightarrow>
   mem_fault + bool \<times> CRxSafeTaskMgr" where
  "attempt cond f r =
     (if cond then try_then (f (snd r)) (\<lambda>(ok, m). Inr (fst r \<or> ok, m)) else Inr r)"

definition handle_task_update ::
  "mgr_env \<Rightarrow> SRxTaskUpdateMsg \<Rightarrow> CRxCaptureManagerThread \<Rightarrow> mem_fault + CRxCaptureManagerThread" where
  "handle_task_update env msg st =
     (let c = up_capture_id msg;
          path = (if up_update_output_file msg then up_output_file msg else []);
          done = (up_new_status msg = STATUS_COMPLETED)
      in try_then (attempt (up_new_status msg = STATUS_RUNNING \<and> up_update_start_time msg)
                     (set_capture_started c (up_start_time msg * 1000000)
                        (if up_update_capture_pid msg then up_capture_pid msg else - 1) path)
                     (False, task_mgr st)) (\<lambda>r1.
         try_then (attempt (up_update_stats msg)
                     (update_progress c (up_packet_count msg) (up_bytes_captured msg)
                        (if up_update_end_time msg then up_end_time msg * 1000000 else 0)) r1) (\<lambda>r2.
         try_then (attempt (done \<or> (up_new_status msg = STATUS_FAILED \<and> up_update_error msg))
                     (if done
                      then set_capture_finished c
                             (if up_update_end_time msg then up_end_time msg * 1000000 else me_now_usec env)
                             (up_packet_count msg) (up_bytes_captured msg) path
                      else set_capture_failed (me_now env) c (up_error_message msg)) r2) (\<lambda>r3.
         if fst r3 then Inr (set_task_mgr (snd r3) st)
         else with_mgr (mgr_update_task c (UpdateTaskFunctor msg)) (set_task_mgr (snd r3) st)))))"

definition handle_capture_started_v2 ::
  "SRxCaptureStartedMsgV2 \<Rightarrow> CRxCaptureManagerThread \<Rightarrow> mem_fault + CRxCaptureManagerThread" where
  "handle_capture_started_v2 msg =
     with_mgr (set_capture_started (cm_capture_id msg) (started_start_ts msg) (started_capture_pid msg)
                 (started_output_file msg))"

definition handle_capture_progress_v2 ::
  "SRxCaptureProgressMsgV2 \<Rightarrow> CRxCaptureManagerThread \<Rightarrow> mem_fault + CRxCaptureManagerThread" where
  "handle_capture_progress_v2 msg =
     (let p = progress_stats msg;
          last_ts = (if pg_last_packet_ts p \<noteq> 0 then pg_last_packet_ts p else progress_report_ts msg)
      in with_mgr (update_progress (cm_capture_id msg) (pg_packets p) (pg_bytes p) last_ts))"

definition enqueue_message :: "mgr_env \<Rightarrow> CRxProcData \<Rightarrow> SRxCaptureFileReadyMsgV2 \<Rightarrow> SRxFileEnqueueMsgV2" where
  "enqueue_message env pd msg =
     CaptureMessageBase.extend
       ((CaptureMessageBase_new (me_now_usec env) RX_MSG_FILE_ENQUEUE)
          \<lparr>cm_capture_id := cm_capture_id msg, cm_key := cm_key msg, cm_sid := cm_sid msg,
           cm_op_version := cm_op_version msg, cm_config_hash := cm_config_hash msg,
           cm_sender_thread_index := sint (me_thread_index env)\<rparr>)
       (SRxFileEnqueueMsgV2.fields (ready_files msg) (get_capture_config_snapshot (me_now env) pd))"

definition handle_capture_file_ready_v2 ::
  "mgr_env \<Rightarrow> SRxCaptureFileReadyMsgV2 \<Rightarrow> CRxCaptureManagerThread \<Rightarrow> mem_fault + CRxCaptureManagerThread" where
  "handle_capture_file_ready_v2 env msg st =
     (if ready_files msg = [] then Inr st
      else try_then (with_mgr (append_capture_files (cm_capture_id msg) (ready_files msg)) st) (\<lambda>st1.
        case pd_cleanup (mt_data st1) of
          None \<Rightarrow> Inr st1
        | Some k \<Rightarrow>
            Inr (put_obj_msg (to_thread k) (O_capture (M_File_enqueue (enqueue_message env (mt_data st1) msg))) st1)))"

definition handle_capture_finished_v2 ::
  "mgr_env \<Rightarrow> SRxCaptureFinishedMsgV2 \<Rightarrow> CRxCaptureManagerThread \<Rightarrow> mem_fault + CRxCaptureManagerThread" where
  "handle_capture_finished_v2 env msg st =
     (let r = finished_result msg; c = cm_capture_id msg in
      try_then
        (if rs_exit_code r = 0
         then with_mgr (set_capture_finished c (rs_finish_ts r) (rs_total_packets r) (rs_total_bytes r) []) st
         else if rs_exit_code r = error_value ERR_RUN_CANCELLED
         then try_then (with_mgr (mgr_update_task c (MarkStoppedFunctor (me_now env) (rs_finish_ts r)
                  (rs_total_packets r) (rs_total_bytes r)
                  (if rs_error_message r = [] then ''stopped'' else rs_error_message r))) st)
                (with_mgr (mgr_update_status c STATUS_STOPPED))
         else with_mgr (set_capture_failed (me_now env) c
                (if rs_error_message r = [] then ''capture_failed'' else rs_error_message r)) st)
        (clear_module_cooldown_for_capture c))"

definition handle_capture_failed_v2 ::
  "mgr_env \<Rightarrow> SRxCaptureFailedMsgV2 \<Rightarrow> CRxCaptureManagerThread \<Rightarrow> mem_fault + CRxCaptureManagerThread" where
  "handle_capture_failed_v2 env msg st =
     (let message = (if failed_error_message msg = [] then rx_capture_error_to_string (failed_error_code msg)
                     else failed_error_message msg)
      in try_then (with_mgr (set_capture_failed (me_now env) (cm_capture_id msg) message) st)
           (clear_module_cooldown_for_capture (cm_capture_id msg)))"

text \<open>
  A raw file goes to a filter thread, which reports back to this thread.  Without a filter thread the
  definition is no longer in use; the task stays as it is.
\<close>

definition handle_capture_raw_file_v2 ::
  "mgr_env \<Rightarrow> SRxCaptureRawFileMsgV2 \<Rightarrow> CRxCaptureManagerThread \<Rightarrow> CRxCaptureManagerThread" where
  "handle_capture_raw_file_v2 env raw st =
     (let st1 = st\<lparr>mt_pdef_usage_map :=
            track_pdef_usage_start (cm_capture_id raw) (raw_pdef_file_path raw) (mt_pdef_usage_map st)\<rparr>
      in if mt_filter_threads st1 = []
         then st1\<lparr>mt_pdef_usage_map :=
                track_pdef_usage_end (cm_capture_id raw) (raw_pdef_file_path raw) (mt_pdef_usage_map st1)\<rparr>
         else (let threads = mt_filter_threads st1;
                   k = threads ! (unat (mt_next_filter st1) mod length threads);
                   sent = raw\<lparr>raw_manager_thread_index := sint (me_thread_index env)\<rparr>
               in put_obj_msg (to_thread k) (O_capture (M_Raw_file sent))
                    (st1\<lparr>mt_next_filter := mt_next_filter st1 + 1\<rparr>)))"

definition filtered_info :: "mgr_env \<Rightarrow> SRxCaptureFilteredFileMsgV2 \<Rightarrow> CaptureFileInfo" where
  "filtered_info env msg =
     CaptureFileInfo_new\<lparr>fi_file_path := filtered_pcap_path msg, fi_file_size := filtered_file_size msg,
       fi_file_ready_ts := me_now_usec env\<rparr>"

definition with_usage ::
  "(usage_map \<times> file_map \<Rightarrow> usage_map \<times> file_map) \<Rightarrow> CRxCaptureManagerThread \<Rightarrow> CRxCaptureManagerThread" where
  "with_usage f st =
     (case f (mt_pdef_usage_map st, mt_files st) of (m, fs) \<Rightarrow> st\<lparr>mt_pdef_usage_map := m, mt_files := fs\<rparr>)"

definition handle_capture_filtered_file_v2 ::
  "mgr_env \<Rightarrow> SRxCaptureFilteredFileMsgV2 \<Rightarrow> CRxCaptureManagerThread \<Rightarrow> mem_fault + CRxCaptureManagerThread" where
  "handle_capture_filtered_file_v2 env msg st =
     (let c = cm_capture_id msg; path = filtered_pdef_file_path msg in
      try_then (with_mgr (append_capture_files c [filtered_info env msg]) st) (\<lambda>st1.
      try_then (with_mgr (set_capture_finished c (me_now_usec env) (filtered_total_packets msg)
                            (filtered_file_size msg) (filtered_pcap_path msg)) st1) (\<lambda>st2.
      try_then (clear_module_cooldown_for_capture c st2) (\<lambda>st3.
        Inr (if path = [] then st3
             else with_usage (\<lambda>(m, fs). try_writeback_pdef_endian (me_io env) path (track_pdef_usage_end c path m, fs))
                    st3)))))"

definition handle_pdef_endian_detected ::
  "mgr_env \<Rightarrow> SRxPdefEndianMsg \<Rightarrow> CRxCaptureManagerThread \<Rightarrow> CRxCaptureManagerThread" where
  "handle_pdef_endian_detected env msg = with_usage (pdef_endian_detected (me_io env) msg)"

definition archive_of :: "SRxCleanCompressDoneMsgV2 \<Rightarrow> CaptureArchiveInfo" where
  "archive_of msg =
     (let files = done_compressed_files msg in
      \<lparr>ai_archive_path = done_archive_path msg, ai_files = files, ai_archive_size = done_compressed_bytes msg,
       ai_compress_finish_ts = (if files = [] then cm_ts_usec msg div 1000000
                                else fi_compress_finish_ts (hd files))\<rparr>)"

definition handle_clean_compress_done ::
  "SRxCleanCompressDoneMsgV2 \<Rightarrow> CRxCaptureManagerThread \<Rightarrow> mem_fault + CRxCaptureManagerThread" where
  "handle_clean_compress_done msg = with_mgr (record_archive (cm_capture_id msg) (archive_of msg))"

section \<open>Timers\<close>

definition TIMER_TYPE_QUEUE_CHECK :: int where
  "TIMER_TYPE_QUEUE_CHECK = 1"

definition TIMER_TYPE_EXPIRE_CLEAN :: int where
  "TIMER_TYPE_EXPIRE_CLEAN = 2"

definition QUEUE_TIMER_INTERVAL_MS :: u32 where
  "QUEUE_TIMER_INTERVAL_MS = 1000"

definition start_queue_timer :: "CRxCaptureManagerThread \<Rightarrow> CRxCaptureManagerThread" where
  "start_queue_timer st = st\<lparr>mt_timers := mt_timers st @ [(TIMER_TYPE_QUEUE_CHECK, QUEUE_TIMER_INTERVAL_MS)]\<rparr>"

definition start_clean_timer :: "CRxCaptureManagerThread \<Rightarrow> CRxCaptureManagerThread" where
  "start_clean_timer st =
     (case pd_strategy_dict (mt_data st) of
        None \<Rightarrow> st
      | Some d \<Rightarrow> st\<lparr>mt_timers := mt_timers st @ [(TIMER_TYPE_EXPIRE_CLEAN, 3600000)]\<rparr>)"

definition with_cleanup :: "CRxCaptureManagerThread \<Rightarrow> mem_fault + CRxCaptureManagerThread" where
  "with_cleanup st = try_then (cleanup_pending_deletes (task_mgr st)) (\<lambda>m. Inr (set_task_mgr m st))"

text \<open>Besides the deletion of replaced tasks the check of the queue only writes log lines.\<close>

definition check_queue :: "CRxCaptureManagerThread \<Rightarrow> mem_fault + CRxCaptureManagerThread" where
  "check_queue = with_cleanup"

definition run_process :: "CRxCaptureManagerThread \<Rightarrow> mem_fault + CRxCaptureManagerThread" where
  "run_process st =
     with_cleanup (if mt_is_first st then st
                   else start_clean_timer (start_queue_timer (st\<lparr>mt_is_first := True\<rparr>)))"

text \<open>The timer that fires is removed; the cleaning of expired files only writes a log line.\<close>

definition handle_timeout :: "int \<Rightarrow> CRxCaptureManagerThread \<Rightarrow> mem_fault + CRxCaptureManagerThread" where
  "handle_timeout timer_type st =
     (let st1 = st\<lparr>mt_timers := filter (\<lambda>t. fst t \<noteq> timer_type) (mt_timers st)\<rparr> in
      if timer_type = TIMER_TYPE_QUEUE_CHECK then try_then (check_queue st1) (\<lambda>st2. Inr (start_queue_timer st2))
      else if timer_type = TIMER_TYPE_EXPIRE_CLEAN then Inr (start_clean_timer st1)
      else Inr st1)"

section \<open>Messages\<close>

text \<open>What the thread receives; a message of a code it does not know is \<open>I_other\<close>.\<close>

datatype mgr_in =
  I_start SRxStartCaptureMsg
| I_stop SRxStopCaptureMsg
| I_query SRxQueryCaptureMsg
| I_update SRxTaskUpdateMsg
| I_capture rx_msg
| I_sample SRxSampleMsg
| I_clean_expired
| I_check_threshold
| I_other

definition handle_msg :: "mgr_env \<Rightarrow> mgr_in \<Rightarrow> CRxCaptureManagerThread \<Rightarrow> mem_fault + CRxCaptureManagerThread" where
  "handle_msg env msg st =
     (case msg of
        I_start m \<Rightarrow> handle_start_capture env m st
      | I_stop m \<Rightarrow> Inr (handle_stop_capture m st)
      | I_query m \<Rightarrow> handle_query_capture env m st
      | I_update m \<Rightarrow> handle_task_update env m st
      | I_capture (M_Started m) \<Rightarrow> handle_capture_started_v2 m st
      | I_capture (M_Progress m) \<Rightarrow> handle_capture_progress_v2 m st
      | I_capture (M_File_ready m) \<Rightarrow> handle_capture_file_ready_v2 env m st
      | I_capture (M_Finished m) \<Rightarrow> handle_capture_finished_v2 env m st
      | I_capture (M_Failed m) \<Rightarrow> handle_capture_failed_v2 env m st
      | I_capture (M_Raw_file m) \<Rightarrow> Inr (handle_capture_raw_file_v2 env m st)
      | I_capture (M_Filtered_file m) \<Rightarrow> handle_capture_filtered_file_v2 env m st
      | I_capture (M_Pdef_endian m) \<Rightarrow> Inr (handle_pdef_endian_detected env m st)
      | I_capture (M_Compress_done m) \<Rightarrow> handle_clean_compress_done m st
      | I_sample m \<Rightarrow> handle_sample_alert env m st
      | _ \<Rightarrow> Inr st)"

section \<open>Access from other threads\<close>

definition GetTaskById :: "int \<Rightarrow> SRxCaptureTask \<Rightarrow> CRxCaptureManagerThread \<Rightarrow> mem_fault + SRxCaptureTask option" where
  "GetTaskById capture_id task st =
     try_then (mgr_query_task (task_mgr st) capture_id) (\<lambda>sn.
       Inr (map_option (\<lambda>s. task\<lparr>t_capture_id := sn_capture_id s, t_key := sn_key s, t_status := sn_status s,
              t_start_time := sn_start_time s, t_end_time := sn_end_time s, t_packet_count := sn_packet_count s,
              t_bytes_captured := sn_bytes_captured s, t_error_message := sn_error_message s,
              t_client_ip := sn_client_ip s, t_request_user := sn_request_user s\<rparr>) sn))"

definition UpdateTaskStatus ::
  "int \<Rightarrow> ECaptureTaskStatus \<Rightarrow> CRxCaptureManagerThread \<Rightarrow> mem_fault + bool \<times> CRxCaptureManagerThread" where
  "UpdateTaskStatus capture_id new_status st =
     try_then (mgr_update_status capture_id new_status (task_mgr st)) (\<lambda>(ok, m). Inr (ok, set_task_mgr m st))"

end
