(* ===== verification/Capture_Start_Facts.thy ===== *)
theory Capture_Start_Facts
  imports Decimal_Facts Capture_Start Task_Manager_Facts
begin

text \<open>
  Facts about requests to start a capture: the invariant of the capture manager, the steps that keep it, and
  the answer a request gets.
\<close>

section \<open>The invariant\<close>

abbreviation db :: "CRxCaptureManagerThread \<Rightarrow> task_db" where
  "db st \<equiv> mgr_db (task_mgr st)"

text \<open>
  The task manager is in order, the ids given out so far are below the counter, and the limit of the
  configuration is a C \<open>int\<close>.
\<close>

definition mgr_inv :: "CRxCaptureManagerThread \<Rightarrow> bool" where
  "mgr_inv st \<longleftrightarrow>
     mgr_ok (task_mgr st) \<and> db_good (db st) \<and> kCaptureIdStartValue \<le> mt_next_capture_id st \<and>
     dom (db_tasks (db st)) \<subseteq> {kCaptureIdStartValue..<mt_next_capture_id st} \<and>
     get_max_concurrent_limit (mt_data st) < 2 ^ 31"

lemma set_task_mgr_simps [simp]:
  "task_mgr (set_task_mgr m st) = m" "mt_out (set_task_mgr m st) = mt_out st"
  "mt_next_capture_id (set_task_mgr m st) = mt_next_capture_id st"
  "mt_worker_thd_vec (set_task_mgr m st) = mt_worker_thd_vec st"
  "set_task_mgr m (set_task_mgr m' st) = set_task_mgr m st"
  "get_max_concurrent_limit (mt_data (set_task_mgr m st)) = get_max_concurrent_limit (mt_data st)"
  by (simp_all add: set_task_mgr_def get_max_concurrent_limit_def)

lemma mgr_inv_cong:
  "\<lbrakk>mt_data st' = mt_data st; mt_next_capture_id st' = mt_next_capture_id st\<rbrakk> \<Longrightarrow> mgr_inv st' = mgr_inv st"
  by (simp add: mgr_inv_def)

lemma mgr_inv_new:
  "\<lbrakk>pd_task_mgr pd = CRxSafeTaskMgr_new; get_max_concurrent_limit pd < 2 ^ 31\<rbrakk> \<Longrightarrow> mgr_inv (CRxCaptureManagerThread_new pd fs)"
  by (simp add: mgr_inv_def CRxCaptureManagerThread_new_def mgr_new_ok mgr_db_new db_new_good)
    (simp add: db_new_def)

text \<open>\<open>steps_to g st r\<close>: a step that ends, and changes only the tasks, in the way \<open>g\<close> says.\<close>

definition steps_to ::
  "(task_db \<Rightarrow> task_db) \<Rightarrow> CRxCaptureManagerThread \<Rightarrow> mem_fault + CRxCaptureManagerThread \<Rightarrow> bool" where
  "steps_to g st r \<longleftrightarrow> (\<exists>m. r = Inr (set_task_mgr m st) \<and> mgr_inv (set_task_mgr m st) \<and> mgr_db m = g (db st))"

lemma steps_toE:
  assumes "steps_to g st r"
  obtains m where "r = Inr (set_task_mgr m st)" "mgr_inv (set_task_mgr m st)" "mgr_db m = g (db st)"
  using assms by (auto simp: steps_to_def)

lemma steps_then:
  assumes "steps_to g st r" "\<And>st1. mgr_inv st1 \<Longrightarrow> steps_to h st1 (k st1)"
  shows "steps_to (h \<circ> g) st (try_then r k)"
proof -
  from assms(1) obtain m where m: "r = Inr (set_task_mgr m st)" "mgr_inv (set_task_mgr m st)" "mgr_db m = g (db st)"
    by (rule steps_toE)
  from assms(2) [OF m(2)] m show ?thesis by (auto simp: steps_to_def)
qed

lemma steps_db:
  assumes inv: "mgr_inv st" and step: "f (task_mgr st) = Inr (b, m)" and ok: "mgr_ok m"
    and db: "mgr_db m = g (db st)" and good: "db_good (g (db st))"
    and ids: "dom (db_tasks (g (db st))) \<subseteq> dom (db_tasks (db st))"
  shows "steps_to g st (with_mgr f st)"
proof -
  have "dom (db_tasks (g (db st))) \<subseteq> {kCaptureIdStartValue..<mt_next_capture_id st}"
    using ids inv unfolding mgr_inv_def by (blast intro: subset_trans)
  then have "mgr_inv (set_task_mgr m st)" using inv ok good by (simp add: mgr_inv_def db)
  then show ?thesis using step db by (auto simp: steps_to_def with_mgr_def)
qed

definition keeps_names :: "(SRxCaptureTask \<Rightarrow> SRxCaptureTask) \<Rightarrow> bool" where
  "keeps_names f \<longleftrightarrow> (\<forall>t. t_key (f t) = t_key t \<and> t_sid (f t) = t_sid t \<and> t_signature (f t) = t_signature t)"

lemma keeps_names_functors:
  "keeps_names (AssignWorkerFunctor w)" "keeps_names (MarkStoppedFunctor now ts p b msg)"
  "keeps_names (UpdateTaskFunctor u)" "keeps_names (\<lambda>t. t\<lparr>t_status := s\<rparr>)"
  "keeps_names (updater_start ts pid file)" "keeps_names (updater_progress p b ts)"
  "keeps_names (updater_finished ts p b path)" "keeps_names (updater_failed now txt)"
  "keeps_names (append_files fs)" "keeps_names (archive_recorder a)"
  by (simp_all add: keeps_names_def AssignWorkerFunctor_def MarkStoppedFunctor_def UpdateTaskFunctor_def
      updater_defs Let_def)

lemma steps_update:
  assumes "mgr_inv st" "keeps_names f"
  shows "steps_to (db_update c f) st (with_mgr (mgr_update_task c f) st)"
proof -
  have ok: "mgr_ok (task_mgr st)" using assms(1) by (simp add: mgr_inv_def)
  obtain m where m: "mgr_update_task c f (task_mgr st) = Inr (c \<in> dom (db_tasks (db st)), m)" "mgr_ok m"
    "mgr_db m = db_update c f (db st)" by (rule mgr_update_task_ok [OF ok])
  have "db_good (db_update c f (db st))"
    using assms by (intro db_update_good) (auto simp: mgr_inv_def keeps_names_def)
  then show ?thesis by (intro steps_db [where f = "mgr_update_task c f" and g = "db_update c f", OF assms(1) m]) (simp_all add: db_update_dom)
qed

lemma steps_status:
  assumes "mgr_inv st"
  shows "steps_to (db_update c (\<lambda>t. t\<lparr>t_status := s\<rparr>)) st (with_mgr (mgr_update_status c s) st)"
proof -
  have ok: "mgr_ok (task_mgr st)" using assms(1) by (simp add: mgr_inv_def)
  obtain m where m: "mgr_update_status c s (task_mgr st) = Inr (c \<in> dom (db_tasks (db st)), m)" "mgr_ok m"
    "mgr_db m = db_update c (\<lambda>t. t\<lparr>t_status := s\<rparr>) (db st)" by (rule mgr_update_status_ok [OF ok])
  have "db_good (db_update c (\<lambda>t. t\<lparr>t_status := s\<rparr>) (db st))"
    using assms by (intro db_update_good) (auto simp: mgr_inv_def)
  then show ?thesis
    by (intro steps_db [where f = "mgr_update_status c s" and g = "db_update c (\<lambda>t. t\<lparr>t_status := s\<rparr>)", OF assms(1) m]) (simp_all add: db_update_dom)
qed

text \<open>An update and a change of status.\<close>

definition db_both :: "int \<Rightarrow> (SRxCaptureTask \<Rightarrow> SRxCaptureTask) \<Rightarrow> ECaptureTaskStatus \<Rightarrow> task_db \<Rightarrow> task_db" where
  "db_both c f s d = db_update c (\<lambda>t. t\<lparr>t_status := s\<rparr>) (db_update c f d)"

lemma steps_both:
  assumes "mgr_inv st" "keeps_names f"
  shows "steps_to (db_both c f s) st (with_mgr (update_then_status c f s) st)"
proof -
  have ok: "mgr_ok (task_mgr st)" using assms(1) by (simp add: mgr_inv_def)
  obtain m where m: "update_then_status c f s (task_mgr st) = Inr (c \<in> dom (db_tasks (db st)), m)" "mgr_ok m"
    "mgr_db m = db_update c (\<lambda>t. t\<lparr>t_status := s\<rparr>) (db_update c f (db st))" by (rule update_then_status_ok [OF ok])
  have "db_good (db_update c (\<lambda>t. t\<lparr>t_status := s\<rparr>) (db_update c f (db st)))"
    using assms by (intro db_update_good) (auto simp: mgr_inv_def keeps_names_def)
  then show ?thesis
    by (intro steps_db [where f = "update_then_status c f s" and g = "db_both c f s", OF assms(1) m(1,2)]) (simp_all add: db_update_dom db_both_def m(3))
qed

lemmas with_mgr_ops = set_capture_started_def set_capture_finished_def set_capture_failed_def
  update_progress_def record_archive_def

lemma steps_files:
  assumes "mgr_inv st" "files \<noteq> []"
  shows "steps_to (db_update c (append_files files)) st (with_mgr (append_capture_files c files) st)"
proof -
  have "with_mgr (append_capture_files c files) st = with_mgr (mgr_update_task c (append_files files)) st"
    using assms(2) by (simp add: with_mgr_def append_capture_files_def)
  then show ?thesis using steps_update [OF assms(1) keeps_names_functors(9)] by simp
qed

section \<open>Duplicates\<close>

text \<open>An active task that satisfies \<open>P\<close>.\<close>

definition active_task :: "task_db \<Rightarrow> (SRxCaptureTask \<Rightarrow> bool) \<Rightarrow> bool" where
  "active_task d P \<longleftrightarrow> (\<exists>i t. db_tasks d i = Some t \<and> is_active_status (t_status t) \<and> P t)"

lemma snapshot_status [simp]: "sn_status (snapshot_of t) = t_status t"
  by (simp add: snapshot_of_def)

lemma active_by_key:
  assumes "db_good d"
  shows "snap_active (db_query d (db_key d key)) \<longleftrightarrow> active_task d (\<lambda>t. t_key t = key)"
proof -
  have ex: "exact (db_key d) (names key_name d)" using assms by (simp add: db_good_def)
  show ?thesis
  proof
    assume "snap_active (db_query d (db_key d key))"
    then obtain sn where sn: "db_query d (db_key d key) = Some sn" "is_active_status (sn_status sn)"
      by (auto simp: snap_active_def split: option.splits)
    from sn(1) obtain i t where "db_tasks d i = Some t" "key_name t = Some key" "sn = snapshot_of t"
      using db_query_name [OF ex, of key sn] by blast
    then show "active_task d (\<lambda>t. t_key t = key)" using sn(2) by (auto simp: active_task_def key_name_def)
  next
    assume "active_task d (\<lambda>t. t_key t = key)"
    then obtain i t where t: "db_tasks d i = Some t" "is_active_status (t_status t)" "t_key t = key"
      by (auto simp: active_task_def)
    then have "db_query d (db_key d key) = Some (snapshot_of t)"
      using db_query_name [OF ex, of key "snapshot_of t"] by (auto simp: key_name_def)
    then show "snap_active (db_query d (db_key d key))" using t(2) by (simp add: snap_active_def)
  qed
qed

lemma active_by_signature:
  assumes "db_good d" "snap_active (db_query d (db_sig d s))"
  shows "active_task d (\<lambda>t. t_signature t = s)"
proof -
  obtain i t where t: "db_sig d s = Some i" "db_tasks d i = Some t"
    using assms(2) by (cases "db_sig d s") (auto simp: snap_active_def db_query_def split: option.splits)
  then have "names sig_name d i = Some s" using assms(1) by (simp add: db_good_def sound_def)
  then show ?thesis using t by (auto simp: active_task_def names_def sig_name_def split: if_splits)
qed

text \<open>
  A request is a duplicate when an active task has its key, or when the task the table holds for its signature
  is active.  That task has the signature.
\<close>

definition duplicate_of :: "task_db \<Rightarrow> string \<Rightarrow> string \<Rightarrow> bool" where
  "duplicate_of d key sig \<longleftrightarrow>
     active_task d (\<lambda>t. t_key t = key) \<or>
     (\<exists>i t. db_sig d sig = Some i \<and> db_tasks d i = Some t \<and> is_active_status (t_status t))"

lemma duplicate_of_index:
  assumes "db_good d"
  shows "duplicate_of d key sig \<longleftrightarrow> snap_active (db_query d (db_sig d sig)) \<or> snap_active (db_query d (db_key d key))"
proof -
  have "snap_active (db_query d i) \<longleftrightarrow> (\<exists>j t. i = Some j \<and> db_tasks d j = Some t \<and> is_active_status (t_status t))" for i
    by (cases i) (auto simp: snap_active_def db_query_def split: option.split)
  then show ?thesis unfolding active_by_key [OF assms] duplicate_of_def by blast
qed

lemma duplicate_of_active:
  assumes "db_good d" "duplicate_of d key sig"
  shows "active_task d (\<lambda>t. t_key t = key \<or> t_signature t = sig)"
  using assms(2) active_by_signature [OF assms(1), of sig]
  unfolding duplicate_of_index [OF assms(1)] active_by_key [OF assms(1)] active_task_def by blast

lemma find_duplicate_ok:
  assumes ok: "mgr_ok m"
  shows "\<exists>dup. find_duplicate m signature key sid = Inr dup \<and>
    (dup = None \<longleftrightarrow> \<not> snap_active (db_query (mgr_db m) (db_sig (mgr_db m) signature)) \<and>
                    \<not> snap_active (db_query (mgr_db m) (db_key (mgr_db m) key)))"
proof -
  define by_sig where "by_sig = db_query (mgr_db m) (db_sig (mgr_db m) signature)"
  define by_key where "by_key = db_query (mgr_db m) (db_key (mgr_db m) key)"
  have q: "mgr_query_task_by_key m key = Inr by_key" "mgr_query_task_by_signature m signature = Inr by_sig"
    "mgr_query_task m c = Inr (db_query (mgr_db m) (Some c))" for c
    using ok by (simp_all add: mgr_query_defs query_index_ok query_ok by_sig_def by_key_def)
  have sig: "query_active_task_by_signature m signature = Inr (if snap_active by_sig then by_sig else None)"
    using q(2) by (auto simp: query_active_task_by_signature_def if_active_def snap_active_def split: option.split)
  have key: "check_task_duplicate m key = Inr (if snap_active by_key
      then map_option (\<lambda>s. (sn_capture_id s, capture_status_to_string (sn_status s))) by_key else None)"
    using q(1) by (auto simp: check_task_duplicate_def is_key_active_def snapshot_active_def snap_active_def
        split: option.split)
  show ?thesis unfolding by_sig_def [symmetric] by_key_def [symmetric]
    by (cases by_sig; cases by_key)
      (auto simp: find_duplicate_def Let_def sig key q(3) snap_active_def split: option.split)
qed

section \<open>Adding and dispatching a task\<close>

lemma db_remove_ids: "dom (db_tasks (db_remove_other ix s c d)) \<subseteq> dom (db_tasks d)"
  by (auto simp: db_remove_other_def db_remove_def split: option.splits)

text \<open>The tasks after an addition: the new one, and those that have none of its names.\<close>

lemma db_add_tasks:
  assumes good: "db_good d" and fresh: "db_tasks d c = None"
  shows "\<exists>rest. db_tasks (db_add c key sig sid task d) = rest(c \<mapsto> task\<lparr>t_signature := sig, t_sid := sid\<rparr>) \<and>
    dom rest \<subseteq> dom (db_tasks d) \<and>
    (\<forall>j t. db_tasks d j = Some t \<longrightarrow> t_key t \<noteq> key \<longrightarrow> sig_name t \<noteq> Some sig \<longrightarrow> t_sid t \<noteq> sid \<longrightarrow> rest j = Some t)"
proof -
  define d2 where "d2 = db_remove_other (db_key d) key c d"
  define d3 where "d3 = (if sig \<noteq> [] then db_remove_other (db_sig d2) sig c d2 else d2)"
  define d4 where "d4 = (if sid \<noteq> [] then db_remove_other (db_sid d3) sid c d3 else d3)"
  have same: "d\<lparr>db_tasks := (db_tasks d)(c := None)\<rparr> = d" using fresh by (simp add: fun_upd_idem)
  have good2: "db_good d2" using good unfolding d2_def by (rule db_remove_other_good)
  then have good3: "db_good d3" unfolding d3_def by (simp add: db_remove_other_good)
  have "dom (db_tasks d2) \<subseteq> dom (db_tasks d)" unfolding d2_def by (rule db_remove_ids)
  moreover have "dom (db_tasks d3) \<subseteq> dom (db_tasks d2)" unfolding d3_def by (simp add: db_remove_ids)
  moreover have "dom (db_tasks d4) \<subseteq> dom (db_tasks d3)" unfolding d4_def by (simp add: db_remove_ids)
  ultimately have ids: "dom (db_tasks d4) \<subseteq> dom (db_tasks d)" by blast
  have stays: "db_tasks (db_remove_other ix s c e) j = Some t"
    if "db_tasks e j = Some t" "ix s \<noteq> Some j" for ix s e j and t :: SRxCaptureTask
    using that by (auto simp: db_remove_other_def db_remove_def split: option.splits)
  have kept: "db_tasks d4 j = Some t"
    if t: "db_tasks d j = Some t" "t_key t \<noteq> key" "sig_name t \<noteq> Some sig" "t_sid t \<noteq> sid" for j t
  proof -
    have "db_key d key \<noteq> Some j" using good t(1,2) by (auto simp: db_good_def exact_def names_def key_name_def)
    then have t2: "db_tasks d2 j = Some t" unfolding d2_def by (intro stays t(1))
    have "db_sig d2 sig \<noteq> Some j"
    proof
      assume "db_sig d2 sig = Some j"
      then have "names sig_name d2 j = Some sig" using good2 unfolding db_good_def sound_def by blast
      then show False using t2 t(3) by (simp add: names_def)
    qed
    then have t3: "db_tasks d3 j = Some t" unfolding d3_def by (auto intro: stays t2)
    have "db_sid d3 sid \<noteq> Some j"
      using good3 t3 t(4) by (auto simp: db_good_def exact_def names_def sid_name_def split: if_splits)
    then show ?thesis unfolding d4_def by (auto intro: stays t3)
  qed
  have "db_tasks (db_add c key sig sid task d) = (db_tasks d4)(c \<mapsto> task\<lparr>t_signature := sig, t_sid := sid\<rparr>)"
    unfolding db_add_def Let_def same d2_def [symmetric] d3_def [symmetric] d4_def [symmetric]
    by (simp add: db_insert_def)
  then show ?thesis using ids kept by blast
qed

lemma create_ok:
  fixes st env msg key sig sid matched
  assumes inv: "mgr_inv st" and room: "mt_next_capture_id st < 2 ^ 31 - 1"
  defines "c \<equiv> mt_next_capture_id st"
  defines "task \<equiv> task_for (me_now env) c msg key sig sid matched"
  shows "\<exists>m. create_and_add_capture_task env msg key sig sid matched reply st =
      Inr (c, started_reply c msg key sid (length matched) reply, set_task_mgr m (st\<lparr>mt_next_capture_id := c + 1\<rparr>)) \<and>
    mgr_inv (set_task_mgr m (st\<lparr>mt_next_capture_id := c + 1\<rparr>)) \<and> mgr_db m = db_add c key sig sid task (db st)"
proof -
  have c: "kCaptureIdStartValue \<le> c" "to_int32 (c + 1) = c + 1"
    using inv room by (simp_all add: mgr_inv_def c_def to_int32_id kCaptureIdStartValue_def)
  have next_id: "next_id st = (c, st\<lparr>mt_next_capture_id := c + 1\<rparr>)"
    using c by (simp add: next_id_def Let_def c_def [symmetric])
  have ok: "mgr_ok (task_mgr st)" and good: "db_good (db st)" and fresh: "db_tasks (db st) c = None"
    using inv by (auto simp: mgr_inv_def c_def)
  obtain m where m: "mgr_step (Add_task c key sig sid task) (task_mgr st) = Inr (R_bool True, m)" "mgr_ok m"
    "mgr_db m = db_add c key sig sid task (db st)" using add_step_ok [OF ok] by blast
  obtain a m1 where new: "new_task task (task_mgr st) = (a, m1)" by (cases "new_task task (task_mgr st)")
  have added: "mgr_add_task c key sig sid (Some a) m1 = Inr (True, m)"
    using m(1) new by (auto simp: with_bool_def try_then_Inr_iff)
  have good1: "db_good (mgr_db m)" unfolding m(3)
    by (rule db_add_good [OF good fresh]) (simp add: task_def task_for_def)
  have ids: "dom (db_tasks (mgr_db m)) \<subseteq> insert c (dom (db_tasks (db st)))"
  proof -
    from db_add_tasks [OF good fresh, of key sig sid task] obtain rest where
      "db_tasks (db_add c key sig sid task (db st)) = rest(c \<mapsto> task\<lparr>t_signature := sig, t_sid := sid\<rparr>)"
      "dom rest \<subseteq> dom (db_tasks (db st))" by blast
    then show ?thesis unfolding m(3) by (simp only: dom_fun_upd) auto
  qed
  have "mgr_inv (set_task_mgr m (st\<lparr>mt_next_capture_id := c + 1\<rparr>))"
    using inv c m(2) good1 ids by (auto simp: mgr_inv_def c_def [symmetric] dest!: subsetD)
  then show ?thesis using new added m(3)
    by (intro exI [of _ m]) (simp add: create_and_add_capture_task_def next_id task_def)
qed

text \<open>What a task looks like once a worker is chosen for it.\<close>

lemma dispatch_ok:
  assumes inv: "mgr_inv st" and task: "db_tasks (db st) c = Some task"
  shows "\<exists>st' sent. dispatch_task_to_worker env c key sid spec config msg st = Inr st' \<and> mgr_inv st' \<and>
    mt_next_capture_id st' = mt_next_capture_id st \<and> mt_out st' = mt_out st @ sent \<and>
    (if mt_worker_thd_vec st = [] then sent = [] \<and> db st' = db st
     else \<exists>w \<in> set (mt_worker_thd_vec st).
       sent = [(to_thread w, O_capture (M_Start (start_message env c key sid spec config w))),
               (to_thread w, O_request (msg\<lparr>rq_sid := sid\<rparr>))] \<and>
       db st' = db_update c (AssignWorkerFunctor w) (db st))"
proof (cases "mt_worker_thd_vec st = []")
  case True
  then show ?thesis using inv by (simp add: dispatch_task_to_worker_def)
next
  case False
  define w where "w = mt_worker_thd_vec st ! (unat (mt_next_worker st) mod length (mt_worker_thd_vec st))"
  define st3 where "st3 = put_obj_msg (to_thread w) (O_request (msg\<lparr>rq_sid := sid\<rparr>))
    (put_obj_msg (to_thread w) (O_capture (M_Start (start_message env c key sid spec config w)))
      (st\<lparr>mt_next_worker := mt_next_worker st + 1\<rparr>))"
  have w: "w \<in> set (mt_worker_thd_vec st)" using False by (simp add: w_def)
  have st3: "mt_data st3 = mt_data st" "mt_next_capture_id st3 = mt_next_capture_id st"
    "mt_out st3 = mt_out st @ [(to_thread w, O_capture (M_Start (start_message env c key sid spec config w))),
       (to_thread w, O_request (msg\<lparr>rq_sid := sid\<rparr>))]"
    by (simp_all add: st3_def put_obj_msg_def)
  have "mgr_inv st3" using inv mgr_inv_cong [OF st3(1,2)] by simp
  from steps_update [OF this keeps_names_functors(1)] obtain m where
    m: "with_mgr (mgr_update_task c (AssignWorkerFunctor w)) st3 = Inr (set_task_mgr m st3)"
    "mgr_inv (set_task_mgr m st3)" "mgr_db m = db_update c (AssignWorkerFunctor w) (db st3)" by (rule steps_toE)
  have "dispatch_task_to_worker env c key sid spec config msg st = Inr (set_task_mgr m st3)"
    using False m(1) by (simp add: dispatch_task_to_worker_def Let_def w_def st3_def)
  then show ?thesis using False m(2,3) st3 w by (intro exI) (auto simp: st3(1))
qed

section \<open>The number of captures at work\<close>

definition busy :: "task_db \<Rightarrow> int set" where
  "busy d = {i. \<exists>t. db_tasks d i = Some t \<and> (t_status t = STATUS_RESOLVING \<or> t_status t = STATUS_RUNNING)}"

lemma busy_count:
  assumes inv: "mgr_inv st" and room: "mt_next_capture_id st < 2 ^ 31"
  shows "unat (fst (count_active_tasks (task_mgr st))) = card (busy (db st))" and "card (busy (db st)) < 2 ^ 31"
proof -
  define g where "g = statuses (db_tasks (db st))"
  have ids: "dom (db_tasks (db st)) \<subseteq> {kCaptureIdStartValue..<mt_next_capture_id st}" using inv by (simp add: mgr_inv_def)
  have fin: "finite (dom (db_tasks (db st)))" by (rule finite_subset [OF ids]) simp
  have sub: "{i. g i = Some s} \<subseteq> dom (db_tasks (db st))" for s by (auto simp: g_def)
  have split: "busy (db st) = {i. g i = Some STATUS_RUNNING} \<union> {i. g i = Some STATUS_RESOLVING}"
    by (auto simp: busy_def g_def)
  then have card: "card (busy (db st)) = card {i. g i = Some STATUS_RUNNING} + card {i. g i = Some STATUS_RESOLVING}"
    by (simp only: split) (rule card_Un_disjoint, use finite_subset [OF sub fin] in auto)
  have "card (busy (db st)) \<le> card {kCaptureIdStartValue..<mt_next_capture_id st}"
    by (rule card_mono) (use sub ids split in auto)
  also have "\<dots> < 2 ^ 31" using room inv by (simp add: mgr_inv_def kCaptureIdStartValue_def)
  finally show less: "card (busy (db st)) < 2 ^ 31" .
  have "fst (count_active_tasks (task_mgr st)) = of_nat (card (busy (db st)))"
    using inv by (simp add: count_active_tasks_def get_stats_def Let_def mgr_inv_def mgr_stats_ok stats_of_def cnt_def
        card g_def [symmetric])
  then show "unat (fst (count_active_tasks (task_mgr st))) = card (busy (db st))"
    using less by (simp add: unat_of_nat_small)
qed

lemma limit_positive: "get_max_concurrent_limit pd \<ge> 1"
  by (simp add: get_max_concurrent_limit_def Let_def kMinConcurrentCaptures_def)

lemma at_capacity:
  assumes "mgr_inv st" "mt_next_capture_id st < 2 ^ 31" "get_max_concurrent_limit pd < 2 ^ 31"
  shows "fst (count_active_tasks (task_mgr st)) \<ge> word_of_int (get_max_concurrent_limit pd) \<longleftrightarrow>
    int (card (busy (db st))) \<ge> get_max_concurrent_limit pd"
proof -
  have "unat (word_of_int (get_max_concurrent_limit pd) :: u64) = nat (get_max_concurrent_limit pd)"
  proof -
    have "(word_of_int (get_max_concurrent_limit pd) :: u64) = of_nat (nat (get_max_concurrent_limit pd))"
      using limit_positive [of pd] by simp
    moreover have "nat (get_max_concurrent_limit pd) < 2 ^ LENGTH(64)" using assms(3) by simp
    ultimately show ?thesis using unat_of_nat_small by metis
  qed
  then show ?thesis using busy_count [OF assms(1,2)] limit_positive [of pd] by (simp add: word_le_nat_alt nat_le_iff)
qed

section \<open>The answer to a request\<close>

text \<open>
  What accepting a request does: a new task under the next id, with all tasks of other names kept, and,
  when there are workers, a start message that describes it, sent to one of them.
\<close>

definition accepted ::
  "mgr_env \<Rightarrow> SRxStartCaptureMsg \<Rightarrow> string \<Rightarrow> string \<Rightarrow> CaptureSpec \<Rightarrow> CaptureConfigSnapshot \<Rightarrow>
   CRxCaptureManagerThread \<Rightarrow> (ObjId \<times> mgr_out) list \<Rightarrow> CRxCaptureManagerThread \<Rightarrow> bool" where
  "accepted env msg key sig spec config st sent st' \<longleftrightarrow>
     (let c = mt_next_capture_id st in
      mt_next_capture_id st' = c + 1 \<and>
      (\<exists>task. db_tasks (db st') c = Some task \<and> t_capture_id task = c \<and> t_key task = key \<and> t_signature task = sig \<and>
         (sig \<noteq> [] \<longrightarrow> db_sig (db st') sig = Some c) \<and>
         (\<forall>j t. db_tasks (db st) j = Some t \<and> t_key t \<noteq> key \<and> sig_name t \<noteq> Some sig \<and> t_sid t \<noteq> t_sid task \<longrightarrow>
            db_tasks (db st') j = Some t) \<and>
         (if mt_worker_thd_vec st = [] then sent = [] \<and> t_status task = STATUS_PENDING
          else \<exists>w \<in> set (mt_worker_thd_vec st).
            sent = [(to_thread w, O_capture (M_Start (start_message env c key (t_sid task) spec config w))),
                    (to_thread w, O_request (msg\<lparr>rq_sid := t_sid task\<rparr>))] \<and>
            t_status task = STATUS_RESOLVING \<and> t_worker_thread_index task = w)))"

lemma accepted_dispatched:
  assumes "accepted env msg key sig spec config st sent st'" "mt_worker_thd_vec st \<noteq> []"
  obtains task w where "db_tasks (db st') (mt_next_capture_id st) = Some task" "t_status task = STATUS_RESOLVING"
    "w \<in> set (mt_worker_thd_vec st)"
    "(to_thread w, O_capture (M_Start (start_message env (mt_next_capture_id st) key (t_sid task) spec config w))) \<in> set sent"
proof -
  from assms obtain task w where "db_tasks (db st') (mt_next_capture_id st) = Some task" "t_status task = STATUS_RESOLVING"
    "w \<in> set (mt_worker_thd_vec st)"
    "sent = [(to_thread w, O_capture (M_Start (start_message env (mt_next_capture_id st) key (t_sid task) spec config w))),
      (to_thread w, O_request (msg\<lparr>rq_sid := t_sid task\<rparr>))]"
    unfolding accepted_def Let_def by (elim conjE exE) (simp, blast)
  then show thesis by (intro that) simp_all
qed

lemma accept_ok:
  assumes inv: "mgr_inv st" and room: "mt_next_capture_id st < 2 ^ 31 - 1"
  shows "\<exists>c reply1 st1 st2 sent. create_and_add_capture_task env msg key sig sid matched reply st = Inr (c, reply1, st1) \<and>
    dispatch_task_to_worker env c key sid spec config msg st1 = Inr st2 \<and> mgr_inv st2 \<and>
    mt_out st2 = mt_out st @ sent \<and> reply1 = started_reply c msg key sid (length matched) reply \<and>
    accepted env msg key sig spec config st sent st2"
proof -
  define c where "c = mt_next_capture_id st"
  define task where "task = task_for (me_now env) c msg key sig sid matched"
  define st0 where "st0 = st\<lparr>mt_next_capture_id := c + 1\<rparr>"
  from create_ok [OF inv room] obtain m where
    m: "create_and_add_capture_task env msg key sig sid matched reply st =
      Inr (c, started_reply c msg key sid (length matched) reply, set_task_mgr m st0)"
    "mgr_inv (set_task_mgr m st0)" "mgr_db m = db_add c key sig sid task (db st)"
    unfolding c_def task_def st0_def by blast
  have good: "db_good (db st)" and fresh: "db_tasks (db st) c = None" using inv by (auto simp: mgr_inv_def c_def)
  from db_add_tasks [OF good fresh, of key sig sid task] obtain rest where
    rest: "db_tasks (mgr_db m) = rest(c \<mapsto> task\<lparr>t_signature := sig, t_sid := sid\<rparr>)"
    "\<And>j t. \<lbrakk>db_tasks (db st) j = Some t; t_key t \<noteq> key; sig_name t \<noteq> Some sig; t_sid t \<noteq> sid\<rbrakk> \<Longrightarrow> rest j = Some t"
    using m(3) by auto
  have task: "task\<lparr>t_signature := sig, t_sid := sid\<rparr> = task" "t_capture_id task = c" "t_key task = key"
    "t_signature task = sig" "t_sid task = sid" "t_status task = STATUS_PENDING"
    by (simp_all add: task_def task_for_def)
  have new: "db_tasks (db (set_task_mgr m st0)) c = Some task" using rest(1) task(1) by simp
  have indexed: "sig \<noteq> [] \<longrightarrow> db_sig (mgr_db m) sig = Some c"
    using task(6) by (simp add: m(3) db_add_def Let_def db_insert_def is_active_status_def)
  have st0: "mt_next_capture_id st0 = c + 1" "mt_out st0 = mt_out st" "mt_worker_thd_vec st0 = mt_worker_thd_vec st"
    by (simp_all add: st0_def)
  from dispatch_ok [OF m(2) new, of env key sid spec config msg, unfolded set_task_mgr_simps st0] obtain st2 sent where
    d: "dispatch_task_to_worker env c key sid spec config msg (set_task_mgr m st0) = Inr st2" "mgr_inv st2"
    "mt_next_capture_id st2 = c + 1" "mt_out st2 = mt_out st @ sent"
    and w: "if mt_worker_thd_vec st = [] then sent = [] \<and> db st2 = mgr_db m
     else \<exists>w \<in> set (mt_worker_thd_vec st).
       sent = [(to_thread w, O_capture (M_Start (start_message env c key sid spec config w))),
               (to_thread w, O_request (msg\<lparr>rq_sid := sid\<rparr>))] \<and>
       db st2 = db_update c (AssignWorkerFunctor w) (mgr_db m)"
    by blast
  have kept: "db_tasks (mgr_db m) j = Some t"
    if "db_tasks (db st) j = Some t" "t_key t \<noteq> key" "sig_name t \<noteq> Some sig" "t_sid t \<noteq> sid" for j t
    using rest(2) [OF that] that(1) fresh rest(1) by auto
  have "accepted env msg key sig spec config st sent st2"
  proof (cases "mt_worker_thd_vec st = []")
    case True
    then show ?thesis using w d(3) new task kept indexed by (simp add: accepted_def Let_def c_def [symmetric])
  next
    case False
    then obtain w where w: "w \<in> set (mt_worker_thd_vec st)"
      "sent = [(to_thread w, O_capture (M_Start (start_message env c key sid spec config w))),
               (to_thread w, O_request (msg\<lparr>rq_sid := sid\<rparr>))]"
      "db st2 = db_update c (AssignWorkerFunctor w) (mgr_db m)" using w by auto
    have "db_tasks (db st2) = (db_tasks (mgr_db m))(c \<mapsto> AssignWorkerFunctor w task)"
      using new w(3) by (simp add: db_update_def Let_def)
    then have tasks: "db_tasks (db st2) c = Some (AssignWorkerFunctor w task)"
      "\<And>j. j \<noteq> c \<Longrightarrow> db_tasks (db st2) j = db_tasks (mgr_db m) j" by simp_all
    have assigned: "t_capture_id (AssignWorkerFunctor w task) = c" "t_key (AssignWorkerFunctor w task) = key"
      "t_signature (AssignWorkerFunctor w task) = sig" "t_sid (AssignWorkerFunctor w task) = sid"
      "t_status (AssignWorkerFunctor w task) = STATUS_RESOLVING" "t_worker_thread_index (AssignWorkerFunctor w task) = w"
      by (simp_all add: AssignWorkerFunctor_def task Let_def)
    have kept2: "db_tasks (db st2) j = Some t"
      if "db_tasks (db st) j = Some t \<and> t_key t \<noteq> key \<and> sig_name t \<noteq> Some sig \<and> t_sid t \<noteq> sid" for j t
      using kept [of j t] tasks(2) [of j] that fresh by (cases "j = c") auto
    have "sig \<noteq> [] \<longrightarrow> db_sig (db st2) sig = Some c"
      using new by (simp add: w(3) db_update_def Let_def assigned is_active_status_def)
    then show ?thesis unfolding accepted_def Let_def c_def [symmetric] if_not_P [OF False]
      by (intro conjI [OF d(3)] exI [of _ "AssignWorkerFunctor w task"])
        (use tasks(1) kept2 w(1,2) in \<open>simp_all add: assigned\<close>)
  qed
  then show ?thesis using m(1) d by blast
qed

lemma reply_simps [simp]:
  "hr_status (json_reply s r b p) = s" "hr_conn_id (json_reply s r b p) = hr_conn_id p"
  "hr_conn_id (new_reply t) = obj_id t"
  "hr_status (finish_reply env msg p) = hr_status p" "hr_conn_id (finish_reply env msg p) = hr_conn_id p"
  by (simp_all add: json_reply_def new_reply_def finish_reply_def Let_def)

lemma sent_reply_simps:
  "mt_data (send_reply_to_http t r st) = mt_data st"
  "mt_next_capture_id (send_reply_to_http t r st) = mt_next_capture_id st"
  "mt_worker_thd_vec (send_reply_to_http t r st) = mt_worker_thd_vec st"
  "obj_thread_index t > 0 \<Longrightarrow> mt_out (send_reply_to_http t r st) = mt_out st @ [(t, O_reply r)]"
  by (simp_all add: send_reply_to_http_def put_obj_msg_def)

text \<open>The verdict on a request that was resolved, with the messages sent besides the reply.\<close>

definition verdict ::
  "mgr_env \<Rightarrow> SRxStartCaptureMsg \<Rightarrow> string \<Rightarrow> string \<Rightarrow> CaptureSpec \<Rightarrow> CaptureConfigSnapshot \<Rightarrow> int \<Rightarrow>
   CRxCaptureManagerThread \<Rightarrow> int \<Rightarrow> (ObjId \<times> mgr_out) list \<Rightarrow> CRxCaptureManagerThread \<Rightarrow> bool" where
  "verdict env msg key sig spec config limit st status sent st' \<longleftrightarrow>
     (if duplicate_of (db st) key sig then status = 409
      else if int (card (busy (db st))) \<ge> limit then status = 429
      else status = 200 \<and> accepted env msg key sig spec config st sent st')"

lemma admit_ok:
  fixes st env msg key spec config matched
  assumes inv: "mgr_inv st" and room: "mt_next_capture_id st < 2 ^ 31 - 1"
  defines "sig \<equiv> capture_signature spec config matched"
  shows "\<exists>reply st' sent. admit_capture env msg key spec config matched st = Inr (reply, st') \<and> mgr_inv st' \<and>
    mt_out st' = mt_out st @ sent \<and> hr_conn_id reply = obj_id (rq_reply_target msg) \<and>
    (hr_status reply \<noteq> 200 \<longrightarrow> sent = [] \<and> st' = st) \<and>
    verdict env msg key sig spec config (get_max_concurrent_limit (mt_data st)) st (hr_status reply) sent st'"
proof -
  define sid where "sid = make_sid_with_timestamp (me_localtime env) (me_local_sec env) (me_now_usec env) sig"
  define lim where "lim = get_max_concurrent_limit (mt_data st)"
  have ok: "mgr_ok (task_mgr st)" and good: "db_good (db st)" using inv by (simp_all add: mgr_inv_def)
  from find_duplicate_ok [OF ok] obtain dup where
    dup: "find_duplicate (task_mgr st) sig key sid = Inr dup"
    "dup = None \<longleftrightarrow> \<not> duplicate_of (db st) key sig"
    unfolding duplicate_of_index [OF good] by metis
  note unfolded = admit_capture_def Let_def sig_def [symmetric] sid_def [symmetric] lim_def [symmetric] dup(1)
  show ?thesis
  proof (cases dup)
    case (Some d)
    obtain i s k sd where d: "d = (i, s, k, sd)" by (cases d)
    have "duplicate_of (db st) key sig" using dup(2) Some by simp
    then show ?thesis using inv Some d
      by (simp add: unfolded create_duplicate_error_reply_def verdict_def)
  next
    case None
    then have twin: "\<not> duplicate_of (db st) key sig" using dup(2) by simp
    have cap: "fst (count_active_tasks (task_mgr st)) \<ge> word_of_int lim \<longleftrightarrow> int (card (busy (db st))) \<ge> lim"
      unfolding lim_def by (rule at_capacity [OF inv]) (use room inv in \<open>simp_all add: mgr_inv_def\<close>)
    show ?thesis
    proof (cases "int (card (busy (db st))) \<ge> lim")
      case True
      then show ?thesis using inv None twin cap
        by (simp add: unfolded create_capacity_error_reply_def verdict_def)
    next
      case False
      from accept_ok [OF inv room, of env msg key sig sid matched "new_reply (rq_reply_target msg)" spec config]
      obtain c reply1 st1 st2 sent where
        "create_and_add_capture_task env msg key sig sid matched (new_reply (rq_reply_target msg)) st = Inr (c, reply1, st1)"
        "dispatch_task_to_worker env c key sid spec config msg st1 = Inr st2" "mgr_inv st2" "mt_out st2 = mt_out st @ sent"
        "reply1 = started_reply c msg key sid (length matched) (new_reply (rq_reply_target msg))"
        "accepted env msg key sig spec config st sent st2" by blast
      then show ?thesis using False None twin cap
        by (intro exI [of _ reply1] exI [of _ st2] exI [of _ sent])
          (simp add: unfolded started_reply_def verdict_def not_le)
    qed
  qed
qed

lemma target_auto: "rq_reply_target (auto_filter matched req) = rq_reply_target req"
  by (simp add: auto_filter_def Let_def)

lemma target_infer: "rq_reply_target (infer_port req) = rq_reply_target req"
  by (simp add: infer_port_def Let_def)

lemma target_complete: "rq_reply_target (fst (complete_request s cfg req)) = rq_reply_target req"
  by (simp add: complete_request_def Let_def)

text \<open>
  C11. The answer to a request to start a capture.  In every reachable state the request is handled without a
  memory fault and exactly one reply goes to the connection that asked, after the messages to a worker, if
  any.  The status is determined by the request and the state: 404 exactly when the process is not found;
  otherwise 409 exactly when an active task has its key, or the task the table holds for its signature (the
  last accepted or updated one that bears it) is active; otherwise 429 exactly when as many captures are
  resolving or running as are allowed; and 200 in all other cases.  Then there is a new task under a new
  id, the table holds it for the signature, and a worker, when there is one, has got the start message with
  its specification.  A refused request changes no task and sends nothing else.
\<close>

theorem start_capture_answered:
  assumes "mgr_inv st" "mt_next_capture_id st < 2 ^ 31 - 1"
    and "obj_thread_index (rq_reply_target req) > 0"
  shows "\<exists>st' sent reply. handle_start_capture env req st = Inr st' \<and> mgr_inv st' \<and>
    mt_out st' = mt_out st @ sent @ [(rq_reply_target req, O_reply reply)] \<and>
    hr_conn_id reply = obj_id (rq_reply_target req) \<and>
    (hr_status reply \<noteq> 200 \<longrightarrow> sent = [] \<and> db st' = db st) \<and>
    (case resolve_target_processes (me_proc env) req of
       Inl e \<Rightarrow> hr_status reply = 404
     | Inr matched \<Rightarrow>
         (case resolved_request env (mt_data st) matched req of (key, msg, config, spec) \<Rightarrow>
            verdict env msg key (capture_signature spec config matched) spec config
              (get_max_concurrent_limit (mt_data st)) st (hr_status reply) sent st'))"
proof (cases "resolve_target_processes (me_proc env) req")
  case (Inl e)
  then have e: "hr_status e = 404" "hr_conn_id e = obj_id (rq_reply_target req)"
    by (auto simp: resolve_target_processes_def Let_def split: ECaptureMode.splits if_splits prod.splits)
  show ?thesis
    by (intro exI [of _ "send_reply_to_http (rq_reply_target req) e st"] exI [of _ "[]"] exI [of _ e])
      (use assms Inl e in \<open>simp add: handle_start_capture_def sent_reply_simps mgr_inv_def\<close>)
next
  case (Inr matched)
  obtain key msg config spec where parts: "resolved_request env (mt_data st) matched req = (key, msg, config, spec)"
    by (metis prod_cases4)
  then have same: "rq_reply_target msg = rq_reply_target req"
    using target_complete [of "current_strategy_config (mt_data st)"
        "get_capture_config_snapshot (me_now env) (mt_data st)" "infer_port (auto_filter matched req)"]
    by (auto simp: resolved_request_def target_infer target_auto Let_def split: prod.splits)
  from admit_ok [OF assms(1,2), of env msg key spec config matched] obtain reply st1 sent where
    a: "admit_capture env msg key spec config matched st = Inr (reply, st1)" "mgr_inv st1" "mt_out st1 = mt_out st @ sent"
    "hr_conn_id reply = obj_id (rq_reply_target msg)" "hr_status reply \<noteq> 200 \<longrightarrow> sent = [] \<and> st1 = st"
    "verdict env msg key (capture_signature spec config matched) spec config (get_max_concurrent_limit (mt_data st)) st
       (hr_status reply) sent st1" by blast
  define st2 where "st2 = send_reply_to_http (rq_reply_target req) (finish_reply env msg reply) st1"
  have st2: "mt_data st2 = mt_data st1" "mt_next_capture_id st2 = mt_next_capture_id st1"
    "mt_out st2 = mt_out st @ sent @ [(rq_reply_target req, O_reply (finish_reply env msg reply))]"
    using assms(3) a(3) by (simp_all add: st2_def sent_reply_simps)
  have "verdict env msg key (capture_signature spec config matched) spec config (get_max_concurrent_limit (mt_data st)) st
       (hr_status reply) sent st2" using a(6) by (simp only: verdict_def accepted_def st2(1,2))
  moreover have "handle_start_capture env req st = Inr st2"
    by (simp add: handle_start_capture_def Inr parts a(1) st2_def)
  ultimately show ?thesis using a st2 Inr parts same mgr_inv_cong [OF st2(1,2)]
    by (intro exI [of _ st2] exI [of _ sent] exI [of _ "finish_reply env msg reply"]) simp
qed

section \<open>Concrete inputs\<close>

definition sample_mgr_env :: mgr_env where
  "sample_mgr_env =
     \<lparr>me_now = 100, me_now_usec = 100000000, me_now_ms = 0,
      me_localtime = (\<lambda>t. \<lparr>tm_year = 126, tm_mon = 0, tm_mday = 1, tm_hour = 0, tm_min = 0\<rparr>), me_local_sec = (\<lambda>t. 0),
      me_proc = \<lparr>pr_dir = (\<lambda>p. None), pr_file = (\<lambda>p. None), pr_link = (\<lambda>p. None), pr_isdir = (\<lambda>p. False)\<rparr>,
      me_thread_index = 2, me_io = \<lparr>wio_read = True, wio_create = True, wio_written = 4096, wio_rename = True\<rparr>\<rparr>"

definition sample_mgr :: CRxCaptureManagerThread where
  "sample_mgr = (CRxCaptureManagerThread_new CRxProcData_new Map.empty)\<lparr>mt_worker_thd_vec := [7]\<rparr>"

definition sample_req :: SRxStartCaptureMsg where
  "sample_req = SRxStartCaptureMsg_new\<lparr>rq_iface := ''eth0'', rq_duration_sec := 5,
     rq_reply_target := \<lparr>obj_id = 9, obj_thread_index = 3\<rparr>\<rparr>"

lemma sample_mgr_inv: "mgr_inv sample_mgr"
proof -
  have "mgr_inv (CRxCaptureManagerThread_new CRxProcData_new Map.empty)"
    by (rule mgr_inv_new)
      (simp_all add: CRxProcData_new_def get_max_concurrent_limit_def kMinConcurrentCaptures_def)
  then show ?thesis by (simp add: sample_mgr_def mgr_inv_def)
qed

lemma sample_mgr_facts:
  "db sample_mgr = db_new" "mt_next_capture_id sample_mgr = 1000" "mt_worker_thd_vec sample_mgr = [7]"
  "mt_out sample_mgr = []" "get_max_concurrent_limit (mt_data sample_mgr) = 1"
  by (simp_all add: sample_mgr_def CRxCaptureManagerThread_new_def CRxProcData_new_def mgr_db_new kCaptureIdStartValue_def
      get_max_concurrent_limit_def kMinConcurrentCaptures_def Let_def)

lemma sample_resolved: "resolve_target_processes (me_proc sample_mgr_env) sample_req = Inr []"
  by (simp add: resolve_target_processes_def sample_req_def SRxStartCaptureMsg_new_def)

lemma start_capture_answered_witness:
  "\<exists>st' sent reply. handle_start_capture sample_mgr_env sample_req sample_mgr = Inr st' \<and>
     mt_out st' = sent @ [(\<lparr>obj_id = 9, obj_thread_index = 3\<rparr>, O_reply reply)] \<and> hr_status reply = 200 \<and>
     length sent = 2"
proof -
  have target: "rq_reply_target sample_req = \<lparr>obj_id = 9, obj_thread_index = 3\<rparr>" by (simp add: sample_req_def)
  have none: "\<not> duplicate_of (db sample_mgr) k sig" "busy (db sample_mgr) = {}" for k sig
    by (simp_all add: duplicate_of_def active_task_def busy_def sample_mgr_facts db_new_def)
  obtain key msg config spec where
    parts: "resolved_request sample_mgr_env (mt_data sample_mgr) [] sample_req = (key, msg, config, spec)"
    by (metis prod_cases4)
  from start_capture_answered [OF sample_mgr_inv, of sample_req sample_mgr_env] obtain st' sent reply where
    a: "handle_start_capture sample_mgr_env sample_req sample_mgr = Inr st'"
      "mt_out st' = sent @ [(\<lparr>obj_id = 9, obj_thread_index = 3\<rparr>, O_reply reply)]"
      "verdict sample_mgr_env msg key (capture_signature spec config []) spec config 1 sample_mgr (hr_status reply) sent st'"
    by (auto simp: sample_mgr_facts target sample_resolved parts)
  then have "hr_status reply = 200" "accepted sample_mgr_env msg key (capture_signature spec config []) spec config
      sample_mgr sent st'"
    by (auto simp: verdict_def none Let_def)
  then show ?thesis using a(1,2) by (auto simp: accepted_def sample_mgr_facts Let_def)
qed

end
