(* ===== verification/Capture_Manager_Facts.thy ===== *)
theory Capture_Manager_Facts
  imports Capture_Manager Capture_Start_Facts Capture_Worker_Facts
begin

text \<open>
  Facts about the capture manager as a whole: no run of messages, timers and loop turns makes it fail, every
  request is answered exactly once, and a capture that is accepted and carried out by a worker ends.
\<close>

section \<open>Runs of the thread\<close>

datatype mgr_event = E_msg mgr_in | E_timer int | E_run

fun mgr_step_event :: "mgr_env \<Rightarrow> mgr_event \<Rightarrow> CRxCaptureManagerThread \<Rightarrow> mem_fault + CRxCaptureManagerThread" where
  "mgr_step_event env (E_msg m) st = handle_msg env m st"
| "mgr_step_event env (E_timer t) st = handle_timeout t st"
| "mgr_step_event env E_run st = run_process st"

fun mgr_run :: "(mgr_env \<times> mgr_event) list \<Rightarrow> CRxCaptureManagerThread \<Rightarrow> mem_fault + CRxCaptureManagerThread" where
  "mgr_run [] st = Inr st"
| "mgr_run ((env, e) # es) st = try_then (mgr_step_event env e st) (mgr_run es)"

text \<open>The connections replies went to, and those that asked for one.\<close>

definition reply_targets :: "(ObjId \<times> mgr_out) list \<Rightarrow> ObjId list" where
  "reply_targets out = map fst (filter (\<lambda>x. case snd x of O_reply r \<Rightarrow> True | _ \<Rightarrow> False) out)"

definition asker :: "ObjId \<Rightarrow> ObjId list" where
  "asker t = (if obj_thread_index t > 0 then [t] else [])"

fun asks :: "mgr_event \<Rightarrow> ObjId list" where
  "asks (E_msg (I_start m)) = asker (rq_reply_target m)"
| "asks (E_msg (I_stop m)) = asker (so_reply_target m)"
| "asks (E_msg (I_query m)) = asker (qu_reply_target m)"
| "asks _ = []"

lemma reply_targets_simps [simp]:
  "reply_targets [] = []" "reply_targets (a @ b) = reply_targets a @ reply_targets b"
  "reply_targets ((t, O_reply r) # out) = t # reply_targets out"
  "reply_targets ((t, O_capture c) # out) = reply_targets out"
  "reply_targets ((t, O_request q) # out) = reply_targets out"
  "reply_targets ((t, O_sample s) # out) = reply_targets out"
  by (simp_all add: reply_targets_def)

text \<open>\<open>handled st n ts r\<close>: a step that ends in a good state, takes at most \<open>n\<close> new ids and replies to \<open>ts\<close>.\<close>

definition handled ::
  "CRxCaptureManagerThread \<Rightarrow> nat \<Rightarrow> ObjId list \<Rightarrow> mem_fault + CRxCaptureManagerThread \<Rightarrow> bool" where
  "handled st n ts r \<longleftrightarrow>
     (\<exists>st' sent. r = Inr st' \<and> mgr_inv st' \<and> mt_next_capture_id st' \<le> mt_next_capture_id st + int n \<and>
        mt_out st' = mt_out st @ sent \<and> reply_targets sent = ts)"

lemma handledI:
  "\<lbrakk>mgr_inv st'; mt_next_capture_id st' \<le> mt_next_capture_id st + int n; mt_out st' = mt_out st @ sent;
    reply_targets sent = ts\<rbrakk> \<Longrightarrow> handled st n ts (Inr st')"
  by (auto simp: handled_def)

lemma handled_weaken: "\<lbrakk>handled st n ts r; n \<le> m\<rbrakk> \<Longrightarrow> handled st m ts r"
  unfolding handled_def by fastforce

lemma handled_steps: "steps_to g st r \<Longrightarrow> handled st 0 [] r"
  by (auto elim!: steps_toE intro!: handledI [where sent = "[]"])

lemma handled_then:
  assumes "handled st n ts r"
    and "\<And>st1. \<lbrakk>mgr_inv st1; mt_next_capture_id st1 \<le> mt_next_capture_id st + int n\<rbrakk> \<Longrightarrow> handled st1 m us (k st1)"
  shows "handled st (n + m) (ts @ us) (try_then r k)"
proof -
  from assms(1) obtain st1 s1 where 1: "r = Inr st1" "mgr_inv st1" "mt_next_capture_id st1 \<le> mt_next_capture_id st + int n"
    "mt_out st1 = mt_out st @ s1" "reply_targets s1 = ts" by (auto simp: handled_def)
  from assms(2) [OF 1(2,3)] obtain st2 s2 where 2: "k st1 = Inr st2" "mgr_inv st2"
    "mt_next_capture_id st2 \<le> mt_next_capture_id st1 + int m" "mt_out st2 = mt_out st1 @ s2" "reply_targets s2 = us"
    by (auto simp: handled_def)
  show ?thesis using 1 2 by (auto simp: handled_def intro!: exI [of _ st2] exI [of _ "s1 @ s2"])
qed

lemmas handled_then0 = handled_then [where n = 0 and m = 0 and ts = "[]" and us = "[]", simplified]

section \<open>Each handler\<close>

lemma handled_start:
  assumes "mgr_inv st" "mt_next_capture_id st < 2 ^ 31 - 1"
  shows "handled st 1 (asker (rq_reply_target req)) (handle_start_capture env req st)"
proof (cases "resolve_target_processes (me_proc env) req")
  case (Inl e)
  then show ?thesis using assms(1)
    by (auto simp: handle_start_capture_def send_reply_to_http_def put_obj_msg_def asker_def mgr_inv_def
        intro!: handledI)
next
  case (Inr matched)
  obtain key msg config spec where parts: "resolved_request env (mt_data st) matched req = (key, msg, config, spec)"
    by (metis prod_cases4)
  from admit_ok [OF assms, of env msg key spec config matched] obtain reply st1 sent where
    a: "admit_capture env msg key spec config matched st = Inr (reply, st1)" "mgr_inv st1" "mt_out st1 = mt_out st @ sent"
    "hr_status reply \<noteq> 200 \<longrightarrow> sent = [] \<and> st1 = st"
    "verdict env msg key (capture_signature spec config matched) spec config (get_max_concurrent_limit (mt_data st)) st
       (hr_status reply) sent st1" by blast
  have n: "mt_next_capture_id st1 \<le> mt_next_capture_id st + 1" and s: "reply_targets sent = []"
    using a(4,5) by (auto simp: verdict_def accepted_def Let_def split: if_splits)
  have "handle_start_capture env req st = Inr (send_reply_to_http (rq_reply_target req) (finish_reply env msg reply) st1)"
    by (simp add: handle_start_capture_def Inr parts a(1))
  then show ?thesis using a(2,3) n s
    by (auto simp: send_reply_to_http_def put_obj_msg_def asker_def mgr_inv_def intro!: handledI)
qed

lemma handled_quiet:
  "\<lbrakk>mgr_inv st; mt_data st' = mt_data st; mt_next_capture_id st' = mt_next_capture_id st;
    mt_out st' = mt_out st @ sent; reply_targets sent = ts\<rbrakk> \<Longrightarrow> handled st n ts (Inr st')"
  by (rule handledI) (simp_all add: mgr_inv_def)

lemma handled_query_then:
  assumes "mgr_inv st" "\<And>sn. handled st n ts (k sn)"
  shows "handled st n ts (try_then (mgr_query_task (task_mgr st) c) k)"
  using assms by (simp add: mgr_query_task_def query_ok mgr_inv_def)

lemma handled_clear: "mgr_inv st \<Longrightarrow> handled st 0 [] (clear_module_cooldown_for_capture c st)"
  unfolding clear_module_cooldown_for_capture_def
  by (rule handled_query_then) (auto simp: Let_def intro!: handled_quiet [where sent = "[]"] split: option.split)

lemma handled_stop: "mgr_inv st \<Longrightarrow> handled st 0 (asker (so_reply_target m)) (Inr (handle_stop_capture m st))"
  by (rule handled_quiet [where sent = "mt_out (handle_stop_capture m (st\<lparr>mt_out := []\<rparr>))"])
    (auto simp: handle_stop_capture_def send_reply_to_http_def put_obj_msg_def asker_def)

lemma handled_reply:
  "mgr_inv st \<Longrightarrow> handled st 0 (asker t) (Inr (send_reply_to_http t r st))"
  by (rule handled_quiet [where sent = "if obj_thread_index t > 0 then [(t, O_reply r)] else []"])
    (auto simp: send_reply_to_http_def put_obj_msg_def asker_def)

lemma handled_query: "mgr_inv st \<Longrightarrow> handled st 0 (asker (qu_reply_target m)) (handle_query_capture env m st)"
  unfolding handle_query_capture_def by (rule handled_query_then) (auto simp: Let_def intro!: handled_reply)

lemma handled_both: "\<lbrakk>mgr_inv st; keeps_names f\<rbrakk> \<Longrightarrow> handled st 0 [] (with_mgr (update_then_status c f s) st)"
  by (rule handled_steps) (rule steps_both)

lemma handled_update: "\<lbrakk>mgr_inv st; keeps_names f\<rbrakk> \<Longrightarrow> handled st 0 [] (with_mgr (mgr_update_task c f) st)"
  by (rule handled_steps) (rule steps_update)

lemma handled_finished: "mgr_inv st \<Longrightarrow> handled st 0 [] (handle_capture_finished_v2 env m st)"
  unfolding handle_capture_finished_v2_def Let_def with_mgr_ops
  by (intro handled_then0 handled_clear)
    (auto intro!: handled_both handled_update handled_then0 keeps_names_functors handled_steps [OF steps_status])

lemma handled_failed: "mgr_inv st \<Longrightarrow> handled st 0 [] (handle_capture_failed_v2 env m st)"
  unfolding handle_capture_failed_v2_def Let_def with_mgr_ops
  by (intro handled_then0 handled_clear) (auto intro!: handled_both keeps_names_functors)

lemma handled_file_ready: "mgr_inv st \<Longrightarrow> handled st 0 [] (handle_capture_file_ready_v2 env m st)"
  unfolding handle_capture_file_ready_v2_def
  by (auto simp: put_obj_msg_def intro!: handled_then0 handled_steps [OF steps_files] handled_quiet [where ts = "[]"]
      split: option.split)

lemma handled_filtered: "mgr_inv st \<Longrightarrow> handled st 0 [] (handle_capture_filtered_file_v2 env m st)"
  unfolding handle_capture_filtered_file_v2_def Let_def with_mgr_ops
  by (intro handled_then0 handled_clear handled_steps [OF steps_files] handled_both)
    (auto simp: with_usage_def intro!: handled_quiet [where sent = "[]"] keeps_names_functors split: prod.split)

lemma handled_raw: "mgr_inv st \<Longrightarrow> handled st 0 [] (Inr (handle_capture_raw_file_v2 env m st))"
  by (rule handled_quiet [where sent = "mt_out (handle_capture_raw_file_v2 env m (st\<lparr>mt_out := []\<rparr>))"])
    (auto simp: handle_capture_raw_file_v2_def put_obj_msg_def Let_def)

lemma handled_endian: "mgr_inv st \<Longrightarrow> handled st 0 [] (Inr (handle_pdef_endian_detected env m st))"
  by (rule handled_quiet [where sent = "[]"])
    (auto simp: handle_pdef_endian_detected_def with_usage_def split: prod.split)

text \<open>An update of several fields is a sequence of task operations.\<close>

definition mgr_good :: "CRxCaptureManagerThread \<Rightarrow> CRxSafeTaskMgr \<Rightarrow> bool" where
  "mgr_good st m \<longleftrightarrow> mgr_inv (set_task_mgr m st)"

lemma good_update:
  assumes "mgr_good st m" "keeps_names f"
  shows "\<exists>ok m'. mgr_update_task c f m = Inr (ok, m') \<and> mgr_good st m'"
    and "\<exists>ok m'. update_then_status c f s m = Inr (ok, m') \<and> mgr_good st m'"
proof -
  have inv: "mgr_inv (set_task_mgr m st)" using assms(1) by (simp add: mgr_good_def)
  from steps_update [OF inv assms(2), of c] show "\<exists>ok m'. mgr_update_task c f m = Inr (ok, m') \<and> mgr_good st m'"
    by (auto simp: with_mgr_def mgr_good_def try_then_Inr_iff elim!: steps_toE)
  from steps_both [OF inv assms(2), of c s] show "\<exists>ok m'. update_then_status c f s m = Inr (ok, m') \<and> mgr_good st m'"
    by (auto simp: with_mgr_def mgr_good_def try_then_Inr_iff elim!: steps_toE)
qed

lemma good_attempt:
  assumes "\<exists>ok m'. f (snd r) = Inr (ok, m') \<and> mgr_good st m'" "mgr_good st (snd r)"
  obtains r' where "attempt cond f r = Inr r'" "mgr_good st (snd r')"
  using assms by (cases cond) (auto simp: attempt_def)

lemma handled_good: "\<lbrakk>mgr_good st m; keeps_names f\<rbrakk> \<Longrightarrow> handled st 0 [] (with_mgr (mgr_update_task c f) (set_task_mgr m st))"
  using handled_update [of "set_task_mgr m st" f c] by (simp add: mgr_good_def handled_def)

lemma handled_task_update:
  assumes "mgr_inv st"
  shows "handled st 0 [] (handle_task_update env u st)"
proof -
  have start: "mgr_good st (snd (False, task_mgr st))" using assms by (simp add: mgr_good_def set_task_mgr_def)
  note unfolded = handle_task_update_def Let_def with_mgr_ops
  define f1 where "f1 = updater_start (up_start_time u * 1000000) (if up_update_capture_pid u then up_capture_pid u else - 1)
    (if up_update_output_file u then up_output_file u else [])"
  define f2 where "f2 = updater_progress (up_packet_count u) (up_bytes_captured u)
    (if up_update_end_time u then up_end_time u * 1000000 else 0)"
  define f3 where "f3 = updater_finished (if up_update_end_time u then up_end_time u * 1000000 else me_now_usec env)
    (up_packet_count u) (up_bytes_captured u) (if up_update_output_file u then up_output_file u else [])"
  define f4 where "f4 = updater_failed (me_now env) (up_error_message u)"
  define closed where "closed \<longleftrightarrow> up_new_status u = STATUS_COMPLETED"
  define g where "g = (if closed then update_then_status (up_capture_id u) f3 STATUS_COMPLETED
    else update_then_status (up_capture_id u) f4 STATUS_FAILED)"
  have names: "keeps_names f1" "keeps_names f2" "keeps_names f3" "keeps_names f4"
    by (simp_all add: f1_def f2_def f3_def f4_def keeps_names_functors)
  have good3: "\<exists>ok m'. g m = Inr (ok, m') \<and> mgr_good st m'" if "mgr_good st m" for m
    unfolding g_def using good_update(2) [OF that names(3)] good_update(2) [OF that names(4)] by simp
  obtain r1 where r1: "attempt (up_new_status u = STATUS_RUNNING \<and> up_update_start_time u)
      (update_then_status (up_capture_id u) f1 STATUS_RUNNING) (False, task_mgr st) = Inr r1" "mgr_good st (snd r1)"
    by (rule good_attempt [where f = "update_then_status (up_capture_id u) f1 STATUS_RUNNING" and r = "(False, task_mgr st)",
        OF good_update(2) [OF start names(1)] start])
  obtain r2 where r2: "attempt (up_update_stats u) (mgr_update_task (up_capture_id u) f2) r1 = Inr r2" "mgr_good st (snd r2)"
    by (rule good_attempt [where f = "mgr_update_task (up_capture_id u) f2" and r = r1,
        OF good_update(1) [OF r1(2) names(2)] r1(2)])
  obtain r3 where r3: "attempt (closed \<or> (up_new_status u = STATUS_FAILED \<and> up_update_error u)) g r2 = Inr r3"
    "mgr_good st (snd r3)" by (rule good_attempt [where f = g and r = r2, OF good3 [OF r2(2)] r2(2)])
  have "handle_task_update env u st = (if fst r3 then Inr (set_task_mgr (snd r3) st)
      else with_mgr (mgr_update_task (up_capture_id u) (UpdateTaskFunctor u)) (set_task_mgr (snd r3) st))"
    unfolding unfolded f1_def [symmetric] f2_def [symmetric] f3_def [symmetric] f4_def [symmetric]
      closed_def [symmetric] g_def [symmetric]
    by (simp add: r1(1) r2(1) r3(1))
  moreover have "handled st 0 [] (Inr (set_task_mgr (snd r3) st))"
    using r3(2) by (intro handledI [where sent = "[]"]) (simp_all add: mgr_good_def)
  ultimately show ?thesis using handled_good [OF r3(2) keeps_names_functors(3)] by simp
qed

lemma handled_started: "mgr_inv st \<Longrightarrow> handled st 0 [] (handle_capture_started_v2 m st)"
  unfolding handle_capture_started_v2_def with_mgr_ops by (intro handled_both keeps_names_functors)

lemma handled_progress: "mgr_inv st \<Longrightarrow> handled st 0 [] (handle_capture_progress_v2 m st)"
  unfolding handle_capture_progress_v2_def Let_def with_mgr_ops by (intro handled_update keeps_names_functors)

lemma handled_compress_done: "mgr_inv st \<Longrightarrow> handled st 0 [] (handle_clean_compress_done m st)"
  unfolding handle_clean_compress_done_def with_mgr_ops by (intro handled_update keeps_names_functors)

text \<open>Alerts: their copies go to HTTP threads, and a capture they start answers nobody.\<close>

lemma set_target_target:
  "set_target m v SRxStartCaptureMsg_new = Some msg \<Longrightarrow> rq_reply_target msg = no_target"
  by (cases m) (auto simp: set_target_def SRxStartCaptureMsg_new_def split: option.splits if_splits)

lemma prepared_from:
  assumes "prepare_capture_from_sample env pd alert = Some req"
  obtains m v msg d p u t where "set_target m v SRxStartCaptureMsg_new = Some msg"
    "req = (hint_fields d alert p msg)\<lparr>rq_client_ip := ''sample'', rq_request_user := u, rq_enqueue_ts_ms := t\<rparr>"
  using assms by (auto simp: prepare_capture_from_sample_def Let_def split: option.splits)

lemma prepared_target:
  "prepare_capture_from_sample env pd alert = Some req \<Longrightarrow> rq_reply_target req = no_target"
  by (elim prepared_from) (simp add: hint_fields_def Let_def set_target_target)

lemma put_samples:
  "mt_data (fold (\<lambda>k. put_obj_msg (to_thread k) (O_sample a)) ks st) = mt_data st \<and>
   mt_next_capture_id (fold (\<lambda>k. put_obj_msg (to_thread k) (O_sample a)) ks st) = mt_next_capture_id st \<and>
   (\<exists>sent. mt_out (fold (\<lambda>k. put_obj_msg (to_thread k) (O_sample a)) ks st) = mt_out st @ sent \<and> reply_targets sent = [])"
proof (induction ks arbitrary: st)
  case (Cons k ks)
  show ?case using Cons.IH [of "put_obj_msg (to_thread k) (O_sample a) st"] by (auto simp: put_obj_msg_def)
qed auto

lemma handled_notify:
  assumes "mgr_inv st"
  shows "mgr_inv (notify_http alert st) \<and> mt_next_capture_id (notify_http alert st) = mt_next_capture_id st \<and>
    (\<exists>sent. mt_out (notify_http alert st) = mt_out st @ sent \<and> reply_targets sent = [])"
  using assms put_samples
  by (cases "get_thread (mt_data st) ''http_res''") (auto simp: notify_http_def mgr_inv_def)

lemma recorded_alert_inv:
  assumes "record_sample_alert now a (mt_data st) = (i, pd)" "mgr_inv st"
  shows "mgr_inv (st\<lparr>mt_data := pd\<rparr>)"
  using assms by (auto simp: record_sample_alert_def Let_def mgr_inv_def get_max_concurrent_limit_def)

lemma handled_sample:
  assumes "mgr_inv st" "mt_next_capture_id st < 2 ^ 31 - 1"
  shows "handled st 1 [] (handle_sample_alert env alert st)"
proof -
  define alert1 where "alert1 = (if al_module_name alert = [] then alert\<lparr>al_module_name := ''default''\<rparr> else alert)"
  obtain i pd where rec: "record_sample_alert (me_now env) (alert_record alert1) (mt_data st) = (i, pd)" by fastforce
  define alert2 where "alert2 = alert1\<lparr>al_alert_id := i\<rparr>"
  define st1 where "st1 = notify_http alert2 (st\<lparr>mt_data := pd\<rparr>)"
  obtain sent where st1: "mgr_inv st1" "mt_next_capture_id st1 = mt_next_capture_id st"
      "mt_out st1 = mt_out st @ sent" "reply_targets sent = []"
    using handled_notify [OF recorded_alert_inv [OF rec assms(1)], of alert2] by (auto simp: st1_def)
  have quiet: "handled st 1 [] (Inr st1)" using st1 by (intro handledI) simp_all
  have start: "handled st 1 [] (handle_start_capture env req
      (st1\<lparr>mt_module_last_trigger := f\<rparr>))" if "prepare_capture_from_sample env pd alert2 = Some req" for req f
  proof -
    let ?st2 = "st1\<lparr>mt_module_last_trigger := f\<rparr>"
    have "mgr_inv ?st2" "mt_next_capture_id ?st2 < 2 ^ 31 - 1" using st1 assms(2) by (simp_all add: mgr_inv_def)
    from handled_start [OF this, of req env] have "handled ?st2 1 [] (handle_start_capture env req ?st2)"
      by (simp add: prepared_target [OF that] asker_def no_target_def)
    then show ?thesis using st1 by (auto simp: handled_def)
  qed
  show ?thesis using quiet start
    by (simp add: handle_sample_alert_def Let_def alert1_def [symmetric] rec alert2_def [symmetric] st1_def [symmetric]
        split: option.split)
qed

section \<open>Timers\<close>

lemma handled_cleanup: "mgr_inv st \<Longrightarrow> handled st 0 [] (with_cleanup st)"
proof -
  assume inv: "mgr_inv st"
  then have "mgr_ok (task_mgr st)" by (simp add: mgr_inv_def)
  then obtain m where "cleanup_pending_deletes (task_mgr st) = Inr m" "mgr_ok m" "mgr_db m = db st" by (rule cleanup_ok)
  then show ?thesis using inv
    by (auto simp: with_cleanup_def mgr_inv_def intro!: handledI [where sent = "[]"])
qed

lemma handled_same:
  "\<lbrakk>handled st' n ts r; mt_next_capture_id st' = mt_next_capture_id st; mt_out st' = mt_out st\<rbrakk> \<Longrightarrow> handled st n ts r"
  by (auto simp: handled_def)

lemma timer_frame:
  "mt_data (start_clean_timer st) = mt_data st" "mt_data (start_queue_timer st) = mt_data st"
  "mt_next_capture_id (start_clean_timer st) = mt_next_capture_id st"
  "mt_next_capture_id (start_queue_timer st) = mt_next_capture_id st"
  "mt_out (start_clean_timer st) = mt_out st" "mt_out (start_queue_timer st) = mt_out st"
  by (simp_all add: start_clean_timer_def start_queue_timer_def split: option.split)

lemma handled_run: "mgr_inv st \<Longrightarrow> handled st 0 [] (run_process st)"
proof -
  assume inv: "mgr_inv st"
  define st1 where "st1 = (if mt_is_first st then st
    else start_clean_timer (start_queue_timer (st\<lparr>mt_is_first := True\<rparr>)))"
  have st1: "mt_data st1 = mt_data st" "mt_next_capture_id st1 = mt_next_capture_id st" "mt_out st1 = mt_out st"
    by (simp_all add: st1_def timer_frame)
  then have "mgr_inv st1" using inv mgr_inv_cong by blast
  from handled_same [OF handled_cleanup [OF this] st1(2,3)] show ?thesis
    unfolding run_process_def st1_def .
qed

lemma handled_timeout: "mgr_inv st \<Longrightarrow> handled st 0 [] (handle_timeout t st)"
proof -
  assume inv: "mgr_inv st"
  define st1 where "st1 = st\<lparr>mt_timers := filter (\<lambda>x. fst x \<noteq> t) (mt_timers st)\<rparr>"
  have inv1: "mgr_inv st1" using inv by (simp add: st1_def mgr_inv_def)
  have quiet: "handled s 0 [] (Inr (start_queue_timer s))" "handled s 0 [] (Inr (start_clean_timer s))" "handled s 0 [] (Inr s)"
    if "mgr_inv s" for s
    using that by (auto intro!: handled_quiet [where sent = "[]"] simp: timer_frame)
  have "handled st1 0 [] (handle_timeout t st)"
    using handled_then0 [OF handled_cleanup [OF inv1] quiet(1)] quiet(2,3) [OF inv1]
    by (simp add: handle_timeout_def Let_def st1_def [symmetric] check_queue_def)
  then show ?thesis by (rule handled_same) (simp_all add: st1_def)
qed

section \<open>Every message\<close>

lemma handled_msg:
  assumes "mgr_inv st" "mt_next_capture_id st < 2 ^ 31 - 1"
  shows "handled st 1 (asks (E_msg m)) (handle_msg env m st)"
proof -
  have none: "handled st 0 [] (Inr st)" using assms(1) by (intro handledI [where sent = "[]"]) simp_all
  note quiet = handled_task_update handled_started handled_progress handled_file_ready handled_finished
    handled_failed handled_raw handled_filtered handled_endian handled_compress_done
  show ?thesis
  proof (cases m)
    case (I_capture c)
    have "handled st 0 [] (handle_msg env m st)"
      unfolding I_capture by (cases c) (simp_all add: handle_msg_def quiet [OF assms(1)] none)
    then show ?thesis using I_capture by (auto intro: handled_weaken)
  qed (use assms none handled_start handled_sample in
    \<open>auto simp: handle_msg_def intro: handled_weaken [OF handled_stop] handled_weaken [OF handled_query]
       handled_weaken [OF handled_task_update] handled_weaken [OF none]\<close>)
qed

lemma handled_event:
  assumes "mgr_inv st" "mt_next_capture_id st < 2 ^ 31 - 1"
  shows "handled st 1 (asks e) (mgr_step_event env e st)"
  by (cases e) (use assms handled_msg handled_weaken [OF handled_run] handled_weaken [OF handled_timeout] in auto)

lemma handled_events:
  "\<lbrakk>mgr_inv st; mt_next_capture_id st + int (length es) < 2 ^ 31\<rbrakk> \<Longrightarrow>
   handled st (length es) (concat (map (\<lambda>e. asks (snd e)) es)) (mgr_run es st)"
proof (induction es arbitrary: st)
  case Nil
  then show ?case by (auto intro!: handledI [where sent = "[]"])
next
  case (Cons e es)
  obtain env ev where e: "e = (env, ev)" by (cases e)
  have "handled st 1 (asks ev) (mgr_step_event env ev st)" using Cons.prems by (intro handled_event) simp_all
  from handled_then [OF this, of "length es" "concat (map (\<lambda>e. asks (snd e)) es)" "mgr_run es"] Cons.IH Cons.prems(2)
  show ?case by (simp add: e)
qed


text \<open>
  C9. The manager answers.  Whatever sequence of messages (requests, stops, queries, reports of workers,
  filter, cleanup and sample threads in any order, about captures that exist or not), timers and loop turns
  the thread handles from a state in order, under any readings of clocks, processes and file operations, no
  step is a memory fault, the state stays in order, and the replies go to exactly those connections that
  asked, one each, in the order of the requests; as long as the ids do not reach the end of a C \<open>int\<close>.
\<close>

theorem manager_answers_every_request:
  assumes "mgr_inv st" "mt_next_capture_id st + int (length es) < 2 ^ 31"
  shows "\<exists>st' sent. mgr_run es st = Inr st' \<and> mgr_inv st' \<and> mt_out st' = mt_out st @ sent \<and>
    reply_targets sent = concat (map (\<lambda>e. asks (snd e)) es)"
  using handled_events [OF assms] by (auto simp: handled_def)

definition sample_events :: "(mgr_env \<times> mgr_event) list" where
  "sample_events =
     [(sample_mgr_env, E_run), (sample_mgr_env, E_msg (I_start sample_req)),
      (sample_mgr_env, E_timer TIMER_TYPE_QUEUE_CHECK),
      (sample_mgr_env, E_msg (I_query \<lparr>qu_capture_id = 77, qu_reply_target = \<lparr>obj_id = 5, obj_thread_index = 1\<rparr>\<rparr>)),
      (sample_mgr_env, E_msg (I_start sample_req))]"

lemma manager_answers_every_request_witness:
  "\<exists>st'. mgr_run sample_events sample_mgr = Inr st' \<and>
     reply_targets (mt_out st') =
       [\<lparr>obj_id = 9, obj_thread_index = 3\<rparr>, \<lparr>obj_id = 5, obj_thread_index = 1\<rparr>, \<lparr>obj_id = 9, obj_thread_index = 3\<rparr>]"
  using manager_answers_every_request [OF sample_mgr_inv, of sample_events]
  by (auto simp: sample_mgr_facts sample_events_def asker_def sample_req_def)

section \<open>From the request to the end of the capture\<close>

text \<open>What an operation does to the task it is about.\<close>

lemma db_update_task [simp]: "db_tasks (db_update c f d) c = map_option f (db_tasks d c)"
  by (simp add: db_update_def Let_def split: option.split)

lemma db_both_task [simp]: "db_tasks (db_both c f s d) c = map_option (\<lambda>t. (f t)\<lparr>t_status := s\<rparr>) (db_tasks d c)"
  by (simp add: db_both_def option.map_comp comp_def)

definition task_is :: "int \<Rightarrow> (SRxCaptureTask \<Rightarrow> bool) \<Rightarrow> CRxCaptureManagerThread \<Rightarrow> bool" where
  "task_is c P st \<longleftrightarrow> mgr_inv st \<and> (\<exists>t. db_tasks (db st) c = Some t \<and> P t)"

lemma steps_task:
  assumes "steps_to g st r" "task_is c P st" "\<And>t. P t \<Longrightarrow> Q (f t)" "db_tasks (g (db st)) c = map_option f (db_tasks (db st) c)"
  shows "\<exists>st'. r = Inr st' \<and> task_is c Q st'"
  using assms by (auto simp: task_is_def elim!: steps_toE)

lemma task_cleared:
  assumes "task_is c P st"
  shows "\<exists>st'. clear_module_cooldown_for_capture i st = Inr st' \<and> task_is c P st'"
proof -
  have "mgr_ok (task_mgr st)" using assms by (simp add: task_is_def mgr_inv_def)
  then show ?thesis using assms
    by (auto simp: clear_module_cooldown_for_capture_def mgr_query_task_def query_ok Let_def task_is_def mgr_inv_def
        split: option.split)
qed

lemma task_then:
  assumes "\<exists>st'. r = Inr st' \<and> task_is c P st'" "\<And>st'. task_is c P st' \<Longrightarrow> \<exists>st2. k st' = Inr st2 \<and> task_is c Q st2"
  shows "\<exists>st'. try_then r k = Inr st' \<and> task_is c Q st'"
  using assms by auto

lemma task_started:
  assumes "task_is (cm_capture_id m) P st"
  shows "\<exists>st'. handle_capture_started_v2 m st = Inr st' \<and> task_is (cm_capture_id m) (\<lambda>t. t_status t = STATUS_RUNNING) st'"
  unfolding handle_capture_started_v2_def with_mgr_ops
  by (rule steps_task [OF steps_both assms]) (use assms in \<open>auto simp: task_is_def keeps_names_functors\<close>)

lemma task_failed:
  assumes "task_is (cm_capture_id m) P st"
    and "failed_error_message m \<noteq> []"
  shows "\<exists>st'. handle_capture_failed_v2 env m st = Inr st' \<and>
    task_is (cm_capture_id m) (\<lambda>t. t_status t = STATUS_FAILED \<and> t_error_message t = failed_error_message m) st'"
  unfolding handle_capture_failed_v2_def with_mgr_ops Let_def if_not_P [OF assms(2)]
  by (intro task_then task_cleared)
    (rule steps_task [OF steps_both assms(1)], use assms in \<open>auto simp: task_is_def keeps_names_functors updater_failed_def\<close>)

lemma task_file_ready:
  assumes "task_is (cm_capture_id m) P st" "\<And>t fs. P t \<Longrightarrow> P (append_files fs t)"
  shows "\<exists>st'. handle_capture_file_ready_v2 env m st = Inr st' \<and> task_is (cm_capture_id m) P st'"
proof (cases "ready_files m = []")
  case False
  have inv: "mgr_inv st" using assms(1) by (simp add: task_is_def)
  have "\<exists>st'. with_mgr (append_capture_files (cm_capture_id m) (ready_files m)) st = Inr st' \<and> task_is (cm_capture_id m) P st'"
    by (rule steps_task [OF steps_files [OF inv False] assms(1), where f = "append_files (ready_files m)"])
      (use assms(2) in auto)
  moreover have "task_is c Q (put_obj_msg x y st') = task_is c Q st'" for c Q x y st'
    by (simp add: task_is_def put_obj_msg_def mgr_inv_def)
  ultimately show ?thesis using False by (auto simp: handle_capture_file_ready_v2_def split: option.split)
qed (use assms in \<open>simp add: handle_capture_file_ready_v2_def\<close>)

lemma task_finished:
  assumes "task_is (cm_capture_id m) P st" "rs_exit_code (finished_result m) = 0"
  shows "\<exists>st'. handle_capture_finished_v2 env m st = Inr st' \<and>
    task_is (cm_capture_id m) (\<lambda>t. t_status t = STATUS_COMPLETED \<and> t_packet_count t = rs_total_packets (finished_result m) \<and>
      t_bytes_captured t = rs_total_bytes (finished_result m)) st'"
  unfolding handle_capture_finished_v2_def with_mgr_ops Let_def if_P [OF assms(2)]
  by (intro task_then task_cleared)
    (rule steps_task [OF steps_both assms(1)], use assms in \<open>auto simp: task_is_def keeps_names_functors updater_finished_def Let_def\<close>)


text \<open>
  How a capture goes in its worker, when it ends: \<open>None\<close> when the device or the first file does not open,
  else the packets counted and the bytes written when the loop is left.
\<close>

definition capture_outcome ::
  "capture_env \<Rightarrow> CRxDumpCtx \<Rightarrow> dispatch_round list \<Rightarrow> SRxCaptureStartMsgV2 \<Rightarrow> dump_io \<Rightarrow> (u64 \<times> u64) option" where
  "capture_outcome env dc rs msg io =
     (case job_prepare env (job_new dc (ti_cfg (task_info_for msg)) (task_info_for msg), io) of
        (ok, job1, io1) \<Rightarrow>
          if \<not> ok then None
          else case capture_loop (ce_opens env) rs (job1, io1) of
                 Inr (Some (job2, _)) \<Rightarrow> Some (jb_packets job2, get_bytes_written job2)
               | _ \<Rightarrow> None)"

text \<open>What the worker reports about a capture with that outcome that no definition filters.\<close>

definition told_by :: "SRxCaptureStartMsgV2 \<Rightarrow> (u64 \<times> u64) option \<Rightarrow> (u32 \<times> rx_msg) list \<Rightarrow> bool" where
  "told_by msg outcome out \<longleftrightarrow>
     (\<forall>x \<in> set out. fst x = word_of_int (cm_sender_thread_index msg)) \<and>
     (case outcome of
        None \<Rightarrow> \<exists>f. map snd out = [M_Failed f] \<and> cm_capture_id f = cm_capture_id msg \<and>
          failed_error_message f = ''pcap_prepare_failed''
      | Some (n, b) \<Rightarrow>
          \<exists>s r f. map snd out = M_Started s # r @ [M_Finished f] \<and> cm_capture_id s = cm_capture_id msg \<and>
            (\<forall>m \<in> set r. \<exists>m1. m = M_File_ready m1 \<and> cm_capture_id m1 = cm_capture_id msg) \<and>
            cm_capture_id f = cm_capture_id msg \<and> rs_exit_code (finished_result f) = 0 \<and>
            rs_total_packets (finished_result f) = n \<and> rs_total_bytes (finished_result f) = b)"

lemma worker_tells:
  assumes "worker_handle_msg env dc rs (M_Start msg) io = Inr (out, Some io2)" "0 < cm_sender_thread_index msg"
    and "sp_protocol_filter (start_spec msg) = []" "sp_protocol_filter_inline (start_spec msg) = []"
  shows "told_by msg (capture_outcome env dc rs msg io) out"
proof -
  obtain ok job1 io1 where p: "job_prepare env (job_new dc (ti_cfg (task_info_for msg)) (task_info_for msg), io) =
      (ok, job1, io1)" by (metis prod_cases3)
  show ?thesis
  proof (cases ok)
    case False
    then show ?thesis using assms(1,2) p
      by (auto simp: worker_handle_msg_def execute_capture_def told_by_def capture_outcome_def send_defs)
  next
    case True
    then obtain job2 io3 where l: "capture_loop (ce_opens env) rs (job1, io1) = Inr (Some (job2, io3))"
      "out = send_started env msg (get_final_path job1) @ report_capture env msg (job_cleanup job2) io3"
      using assms(1) p
      by (auto simp: worker_handle_msg_def execute_capture_def try_then_Inr_iff Let_def split: option.splits)
    then have "capture_outcome env dc rs msg io = Some (jb_packets job2, get_bytes_written job2)"
      using p True by (simp add: capture_outcome_def)
    then show ?thesis using l(2) assms(2-)
      by (auto simp: told_by_def report_capture_def capture_result_def send_defs CaptureResultStats_new_def
          job_cleanup_def get_bytes_written_def)
  qed
qed

text \<open>
  The manager, told all that, has the task ended: failed exactly when the capture could not be prepared, with
  the reason, else completed with the numbers of the worker.
\<close>

definition ended :: "(u64 \<times> u64) option \<Rightarrow> SRxCaptureTask \<Rightarrow> bool" where
  "ended outcome t \<longleftrightarrow>
     (case outcome of
        None \<Rightarrow> t_status t = STATUS_FAILED \<and> t_error_message t = ''pcap_prepare_failed''
      | Some (n, b) \<Rightarrow> t_status t = STATUS_COMPLETED \<and> t_packet_count t = n \<and> t_bytes_captured t = b)"

lemma handle_capture_msgs:
  "handle_msg env (I_capture (M_Started s)) = handle_capture_started_v2 s"
  "handle_msg env (I_capture (M_File_ready r)) = handle_capture_file_ready_v2 env r"
  "handle_msg env (I_capture (M_Finished f)) = handle_capture_finished_v2 env f"
  "handle_msg env (I_capture (M_Failed x)) = handle_capture_failed_v2 env x"
  by (simp_all add: handle_msg_def fun_eq_iff)

lemma task_files:
  assumes "task_is c (\<lambda>t. t_status t = s) st" "map snd es = map (\<lambda>m. E_msg (I_capture m)) ms"
    and "\<forall>m \<in> set ms. \<exists>m1. m = M_File_ready m1 \<and> cm_capture_id m1 = c"
  shows "\<exists>st'. mgr_run es st = Inr st' \<and> task_is c (\<lambda>t. t_status t = s) st'"
  using assms
proof (induction es arbitrary: ms st)
  case (Cons e es)
  then obtain env m1 ms1 where e: "e = (env, E_msg (I_capture (M_File_ready m1)))" "ms = M_File_ready m1 # ms1" "cm_capture_id m1 = c"
    by (cases e; cases ms) auto
  have "\<exists>st1. handle_capture_file_ready_v2 env m1 st = Inr st1 \<and> task_is c (\<lambda>t. t_status t = s) st1"
    using task_file_ready [of m1 "\<lambda>t. t_status t = s" st env] Cons.prems(1) e(3) by (simp add: append_files_def)
  then show ?case using Cons.IH [where ms = ms1] Cons.prems(2,3) e by (auto simp: handle_capture_msgs)
qed simp

lemma mgr_run_append: "mgr_run (as @ bs) st = try_then (mgr_run as st) (mgr_run bs)"
proof (induction as arbitrary: st)
  case (Cons a as)
  obtain env e where "a = (env, e)" by (cases a)
  then show ?case using Cons.IH by (cases "mgr_step_event env e st") simp_all
qed simp

lemma told_task_ends:
  assumes "task_is (cm_capture_id msg) P st" "told_by msg outcome out" "map snd es = map (\<lambda>x. E_msg (I_capture (snd x))) out"
  shows "\<exists>st'. mgr_run es st = Inr st' \<and> task_is (cm_capture_id msg) (ended outcome) st'"
proof -
  have es: "map snd es = map (\<lambda>m. E_msg (I_capture m)) (map snd out)" using assms(3) by (simp add: comp_def)
  consider (failed) f where "outcome = None" "map snd out = [M_Failed f]" "cm_capture_id f = cm_capture_id msg"
      "failed_error_message f = ''pcap_prepare_failed''"
    | (finished) s r f where
      "outcome = Some (rs_total_packets (finished_result f), rs_total_bytes (finished_result f))"
      "map snd out = M_Started s # r @ [M_Finished f]" "cm_capture_id s = cm_capture_id msg"
      "\<forall>m \<in> set r. \<exists>m1. m = M_File_ready m1 \<and> cm_capture_id m1 = cm_capture_id msg"
      "cm_capture_id f = cm_capture_id msg" "rs_exit_code (finished_result f) = 0"
    using assms(2) by (cases outcome) (auto simp: told_by_def)
  then show ?thesis
  proof cases
    case failed
    then obtain env where "es = [(env, E_msg (I_capture (M_Failed f)))]" using es by auto
    then show ?thesis using task_failed [of f P st env] failed assms(1)
      by (auto simp: handle_capture_msgs task_is_def ended_def)
  next
    case finished
    then obtain env1 es1 env2 where e: "es = (env1, E_msg (I_capture (M_Started s))) # es1 @ [(env2, E_msg (I_capture (M_Finished f)))]"
      "map snd es1 = map (\<lambda>m. E_msg (I_capture m)) r"
      using es by (auto simp: map_eq_Cons_conv map_eq_append_conv)
    obtain st1 where 1: "handle_capture_started_v2 s st = Inr st1"
      "task_is (cm_capture_id msg) (\<lambda>t. t_status t = STATUS_RUNNING) st1"
      using task_started [of s P st] finished(3) assms(1) by auto
    obtain st2 where 2: "mgr_run es1 st1 = Inr st2" "task_is (cm_capture_id msg) (\<lambda>t. t_status t = STATUS_RUNNING) st2"
      using task_files [OF 1(2) e(2) finished(4)] by blast
    show ?thesis using task_finished [of f "\<lambda>t. t_status t = STATUS_RUNNING" st2 env2] finished(1,5,6) 1 2
      by (auto simp: e(1) mgr_run_append handle_capture_msgs task_is_def ended_def)
  qed
qed


text \<open>
  C10. From the request to the end of the capture.  A request for which no active task has its key or
  signature, while there is room, a worker, and no protocol definition that filters the capture, becomes a
  task whose start message, with the resolved specification and configuration, is sent to a worker.  Whatever
  happens in that worker, if its capture ends and the manager handles what the worker then sent to it, in that
  order and under any clock, the task has ended the way the capture did: it failed, with the worker's reason,
  exactly when the device or the file did not open, else it is completed with exactly the numbers of packets
  and bytes the worker counted; so it no longer takes room.
\<close>

theorem capture_runs_to_end:
  assumes "mgr_inv st" "mt_next_capture_id st < 2 ^ 31 - 1" "0 < sint (me_thread_index env)"
    and "resolve_target_processes (me_proc env) req = Inr matched"
    and "resolved_request env (mt_data st) matched req = (key, msg, config, spec)"
    and "\<not> active_task (db st) (\<lambda>t. t_key t = key \<or> t_signature t = capture_signature spec config matched)"
    and "int (card (busy (db st))) < get_max_concurrent_limit (mt_data st)" "mt_worker_thd_vec st \<noteq> []"
    and "sp_protocol_filter spec = []" "sp_protocol_filter_inline spec = []"
  shows "\<exists>st1 w start. handle_start_capture env req st = Inr st1 \<and> w \<in> set (mt_worker_thd_vec st) \<and>
    (to_thread w, O_capture (M_Start start)) \<in> set (mt_out st1) \<and>
    start_spec start = spec \<and> start_config start = config \<and> cm_capture_id start = mt_next_capture_id st \<and>
    (\<forall>wenv dc rs io out io2 es.
       worker_handle_msg wenv dc rs (M_Start start) io = Inr (out, Some io2) \<longrightarrow>
       map snd es = map (\<lambda>x. E_msg (I_capture (snd x))) out \<longrightarrow>
       (\<forall>x \<in> set out. fst x = me_thread_index env) \<and>
       (\<exists>st2 t. mgr_run es st1 = Inr st2 \<and> db_tasks (db st2) (mt_next_capture_id st) = Some t \<and>
          ended (capture_outcome wenv dc rs start io) t \<and> mt_next_capture_id st \<notin> busy (db st2)))"
proof -
  let ?c = "mt_next_capture_id st"
  from admit_ok [OF assms(1,2), of env msg key spec config matched] obtain reply st0 sent where
    a: "admit_capture env msg key spec config matched st = Inr (reply, st0)" "mgr_inv st0" "mt_out st0 = mt_out st @ sent"
    "verdict env msg key (capture_signature spec config matched) spec config (get_max_concurrent_limit (mt_data st)) st
       (hr_status reply) sent st0" by blast
  have "accepted env msg key (capture_signature spec config matched) spec config st sent st0"
    using a(4) assms(1,6,7) duplicate_of_active [of "db st" key] by (auto simp: verdict_def mgr_inv_def split: if_splits)
  then obtain task w where t: "db_tasks (db st0) ?c = Some task" "t_status task = STATUS_RESOLVING"
    "w \<in> set (mt_worker_thd_vec st)"
    "(to_thread w, O_capture (M_Start (start_message env ?c key (t_sid task) spec config w))) \<in> set sent"
    using assms(8) by (rule accepted_dispatched)
  define start where "start = start_message env ?c key (t_sid task) spec config w"
  have start: "cm_capture_id start = ?c" "cm_sender_thread_index start = sint (me_thread_index env)" "start_spec start = spec"
      "start_config start = config"
    by (simp_all add: start_def start_message_def CaptureMessageBase.defs SRxCaptureStartMsgV2.defs)
  define st1 where "st1 = send_reply_to_http (rq_reply_target req) (finish_reply env msg reply) st0"
  have st1: "mt_data st1 = mt_data st0" "mt_next_capture_id st1 = mt_next_capture_id st0" "set (mt_out st0) \<subseteq> set (mt_out st1)"
    by (auto simp: st1_def send_reply_to_http_def put_obj_msg_def)
  have resolving: "task_is ?c (\<lambda>t. t_status t = STATUS_RESOLVING) st1"
    using a(2) t(1,2) mgr_inv_cong [OF st1(1,2)] by (simp add: task_is_def st1(1))
  have idle: "?c \<notin> busy (db st2)" if "task_is ?c (ended outcome) st2" for outcome st2
    using that by (auto simp: task_is_def ended_def busy_def split: option.splits)
  have "(\<forall>x \<in> set out. fst x = me_thread_index env) \<and>
      (\<exists>st2 t. mgr_run es st1 = Inr st2 \<and> db_tasks (db st2) ?c = Some t \<and>
         ended (capture_outcome wenv dc rs start io) t \<and> ?c \<notin> busy (db st2))"
    if "worker_handle_msg wenv dc rs (M_Start start) io = Inr (out, Some io2)"
      "map snd es = map (\<lambda>x. E_msg (I_capture (snd x))) out" for wenv dc rs io out io2 es
  proof -
    note run = that
    have told: "told_by start (capture_outcome wenv dc rs start io) out"
      using worker_tells [OF run(1)] assms(3,9,10) by (simp add: start)
    then obtain st2 where "mgr_run es st1 = Inr st2" "task_is ?c (ended (capture_outcome wenv dc rs start io)) st2"
      using told_task_ends [of start _ st1 _ out es] resolving run(2) by (auto simp: start)
    then show ?thesis using idle told by (auto simp: task_is_def told_by_def start)
  qed
  moreover have "handle_start_capture env req st = Inr st1"
    by (simp add: handle_start_capture_def assms(4,5) a(1) st1_def)
  moreover have "(to_thread w, O_capture (M_Start start)) \<in> set (mt_out st1)"
    using t(4) a(3) st1(3) unfolding start_def by auto
  ultimately show ?thesis using t(3) start by blast
qed

text \<open>The start message of a sample request of five seconds, carried out in a worker up to its deadline.\<close>

lemma sample_parts:
  assumes "resolved_request sample_mgr_env (mt_data sample_mgr) [] sample_req = (key, msg, config, spec)"
  shows "sp_protocol_filter spec = []" "sp_protocol_filter_inline spec = []"
    and "0 < tc_duration_sec (build_task_cfg spec config)" "tc_duration_sec (build_task_cfg spec config) < 2 ^ 32"
    and "tc_max_bytes (build_task_cfg spec config) = 0"
proof -
  have "cc_max_bytes (get_capture_config_snapshot now (mt_data sample_mgr)) = 0" for now
    by (simp add: get_capture_config_snapshot_def current_strategy_config_def sample_mgr_def CRxCaptureManagerThread_new_def
        CRxProcData_new_def CaptureConfigSnapshot_new_def Let_def)
  then show "sp_protocol_filter spec = []" "sp_protocol_filter_inline spec = []"
    and "0 < tc_duration_sec (build_task_cfg spec config)" "tc_duration_sec (build_task_cfg spec config) < 2 ^ 32"
    and "tc_max_bytes (build_task_cfg spec config) = 0"
    using assms
    by (auto simp: resolved_request_def complete_request_def capture_spec_of_def infer_port_def auto_filter_def Let_def
        sample_req_def SRxStartCaptureMsg_new_def CaptureSpec_new_def build_task_cfg_def split: prod.splits if_splits)
qed

lemma sample_capture_completes:
  assumes "start_spec start = spec" "start_config start = config"
    and "0 < tc_duration_sec (build_task_cfg spec config)" "tc_duration_sec (build_task_cfg spec config) < 2 ^ 32"
    and "tc_max_bytes (build_task_cfg spec config) = 0"
  shows "\<exists>out io2 b. worker_handle_msg sample_capture_env sample_ctx
      [round_at (100 + tc_duration_sec (build_task_cfg spec config)) [sample_packet]] (M_Start start)
        \<lparr>io_dirs = [], io_files = Map.empty\<rparr> = Inr (out, Some io2) \<and>
    capture_outcome sample_capture_env sample_ctx
      [round_at (100 + tc_duration_sec (build_task_cfg spec config)) [sample_packet]] start
        \<lparr>io_dirs = [], io_files = Map.empty\<rparr> = Some (1, b)"
proof -
  let ?io = "\<lparr>io_dirs = [], io_files = Map.empty\<rparr>" and ?d = "tc_duration_sec (build_task_cfg spec config)"
  have env: "ce_open_live sample_capture_env" "\<forall>path. ce_opens sample_capture_env path"
    "ck_now (ce_clock sample_capture_env) = 100"
    by (simp_all add: sample_capture_env_def clock_at_def)
  obtain job1 io1 job2 io2 where
    "job_prepare sample_capture_env (job_new sample_ctx (ti_cfg (task_info_for start)) (task_info_for start), ?io) =
       (True, job1, io1)"
    "capture_loop (ce_opens sample_capture_env) [round_at (100 + ?d) [sample_packet]] (job1, io1) = Inr (Some (job2, io2))"
    "jb_packets job2 = 1"
    using deadline_run [OF env(1,2) refl, of start "100 + ?d" "[]" "round_at (100 + ?d) [sample_packet]" sample_ctx ?io "[]"]
      assms env(3) by (auto simp: round_at_def clock_at_def)
  then show ?thesis
    by (simp add: worker_handle_msg_def execute_capture_def capture_outcome_def Let_def)
qed

lemma capture_runs_to_end_witness:
  "\<exists>st1 w start rs out io2 st2 t. handle_start_capture sample_mgr_env sample_req sample_mgr = Inr st1 \<and>
     (to_thread w, O_capture (M_Start start)) \<in> set (mt_out st1) \<and>
     worker_handle_msg sample_capture_env sample_ctx rs (M_Start start) \<lparr>io_dirs = [], io_files = Map.empty\<rparr> =
       Inr (out, Some io2) \<and>
     mgr_run (map (\<lambda>x. (sample_mgr_env, E_msg (I_capture (snd x)))) out) st1 = Inr st2 \<and>
     db_tasks (db st2) 1000 = Some t \<and> t_status t = STATUS_COMPLETED \<and> t_packet_count t = 1"
proof -
  have none: "\<not> active_task db_new P" "busy db_new = {}" "0 < sint (me_thread_index sample_mgr_env)" for P
    by (simp_all add: active_task_def busy_def db_new_def sample_mgr_env_def)
  obtain key msg config spec where
    parts: "resolved_request sample_mgr_env (mt_data sample_mgr) [] sample_req = (key, msg, config, spec)"
    by (metis prod_cases4)
  note facts = sample_parts [OF parts]
  have room: "(1000 :: int) < 2 ^ 31 - 1" "int (card (busy db_new)) < 1" "[7 :: u32] \<noteq> []"
    using none(2) by simp_all
  from capture_runs_to_end [OF sample_mgr_inv _ none(3) sample_resolved parts, unfolded sample_mgr_facts,
      OF room(1) none(1) room(2,3) facts(1,2)]
  obtain st1 w start where
    a: "handle_start_capture sample_mgr_env sample_req sample_mgr = Inr st1"
    "(to_thread w, O_capture (M_Start start)) \<in> set (mt_out st1)" "start_spec start = spec" "start_config start = config"
    "\<forall>wenv dc rs io out io2 es. worker_handle_msg wenv dc rs (M_Start start) io = Inr (out, Some io2) \<longrightarrow>
       map snd es = map (\<lambda>x. E_msg (I_capture (snd x))) out \<longrightarrow>
       (\<forall>x \<in> set out. fst x = me_thread_index sample_mgr_env) \<and>
       (\<exists>st2 t. mgr_run es st1 = Inr st2 \<and> db_tasks (db st2) 1000 = Some t \<and>
          ended (capture_outcome wenv dc rs start io) t \<and> 1000 \<notin> busy (db st2))"
    by blast
  from sample_capture_completes [OF a(3,4) facts(3-5)] obtain rs out io2 b where
    out: "worker_handle_msg sample_capture_env sample_ctx rs (M_Start start) \<lparr>io_dirs = [], io_files = Map.empty\<rparr> =
      Inr (out, Some io2)"
    "capture_outcome sample_capture_env sample_ctx rs start \<lparr>io_dirs = [], io_files = Map.empty\<rparr> = Some (1, b)" by blast
  have "map snd (map (\<lambda>x. (sample_mgr_env, E_msg (I_capture (snd x)))) out) = map (\<lambda>x. E_msg (I_capture (snd x))) out"
    by simp
  from a(5) [THEN spec, THEN spec, THEN spec, THEN spec, THEN spec, THEN spec, THEN spec, THEN mp, OF out(1), THEN mp, OF this]
  obtain st2 t where "mgr_run (map (\<lambda>x. (sample_mgr_env, E_msg (I_capture (snd x)))) out) st1 = Inr st2"
    "db_tasks (db st2) 1000 = Some t" "ended (Some (1, b)) t" unfolding out(2) by blast
  then show ?thesis using a(1,2) out(1) unfolding ended_def by fastforce
qed

end
