(* ===== verification/Http_Head.thy ===== *)
theory Http_Head
  imports Manager_Text Text_Map
begin

text \<open>
  HTTP heads: the structures \<open>http_req_head_para\<close>, \<open>http_res_head_para\<close> and \<open>boundary_para\<close> of
  \<open>src/core/legacy_core.h\<close>, the text functions and the writing of a response head of
  \<open>src/core/legacy_core_common.cpp\<close>, and the parsing of a request head of
  \<open>src/core/legacy_core_net.cpp\<close>.  An exception (\<open>CMyCommonException\<close>) is the left value: it ends the
  connection.  No code sets a cookie in a response, so the response head has none.
\<close>

section \<open>Text\<close>

text \<open>\<open>strcasestr\<close>, as the place found.\<close>

definition find_case :: "string \<Rightarrow> string \<Rightarrow> nat option" where
  "find_case needle s = find_str (map tolower needle) (map tolower s)"

text \<open>\<open>strcasecmp (a, b) == 0\<close>.\<close>

definition same_case :: "string \<Rightarrow> string \<Rightarrow> bool" where
  "same_case a b \<longleftrightarrow> map tolower (c_str a) = map tolower (c_str b)"

text \<open>
  \<open>SplitString\<close>: the pieces before a delimiter, and the rest.  The rest counts when it is not empty and
  there was a delimiter before it.  \<open>SPLIT_MODE_ONE\<close> splits once; the third mode is never used.
\<close>

definition split_one :: "string \<Rightarrow> string \<Rightarrow> string list" where
  "split_one delim s =
     (case find_str delim s of
        None \<Rightarrow> []
      | Some i \<Rightarrow> take i s # (let rest = drop (i + length delim) s in if rest = [] then [] else [rest]))"

function split_pieces :: "char \<Rightarrow> string \<Rightarrow> string \<Rightarrow> string list \<times> string" where
  "split_pieces d ds s =
     (case find_str (d # ds) s of
        None \<Rightarrow> ([], s)
      | Some i \<Rightarrow> (case split_pieces d ds (drop (i + Suc (length ds)) s) of (ps, rest) \<Rightarrow> (take i s # ps, rest)))"
  by pat_completeness auto

termination
proof (relation "measure (\<lambda>(d, ds, s). length s)")
  fix d :: char and ds s :: string and i
  assume "find_str (d # ds) s = Some i"
  then show "((d, ds, drop (i + Suc (length ds)) s), d, ds, s) \<in> measure (\<lambda>(d, ds, s). length s)"
    using find_str_room [of "d # ds" s i] by simp
qed simp

declare split_pieces.simps [simp del]

definition split_all :: "char \<Rightarrow> string \<Rightarrow> string \<Rightarrow> string list" where
  "split_all d ds s =
     (case split_pieces d ds s of (ps, rest) \<Rightarrow> if rest \<noteq> [] \<and> ps \<noteq> [] then ps @ [rest] else ps)"

text \<open>\<open>GetCaseStringByLabel\<close> as it is called: from the start, with an empty second label.\<close>

definition GetCaseStringByLabel :: "string \<Rightarrow> string \<Rightarrow> string option" where
  "GetCaseStringByLabel src label =
     (if src = [] then None
      else map_option (\<lambda>i. drop (i + length label) (c_str src)) (find_case label (c_str src)))"

definition CR :: char where
  "CR = CHR 0x0D"

definition LF :: char where
  "LF = CHR 0x0A"

definition CRLF :: string where
  "CRLF = [CR, LF]"

definition CRLF2 :: string where
  "CRLF2 = CRLF @ CRLF"

section \<open>Heads\<close>

record http_req_head_para =
  rh_method :: string
  rh_url_path :: string
  rh_version :: string
  rh_headers :: str_map
  rh_cookie_list :: str_map

definition http_req_head_para_new :: http_req_head_para where
  "http_req_head_para_new =
     \<lparr>rh_method = ''GET'', rh_url_path = [], rh_version = ''HTTP/1.1'', rh_headers = [], rh_cookie_list = []\<rparr>"

definition req_head_init :: http_req_head_para where
  "req_head_init = \<lparr>rh_method = [], rh_url_path = [], rh_version = [], rh_headers = [], rh_cookie_list = []\<rparr>"

text \<open>The first header whose name contains the text.\<close>

definition get_header :: "string \<Rightarrow> http_req_head_para \<Rightarrow> string option" where
  "get_header name h = map_option snd (find (\<lambda>(k, v). find_case name (c_str k) \<noteq> None) (rh_headers h))"

record http_res_head_para =
  rs_response_code :: int
  rs_response_str :: string
  rs_version :: string
  rs_headers :: str_map

definition http_res_head_para_new :: http_res_head_para where
  "http_res_head_para_new =
     \<lparr>rs_response_code = 200, rs_response_str = ''OK'', rs_version = ''HTTP/1.1'', rs_headers = []\<rparr>"

definition res_head_init :: http_res_head_para where
  "res_head_init = \<lparr>rs_response_code = 200, rs_response_str = [], rs_version = [], rs_headers = []\<rparr>"

record boundary_para =
  bp_boundary_str :: string
  bp_boundary_content_length :: u32

definition boundary_para_init :: boundary_para where
  "boundary_para_init = \<lparr>bp_boundary_str = [], bp_boundary_content_length = - 1\<rparr>"

section \<open>Writing a response head\<close>

definition response_list :: "(int \<times> string) list" where
  "response_list =
     [(200, ''OK''), (206, ''Partial Content''), (301, ''Moved Temporarily''), (302, ''the uri moved temporarily''),
      (304, ''page was not modified from las''), (400, ''Bad Request''), (404, ''Not Found''), (403, ''Forbidden''),
      (409, ''Conflict''), (500, ''Internal Server Error''), (501, ''not implemented''),
      (503, ''the server is not available'')]"

definition get_response_str :: "int \<Rightarrow> string" where
  "get_response_str code = (case map_of response_list code of Some s \<Rightarrow> s | None \<Rightarrow> [])"

fun header_lines :: "str_map \<Rightarrow> string" where
  "header_lines [] = []"
| "header_lines ((k, v) # m) = k @ '': '' @ v @ CRLF @ header_lines m"

text \<open>A reason that is not empty is replaced by the standard one, in the head as well as in the text.\<close>

definition with_reason :: "http_res_head_para \<Rightarrow> http_res_head_para" where
  "with_reason h =
     (if rs_response_str h \<noteq> [] then h\<lparr>rs_response_str := get_response_str (rs_response_code h)\<rparr> else h)"

definition to_head_str :: "http_res_head_para \<Rightarrow> string" where
  "to_head_str h =
     (let h1 = with_reason h in
      rs_version h1 @ '' '' @ snprintf 32 (fmt_d 0 (rs_response_code h1)) @ '' '' @ rs_response_str h1 @ CRLF @
      header_lines (rs_headers h1) @ CRLF)"

section \<open>Parsing a request head\<close>

datatype conn_error = Http_exception | Socket_closed | Handler_fault "fault + mem_fault"

definition parse_first_line :: "string \<Rightarrow> http_req_head_para \<Rightarrow> conn_error + http_req_head_para" where
  "parse_first_line l h =
     (case split_all (CHR '' '') [] (c_str l) of
        [m, url, v] \<Rightarrow> Inr (h\<lparr>rh_method := m, rh_version := v, rh_url_path := url\<rparr>)
      | _ \<Rightarrow> Inl Http_exception)"

definition add_header_line :: "string \<Rightarrow> http_req_head_para \<Rightarrow> http_req_head_para" where
  "add_header_line l h =
     (case split_one '':'' (c_str l) of
        [k, v] \<Rightarrow> h\<lparr>rh_headers := sm_insert k v (rh_headers h)\<rparr>
      | _ \<Rightarrow> h)"

definition add_cookie :: "string \<Rightarrow> http_req_head_para \<Rightarrow> http_req_head_para" where
  "add_cookie cookie h =
     (case split_one ''='' (c_str cookie) of
        [k, v] \<Rightarrow> h\<lparr>rh_cookie_list := sm_insert (StringTrim k) (StringTrim v) (rh_cookie_list h)\<rparr>
      | _ \<Rightarrow> h)"

definition add_cookies :: "http_req_head_para \<Rightarrow> http_req_head_para" where
  "add_cookies h =
     (case get_header ''Cookie'' h of
        None \<Rightarrow> h
      | Some s \<Rightarrow> fold add_cookie (split_all (CHR '';'') [] (c_str s)) h)"

definition parse_lines :: "string list \<Rightarrow> http_req_head_para \<Rightarrow> conn_error + http_req_head_para" where
  "parse_lines ls h =
     (case ls of
        [] \<Rightarrow> Inr h
      | first # rest \<Rightarrow> try_then (parse_first_line first h) (\<lambda>h1. Inr (fold add_header_line rest h1)))"

definition boundary_of :: "http_req_head_para \<Rightarrow> boundary_para \<Rightarrow> boundary_para" where
  "boundary_of h b =
     (if rh_method h = ''POST'' \<or> rh_method h = ''PUT''
      then case get_header ''Content-Type'' h of
             None \<Rightarrow> b
           | Some ct \<Rightarrow>
               if find_case ''multipart/form-data'' (c_str ct) \<noteq> None
               then case GetCaseStringByLabel ct ''boundary='' of
                      Some s \<Rightarrow> b\<lparr>bp_boundary_str := s\<rparr>
                    | None \<Rightarrow> b
               else b
      else b)"

definition parse_header ::
  "string \<Rightarrow> http_req_head_para \<times> boundary_para \<Rightarrow> conn_error + http_req_head_para \<times> boundary_para" where
  "parse_header head s =
     try_then (parse_lines (split_all CR [LF] (c_str head)) (fst s)) (\<lambda>h.
       (let h1 = add_cookies h in Inr (h1, boundary_of h1 (snd s))))"

end
