(* ===== verification/Url_Handlers.thy ===== *)
theory Url_Handlers
  imports Http_Head Capture_Manager Pdef_Load
begin

text \<open>
  The handlers of the URLs, \<open>src/src/rxurlhandlers.cpp\<close>: static answers, the capture interface, upload and
  listing of protocol definitions.  A handler gets the request head, the body received so far and the
  identity of the connection; it says whether the answer is ready, and may send a message to the capture
  manager.  The JSON parser, the file system and the clock are the record \<open>url_env\<close>.  The pointers to
  heads and body are never null.
\<close>

section \<open>What the handlers read\<close>

record file_stat =
  fs_directory :: bool
  fs_regular :: bool
  fs_size :: int
  fs_mtime :: int

text \<open>
  \<open>ue_message\<close> is the text \<open>vsnprintf\<close> makes of a failure of the parser; \<open>ue_gmtime\<close> is the date text of
  \<open>strftime\<close>.  \<open>ue_create\<close> and \<open>ue_written\<close> tell whether the uploaded file can be opened and written.
\<close>

record url_env =
  ue_parse_json :: json_parser
  ue_proc :: proc_fs
  ue_now_ms :: u64
  ue_stat :: "string \<Rightarrow> file_stat option"
  ue_readdir :: "string \<Rightarrow> string list option"
  ue_read :: "string \<Rightarrow> string option"
  ue_read_bad :: bool
  ue_gmtime :: "int \<Rightarrow> string"
  ue_message :: "parse_failure \<Rightarrow> string"
  ue_mkdir :: bool
  ue_tv_sec :: u64
  ue_tv_usec :: u64
  ue_rand :: u32
  ue_create :: bool
  ue_written :: bool

text \<open>The result: ready or not, the response head and body, the message sent, the file written.\<close>

record url_result =
  ur_ready :: bool
  ur_res :: http_res_head_para
  ur_body :: string
  ur_sent :: "(ObjId \<times> mgr_in) list"
  ur_file :: "(string \<times> string) option"

section \<open>Answers\<close>

definition answer_head :: "int \<Rightarrow> string \<Rightarrow> string \<Rightarrow> http_res_head_para \<Rightarrow> http_res_head_para" where
  "answer_head status reason body res =
     res\<lparr>rs_response_code := status, rs_response_str := reason,
         rs_headers := sm_put ''Content-Length'' (dec_string (length body))
           (sm_put ''Connection'' ''close'' (sm_put ''Content-Type'' ''application/json'' []))\<rparr>"

definition set_json_response :: "int \<Rightarrow> string \<Rightarrow> string \<Rightarrow> http_res_head_para \<Rightarrow> url_result" where
  "set_json_response status reason body res =
     \<lparr>ur_ready = True, ur_res = answer_head status reason body res, ur_body = body, ur_sent = [], ur_file = None\<rparr>"

definition set_error_response :: "int \<Rightarrow> string \<Rightarrow> http_res_head_para \<Rightarrow> url_result" where
  "set_error_response code message =
     set_json_response code (if code = 200 then ''OK'' else ''Error'')
       (''{'' @ json_pair ''error'' (dq (json_escape message)) @ ''}'')"

definition static_json_perform :: "int \<Rightarrow> string \<Rightarrow> string \<Rightarrow> http_res_head_para \<Rightarrow> url_result" where
  "static_json_perform code reason body res =
     \<lparr>ur_ready = True,
      ur_res = res\<lparr>rs_response_code := code, rs_response_str := reason,
        rs_headers := sm_put ''Connection'' ''close'' (sm_put ''Content-Length'' (dec_string (length body))
          (sm_put ''Content-Type'' ''application/json'' (rs_headers res)))\<rparr>,
      ur_body = body, ur_sent = [], ur_file = None\<rparr>"

section \<open>Parameters of a URL\<close>

text \<open>The tokens between ampersands; an empty one is skipped, a later key replaces an earlier one.\<close>

function param_tokens :: "string \<Rightarrow> string list" where
  "param_tokens s =
     (if s = [] then []
      else case find_char (CHR ''&'') s of
             None \<Rightarrow> [s]
           | Some i \<Rightarrow> take i s # param_tokens (drop (Suc i) s))"
  by pat_completeness auto

termination by (relation "measure length") simp_all

declare param_tokens.simps [simp del]

definition add_param :: "string \<Rightarrow> (string \<rightharpoonup> string) \<Rightarrow> (string \<rightharpoonup> string)" where
  "add_param token params =
     (let (key, value) = (case find_char (CHR ''='') token of
                            None \<Rightarrow> (token, [])
                          | Some i \<Rightarrow> (take i token, drop (Suc i) token))
      in if key = [] then params else params(key \<mapsto> value))"

definition parse_query_params :: "string \<Rightarrow> (string \<rightharpoonup> string)" where
  "parse_query_params url =
     (case find_char (CHR ''?'') url of
        None \<Rightarrow> Map.empty
      | Some q \<Rightarrow> fold add_param (param_tokens (drop (Suc q) url)) Map.empty)"

section \<open>Directories of definitions\<close>

definition FALLBACK_PDEF_DIR :: string where
  "FALLBACK_PDEF_DIR = ''/tmp/rxtracenetcap_pdef''"

definition get_configured_pdef_dir :: "CRxProcData \<Rightarrow> string" where
  "get_configured_pdef_dir pd =
     (case pd_conf pd of
        None \<Rightarrow> FALLBACK_PDEF_DIR
      | Some cfg \<Rightarrow> (let d = st_temp_pdef_dir (sc_storage_config cfg) in if d = [] then FALLBACK_PDEF_DIR else d))"

definition append_pdef_dirs :: "CRxProcData \<Rightarrow> string list" where
  "append_pdef_dirs pd =
     (let configured = get_configured_pdef_dir pd
      in ''config/protocols'' # (if configured \<noteq> [] \<and> configured \<noteq> ''config/protocols'' then [configured] else []))"

section \<open>The capture interface\<close>

definition mode_of_name :: "string \<Rightarrow> ECaptureMode option" where
  "mode_of_name s =
     map_of [(''interface'', MODE_INTERFACE), (''process'', MODE_PROCESS), (''pid'', MODE_PID),
             (''container'', MODE_CONTAINER)] s"

definition set_mode :: "string \<Rightarrow> SRxStartCaptureMsg \<Rightarrow> SRxStartCaptureMsg" where
  "set_mode s msg = (case mode_of_name s of Some m \<Rightarrow> msg\<lparr>rq_capture_mode := m\<rparr> | None \<Rightarrow> msg)"

definition is_string_member :: "json \<Rightarrow> string \<Rightarrow> bool" where
  "is_string_member doc k = (case json_member doc k of Some (J_string s) \<Rightarrow> True | _ \<Rightarrow> False)"

definition take_int64 :: "json \<Rightarrow> string \<Rightarrow> (int \<Rightarrow> 'a \<Rightarrow> 'a) \<Rightarrow> 'a \<Rightarrow> 'a" where
  "take_int64 v k upd x =
     (case json_member v k of
        Some (J_int i) \<Rightarrow> if - (2 ^ 63) \<le> i \<and> i < 2 ^ 63 then upd i x else x
      | _ \<Rightarrow> x)"

text \<open>A named protocol: the file the strategy gives it, else the one of that name.\<close>

definition protocol_path :: "CRxProcData \<Rightarrow> string \<Rightarrow> string" where
  "protocol_path pd name =
     (let dflt = ''config/protocols/'' @ name @ ''.pdef'' in
      case current_strategy_config pd of
        None \<Rightarrow> dflt
      | Some cfg \<Rightarrow> (let p = get_protocol_pdef_path cfg name in if p \<noteq> [] then p else dflt))"

definition request_mode :: "json \<Rightarrow> SRxStartCaptureMsg \<Rightarrow> SRxStartCaptureMsg" where
  "request_mode doc msg =
     (if is_string_member doc ''capture_mode'' then take_string doc ''capture_mode'' set_mode msg
      else take_string doc ''mode'' set_mode msg)"

definition request_target :: "json \<Rightarrow> SRxStartCaptureMsg \<Rightarrow> SRxStartCaptureMsg" where
  "request_target doc =
     take_string doc ''container_id'' (\<lambda>s m. m\<lparr>rq_container_id := s\<rparr>) \<circ>
     take_int doc ''target_pid'' (\<lambda>i m. m\<lparr>rq_target_pid := i\<rparr>) \<circ>
     take_int doc ''pid'' (\<lambda>i m. (if rq_capture_mode m = MODE_INTERFACE \<and> i > 0 then m\<lparr>rq_capture_mode := MODE_PID\<rparr>
                                  else m)\<lparr>rq_target_pid := i\<rparr>) \<circ>
     take_string doc ''proc_name'' (\<lambda>s m. (if rq_capture_mode m = MODE_INTERFACE \<and> s \<noteq> []
                                          then m\<lparr>rq_capture_mode := MODE_PROCESS\<rparr> else m)\<lparr>rq_proc_name := s\<rparr>) \<circ>
     take_string doc ''iface'' (\<lambda>s m. m\<lparr>rq_iface := s\<rparr>)"

definition request_filters :: "CRxProcData \<Rightarrow> json \<Rightarrow> SRxStartCaptureMsg \<Rightarrow> SRxStartCaptureMsg" where
  "request_filters pd doc =
     take_int doc ''port_filter'' (\<lambda>i m. m\<lparr>rq_port_filter := i\<rparr>) \<circ>
     take_int doc ''port'' (\<lambda>i m. m\<lparr>rq_port_filter := i\<rparr>) \<circ>
     take_string doc ''ip_filter'' (\<lambda>s m. m\<lparr>rq_ip_filter := s\<rparr>) \<circ>
     take_string doc ''ip'' (\<lambda>s m. m\<lparr>rq_ip_filter := s\<rparr>) \<circ>
     take_string doc ''protocol_filter_inline'' (\<lambda>s m. m\<lparr>rq_protocol_filter_inline := s\<rparr>) \<circ>
     take_string doc ''protocol_filter'' (\<lambda>s m. m\<lparr>rq_protocol_filter := s\<rparr>) \<circ>
     take_string doc ''protocol'' (\<lambda>s m. m\<lparr>rq_protocol_filter := protocol_path pd s\<rparr>) \<circ>
     take_string doc ''filter'' (\<lambda>s m. m\<lparr>rq_filter := s\<rparr>)"

definition request_limits :: "json \<Rightarrow> SRxStartCaptureMsg \<Rightarrow> SRxStartCaptureMsg" where
  "request_limits doc =
     take_string doc ''request_user'' (\<lambda>s m. m\<lparr>rq_request_user := s\<rparr>) \<circ>
     take_string doc ''user'' (\<lambda>s m. m\<lparr>rq_request_user := s\<rparr>) \<circ>
     take_string doc ''client_ip'' (\<lambda>s m. m\<lparr>rq_client_ip := s\<rparr>) \<circ>
     take_int doc ''max_packets'' (\<lambda>i m. m\<lparr>rq_max_packets := i\<rparr>) \<circ>
     take_int64 doc ''max_bytes'' (\<lambda>i m. m\<lparr>rq_max_bytes := i\<rparr>) \<circ>
     take_int doc ''duration'' (\<lambda>i m. m\<lparr>rq_duration_sec := i\<rparr>) \<circ>
     take_string doc ''file_pattern'' (\<lambda>s m. m\<lparr>rq_file_pattern := s\<rparr>) \<circ>
     take_string doc ''file'' (\<lambda>s m. m\<lparr>rq_file_pattern := s\<rparr>) \<circ>
     take_string doc ''category'' (\<lambda>s m. m\<lparr>rq_category := s\<rparr>)"

definition start_request :: "CRxProcData \<Rightarrow> json \<Rightarrow> SRxStartCaptureMsg" where
  "start_request pd doc =
     (if is_object doc
      then request_limits doc (request_filters pd doc (request_target doc (request_mode doc SRxStartCaptureMsg_new)))
      else SRxStartCaptureMsg_new)"

text \<open>The body as a document: an empty one is the null value.\<close>

definition body_document :: "url_env \<Rightarrow> string \<Rightarrow> json option" where
  "body_document env body = (if body = [] then Some J_null else ue_parse_json env (c_str body))"

definition send_to_capture_manager ::
  "url_env \<Rightarrow> CRxProcData \<Rightarrow> mgr_in \<Rightarrow> ObjId \<Rightarrow> http_res_head_para \<Rightarrow> url_result" where
  "send_to_capture_manager env pd msg conn_id res =
     (if obj_thread_index conn_id = 0 then set_error_response 500 ''Invalid connection id'' res
      else case pd_capture_manager pd of
             None \<Rightarrow> set_error_response 500 ''No owner thread'' res
           | Some k \<Rightarrow>
               (let sent = (case msg of I_start m \<Rightarrow> I_start (m\<lparr>rq_enqueue_ts_ms := ue_now_ms env\<rparr>) | _ \<Rightarrow> msg)
                in \<lparr>ur_ready = False, ur_res = res, ur_body = [], ur_sent = [(to_thread k, sent)], ur_file = None\<rparr>))"

definition handle_start ::
  "url_env \<Rightarrow> CRxProcData \<Rightarrow> string \<Rightarrow> ObjId \<Rightarrow> http_res_head_para \<Rightarrow> url_result" where
  "handle_start env pd body conn_id res =
     (case body_document env body of
        None \<Rightarrow> set_error_response 400 ''Invalid JSON'' res
      | Some doc \<Rightarrow>
          (let msg = (start_request pd doc)\<lparr>rq_reply_target := conn_id\<rparr> in
           if rq_capture_mode msg = MODE_PROCESS \<and> rq_proc_name msg \<noteq> [] \<and>
              FindProcessesByName (ue_proc env) (rq_proc_name msg) = []
           then set_json_response 404 ''Not Found''
                  (''{'' @ json_pair ''error'' (dq ''process not found'') @ '','' @
                   json_pair ''proc_name'' (dq (json_escape (rq_proc_name msg))) @ ''}'') res
           else send_to_capture_manager env pd (I_start msg) conn_id res))"

text \<open>\<open>atoi\<close> of a parameter, 0 when it is missing.\<close>

definition int_param :: "(string \<rightharpoonup> string) \<Rightarrow> string \<Rightarrow> int \<Rightarrow> int" where
  "int_param params k dflt = (case params k of Some v \<Rightarrow> atoi (c_str v) | None \<Rightarrow> dflt)"

definition handle_stop ::
  "url_env \<Rightarrow> CRxProcData \<Rightarrow> string \<Rightarrow> ObjId \<Rightarrow> http_res_head_para \<Rightarrow> mem_fault + url_result" where
  "handle_stop env pd path conn_id res =
     (let params = parse_query_params path;
          capture_id = int_param params ''id'' 0;
          sid = text_or [] (params ''sid'');
          stop = (\<lambda>c. if c = 0 then set_error_response 400 ''Missing capture identifier'' res
                      else send_to_capture_manager env pd
                             (I_stop \<lparr>so_capture_id = c, so_reply_target = conn_id\<rparr>) conn_id res)
      in if capture_id = 0 \<and> sid = [] then Inr (set_error_response 400 ''Missing capture identifier'' res)
         else if capture_id = 0
         then try_then (mgr_query_task_by_sid (pd_task_mgr pd) sid) (\<lambda>sn.
                case sn of
                  None \<Rightarrow> Inr (set_error_response 404 ''capture_not_found'' res)
                | Some s \<Rightarrow> Inr (stop (sn_capture_id s)))
         else Inr (stop capture_id))"

section \<open>The status of a capture\<close>

definition TaskSnapshot_new :: TaskSnapshot where
  "TaskSnapshot_new =
     \<lparr>sn_capture_id = - 1, sn_key = [], sn_signature = [], sn_sid = [], sn_status = STATUS_PENDING,
      sn_capture_mode = MODE_INTERFACE, sn_iface = [], sn_proc_name = [], sn_target_pid = - 1,
      sn_worker_thread_index = 0, sn_stop_requested = False, sn_cancel_requested = False, sn_filter = [],
      sn_port_filter = 0, sn_duration_sec = 0, sn_start_time = 0, sn_end_time = 0, sn_packet_count = 0,
      sn_bytes_captured = 0, sn_error_message = [], sn_client_ip = [], sn_request_user = [],
      sn_captured_files = [], sn_archives = []\<rparr>"

text \<open>The id and the session of a request, from the body of a POST or from the URL.\<close>

definition status_ids :: "url_env \<Rightarrow> http_req_head_para \<Rightarrow> string \<Rightarrow> (int \<times> string) option" where
  "status_ids env req body =
     (if rh_method req = ''POST'' \<and> body \<noteq> []
      then case ue_parse_json env (c_str body) of
             None \<Rightarrow> None
           | Some doc \<Rightarrow>
               (let by_id = take_int doc ''id'' (\<lambda>i _. i) 0
                in Some (take_int doc ''capture_id'' (\<lambda>i _. i) by_id, take_string doc ''sid'' (\<lambda>s _. s) []))
      else (let params = parse_query_params (rh_url_path req)
            in Some (int_param params ''capture_id'' (int_param params ''id'' 0), text_or [] (params ''sid''))))"

definition archive_status_json :: "CaptureArchiveInfo \<Rightarrow> string" where
  "archive_status_json arc =
     ''{'' @ json_pair ''path'' (dq (json_escape (ai_archive_path arc))) @
     '','' @ json_pair ''size'' (json_nat (ai_archive_size arc)) @
     opt_member (ai_compress_finish_ts arc > 0) ''compressed_at'' (fmt_d 0 (ai_compress_finish_ts arc)) @
     opt_member (ai_files arc \<noteq> []) ''files'' (''['' @ comma_separated (map file_json (ai_files arc)) @ '']'') @ ''}''"

definition status_json :: "TaskSnapshot \<Rightarrow> string" where
  "status_json sn =
     ''{'' @ json_pair ''capture_id'' (fmt_d 0 (sn_capture_id sn)) @
     '','' @ json_pair ''status'' (dq (capture_status_to_string (sn_status sn))) @
     '','' @ json_pair ''mode'' (dq (capture_mode_to_string (sn_capture_mode sn))) @
     '','' @ json_pair ''key'' (dq (json_escape (sn_key sn))) @
     json_text_member ''sid'' (sn_sid sn) @
     json_text_member ''iface'' (sn_iface sn) @
     json_text_member ''proc_name'' (sn_proc_name sn) @
     json_text_member ''filter'' (sn_filter sn) @
     opt_member (sn_target_pid sn > 0) ''pid'' (fmt_d 0 (sn_target_pid sn)) @
     opt_member (sn_port_filter sn > 0) ''port'' (fmt_d 0 (sn_port_filter sn)) @
     '','' @ json_pair ''start_time'' (fmt_d 0 (sn_start_time sn)) @
     '','' @ json_pair ''end_time'' (fmt_d 0 (sn_end_time sn)) @
     '','' @ json_pair ''packets'' (json_nat (sn_packet_count sn)) @
     '','' @ json_pair ''bytes'' (json_nat (sn_bytes_captured sn)) @
     '','' @ json_pair ''worker'' (dec_string (unat (sn_worker_thread_index sn))) @
     '','' @ json_pair ''stop_requested'' (json_bool (sn_stop_requested sn)) @
     '','' @ json_pair ''client_ip'' (dq (json_escape (sn_client_ip sn))) @
     '','' @ json_pair ''request_user'' (dq (json_escape (sn_request_user sn))) @
     json_text_member ''error'' (sn_error_message sn) @
     opt_member (sn_captured_files sn \<noteq> []) ''files''
       (''['' @ comma_separated (map file_json (sn_captured_files sn)) @ '']'') @
     opt_member (sn_archives sn \<noteq> []) ''archives''
       (''['' @ comma_separated (map archive_status_json (sn_archives sn)) @ '']'') @ ''}''"

definition handle_status ::
  "url_env \<Rightarrow> CRxProcData \<Rightarrow> http_req_head_para \<Rightarrow> string \<Rightarrow> http_res_head_para \<Rightarrow> mem_fault + url_result" where
  "handle_status env pd req body res =
     (case status_ids env req body of
        None \<Rightarrow> Inr (set_error_response 400 ''Invalid JSON'' res)
      | Some (capture_id, sid) \<Rightarrow>
          if capture_id = 0 \<and> sid = [] then Inr (set_error_response 400 ''Missing capture identifier'' res)
          else try_then (if capture_id > 0 then mgr_query_task (pd_task_mgr pd) capture_id
                         else if sid \<noteq> [] then mgr_query_task_by_sid (pd_task_mgr pd) sid
                         else Inr (Some TaskSnapshot_new)) (\<lambda>sn.
                 case sn of
                   None \<Rightarrow> Inr (set_error_response 404 ''capture_not_found'' res)
                 | Some s \<Rightarrow> Inr (set_json_response 200 ''OK'' (status_json s) res)))"

definition capture_api_perform ::
  "url_env \<Rightarrow> CRxProcData \<Rightarrow> http_req_head_para \<Rightarrow> string \<Rightarrow> ObjId \<Rightarrow> http_res_head_para \<Rightarrow>
   mem_fault + url_result" where
  "capture_api_perform env pd req body conn_id res =
     (let path = rh_url_path req; m = rh_method req in
      if starts_with ''/api/capture/start'' path \<and> m = ''POST'' then Inr (handle_start env pd body conn_id res)
      else if starts_with ''/api/capture/stop'' path \<and> m = ''POST'' then handle_stop env pd path conn_id res
      else if starts_with ''/api/capture/status'' path \<and> (m = ''GET'' \<or> m = ''POST'')
      then handle_status env pd req body res
      else Inr (set_error_response 404 ''Not found'' res))"

section \<open>Upload of a definition\<close>

definition kMaxPdefSize :: int where
  "kMaxPdefSize = 2 * 1024 * 1024"

definition fnv1a64 :: "string \<Rightarrow> u64" where
  "fnv1a64 s = foldl (\<lambda>h c. (h XOR of_char c) * 1099511628211) 14695981039346656037 s"

text \<open>\<open>std::hex\<close> of a number.\<close>

fun hex_string :: "nat \<Rightarrow> string" where
  "hex_string n = (if n < 16 then [hex_digit n] else hex_string (n div 16) @ [hex_digit (n mod 16)])"

declare hex_string.simps [simp del]

definition temp_pdef_path :: "url_env \<Rightarrow> string \<Rightarrow> string" where
  "temp_pdef_path env base_dir =
     snprintf 256 (c_str base_dir @ ''/rxtracenetcap_pdef_'' @ dec_string (unat (ue_tv_sec env)) @ ''_'' @
       fmt_d 6 (int (unat (ue_tv_usec env))) @ ''_'' @ dec_string (unat (ue_rand env)) @ ''.pdef'')"

definition uploaded_json :: "string \<Rightarrow> string \<Rightarrow> string" where
  "uploaded_json path body =
     ''{'' @ json_pair ''status'' (dq ''ok'') @ '','' @ json_pair ''path'' (dq (json_escape path)) @
     '','' @ json_pair ''size'' (dec_string (length body)) @
     '','' @ json_pair ''checksum'' (dq (hex_string (unat (fnv1a64 body)))) @ '','' @ json_pair ''validated'' ''true'' @ ''}''"

text \<open>The directory of the upload: there, made, or an error.\<close>

definition upload_dir_error :: "url_env \<Rightarrow> string \<Rightarrow> string option" where
  "upload_dir_error env base_dir =
     (case ue_stat env base_dir of
        None \<Rightarrow> if ue_mkdir env then None else Some ''Failed to create temp dir''
      | Some st \<Rightarrow> if fs_directory st then None else Some ''Temp path exists and is not a directory'')"

definition pdef_upload_perform ::
  "url_env \<Rightarrow> CRxProcData \<Rightarrow> http_req_head_para \<Rightarrow> string \<Rightarrow> http_res_head_para \<Rightarrow> fault + url_result" where
  "pdef_upload_perform env pd req body res =
     (if rh_method req \<noteq> ''POST'' then Inr (set_error_response 405 ''Only POST allowed'' res)
      else if body = [] then Inr (set_error_response 400 ''Empty body'' res)
      else if int (length body) > kMaxPdefSize then Inr (set_error_response 413 ''PDEF too large'' res)
      else case pdef_parse_string (c_str body) of
             Inl (Memory_fault f) \<Rightarrow> Inl f
           | Inl e \<Rightarrow> Inr (set_error_response 400 (''Invalid PDEF: '' @ snprintf 512 (ue_message env e)) res)
           | Inr p \<Rightarrow>
               (let base_dir = get_configured_pdef_dir pd; path = temp_pdef_path env base_dir in
                case upload_dir_error env base_dir of
                  Some e \<Rightarrow> Inr (set_error_response 500 e res)
                | None \<Rightarrow>
                    if \<not> ue_create env then Inr (set_error_response 500 ''Failed to open temp file'' res)
                    else if \<not> ue_written env then Inr (set_error_response 500 ''Failed to write temp file'' res)
                    else Inr ((set_json_response 200 ''OK'' (uploaded_json path body) res)
                                \<lparr>ur_file := Some (path, body)\<rparr>)))"

section \<open>Listing and reading definitions\<close>

definition is_pdef_name :: "string \<Rightarrow> bool" where
  "is_pdef_name s \<longleftrightarrow> length s \<ge> 5 \<and> drop (length s - 5) s = ''.pdef''"

definition pdef_json :: "url_env \<Rightarrow> string \<Rightarrow> string \<Rightarrow> file_stat \<Rightarrow> string" where
  "pdef_json env name path st =
     ''{'' @ json_pair ''name'' (dq (json_escape name)) @ '','' @ json_pair ''path'' (dq (json_escape path)) @
     '','' @ json_pair ''size'' (fmt_d 0 (fs_size st)) @ '','' @ json_pair ''mtime'' (dq (ue_gmtime env (fs_mtime st))) @ ''}''"

definition listed_pdef :: "url_env \<Rightarrow> string \<Rightarrow> string \<Rightarrow> string option" where
  "listed_pdef env dir name =
     (let path = dir @ ''/'' @ name in
      if name = ''.'' \<or> name = ''..'' \<or> \<not> is_pdef_name name then None
      else case ue_stat env path of
             Some st \<Rightarrow> if fs_regular st then Some (pdef_json env name path st) else None
           | None \<Rightarrow> None)"

definition handle_list :: "url_env \<Rightarrow> CRxProcData \<Rightarrow> http_res_head_para \<Rightarrow> url_result" where
  "handle_list env pd =
     set_json_response 200 ''OK''
       (''{'' @ json_pair ''status'' (dq ''ok'') @ '','' @ json_pair ''pdefs''
          (''['' @ comma_separated (concat (map (\<lambda>dir. case ue_readdir env dir of
                                                   None \<Rightarrow> []
                                                 | Some names \<Rightarrow> List.map_filter (listed_pdef env dir) names)
                                            (append_pdef_dirs pd))) @ '']'') @ ''}'')"

definition is_safe_path :: "CRxProcData \<Rightarrow> string \<Rightarrow> bool" where
  "is_safe_path pd path \<longleftrightarrow>
     path \<noteq> [] \<and> find_str ''..'' path = None \<and>
     list_ex (\<lambda>dir. dir \<noteq> [] \<and> starts_with (if last dir = CHR ''/'' then dir else dir @ ''/'') path) (append_pdef_dirs pd)"

text \<open>The file a request names, or the error.\<close>

definition get_target :: "url_env \<Rightarrow> CRxProcData \<Rightarrow> string \<Rightarrow> (int \<times> string) + string" where
  "get_target env pd url =
     (let params = parse_query_params url in
      case params ''path'' of
        Some p \<Rightarrow> Inr p
      | None \<Rightarrow>
          (case params ''name'' of
             None \<Rightarrow> Inl (400, ''Missing '' @ [CHR 0x27] @ ''name'' @ [CHR 0x27] @ '' or '' @ [CHR 0x27] @ ''path'' @ [CHR 0x27] @
                        '' parameter'')
           | Some name \<Rightarrow>
               (case find (\<lambda>p. case ue_stat env p of Some st \<Rightarrow> fs_regular st | None \<Rightarrow> False)
                       (map (\<lambda>dir. dir @ ''/'' @ name) (append_pdef_dirs pd)) of
                  None \<Rightarrow> Inl (404, ''PDEF not found'')
                | Some p \<Rightarrow> Inr p)))"

definition content_json :: "url_env \<Rightarrow> string \<Rightarrow> string \<Rightarrow> file_stat \<Rightarrow> string" where
  "content_json env path content st =
     ''{'' @ json_pair ''status'' (dq ''ok'') @ '','' @ json_pair ''path'' (dq (json_escape path)) @
     '','' @ json_pair ''size'' (dec_string (length content)) @
     '','' @ json_pair ''mtime'' (dq (ue_gmtime env (fs_mtime st))) @
     '','' @ json_pair ''content'' (dq (json_escape content)) @ ''}''"

definition read_target :: "url_env \<Rightarrow> CRxProcData \<Rightarrow> string \<Rightarrow> (int \<times> string) + string" where
  "read_target env pd path =
     (if \<not> is_safe_path pd path then Inl (403, ''Invalid path'')
      else case ue_stat env path of
             None \<Rightarrow> Inl (404, ''File not found'')
           | Some st \<Rightarrow>
               if \<not> fs_regular st then Inl (400, ''Not a regular file'')
               else if fs_size st > kMaxPdefSize then Inl (413, ''File too large'')
               else case ue_read env path of
                      None \<Rightarrow> Inl (500, ''Failed to open file'')
                    | Some content \<Rightarrow> if ue_read_bad env then Inl (500, ''Failed to read file'')
                                      else Inr (content_json env path content st))"

definition handle_get :: "url_env \<Rightarrow> CRxProcData \<Rightarrow> string \<Rightarrow> http_res_head_para \<Rightarrow> url_result" where
  "handle_get env pd url res =
     (case try_then (get_target env pd url) (read_target env pd) of
        Inl (code, message) \<Rightarrow> set_error_response code message res
      | Inr body \<Rightarrow> set_json_response 200 ''OK'' body res)"

definition pdef_management_perform ::
  "url_env \<Rightarrow> CRxProcData \<Rightarrow> http_req_head_para \<Rightarrow> http_res_head_para \<Rightarrow> url_result" where
  "pdef_management_perform env pd req res =
     (if starts_with ''/api/pdef/list'' (rh_url_path req) \<and> rh_method req = ''GET'' then handle_list env pd res
      else if starts_with ''/api/pdef/get'' (rh_url_path req) \<and> rh_method req = ''GET''
      then handle_get env pd (rh_url_path req) res
      else set_error_response 404 ''Not found'' res)"

section \<open>Dispatch\<close>

definition url_perform ::
  "url_env \<Rightarrow> CRxProcData \<Rightarrow> url_handler \<Rightarrow> http_req_head_para \<Rightarrow> string \<Rightarrow> ObjId \<Rightarrow> http_res_head_para \<Rightarrow>
   conn_error + url_result" where
  "url_perform env pd h req body conn_id res =
     (case h of
        H_static code reason b \<Rightarrow> Inr (static_json_perform code reason b res)
      | H_capture_api \<Rightarrow>
          (case capture_api_perform env pd req body conn_id res of
             Inl f \<Rightarrow> Inl (Handler_fault (Inr f)) | Inr r \<Rightarrow> Inr r)
      | H_pdef_upload \<Rightarrow>
          (case pdef_upload_perform env pd req body res of
             Inl f \<Rightarrow> Inl (Handler_fault (Inl f)) | Inr r \<Rightarrow> Inr r)
      | H_pdef_management \<Rightarrow> Inr (pdef_management_perform env pd req res))"

end
