(* ===== verification/Url_Handlers_Facts.thy ===== *)
theory Url_Handlers_Facts
  imports Url_Handlers Capture_Start_Facts Pdef_Examples
begin

text \<open>
  Facts about the URL handlers: which files may be read, that an uploaded definition can be read back, and
  what a request for a negative capture id is told.
\<close>

section \<open>Answers\<close>

lemma answer_simps [simp]:
  "ur_ready (set_json_response st r b res) = True" "ur_body (set_json_response st r b res) = b"
  "ur_sent (set_json_response st r b res) = []" "ur_file (set_json_response st r b res) = None"
  "rs_response_code (ur_res (set_json_response st r b res)) = st"
  "ur_ready (set_error_response st e res) = True" "ur_sent (set_error_response st e res) = []"
  "ur_file (set_error_response st e res) = None" "rs_response_code (ur_res (set_error_response st e res)) = st"
  by (simp_all add: set_error_response_def set_json_response_def answer_head_def)

text \<open>The one member of the URL of a request for a definition.\<close>

lemma get_params:
  assumes "CHR ''&'' \<notin> set v"
  shows "parse_query_params (''/api/pdef/get?path='' @ v) = [''path'' \<mapsto> v]"
proof -
  have "find_char (CHR ''&'') v = None" using assms by (induction v) auto
  then have "param_tokens (''path='' @ v) = [''path='' @ v]" by (simp add: param_tokens.simps)
  then show ?thesis by (simp add: parse_query_params_def add_param_def)
qed

section \<open>Reading definitions\<close>

lemma read_target_ok:
  assumes "read_target env pd path = Inr body"
  shows "\<exists>st content. is_safe_path pd path \<and> ue_stat env path = Some st \<and> fs_regular st \<and> fs_size st \<le> kMaxPdefSize \<and>
    ue_read env path = Some content \<and> body = content_json env path content st"
  using assms by (auto simp: read_target_def split: if_splits option.splits)

lemma target_errors: "try_then (get_target env pd url) (read_target env pd) = Inl (code, msg) \<Longrightarrow> code \<noteq> 200"
  by (auto simp: get_target_def read_target_def Let_def split: option.splits if_splits sum.splits)

lemma safe_path_inside:
  assumes "is_safe_path pd path"
  shows "\<exists>dir rest. dir \<in> set (append_pdef_dirs pd) \<and> dir \<noteq> [] \<and>
    (path = dir @ ''/'' @ rest \<or> last dir = CHR ''/'' \<and> path = dir @ rest)"
  using assms by (fastforce simp: is_safe_path_def list_ex_iff starts_with_iff split: if_splits)

text \<open>
  C17. Only definitions can be read.  Whatever URL is asked for, an answer 200 carries the content of a
  regular file of at most two megabytes whose path begins with one of the two directories of definitions and
  a slash and contains no two dots in a row; nothing is sent or written.
\<close>

theorem definition_reads_confined:
  assumes "rs_response_code (ur_res (handle_get env pd url res)) = 200"
  shows "\<exists>dir rest path st content. dir \<in> {''config/protocols'', get_configured_pdef_dir pd} \<and>
    (path = dir @ ''/'' @ rest \<or> last dir = CHR ''/'' \<and> path = dir @ rest) \<and> (\<nexists>a b. path = a @ ''..'' @ b) \<and>
    ue_stat env path = Some st \<and> fs_regular st \<and> fs_size st \<le> 2097152 \<and> ue_read env path = Some content \<and>
    handle_get env pd url res = set_json_response 200 ''OK'' (content_json env path content st) res"
proof -
  obtain body where body: "try_then (get_target env pd url) (read_target env pd) = Inr body"
    using assms target_errors [of env pd url]
    by (auto simp: handle_get_def split: sum.splits)
  then obtain path where path: "read_target env pd path = Inr body" by (auto elim: try_then_InrE)
  from read_target_ok [OF path] obtain st content where ok: "is_safe_path pd path" "ue_stat env path = Some st" "fs_regular st"
    "fs_size st \<le> kMaxPdefSize" "ue_read env path = Some content" "body = content_json env path content st" by blast
  have "find_str ''..'' path = None" using ok(1) by (simp add: is_safe_path_def)
  then have dots: "\<nexists>a b. path = a @ ''..'' @ b" using find_str_infix [of "''..''" path] by simp
  from safe_path_inside [OF ok(1)] obtain dir rest where
    "dir \<in> set (append_pdef_dirs pd)" "path = dir @ ''/'' @ rest \<or> last dir = CHR ''/'' \<and> path = dir @ rest" by blast
  then have "dir \<in> {''config/protocols'', get_configured_pdef_dir pd}"
    "path = dir @ ''/'' @ rest \<or> last dir = CHR ''/'' \<and> path = dir @ rest"
    by (auto simp: append_pdef_dirs_def Let_def split: if_splits)
  then show ?thesis using ok dots body
    by (intro exI [of _ dir] exI [of _ rest] exI [of _ path] exI [of _ st] exI [of _ content])
      (simp add: handle_get_def kMaxPdefSize_def)
qed

definition sample_url_env :: url_env where
  "sample_url_env =
     \<lparr>ue_parse_json = (\<lambda>s. if s = ''{}'' then Some (J_object []) else None),
      ue_proc = \<lparr>pr_dir = (\<lambda>p. None), pr_file = (\<lambda>p. None), pr_link = (\<lambda>p. None), pr_isdir = (\<lambda>p. False)\<rparr>,
      ue_now_ms = 5, ue_stat = (\<lambda>p. if p = ''config/protocols/a.pdef''
        then Some \<lparr>fs_directory = False, fs_regular = True, fs_size = 1, fs_mtime = 0\<rparr> else None),
      ue_readdir = (\<lambda>p. None), ue_read = (\<lambda>p. Some ''x''), ue_read_bad = False, ue_gmtime = (\<lambda>t. ''date''),
      ue_message = (\<lambda>e. []), ue_mkdir = True, ue_tv_sec = 7, ue_tv_usec = 8, ue_rand = 9, ue_create = True,
      ue_written = True\<rparr>"

lemma definition_reads_confined_witness:
  "\<exists>path st content. path = ''config/protocols/a.pdef'' \<and>
     handle_get sample_url_env CRxProcData_new ''/api/pdef/get?name=a.pdef'' http_res_head_para_new =
       set_json_response 200 ''OK'' (content_json sample_url_env path content st) http_res_head_para_new"
proof -
  have "rs_response_code (ur_res (handle_get sample_url_env CRxProcData_new ''/api/pdef/get?name=a.pdef'' http_res_head_para_new)) = 200"
    by (simp add: handle_get_def get_target_def parse_query_params_def param_tokens.simps add_param_def append_pdef_dirs_def
        get_configured_pdef_dir_def CRxProcData_new_def sample_url_env_def read_target_def is_safe_path_def kMaxPdefSize_def
        FALLBACK_PDEF_DIR_def)
  from definition_reads_confined [OF this] obtain path st content where
    r: "ue_stat sample_url_env path = Some st"
    "handle_get sample_url_env CRxProcData_new ''/api/pdef/get?name=a.pdef'' http_res_head_para_new =
       set_json_response 200 ''OK'' (content_json sample_url_env path content st) http_res_head_para_new" by blast
  from r(1) have "path = ''config/protocols/a.pdef''" by (simp add: sample_url_env_def split: if_splits)
  then show ?thesis using r(2) by blast
qed

text \<open>
  A name with dots is refused only after the file system was asked: 403 tells that such a file exists, 404
  that it does not.
\<close>

lemma name_reveals_files:
  assumes "parse_query_params url = [''name'' \<mapsto> name]" "find_str ''..'' name \<noteq> None"
  shows "rs_response_code (ur_res (handle_get env pd url res)) =
    (if \<exists>dir \<in> set (append_pdef_dirs pd). \<exists>st. ue_stat env (dir @ ''/'' @ name) = Some st \<and> fs_regular st then 403 else 404)"
proof -
  let ?there = "\<lambda>p. case ue_stat env p of Some st \<Rightarrow> fs_regular st | None \<Rightarrow> False"
  have unsafe: "\<not> is_safe_path pd (dir @ ''/'' @ name)" for dir
  proof -
    from assms(2) obtain a b where "name = a @ ''..'' @ b" unfolding find_str_infix by blast
    then have "dir @ ''/'' @ name = (dir @ ''/'' @ a) @ ''..'' @ b" by simp
    then have "find_str ''..'' (dir @ ''/'' @ name) \<noteq> None" unfolding find_str_infix by blast
    then show ?thesis unfolding is_safe_path_def by blast
  qed
  show ?thesis
  proof (cases "find ?there (map (\<lambda>dir. dir @ ''/'' @ name) (append_pdef_dirs pd))")
    case None
    then have "\<not> (\<exists>dir \<in> set (append_pdef_dirs pd). \<exists>st. ue_stat env (dir @ ''/'' @ name) = Some st \<and> fs_regular st)"
      by (auto simp: find_None_iff)
    then show ?thesis using None by (simp add: handle_get_def get_target_def assms(1))
  next
    case (Some p)
    have "p \<in> set (map (\<lambda>dir. dir @ ''/'' @ name) (append_pdef_dirs pd))" "?there p"
      using Some unfolding find_Some_iff by (metis nth_mem)+
    then obtain dir where "dir \<in> set (append_pdef_dirs pd)" "p = dir @ ''/'' @ name" "?there p" by auto
    then show ?thesis using Some unsafe [of dir]
      by (auto simp: handle_get_def get_target_def assms(1) read_target_def split: option.splits)
  qed
qed

section \<open>Upload\<close>

lemma uploaded_ok:
  assumes "pdef_upload_perform env pd req body res = Inr r" "ur_file r = Some (path, content)"
  shows "int (length body) \<le> kMaxPdefSize \<and> content = body \<and> path = temp_pdef_path env (get_configured_pdef_dir pd) \<and> (\<exists>p. pdef_parse_string (c_str body) = Inr p) \<and>
    r = (set_json_response 200 ''OK'' (uploaded_json path body) res)\<lparr>ur_file := Some (path, body)\<rparr>"
proof -
  note unfolded = assms(1) [unfolded pdef_upload_perform_def Let_def]
  have post: "rh_method req = ''POST''" "body \<noteq> []" "int (length body) \<le> kMaxPdefSize"
    using unfolded assms(2) by (auto split: if_splits)
  show ?thesis
  proof (cases "pdef_parse_string (c_str body)")
    case (Inl e)
    then show ?thesis using unfolded assms(2) post by (cases e) auto
  next
    case (Inr p)
    then have up: "(case upload_dir_error env (get_configured_pdef_dir pd) of
        Some e \<Rightarrow> Inr (set_error_response 500 e res)
      | None \<Rightarrow> if \<not> ue_create env then Inr (set_error_response 500 ''Failed to open temp file'' res)
          else if \<not> ue_written env then Inr (set_error_response 500 ''Failed to write temp file'' res)
          else Inr ((set_json_response 200 ''OK'' (uploaded_json (temp_pdef_path env (get_configured_pdef_dir pd)) body) res)
                      \<lparr>ur_file := Some (temp_pdef_path env (get_configured_pdef_dir pd), body)\<rparr>)) = (Inr r :: fault + url_result)"
      using unfolded post by (simp split del: if_split)
    then have "r = (set_json_response 200 ''OK'' (uploaded_json (temp_pdef_path env (get_configured_pdef_dir pd)) body) res)
        \<lparr>ur_file := Some (temp_pdef_path env (get_configured_pdef_dir pd), body)\<rparr>"
      using assms(2) by (auto split: option.splits if_splits)
    then show ?thesis using assms(2) Inr post(3) by auto
  qed
qed

lemma take_keeps_prefix: "length d < n \<Longrightarrow> \<exists>r. take n (d @ c # xs) = (d @ [c]) @ r"
  by (cases "n - length d") auto

lemma temp_path_inside:
  assumes "NUL \<notin> set dir" "length dir < 255"
  shows "starts_with (dir @ ''/'') (temp_pdef_path env dir)"
proof -
  have "c_str dir = dir" using assms(1) by (auto simp: c_str_def takeWhile_eq_all_conv)
  then obtain xs where "temp_pdef_path env dir = take 255 (dir @ CHR ''/'' # xs)"
    by (simp add: temp_pdef_path_def snprintf_def del: take_append)
  then show ?thesis using take_keeps_prefix [OF assms(2)] unfolding starts_with_iff by simp
qed

text \<open>
  C18. An uploaded definition can be read back.  When an upload is answered with a file, the text is one the
  parser accepts, and once the file is there, a request for the path the answer names gets exactly the
  uploaded text, if the path has no two dots in a row and no ampersand and the directory fits the buffer of
  the path.
\<close>

theorem uploaded_definition_reads_back:
  assumes "pdef_upload_perform env pd req body res = Inr r" "ur_file r = Some (path, content)"
    and "ue_stat env2 path = Some st" "fs_regular st" "fs_size st = int (length content)"
    and "ue_read env2 path = Some content" "\<not> ue_read_bad env2"
    and "NUL \<notin> set (get_configured_pdef_dir pd)" "length (get_configured_pdef_dir pd) < 255"
    and "find_str ''..'' path = None" "CHR ''&'' \<notin> set path"
  shows "(\<exists>p. pdef_parse_string (c_str body) = Inr p) \<and> ur_body r = uploaded_json path body \<and>
    pdef_management_perform env2 pd (http_req_head_para_new\<lparr>rh_url_path := ''/api/pdef/get?path='' @ path\<rparr>) res2 =
      set_json_response 200 ''OK'' (content_json env2 path body st) res2"
proof -
  define dir where "dir = get_configured_pdef_dir pd"
  from uploaded_ok [OF assms(1,2)] have up: "content = body" "path = temp_pdef_path env dir" "int (length body) \<le> kMaxPdefSize"
    "\<exists>p. pdef_parse_string (c_str body) = Inr p" "ur_body r = uploaded_json path body"
    by (auto simp: dir_def)
  have inside: "starts_with (dir @ ''/'') path" using temp_path_inside assms(8,9) unfolding up(2) dir_def by blast
  then have "path \<noteq> []" "starts_with dir path" by (auto simp: starts_with_iff)
  have "dir \<noteq> []" by (auto simp: dir_def get_configured_pdef_dir_def FALLBACK_PDEF_DIR_def Let_def split: option.splits)
  moreover have "dir \<in> set (append_pdef_dirs pd)"
    using \<open>dir \<noteq> []\<close> by (simp add: append_pdef_dirs_def Let_def dir_def)
  ultimately have "is_safe_path pd path"
    using assms(10) inside \<open>path \<noteq> []\<close> \<open>starts_with dir path\<close> by (auto simp: is_safe_path_def list_ex_iff)
  then have "read_target env2 pd path = Inr (content_json env2 path body st)"
    using assms(3-7) up(3) by (simp add: read_target_def up(1))
  moreover have "get_target env2 pd (''/api/pdef/get?path='' @ path) = Inr path"
    using get_params [OF assms(11)] by (simp add: get_target_def)
  ultimately show ?thesis using up
    by (simp add: pdef_management_perform_def handle_get_def http_req_head_para_new_def)
qed

lemma little_c_str: "c_str src_little = src_little"
  by (simp add: c_str_def src_little_def NUL_def)

lemma uploaded_definition_reads_back_witness:
  "\<exists>path st res2. pdef_management_perform (sample_url_env\<lparr>ue_read := (\<lambda>p. Some src_little),
       ue_stat := (\<lambda>p. Some \<lparr>fs_directory = False, fs_regular = True, fs_size = int (length src_little), fs_mtime = 0\<rparr>)\<rparr>)
     CRxProcData_new (http_req_head_para_new\<lparr>rh_url_path := ''/api/pdef/get?path='' @ path\<rparr>) res2 =
       set_json_response 200 ''OK'' (content_json sample_url_env path src_little st) res2"
proof -
  let ?req = "http_req_head_para_new\<lparr>rh_method := ''POST''\<rparr>"
  define path where "path = temp_pdef_path sample_url_env FALLBACK_PDEF_DIR"
  have zeros: "replicate 5 (CHR ''0'') = ''00000''" by (simp add: eval_nat_numeral)
  have path: "path = ''/tmp/rxtracenetcap_pdef/rxtracenetcap_pdef_7_000008_9.pdef''"
    by (simp add: path_def temp_pdef_path_def FALLBACK_PDEF_DIR_def sample_url_env_def snprintf_def c_str_def NUL_def
        fmt_d_def dec_string.simps zeros)
      (simp add: char_of_def bit_0)
  have dir: "get_configured_pdef_dir CRxProcData_new = FALLBACK_PDEF_DIR"
    by (simp add: get_configured_pdef_dir_def CRxProcData_new_def)
  obtain p where p: "pdef_parse_string src_little = Inr p" using little_loaded by blast
  have short: "src_little \<noteq> []" "int (length src_little) \<le> kMaxPdefSize"
    by (simp_all add: src_little_def kMaxPdefSize_def)
  obtain r where r: "pdef_upload_perform sample_url_env CRxProcData_new ?req src_little http_res_head_para_new = Inr r"
    "ur_file r = Some (path, src_little)"
    using p short by (simp add: pdef_upload_perform_def little_c_str dir upload_dir_error_def path_def Let_def)
      (simp add: sample_url_env_def FALLBACK_PDEF_DIR_def)
  show ?thesis
    using uploaded_definition_reads_back [OF r, where st = "\<lparr>fs_directory = False, fs_regular = True,
        fs_size = int (length src_little), fs_mtime = 0\<rparr>" and ?env2.0 = "sample_url_env\<lparr>ue_read := (\<lambda>p. Some src_little),
        ue_stat := (\<lambda>p. Some \<lparr>fs_directory = False, fs_regular = True, fs_size = int (length src_little), fs_mtime = 0\<rparr>)\<rparr>"]
    by (auto simp: dir path FALLBACK_PDEF_DIR_def NUL_def sample_url_env_def content_json_def)
qed

section \<open>Status\<close>

text \<open>A negative id is neither looked up nor refused: the answer is an empty task.\<close>

lemma negative_id_answered:
  assumes "status_ids env req body = Some (i, [])" "i < 0"
  shows "handle_status env pd req body res = Inr (set_json_response 200 ''OK'' (status_json TaskSnapshot_new) res)"
  using assms by (simp add: handle_status_def)

end
