(* ===== verification/Http_Conn.thy ===== *)
theory Http_Conn
  imports Url_Handlers
begin

text \<open>
  One HTTP connection: the socket buffers of \<open>base_connect\<close> (\<open>src/core/legacy_core_net.h\<close>), the protocol
  state of \<open>http_base_process\<close> and \<open>http_res_process\<close> (\<open>src/core/legacy_core_net.cpp\<close>) and the data process
  \<open>CRxHttpResDataProcess\<close> (\<open>src/src/rxhttpresdataprocess.cpp\<close>).  The objects of a connection are one record.
  The kernel is part of it: \<open>hc_input\<close> are bytes that have arrived and were not read, \<open>hc_wire\<close> those the
  socket has accepted, \<open>hc_answers\<close> the next results of \<open>send\<close>; when they are used up everything is
  accepted.  An exception ends the connection.
\<close>

section \<open>State\<close>

datatype HTTP_STATUS = RECV_HEAD | RECV_BODY | SEND_HEAD | SEND_BODY

datatype BOUNDARY_STATUS = BOUNDARY_RECV_HEAD | BOUNDARY_RECV_BODY | BOUNDARY_RECV_TAIL

datatype send_answer = Accept nat | Again | Fail

record http_conn =
  hc_id :: ObjId
  hc_input :: string
  hc_peer_closed :: bool
  hc_recv_buf :: string
  hc_status :: HTTP_STATUS
  hc_req :: http_req_head_para
  hc_res :: http_res_head_para
  hc_boundary :: boundary_para
  hc_boundary_head :: string
  hc_boundary_status :: BOUNDARY_STATUS
  hc_recv_body_length :: u32
  hc_recv_body :: string
  hc_send_body :: string
  hc_async_pending :: bool
  hc_send_buf :: "string option"
  hc_send_num :: nat
  hc_epollout :: bool
  hc_answers :: "send_answer list"
  hc_wire :: string
  hc_sent :: "(ObjId \<times> mgr_in) list"
  hc_uploads :: "(string \<times> string) list"

definition http_conn_new :: "ObjId \<Rightarrow> http_conn" where
  "http_conn_new i =
     \<lparr>hc_id = i, hc_input = [], hc_peer_closed = False, hc_recv_buf = [], hc_status = RECV_HEAD,
      hc_req = http_req_head_para_new, hc_res = http_res_head_para_new, hc_boundary = boundary_para_init,
      hc_boundary_head = [], hc_boundary_status = BOUNDARY_RECV_HEAD, hc_recv_body_length = 0, hc_recv_body = [],
      hc_send_body = [], hc_async_pending = False, hc_send_buf = None, hc_send_num = 0, hc_epollout = False,
      hc_answers = [], hc_wire = [], hc_sent = [], hc_uploads = []\<rparr>"

definition MAX_RECV_SIZE :: nat where
  "MAX_RECV_SIZE = 1024 * 20"

definition RECV_CHUNK :: nat where
  "RECV_CHUNK = 32768"

definition MAX_HTTP_HEAD_LEN :: nat where
  "MAX_HTTP_HEAD_LEN = 100 * 1024"

section \<open>Sending\<close>

text \<open>\<open>http_res_process::reset\<close>; the body received so far and the boundary head stay.\<close>

definition http_reset :: "http_conn \<Rightarrow> http_conn" where
  "http_reset c =
     c\<lparr>hc_req := req_head_init, hc_res := res_head_init, hc_status := RECV_HEAD, hc_boundary := boundary_para_init,
       hc_recv_body_length := 0, hc_boundary_status := BOUNDARY_RECV_HEAD\<rparr>"

definition get_send_body :: "http_conn \<Rightarrow> string \<times> http_conn" where
  "get_send_body c = (hc_send_body c, c\<lparr>hc_send_body := []\<rparr>)"

definition get_send_head :: "http_conn \<Rightarrow> string option \<times> http_conn" where
  "get_send_head c =
     (if hc_async_pending c then (None, c)
      else (Some (to_head_str (hc_res c)), c\<lparr>hc_res := with_reason (hc_res c)\<rparr>))"

definition get_send_buf :: "http_conn \<Rightarrow> string option \<times> http_conn" where
  "get_send_buf c =
     (case hc_status c of
        SEND_HEAD \<Rightarrow>
          (case get_send_head c of
             (None, c1) \<Rightarrow> (None, c1)
           | (Some h, c1) \<Rightarrow> (Some h, c1\<lparr>hc_status := SEND_BODY\<rparr>))
      | SEND_BODY \<Rightarrow> (case get_send_body c of (b, c1) \<Rightarrow> (Some b, http_reset c1))
      | _ \<Rightarrow> (None, c))"

text \<open>\<open>send\<close> for \<open>n > 0\<close> bytes: how many were accepted (0 for \<open>EAGAIN\<close>), or a fatal error.\<close>

definition SEND :: "nat \<Rightarrow> http_conn \<Rightarrow> conn_error + nat \<times> http_conn" where
  "SEND n c =
     (case hc_answers c of
        [] \<Rightarrow> Inr (n, c)
      | Accept k # as \<Rightarrow> Inr (min k n, c\<lparr>hc_answers := as\<rparr>)
      | Again # as \<Rightarrow> Inr (0, c\<lparr>hc_answers := as\<rparr>)
      | Fail # as \<Rightarrow> Inl Http_exception)"

definition send_rank :: "http_conn \<Rightarrow> nat" where
  "send_rank c = (case hc_status c of SEND_HEAD \<Rightarrow> 2 | SEND_BODY \<Rightarrow> 1 | _ \<Rightarrow> 0)"

definition send_left :: "http_conn \<Rightarrow> nat" where
  "send_left c = (case hc_send_buf c of None \<Rightarrow> 0 | Some b \<Rightarrow> Suc (length b - hc_send_num c))"

text \<open>A buffer that is sent completely is deleted; after the loop \<open>EPOLLOUT\<close> is cleared in any case.\<close>

definition sent_some :: "nat \<Rightarrow> string \<Rightarrow> http_conn \<Rightarrow> http_conn" where
  "sent_some k b c =
     (let num = hc_send_num c + k;
          c1 = c\<lparr>hc_wire := hc_wire c @ take k (drop (hc_send_num c) b), hc_send_num := num\<rparr>
      in if num \<ge> length b then c1\<lparr>hc_send_buf := None\<rparr> else c1)"

lemma get_send_buf_rank: "get_send_buf c = (Some b, c1) \<Longrightarrow> send_rank c1 < send_rank c"
  by (auto simp: get_send_buf_def send_rank_def get_send_head_def get_send_body_def http_reset_def
      split: HTTP_STATUS.splits if_splits prod.splits option.splits)

lemma SEND_keeps:
  assumes "SEND n c = Inr (k, c1)"
  shows "hc_status c1 = hc_status c \<and> hc_send_buf c1 = hc_send_buf c \<and> hc_send_num c1 = hc_send_num c \<and> k \<le> n"
  using assms by (auto simp: SEND_def split: list.splits send_answer.splits)

function real_send :: "http_conn \<Rightarrow> conn_error + http_conn" where
  "real_send c =
     (case hc_send_buf c of
        None \<Rightarrow>
          (case get_send_buf c of
             (None, c1) \<Rightarrow> Inr (c1\<lparr>hc_epollout := False\<rparr>)
           | (Some b, c1) \<Rightarrow> real_send (c1\<lparr>hc_send_buf := Some b, hc_send_num := 0\<rparr>))
      | Some b \<Rightarrow>
          (let to_send = length b - hc_send_num c in
           if to_send = 0 then Inr (c\<lparr>hc_epollout := False\<rparr>)
           else (case SEND to_send c of
                   Inl e \<Rightarrow> Inl e
                 | Inr (k, c1) \<Rightarrow>
                     if k = 0 then Inr (c1\<lparr>hc_epollout := False\<rparr>) else real_send (sent_some k b c1))))"
  by pat_completeness auto

termination
proof (relation "measures [send_rank, send_left]")
  fix c b c1 x2
  assume "hc_send_buf c = None" "(x2, c1) = get_send_buf c" "x2 = Some b"
  then show "(c1\<lparr>hc_send_buf := Some b, hc_send_num := 0\<rparr>, c) \<in> measures [send_rank, send_left]"
    using get_send_buf_rank [of c b c1] by (simp add: send_rank_def)
next
  fix c b x y k c1
  assume "hc_send_buf c = Some b" "x = length b - hc_send_num c" "x \<noteq> 0" "SEND x c = Inr y" "(k, c1) = y" "k \<noteq> 0"
  then show "(sent_some k b c1, c) \<in> measures [send_rank, send_left]"
    using SEND_keeps [of x c k c1]
    by (cases "hc_status c") (auto simp: sent_some_def Let_def send_rank_def send_left_def)
qed simp

declare real_send.simps [simp del]

definition notice_send :: "http_conn \<Rightarrow> conn_error + http_conn" where
  "notice_send c = real_send (c\<lparr>hc_epollout := True\<rparr>)"

definition change_http_status :: "HTTP_STATUS \<Rightarrow> http_conn \<Rightarrow> conn_error + http_conn" where
  "change_http_status s c =
     (let c1 = c\<lparr>hc_status := s\<rparr> in if s = SEND_HEAD then notice_send c1 else Inr c1)"

definition notify_send_ready :: "http_conn \<Rightarrow> conn_error + http_conn" where
  "notify_send_ready = change_http_status SEND_HEAD"

section \<open>The data process\<close>

definition fill_response_headers :: "int \<Rightarrow> string \<Rightarrow> str_map \<Rightarrow> nat \<Rightarrow> http_res_head_para \<Rightarrow> http_res_head_para" where
  "fill_response_headers status reason headers body_size res =
     res\<lparr>rs_response_code := status, rs_response_str := reason,
         rs_headers := sm_put ''Connection'' ''close'' (sm_put ''Content-Length'' (dec_string body_size)
           (fold (\<lambda>(k, v). sm_insert k v) headers []))\<rparr>"

definition send_async_response :: "int \<Rightarrow> string \<Rightarrow> string \<Rightarrow> str_map \<Rightarrow> http_conn \<Rightarrow> conn_error + http_conn" where
  "send_async_response status reason body headers c =
     notify_send_ready (c\<lparr>hc_send_body := body,
       hc_res := fill_response_headers status reason headers (length body) (hc_res c), hc_async_pending := False\<rparr>)"

definition data_handle_reply :: "SRxHttpReplyMsg \<Rightarrow> http_conn \<Rightarrow> conn_error + http_conn" where
  "data_handle_reply reply = send_async_response (hr_status reply) (hr_reason reply) (hr_body reply) (hr_headers reply)"

definition msg_recv_finish :: "url_env \<Rightarrow> CRxProcData \<Rightarrow> http_conn \<Rightarrow> conn_error + http_conn" where
  "msg_recv_finish env pd c =
     (let handler = (case get_url_handler pd (rh_url_path (hc_req c)) of
                       Some h \<Rightarrow> Some h | None \<Rightarrow> get_url_handler pd ''/default'');
          c1 = c\<lparr>hc_async_pending := False\<rparr>
      in case handler of
           None \<Rightarrow> Inr c1
         | Some h \<Rightarrow>
             try_then (url_perform env pd h (hc_req c1) (hc_recv_body c1) (hc_id c1) (hc_res c1)) (\<lambda>r.
               let c2 = c1\<lparr>hc_res := ur_res r, hc_sent := hc_sent c1 @ ur_sent r,
                           hc_uploads := hc_uploads c1 @ (case ur_file r of None \<Rightarrow> [] | Some f \<Rightarrow> [f])\<rparr>
               in if ur_ready r then notify_send_ready (c2\<lparr>hc_send_body := ur_body r\<rparr>)
                  else Inr (c2\<lparr>hc_async_pending := True\<rparr>)))"

text \<open>The data process takes every piece of a body and says that the body is complete: the 1.\<close>

definition data_recv_body :: "string \<Rightarrow> http_conn \<Rightarrow> nat \<times> int \<times> http_conn" where
  "data_recv_body buf c = (length buf, 1, c\<lparr>hc_recv_body := hc_recv_body c @ buf\<rparr>)"

section \<open>Receiving\<close>

definition BOUNDARY_EXTRA_LEN :: nat where
  "BOUNDARY_EXTRA_LEN = 8"

definition content_length :: "http_conn \<Rightarrow> u64" where
  "content_length c = (case get_header ''Content-Length'' (hc_req c) of Some s \<Rightarrow> strtoul 10 (c_str s) | None \<Rightarrow> 0)"

text \<open>The end of a multipart body: its closing boundary.\<close>

definition closing_len :: "http_conn \<Rightarrow> u64" where
  "closing_len c = of_nat (length (bp_boundary_str (hc_boundary c)) + BOUNDARY_EXTRA_LEN)"

definition recv_boundary_head :: "string \<Rightarrow> http_conn \<Rightarrow> conn_error + int \<times> http_conn" where
  "recv_boundary_head buf c0 =
     (let c = c0\<lparr>hc_boundary_head := hc_boundary_head c0 @ buf\<rparr>; h = hc_boundary_head c;
          total = content_length c; got = (ucast (hc_recv_body_length c) :: u64)
      in case find_str CRLF2 h of
           None \<Rightarrow> if length h \<ge> MAX_HTTP_HEAD_LEN then Inl Http_exception else Inr (0, c)
         | Some k \<Rightarrow>
             (let len = (ucast (total - closing_len c - of_nat (k + 4)) :: u32);
                  c1 = c\<lparr>hc_boundary := (hc_boundary c)\<lparr>bp_boundary_content_length := len\<rparr>\<rparr>;
                  cut = take (unat len) (drop (k + 4) h);
                  (left, c2) =
                    (if got = total then (cut, c1)
                     else if got \<ge> total - closing_len c then (cut, c1\<lparr>hc_boundary_status := BOUNDARY_RECV_TAIL\<rparr>)
                     else (drop (k + 4) h, c1\<lparr>hc_boundary_status := BOUNDARY_RECV_BODY\<rparr>))
              in if left = [] then Inr (0, c2)
                 else case data_recv_body left c2 of (n, result, c3) \<Rightarrow> Inr (if got = total then 1 else result, c3)))"

definition recv_boundary_body :: "string \<Rightarrow> http_conn \<Rightarrow> conn_error + int \<times> http_conn" where
  "recv_boundary_body buf c =
     (let total = content_length c; got = (ucast (hc_recv_body_length c) :: u64);
          (keep, c1) =
            (if got = total then (int (length buf) - int (unat (closing_len c)), c)
             else if got \<ge> total - closing_len c
             then (int (length buf) - int (unat (got - (total - closing_len c))),
                   c\<lparr>hc_boundary_status := BOUNDARY_RECV_TAIL\<rparr>)
             else (int (length buf), c))
      in if keep < 0 then Inl Http_exception
         else case data_recv_body (take (nat keep) buf) c1 of
                (n, result, c2) \<Rightarrow> Inr (if got = total then 1 else result, c2))"

definition get_boundary :: "string \<Rightarrow> http_conn \<Rightarrow> conn_error + int \<times> http_conn" where
  "get_boundary buf c0 =
     (if content_length c0 = 0 then Inl Http_exception
      else let c = c0\<lparr>hc_recv_body_length := hc_recv_body_length c0 + of_nat (length buf)\<rparr> in
           case hc_boundary_status c of
             BOUNDARY_RECV_HEAD \<Rightarrow> recv_boundary_head buf c
           | BOUNDARY_RECV_BODY \<Rightarrow> recv_boundary_body buf c
           | BOUNDARY_RECV_TAIL \<Rightarrow>
               Inr (if ucast (hc_recv_body_length c) = content_length c then 1 else 0, c))"

text \<open>Every variant takes the whole buffer; the number is the result, 1 for a complete request.\<close>

definition process_recv_body :: "string \<Rightarrow> http_conn \<Rightarrow> conn_error + int \<times> http_conn" where
  "process_recv_body buf c =
     (if same_case (rh_method (hc_req c)) ''GET'' \<or> same_case (rh_method (hc_req c)) ''HEAD'' then Inr (1, c)
      else if bp_boundary_str (hc_boundary c) = []
      then case data_recv_body buf c of
             (n, result, c1) \<Rightarrow>
               let c2 = c1\<lparr>hc_recv_body_length := hc_recv_body_length c1 + of_nat n\<rparr>
               in Inr (if ucast (hc_recv_body_length c2) = content_length c2 then 1 else result, c2)
      else get_boundary buf c)"

definition recv_finish :: "url_env \<Rightarrow> CRxProcData \<Rightarrow> http_conn \<Rightarrow> conn_error + http_conn" where
  "recv_finish env pd c =
     try_then (msg_recv_finish env pd c) (\<lambda>c1.
       if hc_async_pending c1 then Inr c1 else change_http_status SEND_HEAD c1)"

definition finish_if :: "url_env \<Rightarrow> CRxProcData \<Rightarrow> int \<times> http_conn \<Rightarrow> conn_error + http_conn" where
  "finish_if env pd r = (if fst r = 1 then recv_finish env pd (snd r) else Inr (snd r))"

text \<open>How many bytes of the buffer are used up: all, or none while the head is incomplete.\<close>

definition process_recv_buf :: "url_env \<Rightarrow> CRxProcData \<Rightarrow> string \<Rightarrow> http_conn \<Rightarrow> conn_error + nat \<times> http_conn" where
  "process_recv_buf env pd buf c =
     (case hc_status c of
        RECV_HEAD \<Rightarrow>
          (case find_str CRLF2 (c_str buf) of
             None \<Rightarrow> Inr (0, c)
           | Some k \<Rightarrow>
               try_then (parse_header (take (k + 4) buf) (hc_req c, hc_boundary c)) (\<lambda>(req, b).
               try_then (process_recv_body (drop (k + 4) buf)
                           (c\<lparr>hc_status := RECV_BODY, hc_req := req, hc_boundary := b\<rparr>)) (\<lambda>r.
               try_then (finish_if env pd r) (\<lambda>c1. Inr (length buf, c1)))))
      | RECV_BODY \<Rightarrow>
          try_then (process_recv_body buf c) (\<lambda>r.
          try_then (finish_if env pd r) (\<lambda>c1. Inr (length buf, c1)))
      | _ \<Rightarrow> Inl Http_exception)"

text \<open>\<open>recv\<close> of at most \<open>n\<close> bytes: none when there are none yet, an exception when the peer has closed.\<close>

definition RECV :: "nat \<Rightarrow> http_conn \<Rightarrow> conn_error + http_conn" where
  "RECV n c =
     (if hc_input c = [] then if hc_peer_closed c then Inl Socket_closed else Inr c
      else Inr (c\<lparr>hc_recv_buf := hc_recv_buf c @ take n (hc_input c), hc_input := drop n (hc_input c)\<rparr>))"

definition real_recv :: "url_env \<Rightarrow> CRxProcData \<Rightarrow> bool \<Rightarrow> http_conn \<Rightarrow> conn_error + http_conn" where
  "real_recv env pd flag c =
     (let room = MAX_RECV_SIZE - length (hc_recv_buf c) in
      try_then (if room > 0 then RECV (min room RECV_CHUNK) c else Inr c) (\<lambda>c1.
        if hc_recv_buf c1 \<noteq> [] \<or> flag
        then try_then (process_recv_buf env pd (hc_recv_buf c1) c1) (\<lambda>(used, c2).
               Inr (c2\<lparr>hc_recv_buf := drop used (hc_recv_buf c2)\<rparr>))
        else Inr c1))"

section \<open>Events\<close>

text \<open>Bytes that arrive, the socket events, the reply of the capture manager, the timer of the connection.\<close>

datatype conn_event =
  Ev_arrive string
| Ev_close
| Ev_error
| Ev_in
| Ev_out
| Ev_real_net
| Ev_reply SRxHttpReplyMsg
| Ev_timer int

definition NONE_DATA_TIMER_TYPE :: int where
  "NONE_DATA_TIMER_TYPE = 6"

definition DELAY_CLOSE_TIMER_TYPE :: int where
  "DELAY_CLOSE_TIMER_TYPE = 2"

definition conn_handle_timeout :: "int \<Rightarrow> http_conn \<Rightarrow> conn_error + http_conn" where
  "conn_handle_timeout t c =
     (if t = DELAY_CLOSE_TIMER_TYPE \<or> t = NONE_DATA_TIMER_TYPE then Inl Http_exception else Inr c)"

fun conn_step :: "url_env \<Rightarrow> CRxProcData \<Rightarrow> conn_event \<Rightarrow> http_conn \<Rightarrow> conn_error + http_conn" where
  "conn_step env pd (Ev_arrive bytes) c = Inr (c\<lparr>hc_input := hc_input c @ bytes\<rparr>)"
| "conn_step env pd Ev_close c = Inr (c\<lparr>hc_peer_closed := True\<rparr>)"
| "conn_step env pd Ev_error c = Inl Http_exception"
| "conn_step env pd Ev_in c = real_recv env pd False c"
| "conn_step env pd Ev_out c = real_send c"
| "conn_step env pd Ev_real_net c =
     try_then (real_recv env pd True c) (\<lambda>c1. if hc_epollout c1 then real_send c1 else Inr c1)"
| "conn_step env pd (Ev_reply reply) c = data_handle_reply reply c"
| "conn_step env pd (Ev_timer t) c = conn_handle_timeout t c"

fun conn_run :: "(url_env \<times> CRxProcData \<times> conn_event) list \<Rightarrow> http_conn \<Rightarrow> conn_error + http_conn" where
  "conn_run [] c = Inr c"
| "conn_run ((env, pd, e) # es) c = try_then (conn_step env pd e c) (conn_run es)"

end
