(* ===== verification/Net_Timer.thy ===== *)
theory Net_Timer
  imports Capture_Types "HOL-Library.Multiset"
begin

text \<open>
  The timers of a network thread: \<open>base_timer\<close> of \<open>src/core/legacy_core_net.cpp\<close>.  There are two lists,
  each a \<open>std::multimap\<close> ordered by the time of the timer.  A check turns the lists round before it runs the
  handlers, so that what a handler adds goes to the other list.  The handler is an argument: it is the object
  container, which changes its own state and may throw.
\<close>

section \<open>State\<close>

record timer_msg =
  tm_obj_id :: u32
  tm_timer_type :: u32
  tm_timer_id :: u32
  tm_time_length :: u32

type_synonym timer_list = "(u64 \<times> timer_msg) list"

text \<open>The lists 0 and 1, the ids in use, the last id, the number of the current list.\<close>

record base_timer =
  bt_list :: "nat \<Rightarrow> timer_list"
  bt_timerid_set :: "u32 set"
  bt_timerid :: u32
  bt_current :: nat

definition TIMER_ID_BEGIN :: u32 where
  "TIMER_ID_BEGIN = 1000"

definition base_timer_new :: base_timer where
  "base_timer_new = \<lparr>bt_list = (\<lambda>_. []), bt_timerid_set = {}, bt_timerid = TIMER_ID_BEGIN, bt_current = 0\<rparr>"

section \<open>Adding\<close>

definition next_timerid :: "u32 \<Rightarrow> u32" where
  "next_timerid i = (if i + 1 < TIMER_ID_BEGIN then TIMER_ID_BEGIN else i + 1)"

text \<open>The loop of \<open>gen_timerid\<close>, which would not end if every id were in use.\<close>

partial_function (option) free_timerid :: "u32 \<Rightarrow> u32 set \<Rightarrow> u32 option" where
  "free_timerid i ids =
     (let j = next_timerid i in if j \<in> ids then free_timerid j ids else Some j)"

definition gen_timerid :: "base_timer \<Rightarrow> (u32 \<times> base_timer) option" where
  "gen_timerid bt =
     (case free_timerid (bt_timerid bt) (bt_timerid_set bt) of
        None \<Rightarrow> None
      | Some j \<Rightarrow> Some (j, bt\<lparr>bt_timerid := j, bt_timerid_set := insert j (bt_timerid_set bt)\<rparr>))"

text \<open>\<open>std::multimap::insert\<close>: behind the entries with an equal key.\<close>

fun mm_insert :: "u64 \<Rightarrow> timer_msg \<Rightarrow> timer_list \<Rightarrow> timer_list" where
  "mm_insert t m [] = [(t, m)]"
| "mm_insert t m ((s, n) # l) = (if s \<le> t then (s, n) # mm_insert t m l else (t, m) # (s, n) # l)"

text \<open>\<open>base_timer::add_timer\<close>: 0 for a timer without a time or an object.\<close>

definition add_timer :: "u64 \<Rightarrow> timer_msg \<Rightarrow> base_timer \<Rightarrow> (u32 \<times> base_timer) option" where
  "add_timer now m bt =
     (if tm_time_length m = 0 \<or> tm_obj_id m = 0 then Some (0, bt)
      else (let reach_time = now + ucast (tm_time_length m) in
            case gen_timerid bt of
              None \<Rightarrow> None
            | Some (j, bt1) \<Rightarrow>
                Some (j, bt1\<lparr>bt_list := (bt_list bt1)(bt_current bt1 :=
                  mm_insert reach_time (m\<lparr>tm_timer_id := j\<rparr>) (bt_list bt1 (bt_current bt1)))\<rparr>)))"

section \<open>Checking\<close>

text \<open>The handler of a timer: true when it threw.  The objects of the timers that threw are collected.\<close>

fun run_timers :: "(timer_msg \<Rightarrow> 's \<Rightarrow> bool \<times> 's) \<Rightarrow> timer_list \<Rightarrow> 's \<Rightarrow> u32 list \<times> 's" where
  "run_timers h [] s = ([], s)"
| "run_timers h ((t, m) # l) s =
     (case h m s of (threw, s1) \<Rightarrow>
      case run_timers h l s1 of (failed, s2) \<Rightarrow> ((if threw then tm_obj_id m # failed else failed), s2))"

definition turn_lists :: "base_timer \<Rightarrow> base_timer" where
  "turn_lists bt = bt\<lparr>bt_current := 1 - bt_current bt\<rparr>"

definition due :: "u64 \<Rightarrow> timer_list \<Rightarrow> timer_list" where
  "due now l = takeWhile (\<lambda>(t, m). t \<le> now) l"

text \<open>What was due in list \<open>k\<close> is erased by its time, and its ids are given back.\<close>

definition erase_due :: "nat \<Rightarrow> timer_list \<Rightarrow> base_timer \<Rightarrow> base_timer" where
  "erase_due k fired bt =
     (let gone = (\<lambda>(t, m). t \<in> fst ` set fired) in
      bt\<lparr>bt_timerid_set := bt_timerid_set bt - (\<lambda>(t, m). tm_timer_id m) ` set (List.filter gone (bt_list bt k)),
         bt_list := (bt_list bt)(k := List.filter (\<lambda>e. \<not> gone e) (bt_list bt k))\<rparr>)"

text \<open>
  \<open>check_timer\<close> on a state that has the timers as a part of it, to read with \<open>get\<close> and to change with
  \<open>upd\<close>: the objects whose timers threw, and the new state.
\<close>

definition check_timer ::
  "('s \<Rightarrow> base_timer) \<Rightarrow> ((base_timer \<Rightarrow> base_timer) \<Rightarrow> 's \<Rightarrow> 's) \<Rightarrow> (timer_msg \<Rightarrow> 's \<Rightarrow> bool \<times> 's) \<Rightarrow>
   u64 \<Rightarrow> 's \<Rightarrow> u32 list \<times> 's" where
  "check_timer get upd h now s =
     (let k = bt_current (get s); fired = due now (bt_list (get s) k) in
      case run_timers h fired (upd turn_lists s) of (failed, s1) \<Rightarrow> (failed, upd (erase_due k fired) s1))"

definition timers_empty :: "base_timer \<Rightarrow> bool" where
  "timers_empty bt \<longleftrightarrow> bt_list bt (bt_current bt) = []"

section \<open>What is pending\<close>

definition timers_ok :: "base_timer \<Rightarrow> bool" where
  "timers_ok bt \<longleftrightarrow> bt_current bt \<le> 1 \<and> (\<forall>k. sorted (map fst (bt_list bt k)))"

lemma timers_ok_new: "timers_ok base_timer_new"
  by (simp add: timers_ok_def base_timer_new_def)

lemma mset_mm_insert [simp]: "mset (mm_insert t m l) = add_mset (t, m) (mset l)"
  by (induction t m l rule: mm_insert.induct) auto

lemma set_mm_insert [simp]: "set (mm_insert t m l) = insert (t, m) (set l)"
  by (metis mset_mm_insert set_mset_add_mset_insert set_mset_mset)

lemma sorted_mm_insert: "sorted (map fst l) \<Longrightarrow> sorted (map fst (mm_insert t m l))"
  by (induction t m l rule: mm_insert.induct) (auto simp: less_imp_le)

lemma gen_timerid_simps:
  assumes "gen_timerid bt = Some (j, b)"
  shows "bt_list b = bt_list bt" "bt_current b = bt_current bt"
  using assms by (auto simp: gen_timerid_def split: option.splits)

lemma add_timer_cases:
  assumes "add_timer now m bt = Some (j, b)"
  obtains "tm_time_length m = 0 \<or> tm_obj_id m = 0" "b = bt"
  | "tm_time_length m \<noteq> 0" "tm_obj_id m \<noteq> 0" "bt_current b = bt_current bt"
    "bt_list b = (bt_list bt)(bt_current bt :=
       mm_insert (now + ucast (tm_time_length m)) (m\<lparr>tm_timer_id := j\<rparr>) (bt_list bt (bt_current bt)))"
  using assms gen_timerid_simps by (auto simp: add_timer_def Let_def split: if_splits option.splits)

text \<open>Adding keeps the order and every timer that is there; the list that is not current is not touched.\<close>

lemma add_timer_keeps:
  assumes "add_timer now m bt = Some (j, b)"
  shows "bt_current b = bt_current bt" "timers_ok bt \<Longrightarrow> timers_ok b" "k \<noteq> bt_current bt \<Longrightarrow> bt_list b k = bt_list bt k"
    "set (bt_list bt k) \<subseteq> set (bt_list b k)"
  using assms by (cases rule: add_timer_cases; auto simp: timers_ok_def sorted_mm_insert)+

lemma due_sorted: "sorted (map fst l) \<Longrightarrow> due now l = List.filter (\<lambda>(t, m). t \<le> now) l"
proof (induction l)
  case (Cons e l)
  then show ?case
    by (cases e) (auto simp: due_def filter_empty_conv intro!: sym [OF filter_False])
qed (simp add: due_def)

lemma in_due: "(t, m) \<in> set l \<Longrightarrow> t \<in> fst ` set (List.filter (\<lambda>(t, m). t \<le> now) l) \<longleftrightarrow> t \<le> now"
  by (auto intro!: image_eqI [where x = "(t, m)"])

text \<open>A list no handler has touched keeps exactly what is not due.\<close>

lemma erase_due_list:
  assumes "sorted (map fst (bt_list bt k))"
  shows "bt_list (erase_due k (due now (bt_list bt k)) bt) k = List.filter (\<lambda>(t, m). now < t) (bt_list bt k)"
proof -
  have "(\<not> (\<lambda>(t, m). t \<in> fst ` set (due now (bt_list bt k))) e) = (case e of (t, m) \<Rightarrow> now < t)"
    if "e \<in> set (bt_list bt k)" for e
  proof -
    obtain t m where "e = (t, m)" by fastforce
    then show ?thesis using that in_due [of t m "bt_list bt k" now] by (simp add: due_sorted [OF assms] not_le)
  qed
  then show ?thesis unfolding erase_due_def Let_def by (simp cong: filter_cong)
qed

lemma erase_due_simps [simp]:
  "bt_current (erase_due k l bt) = bt_current bt" "j \<noteq> k \<Longrightarrow> bt_list (erase_due k l bt) j = bt_list bt j"
  by (simp_all add: erase_due_def Let_def)

lemma erase_due_sorted: "sorted (map fst (bt_list bt j)) \<Longrightarrow> sorted (map fst (bt_list (erase_due k l bt) j))"
  by (auto simp: erase_due_def Let_def intro!: sorted_filter)

lemma turn_lists_simps [simp]:
  "bt_list (turn_lists bt) = bt_list bt" "bt_current (turn_lists bt) = 1 - bt_current bt"
  by (simp_all add: turn_lists_def)

section \<open>A host of timers\<close>

text \<open>
  What the check relies on: the timers are a part of the state, and a handler leaves the list alone that is
  not the current one, keeps the current number, and keeps the lists in order.
\<close>

locale timer_host =
  fixes get :: "'s \<Rightarrow> base_timer" and upd :: "(base_timer \<Rightarrow> base_timer) \<Rightarrow> 's \<Rightarrow> 's"
    and h :: "timer_msg \<Rightarrow> 's \<Rightarrow> bool \<times> 's"
  assumes get_upd: "get (upd f s) = f (get s)"
    and h_current: "h m s = (b, s1) \<Longrightarrow> bt_current (get s1) = bt_current (get s)"
    and h_other: "h m s = (b, s1) \<Longrightarrow> k \<noteq> bt_current (get s) \<Longrightarrow> bt_list (get s1) k = bt_list (get s) k"
    and h_keeps: "h m s = (b, s1) \<Longrightarrow> set (bt_list (get s) k) \<subseteq> set (bt_list (get s1) k)"
    and h_ok: "h m s = (b, s1) \<Longrightarrow> timers_ok (get s) \<Longrightarrow> timers_ok (get s1)"
begin

lemma run_keeps:
  assumes "run_timers h l s = (failed, s1)"
  shows "bt_current (get s1) = bt_current (get s) \<and> (\<forall>k. k \<noteq> bt_current (get s) \<longrightarrow> bt_list (get s1) k = bt_list (get s) k) \<and>
    (\<forall>k. set (bt_list (get s) k) \<subseteq> set (bt_list (get s1) k)) \<and> (timers_ok (get s) \<longrightarrow> timers_ok (get s1))"
  using assms
proof (induction l arbitrary: s failed)
  case (Cons e l)
  obtain t m b s2 where e: "e = (t, m)" "h m s = (b, s2)" by (cases e) fastforce
  obtain f2 s3 where r: "run_timers h l s2 = (f2, s3)" by fastforce
  then have "run_timers h l s2 = (f2, s1)" using Cons.prems e by simp
  note rest = Cons.IH [OF this]
  have "set (bt_list (get s) k) \<subseteq> set (bt_list (get s1) k)" for k
    using rest h_keeps [OF e(2)] by (meson subset_trans)
  with rest h_current [OF e(2)] h_other [OF e(2)] h_ok [OF e(2)] show ?case by simp
qed simp

text \<open>
  A check fires what is due in the current list and nothing else: it is gone, later timers and the timers of
  the other list are still there, and the lists have changed places.
\<close>

lemma check_exact:
  assumes "timers_ok (get s)" "check_timer get upd h now s = (failed, s2)"
  defines "k \<equiv> bt_current (get s)"
  shows "timers_ok (get s2)" "bt_current (get s2) = 1 - k"
    "bt_list (get s2) k = List.filter (\<lambda>(t, m). now < t) (bt_list (get s) k)"
    "set (bt_list (get s) (1 - k)) \<subseteq> set (bt_list (get s2) (1 - k))"
    "\<exists>s1. run_timers h (List.filter (\<lambda>(t, m). t \<le> now) (bt_list (get s) k)) (upd turn_lists s) = (failed, s1) \<and>
       s2 = upd (erase_due k (List.filter (\<lambda>(t, m). t \<le> now) (bt_list (get s) k))) s1"
proof -
  have k: "k \<le> 1" "k \<noteq> 1 - k" and sorted: "sorted (map fst (bt_list (get s) k))"
    using assms(1) by (auto simp: timers_ok_def k_def) arith
  have due: "due now (bt_list (get s) k) = List.filter (\<lambda>(t, m). t \<le> now) (bt_list (get s) k)" by (rule due_sorted [OF sorted])
  obtain s1 where run: "run_timers h (due now (bt_list (get s) k)) (upd turn_lists s) = (failed, s1)"
    and s2: "s2 = upd (erase_due k (due now (bt_list (get s) k))) s1"
    using assms(2) by (auto simp: check_timer_def Let_def k_def split: prod.splits)
  note keeps = run_keeps [OF run]
  have ok: "timers_ok (turn_lists (get s))" using assms(1) by (auto simp: timers_ok_def)
  have old: "bt_list (get s1) k = bt_list (get s) k" using keeps k by (simp add: get_upd k_def)
  show "bt_current (get s2) = 1 - k" using keeps by (simp add: s2 get_upd k_def)
  show "bt_list (get s2) k = List.filter (\<lambda>(t, m). now < t) (bt_list (get s) k)"
    using erase_due_list [of "get s1" k now] old sorted by (simp add: s2 get_upd)
  show "set (bt_list (get s) (1 - k)) \<subseteq> set (bt_list (get s2) (1 - k))"
    using keeps k by (simp add: s2 get_upd)
  show "timers_ok (get s2)" using keeps ok k
    by (auto simp: s2 get_upd timers_ok_def k_def intro: erase_due_sorted)
  show "\<exists>s1. run_timers h (List.filter (\<lambda>(t, m). t \<le> now) (bt_list (get s) k)) (upd turn_lists s) = (failed, s1) \<and>
       s2 = upd (erase_due k (List.filter (\<lambda>(t, m). t \<le> now) (bt_list (get s) k))) s1"
    using run s2 unfolding due by blast
qed

end

end
