(* ===== verification/Http_Thread.thy ===== *)
theory Http_Thread
  imports Http_Conn Net_Timer
begin

text \<open>
  A thread of HTTP connections: the object container, the message channel and the loop of
  \<open>src/core/legacy_core_net.cpp\<close> (\<open>common_obj_container\<close>, \<open>channel_data_process\<close>, \<open>common_epoll\<close>,
  \<open>base_net_thread\<close>) with the messages of \<open>CRxHttpResThread\<close> (\<open>src/src/rxhttpthread.cpp\<close>).  The kernel's
  \<open>epoll_wait\<close> is the list of events of a round.  None stands for a loop over ids that does not end.

  Objects are connections and the channel; the channel is also owned by the thread, so that it lives on when
  its entry is erased.  The list of "real net" objects is always empty and is left out: only the timer of a
  channel puts something into it, and that timer is addressed to object 2, which no container has.
\<close>

section \<open>State\<close>

datatype net_obj = Channel_obj | Conn http_conn

text \<open>The messages of an HTTP thread: a new connection (does epoll take it?), a reply, one that is only logged.\<close>

datatype http_in = N_connect bool | N_reply SRxHttpReplyMsg | N_logged

record channel =
  ch_queue :: "nat \<Rightarrow> (u32 \<times> http_in) list"
  ch_current :: nat
  ch_last_time :: u64

record http_thread =
  ht_thread_index :: u32
  ht_obj_map :: "u32 \<rightharpoonup> net_obj"
  ht_id_str :: u32
  ht_timer :: base_timer
  ht_channel :: channel
  ht_channel_id :: u32

definition OBJ_ID_DOMAIN :: u32 where
  "OBJ_ID_DOMAIN = 2"

definition OBJ_ID_BEGIN :: u32 where
  "OBJ_ID_BEGIN = 1000"

definition NONE_CHANNEL_EVENT_TIMER_TYPE :: u32 where
  "NONE_CHANNEL_EVENT_TIMER_TYPE = 7"

definition channel_new :: channel where
  "channel_new = \<lparr>ch_queue = (\<lambda>_. []), ch_current = 0, ch_last_time = 0\<rparr>"

section \<open>The object container\<close>

definition next_obj_id :: "u32 \<Rightarrow> u32" where
  "next_obj_id i = (if i \<le> OBJ_ID_BEGIN then OBJ_ID_BEGIN else i) + 1"

partial_function (option) gen_id_str :: "u32 \<Rightarrow> (u32 \<rightharpoonup> net_obj) \<Rightarrow> u32 option" where
  "gen_id_str i objs =
     (let j = next_obj_id i in if objs j \<noteq> None then gen_id_str j objs else Some j)"

definition container_insert :: "(u32 \<Rightarrow> net_obj) \<Rightarrow> http_thread \<Rightarrow> (u32 \<times> http_thread) option" where
  "container_insert obj th =
     (case gen_id_str (ht_id_str th) (ht_obj_map th) of
        None \<Rightarrow> None
      | Some i \<Rightarrow> Some (i, th\<lparr>ht_id_str := i, ht_obj_map := (ht_obj_map th)(i \<mapsto> obj i)\<rparr>))"

definition container_erase :: "u32 \<Rightarrow> http_thread \<Rightarrow> http_thread" where
  "container_erase i th = th\<lparr>ht_obj_map := (ht_obj_map th)(i := None)\<rparr>"

definition container_add_timer :: "u64 \<Rightarrow> timer_msg \<Rightarrow> http_thread \<Rightarrow> http_thread option" where
  "container_add_timer now m th = map_option (\<lambda>(j, bt). th\<lparr>ht_timer := bt\<rparr>) (add_timer now m (ht_timer th))"

text \<open>\<open>net_thread_init\<close> with one channel.\<close>

definition net_thread_init :: "u32 \<Rightarrow> http_thread option" where
  "net_thread_init index =
     map_option (\<lambda>(i, th). th\<lparr>ht_channel_id := i\<rparr>)
       (container_insert (\<lambda>i. Channel_obj)
          \<lparr>ht_thread_index = index, ht_obj_map = Map.empty, ht_id_str = OBJ_ID_BEGIN, ht_timer = base_timer_new,
           ht_channel = channel_new, ht_channel_id = 0\<rparr>)"

text \<open>A timer reaches the object it is for; the thread itself does nothing with one.  True: it threw.\<close>

definition container_handle_timeout :: "timer_msg \<Rightarrow> http_thread \<Rightarrow> bool \<times> http_thread" where
  "container_handle_timeout m th =
     (if tm_obj_id m = OBJ_ID_THREAD then (False, th)
      else case ht_obj_map th (tm_obj_id m) of
             Some (Conn c) \<Rightarrow>
               (case conn_handle_timeout (uint (tm_timer_type m)) c of
                  Inl e \<Rightarrow> (True, th)
                | Inr d \<Rightarrow> (False, th\<lparr>ht_obj_map := (ht_obj_map th)(tm_obj_id m \<mapsto> Conn d)\<rparr>))
           | _ \<Rightarrow> (False, th))"

section \<open>The message channel\<close>

definition put_msg :: "u32 \<Rightarrow> http_in \<Rightarrow> channel \<Rightarrow> channel" where
  "put_msg i m ch =
     (let idle = 1 - ch_current ch in ch\<lparr>ch_queue := (ch_queue ch)(idle := ch_queue ch idle @ [(i, m)])\<rparr>)"

text \<open>The batch is taken under the lock.\<close>

definition take_batch :: "channel \<Rightarrow> (u32 \<times> http_in) list \<times> channel" where
  "take_batch ch =
     (let k = (if ch_queue ch (ch_current ch) = [] then 1 - ch_current ch else ch_current ch)
      in (ch_queue ch k, ch\<lparr>ch_current := k, ch_queue := (ch_queue ch)(k := [])\<rparr>))"

definition MAX_CHANNEL_EVENT_TIMEOUT :: u64 where
  "MAX_CHANNEL_EVENT_TIMEOUT = 1000"

definition add_event_timer :: "u64 \<Rightarrow> u64 \<Rightarrow> http_thread \<Rightarrow> http_thread option" where
  "add_event_timer now time_out th =
     (let t1 = (if time_out > 100 * MAX_CHANNEL_EVENT_TIMEOUT then 100 * MAX_CHANNEL_EVENT_TIMEOUT else time_out);
          t2 = (if t1 < 20 then 20 else t1)
      in container_add_timer now
           \<lparr>tm_obj_id = OBJ_ID_DOMAIN, tm_timer_type = NONE_CHANNEL_EVENT_TIMER_TYPE, tm_timer_id = 0,
            tm_time_length = ucast t2\<rparr> th)"

section \<open>Messages\<close>

definition handle_connect :: "u64 \<Rightarrow> bool \<Rightarrow> http_thread \<Rightarrow> http_thread option" where
  "handle_connect now taken th =
     (if \<not> taken then Some th
      else case container_insert (\<lambda>i. Conn (http_conn_new \<lparr>obj_id = i, obj_thread_index = ht_thread_index th\<rparr>)) th of
             None \<Rightarrow> None
           | Some (i, th1) \<Rightarrow>
               container_add_timer now
                 \<lparr>tm_obj_id = i, tm_timer_type = of_int NONE_DATA_TIMER_TYPE, tm_timer_id = 0, tm_time_length = 30000\<rparr> th1)"

text \<open>
  The state an exception out of \<open>send\<close> leaves: sending stopped where the socket failed, as it would have for
  a full socket, but \<open>EPOLLOUT\<close> is still on.
\<close>

definition torn_reply :: "SRxHttpReplyMsg \<Rightarrow> http_conn \<Rightarrow> http_conn" where
  "torn_reply r c =
     (case data_handle_reply r (c\<lparr>hc_answers := map (\<lambda>a. if a = Fail then Again else a) (hc_answers c)\<rparr>) of
        Inl e \<Rightarrow> c
      | Inr d \<Rightarrow> d\<lparr>hc_epollout := True, hc_answers := drop (length (hc_answers c) - length (hc_answers d)) (hc_answers c)\<rparr>)"

text \<open>\<open>common_obj_container::handle_msg\<close>.  True: it threw.\<close>

definition container_handle_msg :: "u64 \<Rightarrow> u32 \<times> http_in \<Rightarrow> http_thread \<Rightarrow> (bool \<times> http_thread) option" where
  "container_handle_msg now im th =
     (case im of (i, m) \<Rightarrow>
      if i = OBJ_ID_THREAD
      then (case m of N_connect taken \<Rightarrow> map_option (Pair False) (handle_connect now taken th) | _ \<Rightarrow> Some (False, th))
      else case (ht_obj_map th i, m) of
             (Some (Conn c), N_reply r) \<Rightarrow>
               Some (case data_handle_reply r c of
                       Inl e \<Rightarrow> (True, th\<lparr>ht_obj_map := (ht_obj_map th)(i \<mapsto> Conn (torn_reply r c))\<rparr>)
                     | Inr d \<Rightarrow> (False, th\<lparr>ht_obj_map := (ht_obj_map th)(i \<mapsto> Conn d)\<rparr>))
           | _ \<Rightarrow> Some (False, th))"

fun deliver :: "u64 \<Rightarrow> (u32 \<times> http_in) list \<Rightarrow> http_thread \<Rightarrow> (bool \<times> http_thread) option" where
  "deliver now [] th = Some (False, th)"
| "deliver now (im # ims) th =
     (case container_handle_msg now im th of
        None \<Rightarrow> None
      | Some (threw, th1) \<Rightarrow> if threw then Some (True, th1) else deliver now ims th1)"

definition channel_process :: "u64 \<Rightarrow> http_thread \<Rightarrow> (bool \<times> http_thread) option" where
  "channel_process now th =
     (case take_batch (ht_channel th) of (batch, ch) \<Rightarrow>
      case deliver now batch (th\<lparr>ht_channel := ch\<rparr>) of
        None \<Rightarrow> None
      | Some (True, th1) \<Rightarrow> Some (True, th1)
      | Some (False, th1) \<Rightarrow>
          map_option (\<lambda>th2. (False, th2\<lparr>ht_channel := (ht_channel th2)\<lparr>ch_last_time := now\<rparr>\<rparr>))
            (if ch_last_time (ht_channel th1) = 0 then add_event_timer now MAX_CHANNEL_EVENT_TIMEOUT th1 else Some th1))"

section \<open>A round of the loop\<close>

text \<open>What happens in a round: another thread puts a message, the channel is readable, a connection has an event.\<close>

datatype thread_event =
  T_put u32 http_in
| T_channel
| T_conn u32 conn_event

fun thread_step :: "url_env \<Rightarrow> CRxProcData \<Rightarrow> u64 \<Rightarrow> thread_event \<Rightarrow> http_thread \<Rightarrow> (u32 list \<times> http_thread) option" where
  "thread_step env pd now (T_put i m) th = Some ([], th\<lparr>ht_channel := put_msg i m (ht_channel th)\<rparr>)"
| "thread_step env pd now T_channel th =
     map_option (\<lambda>(threw, th1). (if threw then [ht_channel_id th1] else [], th1)) (channel_process now th)"
| "thread_step env pd now (T_conn i e) th =
     (case ht_obj_map th i of
        Some (Conn c) \<Rightarrow>
          Some (case conn_step env pd e c of
                  Inl e \<Rightarrow> ([i], th)
                | Inr d \<Rightarrow> ([], th\<lparr>ht_obj_map := (ht_obj_map th)(i \<mapsto> Conn d)\<rparr>))
      | _ \<Rightarrow> Some ([], th))"

fun epoll_round ::
  "url_env \<Rightarrow> CRxProcData \<Rightarrow> u64 \<Rightarrow> thread_event list \<Rightarrow> http_thread \<Rightarrow> (u32 list \<times> http_thread) option" where
  "epoll_round env pd now [] th = Some ([], th)"
| "epoll_round env pd now (e # es) th =
     (case thread_step env pd now e th of
        None \<Rightarrow> None
      | Some (failed, th1) \<Rightarrow>
          map_option (\<lambda>(failed2, th2). (failed @ failed2, th2)) (epoll_round env pd now es th1))"

definition obj_process ::
  "url_env \<Rightarrow> CRxProcData \<Rightarrow> u64 \<Rightarrow> thread_event list \<Rightarrow> http_thread \<Rightarrow> http_thread option" where
  "obj_process env pd now es th =
     (case epoll_round env pd now es th of
        None \<Rightarrow> None
      | Some (exp_list, th1) \<Rightarrow>
          (case check_timer ht_timer (\<lambda>f th. th\<lparr>ht_timer := f (ht_timer th)\<rparr>) container_handle_timeout now
                  (fold container_erase exp_list th1) of
             (exp_vec, th2) \<Rightarrow> Some (fold container_erase exp_vec th2)))"

fun thread_run :: "(url_env \<times> CRxProcData \<times> u64 \<times> thread_event list) list \<Rightarrow> http_thread \<Rightarrow> http_thread option" where
  "thread_run [] th = Some th"
| "thread_run ((env, pd, now, es) # rs) th =
     (case obj_process env pd now es th of None \<Rightarrow> None | Some th1 \<Rightarrow> thread_run rs th1)"

end
