(* ===== verification/Http_Conn_Facts.thy ===== *)
theory Http_Conn_Facts
  imports Http_Conn Url_Handlers_Facts
begin

text \<open>
  Facts about a connection: how a response leaves, that an asynchronous answer is written exactly once, and
  what becomes of a connection after a full socket, a synchronous answer or a body that comes late.
\<close>

section \<open>Sending\<close>

text \<open>A connection whose response is to be sent.\<close>

definition response_due :: "http_conn \<Rightarrow> bool" where
  "response_due c \<longleftrightarrow> hc_status c = SEND_HEAD \<and> hc_send_buf c = None \<and> \<not> hc_async_pending c"

definition response_done :: "http_conn \<Rightarrow> http_conn" where
  "response_done c =
     (http_reset (c\<lparr>hc_send_body := []\<rparr>))
       \<lparr>hc_wire := hc_wire c @ to_head_str (hc_res c) @ hc_send_body c, hc_epollout := False,
        hc_send_num := length (hc_send_body c)\<rparr>"

lemma head_not_empty [simp]: "to_head_str h \<noteq> []"
  by (simp add: to_head_str_def Let_def)

lemma send_buffer_done:
  assumes "hc_answers c = []" "hc_send_buf c = Some b" "hc_send_num c = 0" "b \<noteq> []"
  shows "real_send c = real_send (c\<lparr>hc_wire := hc_wire c @ b, hc_send_num := length b, hc_send_buf := None\<rparr>)"
  using assms by (subst real_send.simps) (simp add: SEND_def sent_some_def)

lemma send_head_starts:
  assumes "response_due c"
  shows "real_send c = real_send (c\<lparr>hc_res := with_reason (hc_res c), hc_status := SEND_BODY,
    hc_send_buf := Some (to_head_str (hc_res c)), hc_send_num := 0\<rparr>)"
  using assms by (subst real_send.simps) (simp add: response_due_def get_send_buf_def get_send_head_def)

lemma send_body_starts:
  assumes "hc_status c = SEND_BODY" "hc_send_buf c = None"
  shows "real_send c = real_send ((http_reset (c\<lparr>hc_send_body := []\<rparr>))
    \<lparr>hc_send_buf := Some (hc_send_body c), hc_send_num := 0\<rparr>)"
  using assms by (subst real_send.simps) (simp add: get_send_buf_def get_send_body_def)

lemma send_nothing:
  assumes "hc_status c \<in> {RECV_HEAD, RECV_BODY}" "hc_send_buf c = None"
  shows "real_send c = Inr (c\<lparr>hc_epollout := False\<rparr>)"
  using assms by (subst real_send.simps) (auto simp: get_send_buf_def)

lemma send_stuck:
  assumes "hc_send_buf c = Some b" "length b \<le> hc_send_num c"
  shows "real_send c = Inr (c\<lparr>hc_epollout := False\<rparr>)"
  using assms by (subst real_send.simps) simp

lemma reset_simps [simp]:
  "hc_status (http_reset c) = RECV_HEAD" "hc_send_buf (http_reset c) = hc_send_buf c"
  "hc_answers (http_reset c) = hc_answers c" "hc_wire (http_reset c) = hc_wire c"
  "hc_send_num (http_reset c) = hc_send_num c" "hc_send_body (http_reset c) = hc_send_body c"
  "hc_async_pending (http_reset c) = hc_async_pending c" "hc_res (http_reset c) = res_head_init"
  "hc_input (http_reset c) = hc_input c" "hc_recv_buf (http_reset c) = hc_recv_buf c"
  "hc_sent (http_reset c) = hc_sent c" "hc_recv_body (http_reset c) = hc_recv_body c"
  by (simp_all add: http_reset_def)

lemma with_reason_irrelevant: "http_reset (c\<lparr>hc_res := r\<rparr>) = http_reset c"
  by (simp add: http_reset_def)

text \<open>A response with a body leaves in one piece when the socket takes everything; without a body it gets stuck.\<close>

lemma response_sent:
  assumes "response_due c" "hc_answers c = []" "hc_send_body c \<noteq> []"
  shows "real_send c = Inr ((response_done c)\<lparr>hc_send_buf := None\<rparr>)"
proof -
  let ?h = "to_head_str (hc_res c)"
  let ?c1 = "c\<lparr>hc_res := with_reason (hc_res c), hc_status := SEND_BODY, hc_send_buf := Some ?h, hc_send_num := 0\<rparr>"
  let ?c2 = "?c1\<lparr>hc_wire := hc_wire c @ ?h, hc_send_num := length ?h, hc_send_buf := None\<rparr>"
  let ?c3 = "(http_reset (?c2\<lparr>hc_send_body := []\<rparr>))\<lparr>hc_send_buf := Some (hc_send_body c), hc_send_num := 0\<rparr>"
  have "real_send c = real_send ?c1" by (rule send_head_starts [OF assms(1)])
  also have "\<dots> = real_send ?c2" using assms(2) by (subst send_buffer_done [where b = ?h]) simp_all
  also have "\<dots> = real_send ?c3" by (subst send_body_starts) simp_all
  also have "\<dots> = real_send (?c3\<lparr>hc_wire := (hc_wire c @ ?h) @ hc_send_body c, hc_send_num := length (hc_send_body c),
      hc_send_buf := None\<rparr>)"
    using assms(2,3) by (subst send_buffer_done [where b = "hc_send_body c"]) simp_all
  also have "\<dots> = Inr (?c3\<lparr>hc_wire := (hc_wire c @ ?h) @ hc_send_body c, hc_send_num := length (hc_send_body c),
      hc_send_buf := None, hc_epollout := False\<rparr>)"
    by (subst send_nothing) simp_all
  also have "?c3\<lparr>hc_wire := (hc_wire c @ ?h) @ hc_send_body c, hc_send_num := length (hc_send_body c),
      hc_send_buf := None, hc_epollout := False\<rparr> = (response_done c)\<lparr>hc_send_buf := None\<rparr>"
    by (simp add: response_done_def http_reset_def)
  finally show ?thesis .
qed

lemma response_without_body:
  assumes "response_due c" "hc_answers c = []" "hc_send_body c = []"
  shows "real_send c = Inr ((response_done c)\<lparr>hc_send_buf := Some []\<rparr>)"
proof -
  let ?h = "to_head_str (hc_res c)"
  let ?c1 = "c\<lparr>hc_res := with_reason (hc_res c), hc_status := SEND_BODY, hc_send_buf := Some ?h, hc_send_num := 0\<rparr>"
  let ?c2 = "?c1\<lparr>hc_wire := hc_wire c @ ?h, hc_send_num := length ?h, hc_send_buf := None\<rparr>"
  let ?c3 = "(http_reset (?c2\<lparr>hc_send_body := []\<rparr>))\<lparr>hc_send_buf := Some (hc_send_body c), hc_send_num := 0\<rparr>"
  have "real_send c = real_send ?c1" by (rule send_head_starts [OF assms(1)])
  also have "\<dots> = real_send ?c2" using assms(2) by (subst send_buffer_done [where b = ?h]) simp_all
  also have "\<dots> = real_send ?c3" by (subst send_body_starts) simp_all
  also have "\<dots> = Inr (?c3\<lparr>hc_epollout := False\<rparr>)"
    using assms(3) by (subst send_stuck [where b = "[]"]) simp_all
  also have "?c3\<lparr>hc_epollout := False\<rparr> = (response_done c)\<lparr>hc_send_buf := Some []\<rparr>"
    using assms(3) by (simp add: response_done_def http_reset_def)
  finally show ?thesis .
qed

section \<open>Bytes leave in order\<close>

text \<open>The bytes of a response that have not left: the rest of the buffer, then what is still to be taken.\<close>

definition unsent :: "http_conn \<Rightarrow> string" where
  "unsent c =
     (case hc_send_buf c of Some b \<Rightarrow> drop (hc_send_num c) b | None \<Rightarrow> []) @
     (case hc_status c of
        SEND_HEAD \<Rightarrow> if hc_async_pending c then [] else to_head_str (hc_res c) @ hc_send_body c
      | SEND_BODY \<Rightarrow> hc_send_body c
      | _ \<Rightarrow> [])"

lemma unsent_simps [simp]:
  "unsent (c\<lparr>hc_epollout := x\<rparr>) = unsent c" "unsent (c\<lparr>hc_answers := as\<rparr>) = unsent c"
  by (cases "hc_status c"; cases "hc_send_buf c"; simp add: unsent_def)+

lemma get_send_buf_unsent:
  assumes "get_send_buf c = (r, c1)" "hc_send_buf c = None"
  shows "hc_wire c1 = hc_wire c \<and> hc_input c1 = hc_input c \<and> hc_recv_buf c1 = hc_recv_buf c \<and>
    (case r of None \<Rightarrow> c1 = c | Some b \<Rightarrow> unsent (c1\<lparr>hc_send_buf := Some b, hc_send_num := 0\<rparr>) = unsent c)"
  using assms by (auto simp: get_send_buf_def get_send_head_def get_send_body_def unsent_def http_reset_def
      split: HTTP_STATUS.splits if_splits)

lemma SEND_unsent:
  assumes "SEND n c = Inr (k, c1)"
  shows "\<exists>as. c1 = c\<lparr>hc_answers := as\<rparr>"
proof -
  have "\<exists>as. c = c\<lparr>hc_answers := as\<rparr>" by (rule exI [of _ "hc_answers c"]) simp
  then show ?thesis using assms by (auto simp: SEND_def split: list.splits send_answer.splits)
qed

lemma sent_some_unsent:
  assumes "hc_send_buf c = Some b"
  shows "hc_wire (sent_some k b c) @ unsent (sent_some k b c) = hc_wire c @ unsent c"
proof -
  have "take k (drop n b) @ drop (n + k) b = drop n b" for n
    by (metis append_take_drop_id drop_drop add.commute)
  then show ?thesis using assms by (cases "hc_status c") (auto simp: sent_some_def unsent_def Let_def)
qed

lemma sent_some_simps [simp]:
  "hc_input (sent_some k b c) = hc_input c" "hc_recv_buf (sent_some k b c) = hc_recv_buf c"
  by (simp_all add: sent_some_def Let_def)

lemma real_send_order:
  assumes "real_send c = Inr d"
  shows "hc_wire d @ unsent d = hc_wire c @ unsent c \<and> \<not> hc_epollout d \<and> hc_input d = hc_input c \<and> hc_recv_buf d = hc_recv_buf c"
  using assms
proof (induction c rule: real_send.induct)
  case (1 c)
  show ?case
  proof (cases "hc_send_buf c")
    case None
    obtain r c1 where g: "get_send_buf c = (r, c1)" by fastforce
    note u = get_send_buf_unsent [OF g None]
    show ?thesis
    proof (cases r)
      case None
      then have "d = c\<lparr>hc_epollout := False\<rparr>"
        using "1.prems" \<open>hc_send_buf c = None\<close> g u by (subst (asm) real_send.simps) simp
      then show ?thesis by simp
    next
      case (Some b)
      then have "real_send (c1\<lparr>hc_send_buf := Some b, hc_send_num := 0\<rparr>) = Inr d"
        using "1.prems" \<open>hc_send_buf c = None\<close> g by (subst (asm) real_send.simps) simp
      from "1.IH"(1) [OF \<open>hc_send_buf c = None\<close> g [symmetric] Some this] show ?thesis using u Some by simp
    qed
  next
    case (Some b)
    show ?thesis
    proof (cases "length b - hc_send_num c = 0")
      case True
      then have "d = c\<lparr>hc_epollout := False\<rparr>" using "1.prems" Some by (subst (asm) real_send.simps) simp
      then show ?thesis by simp
    next
      case False
      then obtain k c1 where s: "SEND (length b - hc_send_num c) c = Inr (k, c1)"
        using "1.prems" Some by (subst (asm) real_send.simps) (auto split: sum.splits)
      from SEND_unsent [OF s] obtain as where c1: "c1 = c\<lparr>hc_answers := as\<rparr>" by blast
      have same: "unsent (c1\<lparr>hc_epollout := x\<rparr>) = unsent c" "unsent c1 = unsent c" for x
        by (simp_all add: c1)
      show ?thesis
      proof (cases "k = 0")
        case True
        then have "d = c1\<lparr>hc_epollout := False\<rparr>"
          using "1.prems" Some False s by (subst (asm) real_send.simps) simp
        then show ?thesis using same c1 by simp
      next
        case k: False
        then have "real_send (sent_some k b c1) = Inr d"
          using "1.prems" Some False s by (subst (asm) real_send.simps) simp
        from "1.IH"(2) [OF Some refl False s refl k this] sent_some_unsent [of c1 b k] Some same c1
        show ?thesis by simp
      qed
    qed
  qed
qed

text \<open>A client that waits sends nothing: the events that can still come.\<close>

fun waiting_event :: "conn_event \<Rightarrow> bool" where
  "waiting_event Ev_in = True"
| "waiting_event Ev_close = True"
| "waiting_event Ev_error = True"
| "waiting_event (Ev_timer t) = True"
| "waiting_event _ = False"

lemma waiting_step:
  assumes "waiting_event e" "conn_step env pd e c = Inr d" "hc_input c = []" "hc_recv_buf c = []"
  shows "hc_wire d = hc_wire c \<and> hc_input d = [] \<and> hc_recv_buf d = []"
  using assms by (cases e)
    (auto simp: real_recv_def RECV_def MAX_RECV_SIZE_def conn_handle_timeout_def split: if_splits)

lemma waiting_run:
  assumes "\<forall>(env, pd, e) \<in> set es. waiting_event e" "conn_run es c = Inr d" "hc_input c = []" "hc_recv_buf c = []"
  shows "hc_wire d = hc_wire c"
  using assms
proof (induction es arbitrary: c)
  case (Cons x es)
  obtain env pd e where x: "x = (env, pd, e)" by (cases x)
  from Cons.prems(2) obtain c1 where "conn_step env pd e c = Inr c1" "conn_run es c1 = Inr d"
    by (auto simp: x elim: try_then_InrE)
  with Cons waiting_step [of e env pd c c1] show ?case by (auto simp: x)
qed simp

text \<open>
  C16. The bytes of a reply leave in order, and what the socket did not take is stuck.  Whatever the results
  of \<open>send\<close>, after the reply of the manager the socket has accepted a first part of exactly head and body,
  and \<open>EPOLLOUT\<close> is off: while the client waits for the rest, no event writes another byte.
\<close>

theorem reply_leaves_in_order_or_stalls:
  assumes "hc_send_buf c = None" "hc_input c = []" "hc_recv_buf c = []"
    and "conn_step env pd (Ev_reply reply) c = Inr c1"
    and "\<forall>(env, pd, e) \<in> set es. waiting_event e" "conn_run es c1 = Inr c2"
  shows "\<exists>rest. hc_wire c1 @ rest = hc_wire c @
      to_head_str (fill_response_headers (hr_status reply) (hr_reason reply) (hr_headers reply) (length (hr_body reply)) (hc_res c)) @
      hr_body reply \<and> \<not> hc_epollout c1 \<and> hc_wire c2 = hc_wire c1"
proof -
  let ?res = "fill_response_headers (hr_status reply) (hr_reason reply) (hr_headers reply) (length (hr_body reply)) (hc_res c)"
  let ?d = "c\<lparr>hc_send_body := hr_body reply, hc_res := ?res, hc_async_pending := False, hc_status := SEND_HEAD, hc_epollout := True\<rparr>"
  have "real_send ?d = Inr c1"
    using assms(4) by (simp add: data_handle_reply_def send_async_response_def notify_send_ready_def change_http_status_def
        notice_send_def)
  note order = real_send_order [OF this]
  have "unsent ?d = to_head_str ?res @ hr_body reply" using assms(1) by (simp add: unsent_def)
  then show ?thesis
    using order waiting_run [OF assms(5,6)] assms(2,3) by auto
qed

lemma head_cut_off:
  assumes "response_due c" "hc_answers c = [Accept k, Again]" "0 < k" "k < length (to_head_str (hc_res c))"
  shows "\<exists>d. real_send c = Inr d \<and> hc_wire d = hc_wire c @ take k (to_head_str (hc_res c))"
proof -
  let ?h = "to_head_str (hc_res c)"
  let ?c1 = "c\<lparr>hc_res := with_reason (hc_res c), hc_status := SEND_BODY, hc_send_buf := Some ?h, hc_send_num := 0\<rparr>"
  let ?c2 = "?c1\<lparr>hc_answers := [Again], hc_wire := hc_wire c @ take k ?h, hc_send_num := k\<rparr>"
  have "real_send c = real_send ?c1" by (rule send_head_starts [OF assms(1)])
  also have "\<dots> = real_send ?c2"
    using assms(2-4) by (subst real_send.simps) (simp add: SEND_def sent_some_def Let_def)
  also have "\<dots> = Inr (?c2\<lparr>hc_answers := [], hc_epollout := False\<rparr>)"
    using assms(4) by (subst real_send.simps) (simp add: SEND_def)
  finally show ?thesis by simp
qed

definition sample_reply :: SRxHttpReplyMsg where
  "sample_reply =
     \<lparr>hr_status = 200, hr_reason = ''OK'', hr_headers = [], hr_body = ''{}'', hr_conn_id = 1002,
      hr_debug_request_ts_ms = 0, hr_debug_reply_ts_ms = 0\<rparr>"

lemma reply_leaves_in_order_or_stalls_witness:
  "\<exists>c1 rest. conn_step sample_url_env CRxProcData_new (Ev_reply sample_reply)
      ((http_conn_new \<lparr>obj_id = 1002, obj_thread_index = 1\<rparr>)\<lparr>hc_answers := [Accept 5, Again]\<rparr>) = Inr c1 \<and>
     hc_wire c1 @ rest = to_head_str (fill_response_headers 200 ''OK'' [] 2 http_res_head_para_new) @ ''{}'' \<and>
     length (hc_wire c1) = 5"
proof -
  let ?c = "(http_conn_new \<lparr>obj_id = 1002, obj_thread_index = 1\<rparr>)\<lparr>hc_answers := [Accept 5, Again]\<rparr>"
  let ?h = "to_head_str (fill_response_headers 200 ''OK'' [] 2 http_res_head_para_new)"
  have long: "length ?h > 5"
    by (simp add: to_head_str_def fill_response_headers_def http_res_head_para_new_def with_reason_def Let_def)
  let ?d = "?c\<lparr>hc_send_body := ''{}'', hc_res := fill_response_headers 200 ''OK'' [] 2 http_res_head_para_new,
      hc_async_pending := False, hc_status := SEND_HEAD, hc_epollout := True\<rparr>"
  have step: "conn_step sample_url_env CRxProcData_new (Ev_reply sample_reply) ?c = real_send ?d"
    by (simp add: data_handle_reply_def send_async_response_def notify_send_ready_def change_http_status_def
        notice_send_def sample_reply_def http_conn_new_def eval_nat_numeral)
  have "\<exists>c1. real_send ?d = Inr c1 \<and> hc_wire c1 = hc_wire ?d @ take 5 (to_head_str (hc_res ?d))"
    by (rule head_cut_off) (use long in \<open>simp_all add: response_due_def http_conn_new_def\<close>)
  then obtain c1 where "real_send ?d = Inr c1" "hc_wire c1 = take 5 ?h" by (auto simp: http_conn_new_def)
  then have c1: "conn_step sample_url_env CRxProcData_new (Ev_reply sample_reply) ?c = Inr c1" "length (hc_wire c1) = 5"
    using step long by simp_all
  have "\<exists>rest. hc_wire c1 @ rest = [] @ ?h @ ''{}'' \<and> \<not> hc_epollout c1 \<and> hc_wire c1 = hc_wire c1"
    using reply_leaves_in_order_or_stalls [OF _ _ _ c1(1), of "[]" c1]
    by (simp add: http_conn_new_def sample_reply_def eval_nat_numeral)
  then show ?thesis using c1 by auto
qed

section \<open>A capture request in one segment\<close>

definition awaiting :: "http_conn \<Rightarrow> bool" where
  "awaiting c \<longleftrightarrow> hc_status c = RECV_HEAD \<and> hc_recv_buf c = [] \<and> hc_input c = [] \<and> hc_send_buf c = None \<and> hc_answers c = []"

text \<open>The request of a segment: the head is complete, and no multipart body is announced.\<close>

definition segment_request :: "string \<Rightarrow> string \<Rightarrow> http_req_head_para \<Rightarrow> http_conn \<Rightarrow> bool" where
  "segment_request head body req c \<longleftrightarrow>
     find_str CRLF2 (c_str (head @ body)) = Some (length head - 4) \<and> length head \<ge> 4 \<and>
     length (head @ body) \<le> MAX_RECV_SIZE \<and>
     (\<exists>b. parse_header head (hc_req c, hc_boundary c) = Inr (req, b) \<and> bp_boundary_str b = [])"

definition bodyless :: "http_req_head_para \<Rightarrow> bool" where
  "bodyless req \<longleftrightarrow> same_case (rh_method req) ''GET'' \<or> same_case (rh_method req) ''HEAD''"

definition with_request :: "string \<Rightarrow> string \<Rightarrow> http_req_head_para \<Rightarrow> boundary_para \<Rightarrow> http_conn \<Rightarrow> http_conn" where
  "with_request head body req b c =
     c\<lparr>hc_recv_buf := head @ body, hc_status := RECV_BODY, hc_req := req, hc_boundary := b,
       hc_recv_body := hc_recv_body c @ (if bodyless req then [] else body),
       hc_recv_body_length := hc_recv_body_length c + (if bodyless req then 0 else of_nat (length body))\<rparr>"

lemma segment_received:
  assumes "awaiting c" "segment_request head body req c"
  shows "\<exists>b. bp_boundary_str b = [] \<and>
    conn_run [(env, pd, Ev_arrive (head @ body)), (env, pd, Ev_in)] c =
      try_then (recv_finish env pd (with_request head body req b c)) (\<lambda>d.
        Inr (d\<lparr>hc_recv_buf := drop (length (head @ body)) (hc_recv_buf d)\<rparr>))"
proof -
  obtain b where b: "parse_header head (hc_req c, hc_boundary c) = Inr (req, b)" "bp_boundary_str b = []"
    using assms(2) by (auto simp: segment_request_def)
  let ?c1 = "c\<lparr>hc_recv_buf := head @ body\<rparr>"
  have seg: "find_str CRLF2 (c_str (head @ body)) = Some (length head - 4)" "length head - 4 + 4 = length head"
    "head @ body \<noteq> []" "length (head @ body) \<le> MAX_RECV_SIZE"
    using assms(2) by (auto simp: segment_request_def)
  have small: "min MAX_RECV_SIZE RECV_CHUNK = MAX_RECV_SIZE" "MAX_RECV_SIZE > 0" by (simp_all add: MAX_RECV_SIZE_def RECV_CHUNK_def)
  have recv: "RECV MAX_RECV_SIZE (c\<lparr>hc_input := head @ body\<rparr>) = Inr (?c1\<lparr>hc_input := []\<rparr>)"
    using assms(1) seg(3,4) by (simp add: RECV_def awaiting_def)
  have same: "?c1\<lparr>hc_input := []\<rparr> = ?c1" using assms(1) by (simp add: awaiting_def)
  have body: "process_recv_body body (?c1\<lparr>hc_status := RECV_BODY, hc_req := req, hc_boundary := b\<rparr>) =
      Inr (1, with_request head body req b c)"
    using b(2) by (simp add: process_recv_body_def data_recv_body_def with_request_def bodyless_def)
  have "process_recv_buf env pd (head @ body) ?c1 =
      try_then (recv_finish env pd (with_request head body req b c)) (\<lambda>d. Inr (length (head @ body), d))"
    using assms(1) seg b body unfolding process_recv_buf_def by (simp add: awaiting_def finish_if_def)
  then have "real_recv env pd False (c\<lparr>hc_input := head @ body\<rparr>) =
      try_then (recv_finish env pd (with_request head body req b c)) (\<lambda>d.
        Inr (d\<lparr>hc_recv_buf := drop (length (head @ body)) (hc_recv_buf d)\<rparr>))"
    using assms(1) small recv same seg(3)
    by (cases "recv_finish env pd (with_request head body req b c)") (simp_all add: real_recv_def awaiting_def Let_def)
  then show ?thesis using b(2) assms(1)
    by (intro exI [of _ b]) (cases "recv_finish env pd (with_request head body req b c)"; simp add: awaiting_def)
qed

lemma post_has_body: "\<not> same_case ''POST'' ''GET''" "\<not> same_case ''POST'' ''HEAD''"
  by (simp_all add: same_case_def c_str_def NUL_def tolower_def isupper_def char_of_def bit_0)

text \<open>
  A start request is handed to the capture manager, with the connection as the address of the answer, unless
  it is for a process by a name that no process has.
\<close>

definition start_accepted :: "url_env \<Rightarrow> CRxProcData \<Rightarrow> http_req_head_para \<Rightarrow> string \<Rightarrow> ObjId \<Rightarrow> json \<Rightarrow> u32 \<Rightarrow> bool" where
  "start_accepted env pd req body conn_id doc k \<longleftrightarrow>
     rh_method req = ''POST'' \<and> starts_with ''/api/capture/start'' (rh_url_path req) \<and>
     get_url_handler pd (rh_url_path req) = Some H_capture_api \<and> body_document env body = Some doc \<and>
     \<not> (rq_capture_mode (start_request pd doc) = MODE_PROCESS \<and> rq_proc_name (start_request pd doc) \<noteq> [] \<and>
        FindProcessesByName (ue_proc env) (rq_proc_name (start_request pd doc)) = []) \<and>
     obj_thread_index conn_id \<noteq> 0 \<and>
     pd_capture_manager pd = Some k"

definition start_sent :: "url_env \<Rightarrow> CRxProcData \<Rightarrow> ObjId \<Rightarrow> json \<Rightarrow> u32 \<Rightarrow> ObjId \<times> mgr_in" where
  "start_sent env pd conn_id doc k =
     (to_thread k, I_start ((start_request pd doc)\<lparr>rq_reply_target := conn_id, rq_enqueue_ts_ms := ue_now_ms env\<rparr>))"

lemma start_finished:
  assumes "start_accepted env pd (hc_req c) (hc_recv_body c) (hc_id c) doc k"
  shows "recv_finish env pd c = Inr (c\<lparr>hc_sent := hc_sent c @ [start_sent env pd (hc_id c) doc k], hc_async_pending := True\<rparr>)"
proof -
  have "\<not> (rq_capture_mode (start_request pd doc) = MODE_PROCESS \<and> rq_proc_name (start_request pd doc) \<noteq> [] \<and>
      FindProcessesByName (ue_proc env) (rq_proc_name (start_request pd doc)) = [])"
    using assms by (simp add: start_accepted_def)
  then have "handle_start env pd (hc_recv_body c) i res =
      send_to_capture_manager env pd (I_start ((start_request pd doc)\<lparr>rq_reply_target := i\<rparr>)) i res" for i res
    using assms by (auto simp: handle_start_def start_accepted_def Let_def)
  then show ?thesis using assms
    by (simp add: recv_finish_def msg_recv_finish_def start_accepted_def url_perform_def capture_api_perform_def Let_def
        send_to_capture_manager_def start_sent_def)
qed

text \<open>
  C12. An asynchronous request is answered exactly once.  A start request whose head and body come in one
  segment, and whose document, the body behind what the connection kept of earlier bodies, is accepted (a
  request for a process by name needs one of that name), sends one message to the capture manager, with this
  connection as the address of the answer, and nothing to the client; the reply of the manager then, when the
  socket takes all bytes, writes one head and the body of the reply, and the connection waits for the next
  request.  The received body is not cleared: the next request is read with it in front.
\<close>

theorem async_request_answered_once:
  assumes "awaiting c" "segment_request head body req c"
    and "start_accepted env pd req (hc_recv_body c @ body) (hc_id c) doc k" "hr_body reply \<noteq> []"
  shows "\<exists>c1 c2. conn_run [(env, pd, Ev_arrive (head @ body)), (env, pd, Ev_in)] c = Inr c1 \<and> hc_wire c1 = hc_wire c \<and>
    hc_sent c1 = hc_sent c @ [start_sent env pd (hc_id c) doc k] \<and>
    conn_step env pd (Ev_reply reply) c1 = Inr c2 \<and> hc_sent c2 = hc_sent c1 \<and>
    hc_wire c2 = hc_wire c @ to_head_str (fill_response_headers (hr_status reply) (hr_reason reply) (hr_headers reply)
      (length (hr_body reply)) (hc_res c)) @ hr_body reply \<and> awaiting c2 \<and> hc_recv_body c2 = hc_recv_body c @ body"
proof -
  have "rh_method req = ''POST''" using assms(3) by (simp add: start_accepted_def)
  then have post: "\<not> bodyless req" using post_has_body by (simp add: bodyless_def)
  from segment_received [OF assms(1,2)] obtain b where run:
    "conn_run [(env, pd, Ev_arrive (head @ body)), (env, pd, Ev_in)] c =
      try_then (recv_finish env pd (with_request head body req b c)) (\<lambda>d.
        Inr (d\<lparr>hc_recv_buf := drop (length (head @ body)) (hc_recv_buf d)\<rparr>))" by blast
  let ?w = "with_request head body req b c"
  let ?c1 = "?w\<lparr>hc_sent := hc_sent c @ [start_sent env pd (hc_id c) doc k], hc_async_pending := True, hc_recv_buf := []\<rparr>"
  have fin: "recv_finish env pd ?w =
      Inr (?w\<lparr>hc_sent := hc_sent c @ [start_sent env pd (hc_id c) doc k], hc_async_pending := True\<rparr>)"
    using start_finished [of env pd ?w doc k] assms(3) post by (simp add: with_request_def)
  have c1: "conn_run [(env, pd, Ev_arrive (head @ body)), (env, pd, Ev_in)] c = Inr ?c1"
    unfolding run fin by (simp add: with_request_def)
  let ?res = "fill_response_headers (hr_status reply) (hr_reason reply) (hr_headers reply) (length (hr_body reply)) (hc_res c)"
  let ?d = "?c1\<lparr>hc_send_body := hr_body reply, hc_res := ?res, hc_async_pending := False, hc_status := SEND_HEAD,
      hc_epollout := True\<rparr>"
  have "conn_step env pd (Ev_reply reply) ?c1 = real_send ?d"
    by (simp add: data_handle_reply_def send_async_response_def notify_send_ready_def change_http_status_def notice_send_def
        with_request_def)
  also have "\<dots> = Inr ((response_done ?d)\<lparr>hc_send_buf := None\<rparr>)"
    using assms(1,4) by (intro response_sent) (simp_all add: response_due_def awaiting_def with_request_def)
  finally have c2: "conn_step env pd (Ev_reply reply) ?c1 = Inr ((response_done ?d)\<lparr>hc_send_buf := None\<rparr>)" .
  show ?thesis
    using c1 c2 assms(1)
    by (intro exI [of _ ?c1] exI [of _ "(response_done ?d)\<lparr>hc_send_buf := None\<rparr>"])
      (simp add: with_request_def awaiting_def response_done_def http_reset_def post)
qed

text \<open>The sample: a POST of an empty object.\<close>

definition sample_head :: string where
  "sample_head = ''POST /api/capture/start HTTP/1.1'' @ CRLF2"

definition sample_req :: http_req_head_para where
  "sample_req = http_req_head_para_new\<lparr>rh_method := ''POST'', rh_url_path := ''/api/capture/start''\<rparr>"

definition sample_pd :: CRxProcData where
  "sample_pd = CRxProcData_new\<lparr>pd_capture_manager := Some 7, pd_url_handlers := [''/api/capture/start'' \<mapsto> H_capture_api]\<rparr>"

definition sample_conn :: http_conn where
  "sample_conn = http_conn_new \<lparr>obj_id = 1002, obj_thread_index = 1\<rparr>"

lemma c_str_Nil: "c_str [] = []"
  by (simp add: c_str_def)

lemma sample_parsed: "parse_header sample_head (http_req_head_para_new, boundary_para_init) = Inr (sample_req, boundary_para_init)"
proof -
  have lines: "split_all CR [LF] (c_str sample_head) = [''POST /api/capture/start HTTP/1.1'', []]"
    by (simp add: split_all_def sample_head_def CRLF2_def CRLF_def CR_def LF_def c_str_def NUL_def split_pieces.simps)
  have words: "split_all (CHR '' '') [] (c_str ''POST /api/capture/start HTTP/1.1'') = [''POST'', ''/api/capture/start'', ''HTTP/1.1'']"
    by (simp add: split_all_def c_str_def NUL_def split_pieces.simps)
  have "parse_lines (split_all CR [LF] (c_str sample_head)) http_req_head_para_new = Inr sample_req"
    unfolding lines
    by (simp add: parse_lines_def parse_first_line_def words sample_req_def add_header_line_def split_one_def
        http_req_head_para_new_def c_str_Nil)
  then show ?thesis
    by (simp add: parse_header_def add_cookies_def get_header_def boundary_of_def sample_req_def http_req_head_para_new_def)
qed

lemma sample_accepted:
  "segment_request sample_head [] sample_req sample_conn" "segment_request sample_head ''{}'' sample_req sample_conn"
  "awaiting sample_conn" "hc_recv_body sample_conn = []"
  "start_accepted sample_url_env sample_pd sample_req ''{}'' (hc_id sample_conn) (J_object []) 7"
  "start_accepted sample_url_env sample_pd sample_req [] (hc_id sample_conn) J_null 7"
proof -
  have "parse_header sample_head (hc_req sample_conn, hc_boundary sample_conn) = Inr (sample_req, boundary_para_init)"
    using sample_parsed by (simp add: sample_conn_def http_conn_new_def)
  then show "segment_request sample_head [] sample_req sample_conn" "segment_request sample_head ''{}'' sample_req sample_conn"
    by (simp_all add: segment_request_def sample_head_def CRLF2_def CRLF_def CR_def LF_def c_str_def NUL_def MAX_RECV_SIZE_def
        boundary_para_init_def)
  show "awaiting sample_conn" "hc_recv_body sample_conn = []" by (simp_all add: awaiting_def sample_conn_def http_conn_new_def)
  have none: "json_member (J_object []) n = None" for n by simp
  have req: "start_request sample_pd (J_object []) = SRxStartCaptureMsg_new"
    by (simp add: start_request_def request_limits_def request_filters_def request_target_def request_mode_def take_string_def
        take_int_def take_int64_def is_string_member_def none)
  have mode: "rq_capture_mode (start_request sample_pd (J_object [])) \<noteq> MODE_PROCESS"
    "rq_capture_mode (start_request sample_pd J_null) \<noteq> MODE_PROCESS"
    by (simp_all only: req) (simp_all add: start_request_def SRxStartCaptureMsg_new_def)
  have pd: "get_url_handler sample_pd ''/api/capture/start'' = Some H_capture_api" "pd_capture_manager sample_pd = Some 7"
    by (simp_all add: sample_pd_def get_url_handler_def)
  show "start_accepted sample_url_env sample_pd sample_req ''{}'' (hc_id sample_conn) (J_object []) 7"
    "start_accepted sample_url_env sample_pd sample_req [] (hc_id sample_conn) J_null 7"
    by (simp_all add: start_accepted_def sample_req_def mode pd body_document_def sample_url_env_def c_str_def NUL_def
        sample_conn_def http_conn_new_def)
qed

lemma async_request_answered_once_witness:
  "\<exists>c2. conn_run [(sample_url_env, sample_pd, Ev_arrive (sample_head @ ''{}'')), (sample_url_env, sample_pd, Ev_in),
     (sample_url_env, sample_pd, Ev_reply sample_reply)] sample_conn = Inr c2 \<and> awaiting c2 \<and> length (hc_sent c2) = 1 \<and>
     hc_recv_body c2 = ''{}''"
proof -
  have "start_accepted sample_url_env sample_pd sample_req (hc_recv_body sample_conn @ ''{}'') (hc_id sample_conn) (J_object []) 7"
    "hr_body sample_reply \<noteq> []" using sample_accepted(4,5) by (simp_all add: sample_reply_def)
  from async_request_answered_once [OF sample_accepted(3,2) this]
  obtain c1 c2 where
    "conn_run [(sample_url_env, sample_pd, Ev_arrive (sample_head @ ''{}'')), (sample_url_env, sample_pd, Ev_in)] sample_conn = Inr c1"
    "hc_sent c1 = hc_sent sample_conn @ [start_sent sample_url_env sample_pd (hc_id sample_conn) (J_object []) 7]"
    "conn_step sample_url_env sample_pd (Ev_reply sample_reply) c1 = Inr c2" "hc_sent c2 = hc_sent c1" "awaiting c2"
    "hc_recv_body c2 = hc_recv_body sample_conn @ ''{}''" by blast
  then show ?thesis
    by (intro exI [of _ c2]) (auto simp: sample_conn_def http_conn_new_def elim!: try_then_InrE)
qed

section \<open>A body in a segment of its own\<close>

lemma conn_run_append: "conn_run (xs @ ys) c = try_then (conn_run xs c) (conn_run ys)"
proof (induction xs arbitrary: c)
  case (Cons x xs)
  obtain env pd e where "x = (env, pd, e)" by (cases x)
  then show ?case using Cons by (cases "conn_step env pd e c") simp_all
qed simp

text \<open>
  C38. A body that comes after its head starts two captures.  When the head of a start request comes in one
  segment and its body in the next, a request with all defaults is sent to the capture manager as soon as the
  head is there, and the real one when the body has come: two captures for one request.
\<close>

theorem late_body_starts_two_captures:
  assumes "awaiting c" "hc_recv_body c = []" "segment_request head [] req c" "body \<noteq> []" "length body \<le> 20480"
    and "start_accepted env pd req [] (hc_id c) J_null k" "start_accepted env pd req body (hc_id c) doc k"
  shows "\<exists>c2. conn_run [(env, pd, Ev_arrive head), (env, pd, Ev_in), (env, pd, Ev_arrive body), (env, pd, Ev_in)] c = Inr c2 \<and>
    hc_wire c2 = hc_wire c \<and>
    hc_sent c2 = hc_sent c @ [start_sent env pd (hc_id c) J_null k, start_sent env pd (hc_id c) doc k]"
proof -
  have "rh_method req = ''POST''" using assms(6) by (simp add: start_accepted_def)
  then have post: "\<not> bodyless req" using post_has_body by (simp add: bodyless_def)
  from segment_received [OF assms(1,3)] obtain b where b: "bp_boundary_str b = []" and run:
    "conn_run [(env, pd, Ev_arrive (head @ [])), (env, pd, Ev_in)] c =
      try_then (recv_finish env pd (with_request head [] req b c)) (\<lambda>d.
        Inr (d\<lparr>hc_recv_buf := drop (length (head @ [])) (hc_recv_buf d)\<rparr>))" by blast
  let ?m1 = "start_sent env pd (hc_id c) J_null k" and ?m2 = "start_sent env pd (hc_id c) doc k"
  let ?w = "with_request head [] req b c"
  let ?c1 = "?w\<lparr>hc_sent := hc_sent c @ [?m1], hc_async_pending := True, hc_recv_buf := []\<rparr>"
  have "recv_finish env pd ?w = Inr (?w\<lparr>hc_sent := hc_sent c @ [?m1], hc_async_pending := True\<rparr>)"
    using start_finished [of env pd ?w J_null k] assms(2,6) by (simp add: with_request_def)
  then have first: "conn_run [(env, pd, Ev_arrive head), (env, pd, Ev_in)] c = Inr ?c1"
    using run by (simp add: with_request_def)
  let ?c2 = "?c1\<lparr>hc_recv_buf := body\<rparr>"
  let ?c3 = "?c2\<lparr>hc_recv_body := body, hc_recv_body_length := hc_recv_body_length ?c1 + of_nat (length body)\<rparr>"
  have small: "min MAX_RECV_SIZE RECV_CHUNK = MAX_RECV_SIZE" "0 < MAX_RECV_SIZE" "length body \<le> MAX_RECV_SIZE"
    using assms(5) by (simp_all add: MAX_RECV_SIZE_def RECV_CHUNK_def)
  have recv: "RECV MAX_RECV_SIZE (?c1\<lparr>hc_input := body\<rparr>) = Inr ?c2"
    using assms(1,4) small(3) by (simp add: RECV_def awaiting_def with_request_def)
  have body: "process_recv_body body ?c2 = Inr (1, ?c3)"
    using post b assms(2) by (simp add: process_recv_body_def data_recv_body_def with_request_def bodyless_def)
  have "recv_finish env pd ?c3 = Inr (?c3\<lparr>hc_sent := hc_sent c @ [?m1, ?m2], hc_async_pending := True\<rparr>)"
    using start_finished [of env pd ?c3 doc k] assms(7) by (simp add: with_request_def)
  then have "process_recv_buf env pd body ?c2 =
      Inr (length body, ?c3\<lparr>hc_sent := hc_sent c @ [?m1, ?m2], hc_async_pending := True\<rparr>)"
    using body unfolding process_recv_buf_def by (simp add: with_request_def finish_if_def)
  then have "real_recv env pd False (?c1\<lparr>hc_input := body\<rparr>) =
      Inr (?c3\<lparr>hc_sent := hc_sent c @ [?m1, ?m2], hc_async_pending := True, hc_recv_buf := []\<rparr>)"
    using small recv assms(4) by (simp add: real_recv_def with_request_def Let_def)
  moreover have "?c1\<lparr>hc_input := hc_input ?c1 @ body\<rparr> = ?c1\<lparr>hc_input := body\<rparr>"
    using assms(1) by (simp add: awaiting_def with_request_def)
  ultimately have second: "conn_run [(env, pd, Ev_arrive body), (env, pd, Ev_in)] ?c1 =
      Inr (?c3\<lparr>hc_sent := hc_sent c @ [?m1, ?m2], hc_async_pending := True, hc_recv_buf := []\<rparr>)"
    by simp
  from conn_run_append [of "[(env, pd, Ev_arrive head), (env, pd, Ev_in)]" "[(env, pd, Ev_arrive body), (env, pd, Ev_in)]" c]
  show ?thesis unfolding first using second by (simp add: with_request_def)
qed

lemma late_body_starts_two_captures_witness:
  "\<exists>c2. conn_run [(sample_url_env, sample_pd, Ev_arrive sample_head), (sample_url_env, sample_pd, Ev_in),
      (sample_url_env, sample_pd, Ev_arrive ''{}''), (sample_url_env, sample_pd, Ev_in)] sample_conn = Inr c2 \<and>
    length (hc_sent c2) = 2"
proof -
  have "''{}'' \<noteq> []" "length ''{}'' \<le> 20480" by simp_all
  from late_body_starts_two_captures [OF sample_accepted(3,4,1) this sample_accepted(6,5)]
  show ?thesis by (auto simp: sample_conn_def http_conn_new_def)
qed

section \<open>A connection that has answered at once\<close>

text \<open>\<open>next_step\<close> keeps the empty buffer and writes nothing.\<close>

definition mute :: "http_conn \<Rightarrow> http_conn \<Rightarrow> bool" where
  "mute c d \<longleftrightarrow> hc_send_buf c = Some [] \<longrightarrow> hc_send_buf d = Some [] \<and> hc_wire d = hc_wire c"

lemma mute_refl: "mute c c"
  by (simp add: mute_def)

lemma mute_trans: "mute c d \<Longrightarrow> mute d e \<Longrightarrow> mute c e"
  by (simp add: mute_def)

lemma mute_upd:
  "hc_send_buf d = hc_send_buf c \<Longrightarrow> hc_wire d = hc_wire c \<Longrightarrow> mute c d"
  by (simp add: mute_def)

lemma mute_real_send: "real_send c = Inr d \<Longrightarrow> mute c d"
  by (auto simp: mute_def send_stuck [of c "[]"])

lemma mute_change_status: "change_http_status s c = Inr d \<Longrightarrow> mute c d"
  by (auto simp: change_http_status_def notice_send_def Let_def mute_def send_stuck [of _ "[]"] split: if_splits)

lemma mute_msg_recv_finish: "msg_recv_finish env pd c = Inr d \<Longrightarrow> mute c d"
  by (auto simp: msg_recv_finish_def Let_def mute_def notify_send_ready_def change_http_status_def notice_send_def
      send_stuck [of _ "[]"] split: option.splits if_splits elim!: try_then_InrE)

lemma mute_recv_finish: "recv_finish env pd c = Inr d \<Longrightarrow> mute c d"
  unfolding recv_finish_def
  by (auto elim!: try_then_InrE split: if_splits dest!: mute_msg_recv_finish mute_change_status intro: mute_trans)

lemma mute_recv_body: "data_recv_body buf c = (n, r, d) \<Longrightarrow> mute c d"
  by (auto simp: data_recv_body_def mute_def)

lemma mute_boundary:
  "recv_boundary_head buf c = Inr (r, d) \<Longrightarrow> mute c d" "recv_boundary_body buf c = Inr (r, d) \<Longrightarrow> mute c d"
  by (auto simp: recv_boundary_head_def recv_boundary_body_def data_recv_body_def mute_def Let_def
      split: if_splits option.splits prod.splits)

lemma mute_get_boundary: "get_boundary buf c = Inr (r, d) \<Longrightarrow> mute c d"
  unfolding get_boundary_def Let_def
  by (auto split: if_splits BOUNDARY_STATUS.splits dest!: mute_boundary simp: mute_def)

lemma mute_process_recv_body: "process_recv_body buf c = Inr (r, d) \<Longrightarrow> mute c d"
  unfolding process_recv_body_def
  by (auto simp: data_recv_body_def mute_def Let_def split: if_splits dest!: mute_get_boundary)

lemma mute_process_recv_buf:
  assumes "process_recv_buf env pd buf c = Inr (n, d)"
  shows "mute c d"
proof -
  have fin: "mute x y" if "finish_if env pd (r, x) = Inr y" for r x y
    using that mute_recv_finish [of env pd x y] by (auto simp: finish_if_def mute_refl split: if_splits)
  have body: "mute x z" if "process_recv_body b x = Inr (r, y)" "finish_if env pd (r, y) = Inr z" for b x r y z
    using mute_process_recv_body [OF that(1)] fin [OF that(2)] mute_trans by blast
  show ?thesis
  proof (cases "hc_status c")
    case RECV_HEAD
    then show ?thesis using assms
      by (auto simp: process_recv_buf_def mute_refl split: option.splits elim!: try_then_InrE dest!: body simp: mute_def)
  next
    case RECV_BODY
    then show ?thesis using assms body by (auto simp: process_recv_buf_def elim!: try_then_InrE)
  qed (use assms in \<open>auto simp: process_recv_buf_def\<close>)
qed

lemma mute_real_recv: "real_recv env pd flag c = Inr d \<Longrightarrow> mute c d"
  unfolding real_recv_def Let_def
  by (auto simp: RECV_def mute_def elim!: try_then_InrE split: if_splits dest!: mute_process_recv_buf)

lemma mute_step: "conn_step env pd e c = Inr d \<Longrightarrow> mute c d"
proof (cases e)
  case Ev_real_net
  assume "conn_step env pd e c = Inr d"
  with Ev_real_net show ?thesis
    by (auto elim!: try_then_InrE split: if_splits dest!: mute_real_recv mute_real_send intro: mute_trans)
next
  case (Ev_reply r)
  assume "conn_step env pd e c = Inr d"
  with Ev_reply show ?thesis
    by (auto simp: data_handle_reply_def send_async_response_def notify_send_ready_def dest!: mute_change_status simp: mute_def)
qed (auto simp: mute_upd conn_handle_timeout_def split: if_splits dest: mute_real_recv mute_real_send)

lemma mute_run: "conn_run es c = Inr d \<Longrightarrow> mute c d"
proof (induction es arbitrary: c)
  case (Cons x es)
  obtain env pd e where "x = (env, pd, e)" by (cases x)
  with Cons show ?case by (auto elim!: try_then_InrE dest!: mute_step intro: mute_trans)
qed (simp add: mute_refl)

lemma stray_head: "to_head_str res_head_init = '' 200 '' @ CRLF @ CRLF"
proof -
  have "snprintf 32 (fmt_d 0 200) = ''200''"
    by (simp add: snprintf_def fmt_d_def dec_string.simps) (simp add: char_of_def bit_0)
  then show ?thesis by (simp add: to_head_str_def with_reason_def res_head_init_def Let_def)
qed

text \<open>
  C37. After an answer at once the connection is mute.  When a handler answers at once (as every status, error
  and definition request does), the response is followed by a second, empty head, and from then on nothing
  that happens makes the connection write another byte: later requests on it are never answered.
\<close>

theorem connection_mute_after_sync_answer:
  assumes "awaiting c" "segment_request head body req c" "get_url_handler pd (rh_url_path req) = Some h"
    and "url_perform env pd h req (hc_recv_body c @ (if bodyless req then [] else body)) (hc_id c) (hc_res c) = Inr r"
    and "ur_ready r" "ur_body r \<noteq> []"
  shows "\<exists>c1. conn_run [(env, pd, Ev_arrive (head @ body)), (env, pd, Ev_in)] c = Inr c1 \<and>
    hc_wire c1 = hc_wire c @ to_head_str (ur_res r) @ ur_body r @ '' 200 '' @ CRLF @ CRLF \<and>
    (\<forall>es c2. conn_run es c1 = Inr c2 \<longrightarrow> hc_wire c2 = hc_wire c1)"
proof -
  from segment_received [OF assms(1,2)] obtain b where run:
    "conn_run [(env, pd, Ev_arrive (head @ body)), (env, pd, Ev_in)] c =
      try_then (recv_finish env pd (with_request head body req b c)) (\<lambda>d.
        Inr (d\<lparr>hc_recv_buf := drop (length (head @ body)) (hc_recv_buf d)\<rparr>))" by blast
  let ?w = "with_request head body req b c"
  let ?d = "?w\<lparr>hc_async_pending := False, hc_res := ur_res r, hc_sent := hc_sent c @ ur_sent r,
      hc_uploads := hc_uploads c @ (case ur_file r of None \<Rightarrow> [] | Some f \<Rightarrow> [f]), hc_send_body := ur_body r,
      hc_status := SEND_HEAD, hc_epollout := True\<rparr>"
  let ?e = "(response_done ?d)\<lparr>hc_send_buf := None\<rparr>"
  let ?f = "?e\<lparr>hc_status := SEND_HEAD, hc_epollout := True\<rparr>"
  have w: "hc_req ?w = req" "hc_id ?w = hc_id c" "hc_res ?w = hc_res c" "hc_send_buf ?w = None" "hc_answers ?w = []"
    "hc_wire ?w = hc_wire c" "hc_sent ?w = hc_sent c" "hc_uploads ?w = hc_uploads c"
    "hc_recv_body ?w = hc_recv_body c @ (if bodyless req then [] else body)"
    using assms(1) by (simp_all add: with_request_def awaiting_def)
  have e: "real_send ?d = Inr ?e"
    using w assms(6) by (intro response_sent) (simp_all add: response_due_def)
  have "msg_recv_finish env pd ?w = real_send ?d"
    using assms(3-5) w
    by (simp add: msg_recv_finish_def Let_def notify_send_ready_def change_http_status_def notice_send_def)
  moreover have "real_send ?f = Inr ((response_done ?f)\<lparr>hc_send_buf := Some []\<rparr>)"
    using w by (intro response_without_body) (simp_all add: response_due_def response_done_def)
  ultimately have fin: "recv_finish env pd ?w = Inr ((response_done ?f)\<lparr>hc_send_buf := Some []\<rparr>)"
    using e by (simp add: recv_finish_def change_http_status_def notice_send_def response_done_def)
  let ?c1 = "(response_done ?f)\<lparr>hc_send_buf := Some [], hc_recv_buf := drop (length (head @ body)) (hc_recv_buf (response_done ?f))\<rparr>"
  have c1: "conn_run [(env, pd, Ev_arrive (head @ body)), (env, pd, Ev_in)] c = Inr ?c1"
    unfolding run fin by simp
  have wire: "hc_wire ?c1 = hc_wire c @ to_head_str (ur_res r) @ ur_body r @ '' 200 '' @ CRLF @ CRLF"
    using w by (simp add: response_done_def stray_head)
  have "\<forall>es c2. conn_run es ?c1 = Inr c2 \<longrightarrow> hc_wire c2 = hc_wire ?c1"
    using mute_run [of _ ?c1] by (simp add: mute_def)
  with c1 wire show ?thesis by blast
qed

lemma connection_mute_after_sync_answer_witness:
  "\<exists>c1. conn_run [(sample_url_env, sample_pd, Ev_arrive (sample_head @ ''x'')), (sample_url_env, sample_pd, Ev_in)] sample_conn = Inr c1 \<and>
     (\<forall>es c2. conn_run es c1 = Inr c2 \<longrightarrow> hc_wire c2 = hc_wire c1)"
proof -
  let ?r = "set_error_response 400 ''Invalid JSON'' (hc_res sample_conn)"
  have seg: "segment_request sample_head ''x'' sample_req sample_conn"
    using sample_accepted(1) by (simp add: segment_request_def sample_head_def CRLF2_def CRLF_def CR_def LF_def c_str_def NUL_def MAX_RECV_SIZE_def)
  have post: "\<not> bodyless sample_req" using post_has_body by (simp add: bodyless_def sample_req_def)
  have h: "get_url_handler sample_pd (rh_url_path sample_req) = Some H_capture_api"
    by (simp add: sample_pd_def sample_req_def get_url_handler_def)
  have u: "url_perform sample_url_env sample_pd H_capture_api sample_req
      (hc_recv_body sample_conn @ (if bodyless sample_req then [] else ''x'')) (hc_id sample_conn) (hc_res sample_conn) = Inr ?r"
    using post sample_accepted(4)
    by (simp add: url_perform_def capture_api_perform_def sample_req_def handle_start_def body_document_def
        sample_url_env_def c_str_def NUL_def Let_def)
  have r: "ur_ready ?r" "ur_body ?r \<noteq> []" by (simp_all add: set_error_response_def)
  from connection_mute_after_sync_answer [OF sample_accepted(3) seg h u r] show ?thesis by blast
qed

end
