(* ===== verification/Http_Thread_Facts.thy ===== *)
theory Http_Thread_Facts
  imports Http_Thread Http_Conn_Facts
begin

text \<open>
  Facts about an HTTP thread: its channel delivers in order, its container is a host of timers, every
  connection is closed thirty seconds after it was accepted, and a reply to a client that has gone loses the
  messages behind it.
\<close>

section \<open>The channel\<close>

text \<open>Puts and takes in any order; what is taken is what the loop delivers.\<close>

datatype chan_op = C_put u32 http_in | C_take

fun chan_run :: "chan_op list \<Rightarrow> channel \<Rightarrow> (u32 \<times> http_in) list \<times> channel" where
  "chan_run [] ch = ([], ch)"
| "chan_run (C_put i m # ops) ch = chan_run ops (put_msg i m ch)"
| "chan_run (C_take # ops) ch =
     (case take_batch ch of (batch, ch1) \<Rightarrow> case chan_run ops ch1 of (out, ch2) \<Rightarrow> (batch @ out, ch2))"

fun chan_puts :: "chan_op list \<Rightarrow> (u32 \<times> http_in) list" where
  "chan_puts [] = []"
| "chan_puts (C_put i m # ops) = (i, m) # chan_puts ops"
| "chan_puts (C_take # ops) = chan_puts ops"

definition channel_ok :: "channel \<Rightarrow> bool" where
  "channel_ok ch \<longleftrightarrow> ch_current ch \<le> 1 \<and> ch_queue ch (ch_current ch) = []"

definition waiting :: "channel \<Rightarrow> (u32 \<times> http_in) list" where
  "waiting ch = ch_queue ch (1 - ch_current ch)"

lemma channel_ok_new: "channel_ok channel_new" "waiting channel_new = []"
  by (simp_all add: channel_ok_def channel_new_def waiting_def)

lemma put_msg_waiting:
  assumes "channel_ok ch"
  shows "channel_ok (put_msg i m ch)" "waiting (put_msg i m ch) = waiting ch @ [(i, m)]"
proof -
  have "1 - ch_current ch \<noteq> ch_current ch" using assms by (auto simp: channel_ok_def) arith
  then show "channel_ok (put_msg i m ch)" "waiting (put_msg i m ch) = waiting ch @ [(i, m)]"
    using assms by (auto simp: channel_ok_def waiting_def put_msg_def Let_def)
qed

lemma take_batch_waiting:
  assumes "channel_ok ch" "take_batch ch = (batch, ch1)"
  shows "channel_ok ch1" "batch = waiting ch" "waiting ch1 = []"
proof -
  have other: "1 - ch_current ch \<noteq> ch_current ch" "1 - (1 - ch_current ch) = ch_current ch"
    using assms(1) by (auto simp: channel_ok_def) arith+
  show "channel_ok ch1" "batch = waiting ch" "waiting ch1 = []"
    using assms other by (auto simp: channel_ok_def waiting_def take_batch_def Let_def)
qed

lemma chan_run_order:
  assumes "channel_ok ch" "chan_run ops ch = (out, ch1)"
  shows "out @ waiting ch1 = waiting ch @ chan_puts ops \<and> channel_ok ch1"
  using assms
proof (induction ops ch arbitrary: out rule: chan_run.induct)
  case (2 i m ops ch)
  then show ?case using put_msg_waiting [of ch i m] by simp
next
  case (3 ops ch)
  obtain batch c1 where t: "take_batch ch = (batch, c1)" by fastforce
  obtain o2 c2 where r: "chan_run ops c1 = (o2, c2)" by fastforce
  have "out = waiting ch @ o2" "c2 = ch1" using 3(3) t r take_batch_waiting [OF 3(2) t] by simp_all
  then show ?case using 3(1) [OF t [symmetric], of o2] t r take_batch_waiting [OF 3(2) t] by simp
qed simp

text \<open>
  The channel of a thread loses and reorders nothing.  However puts by other threads and takes by the
  loop follow each other, what has been taken is the beginning of what was put, the rest is waiting, and one
  more take delivers all of it.
\<close>

theorem channel_delivers_in_order:
  "case chan_run ops channel_new of (out, ch) \<Rightarrow> out @ waiting ch = chan_puts ops \<and> fst (take_batch ch) = waiting ch"
proof -
  obtain out ch where r: "chan_run ops channel_new = (out, ch)" by fastforce
  obtain b c where t: "take_batch ch = (b, c)" by fastforce
  from chan_run_order [OF channel_ok_new(1) r] take_batch_waiting [OF _ t] show ?thesis
    using r t by (simp add: channel_ok_new)
qed

section \<open>The container\<close>

definition conn_at :: "u32 \<Rightarrow> http_thread \<Rightarrow> bool" where
  "conn_at i th \<longleftrightarrow> (\<exists>c. ht_obj_map th i = Some (Conn c))"

lemma handle_timeout_keeps:
  assumes "container_handle_timeout m th = (b, th1)"
  shows "ht_timer th1 = ht_timer th" "conn_at i th1 = conn_at i th" "ht_obj_map th1 i = None \<longleftrightarrow> ht_obj_map th i = None"
  using assms by (auto simp: container_handle_timeout_def conn_at_def split: if_splits option.splits net_obj.splits sum.splits)

interpretation thread_timers: timer_host ht_timer "\<lambda>f th. th\<lparr>ht_timer := f (ht_timer th)\<rparr>" container_handle_timeout
  by unfold_locales (auto dest: handle_timeout_keeps(1))

text \<open>The timer of a channel is for an object that is never there.\<close>

lemma channel_timer_lost:
  "ht_obj_map th OBJ_ID_DOMAIN = None \<Longrightarrow> tm_obj_id m = OBJ_ID_DOMAIN \<Longrightarrow> container_handle_timeout m th = (False, th)"
  by (simp add: container_handle_timeout_def OBJ_ID_DOMAIN_def OBJ_ID_THREAD_def)

lemma gen_id_fresh: "gen_id_str i objs = Some j \<Longrightarrow> objs j = None \<and> (\<exists>k. j = next_obj_id k)"
  by (rule gen_id_str.raw_induct [where P = "\<lambda>i objs j. objs j = None \<and> (\<exists>k. j = next_obj_id k)"])
    (auto simp: Let_def split: if_splits)

text \<open>Everything that happens between two checks: timers are only added, connections stay connections.\<close>

definition grows :: "http_thread \<Rightarrow> http_thread \<Rightarrow> bool" where
  "grows a b \<longleftrightarrow> bt_current (ht_timer b) = bt_current (ht_timer a) \<and>
     (\<forall>k. set (bt_list (ht_timer a) k) \<subseteq> set (bt_list (ht_timer b) k)) \<and>
     (timers_ok (ht_timer a) \<longrightarrow> timers_ok (ht_timer b)) \<and> (\<forall>i. conn_at i a \<longrightarrow> conn_at i b)"

lemma grows_refl: "grows a a"
  by (simp add: grows_def)

lemma grows_trans:
  assumes "grows a b" "grows b c"
  shows "grows a c"
proof -
  have "set (bt_list (ht_timer a) k) \<subseteq> set (bt_list (ht_timer b) k)" "set (bt_list (ht_timer b) k) \<subseteq> set (bt_list (ht_timer c) k)" for k
    using assms by (simp_all add: grows_def)
  then have "set (bt_list (ht_timer a) k) \<subseteq> set (bt_list (ht_timer c) k)" for k by (rule subset_trans)
  then show ?thesis using assms by (simp add: grows_def)
qed

lemma grows_same: "ht_timer b = ht_timer a \<Longrightarrow> (\<And>i. conn_at i a \<Longrightarrow> conn_at i b) \<Longrightarrow> grows a b"
  by (simp add: grows_def)

lemma grows_channel: "grows a (a\<lparr>ht_channel := ch\<rparr>)"
  by (simp add: grows_def conn_at_def)

lemma grows_conn: "ht_obj_map a i = Some (Conn c) \<Longrightarrow> grows a (a\<lparr>ht_obj_map := (ht_obj_map a)(i \<mapsto> Conn d)\<rparr>)"
  by (simp add: grows_def conn_at_def)

lemma grows_insert: "container_insert obj th = Some (i, th1) \<Longrightarrow> grows th th1"
  using gen_id_fresh [of "ht_id_str th" "ht_obj_map th"]
  by (auto simp: container_insert_def conn_at_def intro!: grows_same split: option.splits)

lemma grows_add_timer: "container_add_timer now m th = Some th1 \<Longrightarrow> grows th th1"
  by (auto simp: container_add_timer_def grows_def conn_at_def add_timer_keeps(1,2) dest: subsetD [OF add_timer_keeps(4)])

lemma grows_connect: "handle_connect now taken th = Some th1 \<Longrightarrow> grows th th1"
  by (auto simp: handle_connect_def grows_refl split: if_splits option.splits
      dest!: grows_insert grows_add_timer intro: grows_trans)

lemma grows_handle_msg: "container_handle_msg now im th = Some (b, th1) \<Longrightarrow> grows th th1"
  by (auto simp: container_handle_msg_def grows_refl split: prod.splits if_splits option.splits http_in.splits
      net_obj.splits sum.splits intro: grows_connect grows_conn)

lemma grows_deliver: "deliver now ims th = Some (b, th1) \<Longrightarrow> grows th th1"
proof (induction ims arbitrary: th)
  case (Cons im ims)
  then obtain threw x where x: "container_handle_msg now im th = Some (threw, x)"
    "(if threw then Some (True, x) else deliver now ims x) = Some (b, th1)"
    by (auto split: option.splits)
  have "grows x th1" using x(2) Cons.IH [of x] by (auto simp: grows_refl split: if_splits)
  with grows_handle_msg [OF x(1)] show ?case by (rule grows_trans)
qed (simp add: grows_refl)

lemma grows_channel_process:
  assumes "channel_process now th = Some (b, th1)"
  shows "grows th th1"
proof -
  obtain batch ch where t: "take_batch (ht_channel th) = (batch, ch)" by fastforce
  obtain threw x where d: "deliver now batch (th\<lparr>ht_channel := ch\<rparr>) = Some (threw, x)"
    using assms t by (auto simp: channel_process_def split: option.splits)
  have "grows th x" using grows_channel grows_deliver [OF d] by (rule grows_trans)
  moreover have "grows x th1"
  proof (cases threw)
    case True
    then show ?thesis using assms t d by (simp add: channel_process_def grows_refl)
  next
    case False
    then obtain y where y: "(if ch_last_time (ht_channel x) = 0 then add_event_timer now MAX_CHANNEL_EVENT_TIMEOUT x else Some x) = Some y"
      "th1 = y\<lparr>ht_channel := (ht_channel y)\<lparr>ch_last_time := now\<rparr>\<rparr>"
      using assms t d by (auto simp: channel_process_def split: if_splits)
    then have "grows x y"
      by (auto simp: grows_refl add_event_timer_def Let_def split: if_splits dest: grows_add_timer)
    then show ?thesis unfolding y(2) using grows_channel by (rule grows_trans)
  qed
  ultimately show ?thesis by (rule grows_trans)
qed

lemma grows_step: "thread_step env pd now e th = Some (failed, th1) \<Longrightarrow> grows th th1"
  by (cases e) (auto simp: grows_refl split: option.splits net_obj.splits sum.splits
      intro: grows_channel grows_conn grows_channel_process)

lemma grows_epoll_round: "epoll_round env pd now es th = Some (failed, th1) \<Longrightarrow> grows th th1"
proof (induction es arbitrary: th failed)
  case (Cons e es)
  then obtain f1 x f2 where "thread_step env pd now e th = Some (f1, x)" "epoll_round env pd now es x = Some (f2, th1)"
    by (auto split: option.splits)
  then show ?case using grows_step Cons.IH grows_trans by blast
qed (simp add: grows_refl)

section \<open>Thirty seconds\<close>

definition life_timer :: "u32 \<Rightarrow> timer_msg \<Rightarrow> bool" where
  "life_timer i m \<longleftrightarrow> tm_obj_id m = i \<and> tm_timer_type m = 6"

lemma life_timer_throws:
  "life_timer i m \<Longrightarrow> i \<noteq> OBJ_ID_THREAD \<Longrightarrow> conn_at i th \<Longrightarrow> container_handle_timeout m th = (True, th)"
  by (auto simp: life_timer_def conn_at_def container_handle_timeout_def conn_handle_timeout_def NONE_DATA_TIMER_TYPE_def)

text \<open>A timer that fires fails its connection.\<close>

lemma run_timers_fails:
  assumes "(t, m) \<in> set l" "life_timer i m" "i \<noteq> OBJ_ID_THREAD" "conn_at i th"
    and "run_timers container_handle_timeout l th = (failed, th1)"
  shows "i \<in> set failed"
  using assms
proof (induction l arbitrary: th failed)
  case (Cons e l)
  obtain s n where e: "e = (s, n)" by fastforce
  obtain b x where x: "container_handle_timeout n th = (b, x)" by fastforce
  obtain f2 y where y: "run_timers container_handle_timeout l x = (f2, y)" by fastforce
  have out: "failed = (if b then tm_obj_id n # f2 else f2)" "y = th1" using Cons.prems(5) e x y by simp_all
  show ?case
  proof (cases "e = (t, m)")
    case True
    then show ?thesis using life_timer_throws [OF Cons.prems(2-4)] x e out Cons.prems(2) by (simp add: life_timer_def)
  next
    case False
    then have "i \<in> set f2"
      using Cons.IH [OF _ Cons.prems(2,3) _ y [unfolded out(2)]] Cons.prems(1,4) handle_timeout_keeps(2) [OF x, of i] by simp
    then show ?thesis using out by simp
  qed
qed simp

lemma run_timers_objs:
  "run_timers container_handle_timeout l th = (failed, th1) \<Longrightarrow>
     conn_at i th1 = conn_at i th \<and> (ht_obj_map th1 i = None \<longleftrightarrow> ht_obj_map th i = None)"
proof (induction l arbitrary: th failed)
  case (Cons e l)
  obtain s n where e: "e = (s, n)" by fastforce
  obtain b x where x: "container_handle_timeout n th = (b, x)" by fastforce
  obtain f2 y where y: "run_timers container_handle_timeout l x = (f2, y)" by fastforce
  then have "run_timers container_handle_timeout l x = (f2, th1)" using Cons.prems e x by simp
  from Cons.IH [OF this] show ?case using handle_timeout_keeps(2,3) [OF x] by simp
qed simp

lemma erase_all:
  "ht_timer (fold container_erase is th) = ht_timer th"
  "ht_obj_map (fold container_erase is th) i = (if i \<in> set is then None else ht_obj_map th i)"
  by (induction "is" arbitrary: th) (auto simp: container_erase_def)

text \<open>
  One round: a connection with its timer is gone at the end, or both are still there.  If the timer was in
  the list that is checked and is due, the connection is gone.
\<close>

lemma round_life:
  assumes "obj_process env pd now es th = Some th2" "timers_ok (ht_timer th)" "conn_at i th" "i \<noteq> OBJ_ID_THREAD"
    and "(t, m) \<in> set (bt_list (ht_timer th) j)" "j \<le> 1" "life_timer i m"
  shows "timers_ok (ht_timer th2) \<and> bt_current (ht_timer th2) = 1 - bt_current (ht_timer th) \<and>
    (ht_obj_map th2 i = None \<or> conn_at i th2 \<and> (t, m) \<in> set (bt_list (ht_timer th2) j)) \<and>
    (j = bt_current (ht_timer th) \<and> t \<le> now \<longrightarrow> ht_obj_map th2 i = None)"
proof -
  let ?upd = "\<lambda>f th. th\<lparr>ht_timer := f (ht_timer th)\<rparr>"
  obtain exp_list a where a: "epoll_round env pd now es th = Some (exp_list, a)"
    using assms(1) by (auto simp: obj_process_def split: option.splits)
  define b where "b = fold container_erase exp_list a"
  obtain failed c where c: "check_timer ht_timer ?upd container_handle_timeout now b = (failed, c)" by fastforce
  have th2: "th2 = fold container_erase failed c"
    using assms(1) a c by (simp add: obj_process_def b_def)
  note g = grows_epoll_round [OF a]
  have b: "ht_timer b = ht_timer a" "ht_obj_map b i = (if i \<in> set exp_list then None else ht_obj_map a i)"
    by (simp_all add: b_def erase_all)
  let ?k = "bt_current (ht_timer th)"
  have ok: "timers_ok (ht_timer b)" and k: "bt_current (ht_timer b) = ?k" and mem: "(t, m) \<in> set (bt_list (ht_timer b) j)"
    using g assms(2,5) by (auto simp: grows_def b)
  note check = thread_timers.check_exact [OF ok c, unfolded k]
  obtain s1 where s1: "run_timers container_handle_timeout (List.filter (\<lambda>(t, m). t \<le> now) (bt_list (ht_timer b) ?k))
      (?upd turn_lists b) = (failed, s1)"
    "c = ?upd (erase_due ?k (List.filter (\<lambda>(t, m). t \<le> now) (bt_list (ht_timer b) ?k))) s1"
    using check(5) by blast
  have c_objs: "conn_at i c = conn_at i b" "ht_obj_map c i = None \<longleftrightarrow> ht_obj_map b i = None"
    using run_timers_objs [OF s1(1), of i] by (simp_all add: s1(2) conn_at_def)
  have kept: "ht_timer th2 = ht_timer c" "ht_obj_map th2 i = (if i \<in> set failed then None else ht_obj_map c i)"
    by (simp_all add: th2 erase_all)
  have conn: "conn_at i a" using g assms(3) by (simp add: grows_def)
  show ?thesis
  proof (cases "i \<in> set exp_list")
    case True
    then have "ht_obj_map th2 i = None" using b(2) c_objs(2) kept(2) by simp
    then show ?thesis using check(1,2) kept(1) by simp
  next
    case False
    then have conn_b: "conn_at i b" using conn b(2) by (simp add: conn_at_def)
    have fires: "i \<in> set failed" if "j = ?k" "t \<le> now"
      using run_timers_fails [OF _ assms(7,4) _ s1(1)] mem that conn_b by (simp add: conn_at_def)
    have stays: "(t, m) \<in> set (bt_list (ht_timer c) j)" if "\<not> (j = ?k \<and> t \<le> now)"
    proof (cases "j = ?k")
      case True
      then show ?thesis using that mem check(3) by auto
    next
      case False
      then have "j = 1 - ?k" using assms(6) ok k by (auto simp: timers_ok_def)
      then show ?thesis using mem check(4) by auto
    qed
    show ?thesis
    proof (cases "i \<in> set failed")
      case True
      then show ?thesis using check(1,2) kept by simp
    next
      case not_failed: False
      then have "conn_at i th2" "(t, m) \<in> set (bt_list (ht_timer th2) j)" "\<not> (j = ?k \<and> t \<le> now)"
        using c_objs(1) conn_b kept stays fires by (auto simp: conn_at_def)
      moreover have "j = ?k \<and> t \<le> now \<longrightarrow> ht_obj_map th2 i = None" using calculation(3) by blast
      ultimately show ?thesis using check(1,2) kept(1) by simp
    qed
  qed
qed

lemma rounds_life:
  assumes "thread_run rs th = Some th2" "timers_ok (ht_timer th)" "conn_at i th" "i \<noteq> OBJ_ID_THREAD"
    and "(t, m) \<in> set (bt_list (ht_timer th) j)" "j \<le> 1" "life_timer i m"
  shows "(\<exists>n x. n \<le> length rs \<and> thread_run (take n rs) th = Some x \<and> ht_obj_map x i = None) \<or>
    timers_ok (ht_timer th2) \<and> conn_at i th2 \<and> (t, m) \<in> set (bt_list (ht_timer th2) j)"
  using assms(1-3,5)
proof (induction rs arbitrary: th)
  case (Cons r rs)
  obtain env pd now es where r: "r = (env, pd, now, es)" by (cases r)
  obtain th1 where th1: "obj_process env pd now es th = Some th1" "thread_run rs th1 = Some th2"
    using Cons.prems(1) by (auto simp: r split: option.splits)
  note life = round_life [OF th1(1) Cons.prems(2,3) assms(4) Cons.prems(4) assms(6,7)]
  show ?case
  proof (cases "ht_obj_map th1 i = None")
    case True
    then have "1 \<le> length (r # rs) \<and> thread_run (take 1 (r # rs)) th = Some th1 \<and> ht_obj_map th1 i = None"
      using th1(1) by (simp add: r)
    then show ?thesis by blast
  next
    case False
    have "timers_ok (ht_timer th1)" "conn_at i th1" "(t, m) \<in> set (bt_list (ht_timer th1) j)" by (use life False in blast)+
    from Cons.IH [OF th1(2) this] show ?thesis
    proof (elim disjE exE conjE)
      fix n x assume "n \<le> length rs" "thread_run (take n rs) th1 = Some x" "ht_obj_map x i = None"
      then have "Suc n \<le> length (r # rs) \<and> thread_run (take (Suc n) (r # rs)) th = Some x \<and> ht_obj_map x i = None"
        using th1(1) by (simp add: r)
      then show ?thesis by blast
    qed simp
  qed
qed simp

text \<open>Accepting a connection: it is there, with a timer of thirty seconds.\<close>

lemma next_obj_id_range: "next_obj_id i \<noteq> 0 \<Longrightarrow> next_obj_id i > 1000"
  unfolding next_obj_id_def OBJ_ID_BEGIN_def by (cases "i \<le> 1000") (simp_all, unat_arith)

lemma connect_starts_life:
  assumes "handle_connect now True th = Some th1" "ht_id_str th1 \<noteq> 0"
  shows "conn_at (ht_id_str th1) th1" "ht_id_str th1 \<noteq> OBJ_ID_THREAD" "ht_obj_map th (ht_id_str th1) = None"
    "\<exists>m. (now + 30000, m) \<in> set (bt_list (ht_timer th1) (bt_current (ht_timer th))) \<and> life_timer (ht_id_str th1) m"
proof -
  let ?obj = "\<lambda>i. Conn (http_conn_new \<lparr>obj_id = i, obj_thread_index = ht_thread_index th\<rparr>)"
  obtain i a where a: "container_insert ?obj th = Some (i, a)"
    using assms(1) by (auto simp: handle_connect_def split: option.splits)
  let ?m = "\<lparr>tm_obj_id = i, tm_timer_type = of_int NONE_DATA_TIMER_TYPE, tm_timer_id = 0, tm_time_length = 30000\<rparr>"
  obtain j bt where bt: "add_timer now ?m (ht_timer a) = Some (j, bt)" "th1 = a\<lparr>ht_timer := bt\<rparr>"
    using assms(1) a by (auto simp: handle_connect_def container_add_timer_def)
  have gen: "gen_id_str (ht_id_str th) (ht_obj_map th) = Some i"
    and a_def: "a = th\<lparr>ht_id_str := i, ht_obj_map := (ht_obj_map th)(i \<mapsto> ?obj i)\<rparr>"
    using a by (auto simp: container_insert_def split: option.splits)
  then have i: "i = ht_id_str th1" "i \<noteq> 0" using bt(2) assms(2) by simp_all
  have "ht_obj_map th1 i = Some (?obj i)" unfolding bt(2) a_def by simp
  then show "conn_at (ht_id_str th1) th1" unfolding i(1) [symmetric] conn_at_def by blast
  from gen_id_fresh [OF gen] obtain k where "ht_obj_map th i = None" "i = next_obj_id k" by blast
  then show "ht_id_str th1 \<noteq> OBJ_ID_THREAD" "ht_obj_map th (ht_id_str th1) = None"
    using next_obj_id_range [of k] i by (auto simp: OBJ_ID_THREAD_def)
  show "\<exists>m. (now + 30000, m) \<in> set (bt_list (ht_timer th1) (bt_current (ht_timer th))) \<and> life_timer (ht_id_str th1) m"
    using bt(1)
  proof (cases rule: add_timer_cases)
    case 1
    then show ?thesis using i(2) by simp
  next
    case 2
    then have "(now + 30000, ?m\<lparr>tm_timer_id := j\<rparr>) \<in> set (bt_list (ht_timer th1) (bt_current (ht_timer th)))"
      using bt(2) a_def by simp
    moreover have "life_timer (ht_id_str th1) (?m\<lparr>tm_timer_id := j\<rparr>)"
      using i(1) by (simp add: life_timer_def NONE_DATA_TIMER_TYPE_def)
    ultimately show ?thesis by blast
  qed
qed

lemma thread_run_append: "thread_run (rs @ qs) th = (case thread_run rs th of None \<Rightarrow> None | Some x \<Rightarrow> thread_run qs x)"
  by (induction rs th rule: thread_run.induct) (auto split: option.splits)

text \<open>
  C15. No connection lives longer than thirty seconds.  Whatever arrives, is sent or goes on in the thread, a
  connection accepted at a time is closed by the end of the second round that runs thirty seconds later or
  after: also one that is in the middle of an upload or still waits for its answer.
\<close>

theorem connection_closed_after_30s:
  assumes "handle_connect now0 True th0 = Some th1" "ht_id_str th1 \<noteq> 0" "timers_ok (ht_timer th0)"
    and "thread_run (rs @ [(e1, p1, now1, es1), (e2, p2, now2, es2)]) th1 = Some th2"
    and "now0 + 30000 \<le> now1" "now0 + 30000 \<le> now2"
  shows "\<exists>n x. n \<le> length rs + 2 \<and>
    thread_run (take n (rs @ [(e1, p1, now1, es1), (e2, p2, now2, es2)])) th1 = Some x \<and> ht_obj_map x (ht_id_str th1) = None"
proof -
  let ?i = "ht_id_str th1" and ?j = "bt_current (ht_timer th0)" and ?all = "rs @ [(e1, p1, now1, es1), (e2, p2, now2, es2)]"
  from connect_starts_life [OF assms(1,2)] obtain m where
    start: "conn_at ?i th1" "?i \<noteq> OBJ_ID_THREAD" "(now0 + 30000, m) \<in> set (bt_list (ht_timer th1) ?j)" "life_timer ?i m" by blast
  have ok: "timers_ok (ht_timer th1)" "?j \<le> 1"
    using grows_connect [OF assms(1)] assms(3) by (simp_all add: grows_def timers_ok_def)
  obtain a b where a: "thread_run rs th1 = Some a" and b: "obj_process e1 p1 now1 es1 a = Some b"
    and c: "obj_process e2 p2 now2 es2 b = Some th2"
    using assms(4) by (auto simp: thread_run_append split: option.splits)
  note life = rounds_life [OF a ok(1) start(1,2,3) ok(2) start(4)]
  show ?thesis
  proof (cases "\<exists>n x. n \<le> length rs \<and> thread_run (take n rs) th1 = Some x \<and> ht_obj_map x ?i = None")
    case True
    then obtain n x where "n \<le> length rs" "thread_run (take n rs) th1 = Some x" "ht_obj_map x ?i = None" by blast
    then show ?thesis by (intro exI [of _ n] exI [of _ x]) simp
  next
    case False
    then have at_a: "timers_ok (ht_timer a)" "conn_at ?i a" "(now0 + 30000, m) \<in> set (bt_list (ht_timer a) ?j)"
      by (use life False in blast)+
    note la = round_life [OF b at_a(1,2) start(2) at_a(3) ok(2) start(4)]
    show ?thesis
    proof (cases "ht_obj_map b ?i = None")
      case True
      have "thread_run (take (length rs + 1) ?all) th1 = Some b" using a b by (simp add: thread_run_append)
      then show ?thesis using True by (intro exI [of _ "length rs + 1"] exI [of _ b]) simp
    next
      case False
      have at_b: "timers_ok (ht_timer b)" "conn_at ?i b" "(now0 + 30000, m) \<in> set (bt_list (ht_timer b) ?j)"
        and turned: "bt_current (ht_timer b) = 1 - bt_current (ht_timer a)" "?j \<noteq> bt_current (ht_timer a)"
        by (use la assms(5) False in blast)+
      have "?j = bt_current (ht_timer b)" using turned ok(2) at_a(1) by (auto simp: timers_ok_def)
      then have "ht_obj_map th2 ?i = None"
        using round_life [OF c at_b(1,2) start(2) at_b(3) ok(2) start(4)] assms(6) by blast
      moreover have "thread_run (take (length rs + 2) ?all) th1 = Some th2" using assms(4) by simp
      ultimately show ?thesis by (intro exI [of _ "length rs + 2"] exI [of _ th2]) simp
    qed
  qed
qed

lemma thread_start:
  "\<exists>th0 th1. net_thread_init 1 = Some th0 \<and> timers_ok (ht_timer th0) \<and> handle_connect 100 True th0 = Some th1 \<and> ht_id_str th1 = 1002"
proof -
  define th where "th = \<lparr>ht_thread_index = 1, ht_obj_map = [1001 \<mapsto> Channel_obj], ht_id_str = 1001, ht_timer = base_timer_new,
    ht_channel = channel_new, ht_channel_id = 1001\<rparr>"
  have first: "gen_id_str OBJ_ID_BEGIN Map.empty = Some 1001"
    by (subst gen_id_str.simps) (simp add: next_obj_id_def OBJ_ID_BEGIN_def Let_def)
  have second: "gen_id_str 1001 [1001 \<mapsto> Channel_obj] = Some 1002"
    by (subst gen_id_str.simps) (simp add: next_obj_id_def OBJ_ID_BEGIN_def Let_def)
  have tid: "gen_timerid base_timer_new = Some (1001, base_timer_new\<lparr>bt_timerid := 1001, bt_timerid_set := {1001}\<rparr>)"
    by (subst gen_timerid_def, subst free_timerid.simps) (simp add: base_timer_new_def TIMER_ID_BEGIN_def next_timerid_def Let_def)
  have "net_thread_init 1 = Some th"
    by (simp add: net_thread_init_def container_insert_def first th_def)
  moreover have "timers_ok (ht_timer th)" by (simp add: th_def timers_ok_new)
  moreover have "\<exists>th1. handle_connect 100 True th = Some th1 \<and> ht_id_str th1 = 1002"
    by (simp add: handle_connect_def container_insert_def th_def second container_add_timer_def add_timer_def tid Let_def)
  ultimately show ?thesis by blast
qed

lemma idle_round: "\<exists>th2. obj_process env pd now [] th = Some th2"
  by (simp add: obj_process_def split: prod.splits)

lemma connection_closed_after_30s_witness:
  "\<exists>th0 th1 n x. net_thread_init 1 = Some th0 \<and> handle_connect 100 True th0 = Some th1 \<and> ht_id_str th1 = 1002 \<and>
     thread_run (take n ([] @ [(sample_url_env, sample_pd, 30100, []), (sample_url_env, sample_pd, 30200, [])])) th1 = Some x \<and>
     ht_obj_map x 1002 = None"
proof -
  obtain th0 th1 where th: "net_thread_init 1 = Some th0" "timers_ok (ht_timer th0)" "handle_connect 100 True th0 = Some th1"
    "ht_id_str th1 = 1002" using thread_start by blast
  obtain a where a: "obj_process sample_url_env sample_pd 30100 [] th1 = Some a" using idle_round by blast
  obtain b where b: "obj_process sample_url_env sample_pd 30200 [] a = Some b" using idle_round by blast
  have run: "thread_run ([] @ [(sample_url_env, sample_pd, 30100, []), (sample_url_env, sample_pd, 30200, [])]) th1 = Some b"
    using a b by simp
  have "ht_id_str th1 \<noteq> 0" "(100::u64) + 30000 \<le> 30100" "(100::u64) + 30000 \<le> 30200" using th(4) by simp_all
  from connection_closed_after_30s [OF th(3) this(1) th(2) run this(2,3)] th show ?thesis by metis
qed

section \<open>A client that has gone\<close>

lemma broken_reply:
  assumes "hc_send_buf c = None" "hc_answers c = Fail # as"
  shows "data_handle_reply r c = Inl Http_exception"
proof -
  let ?d = "c\<lparr>hc_send_body := hr_body r, hc_res := fill_response_headers (hr_status r) (hr_reason r) (hr_headers r)
      (length (hr_body r)) (hc_res c), hc_async_pending := False, hc_status := SEND_HEAD, hc_epollout := True\<rparr>"
  have "data_handle_reply r c = real_send ?d"
    by (simp add: data_handle_reply_def send_async_response_def notify_send_ready_def change_http_status_def notice_send_def)
  also have "\<dots> = Inl Http_exception"
    using assms by (subst send_head_starts) (simp_all add: response_due_def real_send.simps SEND_def)
  finally show ?thesis .
qed

text \<open>
  C39. A reply to a client that has gone loses the messages behind it.  When the socket of the connection a
  reply is for has failed, the messages that were taken together with the reply and come after it (replies to
  other clients, new connections) are neither handled nor kept: the queues are empty, no other object and no
  timer has changed, and the entry of the channel is erased.
\<close>

theorem failed_reply_drops_batch:
  assumes "channel_ok (ht_channel th)" "waiting (ht_channel th) = (i, N_reply r) # rest" "i \<noteq> OBJ_ID_THREAD"
    and "ht_obj_map th i = Some (Conn c)" "hc_send_buf c = None" "hc_answers c = Fail # as"
  shows "\<exists>th1. thread_step env pd now T_channel th = Some ([ht_channel_id th], th1) \<and> channel_ok (ht_channel th1) \<and>
    waiting (ht_channel th1) = [] \<and> ht_timer th1 = ht_timer th \<and> (\<forall>j. j \<noteq> i \<longrightarrow> ht_obj_map th1 j = ht_obj_map th j)"
proof -
  obtain batch ch where t: "take_batch (ht_channel th) = (batch, ch)" by fastforce
  note taken = take_batch_waiting [OF assms(1) t]
  let ?th1 = "th\<lparr>ht_channel := ch, ht_obj_map := (ht_obj_map th)(i \<mapsto> Conn (torn_reply r c))\<rparr>"
  have "container_handle_msg now (i, N_reply r) (th\<lparr>ht_channel := ch\<rparr>) = Some (True, ?th1)"
    using assms(3,4) broken_reply [OF assms(5,6)] by (simp add: container_handle_msg_def)
  then have "deliver now batch (th\<lparr>ht_channel := ch\<rparr>) = Some (True, ?th1)"
    using taken(2) assms(2) by simp
  then have "thread_step env pd now T_channel th = Some ([ht_channel_id th], ?th1)"
    using t by (simp add: channel_process_def)
  then show ?thesis using taken
    by (intro exI [of _ ?th1] conjI allI impI) (assumption, simp_all del: thread_step.simps)
qed

lemma failed_reply_drops_batch_witness:
  "\<exists>th th1. waiting (ht_channel th) = [(1002, N_reply sample_reply), (1, N_connect True)] \<and>
     thread_step sample_url_env sample_pd 5 T_channel th = Some ([1001], th1) \<and> waiting (ht_channel th1) = [] \<and>
     dom (ht_obj_map th1) = {1002}"
proof -
  define th where "th = \<lparr>ht_thread_index = 1, ht_obj_map = [1002 \<mapsto> Conn (sample_conn\<lparr>hc_answers := [Fail]\<rparr>)], ht_id_str = 1002,
    ht_timer = base_timer_new, ht_channel = put_msg 1 (N_connect True) (put_msg 1002 (N_reply sample_reply) channel_new),
    ht_channel_id = 1001\<rparr>"
  have ch: "channel_ok (ht_channel th)" "waiting (ht_channel th) = (1002, N_reply sample_reply) # [(1, N_connect True)]"
    using put_msg_waiting [of channel_new] put_msg_waiting [of "put_msg 1002 (N_reply sample_reply) channel_new"]
    by (simp_all add: th_def channel_ok_new)
  have c: "(1002::u32) \<noteq> OBJ_ID_THREAD" "ht_obj_map th 1002 = Some (Conn (sample_conn\<lparr>hc_answers := [Fail]\<rparr>))"
    "hc_send_buf (sample_conn\<lparr>hc_answers := [Fail]\<rparr>) = None" "hc_answers (sample_conn\<lparr>hc_answers := [Fail]\<rparr>) = Fail # []"
    by (simp_all add: th_def OBJ_ID_THREAD_def sample_conn_def http_conn_new_def)
  have cid: "ht_channel_id th = 1001" by (simp add: th_def)
  from failed_reply_drops_batch [OF ch c, of sample_url_env sample_pd 5, unfolded cid] obtain th1 where th1:
    "thread_step sample_url_env sample_pd 5 T_channel th = Some ([1001], th1)" "waiting (ht_channel th1) = []"
    "\<forall>j. j \<noteq> 1002 \<longrightarrow> ht_obj_map th1 j = ht_obj_map th j" by blast
  have "conn_at 1002 th1" using grows_step [OF th1(1)] c(2) unfolding grows_def conn_at_def by blast
  then have "dom (ht_obj_map th1) = {1002}"
    using th1(3) by (auto simp: conn_at_def th_def dom_def split: if_splits)
  then show ?thesis using ch(2) th1 by blast
qed

end
