(* ===== verification/Cli_Client.thy ===== *)
theory Cli_Client
  imports Http_Head
begin

text \<open>
  The command-line client, \<open>src/tools/rxcli_main.cpp\<close>: its arguments, the tasks it makes of a file of JSON
  objects, the HTTP request it sends for each and the response it reads.  RapidJSON is two parameters, the
  parser and the writer of documents, and the conversion of a double; the network is the results of the name
  lookup, of the connection and of the calls of \<open>send\<close> and \<open>recv\<close>.  The usage and the error texts on the
  standard error are left out.
\<close>

section \<open>Tasks\<close>

record TaskRequest =
  tq_payload :: string
  tq_summary :: string

text \<open>The members of the payload in order, and the summary so far.\<close>

type_synonym task_draft = "(string \<times> json) list \<times> string"

definition to_string_int64 :: "int \<Rightarrow> string" where
  "to_string_int64 v = snprintf 32 (fmt_d 0 v)"

definition to_int64 :: "int \<Rightarrow> int" where
  "to_int64 v = sint (word_of_int v :: 64 word)"

definition is_int64 :: "int \<Rightarrow> bool" where
  "is_int64 i \<longleftrightarrow> - (2 ^ 63) \<le> i \<and> i < 2 ^ 63"

text \<open>A space goes before a note that is not the first.\<close>

definition noted :: "string \<Rightarrow> string \<Rightarrow> string \<Rightarrow> string" where
  "noted label v s = (if s = [] then [] else s @ '' '') @ label @ ''='' @ v"

text \<open>An id: an integer of 64 bits.  The first one is noted without a space.\<close>

definition id_field :: "string \<Rightarrow> json \<Rightarrow> task_draft \<Rightarrow> string + task_draft" where
  "id_field key item d =
     (case json_member item key of
        None \<Rightarrow> Inr d
      | Some (J_int i) \<Rightarrow>
          if is_int64 i then Inr (fst d @ [(key, J_int i)], noted key (to_string_int64 i) (snd d))
          else Inl (key @ '' must be an integer'')
      | Some _ \<Rightarrow> Inl (key @ '' must be an integer''))"

text \<open>A text member under a name of the payload, with its note.\<close>

definition text_field ::
  "string \<Rightarrow> string \<Rightarrow> (string \<Rightarrow> string \<Rightarrow> string) \<Rightarrow> json \<Rightarrow> task_draft \<Rightarrow> string + task_draft" where
  "text_field key out note item d =
     (case json_member item key of
        None \<Rightarrow> Inr d
      | Some (J_string s) \<Rightarrow> Inr (fst d @ [(out, J_string (c_str s))], note (c_str s) (snd d))
      | Some _ \<Rightarrow> Inl (key @ '' must be a string''))"

definition not_noted :: "string \<Rightarrow> string \<Rightarrow> string" where
  "not_noted v s = s"

definition parse_duration_value :: "(json \<Rightarrow> int) \<Rightarrow> json \<Rightarrow> int option" where
  "parse_duration_value dbl v =
     (case v of
        J_int i \<Rightarrow> Some (to_int64 i)
      | J_double \<Rightarrow> Some (dbl v)
      | J_string s \<Rightarrow>
          if c_str s = [] then None
          else (case strtol 10 (c_str s) of (n, rest) \<Rightarrow> if rest = [] then Some n else None)
      | _ \<Rightarrow> None)"

definition parse_duration :: "(json \<Rightarrow> int) \<Rightarrow> json \<Rightarrow> int option" where
  "parse_duration dbl obj =
     (case json_member obj ''duration'' of
        Some v \<Rightarrow> parse_duration_value dbl v
      | None \<Rightarrow> (case json_member obj ''duration_sec'' of Some v \<Rightarrow> parse_duration_value dbl v | None \<Rightarrow> None))"

text \<open>A duration that cannot be read is left out without an error.\<close>

definition duration_field :: "(json \<Rightarrow> int) \<Rightarrow> json \<Rightarrow> task_draft \<Rightarrow> task_draft" where
  "duration_field dbl item d =
     (case parse_duration dbl item of
        None \<Rightarrow> d
      | Some n \<Rightarrow> (fst d @ [(''duration'', J_int n)], noted ''duration'' (to_string_int64 n) (snd d)))"

definition filter_field :: "json \<Rightarrow> task_draft \<Rightarrow> string + task_draft" where
  "filter_field item d =
     (if json_member item ''filter'' \<noteq> None then text_field ''filter'' ''filter'' (noted ''filter'') item d
      else text_field ''bpf'' ''filter'' (noted ''filter'') item d)"

definition output_fields :: "json \<Rightarrow> task_draft \<Rightarrow> string + task_draft" where
  "output_fields item d =
     try_then (text_field ''file'' ''file'' (noted ''file'') item d) (\<lambda>d1.
     try_then (text_field ''file_pattern'' ''file_pattern'' (noted ''file_pattern'') item d1) (\<lambda>d2.
       Inr (if json_member item ''file'' = None \<and> json_member item ''file_pattern'' = None
            then (fst d2, noted ''file'' ''<default>'' (snd d2)) else d2)))"

definition add_pid_field :: "string \<Rightarrow> json \<Rightarrow> task_draft \<Rightarrow> string + task_draft" where
  "add_pid_field name v d =
     (case v of
        J_int i \<Rightarrow> Inr (fst d @ [(name, J_int (to_int64 i))],
                        noted (if name = ''target_pid'' then ''target_pid'' else ''pid'') (to_string_int64 (to_int64 i)) (snd d))
      | _ \<Rightarrow> Inl (name @ '' must be an integer''))"

definition pid_fields :: "json \<Rightarrow> task_draft \<Rightarrow> string + task_draft" where
  "pid_fields item d =
     (case json_member item ''pid'' of
        Some v \<Rightarrow> add_pid_field ''pid'' v d
      | None \<Rightarrow> (case json_member item ''target_pid'' of Some v \<Rightarrow> add_pid_field ''target_pid'' v d | None \<Rightarrow> Inr d))"

text \<open>The fields in their order; the note of the interface comes without a space before it.\<close>

definition task_fields :: "(json \<Rightarrow> int) \<Rightarrow> json \<Rightarrow> string + task_draft" where
  "task_fields dbl item =
     try_then (id_field ''capture_id'' item ([], [])) (\<lambda>d.
     try_then (id_field ''id'' item d) (\<lambda>d.
     try_then (text_field ''sid'' ''sid'' (noted ''sid'') item d) (\<lambda>d.
     try_then (text_field ''iface'' ''iface'' (\<lambda>v s. s @ ''iface='' @ v) item d) (\<lambda>d.
     try_then (filter_field item (duration_field dbl item d)) (\<lambda>d.
     try_then (output_fields item d) (\<lambda>d.
     try_then (text_field ''category'' ''category'' not_noted item d) (\<lambda>d.
     try_then (text_field ''priority'' ''priority'' not_noted item d) (\<lambda>d.
     try_then (text_field ''proc_name'' ''proc_name'' (noted ''proc'') item d) (\<lambda>d.
     try_then (pid_fields item d) (\<lambda>d.
     try_then (text_field ''protocol'' ''protocol'' not_noted item d) (\<lambda>d.
     try_then (text_field ''protocol_filter'' ''protocol_filter'' not_noted item d) (\<lambda>d.
       text_field ''protocol_filter_inline'' ''protocol_filter_inline'' not_noted item d))))))))))))"

definition build_task_payload :: "(json \<Rightarrow> string) \<Rightarrow> (json \<Rightarrow> int) \<Rightarrow> json \<Rightarrow> string + TaskRequest" where
  "build_task_payload write_json dbl item =
     (if \<not> is_object item then Inl ''task entry must be a JSON object''
      else try_then (task_fields dbl item) (\<lambda>(ms, summary).
             Inr \<lparr>tq_payload = c_str (write_json (J_object ms)), tq_summary = summary\<rparr>))"

fun parse_items :: "(json \<Rightarrow> string) \<Rightarrow> (json \<Rightarrow> int) \<Rightarrow> nat \<Rightarrow> json list \<Rightarrow> string + TaskRequest list" where
  "parse_items write_json dbl i [] = Inr []"
| "parse_items write_json dbl i (item # items) =
     (case build_task_payload write_json dbl item of
        Inl e \<Rightarrow> Inl (snprintf 64 (''task index '' @ dec_string i @ '': '' @ c_str e))
      | Inr t \<Rightarrow> try_then (parse_items write_json dbl (Suc i) items) (\<lambda>ts. Inr (t # ts)))"

text \<open>The offset of a parse error is a parameter too.\<close>

definition parse_tasks ::
  "json_parser \<Rightarrow> (string \<Rightarrow> int) \<Rightarrow> (json \<Rightarrow> string) \<Rightarrow> (json \<Rightarrow> int) \<Rightarrow> string \<Rightarrow> string + TaskRequest list" where
  "parse_tasks parse_json offset write_json dbl s =
     (case parse_json (c_str s) of
        None \<Rightarrow> Inl (''failed to parse tasks JSON (offset '' @ to_string_int64 (offset (c_str s)) @ '')'')
      | Some (J_array items) \<Rightarrow> parse_items write_json dbl 0 items
      | Some _ \<Rightarrow> Inl ''tasks JSON must be an array'')"

section \<open>A request over HTTP\<close>

record HttpResponse =
  rp_status_code :: int
  rp_body :: string
  rp_raw :: string

definition normalized_path :: "string \<Rightarrow> string" where
  "normalized_path path = (if path = [] then ''/'' else if hd path \<noteq> CHR ''/'' then CHR ''/'' # path else path)"

definition http_request :: "string \<Rightarrow> int \<Rightarrow> string \<Rightarrow> string \<Rightarrow> string" where
  "http_request host port path payload =
     ''POST '' @ normalized_path path @ '' HTTP/1.1'' @ CRLF @
     ''Host: '' @ host @ '':'' @ snprintf 16 (fmt_d 0 port) @ CRLF @
     ''Content-Type: application/json'' @ CRLF @
     ''Connection: close'' @ CRLF @
     ''Content-Length: '' @ snprintf 64 (dec_string (length payload)) @ CRLF2 @ payload"

text \<open>The results of \<open>send\<close>; nothing comes out as long as the loop goes on.\<close>

datatype post_send_result = Sent nat | Send_again | Send_error

fun send_all :: "nat \<Rightarrow> nat \<Rightarrow> post_send_result list \<Rightarrow> bool option" where
  "send_all sent len [] = (if sent < len then None else Some True)"
| "send_all sent len (Sent n # rs) =
     (if \<not> sent < len then Some True else if n = 0 then Some False else send_all (sent + n) len rs)"
| "send_all sent len (Send_again # rs) = (if \<not> sent < len then Some True else send_all sent len rs)"
| "send_all sent len (Send_error # rs) = (if \<not> sent < len then Some True else Some False)"

text \<open>The results of \<open>recv\<close>, and how the loop around it ends; it may still wait when the list is used up.\<close>

datatype recv_result = Got string | Peer_closed | Interrupted | Recv_error

datatype recv_outcome = Received string | Recv_failed | Still_waiting string

text \<open>The end of the head and the length of the whole response, looked for when the head is complete.\<close>

definition response_total :: "string \<Rightarrow> nat \<Rightarrow> nat option" where
  "response_total out header_end =
     (case find_str ''Content-Length:'' out of
        None \<Rightarrow> None
      | Some cl \<Rightarrow>
          if cl \<ge> header_end then None
          else (let v = dropWhile (\<lambda>c. c = CHR '' '') (drop (cl + 15) out) in
                case find_str CRLF (drop cl out) of
                  None \<Rightarrow> None
                | Some e \<Rightarrow>
                    if cl + e > header_end then None
                    else (let start = length out - length v;
                              n = fst (strtol 10 (c_str (take (cl + e - start) v)))
                          in if n \<ge> 0 then Some (header_end + nat n) else None)))"

fun recv_all :: "string \<Rightarrow> nat option \<Rightarrow> nat option \<Rightarrow> recv_result list \<Rightarrow> recv_outcome" where
  "recv_all out head_end expected [] = Still_waiting out"
| "recv_all out head_end expected (Got s # rs) =
     (let out1 = out @ s;
          (head1, total1) =
            (case head_end of
               Some h \<Rightarrow> (head_end, expected)
             | None \<Rightarrow> (case find_str CRLF2 out1 of
                          None \<Rightarrow> (None, expected)
                        | Some p \<Rightarrow> (Some (p + 4), response_total out1 (p + 4))))
      in case total1 of
           Some t \<Rightarrow> if t \<le> length out1 then Received out1 else recv_all out1 head1 total1 rs
         | None \<Rightarrow> recv_all out1 head1 total1 rs)"
| "recv_all out head_end expected (Peer_closed # rs) = Received out"
| "recv_all out head_end expected (Interrupted # rs) = recv_all out head_end expected rs"
| "recv_all out head_end expected (Recv_error # rs) = Recv_failed"

definition status_code_text :: "string \<Rightarrow> string option" where
  "status_code_text status_line =
     (if \<not> starts_with ''HTTP/'' status_line then None
      else case find_char (CHR '' '') status_line of
             None \<Rightarrow> None
           | Some i \<Rightarrow> (let r = drop (Suc i) status_line in
                         case find_char (CHR '' '') r of None \<Rightarrow> Some r | Some j \<Rightarrow> Some (take j r)))"

definition parse_response :: "string \<Rightarrow> string + HttpResponse" where
  "parse_response response =
     (case find_str CRLF response of
        None \<Rightarrow> Inl ''malformed HTTP response''
      | Some e \<Rightarrow>
          (case status_code_text (take e response) of
             None \<Rightarrow> Inl ''unexpected HTTP status line''
           | Some code \<Rightarrow>
               (case find_str CRLF2 response of
                  None \<Rightarrow> Inl ''malformed HTTP headers''
                | Some h \<Rightarrow> Inr \<lparr>rp_status_code = atoi (c_str code), rp_body = drop (h + 4) response, rp_raw = response\<rparr>)))"

text \<open>What the network does during one request: the error of the name lookup, the connection, send and recv.\<close>

record post_env =
  pe_lookup_error :: "string option"
  pe_connected :: bool
  pe_send :: "post_send_result list"
  pe_recv :: "recv_result list"

definition send_http_post ::
  "post_env \<Rightarrow> string \<Rightarrow> int \<Rightarrow> string \<Rightarrow> string \<Rightarrow> (string + HttpResponse) option" where
  "send_http_post env host port path payload =
     (case pe_lookup_error env of
        Some e \<Rightarrow> Some (Inl (''getaddrinfo failed: '' @ e))
      | None \<Rightarrow>
          if \<not> pe_connected env then Some (Inl ''failed to connect to host'')
          else (case send_all 0 (length (http_request host port path payload)) (pe_send env) of
                  None \<Rightarrow> None
                | Some False \<Rightarrow> Some (Inl ''failed to send HTTP request'')
                | Some True \<Rightarrow>
                    (case recv_all [] None None (pe_recv env) of
                       Received response \<Rightarrow> Some (parse_response response)
                     | Recv_failed \<Rightarrow> Some (Inl ''failed to read HTTP response'')
                     | Still_waiting out \<Rightarrow> None)))"

section \<open>The program\<close>

text \<open>The text printed about a response.\<close>

definition printed :: "string \<Rightarrow> string \<Rightarrow> string" where
  "printed label v = ''    '' @ label @ '': '' @ v @ [LF]"

definition printed_text :: "json \<Rightarrow> string \<Rightarrow> string" where
  "printed_text doc k = (case json_member doc k of Some (J_string s) \<Rightarrow> printed k (c_str s) | _ \<Rightarrow> [])"

definition printed_bool :: "json \<Rightarrow> string \<Rightarrow> string" where
  "printed_bool doc k =
     (case json_member doc k of Some (J_bool b) \<Rightarrow> printed k (if b then ''true'' else ''false'') | _ \<Rightarrow> [])"

definition int_member :: "json \<Rightarrow> string \<Rightarrow> int option" where
  "int_member doc k = (case json_member doc k of Some (J_int i) \<Rightarrow> if is_int32 i then Some i else None | _ \<Rightarrow> None)"

definition summarize_response :: "json_parser \<Rightarrow> HttpResponse \<Rightarrow> string" where
  "summarize_response parse_json resp =
     (let plain = printed ''response'' (c_str (rp_body resp)) in
      case parse_json (c_str (rp_body resp)) of
        Some (J_object ms) \<Rightarrow>
          (let doc = J_object ms in
           case int_member doc ''capture_id'' of
             Some i \<Rightarrow>
               printed ''capture_id'' (fmt_d 0 i) @ printed_text doc ''key'' @ printed_text doc ''sid'' @
               printed_text doc ''status'' @ printed_text doc ''path'' @ printed_bool doc ''duplicate''
           | None \<Rightarrow> (case int_member doc ''id'' of Some i \<Rightarrow> printed ''id'' (fmt_d 0 i) | None \<Rightarrow> plain))
      | _ \<Rightarrow> if rp_body resp = [] then [] else plain)"

record cli_options =
  co_host :: string
  co_port :: int
  co_path :: string
  co_tasks_path :: string

text \<open>How the arguments end: the usage with its exit code, or the options.\<close>

fun parse_args :: "string list \<Rightarrow> cli_options \<Rightarrow> int + cli_options" where
  "parse_args [] opt = (if co_tasks_path opt = [] then Inl 1 else Inr opt)"
| "parse_args [a] opt =
     (if a = ''--help'' \<or> a = ''-h'' then Inl 0
      else if co_tasks_path opt = [] then parse_args [] (opt\<lparr>co_tasks_path := a\<rparr>) else Inl 1)"
| "parse_args (a # b # as) opt =
     (if a = ''--host'' then parse_args as (opt\<lparr>co_host := b\<rparr>)
      else if a = ''--port'' then parse_args as (opt\<lparr>co_port := atoi b\<rparr>)
      else if a = ''--path'' then parse_args as (opt\<lparr>co_path := b\<rparr>)
      else if a = ''--help'' \<or> a = ''-h'' then Inl 0
      else if co_tasks_path opt = [] then parse_args (b # as) (opt\<lparr>co_tasks_path := a\<rparr>) else Inl 1)"

definition cli_options_new :: cli_options where
  "cli_options_new =
     \<lparr>co_host = ''127.0.0.1'', co_port = 8080, co_path = ''/api/capture/start'', co_tasks_path = []\<rparr>"

text \<open>The requests in the order of the tasks: what is printed, and whether all were accepted.\<close>

definition task_line :: "nat \<Rightarrow> TaskRequest \<Rightarrow> string" where
  "task_line i t =
     ''Task '' @ dec_string (Suc i) @ '': '' @ (if tq_summary t = [] then ''(no summary)'' else c_str (tq_summary t)) @ [LF]"

definition task_result :: "json_parser \<Rightarrow> string + HttpResponse \<Rightarrow> string \<times> bool" where
  "task_result parse_json r =
     (case r of
        Inl e \<Rightarrow> (printed ''error'' (c_str e), False)
      | Inr resp \<Rightarrow>
          (''    HTTP '' @ fmt_d 0 (rp_status_code resp) @ [LF] @ summarize_response parse_json resp,
           rp_status_code resp < 400))"

fun submit ::
  "json_parser \<Rightarrow> (nat \<Rightarrow> post_env) \<Rightarrow> cli_options \<Rightarrow> nat \<Rightarrow> TaskRequest list \<Rightarrow> (string \<times> bool) option" where
  "submit parse_json env opt i [] = Some ([], True)"
| "submit parse_json env opt i (t # ts) =
     (case send_http_post (env i) (co_host opt) (co_port opt) (co_path opt) (tq_payload t) of
        None \<Rightarrow> None
      | Some r \<Rightarrow>
          (case submit parse_json env opt (Suc i) ts of
             None \<Rightarrow> None
           | Some (s, ok) \<Rightarrow>
               (case task_result parse_json r of (s1, ok1) \<Rightarrow> Some (task_line i t @ s1 @ s, ok1 \<and> ok))))"

text \<open>Standard output and exit code; usage and errors go to the standard error.\<close>

definition cli_main ::
  "file_map \<Rightarrow> json_parser \<Rightarrow> (string \<Rightarrow> int) \<Rightarrow> (json \<Rightarrow> string) \<Rightarrow> (json \<Rightarrow> int) \<Rightarrow> (nat \<Rightarrow> post_env) \<Rightarrow>
   string list \<Rightarrow> (string \<times> int) option" where
  "cli_main files parse_json offset write_json dbl env argv =
     (if length argv < 2 then Some ([], 1)
      else case parse_args (tl argv) cli_options_new of
             Inl code \<Rightarrow> Some ([], code)
           | Inr opt \<Rightarrow>
               (case files (co_tasks_path opt) of
                  None \<Rightarrow> Some ([], 1)
                | Some s \<Rightarrow>
                    (case parse_tasks parse_json offset write_json dbl s of
                       Inl e \<Rightarrow> Some ([], 1)
                     | Inr [] \<Rightarrow> Some ([], 1)
                     | Inr ts \<Rightarrow>
                         map_option (\<lambda>(out, ok).
                           (''Submitting '' @ dec_string (length ts) @ '' capture task(s) to '' @ c_str (co_host opt) @
                            '':'' @ fmt_d 0 (co_port opt) @ c_str (co_path opt) @ [LF] @ out, if ok then 0 else 1))
                           (submit parse_json env opt 0 ts))))"

end
