(* ===== verification/Cli_Task_Facts.thy ===== *)
theory Cli_Task_Facts
  imports Cli_Client Url_Handlers
begin

text \<open>
  Facts about the tasks of the client: what the payload of a task holds, and the request the server makes
  of it, spelled out over the members of the task.
\<close>

section \<open>The members of the payload\<close>

text \<open>The members are those of a table that have a value.\<close>

definition some_members :: "(string \<times> json option) list \<Rightarrow> (string \<times> json) list" where
  "some_members xs = concat (map (\<lambda>(k, v). case v of None \<Rightarrow> [] | Some j \<Rightarrow> [(k, j)]) xs)"

lemma some_members_append: "some_members xs @ some_members ys = some_members (xs @ ys)"
  by (simp add: some_members_def)

lemma some_members_one: "some_members [(k, v)] = (case v of None \<Rightarrow> [] | Some j \<Rightarrow> [(k, j)])"
  by (simp add: some_members_def)

lemma not_a_member: "k \<notin> set (map fst xs) \<Longrightarrow> map_of (some_members xs) k = None"
  by (force simp: some_members_def map_of_eq_None_iff split: option.splits)

lemma map_of_some_members: "distinct (map fst xs) \<Longrightarrow> map_of (some_members xs) k = Option.bind (map_of xs k) (\<lambda>v. v)"
proof (induction xs)
  case (Cons x xs)
  obtain j v where x: "x = (j, v)" by fastforce
  have "map_of (some_members xs) j = None" using Cons.prems x by (intro not_a_member) simp
  then show ?case using Cons x by (cases v) (auto simp: some_members_def map_add_def split: option.splits)
qed (simp add: some_members_def)

definition text_value :: "string \<Rightarrow> json \<Rightarrow> json option" where
  "text_value key item = (case json_member item key of Some (J_string s) \<Rightarrow> Some (J_string (c_str s)) | _ \<Rightarrow> None)"

definition int_value :: "string \<Rightarrow> json \<Rightarrow> json option" where
  "int_value key item = (case json_member item key of Some (J_int i) \<Rightarrow> Some (J_int (to_int64 i)) | _ \<Rightarrow> None)"

definition filter_value :: "json \<Rightarrow> json option" where
  "filter_value item = (if json_member item ''filter'' = None then text_value ''bpf'' item else text_value ''filter'' item)"

definition target_pid_value :: "json \<Rightarrow> json option" where
  "target_pid_value item = (if json_member item ''pid'' = None then int_value ''target_pid'' item else None)"

lemma to_int64_id: "is_int64 i \<Longrightarrow> to_int64 i = i"
  by (simp add: is_int64_def to_int64_def sint_sbintrunc' signed_take_bit_int_eq_self)

lemma text_field_members:
  "text_field key out note item d = Inr d1 \<Longrightarrow> fst d1 = fst d @ some_members [(out, text_value key item)]"
  by (auto simp: text_field_def text_value_def some_members_one split: option.splits json.splits)

lemma id_field_members: "id_field key item d = Inr d1 \<Longrightarrow> fst d1 = fst d @ some_members [(key, int_value key item)]"
  by (auto simp: id_field_def int_value_def to_int64_id some_members_one split: option.splits json.splits if_splits)

lemma pid_fields_members:
  "pid_fields item d = Inr d1 \<Longrightarrow>
     fst d1 = fst d @ some_members [(''pid'', int_value ''pid'' item), (''target_pid'', target_pid_value item)]"
  by (auto simp: pid_fields_def add_pid_field_def int_value_def target_pid_value_def some_members_def split: option.splits json.splits)

lemma filter_field_members:
  "filter_field item d = Inr d1 \<Longrightarrow> fst d1 = fst d @ some_members [(''filter'', filter_value item)]"
  by (auto simp: filter_field_def filter_value_def dest: text_field_members split: if_splits)

lemma output_fields_members:
  "output_fields item d = Inr d1 \<Longrightarrow>
     fst d1 = fst d @ some_members [(''file'', text_value ''file'' item), (''file_pattern'', text_value ''file_pattern'' item)]"
  by (auto simp: output_fields_def some_members_def dest!: text_field_members elim!: try_then_InrE)

lemma duration_field_members:
  "fst (duration_field dbl item d) = fst d @ some_members [(''duration'', map_option J_int (parse_duration dbl item))]"
  by (simp add: duration_field_def some_members_one split: option.splits)

definition payload_table :: "(json \<Rightarrow> int) \<Rightarrow> json \<Rightarrow> (string \<times> json option) list" where
  "payload_table dbl item =
     [(''capture_id'', int_value ''capture_id'' item), (''id'', int_value ''id'' item), (''sid'', text_value ''sid'' item),
      (''iface'', text_value ''iface'' item), (''duration'', map_option J_int (parse_duration dbl item)),
      (''filter'', filter_value item), (''file'', text_value ''file'' item), (''file_pattern'', text_value ''file_pattern'' item),
      (''category'', text_value ''category'' item), (''priority'', text_value ''priority'' item),
      (''proc_name'', text_value ''proc_name'' item), (''pid'', int_value ''pid'' item), (''target_pid'', target_pid_value item),
      (''protocol'', text_value ''protocol'' item), (''protocol_filter'', text_value ''protocol_filter'' item),
      (''protocol_filter_inline'', text_value ''protocol_filter_inline'' item)]"

definition payload_members :: "(json \<Rightarrow> int) \<Rightarrow> json \<Rightarrow> (string \<times> json) list" where
  "payload_members dbl item = some_members (payload_table dbl item)"

lemma task_fields_members:
  assumes "task_fields dbl item = Inr d"
  shows "fst d = payload_members dbl item"
  using assms unfolding task_fields_def payload_members_def payload_table_def
  by (elim try_then_InrE)
    (simp only: id_field_members text_field_members filter_field_members output_fields_members pid_fields_members
      duration_field_members append_assoc fst_conv append_Nil some_members_append append_Cons)

lemma payload_written:
  assumes "build_task_payload write_json dbl item = Inr t"
  shows "is_object item \<and> tq_payload t = c_str (write_json (J_object (payload_members dbl item)))"
  using assms task_fields_members [of dbl item]
  by (auto simp: build_task_payload_def split: if_splits elim!: try_then_InrE)

text \<open>Looking a member up in the payload.\<close>

lemma payload_lookup: "map_of (payload_members dbl item) k = Option.bind (map_of (payload_table dbl item) k) (\<lambda>v. v)"
  unfolding payload_members_def by (rule map_of_some_members) (simp add: payload_table_def)

lemma payload_text:
  assumes "k \<in> {''iface'', ''proc_name'', ''protocol'', ''protocol_filter'', ''protocol_filter_inline'', ''category'', ''file'', ''file_pattern''}"
  shows "map_of (payload_members dbl item) k = text_value k item"
  using assms by (elim insertE emptyE; simp add: payload_lookup payload_table_def)

lemma payload_filter: "map_of (payload_members dbl item) ''filter'' = filter_value item"
  by (simp add: payload_lookup payload_table_def)

lemma payload_numbers:
  "map_of (payload_members dbl item) ''pid'' = int_value ''pid'' item"
  "map_of (payload_members dbl item) ''target_pid'' = target_pid_value item"
  "map_of (payload_members dbl item) ''duration'' = map_option J_int (parse_duration dbl item)"
  by (simp_all add: payload_lookup payload_table_def)

lemma payload_no_other: "k \<notin> set (map fst (payload_table dbl item)) \<Longrightarrow> map_of (payload_members dbl item) k = None"
  by (simp add: payload_lookup map_of_eq_None_iff [THEN iffD2])

section \<open>The request a task stands for\<close>

text \<open>The text of a member, and a number of 32 bits, when it has one.\<close>

definition text_of :: "string \<Rightarrow> json \<Rightarrow> string option" where
  "text_of key item = (case json_member item key of Some (J_string s) \<Rightarrow> Some (c_str s) | _ \<Rightarrow> None)"

definition small_int :: "int option \<Rightarrow> int option" where
  "small_int i = Option.bind i (\<lambda>n. if is_int32 n then Some n else None)"

definition int64_of :: "string \<Rightarrow> json \<Rightarrow> int option" where
  "int64_of key item = (case json_member item key of Some (J_int i) \<Rightarrow> Some (to_int64 i) | _ \<Rightarrow> None)"

text \<open>
  Field by field: the filter is \<open>filter\<close>, or \<open>bpf\<close> when there is none; the duration is \<open>duration\<close>, or
  \<open>duration_sec\<close> when there is none, a number or a text of digits; \<open>pid\<close> goes before \<open>target_pid\<close>; a process name
  or a positive \<open>pid\<close> selects the mode; \<open>file_pattern\<close> goes before \<open>file\<close>, \<open>protocol_filter\<close> before \<open>protocol\<close>.
  Numbers beyond 32 bits are left out.  All other fields have the values of a new request: the members \<open>mode\<close>,
  \<open>container_id\<close>, \<open>port\<close>, \<open>ip\<close>, \<open>user\<close>, \<open>client_ip\<close>, \<open>max_packets\<close>, \<open>max_bytes\<close> and the other names the
  server has for them are dropped by the client.
\<close>

definition task_pid :: "json \<Rightarrow> int option" where
  "task_pid item = small_int (int64_of (if json_member item ''pid'' = None then ''target_pid'' else ''pid'') item)"

definition task_request :: "CRxProcData \<Rightarrow> (json \<Rightarrow> int) \<Rightarrow> json \<Rightarrow> SRxStartCaptureMsg" where
  "task_request pd dbl item =
     (let proc = text_or [] (text_of ''proc_name'' item);
          pid = (case task_pid item of Some i \<Rightarrow> i | None \<Rightarrow> - 1);
          by_pid = (json_member item ''pid'' \<noteq> None \<and> pid > 0)
      in SRxStartCaptureMsg_new
           \<lparr>rq_capture_mode := (if proc \<noteq> [] then MODE_PROCESS else if by_pid then MODE_PID else MODE_INTERFACE),
            rq_iface := text_or [] (text_of ''iface'' item), rq_proc_name := proc, rq_target_pid := pid,
            rq_filter := text_or [] (text_of (if json_member item ''filter'' = None then ''bpf'' else ''filter'') item),
            rq_protocol_filter := text_or (case text_of ''protocol'' item of Some n \<Rightarrow> protocol_path pd n | None \<Rightarrow> [])
              (text_of ''protocol_filter'' item),
            rq_protocol_filter_inline := text_or [] (text_of ''protocol_filter_inline'' item),
            rq_category := text_or [] (text_of ''category'' item),
            rq_file_pattern := text_or (text_or [] (text_of ''file'' item)) (text_of ''file_pattern'' item),
            rq_duration_sec := (case small_int (parse_duration dbl item) of Some n \<Rightarrow> n | None \<Rightarrow> 60)\<rparr>)"

lemma c_str_twice: "c_str (c_str s) = c_str s"
  by (simp add: c_str_def takeWhile_idem)

lemma payload_take_text:
  assumes "k \<in> {''iface'', ''proc_name'', ''protocol'', ''protocol_filter'', ''protocol_filter_inline'', ''category'', ''file'', ''file_pattern''}"
  shows "take_string (J_object (payload_members dbl item)) k upd x = (case text_of k item of Some s \<Rightarrow> upd s x | None \<Rightarrow> x)"
  using payload_text [OF assms, of dbl item]
  by (simp add: take_string_def text_value_def text_of_def c_str_twice split: option.split json.split)

lemma payload_take_filter:
  "take_string (J_object (payload_members dbl item)) ''filter'' upd x =
     (case text_of (if json_member item ''filter'' = None then ''bpf'' else ''filter'') item of Some s \<Rightarrow> upd s x | None \<Rightarrow> x)"
  by (simp add: take_string_def payload_filter filter_value_def text_value_def text_of_def c_str_twice split: option.split json.split)

lemma payload_take_number:
  "take_int (J_object (payload_members dbl item)) ''pid'' upd x =
     (case small_int (int64_of ''pid'' item) of Some i \<Rightarrow> upd i x | None \<Rightarrow> x)"
  "take_int (J_object (payload_members dbl item)) ''target_pid'' upd x =
     (if json_member item ''pid'' = None then case small_int (int64_of ''target_pid'' item) of Some i \<Rightarrow> upd i x | None \<Rightarrow> x
      else x)"
  "take_int (J_object (payload_members dbl item)) ''duration'' upd x =
     (case small_int (parse_duration dbl item) of Some i \<Rightarrow> upd i x | None \<Rightarrow> x)"
  by (simp_all add: take_int_def payload_numbers small_int_def int64_of_def int_value_def target_pid_value_def
      split: option.split json.split)

definition server_members :: "string list" where
  "server_members =
     [''capture_mode'', ''mode'', ''container_id'', ''port_filter'', ''port'', ''ip_filter'', ''ip'', ''request_user'', ''user'',
      ''client_ip'', ''max_packets'', ''max_bytes'']"

lemma payload_take_dropped:
  assumes "k \<in> set server_members"
  shows "take_string (J_object (payload_members dbl item)) k upd x = x"
    and "take_int (J_object (payload_members dbl item)) k upd2 x = x"
    and "take_int64 (J_object (payload_members dbl item)) k upd2 x = x"
    and "\<not> is_string_member (J_object (payload_members dbl item)) k"
proof -
  have "k \<notin> set (map fst (payload_table dbl item))" using assms by (auto simp: server_members_def payload_table_def)
  from payload_no_other [OF this]
  show "take_string (J_object (payload_members dbl item)) k upd x = x"
    and "take_int (J_object (payload_members dbl item)) k upd2 x = x"
    and "take_int64 (J_object (payload_members dbl item)) k upd2 x = x"
    and "\<not> is_string_member (J_object (payload_members dbl item)) k"
    by (simp_all add: take_string_def take_int_def take_int64_def is_string_member_def)
qed

lemmas payload_takes = payload_take_text payload_take_filter payload_take_number
  payload_take_dropped [unfolded server_members_def]

text \<open>The server makes exactly that request of the payload.\<close>

lemma request_of_payload: "start_request pd (J_object (payload_members dbl item)) = task_request pd dbl item"
proof -
  let ?p = "J_object (payload_members dbl item)"
  have mode: "request_mode ?p m = m" for m
    by (simp add: request_mode_def payload_takes)
  have filters: "request_filters pd ?p m = m
      \<lparr>rq_filter := text_or (rq_filter m) (text_of (if json_member item ''filter'' = None then ''bpf'' else ''filter'') item),
       rq_protocol_filter := text_or (case text_of ''protocol'' item of Some n \<Rightarrow> protocol_path pd n | None \<Rightarrow> rq_protocol_filter m)
         (text_of ''protocol_filter'' item),
       rq_protocol_filter_inline := text_or (rq_protocol_filter_inline m) (text_of ''protocol_filter_inline'' item)\<rparr>" for m
    by (simp add: request_filters_def payload_takes text_or_def split: option.split)
  have limits: "request_limits ?p m = m
      \<lparr>rq_category := text_or (rq_category m) (text_of ''category'' item),
       rq_file_pattern := text_or (text_or (rq_file_pattern m) (text_of ''file'' item)) (text_of ''file_pattern'' item),
       rq_duration_sec := (case small_int (parse_duration dbl item) of Some n \<Rightarrow> n | None \<Rightarrow> rq_duration_sec m)\<rparr>" for m
    by (simp add: request_limits_def payload_takes text_or_def split: option.split)
  have target: "request_target ?p SRxStartCaptureMsg_new =
      (let proc = text_or [] (text_of ''proc_name'' item);
           pid = (case task_pid item of Some i \<Rightarrow> i | None \<Rightarrow> - 1);
           by_pid = (json_member item ''pid'' \<noteq> None \<and> pid > 0)
       in SRxStartCaptureMsg_new
            \<lparr>rq_capture_mode := (if proc \<noteq> [] then MODE_PROCESS else if by_pid then MODE_PID else MODE_INTERFACE),
             rq_iface := text_or [] (text_of ''iface'' item), rq_proc_name := proc, rq_target_pid := pid\<rparr>)"
    by (cases "json_member item ''pid''")
      (auto simp: request_target_def payload_takes text_or_def task_pid_def small_int_def int64_of_def Let_def
        SRxStartCaptureMsg_new_def split: option.split)
  show ?thesis
    unfolding start_request_def task_request_def Let_def mode target filters limits
    by (simp add: SRxStartCaptureMsg_new_def cong: option.case_cong)
qed

end
