(* ===== verification/Cli_Facts.thy ===== *)
theory Cli_Facts
  imports Cli_Task_Facts Http_Conn_Facts Decimal_Facts
begin

text \<open>
  Facts about the client together with the server: the task it makes is the one the capture manager gets, and
  the reply the server writes is the one the client reads.
\<close>

section \<open>First occurrences\<close>

lemma prefix_is_take: "starts_with p s \<longleftrightarrow> take (length p) s = p"
  unfolding starts_with_iff by (metis append_eq_conv_conj append_take_drop_id)

lemma find_str_Some_iff:
  "find_str p s = Some i \<longleftrightarrow>
     i \<le> length s \<and> starts_with p (drop i s) \<and> (\<forall>j < i. \<not> starts_with p (drop j s))"
proof (induction s arbitrary: i)
  case Nil
  then show ?case by (auto simp: starts_with_iff)
next
  case (Cons x s)
  show ?case
  proof (cases i)
    case 0
    then show ?thesis by (auto split: if_splits)
  next
    case (Suc k)
    then show ?thesis using Cons.IH [of k]
      by (auto simp: All_less_Suc2 split: if_splits)
  qed
qed

lemma starts_with_take_iff: "starts_with p (take n s) \<longleftrightarrow> starts_with p s \<and> length p \<le> n"
  by (auto simp: prefix_is_take min_def split: if_splits)

lemma find_str_take:
  assumes "find_str p s = Some i" "p \<noteq> []"
  shows "find_str p (take n s) = (if i + length p \<le> n then Some i else None)"
proof (cases "i + length p \<le> n")
  case True
  then show ?thesis using assms
    by (auto simp: find_str_Some_iff drop_take starts_with_take_iff)
next
  case False
  have "find_str p (take n s) \<noteq> Some j" for j
  proof
    assume j: "find_str p (take n s) = Some j"
    then have "starts_with p (take (n - j) (drop j s))" by (simp add: find_str_Some_iff drop_take)
    then have s: "starts_with p (drop j s)" "length p \<le> n - j" by (simp_all add: starts_with_take_iff)
    then have "i \<le> j" using assms(1) unfolding find_str_Some_iff by (meson not_le)
    then show False using s(2) False assms(2) by (cases p) auto
  qed
  then show ?thesis using False by (cases "find_str p (take n s)") auto
qed

lemma find_str_skip: "p \<noteq> [] \<Longrightarrow> hd p \<notin> set d \<Longrightarrow> find_str p (d @ s) = map_option (\<lambda>i. length d + i) (find_str p s)"
  by (cases "find_str p s"; induction d) (auto simp: neq_Nil_conv)

lemma starts_with_until:
  assumes "c \<notin> set p"
  shows "starts_with p (l @ c # r) \<longleftrightarrow> starts_with p l"
proof
  assume "starts_with p (l @ c # r)"
  then obtain t where t: "l @ c # r = p @ t" by (auto simp: starts_with_iff)
  show "starts_with p l"
  proof (cases "length p \<le> length l")
    case True
    then have "take (length p) l = p" using arg_cong [OF t, of "take (length p)"] by simp
    then show ?thesis by (simp add: prefix_is_take)
  next
    case False
    then have "p ! length l = c" using arg_cong [OF t, of "\<lambda>x. x ! length l"] by (simp add: nth_append)
    then show ?thesis using assms False by (metis not_le nth_mem)
  qed
next
  assume "starts_with p l"
  then show "starts_with p (l @ c # r)" by (auto simp: starts_with_iff)
qed

lemma find_str_skip_line:
  assumes "c \<notin> set p" "p \<noteq> []" "find_str p l = None"
  shows "find_str p (l @ c # r) = map_option (\<lambda>i. Suc (length l) + i) (find_str p r)"
  using assms(3)
proof (induction l)
  case Nil
  have "\<not> starts_with p (c # r)" using starts_with_until [OF assms(1), of "[]" r] assms(2) by (simp add: starts_with_iff)
  then show ?case by simp
next
  case (Cons x l)
  then have "\<not> starts_with p (x # l)" "find_str p l = None" by (auto split: if_splits)
  then show ?case using Cons.IH starts_with_until [OF assms(1), of "x # l" r]
    by (cases "find_str p r") simp_all
qed

section \<open>Lines\<close>

definition unlines :: "string list \<Rightarrow> string" where
  "unlines ls = concat (map (\<lambda>l. l @ CRLF) ls)"

definition plain_line :: "string \<Rightarrow> bool" where
  "plain_line l \<longleftrightarrow> CR \<notin> set l \<and> NUL \<notin> set l"

lemma find_CRLF: "CR \<notin> set l \<Longrightarrow> find_str CRLF (l @ CRLF @ r) = Some (length l)"
  by (subst find_str_skip) (auto simp: CRLF_def starts_with_iff)

lemma split_pieces_unlines: "\<forall>l \<in> set ls. plain_line l \<Longrightarrow> split_pieces CR [LF] (unlines ls) = (ls, [])"
proof (induction ls)
  case Nil
  then show ?case by (simp add: unlines_def split_pieces.simps)
next
  case (Cons l ls)
  have "find_str (CR # [LF]) (unlines (l # ls)) = Some (length l)"
    using find_CRLF [of l "unlines ls"] Cons.prems by (simp add: unlines_def plain_line_def CRLF_def)
  moreover have "drop (length l + 2) (unlines (l # ls)) = unlines ls" "take (length l) (unlines (l # ls)) = l"
    by (simp_all add: unlines_def CRLF_def)
  ultimately show ?case using Cons by (subst split_pieces.simps) simp
qed

lemma split_lines: "\<forall>l \<in> set ls. plain_line l \<Longrightarrow> split_all CR [LF] (unlines ls) = ls"
  by (simp add: split_all_def split_pieces_unlines)

text \<open>The empty line is the first place of two line ends.\<close>

lemma find_CRLF2:
  assumes "ls \<noteq> []" "\<forall>l \<in> set ls. plain_line l \<and> l \<noteq> []"
  shows "find_str CRLF2 (unlines ls @ CRLF @ r) = Some (length (unlines ls) - 2)"
  using assms
proof (induction ls)
  case (Cons l ls)
  have l: "CR \<notin> set l" using Cons.prems(2) by (simp add: plain_line_def)
  show ?case
  proof (cases "ls = []")
    case True
    have "find_str CRLF2 (l @ CRLF2 @ r) = Some (length l)"
      using l by (subst find_str_skip) (auto simp: CRLF2_def CRLF_def starts_with_iff)
    then show ?thesis using True by (simp add: unlines_def CRLF2_def CRLF_def)
  next
    case False
    then obtain x xs where ls: "ls = x # xs" by (cases ls) auto
    then obtain a as where x: "x = a # as" "a \<noteq> CR" using Cons.prems(2) by (cases x) (auto simp: plain_line_def)
    let ?rest = "unlines ls @ CRLF @ r"
    have "\<exists>t. ?rest = a # t" using ls x by (simp add: unlines_def)
    then obtain t where t: "?rest = a # t" by blast
    have cr: "LF \<noteq> CR" by (simp add: CR_def LF_def)
    have "find_str CRLF2 (l @ CR # LF # ?rest) = map_option (\<lambda>i. length l + i) (find_str CRLF2 (CR # LF # ?rest))"
      using l by (subst find_str_skip) (auto simp: CRLF2_def CRLF_def)
    also have "find_str CRLF2 (CR # LF # ?rest) = map_option (\<lambda>i. i + 2) (find_str CRLF2 ?rest)"
      using x(2) cr unfolding t by (simp add: CRLF2_def CRLF_def prefix_is_take option.map_comp comp_def)
    also have "find_str CRLF2 ?rest = Some (length (unlines ls) - 2)" using Cons False by simp
    finally show ?thesis using ls x by (simp add: unlines_def CRLF_def)
  qed
qed simp

section \<open>The request of the client\<close>

lemma digit_differs:
  "isdigit c \<Longrightarrow> c \<noteq> CR \<and> c \<noteq> NUL \<and> c \<noteq> CHR '' '' \<and> c \<noteq> CHR ''-'' \<and> c \<noteq> CHR ''C'' \<and> c \<noteq> CHR '':'' \<and> \<not> isspace c \<and> c \<noteq> CHR ''+''"
  by (auto simp: isdigit_def CR_def NUL_def isspace_def)

lemma dec_string_plain: "plain_line (dec_string n)" "plain_line (take k (dec_string n))"
  using dec_digits digit_differs unfolding plain_line_def by (blast dest: in_set_takeD)+

lemma fmt_d_plain: "plain_line (fmt_d 0 v)"
proof -
  have "plain_line (x @ y)" if "plain_line x" "plain_line y" for x y using that by (auto simp: plain_line_def)
  then show ?thesis using dec_string_plain(1) by (simp add: fmt_d_def Let_def plain_line_def CR_def NUL_def)
qed

definition request_lines :: "string \<Rightarrow> int \<Rightarrow> string \<Rightarrow> string \<Rightarrow> string list" where
  "request_lines host port path payload =
     [''POST '' @ normalized_path path @ '' HTTP/1.1'',
      ''Host: '' @ host @ '':'' @ snprintf 16 (fmt_d 0 port),
      ''Content-Type: application/json'', ''Connection: close'',
      ''Content-Length: '' @ snprintf 64 (dec_string (length payload))]"

lemma http_request_lines: "http_request host port path payload = (unlines (request_lines host port path payload) @ CRLF) @ payload"
  by (simp add: http_request_def request_lines_def unlines_def CRLF2_def)

definition sendable :: "string \<Rightarrow> string \<Rightarrow> bool" where
  "sendable host path \<longleftrightarrow> plain_line host \<and> plain_line path \<and> CHR '' '' \<notin> set path"

lemma normalized_plain: "sendable host path \<Longrightarrow> plain_line (normalized_path path) \<and> CHR '' '' \<notin> set (normalized_path path)"
  by (auto simp: sendable_def normalized_path_def plain_line_def CR_def NUL_def)

lemma plain_append [simp]: "plain_line (x @ y) \<longleftrightarrow> plain_line x \<and> plain_line y"
  by (auto simp: plain_line_def)

lemma plain_Cons [simp]: "plain_line (c # y) \<longleftrightarrow> c \<noteq> CR \<and> c \<noteq> NUL \<and> plain_line y"
  by (auto simp: plain_line_def)

lemma plain_Nil [simp]: "plain_line []"
  by (simp add: plain_line_def)

lemma request_lines_plain:
  assumes "sendable host path"
  shows "\<forall>l \<in> set (request_lines host port path payload). plain_line l \<and> l \<noteq> []"
proof -
  have "plain_line (snprintf n (fmt_d 0 v))" for n v using fmt_d_plain [of v]
    unfolding snprintf_def plain_line_def by (blast dest: in_set_takeD)
  moreover have "plain_line (snprintf n (dec_string k))" for n k using dec_string_plain(2) by (simp add: snprintf_def)
  ultimately show ?thesis using assms normalized_plain [OF assms]
    by (simp add: request_lines_def sendable_def CR_def NUL_def)
qed

lemma c_str_plain: "NUL \<notin> set s \<Longrightarrow> c_str s = s"
  by (auto simp: c_str_def takeWhile_eq_all_conv)

lemma NUL_unlines: "\<forall>l \<in> set ls. plain_line l \<Longrightarrow> NUL \<notin> set (unlines ls)"
  by (induction ls) (auto simp: unlines_def plain_line_def CRLF_def CR_def LF_def NUL_def)

text \<open>What the server makes of the head.\<close>

definition client_req :: "string \<Rightarrow> int \<Rightarrow> string \<Rightarrow> string \<Rightarrow> http_req_head_para" where
  "client_req host port path payload =
     \<lparr>rh_method = ''POST'', rh_url_path = normalized_path path, rh_version = ''HTTP/1.1'',
      rh_headers = [(''Connection'', '' close''), (''Content-Length'', '' '' @ snprintf 64 (dec_string (length payload))),
        (''Content-Type'', '' application/json''), (''Host'', '' '' @ host @ '':'' @ snprintf 16 (fmt_d 0 port))],
      rh_cookie_list = []\<rparr>"

lemma split_words_of_first_line:
  assumes "CHR '' '' \<notin> set p" "p \<noteq> []"
  shows "split_all (CHR '' '') [] (''POST '' @ p @ '' HTTP/1.1'') = [''POST'', p, ''HTTP/1.1'']"
proof -
  have a: "find_str '' '' (p @ '' HTTP/1.1'') = Some (length p)"
    using assms(1) by (subst find_str_skip) (auto simp: prefix_is_take)
  have "split_pieces (CHR '' '') [] (p @ '' HTTP/1.1'') = ([p], ''HTTP/1.1'')"
    using a by (subst split_pieces.simps) (simp add: split_pieces.simps)
  then have "split_pieces (CHR '' '') [] (''POST '' @ p @ '' HTTP/1.1'') = ([''POST'', p], ''HTTP/1.1'')"
    by (subst split_pieces.simps) simp
  then show ?thesis by (simp add: split_all_def)
qed

lemma first_line_read:
  assumes "sendable host path"
  shows "parse_first_line (''POST '' @ normalized_path path @ '' HTTP/1.1'') h =
    Inr (h\<lparr>rh_method := ''POST'', rh_version := ''HTTP/1.1'', rh_url_path := normalized_path path\<rparr>)"
proof -
  have "NUL \<notin> set (''POST '' @ normalized_path path @ '' HTTP/1.1'')"
    using normalized_plain [OF assms] by (simp add: plain_line_def NUL_def)
  then have "c_str (''POST '' @ normalized_path path @ '' HTTP/1.1'') = ''POST '' @ normalized_path path @ '' HTTP/1.1''"
    by (rule c_str_plain)
  moreover have "normalized_path path \<noteq> []" by (simp add: normalized_path_def)
  ultimately show ?thesis using split_words_of_first_line normalized_plain [OF assms]
    by (simp add: parse_first_line_def)
qed

lemma header_read:
  assumes "CHR '':'' \<notin> set k" "plain_line k" "plain_line v" "v \<noteq> []"
  shows "add_header_line (k @ '':'' @ v) h = h\<lparr>rh_headers := sm_insert k v (rh_headers h)\<rparr>"
proof -
  have "c_str (k @ '':'' @ v) = k @ '':'' @ v"
    using assms(2,3) by (intro c_str_plain) (auto simp: plain_line_def NUL_def)
  moreover have "find_str '':'' (k @ '':'' @ v) = Some (length k)"
    using assms(1) by (subst find_str_skip) (auto simp: prefix_is_take)
  ultimately have "split_one '':'' (c_str (k @ '':'' @ v)) = [k, v]" using assms(4) by (simp add: split_one_def)
  then show ?thesis by (simp only: add_header_line_def list.case)
qed

lemma request_head_split:
  assumes "sendable host path"
  shows "split_all CR [LF] (c_str (unlines (request_lines host port path payload) @ CRLF)) =
    request_lines host port path payload @ [[]]"
proof -
  let ?ls = "request_lines host port path payload @ [[]]"
  have plain: "\<forall>l \<in> set ?ls. plain_line l" using request_lines_plain [OF assms] by auto
  have "unlines (request_lines host port path payload) @ CRLF = unlines ?ls" by (simp add: unlines_def)
  then show ?thesis using split_lines [OF plain] c_str_plain [OF NUL_unlines [OF plain]] by simp
qed

lemma empty_header_line: "add_header_line [] h = h"
  by (simp add: add_header_line_def c_str_Nil split_one_def)

lemma request_headers_read:
  assumes "sendable host path"
  shows "parse_lines (request_lines host port path payload @ [[]]) http_req_head_para_new = Inr (client_req host port path payload)"
proof -
  have plain: "plain_line (snprintf n (fmt_d 0 v))" "plain_line (snprintf n (dec_string k))" "plain_line host" for n v k
    using assms fmt_d_plain [of v] dec_string_plain(2) unfolding snprintf_def plain_line_def sendable_def
    by (blast dest: in_set_takeD)+
  let ?h = "\<lambda>l. add_header_line l"
  have host: "add_header_line (''Host: '' @ host @ '':'' @ snprintf 16 (fmt_d 0 port)) h =
      h\<lparr>rh_headers := sm_insert ''Host'' ('' '' @ host @ '':'' @ snprintf 16 (fmt_d 0 port)) (rh_headers h)\<rparr>" for h
    using header_read [of "''Host''" "'' '' @ host @ '':'' @ snprintf 16 (fmt_d 0 port)" h] plain by (simp add: CR_def NUL_def)
  have type: "add_header_line ''Content-Type: application/json'' h =
      h\<lparr>rh_headers := sm_insert ''Content-Type'' '' application/json'' (rh_headers h)\<rparr>" for h
    using header_read [of "''Content-Type''" "'' application/json''" h] by (simp add: CR_def NUL_def)
  have conn: "add_header_line ''Connection: close'' h =
      h\<lparr>rh_headers := sm_insert ''Connection'' '' close'' (rh_headers h)\<rparr>" for h
    using header_read [of "''Connection''" "'' close''" h] by (simp add: CR_def NUL_def)
  have len: "add_header_line (''Content-Length: '' @ snprintf 64 (dec_string (length payload))) h =
      h\<lparr>rh_headers := sm_insert ''Content-Length'' ('' '' @ snprintf 64 (dec_string (length payload))) (rh_headers h)\<rparr>" for h
    using header_read [of "''Content-Length''" "'' '' @ snprintf 64 (dec_string (length payload))" h] plain
    by (simp add: CR_def NUL_def)
  show ?thesis
    using first_line_read [OF assms, of http_req_head_para_new]
    unfolding parse_lines_def request_lines_def append_Cons append_Nil list.case
    by (simp add: host [simplified] type conn len [simplified] empty_header_line sm_insert_def client_req_def http_req_head_para_new_def)
qed

text \<open>No header of the client is a cookie or announces a multipart body.\<close>

lemma client_request_parsed:
  assumes "sendable host path"
  shows "parse_header (unlines (request_lines host port path payload) @ CRLF) (http_req_head_para_new, boundary_para_init) =
    Inr (client_req host port path payload, boundary_para_init)"
proof -
  have "get_header ''Cookie'' (client_req host port path payload) = None"
    by (simp add: get_header_def client_req_def find_case_def c_str_def NUL_def tolower_def isupper_def char_of_def bit_0)
  then have "add_cookies (client_req host port path payload) = client_req host port path payload" by (simp add: add_cookies_def)
  moreover have "get_header ''Content-Type'' (client_req host port path payload) = Some '' application/json''"
    by (simp add: get_header_def client_req_def find_case_def c_str_def NUL_def tolower_def isupper_def char_of_def bit_0)
  then have "boundary_of (client_req host port path payload) boundary_para_init = boundary_para_init"
    by (simp add: boundary_of_def find_case_def c_str_def NUL_def tolower_def isupper_def char_of_def bit_0)
  ultimately show ?thesis using request_headers_read [OF assms]
    by (simp add: parse_header_def request_head_split [OF assms])
qed

definition request_head :: "string \<Rightarrow> int \<Rightarrow> string \<Rightarrow> string \<Rightarrow> string" where
  "request_head host port path payload = unlines (request_lines host port path payload) @ CRLF"

lemma request_head_long: "length (request_head host port path payload) \<ge> 4"
  by (simp add: request_head_def unlines_def request_lines_def)

lemma c_str_append: "NUL \<notin> set s \<Longrightarrow> c_str (s @ t) = s @ c_str t"
  by (induction s) (auto simp: c_str_def)

lemma client_segment:
  assumes "sendable host path" "length (http_request host port path payload) \<le> MAX_RECV_SIZE"
    and "hc_req c = http_req_head_para_new" "hc_boundary c = boundary_para_init"
  shows "segment_request (request_head host port path payload) payload (client_req host port path payload) c"
proof -
  let ?ls = "request_lines host port path payload"
  have plain: "\<forall>l \<in> set ?ls. plain_line l \<and> l \<noteq> []" using assms(1) by (rule request_lines_plain)
  then have "NUL \<notin> set (unlines ?ls @ CRLF)" using NUL_unlines [of ?ls] by (auto simp: CRLF_def CR_def LF_def NUL_def)
  then have "c_str (request_head host port path payload @ payload) = unlines ?ls @ CRLF @ c_str payload"
    using c_str_append unfolding request_head_def by fastforce
  moreover have "length (request_head host port path payload) - 4 = length (unlines ?ls) - 2"
    by (simp add: request_head_def CRLF_def)
  ultimately have "find_str CRLF2 (c_str (request_head host port path payload @ payload)) =
      Some (length (request_head host port path payload) - 4)"
    using find_CRLF2 [of ?ls "c_str payload"] plain by (simp add: request_lines_def)
  moreover have "length (request_head host port path payload @ payload) \<le> MAX_RECV_SIZE"
    using assms(2) by (simp add: http_request_lines request_head_def)
  moreover have "parse_header (request_head host port path payload) (hc_req c, hc_boundary c) =
      Inr (client_req host port path payload, boundary_para_init)"
    using client_request_parsed [OF assms(1)] assms(3,4) by (simp add: request_head_def)
  ultimately show ?thesis using request_head_long
    by (auto simp: segment_request_def boundary_para_init_def simp del: length_append)
qed

section \<open>From the client to the capture manager\<close>

lemma client_req_simps [simp]:
  "rh_method (client_req host port path payload) = ''POST''" "rh_url_path (client_req host port path payload) = normalized_path path"
  by (simp_all add: client_req_def)


text \<open>A task with names of the guide, and one member the client drops.\<close>

definition sample_client_task :: json where
  "sample_client_task =
     J_object [(''iface'', J_string ''lo''), (''bpf'', J_string ''udp''), (''duration_sec'', J_int 30), (''port'', J_int 53)]"

definition sample_client_text :: string where
  "sample_client_text = ''{iface: lo, duration: 30, filter: udp}''"


text \<open>
  The usage tells to stop a capture with a task file that holds its id; the handler looks at the URL only, so
  every such request is refused and nothing is sent to the capture manager.
\<close>

lemma client_stop_refused:
  assumes "starts_with ''/api/capture/stop'' path" "CHR ''?'' \<notin> set path"
  shows "url_perform env pd H_capture_api (client_req host port path payload) payload i res =
    Inr (set_error_response 400 ''Missing capture identifier'' res)"
proof -
  have path: "normalized_path path = path" "\<not> starts_with ''/api/capture/start'' path"
    using assms(1) by (auto simp: normalized_path_def starts_with_iff)
  have "find_char (CHR ''?'') path = None" using assms(2) by (induction path) auto
  then have "parse_query_params path = Map.empty" by (simp add: parse_query_params_def)
  then show ?thesis using assms(1) path
    by (simp add: url_perform_def capture_api_perform_def handle_stop_def int_param_def text_or_def Let_def)
qed

end
