(* ===== verification/Cli_Reply_Facts.thy ===== *)
theory Cli_Reply_Facts
  imports Cli_Facts
begin

text \<open>
  Facts about the reply: the client reads back the status and the body the server wrote, however the bytes are
  cut, and does not wait for the end of the connection.
\<close>

section \<open>The status\<close>

lemma status_digits:
  assumes "0 \<le> status" "status < 2 ^ 31"
  shows "snprintf 32 (fmt_d 0 status) = dec_string (nat status)" "atoi (c_str (dec_string (nat status))) = status"
proof -
  have "nat status < 10 ^ Suc 9" using assms by simp
  from dec_string_short [OF this] have "length (dec_string (nat status)) \<le> 31" by simp
  then show "snprintf 32 (fmt_d 0 status) = dec_string (nat status)" using assms(1) by (simp add: snprintf_def fmt_d_def)
  have "c_str (dec_string (nat status)) = dec_string (nat status)"
    using dec_string_plain(1) by (intro c_str_plain) (simp add: plain_line_def)
  then show "atoi (c_str (dec_string (nat status))) = status"
    using strtol_dec [of "nat status"] assms by (simp add: atoi_def to_int32_id)
qed

section \<open>The head of the reply\<close>

definition reply_headers :: "str_map \<Rightarrow> bool" where
  "reply_headers hs \<longleftrightarrow>
     hs = [(''Content-Type'', ''application/json'')] \<or>
     (\<exists>v. plain_line v \<and> hs = [(''Content-Type'', ''application/json''), (''X-Debug-QueueMs'', v)])"

definition reply_head :: "int \<Rightarrow> string \<Rightarrow> str_map \<Rightarrow> nat \<Rightarrow> string" where
  "reply_head status reason hs n = to_head_str (fill_response_headers status reason hs n http_res_head_para_new)"

definition status_text :: "int \<Rightarrow> string \<Rightarrow> string" where
  "status_text status reason =
     ''HTTP/1.1 '' @ dec_string (nat status) @ '' '' @ (if reason = [] then [] else get_response_str status)"

definition header_texts :: "str_map \<Rightarrow> string list" where
  "header_texts hs = map (\<lambda>(k, v). k @ '': '' @ v) hs"

lemma header_lines_unlines: "header_lines hs = unlines (header_texts hs)"
  by (induction hs rule: header_lines.induct) (simp_all add: unlines_def header_texts_def)

lemma headers_in_order:
  assumes "reply_headers hs"
  shows "sm_put ''Connection'' ''close'' (sm_put ''Content-Length'' v (fold (\<lambda>(k, v). sm_insert k v) hs [])) =
    (''Connection'', ''close'') # (''Content-Length'', v) # hs"
  using assms by (auto simp: reply_headers_def sm_insert_def)

lemma reply_head_lines:
  assumes "0 \<le> status" "status < 2 ^ 31" "reply_headers hs"
  shows "reply_head status reason hs n =
    unlines (status_text status reason # ''Connection: close'' # (''Content-Length: '' @ dec_string n) # header_texts hs) @ CRLF"
proof -
  have "to_head_str h = (rs_version h @ '' '' @ snprintf 32 (fmt_d 0 (rs_response_code h)) @ '' '' @
      (if rs_response_str h = [] then [] else get_response_str (rs_response_code h)) @ CRLF @ header_lines (rs_headers h)) @ CRLF"
    for h by (simp add: to_head_str_def with_reason_def Let_def)
  then show ?thesis
    using headers_in_order [OF assms(3), of "dec_string n"] status_digits(1) [OF assms(1,2)]
    by (simp add: reply_head_def fill_response_headers_def http_res_head_para_new_def header_lines_unlines unlines_def status_text_def
        header_texts_def)
qed

lemma reason_plain: "plain_line (get_response_str status) \<and> CHR '':'' \<notin> set (get_response_str status)"
  by (simp add: get_response_str_def response_list_def CR_def NUL_def)

lemma status_text_plain: "plain_line (status_text status reason) \<and> CHR '':'' \<notin> set (status_text status reason)"
  using reason_plain [of status] dec_string_plain(1) dec_digits [of "CHR '':''" "nat status"]
  by (auto simp: status_text_def CR_def NUL_def isdigit_def)

lemma header_texts_plain: "reply_headers hs \<Longrightarrow> \<forall>l \<in> set (header_texts hs). plain_line l \<and> l \<noteq> []"
  by (auto simp: reply_headers_def header_texts_def CR_def NUL_def)

lemma reply_lines_plain:
  assumes "reply_headers hs"
  shows "\<forall>l \<in> set (status_text status reason # ''Connection: close'' # (''Content-Length: '' @ dec_string n) # header_texts hs).
    plain_line l \<and> l \<noteq> []"
  using header_texts_plain [OF assms] status_text_plain dec_string_plain(1) by (simp add: status_text_def CR_def NUL_def)

text \<open>Where the client finds the end of the head, and the length.\<close>

lemma reply_head_end:
  assumes "0 \<le> status" "status < 2 ^ 31" "reply_headers hs"
  shows "find_str CRLF2 (reply_head status reason hs n @ b) = Some (length (reply_head status reason hs n) - 4)"
    "length (reply_head status reason hs n) \<ge> 4"
proof -
  let ?ls = "status_text status reason # ''Connection: close'' # (''Content-Length: '' @ dec_string n) # header_texts hs"
  show "find_str CRLF2 (reply_head status reason hs n @ b) = Some (length (reply_head status reason hs n) - 4)"
    using find_CRLF2 [OF _ reply_lines_plain [OF assms(3), of status reason n], of b]
    by (simp add: reply_head_lines [OF assms] CRLF_def)
  show "length (reply_head status reason hs n) \<ge> 4" by (simp add: reply_head_lines [OF assms] unlines_def)
qed

lemma find_str_absent: "c \<in> set p \<Longrightarrow> c \<notin> set s \<Longrightarrow> find_str p s = None"
  using find_str_infix [of p s] by auto

lemma content_length_place:
  assumes "CHR '':'' \<notin> set st"
  shows "find_str ''Content-Length:'' (unlines [st, ''Connection: close''] @ ''Content-Length: '' @ t) =
    Some (length (unlines [st, ''Connection: close'']))"
proof -
  have cr: "CR \<notin> set ''Content-Length:''" by (simp add: CR_def)
  have none: "find_str ''Content-Length:'' st = None" "find_str ''Content-Length:'' (LF # ''Connection: close'') = None"
    using find_str_absent [of "CHR '':''" "''Content-Length:''" st] assms by (simp_all add: LF_def)
  have "find_str ''Content-Length:'' (LF # ''Content-Length: '' @ t) = Some 1" by (simp add: LF_def)
  then have "find_str ''Content-Length:'' ((LF # ''Connection: close'') @ CR # (LF # ''Content-Length: '' @ t)) = Some 20"
    using find_str_skip_line [OF cr _ none(2), of "LF # ''Content-Length: '' @ t"] by simp
  then show ?thesis
    using find_str_skip_line [OF cr _ none(1), of "(LF # ''Connection: close'') @ CR # (LF # ''Content-Length: '' @ t)"]
    by (simp add: unlines_def CRLF_def)
qed

lemma response_total_read:
  assumes "CHR '':'' \<notin> set st" "int n < 2 ^ 63"
    and "h \<ge> length (unlines [st, ''Connection: close'', ''Content-Length: '' @ dec_string n])"
  shows "response_total (unlines [st, ''Connection: close'', ''Content-Length: '' @ dec_string n] @ t) h = Some (h + n)"
proof -
  let ?pre = "unlines [st, ''Connection: close'']" and ?d = "dec_string n"
  let ?out = "?pre @ ''Content-Length: '' @ ?d @ CRLF @ t"
  obtain c cs where c: "?d = c # cs" by (cases "?d") auto
  have d: "CR \<notin> set ?d" "CR \<notin> set (''Content-Length: '' @ ?d)" "c \<noteq> CHR '' ''"
    using dec_string_plain(1) [of n] dec_digits [of c n] digit_differs [of c] c by (auto simp: plain_line_def CR_def)
  have cl: "find_str ''Content-Length:'' ?out = Some (length ?pre)" using content_length_place [OF assms(1)] by simp
  have e: "find_str CRLF (drop (length ?pre) ?out) = Some (16 + length ?d)"
    using find_CRLF [OF d(2), of t] by simp
  have v: "dropWhile (\<lambda>c. c = CHR '' '') (drop (length ?pre + 15) ?out) = ?d @ CRLF @ t" using c d(3) by simp
  have "c_str ?d = ?d" using dec_string_plain(1) [of n] by (intro c_str_plain) (simp add: plain_line_def)
  then have num: "fst (strtol 10 (c_str ?d)) = int n" using strtol_dec [OF assms(2)] by simp
  have h: "length ?pre + (16 + length ?d) \<le> h" using assms(3) by (simp add: unlines_def)
  have "response_total ?out h = Some (h + n)"
    using cl e v num h unfolding response_total_def by (simp add: Let_def CRLF_def)
  then show ?thesis by (simp add: unlines_def)
qed

section \<open>Reading the reply\<close>

fun got_bytes :: "recv_result \<Rightarrow> string" where
  "got_bytes (Got s) = s"
| "got_bytes _ = []"

definition bytes_or_interrupted :: "recv_result \<Rightarrow> bool" where
  "bytes_or_interrupted r \<longleftrightarrow> r = Interrupted \<or> (\<exists>s. r = Got s \<and> s \<noteq> [])"

text \<open>The loop knows the length as soon as the head is there, and stops at it.\<close>

lemma recv_all_reads:
  assumes "\<And>m. find_str CRLF2 (take m w) = (if h \<le> m then Some (h - 4) else None)" "4 \<le> h"
    and "\<And>m. h \<le> m \<Longrightarrow> response_total (take m w) h = Some (length w)"
    and "\<forall>r \<in> set rs. bytes_or_interrupted r" "out @ concat (map got_bytes rs) = w" "out \<noteq> w"
    and "(head_end, expected) = (if h \<le> length out then (Some h, Some (length w)) else (None, None))"
  shows "recv_all out head_end expected (rs @ later) = Received w"
  using assms(4-7)
proof (induction rs arbitrary: out head_end expected)
  case (Cons r rs)
  consider "r = Interrupted" | s where "r = Got s" "s \<noteq> []" using Cons.prems(1) by (auto simp: bytes_or_interrupted_def)
  then show ?case
  proof cases
    case 1
    then show ?thesis using Cons by simp
  next
    case 2
    let ?out = "out @ s"
    have pre: "?out = take (length ?out) w" "length ?out \<le> length w" using Cons.prems(2) 2(1) by auto
    have next_state: "(case head_end of Some k \<Rightarrow> (head_end, expected)
        | None \<Rightarrow> (case find_str CRLF2 ?out of None \<Rightarrow> (None, expected) | Some p \<Rightarrow> (Some (p + 4), response_total ?out (p + 4)))) =
        (if h \<le> length ?out then (Some h, Some (length w)) else (None, None))"
    proof (cases "h \<le> length out")
      case True
      then show ?thesis using Cons.prems(4) by simp
    next
      case False
      have "find_str CRLF2 ?out = (if h \<le> length ?out then Some (h - 4) else None)" by (subst pre(1)) (rule assms(1))
      moreover have "response_total ?out h = Some (length w)" if "h \<le> length ?out" by (subst pre(1)) (rule assms(3) [OF that])
      ultimately show ?thesis using False Cons.prems(4) assms(2) by simp
    qed
    have "recv_all out head_end expected ((r # rs) @ later) =
        (case (if h \<le> length ?out then (Some h, Some (length w)) else (None, None)) of (head1, total1) \<Rightarrow>
           (case total1 of
              Some t \<Rightarrow> if t \<le> length ?out then Received ?out else recv_all ?out head1 total1 (rs @ later)
            | None \<Rightarrow> recv_all ?out head1 total1 (rs @ later)))"
      by (simp only: 2(1) append_Cons recv_all.simps Let_def next_state)
    then have run: "recv_all out head_end expected ((r # rs) @ later) =
        (if h \<le> length ?out
         then if length w \<le> length ?out then Received ?out else recv_all ?out (Some h) (Some (length w)) (rs @ later)
         else recv_all ?out None None (rs @ later))" by simp
    show ?thesis
    proof (cases "?out = w")
      case True
      then have "h \<le> length w" using assms(1) [of "length w"] assms(1) [of "length w + h"] by (auto split: if_splits)
      then show ?thesis using True unfolding run by simp
    next
      case False
      then have "length ?out < length w" using pre by (metis le_neq_implies_less take_all_iff order_refl)
      moreover have "recv_all ?out head1 total1 (rs @ later) = Received w"
        if "(head1, total1) = (if h \<le> length ?out then (Some h, Some (length w)) else (None, None))" for head1 total1
        using Cons.IH [of ?out head1 total1] Cons.prems(1,2) 2(1) False that by simp
      ultimately show ?thesis unfolding run by simp
    qed
  qed
qed simp

lemma reply_prefix:
  assumes "reply_headers hs" "0 \<le> status" "status < 2 ^ 31"
  shows "find_str CRLF2 (take m (reply_head status reason hs n @ b)) =
    (if length (reply_head status reason hs n) \<le> m then Some (length (reply_head status reason hs n) - 4) else None)"
proof -
  let ?h = "reply_head status reason hs n"
  have "length ?h - 4 + length CRLF2 = length ?h" "CRLF2 \<noteq> []"
    using reply_head_end(2) [OF assms(2,3,1), of reason n] by (simp_all add: CRLF2_def CRLF_def)
  then show ?thesis using find_str_take [OF reply_head_end(1) [OF assms(2,3,1), of reason n b], of m] by simp
qed

lemma reply_total:
  assumes "reply_headers hs" "0 \<le> status" "status < 2 ^ 31" "int n < 2 ^ 63"
  shows "response_total (reply_head status reason hs n @ t) (length (reply_head status reason hs n)) =
    Some (length (reply_head status reason hs n) + n)"
  using response_total_read [of "status_text status reason" n "length (reply_head status reason hs n)" "unlines (header_texts hs) @ CRLF @ t"]
    status_text_plain assms
  by (simp add: reply_head_lines unlines_def)

lemma reply_parsed:
  assumes "reply_headers hs" "0 \<le> status" "status < 2 ^ 31"
  shows "parse_response (reply_head status reason hs n @ body) =
    Inr \<lparr>rp_status_code = status, rp_body = body, rp_raw = reply_head status reason hs n @ body\<rparr>"
proof -
  let ?w = "reply_head status reason hs n @ body" and ?st = "status_text status reason"
  have "CR \<notin> set ?st" using status_text_plain by (auto simp: plain_line_def)
  moreover define t where "t = unlines (''Connection: close'' # (''Content-Length: '' @ dec_string n) # header_texts hs) @ CRLF @ body"
  have w: "?w = ?st @ CRLF @ t" by (simp add: reply_head_lines [OF assms(2,3,1)] unlines_def t_def)
  ultimately have line_end: "find_str CRLF ?w = Some (length ?st)" using find_CRLF [of ?st t] w by simp
  have no_space: "CHR '' '' \<notin> set (dec_string (nat status))" using dec_digits digit_differs by blast
  have char: "find_char (CHR '' '') (d @ CHR '' '' # r) = Some (length d)" if "CHR '' '' \<notin> set d" for d r
    using that by (induction d) auto
  have "find_char (CHR '' '') ?st = Some 8" using char [of "''HTTP/1.1''"] by (simp add: status_text_def)
  then have "status_code_text ?st = Some (dec_string (nat status))"
    using char [OF no_space] by (simp add: status_code_text_def status_text_def starts_with_iff)
  moreover have "take (length ?st) ?w = ?st" unfolding w by simp
  ultimately show ?thesis
    using line_end reply_head_end [OF assms(2,3,1), of reason n] status_digits(2) [OF assms(2,3)]
    by (simp add: parse_response_def)
qed

text \<open>
  C14. The client reads the reply the server writes.  However the bytes of the reply are cut into pieces, and
  whatever interrupts the calls, the client stops when the last byte is there, without waiting for the server
  to close the connection, and gets the status and exactly the body.
\<close>

theorem client_reads_reply:
  assumes "w = to_head_str (fill_response_headers status reason hs (length body) http_res_head_para_new) @ body"
    and "reply_headers hs" "0 \<le> status" "status < 2 ^ 31" "int (length body) < 2 ^ 63"
    and "\<forall>r \<in> set rs. bytes_or_interrupted r" "concat (map got_bytes rs) = w" "pe_recv env = rs @ later"
    and "pe_lookup_error env = None" "pe_connected env" "send_all 0 (length (http_request host port path payload)) (pe_send env) = Some True"
  shows "send_http_post env host port path payload = Some (Inr \<lparr>rp_status_code = status, rp_body = body, rp_raw = w\<rparr>)"
proof -
  let ?h = "reply_head status reason hs (length body)"
  have w: "w = ?h @ body" using assms(1) by (simp add: reply_head_def)
  have long: "4 \<le> length ?h" by (rule reply_head_end(2) [OF assms(3,4,2)])
  have "response_total (take m w) (length ?h) = Some (length w)" if "length ?h \<le> m" for m
    using reply_total [OF assms(2-5)] that by (simp add: w)
  moreover have "find_str CRLF2 (take m w) = (if length ?h \<le> m then Some (length ?h - 4) else None)" for m
    unfolding w by (rule reply_prefix [OF assms(2-4)])
  moreover have "[] \<noteq> w" using long w by auto
  ultimately have "recv_all [] None None (rs @ later) = Received w"
    using long assms(6,7) by (intro recv_all_reads) auto
  then show ?thesis using reply_parsed [OF assms(2-4)] w assms(8-11) by (simp add: send_http_post_def)
qed

lemma client_reads_reply_witness:
  "\<exists>w. send_http_post \<lparr>pe_lookup_error = None, pe_connected = True, pe_send = [Sent 10, Send_again, Sent 10000],
       pe_recv = [Got (take 10 w), Interrupted, Got (drop 10 w)] @ [Recv_error]\<rparr> ''localhost'' 8080 [] [] =
     Some (Inr \<lparr>rp_status_code = 404, rp_body = ''{}'', rp_raw = w\<rparr>)"
proof -
  let ?hs = "[(''Content-Type'', ''application/json'')]"
  define w where "w = to_head_str (fill_response_headers 404 ''Not Found'' ?hs (length ''{}'') http_res_head_para_new) @ ''{}''"
  let ?env = "\<lparr>pe_lookup_error = None, pe_connected = True, pe_send = [Sent 10, Send_again, Sent 10000],
       pe_recv = [Got (take 10 w), Interrupted, Got (drop 10 w)] @ [Recv_error]\<rparr>"
  have hs: "reply_headers ?hs" by (simp add: reply_headers_def)
  have "10 < length w" by (simp add: w_def to_head_str_def fill_response_headers_def http_res_head_para_new_def with_reason_def Let_def
        CRLF_def get_response_str_def response_list_def)
  then have rs: "\<forall>r \<in> set [Got (take 10 w), Interrupted, Got (drop 10 w)]. bytes_or_interrupted r"
    "concat (map got_bytes [Got (take 10 w), Interrupted, Got (drop 10 w)]) = w"
    by (auto simp: bytes_or_interrupted_def)
  have "length (http_request ''localhost'' 8080 [] []) \<le> 10000"
    by (simp add: http_request_def normalized_path_def CRLF_def CRLF2_def snprintf_def)
  then have sent: "send_all 0 (length (http_request ''localhost'' 8080 [] [])) (pe_send ?env) = Some True" by simp
  show ?thesis
    using client_reads_reply [OF w_def hs _ _ _ rs, of ?env "[Recv_error]" "''localhost''" 8080 "[]" "[]"] sent
    by (intro exI [of _ w]) simp
qed

end
