(* ===== verification/Log_File.thy ===== *)
theory Log_File
  imports Reload_Thread C_Text
begin

text \<open>
  The logger, \<open>Logger\<close> of \<open>src/core/legacy_core.h\<close> and \<open>src/core/legacy_core_common.cpp\<close>: the options in the
  text of the log path, the files by level and the writing of a line.  An open file is its path; the results
  of the system calls are the record \<open>log_env\<close>.  The text of a message comes formatted; a message nobody can
  write is lost, and the note about that on the standard error is left out.
\<close>

unbundle bit_operations_syntax

section \<open>State\<close>

datatype LogLevel = LOG_FATAL | LOG_WARNING | LOG_NOTICE | LOG_TRACE | LOG_DEBUG

fun level_bit :: "LogLevel \<Rightarrow> int" where
  "level_bit LOG_FATAL = 1"
| "level_bit LOG_WARNING = 2"
| "level_bit LOG_NOTICE = 4"
| "level_bit LOG_TRACE = 8"
| "level_bit LOG_DEBUG = 16"

record Logger =
  lgr_log_path :: string
  lgr_prefix :: string
  lgr_max_file_size :: u32
  lgr_log_level :: int
  lgr_initialized :: bool
  lgr_log_files :: "LogLevel \<Rightarrow> string option"

definition Logger_new :: Logger where
  "Logger_new =
     \<lparr>lgr_log_path = [], lgr_prefix = [], lgr_max_file_size = 100 * 1024 * 1024, lgr_log_level = level_bit LOG_DEBUG,
      lgr_initialized = False, lgr_log_files = (\<lambda>l. None)\<rparr>"

record log_disk =
  ld_files :: "string \<rightharpoonup> string"
  ld_dirs :: "string list"

record log_env =
  le_exe :: "string option"
  le_mkdir :: bool
  le_can_open :: "string \<Rightarrow> bool"
  le_fstat :: bool
  le_tm :: tm
  le_sec :: int

section \<open>Start\<close>

definition createDirectory :: "log_env \<Rightarrow> string \<Rightarrow> log_disk \<Rightarrow> bool \<times> log_disk" where
  "createDirectory env path d =
     (if path = [] then (False, d)
      else if path \<in> set (ld_dirs d) then (True, d)
      else if ld_files d path \<noteq> None then (False, d)
      else if le_mkdir env then (True, d\<lparr>ld_dirs := path # ld_dirs d\<rparr>)
      else (False, d))"

text \<open>The name of the program: the last part of what \<open>readlink\<close> puts into the buffer.\<close>

definition program_name :: "log_env \<Rightarrow> string" where
  "program_name env =
     (case le_exe env of
        None \<Rightarrow> ''app''
      | Some p \<Rightarrow> (let s = take 255 p in case rfind_char (CHR ''/'') s of Some i \<Rightarrow> drop (Suc i) s | None \<Rightarrow> s))"

definition logger_init ::
  "log_env \<Rightarrow> string \<Rightarrow> string option \<Rightarrow> u32 \<Rightarrow> int \<Rightarrow> Logger \<times> log_disk \<Rightarrow> Logger \<times> log_disk" where
  "logger_init env path prefix max_size level s =
     ((fst s)\<lparr>lgr_log_path := path, lgr_prefix := (case prefix of Some p \<Rightarrow> p | None \<Rightarrow> program_name env),
              lgr_max_file_size := max_size, lgr_log_level := level, lgr_initialized := True\<rparr>,
      snd (createDirectory env path (snd s)))"

section \<open>The options of the path\<close>

text \<open>\<open>getline\<close> with a delimiter.\<close>

function getline_by :: "char \<Rightarrow> string \<Rightarrow> string list" where
  "getline_by c s =
     (if s = [] then [] else takeWhile (\<lambda>x. x \<noteq> c) s # getline_by c (drop 1 (dropWhile (\<lambda>x. x \<noteq> c) s)))"
  by auto

termination
proof (relation "measure (\<lambda>(c, s). length s)")
  fix c :: char and s :: string
  assume "s \<noteq> []"
  then have "length (drop 1 (dropWhile (\<lambda>x. x \<noteq> c) s)) < length s"
    using length_dropWhile_le [of "\<lambda>x. x \<noteq> c" s] length_dropWhile_le [of "\<lambda>x. x \<noteq> c" "tl s"] by (cases s) auto
  then show "((c, drop 1 (dropWhile (\<lambda>x. x \<noteq> c) s)), c, s) \<in> measure (\<lambda>(c, s). length s)" by simp
qed simp

declare getline_by.simps [simp del]

definition blank :: "char \<Rightarrow> bool" where
  "blank c \<longleftrightarrow> c = CHR '' '' \<or> c = CHR 0x09 \<or> c = CHR 0x0D \<or> c = CHR 0x0A"

definition level_mask_of :: "string \<Rightarrow> int" where
  "level_mask_of item =
     (if item = ''fatal'' then level_bit LOG_FATAL
      else if item = ''warning'' \<or> item = ''warn'' then level_bit LOG_WARNING
      else if item = ''notice'' \<or> item = ''info'' then level_bit LOG_NOTICE
      else if item = ''trace'' then level_bit LOG_TRACE
      else if item = ''debug'' then level_bit LOG_DEBUG
      else max 0 (atoi (c_str item)))"

definition normalized_levels :: "string \<Rightarrow> string" where
  "normalized_levels s =
     map (\<lambda>c. if tolower c = CHR ''|'' \<or> tolower c = CHR ''+'' then CHR '','' else tolower c) s"

definition ParseLogLevelMask :: "string \<Rightarrow> int \<Rightarrow> int" where
  "ParseLogLevelMask level_text fallback =
     (if level_text = [] then fallback
      else (let items = filter (\<lambda>i. i \<noteq> []) (map (trim_by blank) (getline_by (CHR '','') (normalized_levels level_text)));
                mask = fold (\<lambda>i m. m OR level_mask_of i) items 0
            in if mask \<noteq> 0 then mask else fallback))"

text \<open>
  The path names a file when its last part has a dot; then the directory is what comes before the slash and
  the prefix the name without its extension.  Without a slash it is a directory.
\<close>

definition log_target :: "string \<Rightarrow> string \<times> string" where
  "log_target input =
     (let whole = (if input = [] then ''logs'' else input, []) in
      case rfind_char (CHR ''/'') input of
        None \<Rightarrow> whole
      | Some slash \<Rightarrow>
          (let filename = drop (Suc slash) input in
           case rfind_char (CHR ''.'') filename of
             None \<Rightarrow> whole
           | Some dot \<Rightarrow> (if slash = 0 then ''.'' else take slash input, take dot filename)))"

type_synonym log_options = "string \<times> u32 \<times> int"

definition set_option :: "string \<Rightarrow> string \<Rightarrow> log_options \<Rightarrow> log_options" where
  "set_option key v s =
     (case s of (prefix, max_size, level) \<Rightarrow>
        if key = ''prefix'' then (v, max_size, level)
        else if key = ''size'' \<or> key = ''size_mb''
        then (let n = fst (strtol 10 (c_str v)) in
              if n > 0 then (prefix, word_of_int n * 1024 * 1024, level) else s)
        else if key = ''level'' then (prefix, max_size, ParseLogLevelMask v LOG_LEVEL_DEBUG)
        else s)"

definition apply_option :: "string \<Rightarrow> log_options \<Rightarrow> log_options" where
  "apply_option kv s =
     (case find_char (CHR ''='') kv of
        None \<Rightarrow> s
      | Some eq \<Rightarrow>
          (let key = trim_by blank (take eq kv) in
           if key = [] then s else set_option key (trim_by blank (drop (Suc eq) kv)) s))"

definition init_from_path :: "log_env \<Rightarrow> string \<Rightarrow> Logger \<times> log_disk \<Rightarrow> Logger \<times> log_disk" where
  "init_from_path env config s =
     (if c_str config = [] then logger_init env ''logs'' None (100 * 1024 * 1024) LOG_LEVEL_DEBUG s
      else (let text0 = c_str config;
                (input, options) =
                  (case find_char (CHR ''?'') text0 of None \<Rightarrow> (text0, []) | Some q \<Rightarrow> (take q text0, drop (Suc q) text0));
                (dir, name) = log_target input;
                (prefix, max_size, level) =
                  fold apply_option (getline_by (CHR ''&'') options) (name, 100 * 1024 * 1024, LOG_LEVEL_DEBUG)
            in logger_init env dir (if prefix = [] then None else Some prefix) max_size level s))"

section \<open>Writing\<close>

fun getLevelName :: "LogLevel \<Rightarrow> string" where
  "getLevelName LOG_FATAL = ''[FATAL] ''"
| "getLevelName LOG_WARNING = ''[WARNING] ''"
| "getLevelName LOG_NOTICE = ''[NOTICE] ''"
| "getLevelName LOG_TRACE = ''[TRACE] ''"
| "getLevelName LOG_DEBUG = ''[DEBUG] ''"

definition getLogFilePath :: "Logger \<Rightarrow> LogLevel \<Rightarrow> string" where
  "getLogFilePath lg level = lgr_log_path lg @ ''/'' @ lgr_prefix lg @ ''_'' @ getLevelName level @ ''.log''"

text \<open>Opening for appending makes a file that is not there.\<close>

definition file_text :: "log_disk \<Rightarrow> string \<Rightarrow> string" where
  "file_text d path = (case ld_files d path of Some s \<Rightarrow> s | None \<Rightarrow> [])"

definition open_log :: "log_env \<Rightarrow> LogLevel \<Rightarrow> Logger \<times> log_disk \<Rightarrow> Logger \<times> log_disk" where
  "open_log env level s =
     (case s of (lg, d) \<Rightarrow>
        let path = getLogFilePath lg level in
        if le_can_open env path
        then (lg\<lparr>lgr_log_files := (lgr_log_files lg)(level := Some path)\<rparr>,
              d\<lparr>ld_files := (ld_files d)(path \<mapsto> file_text d path)\<rparr>)
        else (lg\<lparr>lgr_log_files := (lgr_log_files lg)(level := None)\<rparr>, d))"

text \<open>A file that has reached the limit is closed, and the same path is opened again.\<close>

definition checkRotateFile :: "log_env \<Rightarrow> LogLevel \<Rightarrow> Logger \<times> log_disk \<Rightarrow> Logger \<times> log_disk" where
  "checkRotateFile env level s =
     (case lgr_log_files (fst s) level of
        Some path \<Rightarrow>
          if le_fstat env \<and> length (file_text (snd s) path) < unat (lgr_max_file_size (fst s)) then s
          else open_log env level s
      | None \<Rightarrow> open_log env level s)"

record log_call =
  lc_level :: LogLevel
  lc_file :: string
  lc_line :: int
  lc_func :: string
  lc_text :: string

definition getTimestamp :: "log_env \<Rightarrow> string" where
  "getTimestamp env = snprintf 64 (stamp_text (le_tm env) (le_sec env))"

definition log_line :: "log_env \<Rightarrow> log_call \<Rightarrow> string" where
  "log_line env k =
     getTimestamp env @ getLevelName (lc_level k) @ '' '' @ c_str (lc_file k) @ '':'' @ fmt_d 0 (lc_line k) @ '' ['' @
     c_str (lc_func k) @ ''] '' @ c_str (snprintf (64 * 1024) (lc_text k)) @ [CHR 0x0A]"

definition writeLog :: "log_env \<Rightarrow> log_call \<Rightarrow> Logger \<times> log_disk \<Rightarrow> Logger \<times> log_disk" where
  "writeLog env k s =
     (let s1 = (if lgr_initialized (fst s) then s
                else logger_init env ''logs'' None (100 * 1024 * 1024) (level_bit LOG_DEBUG) s) in
      if lgr_log_level (fst s1) AND level_bit (lc_level k) = 0 then s1
      else (case checkRotateFile env (lc_level k) s1 of (lg, d) \<Rightarrow>
              (case lgr_log_files lg (lc_level k) of
                 None \<Rightarrow> (lg, d)
               | Some path \<Rightarrow>
                   (lg, d\<lparr>ld_files := (ld_files d)(path \<mapsto> file_text d path @ log_line env k)\<rparr>))))"

definition setLogLevel :: "int \<Rightarrow> Logger \<Rightarrow> Logger" where
  "setLogLevel level lg = lg\<lparr>lgr_log_level := level\<rparr>"

end
