(* ===== verification/Log_Facts.thy ===== *)
theory Log_Facts
  imports Log_File Decimal_Facts
begin

text \<open>
  Facts about the logger: the options the server puts into its log path are the ones the logger takes from it,
  for limits below 4096 MB, and no line is lost or moved to another file, whatever the limit of the size.
\<close>

section \<open>Pieces of a text\<close>

lemma getline_by_Nil [simp]: "getline_by c [] = []"
  by (simp add: getline_by.simps)

lemma getline_by_last: "c \<notin> set a \<Longrightarrow> a \<noteq> [] \<Longrightarrow> getline_by c a = [a]"
proof -
  assume a: "c \<notin> set a" "a \<noteq> []"
  then have "dropWhile (\<lambda>x. x \<noteq> c) a = []" "takeWhile (\<lambda>x. x \<noteq> c) a = a" by (auto simp: takeWhile_eq_all_conv)
  then show ?thesis using a(2)
    by (subst getline_by.simps) (simp del: takeWhile_eq_all_conv dropWhile_eq_Nil_conv)
qed

lemma getline_by_first: "c \<notin> set a \<Longrightarrow> getline_by c (a @ c # s) = a # getline_by c s"
  by (subst getline_by.simps) (auto simp: takeWhile_append dropWhile_append)

fun joined :: "char \<Rightarrow> string list \<Rightarrow> string" where
  "joined c [] = []"
| "joined c [a] = a"
| "joined c (a # as) = a @ c # joined c as"

lemma getline_by_joined: "\<forall>a \<in> set as. c \<notin> set a \<and> a \<noteq> [] \<Longrightarrow> getline_by c (joined c as) = as"
  by (induction c as rule: joined.induct) (simp_all add: getline_by_last getline_by_first)

lemma joined_snoc: "as \<noteq> [] \<Longrightarrow> joined c (as @ [a]) = joined c as @ c # a"
  by (induction c as rule: joined.induct) simp_all

section \<open>One option\<close>

definition trimmed :: "string \<Rightarrow> bool" where
  "trimmed s \<longleftrightarrow> s = [] \<or> (\<not> blank (hd s) \<and> \<not> blank (last s))"

lemma trim_trimmed: "trimmed s \<Longrightarrow> trim_by blank s = s"
proof (cases "s = []")
  case False
  assume t: "trimmed s"
  have "dropWhile blank s = s" using False t by (cases s) (simp_all add: trimmed_def)
  moreover have "dropWhile blank (rev s) = rev s"
    using False t by (cases "rev s") (auto simp: trimmed_def hd_rev [symmetric])
  ultimately show ?thesis by (simp add: trim_by_def)
qed (simp add: trim_by_def)

lemma option_applied:
  assumes "CHR ''='' \<notin> set key" "key \<noteq> []" "trimmed key" "trimmed v"
  shows "apply_option (key @ ''='' @ v) s = set_option key v s"
proof -
  have "find_char (CHR ''='') (key @ ''='' @ v) = Some (length key)" using assms(1) by (induction key) auto
  then show ?thesis using assms(2) trim_trimmed [OF assms(3)] trim_trimmed [OF assms(4)] by (simp add: apply_option_def)
qed

lemma digit_not_special:
  "isdigit c \<Longrightarrow> tolower c = c \<and> c \<noteq> CHR '','' \<and> c \<noteq> CHR ''|'' \<and> c \<noteq> CHR ''+'' \<and> c \<noteq> CHR ''&'' \<and> \<not> blank c \<and>
     c \<notin> set ''fwnitd''"
  by (auto simp: isdigit_def tolower_def isupper_def blank_def)

lemma dec_trimmed: "trimmed (dec_string n)"
  using dec_digits [of "hd (dec_string n)" n] dec_digits [of "last (dec_string n)" n] digit_not_special
  by (auto simp: trimmed_def)

lemma level_read:
  assumes "0 < level" "level < 2 ^ 31"
  shows "ParseLogLevelMask (dec_string (nat level)) dflt = level"
proof -
  let ?d = "dec_string (nat level)"
  have digits: "\<forall>c \<in> set ?d. tolower c = c \<and> c \<noteq> CHR '','' \<and> c \<noteq> CHR ''|'' \<and> c \<noteq> CHR ''+''"
    using dec_digits digit_not_special by blast
  then have "normalized_levels ?d = ?d" unfolding normalized_levels_def by (intro map_idI) auto
  moreover have "getline_by (CHR '','') ?d = [?d]" using digits by (intro getline_by_last) auto
  moreover have "hd ?d \<notin> set ''fwnitd''" using dec_digits [of "hd ?d" "nat level"] digit_not_special by simp
  then have "level_mask_of ?d = level"
    using atoi_dec [of "nat level"] assms by (auto simp: level_mask_of_def)
  ultimately show ?thesis using assms trim_trimmed [OF dec_trimmed, of "nat level"] by (simp add: ParseLogLevelMask_def)
qed

section \<open>The log path of the server\<close>

text \<open>The options the server writes, in their order.\<close>

definition written_options :: "LogConfig \<Rightarrow> string list" where
  "written_options log =
     (if lg_prefix log \<noteq> [] then [''prefix='' @ lg_prefix log] else []) @
     (if lg_size_mb log > 0 then [''size_mb='' @ dec_string (unat (lg_size_mb log))] else []) @
     (if lg_level log > 0 then [''level='' @ dec_string (nat (lg_level log))] else [])"

definition option_text :: "string list \<Rightarrow> string" where
  "option_text os = (if os = [] then [] else CHR ''?'' # joined (CHR ''&'') os)"

lemma add_option_text: "add_option ''?'' opt (option_text os) = option_text (os @ [opt])"
  by (simp add: add_option_def option_text_def joined_snoc)

lemma u32_digits: "snprintf 32 (dec_string (unat (n :: u32))) = dec_string (unat n)"
proof -
  have "unat n < 10 ^ Suc 9" using unsigned_less [of n, where ?'a = nat] by simp
  from dec_string_short [OF this] have "length (dec_string (unat n)) \<le> 10" by simp
  then show ?thesis by (simp add: snprintf_def)
qed

lemma level_digits:
  assumes "0 < v" "v < 2 ^ 31"
  shows "snprintf 32 (fmt_d 0 v) = dec_string (nat v)"
proof -
  have "nat v < 10 ^ Suc 9" using assms by simp
  from dec_string_short [OF this] show ?thesis using assms(1) by (simp add: snprintf_def fmt_d_def)
qed

text \<open>The path of the configuration, and what is put behind it: after options of its own, behind an ampersand.\<close>

definition base_path :: "LogConfig \<Rightarrow> string" where
  "base_path log = (if lg_path log = [] then ''logs/rxtracenetcap.log'' else lg_path log)"

definition added_text :: "string \<Rightarrow> string list \<Rightarrow> string" where
  "added_text base os = (if CHR ''?'' \<in> set base then concat (map (\<lambda>opt. CHR ''&'' # opt) os) else option_text os)"

lemma add_more_text: "add_option ''&'' opt (concat (map (\<lambda>opt. CHR ''&'' # opt) os)) = concat (map (\<lambda>opt. CHR ''&'' # opt) (os @ [opt]))"
  by (simp add: add_option_def)

lemma log_path_written:
  assumes "lg_level (sc_log_config c) < 2 ^ 31"
  shows "sc_log_path (update_log_path c) =
    base_path (sc_log_config c) @ added_text (base_path (sc_log_config c)) (written_options (sc_log_config c))"
proof -
  let ?log = "sc_log_config c"
  have none: "[] = option_text []" "([] :: string) = concat (map (\<lambda>opt. CHR ''&'' # opt) [])" by (simp_all add: option_text_def)
  show ?thesis
  proof (cases "CHR ''?'' \<in> set (base_path ?log)")
    case True
    then show ?thesis using assms level_digits [of "lg_level ?log"]
      by (simp add: update_log_path_def base_path_def [symmetric] Let_def u32_digits written_options_def added_text_def add_option_def)
  next
    case False
    then show ?thesis using assms level_digits [of "lg_level ?log"]
      by (simp add: update_log_path_def base_path_def [symmetric] Let_def u32_digits written_options_def added_text_def
          if_distrib [of "add_option ''?'' x" for x] none(1) [symmetric] add_option_text [of _ "[]", folded none(1), simplified]
          add_option_text)
  qed
qed

definition plain_options :: "LogConfig \<Rightarrow> bool" where
  "plain_options log \<longleftrightarrow>
     NUL \<notin> set (lg_path log) \<and> NUL \<notin> set (lg_prefix log) \<and> CHR ''&'' \<notin> set (lg_prefix log) \<and> trimmed (lg_prefix log) \<and>
     lg_level log < 2 ^ 31"

lemma written_options_separate:
  assumes "plain_options log"
  shows "\<forall>a \<in> set (written_options log). CHR ''&'' \<notin> set a \<and> a \<noteq> []" "\<forall>a \<in> set (written_options log). NUL \<notin> set a"
proof -
  have "CHR ''&'' \<notin> set (dec_string n)" for n using dec_digits digit_not_special by blast
  then show "\<forall>a \<in> set (written_options log). CHR ''&'' \<notin> set a \<and> a \<noteq> []" "\<forall>a \<in> set (written_options log). NUL \<notin> set a"
    using assms dec_string_no_NUL by (auto simp: written_options_def plain_options_def NUL_def)
qed

lemma NUL_joined: "\<forall>a \<in> set as. NUL \<notin> set a \<Longrightarrow> c \<noteq> NUL \<Longrightarrow> NUL \<notin> set (joined c as)"
  by (induction c as rule: joined.induct) auto

lemma size_option:
  "0 < n \<Longrightarrow> set_option ''size_mb'' (dec_string (unat n)) (p, m, l) = (p, n * 1024 * 1024, l)"
proof -
  assume n: "0 < n"
  have "int (unat n) < 2 ^ 63" using unsigned_less [of n, where ?'a = int] by simp
  moreover have "c_str (dec_string (unat n)) = dec_string (unat n)"
    using dec_string_no_NUL [of "unat n"] by (auto simp: c_str_def takeWhile_eq_all_conv)
  moreover have "0 < uint n" using n by (simp add: word_less_def)
  ultimately show ?thesis using strtol_dec [of "unat n"] by (simp add: set_option_def Let_def)
qed

lemma options_applied:
  assumes "plain_options log"
  shows "fold apply_option (written_options log) (name, m, l) =
    (if lg_prefix log \<noteq> [] then lg_prefix log else name,
     if lg_size_mb log > 0 then lg_size_mb log * 1024 * 1024 else m,
     if lg_level log > 0 then lg_level log else l)"
proof -
  have prefix: "apply_option (''prefix='' @ lg_prefix log) (p, m, l) = (lg_prefix log, m, l)" for p m l
    using option_applied [of "''prefix''" "lg_prefix log"] assms by (simp add: plain_options_def trimmed_def blank_def set_option_def)
  have max_size: "apply_option (''size_mb='' @ dec_string (unat (lg_size_mb log))) (p, m, l) = (p, lg_size_mb log * 1024 * 1024, l)"
    if "lg_size_mb log > 0" for p m l
    using option_applied [of "''size_mb''" "dec_string (unat (lg_size_mb log))"] dec_trimmed size_option [OF that]
    by (simp add: trimmed_def [of "''size_mb''"] blank_def)
  have level: "apply_option (''level='' @ dec_string (nat (lg_level log))) (p, m, l) = (p, m, lg_level log)"
    if "lg_level log > 0" for p m l
    using option_applied [of "''level''" "dec_string (nat (lg_level log))"] dec_trimmed level_read [OF that] assms
    by (simp add: trimmed_def [of "''level''"] blank_def set_option_def plain_options_def)
  show ?thesis using prefix max_size level by (simp add: written_options_def)
qed

text \<open>The options behind the first question mark.\<close>

lemma find_char_cut:
  "(case find_char c s of None \<Rightarrow> (s, []) | Some q \<Rightarrow> (take q s, drop (Suc q) s)) =
     (takeWhile (\<lambda>x. x \<noteq> c) s, drop 1 (dropWhile (\<lambda>x. x \<noteq> c) s))"
  by (induction s) (auto split: option.splits)

lemma cut_at_mark:
  assumes "c \<notin> set a \<Longrightarrow> takeWhile (\<lambda>x. x \<noteq> c) b = []"
  shows "takeWhile (\<lambda>x. x \<noteq> c) (a @ b) = takeWhile (\<lambda>x. x \<noteq> c) a"
proof (cases "c \<in> set a")
  case False
  then have all: "\<forall>x \<in> set a. x \<noteq> c" by auto
  then have "takeWhile (\<lambda>x. x \<noteq> c) (a @ b) = a @ takeWhile (\<lambda>x. x \<noteq> c) b" by (intro takeWhile_append2) simp
  moreover have "takeWhile (\<lambda>x. x \<noteq> c) a = a" unfolding takeWhile_eq_all_conv using all .
  ultimately show ?thesis using assms [OF False] by (simp del: takeWhile_eq_all_conv)
qed (simp add: takeWhile_append1 [of c])

lemma no_option [simp]: "apply_option [] s = s"
  by (simp add: apply_option_def)

lemma options_after:
  "fold apply_option (getline_by c (u @ c # s)) x = fold apply_option (getline_by c s) (fold apply_option (getline_by c u) x)"
proof (induction c u arbitrary: x rule: getline_by.induct)
  case (1 c u)
  show ?case
  proof (cases "c \<in> set u")
    case False
    then show ?thesis using getline_by_first [OF False, of s] getline_by_last [OF False] by (cases "u = []") simp_all
  next
    case True
    then obtain a b where u: "u = a @ c # b" "c \<notin> set a" by (meson split_list_first)
    then have "drop 1 (dropWhile (\<lambda>x. x \<noteq> c) u) = b" by (simp add: dropWhile_append)
    then have ih: "fold apply_option (getline_by c (b @ c # s)) y =
        fold apply_option (getline_by c s) (fold apply_option (getline_by c b) y)" for y
      using "1.IH" u(1) by auto
    show ?thesis using getline_by_first [OF u(2), of "b @ c # s"] getline_by_first [OF u(2), of b] ih by (simp add: u(1))
  qed
qed

lemma options_more:
  assumes "\<forall>a \<in> set os. CHR ''&'' \<notin> set a \<and> a \<noteq> []"
  shows "fold apply_option (getline_by (CHR ''&'') (u @ concat (map (\<lambda>opt. CHR ''&'' # opt) os))) x =
    fold apply_option os (fold apply_option (getline_by (CHR ''&'') u) x)"
  using assms
proof (induction os arbitrary: u)
  case (Cons opt os)
  have "fold apply_option (getline_by (CHR ''&'') (u @ CHR ''&'' # opt @ concat (map (\<lambda>opt. CHR ''&'' # opt) os))) x =
      fold apply_option os (fold apply_option (getline_by (CHR ''&'') (u @ CHR ''&'' # opt)) x)"
    using Cons.IH [of "u @ CHR ''&'' # opt"] Cons.prems by simp
  then show ?case using Cons.prems getline_by_last [of "CHR ''&''" opt] by (simp add: options_after)
qed simp

text \<open>The limit is computed in 32 bits: it is right below 4096 megabytes, and 4096 make it 0.\<close>

lemma limit_exact:
  assumes "n < 4096"
  shows "unat (n * 1024 * 1024 :: u32) = 1048576 * unat n"
proof -
  have "unat n < 4096" using assms by (simp add: word_less_nat_alt)
  then have "unat n * 1048576 < 2 ^ LENGTH(32)" by simp
  then have "unat (n * 1048576) = unat n * 1048576" by (subst unat_mult_lem [THEN iffD1]) simp_all
  then show ?thesis by (simp add: mult.assoc)
qed

lemma limit_wraps: "(4096 :: u32) * 1024 * 1024 = 0"
  by simp

text \<open>
  C25. The logger gets the options of the configuration.  The server writes them into the log path, behind a
  question mark or, when the path has options of its own, behind these; the logger takes the directory and the
  default prefix from the path, and reads back exactly the prefix, the limit in bytes and the level of the
  configuration where they are set, and otherwise what the options of the path say, or the defaults; if the
  prefix has no ampersand and no blanks around it, and the limit is below 4096 MB.  From 4096 MB on it wraps
  around (\<open>limit_wraps\<close>).
\<close>

theorem log_options_read_back:
  assumes "plain_options (sc_log_config c)" "lg_size_mb (sc_log_config c) < 4096"
    and "log_target (takeWhile (\<lambda>x. x \<noteq> CHR ''?'') (base_path (sc_log_config c))) = (dir, name)"
    and "fold apply_option (getline_by (CHR ''&'') (drop 1 (dropWhile (\<lambda>x. x \<noteq> CHR ''?'') (base_path (sc_log_config c)))))
      (name, 100 * 1024 * 1024, LOG_LEVEL_DEBUG) = (prefix0, limit0, level0)"
  shows "\<exists>prefix limit. init_from_path env (sc_log_path (update_log_path c)) s =
      logger_init env dir (if prefix = [] then None else Some prefix) limit
        (if lg_level (sc_log_config c) > 0 then lg_level (sc_log_config c) else level0) s \<and>
    prefix = (if lg_prefix (sc_log_config c) \<noteq> [] then lg_prefix (sc_log_config c) else prefix0) \<and>
    (if lg_size_mb (sc_log_config c) > 0 then unat limit = 1048576 * unat (lg_size_mb (sc_log_config c)) else limit = limit0)"
proof -
  let ?log = "sc_log_config c"
  let ?os = "written_options ?log" and ?base = "base_path ?log"
  let ?more = "concat (map (\<lambda>opt. CHR ''&'' # opt) ?os)"
  have written: "sc_log_path (update_log_path c) = ?base @ added_text ?base ?os"
    using log_path_written [of c] assms(1) by (simp add: plain_options_def)
  note sep = written_options_separate [OF assms(1)]
  have "NUL \<notin> set ?more" using sep(2) by (auto simp: NUL_def)
  moreover have "NUL \<notin> set ?base" using assms(1) by (auto simp: base_path_def plain_options_def NUL_def)
  moreover have "NUL \<notin> set (option_text ?os)"
    using sep(2) NUL_joined [of ?os "CHR ''&''"] by (auto simp: option_text_def NUL_def)
  ultimately have "NUL \<notin> set (?base @ added_text ?base ?os)" by (auto simp: added_text_def)
  then have plain: "c_str (?base @ added_text ?base ?os) = ?base @ added_text ?base ?os"
    by (auto simp: c_str_def takeWhile_eq_all_conv)
  have cut: "takeWhile (\<lambda>x. x \<noteq> CHR ''?'') (?base @ added_text ?base ?os) = takeWhile (\<lambda>x. x \<noteq> CHR ''?'') ?base"
    by (rule cut_at_mark) (simp add: added_text_def option_text_def)
  have "fold apply_option (getline_by (CHR ''&'') (drop 1 (dropWhile (\<lambda>x. x \<noteq> CHR ''?'') (?base @ added_text ?base ?os))))
      (name, 100 * 1024 * 1024, LOG_LEVEL_DEBUG) = fold apply_option ?os (prefix0, limit0, level0)"
  proof (cases "CHR ''?'' \<in> set ?base")
    case True
    then obtain x xs where x: "dropWhile (\<lambda>x. x \<noteq> CHR ''?'') ?base = x # xs" by (cases "dropWhile (\<lambda>x. x \<noteq> CHR ''?'') ?base") auto
    have "dropWhile (\<lambda>x. x \<noteq> CHR ''?'') (?base @ added_text ?base ?os) = dropWhile (\<lambda>x. x \<noteq> CHR ''?'') ?base @ added_text ?base ?os"
      using True by (intro dropWhile_append1) auto
    then have "drop 1 (dropWhile (\<lambda>x. x \<noteq> CHR ''?'') (?base @ added_text ?base ?os)) =
        drop 1 (dropWhile (\<lambda>x. x \<noteq> CHR ''?'') ?base) @ ?more"
      using True x by (simp add: added_text_def)
    then show ?thesis using options_more [OF sep(1)] assms(4) by simp
  next
    case False
    then have none: "dropWhile (\<lambda>x. x \<noteq> CHR ''?'') ?base = []" by auto
    then have "drop 1 (dropWhile (\<lambda>x. x \<noteq> CHR ''?'') (?base @ added_text ?base ?os)) = joined (CHR ''&'') ?os"
      using False by (simp add: added_text_def option_text_def dropWhile_append)
    then show ?thesis using getline_by_joined [OF sep(1)] assms(4) none by simp
  qed
  then show ?thesis
    unfolding init_from_path_def written plain Let_def find_char_cut cut
    using assms(2,3) options_applied [OF assms(1), of prefix0 limit0 level0] limit_exact [of "lg_size_mb ?log"]
    by (auto simp: base_path_def)
qed

text \<open>A path with options of its own, one of them overridden.\<close>

definition sample_log :: LogConfig where
  "sample_log = LogConfig_new\<lparr>lg_path := ''/var/log/rx?size=5&prefix=old'', lg_prefix := ''rx'', lg_size_mb := 0, lg_level := 0\<rparr>"

lemma log_options_read_back_witness:
  "\<exists>env s limit. init_from_path env (sc_log_path (update_log_path (CRxServerConfig_new\<lparr>sc_log_config := sample_log\<rparr>))) s =
     logger_init env ''/var/log/rx'' (Some ''rx'') limit LOG_LEVEL_DEBUG s \<and> limit = 5 * 1024 * 1024"
proof -
  let ?c = "CRxServerConfig_new\<lparr>sc_log_config := sample_log\<rparr>"
  have log: "sc_log_config ?c = sample_log" by simp
  have base: "base_path sample_log = ''/var/log/rx?size=5&prefix=old''" by (simp add: base_path_def sample_log_def)
  have plain: "plain_options (sc_log_config ?c)" "lg_size_mb (sc_log_config ?c) < 4096"
    unfolding log by (simp_all add: plain_options_def sample_log_def LogConfig_new_def NUL_def trimmed_def blank_def)
  have path: "log_target (takeWhile (\<lambda>x. x \<noteq> CHR ''?'') (base_path (sc_log_config ?c))) = (''/var/log/rx'', [])"
    unfolding log base by (simp add: log_target_def)
  have lines: "getline_by (CHR ''&'') ''size=5&prefix=old'' = [''size=5'', ''prefix=old'']"
    by (simp add: getline_by.simps)
  have n: "strtol 10 (c_str ''5'') = (5, [])"
    using strtol_dec [of 5] by (simp add: c_str_def NUL_def dec_string.simps char_of_def bit_0)
  have own: "fold apply_option (getline_by (CHR ''&'') (drop 1 (dropWhile (\<lambda>x. x \<noteq> CHR ''?'') (base_path (sc_log_config ?c)))))
      ([], 100 * 1024 * 1024, LOG_LEVEL_DEBUG) = (''old'', 5 * 1024 * 1024, LOG_LEVEL_DEBUG)"
    unfolding log base by (simp add: lines apply_option_def trim_by_def blank_def set_option_def n)
  from log_options_read_back [OF plain path own] show ?thesis
    unfolding log by (auto simp: sample_log_def)
qed

section \<open>The lines\<close>

definition own_files :: "Logger \<Rightarrow> bool" where
  "own_files lg \<longleftrightarrow> (\<forall>l p. lgr_log_files lg l = Some p \<longrightarrow> p = getLogFilePath lg l)"

definition same_settings :: "Logger \<Rightarrow> Logger \<Rightarrow> bool" where
  "same_settings a b \<longleftrightarrow>
     lgr_log_path a = lgr_log_path b \<and> lgr_prefix a = lgr_prefix b \<and> lgr_log_level a = lgr_log_level b \<and> lgr_initialized a = lgr_initialized b"

lemma same_path: "same_settings a b \<Longrightarrow> getLogFilePath a l = getLogFilePath b l"
  by (simp add: same_settings_def getLogFilePath_def)

lemma path_of_open [simp]: "getLogFilePath (lg\<lparr>lgr_log_files := fs\<rparr>) l = getLogFilePath lg l"
  by (simp add: getLogFilePath_def)

lemma level_of_path: "getLogFilePath lg l = getLogFilePath lg l2 \<longleftrightarrow> l = l2"
  by (cases l; cases l2) (simp_all add: getLogFilePath_def)

definition logged :: "Logger \<Rightarrow> LogLevel \<Rightarrow> bool" where
  "logged lg l \<longleftrightarrow> lgr_log_level lg AND level_bit l \<noteq> 0"

definition can_log :: "log_env \<Rightarrow> Logger \<Rightarrow> bool" where
  "can_log env lg \<longleftrightarrow> (\<forall>l. le_can_open env (getLogFilePath lg l))"

lemma file_ready:
  assumes "own_files lg" "can_log env lg" "checkRotateFile env l (lg, d) = (lg2, d2)"
  shows "own_files lg2 \<and> same_settings lg lg2 \<and> lgr_log_files lg2 l = Some (getLogFilePath lg l) \<and> file_text d2 = file_text d"
proof -
  have opened: "own_files a \<and> same_settings lg a \<and> lgr_log_files a l = Some (getLogFilePath lg l) \<and> file_text b = file_text d"
    if "open_log env l (lg, d) = (a, b)" for a b
    using that assms(1,2) by (auto simp: open_log_def can_log_def own_files_def same_settings_def file_text_def Let_def fun_eq_iff split: if_splits)
  show ?thesis
    using assms(1,3) opened [of lg2 d2]
    by (auto simp: checkRotateFile_def own_files_def same_settings_def split: option.splits if_splits)
qed

lemma line_written:
  assumes "lgr_initialized lg" "own_files lg" "can_log env lg" "writeLog env k (lg, d) = (lg2, d2)"
  shows "own_files lg2 \<and> same_settings lg lg2 \<and>
    file_text d2 p = file_text d p @
      (if p = getLogFilePath lg (lc_level k) \<and> logged lg (lc_level k) then log_line env k else [])"
proof (cases "logged lg (lc_level k)")
  case True
  obtain a b where ab: "checkRotateFile env (lc_level k) (lg, d) = (a, b)" by fastforce
  note ready = file_ready [OF assms(2,3) ab]
  have "(lg2, d2) = (a, b\<lparr>ld_files := (ld_files b)(getLogFilePath lg (lc_level k) \<mapsto>
      file_text b (getLogFilePath lg (lc_level k)) @ log_line env k)\<rparr>)"
    using assms(1,4) True ab ready by (simp add: writeLog_def logged_def)
  then show ?thesis using ready True by (auto simp: file_text_def fun_eq_iff)
qed (use assms in \<open>auto simp: writeLog_def logged_def same_settings_def\<close>)

text \<open>
  Every line of a level that is logged stays in the one file of the level, in order: the limit of the size is
  without effect.
\<close>

lemma log_lines_kept:
  assumes "lgr_initialized lg" "own_files lg" "\<forall>(env, k) \<in> set ks. can_log env lg"
    and "fold (\<lambda>(env, k). writeLog env k) ks (lg, d) = (lg2, d2)" "logged lg l"
  shows "file_text d2 (getLogFilePath lg l) =
    file_text d (getLogFilePath lg l) @ concat (map (\<lambda>(env, k). if lc_level k = l then log_line env k else []) ks)"
  using assms
proof (induction ks arbitrary: lg d)
  case (Cons ek ks)
  obtain env k where ek: "ek = (env, k)" by fastforce
  obtain a b where ab: "writeLog env k (lg, d) = (a, b)" by fastforce
  have one: "own_files a \<and> same_settings lg a \<and> file_text b (getLogFilePath lg l) = file_text d (getLogFilePath lg l) @
      (if getLogFilePath lg l = getLogFilePath lg (lc_level k) \<and> logged lg (lc_level k) then log_line env k else [])"
    using Cons.prems ek ab by (intro line_written) auto
  have path: "getLogFilePath a m = getLogFilePath lg m" for m using one same_path by metis
  have "can_log e a = can_log e lg" for e by (simp add: can_log_def path)
  then have "file_text d2 (getLogFilePath a l) =
      file_text b (getLogFilePath a l) @ concat (map (\<lambda>(env, k). if lc_level k = l then log_line env k else []) ks)"
    using Cons.prems ek ab one by (intro Cons.IH) (auto simp: same_settings_def logged_def)
  then show ?case using one ek Cons.prems(5) by (auto simp: path level_of_path)
qed simp

end
