(* ===== verification/Spec2Isabelle.thy ===== *)
theory Spec2Isabelle
  imports Pdef_Examples Parser_Facts Refinement Task_Manager_Facts Packet_Filter_Facts Capture_Worker_Facts Reload_Thread
    Cleanup_Facts Proc_Data_Facts Sample_Thread Pdef_Usage_Facts Capture_Manager_Facts Url_Handlers_Facts Http_Thread_Facts
    Cli_Reply_Facts Log_Facts
begin

text \<open>
  A verification development for rxtracenetcap, a server that captures network traffic on request.

  The program.  A client asks over HTTP for a capture of an interface, a process, a process id or a container.
  An HTTP thread reads the request (\<open>src/core/legacy_core_net.cpp\<close>, \<open>src/src/rxurlhandlers.cpp\<close>) and sends a
  message to the capture manager thread (\<open>src/src/rxcapturemanagerthread.cpp\<close>).  The manager admits or
  refuses the request, keeps the tasks in a table that other threads read (\<open>src/src/rxsafetaskmgr.h\<close>), gives
  the work to a capture worker (\<open>src/src/rxcapturethread.cpp\<close>, \<open>src/src/rxcapturesession.cpp\<close>) and answers
  through the HTTP thread.  The worker writes packets into rotating dump files
  (\<open>src/src/rxstorageutils.cpp\<close>) and reports to the manager.  When a request names a protocol definition, the
  raw file goes to the filter thread (\<open>src/src/rxfilterthread.cpp\<close>), which keeps the packets the definition
  accepts: a definition is a text that is parsed and compiled to bytecode (\<open>src/src/pdef\<close>) and run on
  payloads (\<open>src/src/runtime\<close>); it may have to find out the byte order, which is then written back into the
  text.  A cleanup thread (\<open>src/src/rxcleanupthread.cpp\<close>) compresses finished files and prunes old ones, a
  sample thread (\<open>src/src/rxsamplethread.cpp\<close>) watches the load of the system and raises alerts that start
  captures, a reload thread (\<open>src/src/rxreloadthread.cpp\<close>) reloads the strategy.

  The way it is modelled.  Every component is a record of its state and one definition per operation, in the
  order of the source and with its names; a definition computes.  Machine integers are words, or integers
  where the code has an \<open>int\<close> that cannot overflow.  Text is a list of characters.  A branch that raises, fails
  or returns early is a value of a sum or option type; an access outside an array or to freed memory is a
  value too (\<open>fault\<close> and \<open>mem_fault\<close> of \<open>Prelude\<close>), so that its absence is a theorem.  System calls, the
  clock, libpcap, the JSON parser, the shell and the kernel's sockets are parameters: records of results
  (\<open>url_env\<close>, \<open>clean_env\<close>, \<open>mgr_env\<close> and the like) or lists of what happens next.  A thread is the sequence
  of its messages, timers and rounds; where threads share memory (the task table, the queue, the byte order of
  a definition) the steps of both are interleaved.

  Shared theories.
  \<^item> \<open>Prelude\<close>: integer types, faults, \<open>try_then\<close>, lemmas on lists and words.  \<open>C_Text\<close>, \<open>Decimal_Facts\<close>,
    \<open>Text_Map\<close>: library routines on text, decimal numbers, ordered maps of text.
  \<^item> \<open>Refinement\<close>: the locales \<open>data_refinement\<close> and \<open>invariant_refinement\<close>, by which a component is related to
    its specification; the task manager is an interpretation.

  Protocol definitions (\<open>src/src/pdef\<close>, \<open>src/src/runtime\<close>, \<open>src/src/utils/endian.h\<close>).
  \<^item> \<open>Pdef_Types\<close> data model; \<open>Lexer\<close>, \<open>Parser\<close> tokens and recursive descent; \<open>Flatten\<close> layout of structs;
    \<open>Filter_Compiler\<close> code generation; \<open>Endian_Read\<close> readers; \<open>Executor\<close> the bytecode machine; \<open>Protocol\<close>
    matching and detection of the byte order; \<open>Pdef_Load\<close> from text to verdict; \<open>Pdef_Verdict\<close> the verdict a
    definition asks for, as \<open>src/docs\<close> has it: its rules read in the order of the mode, or in the detected one.
  \<^item> Shown: in the modes big and automatic the verdict on a packet is the one the definition asks for, on any port
    (the ports of a definition are ignored, other than \<open>src/docs/endian-auto-detection-design.md\<close> says), and in
    the mode little it is that of the rules read in big order (\<open>Pdef_Examples\<close>, \<open>Filter_Compiler\<close>); layouts are
    right when nested fields refer backward, and overlap when they refer forward (\<open>Flatten\<close>); programs that only
    jump forward end; swapping the byte order of a program swaps the byte order of the fields; the first detected
    order wins in every interleaving.  An array that is overrun is a fault (\<open>Executor\<close>, \<open>Pdef_Examples\<close>).

  Tasks and queue.
  \<^item> \<open>Capture_Types\<close>, \<open>Task_Manager\<close> with \<open>Task_Manager_Facts\<close>: tables with an explicit heap of tasks,
    counters and deferred deletion; they refine a map from ids to tasks, free everything once, count exactly;
    a delayed reader can read freed memory.
  \<^item> \<open>Lockfree_Queue\<close>: the ring buffer, sequentially (locale \<open>bounded_fifo\<close>) and with a producer and a consumer
    interleaved at the level of loads and stores.

  Capturing.
  \<^item> \<open>Capture_Messages\<close>, \<open>Manager_Messages\<close> messages; \<open>Dump_Storage\<close> file names, rotation and the packet
    callback; \<open>Capture_Worker\<close> job and thread; \<open>Packet_Filter\<close> frames and the filter thread.  Shown: files stay
    within the limit, the bytes of the open file are counted exactly and nothing is rotated without need, a
    capture ends at its deadline with all packets written, messages come in a fixed order, a raw file becomes
    exactly the packets a definition accepts, in one byte order, payloads lie inside the frame.

  The manager.
  \<^item> \<open>Manager_Text\<close> texts and signatures; \<open>Capture_Start\<close> state and requests; \<open>Capture_Manager\<close> everything
    else; \<open>Pdef_Usage\<close> the write-back of byte orders.  \<open>Capture_Start_Facts\<close> has the invariant of the thread
    (\<open>mgr_inv\<close>, kept by every step) and the answer to a request, determined by its key, its signature and the
    room (\<open>verdict\<close>); \<open>Capture_Manager_Facts\<close> that no run fails and every request is answered exactly once, and
    that a capture runs to its end through manager and worker, failed or completed as the worker saw it;
    \<open>Pdef_Usage_Facts\<close> that a definition changes only while idle and once.

  Around it.
  \<^item> \<open>Server_Config\<close>, \<open>Strategy_Config\<close> (locale \<open>reloadable\<close>), \<open>Reload_Thread\<close>, \<open>Proc_Data\<close>,
    \<open>Process_Resolver\<close>, \<open>Sample_Thread\<close>, \<open>Cleanup_Files\<close> and \<open>Cleanup_Thread\<close>, with \<open>Proc_Data_Facts\<close> and
    \<open>Cleanup_Facts\<close>: the strategy in use is in every part that of the last file that could be read, alerts keep the
    newest, pruning removes what it must and no more of the files called \<open>capture_...\<close> (but compression names its
    archives \<open>batch_...\<close>, which stay for ever), pending files are reported once, a strict reader of JSON reads the
    records back.
  \<^item> \<open>Log_File\<close> the logger, with \<open>Log_Facts\<close>: it takes the options the configuration has put into its path, if
    the limit is below 4096 MB; no line is lost, and the limit has no effect.

  HTTP.
  \<^item> \<open>Http_Head\<close> heads; \<open>Url_Handlers\<close> the handlers; \<open>Http_Conn\<close> one connection with its buffers and protocol
    state; \<open>Net_Timer\<close> the timers of a thread (locale \<open>timer_host\<close>, interpreted on the container of
    \<open>Http_Thread\<close>); \<open>Http_Thread\<close> container, channel and loop.  Shown in \<open>Url_Handlers_Facts\<close>,
    \<open>Http_Conn_Facts\<close> and \<open>Http_Thread_Facts\<close>: only definitions can be read, an uploaded one reads back, an
    asynchronous request is answered once, bytes leave in order, the channel loses nothing, a connection lives
    at most thirty seconds; and what goes wrong: a connection is mute after an answer at once, a late body
    starts two captures, a full socket stalls a response, a failed reply loses the messages behind it.

  The client (\<open>src/tools/rxcli_main.cpp\<close>).
  \<^item> \<open>Cli_Client\<close>: arguments, tasks, request and response.  \<open>Cli_Task_Facts\<close> spells out the request the
    server makes of the payload of a task (\<open>task_request\<close>: some members are renamed, those the client does not
    know are lost), \<open>Cli_Facts\<close> shows that this request reaches the capture manager through the connection,
    \<open>Cli_Reply_Facts\<close> that the client reads the reply the server writes, however its bytes are cut.

  Bounds and termination.  There is no fuel: loops over a buffer, a list or a number are recursive functions
  with a measure.  Three loops of the code can run for ever and are \<open>partial_function (option)\<close>: the bytecode
  machine (\<open>exec_loop\<close>, shown to end for the programs the compiler makes), and the searches for a free timer
  id and a free object id (\<open>free_timerid\<close>, \<open>gen_id_str\<close>), which would not end if all ids were taken.  A capture
  loop consumes the list of dispatch rounds it is given; one without a duration uses up every such list
  (\<open>capture_without_duration_never_ends\<close>).  \<open>lfq_fuel\<close> is the number of pushes before the 64-bit position
  wraps; the theorem on the queue is about runs that stay below it.

  Not modelled.  Vendored RapidJSON and libpcap (parameters).  The remaining utilities of
  \<open>src/core/legacy_core_common.cpp\<close>, \<open>src/src/main.cpp\<close>, \<open>src/src/rxhttpserver.cpp\<close>, the listening socket and the
  start and join of threads: input and output and calls of the system only.  The system calls of epoll and
  sockets: they are the lists of events and results above.  The usage and the error
  texts of the client, and the tests.  Weak memory orders: loads and stores are
  interleaved, not reordered.  Floating-point numbers of the sample thread are rationals.
\<close>

end
